(* ===== verification/Prelude.thy ===== *)
theory Prelude
  imports Complex_Main "HOL-Library.Word" "HOL-Library.Monad_Syntax" "HOL-Library.Signed_Division"
begin

text \<open>
  What every component of the development shares: the machine integers of the C++ code, the
  result type of a run (an \<open>option\<close>: \<open>None\<close> is a run with no result, because the C++ loop
  does not end or because an access leaves its array, which is undefined behaviour), arrays with
  checked accesses, loops over a range with a threaded state and their invariant rule, C++ float
  ceiling division, and the \<open>std::map\<close> of the code as an association list in key order,
  behind the locale \<open>keyed_store\<close>.
\<close>

unbundle bit_operations_syntax

section \<open>Machine integers\<close>

type_synonym u8 = "8 word"
type_synonym u16 = "16 word"
type_synonym u32 = "32 word"

text \<open>
  A C \<open>int\<close> is an \<open>int\<close> of HOL; \<open>i32\<close> is the conversion of an unsigned 32-bit value to
  it, and \<open>of_i32\<close> the conversion back.
\<close>

abbreviation i32 :: "u32 \<Rightarrow> int" where
  "i32 w \<equiv> sint w"

abbreviation of_i32 :: "int \<Rightarrow> u32" where
  "of_i32 x \<equiv> word_of_int x"

lemma of_i32_i32: "of_i32 (i32 w) = w"
  by simp

lemma i32_small: "uint w < 2 ^ 31 \<Longrightarrow> i32 w = uint w" for w :: u32
proof -
  assume a: "uint w < 2 ^ 31"
  have "- 2147483648 \<le> uint w" using uint_ge_0[of w] by linarith
  then show ?thesis using a by (simp add: sint_uint signed_take_bit_int_eq_self)
qed

lemma i32_of_i32: "- (2 ^ 31) \<le> x \<Longrightarrow> x < 2 ^ 31 \<Longrightarrow> i32 (of_i32 x) = x"
  by (simp add: sint_sbintrunc' signed_take_bit_int_eq_self)

lemma bit_push1: "bit (push_bit j 1 :: u32) b \<longleftrightarrow> b = j \<and> b < 32"
  by (auto simp: bit_push_bit_iff bit_1_iff simp del: push_bit_of_1)

lemma bit_u32_less: "bit w b \<Longrightarrow> b < 32" for w :: u32
  by (drule bit_imp_le_length) simp

lemma unat_dec: "0 < r \<Longrightarrow> Suc (unat (r - 1)) = unat r" for r :: u32
  by unat_arith

named_theorems loop_intro

section \<open>Arrays\<close>

definition rd :: "'a list \<Rightarrow> nat \<Rightarrow> 'a option" where
  "rd xs i = (if i < length xs then Some (xs ! i) else None)"

definition wr :: "'a list \<Rightarrow> nat \<Rightarrow> 'a \<Rightarrow> 'a list option" where
  "wr xs i v = (if i < length xs then Some (xs[i := v]) else None)"

lemma rd_in [simp]: "i < length xs \<Longrightarrow> rd xs i = Some (xs ! i)"
  by (simp add: rd_def)

lemma wr_in [simp]: "i < length xs \<Longrightarrow> wr xs i v = Some (xs[i := v])"
  by (simp add: wr_def)

lemma rd_SomeD: "rd xs i = Some v \<Longrightarrow> i < length xs \<and> v = xs ! i"
  by (auto simp: rd_def split: if_splits)

lemma wr_SomeD: "wr xs i v = Some ys \<Longrightarrow> i < length xs \<and> ys = xs[i := v]"
  by (auto simp: wr_def split: if_splits)

text \<open>Arrays of two dimensions.\<close>

definition wr2 :: "'a list list \<Rightarrow> nat \<Rightarrow> nat \<Rightarrow> 'a \<Rightarrow> 'a list list option" where
  "wr2 xss i j v = do { row \<leftarrow> rd xss i; row' \<leftarrow> wr row j v; wr xss i row' }"

definition rd2 :: "'a list list \<Rightarrow> nat \<Rightarrow> nat \<Rightarrow> 'a option" where
  "rd2 xss i j = do { row \<leftarrow> rd xss i; rd row j }"

lemma wr2_in [simp]:
  "i < length xss \<Longrightarrow> j < length (xss ! i) \<Longrightarrow> wr2 xss i j v = Some (xss[i := (xss ! i)[j := v]])"
  by (simp add: wr2_def)

lemma rd2_in [simp]: "i < length xss \<Longrightarrow> j < length (xss ! i) \<Longrightarrow> rd2 xss i j = Some (xss ! i ! j)"
  by (simp add: rd2_def)

section \<open>Loops with a threaded state\<close>

lemma bind_not_None: "f \<noteq> None \<Longrightarrow> (\<And>x. f = Some x \<Longrightarrow> g x \<noteq> None) \<Longrightarrow> Option.bind f g \<noteq> None"
  by auto

fun foldM :: "('x \<Rightarrow> 's \<Rightarrow> 's option) \<Rightarrow> 'x list \<Rightarrow> 's \<Rightarrow> 's option" where
  "foldM f [] s = Some s"
| "foldM f (x # xs) s = do { s' \<leftarrow> f x s; foldM f xs s' }"

lemma foldM_append:
  "foldM f (xs @ ys) s = do { s' \<leftarrow> foldM f xs s; foldM f ys s' }"
  by (induction xs arbitrary: s) (auto split: Option.bind_splits)

text \<open>Partial correctness of a loop, and total correctness: the loop has a result.\<close>

lemma foldM_invariant:
  assumes "foldM f xs s = Some s'" and "I s"
    and "\<And>x s s'. x \<in> set xs \<Longrightarrow> I s \<Longrightarrow> f x s = Some s' \<Longrightarrow> I s'"
  shows "I s'"
  using assms
proof (induction xs arbitrary: s)
  case Nil
  then show ?case by simp
next
  case (Cons x xs)
  from Cons.prems(1) obtain t where t: "f x s = Some t" "foldM f xs t = Some s'"
    by (auto simp: bind_eq_Some_conv)
  have "I t" using Cons.prems(2,3) t(1) by (meson list.set_intros(1))
  then show ?case using Cons.IH[OF t(2)] Cons.prems(3) by (meson list.set_intros(2))
qed

lemma foldM_total:
  assumes "I s" and "\<And>x s. x \<in> set xs \<Longrightarrow> I s \<Longrightarrow> \<exists>s'. f x s = Some s' \<and> I s'"
  shows "\<exists>s'. foldM f xs s = Some s' \<and> I s'"
  using assms
proof (induction xs arbitrary: s)
  case Nil
  then show ?case by simp
next
  case (Cons x xs)
  obtain t where "f x s = Some t" "I t"
    using Cons.prems(1) Cons.prems(2)[of x s] by auto
  then show ?case using Cons.IH[of t] Cons.prems(2) by fastforce
qed

text \<open>A range loop whose state after \<open>i\<close> rounds is known.\<close>

lemma foldM_upt:
  assumes "a \<le> b" and "\<And>i. a \<le> i \<Longrightarrow> i < b \<Longrightarrow> f i (st i) = Some (st (Suc i))"
  shows "foldM f [a..<b] (st a) = Some (st b)"
  using assms
proof (induction "b - a" arbitrary: a)
  case 0
  then show ?case by simp
next
  case (Suc d)
  then have ab: "a < b" by simp
  have "foldM f [Suc a..<b] (st (Suc a)) = Some (st b)"
    using Suc.hyps(1)[of "Suc a"] Suc.hyps(2) Suc.prems ab by simp
  then show ?case using Suc.prems(2)[of a] ab by (simp add: upt_conv_Cons)
qed

section \<open>Division\<close>

text \<open>
  The code rounds up with \<open>ceil((float) n / p)\<close>. For the block counts it is used on (below
  $2^{24}$) the float quotient of two integers rounds to an integer only where it is one, so the
  result is the exact ceiling.
\<close>

definition ceil_div :: "nat \<Rightarrow> nat \<Rightarrow> nat" where
  "ceil_div n p = (if p = 0 then 0 else (n + p - 1) div p)"

lemma ceil_div_least:
  assumes "0 < p"
  shows "ceil_div n p \<le> k \<longleftrightarrow> n \<le> k * p"
proof -
  have "(n + p - 1) div p \<le> k \<longleftrightarrow> (n + p - 1) div p < Suc k" by linarith
  also have "\<dots> \<longleftrightarrow> n + p - 1 < Suc k * p"
    using assms by (simp add: div_less_iff_less_mult)
  also have "\<dots> \<longleftrightarrow> n \<le> k * p" using assms by auto
  finally show ?thesis using assms by (simp add: ceil_div_def)
qed

lemma ceil_div_covers: "0 < p \<Longrightarrow> n \<le> ceil_div n p * p"
  using ceil_div_least[of p n "ceil_div n p"] by simp

lemma ceil_div_ceiling:
  assumes "0 < p"
  shows "int (ceil_div n p) = \<lceil>(of_nat n :: rat) / of_nat p\<rceil>"
proof (rule ceiling_unique[symmetric])
  have c: "n \<le> ceil_div n p * p" using assms by (rule ceil_div_covers)
  show "(of_nat n :: rat) / of_nat p \<le> of_int (int (ceil_div n p))"
    using c assms by (simp add: field_simps flip: of_nat_mult)
  show "of_int (int (ceil_div n p)) - 1 < (of_nat n :: rat) / of_nat p"
  proof (cases "ceil_div n p")
    case 0
    then show ?thesis using assms by (simp add: field_simps add_pos_nonneg)
  next
    case (Suc k)
    then have "\<not> n \<le> k * p" using ceil_div_least[OF assms, of n k] by simp
    then have "(of_nat (k * p) :: rat) < of_nat n" by (simp only: of_nat_less_iff)
    then show ?thesis using assms Suc by (simp add: field_simps)
  qed
qed

text \<open>C division of \<open>int\<close> values truncates towards zero.\<close>

abbreviation cdiv :: "int \<Rightarrow> int \<Rightarrow> int" where
  "cdiv a b \<equiv> a sdiv b"

lemma cdiv_nonneg: "0 \<le> a \<Longrightarrow> 0 < b \<Longrightarrow> a sdiv b = a div b" for a b :: int
  by (simp add: signed_divide_int_def sgn_if)

section \<open>The ordered map of the C++ library\<close>

type_synonym ('k, 'v) omap = "('k \<times> 'v) list"

fun omap_set :: "'k::linorder \<Rightarrow> 'v \<Rightarrow> ('k, 'v) omap \<Rightarrow> ('k, 'v) omap" where
  "omap_set k v [] = [(k, v)]"
| "omap_set k v ((k', v') # m) =
     (if k < k' then (k, v) # (k', v') # m
      else if k = k' then (k, v) # m
      else (k', v') # omap_set k v m)"

definition omap_del :: "'k \<Rightarrow> ('k, 'v) omap \<Rightarrow> ('k, 'v) omap" where
  "omap_del k m = filter (\<lambda>p. fst p \<noteq> k) m"

abbreviation omap_get :: "('k, 'v) omap \<Rightarrow> 'k \<Rightarrow> 'v option" where
  "omap_get m k \<equiv> map_of m k"

definition omap_wf :: "('k::linorder, 'v) omap \<Rightarrow> bool" where
  "omap_wf m \<longleftrightarrow> sorted_wrt (<) (map fst m)"

lemma omap_get_set: "omap_get (omap_set k v m) = (omap_get m)(k \<mapsto> v)"
  by (induction k v m rule: omap_set.induct) auto

lemma omap_get_del: "omap_get (omap_del k m) = (omap_get m)(k := None)"
  by (induction m) (auto simp: omap_del_def)

lemma set_omap_set: "fst ` set (omap_set k v m) = insert k (fst ` set m)"
  by (induction k v m rule: omap_set.induct) auto

lemma set_omap_set_sub: "set (omap_set k v m) \<subseteq> insert (k, v) (set m)"
  by (induction k v m rule: omap_set.induct) auto

lemma omap_wf_set: "omap_wf m \<Longrightarrow> omap_wf (omap_set k v m)"
proof (induction k v m rule: omap_set.induct)
  case (1 k v)
  then show ?case by (simp add: omap_wf_def)
next
  case (2 k v k' v' m)
  then have "sorted_wrt (<) (map fst m)" "\<forall>x \<in> fst ` set m. k' < x"
    by (auto simp: omap_wf_def)
  with 2 show ?case
    using set_omap_set[of k v m] by (auto simp: omap_wf_def)
qed

lemma omap_wf_del: "omap_wf m \<Longrightarrow> omap_wf (omap_del k m)"
  by (induction m) (auto simp: omap_wf_def omap_del_def)

lemma omap_wf_distinct: "omap_wf m \<Longrightarrow> distinct (map fst m)"
  by (auto simp: omap_wf_def strict_sorted_iff)

text \<open>
  What the components rely on when they keep users in a map: the laws of lookup, insertion and
  erasure, and that the keys stay in order. The client lemmas are proved from the laws alone.
\<close>

locale keyed_store =
  fixes look :: "'m \<Rightarrow> 'k \<Rightarrow> 'v option"
    and put :: "'k \<Rightarrow> 'v \<Rightarrow> 'm \<Rightarrow> 'm"
    and del :: "'k \<Rightarrow> 'm \<Rightarrow> 'm"
    and emp :: 'm
    and wf :: "'m \<Rightarrow> bool"
  assumes look_put: "look (put k v m) = (look m)(k \<mapsto> v)"
    and look_del: "look (del k m) = (look m)(k := None)"
    and look_emp: "look emp k = None"
    and wf_put: "wf m \<Longrightarrow> wf (put k v m)"
    and wf_del: "wf m \<Longrightarrow> wf (del k m)"
    and wf_emp: "wf emp"
begin

lemma put_same: "look (put k v m) k = Some v"
  by (simp add: look_put)

lemma put_other: "j \<noteq> k \<Longrightarrow> look (put k v m) j = look m j"
  by (simp add: look_put)

lemma del_same: "look (del k m) k = None"
  by (simp add: look_del)

lemma del_other: "j \<noteq> k \<Longrightarrow> look (del k m) j = look m j"
  by (simp add: look_del)

lemma del_put: "look (del k (put k v m)) = look (del k m)"
  by (simp add: look_put look_del)

lemma put_put: "look (put k v (put k w m)) = look (put k v m)"
  by (simp add: look_put)

end

interpretation om: keyed_store omap_get omap_set omap_del "[] :: ('k::linorder, 'v) omap" omap_wf
  by unfold_locales
    (auto simp: omap_get_set omap_get_del omap_wf_set omap_wf_del, simp add: omap_wf_def)

end
