(* ===== verification/Harq.thy ===== *)
theory Harq
  imports Prelude
begin

text \<open>
  The HARQ processes of the scheduler (\<open>scheduler_harq.h\<close>, \<open>scheduler_harq.cc\<close>): the common
  class \<open>harq_proc\<close>, and its downlink and uplink subclasses as extensions of its record. The
  arrays over the \<open>SRSLTE_MAX_TB\<close> transport blocks are functions of the block index. Theory
  \<open>Harq_Lifecycle\<close> states what they promise.
\<close>

section \<open>State\<close>

record harq_proc =
  hq_ack :: "nat \<Rightarrow> bool"
  hq_active :: "nat \<Rightarrow> bool"
  hq_ndi :: "nat \<Rightarrow> bool"
  hq_id :: u32
  hq_max_retx :: u32
  hq_n_rtx :: "nat \<Rightarrow> u32"
  hq_tx_cnt :: "nat \<Rightarrow> u32"
  hq_tti :: int
  hq_last_mcs :: "nat \<Rightarrow> int"
  hq_last_tbs :: "nat \<Rightarrow> int"
  hq_ack_received :: "nat \<Rightarrow> bool"

record dl_harq_proc = harq_proc +
  hq_rbgmask :: u32
  hq_nof_rbg :: u32
  hq_n_cce :: u32

record ul_alloc =
  ua_RB_start :: u32
  ua_L :: u32

record ul_harq_proc = harq_proc +
  hq_allocation :: ul_alloc
  hq_need_ack :: bool
  hq_pending_data :: int
  hq_rar_mcs :: u32
  hq_has_rar_mcs :: bool
  hq_is_adaptive :: bool
  hq_is_msg3 :: bool

text \<open>The processes as the constructor of their user leaves them: all bytes zero.\<close>

definition harq_zero :: dl_harq_proc where
  "harq_zero = \<lparr>hq_ack = (\<lambda>_. False), hq_active = (\<lambda>_. False), hq_ndi = (\<lambda>_. False), hq_id = 0,
     hq_max_retx = 0, hq_n_rtx = (\<lambda>_. 0), hq_tx_cnt = (\<lambda>_. 0), hq_tti = 0,
     hq_last_mcs = (\<lambda>_. 0), hq_last_tbs = (\<lambda>_. 0), hq_ack_received = (\<lambda>_. False),
     hq_rbgmask = 0, hq_nof_rbg = 0, hq_n_cce = 0\<rparr>"

definition ul_harq_zero :: ul_harq_proc where
  "ul_harq_zero = \<lparr>hq_ack = (\<lambda>_. False), hq_active = (\<lambda>_. False), hq_ndi = (\<lambda>_. False), hq_id = 0,
     hq_max_retx = 0, hq_n_rtx = (\<lambda>_. 0), hq_tx_cnt = (\<lambda>_. 0), hq_tti = 0,
     hq_last_mcs = (\<lambda>_. 0), hq_last_tbs = (\<lambda>_. 0), hq_ack_received = (\<lambda>_. False),
     hq_allocation = \<lparr>ua_RB_start = 0, ua_L = 0\<rparr>, hq_need_ack = False, hq_pending_data = 0,
     hq_rar_mcs = 0, hq_has_rar_mcs = False, hq_is_adaptive = False, hq_is_msg3 = False\<rparr>"

section \<open>Operations common to both directions\<close>

definition harq_config :: "nat \<Rightarrow> u32 \<Rightarrow> u32 \<Rightarrow> 'a harq_proc_scheme \<Rightarrow> 'a harq_proc_scheme" where
  "harq_config max_tb i m h =
     h\<lparr>hq_id := i, hq_max_retx := m,
       hq_ndi := (\<lambda>tb. if tb < max_tb then False else hq_ndi h tb)\<rparr>"

definition set_max_retx :: "u32 \<Rightarrow> 'a harq_proc_scheme \<Rightarrow> 'a harq_proc_scheme" where
  "set_max_retx m h = h\<lparr>hq_max_retx := m\<rparr>"

definition harq_reset :: "nat \<Rightarrow> 'a harq_proc_scheme \<Rightarrow> 'a harq_proc_scheme" where
  "harq_reset tb h = h\<lparr>
     hq_active := (hq_active h)(tb := False),
     hq_ack := (hq_ack h)(tb := True),
     hq_ack_received := (hq_ack_received h)(tb := False),
     hq_n_rtx := (hq_n_rtx h)(tb := 0),
     hq_tti := 0,
     hq_last_mcs := (hq_last_mcs h)(tb := -1),
     hq_last_tbs := (hq_last_tbs h)(tb := -1),
     hq_tx_cnt := (hq_tx_cnt h)(tb := 0)\<rparr>"

definition is_empty :: "'a harq_proc_scheme \<Rightarrow> nat \<Rightarrow> bool" where
  "is_empty h tb \<longleftrightarrow>
     \<not> hq_active h tb \<or> (hq_active h tb \<and> hq_ack h tb \<and> hq_ack_received h tb)"

definition has_pending_retx_common :: "'a harq_proc_scheme \<Rightarrow> nat \<Rightarrow> bool" where
  "has_pending_retx_common h tb \<longleftrightarrow> \<not> hq_ack h tb \<and> hq_n_rtx h tb < hq_max_retx h"

definition get_tti :: "'a harq_proc_scheme \<Rightarrow> u32" where
  "get_tti h = of_i32 (hq_tti h)"

definition get_ack :: "'a harq_proc_scheme \<Rightarrow> nat \<Rightarrow> bool" where
  "get_ack h tb = hq_ack h tb"

definition set_ack :: "nat \<Rightarrow> bool \<Rightarrow> 'a harq_proc_scheme \<Rightarrow> 'a harq_proc_scheme" where
  "set_ack tb a h =
     (let h = h\<lparr>hq_ack := (hq_ack h)(tb := a),
                hq_ack_received := (hq_ack_received h)(tb := True)\<rparr>
      in if hq_max_retx h \<le> hq_n_rtx h tb + 1
         then h\<lparr>hq_active := (hq_active h)(tb := False)\<rparr>
         else h)"

definition new_tx_common :: "nat \<Rightarrow> u32 \<Rightarrow> int \<Rightarrow> int \<Rightarrow> 'a harq_proc_scheme \<Rightarrow> 'a harq_proc_scheme" where
  "new_tx_common tb t mcs tbs h =
     (let h = harq_reset tb h;
          h = h\<lparr>hq_ndi := (hq_ndi h)(tb := \<not> hq_ndi h tb)\<rparr>;
          h = h\<lparr>hq_tti := i32 t\<rparr>;
          h = h\<lparr>hq_tx_cnt := (hq_tx_cnt h)(tb := hq_tx_cnt h tb + 1)\<rparr>;
          h = h\<lparr>hq_last_mcs := (hq_last_mcs h)(tb := mcs)\<rparr>;
          h = h\<lparr>hq_last_tbs := (hq_last_tbs h)(tb := tbs)\<rparr>
      in if hq_max_retx h \<noteq> 0
         then h\<lparr>hq_active := (hq_active h)(tb := True)\<rparr>
         else h\<lparr>hq_active := (hq_active h)(tb := False)\<rparr>)"

text \<open>\<open>new_retx\<close> writes the last MCS and size through its pointers: they are its results.\<close>

definition new_retx :: "nat \<Rightarrow> u32 \<Rightarrow> 'a harq_proc_scheme \<Rightarrow> (int \<times> int) \<times> 'a harq_proc_scheme" where
  "new_retx tb t h =
     ((hq_last_mcs h tb, hq_last_tbs h tb),
      h\<lparr>hq_ack_received := (hq_ack_received h)(tb := False),
        hq_tti := i32 t,
        hq_n_rtx := (hq_n_rtx h)(tb := hq_n_rtx h tb + 1)\<rparr>)"

definition nof_tx :: "'a harq_proc_scheme \<Rightarrow> nat \<Rightarrow> u32" where
  "nof_tx h tb = hq_tx_cnt h tb"

definition nof_retx :: "'a harq_proc_scheme \<Rightarrow> nat \<Rightarrow> u32" where
  "nof_retx h tb = hq_n_rtx h tb"

definition get_ndi :: "'a harq_proc_scheme \<Rightarrow> nat \<Rightarrow> bool" where
  "get_ndi h tb = hq_ndi h tb"

lemmas harq_defs = harq_config_def set_max_retx_def harq_reset_def is_empty_def
  has_pending_retx_common_def get_tti_def get_ack_def set_ack_def new_tx_common_def new_retx_def
  nof_tx_def nof_retx_def get_ndi_def Let_def

section \<open>Downlink processes\<close>

definition dl_new_tx :: "nat \<Rightarrow> u32 \<Rightarrow> int \<Rightarrow> int \<Rightarrow> u32 \<Rightarrow> dl_harq_proc \<Rightarrow> dl_harq_proc" where
  "dl_new_tx tb t mcs tbs ncce h = new_tx_common tb t mcs tbs (h\<lparr>hq_n_cce := ncce\<rparr>)"

definition get_n_cce :: "dl_harq_proc \<Rightarrow> u32" where
  "get_n_cce h = hq_n_cce h"

definition get_rbgmask :: "dl_harq_proc \<Rightarrow> u32" where
  "get_rbgmask h = hq_rbgmask h"

definition set_rbgmask :: "u32 \<Rightarrow> dl_harq_proc \<Rightarrow> dl_harq_proc" where
  "set_rbgmask m h = h\<lparr>hq_rbgmask := m\<rparr>"

text \<open>
  \<open>srslte_tti_interval\<close> and \<open>HARQ_DELAY_MS\<close> come from the library and are arguments.
\<close>

definition dl_has_pending_retx ::
  "(u32 \<Rightarrow> u32 \<Rightarrow> u32) \<Rightarrow> nat \<Rightarrow> nat \<Rightarrow> u32 \<Rightarrow> dl_harq_proc \<Rightarrow> bool" where
  "dl_has_pending_retx tti_interval delay tb now h \<longleftrightarrow>
     of_nat (2 * delay) \<le> tti_interval now (of_i32 (hq_tti h)) \<and> has_pending_retx_common h tb"

definition dl_get_tbs :: "dl_harq_proc \<Rightarrow> nat \<Rightarrow> int" where
  "dl_get_tbs h tb = hq_last_tbs h tb"

section \<open>Uplink processes\<close>

definition get_alloc :: "ul_harq_proc \<Rightarrow> ul_alloc" where
  "get_alloc h = hq_allocation h"

definition set_alloc :: "ul_alloc \<Rightarrow> ul_harq_proc \<Rightarrow> ul_harq_proc" where
  "set_alloc a h = h\<lparr>hq_is_adaptive := False, hq_allocation := a\<rparr>"

definition re_alloc :: "ul_alloc \<Rightarrow> ul_harq_proc \<Rightarrow> ul_harq_proc" where
  "re_alloc a h = h\<lparr>hq_is_adaptive := True, hq_allocation := a\<rparr>"

definition is_adaptive_retx :: "ul_harq_proc \<Rightarrow> bool" where
  "is_adaptive_retx h = hq_is_adaptive h"

definition ul_new_tx :: "u32 \<Rightarrow> int \<Rightarrow> int \<Rightarrow> ul_harq_proc \<Rightarrow> ul_harq_proc" where
  "ul_new_tx t mcs tbs h =
     (let h = h\<lparr>hq_need_ack := True\<rparr>;
          h = new_tx_common 0 t mcs tbs h
      in h\<lparr>hq_pending_data := tbs\<rparr>)"

definition has_pending_ack :: "ul_harq_proc \<Rightarrow> bool \<times> ul_harq_proc" where
  "has_pending_ack h =
     (let ret = hq_need_ack h;
          h = (if hq_active h 0 \<and> hq_ack h 0 then h\<lparr>hq_active := (hq_active h)(0 := False)\<rparr> else h);
          h = (if \<not> hq_active h 0 then h\<lparr>hq_need_ack := False\<rparr> else h)
      in (ret, h))"

definition reset_pending_data :: "ul_harq_proc \<Rightarrow> ul_harq_proc" where
  "reset_pending_data h = (if \<not> hq_active h 0 then h\<lparr>hq_pending_data := 0\<rparr> else h)"

definition get_pending_data :: "ul_harq_proc \<Rightarrow> u32" where
  "get_pending_data h = of_i32 (hq_pending_data h)"

definition set_rar_mcs :: "u32 \<Rightarrow> ul_harq_proc \<Rightarrow> ul_harq_proc" where
  "set_rar_mcs mcs h = h\<lparr>hq_rar_mcs := mcs, hq_has_rar_mcs := True\<rparr>"

definition get_rar_mcs :: "ul_harq_proc \<Rightarrow> int option \<times> ul_harq_proc" where
  "get_rar_mcs h =
     (if hq_has_rar_mcs h then (Some (i32 (hq_rar_mcs h)), h\<lparr>hq_has_rar_mcs := False\<rparr>)
      else (None, h))"

lemmas dl_harq_defs = dl_new_tx_def get_n_cce_def get_rbgmask_def set_rbgmask_def
  dl_has_pending_retx_def dl_get_tbs_def

lemmas ul_harq_defs = get_alloc_def set_alloc_def re_alloc_def is_adaptive_retx_def ul_new_tx_def
  has_pending_ack_def reset_pending_data_def get_pending_data_def set_rar_mcs_def get_rar_mcs_def

end
