(* ===== verification/Harq_Lifecycle.thy ===== *)
theory Harq_Lifecycle
  imports Harq
begin

text \<open>
  What the HARQ processes promise: the life cycle of one transport block as a three-state
  machine that the operations of \<open>scheduler_harq.cc\<close> refine, the bound on its transmissions as
  an invariant of all runs, the protocol of the new-data indicator, and the frame laws that keep
  the transport blocks of a process apart.
\<close>

section \<open>Laws of the operations\<close>

lemma reset_empty [simp]: "is_empty (harq_reset tb h) tb"
  by (simp add: harq_defs)

lemma reset_no_retx [simp]: "\<not> has_pending_retx_common (harq_reset tb h) tb"
  by (simp add: harq_defs)

lemma reset_ndi [simp]: "hq_ndi (harq_reset tb h) = hq_ndi h"
  by (simp add: harq_defs)

lemma reset_max_retx [simp]: "hq_max_retx (harq_reset tb h) = hq_max_retx h"
  by (simp add: harq_defs)

lemma new_tx_max_retx [simp]: "hq_max_retx (new_tx_common tb t m s h) = hq_max_retx h"
  by (simp add: harq_defs)

lemma set_ack_max_retx [simp]: "hq_max_retx (set_ack tb a h) = hq_max_retx h"
  by (simp add: harq_defs)

lemma new_retx_max_retx [simp]: "hq_max_retx (snd (new_retx tb t h)) = hq_max_retx h"
  by (simp add: harq_defs)

lemma is_empty_new_tx: "is_empty (new_tx_common tb t m s h) tb \<longleftrightarrow> hq_max_retx h = 0"
  by (simp add: harq_defs)

lemma is_empty_set_ack:
  "is_empty (set_ack tb a h) tb \<longleftrightarrow>
     \<not> hq_active h tb \<or> a \<or> hq_max_retx h \<le> hq_n_rtx h tb + 1"
  by (simp add: harq_defs)

lemma nof_tx_new_tx: "nof_tx (new_tx_common tb t m s h) tb = 1"
  by (simp add: harq_defs)

lemma get_tti_new_tx: "get_tti (new_tx_common tb t m s h) = t"
  by (simp add: harq_defs)

lemma get_tti_new_retx: "get_tti (snd (new_retx tb t h)) = t"
  by (simp add: harq_defs)

lemma get_tti_reset: "get_tti (harq_reset tb h) = 0"
  by (simp add: harq_defs)

text \<open>The transport blocks of one process do not interfere (they share its TTI).\<close>

lemma frame_is_empty [simp]:
  assumes "b \<noteq> tb"
  shows "is_empty (harq_reset tb h) b = is_empty h b"
    and "is_empty (new_tx_common tb t m s h) b = is_empty h b"
    and "is_empty (set_ack tb a h) b = is_empty h b"
    and "is_empty (snd (new_retx tb t h)) b = is_empty h b"
  using assms by (simp_all add: harq_defs)

lemma frame_ndi [simp]:
  assumes "b \<noteq> tb"
  shows "get_ndi (new_tx_common tb t m s h) b = get_ndi h b"
    and "get_ndi (snd (new_retx tb t h)) b = get_ndi h b"
    and "get_ndi (set_ack tb a h) b = get_ndi h b"
  using assms by (simp_all add: harq_defs)

section \<open>The abstract life cycle\<close>

text \<open>
  A transport block is idle, waits for the feedback of its last transmission, or has been
  refused. The number is the count of retransmissions so far.
\<close>

datatype tb_life = Idle | Waiting nat | Refused nat

datatype tb_event = Send | Feedback bool | Resend

definition life_of :: "nat \<Rightarrow> 'a harq_proc_scheme \<Rightarrow> tb_life" where
  "life_of tb h =
     (if is_empty h tb then Idle
      else if hq_ack_received h tb then Refused (unat (hq_n_rtx h tb))
      else Waiting (unat (hq_n_rtx h tb)))"

fun life_step :: "nat \<Rightarrow> tb_life \<Rightarrow> tb_event \<Rightarrow> tb_life option" where
  "life_step m Idle Send = Some (if m = 0 then Idle else Waiting 0)"
| "life_step m (Waiting n) (Feedback a) =
     Some (if a \<or> m \<le> n + 1 then Idle else Refused n)"
| "life_step m (Refused n) Resend = Some (Waiting (n + 1))"
| "life_step m _ _ = None"

definition tb_event_step :: "nat \<Rightarrow> u32 \<Rightarrow> int \<Rightarrow> int \<Rightarrow> tb_event \<Rightarrow> 'a harq_proc_scheme \<Rightarrow> 'a harq_proc_scheme" where
  "tb_event_step tb t mcs tbs e h =
     (case e of
        Send \<Rightarrow> new_tx_common tb t mcs tbs h
      | Feedback a \<Rightarrow> set_ack tb a h
      | Resend \<Rightarrow> snd (new_retx tb t h))"

lemma life_of_idle: "life_of tb h = Idle \<longleftrightarrow> is_empty h tb"
  by (simp add: life_of_def)

lemma life_of_waiting:
  "life_of tb h = Waiting n \<longleftrightarrow>
     hq_active h tb \<and> \<not> hq_ack_received h tb \<and> n = unat (hq_n_rtx h tb)"
  by (auto simp: life_of_def is_empty_def)

lemma life_of_refused:
  "life_of tb h = Refused n \<longleftrightarrow>
     hq_active h tb \<and> hq_ack_received h tb \<and> \<not> hq_ack h tb \<and> n = unat (hq_n_rtx h tb)"
  by (auto simp: life_of_def is_empty_def)

lemma unat_Suc_of_less: "x < y \<Longrightarrow> unat (x + 1) = Suc (unat x)" for x y :: u32
  by unat_arith

lemma max_le_Suc_iff:
  "n < m \<Longrightarrow> m \<le> n + 1 \<longleftrightarrow> unat m \<le> Suc (unat n)" for n m :: u32
  by (simp add: word_le_nat_alt unat_Suc_of_less)

section \<open>Runs of one transport block\<close>

text \<open>
  The steps the scheduler takes with one transport block, with two counts beside the process: the
  transmissions of the current block, and those of them that were resent although no feedback had
  arrived for the transmission before. The guards are those of the code: a block is resent when its
  process is not empty (\<open>generate_format1\<close>, \<open>generate_format2a\<close>, \<open>generate_format0\<close>), also one whose
  feedback is missing; a new block may start at any time (the Msg3 of a random access does not look at
  the process); feedback may arrive at any time, also twice or for no transmission; the limit is set on
  an empty process (\<open>ul_sched\<close>); the PHICH query may close a process (\<open>has_pending_ack\<close>), and a process may
  be reset at any time.
\<close>

inductive harq_step :: "nat \<Rightarrow> 'a harq_proc_scheme \<times> nat \<times> nat \<Rightarrow> 'a harq_proc_scheme \<times> nat \<times> nat \<Rightarrow> bool" for tb where
  send: "harq_step tb (h, n, q) (new_tx_common tb t mcs tbs h, 1, 0)"
| feedback: "harq_step tb (h, n, q) (set_ack tb a h, n, q)"
| resend: "\<not> is_empty h tb \<Longrightarrow>
    harq_step tb (h, n, q) (snd (new_retx tb t h), n + 1, if hq_ack_received h tb then q else q + 1)"
| limit: "is_empty h tb \<Longrightarrow> harq_step tb (h, n, q) (set_max_retx m h, n, q)"
| close: "harq_step tb (h, n, q) (h\<lparr>hq_active := (hq_active h)(tb := False)\<rparr>, n, q)"
| reset: "harq_step tb (h, n, q) (harq_reset tb h, 0, 0)"

inductive harq_run :: "nat \<Rightarrow> 'a harq_proc_scheme \<times> nat \<times> nat \<Rightarrow> 'a harq_proc_scheme \<times> nat \<times> nat \<Rightarrow> bool" for tb a where
  start: "harq_run tb a a"
| step: "harq_run tb a b \<Longrightarrow> harq_step tb b c \<Longrightarrow> harq_run tb a c"

text \<open>The invariant of all runs, below the wrap of the code's 32-bit count: the count of the process is
  the true one, a block in its process was sent at most \<open>max_retx\<close> times besides its unanswered
  retransmissions, and a refused one fewer times.\<close>

definition sends_ok :: "nat \<Rightarrow> 'a harq_proc_scheme \<times> nat \<times> nat \<Rightarrow> bool" where
  "sends_ok tb c = (case c of (h, n, q) \<Rightarrow> n < 2 ^ 32 \<longrightarrow> hq_active h tb \<longrightarrow>
     n = Suc (unat (hq_n_rtx h tb)) \<and>
     (\<not> is_empty h tb \<longrightarrow> n \<le> unat (hq_max_retx h) + q \<and>
        (hq_ack_received h tb \<longrightarrow> n < unat (hq_max_retx h))))"

lemma sends_ok_new_tx: "sends_ok tb (new_tx_common tb t mcs tbs h, 1, 0)"
proof (cases "hq_max_retx h = 0")
  case True
  then show ?thesis by (simp add: sends_ok_def harq_defs)
next
  case False
  then have "1 \<le> unat (hq_max_retx h)" by (simp add: Suc_le_eq unat_gt_0)
  then show ?thesis by (simp add: sends_ok_def harq_defs)
qed

lemma count_next: "Suc (unat x) < 2 ^ 32 \<Longrightarrow> unat (x + 1) = Suc (unat x)" for x :: u32
  by (simp add: unat_word_ariths)

lemma sends_ok_set_ack:
  assumes "sends_ok tb (h, n, q)"
  shows "sends_ok tb (set_ack tb a h, n, q)"
proof (cases "n < 2 ^ 32 \<and> hq_active (set_ack tb a h) tb")
  case True
  then have act: "hq_active h tb" and lim: "hq_n_rtx h tb + 1 < hq_max_retx h"
    by (auto simp: set_ack_def Let_def not_le split: if_splits)
  have n: "n = Suc (unat (hq_n_rtx h tb))" using assms True act by (simp add: sends_ok_def)
  then have "n < unat (hq_max_retx h)" using lim True count_next[of "hq_n_rtx h tb"] by (simp add: word_less_nat_alt)
  then show ?thesis using n by (simp add: sends_ok_def set_ack_def Let_def)
qed (auto simp: sends_ok_def)

lemma sends_ok_new_retx:
  assumes "sends_ok tb (h, n, q)" and "\<not> is_empty h tb"
  shows "sends_ok tb (snd (new_retx tb t h), n + 1, if hq_ack_received h tb then q else q + 1)"
proof (cases "n + 1 < 2 ^ 32")
  case True
  have "hq_active h tb" using assms(2) by (simp add: is_empty_def)
  then have n: "n = Suc (unat (hq_n_rtx h tb))" "n \<le> unat (hq_max_retx h) + q"
      "hq_ack_received h tb \<longrightarrow> n < unat (hq_max_retx h)"
    using assms True by (auto simp: sends_ok_def)
  have "unat (hq_n_rtx h tb + 1) = n" using n(1) True count_next[of "hq_n_rtx h tb"] by simp
  then show ?thesis using n by (auto simp: sends_ok_def new_retx_def)
qed (simp add: sends_ok_def)

lemma harq_step_sends: "harq_step tb b c \<Longrightarrow> sends_ok tb b \<Longrightarrow> sends_ok tb c"
proof (induction rule: harq_step.induct)
  case (send h n q t mcs tbs)
  show ?case by (rule sends_ok_new_tx)
next
  case (feedback h n q a)
  then show ?case by (rule sends_ok_set_ack)
next
  case (resend h n q t)
  then show ?case by (intro sends_ok_new_retx)
qed (auto simp: sends_ok_def set_max_retx_def is_empty_def harq_reset_def)

lemma harq_run_sends: "harq_run tb b c \<Longrightarrow> sends_ok tb b \<Longrightarrow> sends_ok tb c"
  by (induction rule: harq_run.induct) (auto dest: harq_step_sends)

section \<open>The life cycle is bounded\<close>

text \<open>
  The invariant: a block in flight has been resent fewer times than the limit allows, and a
  refused block may be resent once more.
\<close>

definition tb_bounded :: "nat \<Rightarrow> 'a harq_proc_scheme \<Rightarrow> bool" where
  "tb_bounded tb h \<longleftrightarrow>
     (case life_of tb h of
        Idle \<Rightarrow> True
      | Waiting n \<Rightarrow> n < unat (hq_max_retx h)
      | Refused n \<Rightarrow> Suc n < unat (hq_max_retx h))"

lemma tb_bounded_idle: "is_empty h tb \<Longrightarrow> tb_bounded tb h"
  by (simp add: tb_bounded_def life_of_def)

lemma life_of_new_tx:
  "life_of tb (new_tx_common tb t mcs tbs h) = (if hq_max_retx h = 0 then Idle else Waiting 0)"
  by (simp add: life_of_def harq_defs)

lemma tb_bounded_new_tx: "tb_bounded tb (new_tx_common tb t mcs tbs h)"
  by (simp add: tb_bounded_def life_of_new_tx unat_gt_0 word_neq_0_conv)

lemma tb_bounded_set_ack:
  assumes "tb_bounded tb h" and "life_of tb h = Waiting n"
  shows "tb_bounded tb (set_ack tb a h)"
proof -
  from assms have "hq_n_rtx h tb < hq_max_retx h"
    by (simp add: tb_bounded_def life_of_waiting word_less_nat_alt)
  then show ?thesis
    by (auto simp: tb_bounded_def life_of_def harq_defs max_le_Suc_iff)
qed

lemma tb_bounded_new_retx:
  assumes "tb_bounded tb h" and "life_of tb h = Refused n"
  shows "tb_bounded tb (snd (new_retx tb t h))"
proof -
  from assms have "Suc (unat (hq_n_rtx h tb)) < unat (hq_max_retx h)"
    by (auto simp: tb_bounded_def life_of_refused)
  then have "unat (hq_n_rtx h tb + 1) = Suc (unat (hq_n_rtx h tb))"
    by (intro unat_Suc_of_less[of _ "hq_max_retx h"]) (simp add: word_less_nat_alt)
  with assms show ?thesis
    by (auto simp: tb_bounded_def life_of_def harq_defs split: if_splits)
qed

lemma life_of_set_ack:
  "life_of tb h = Waiting n \<Longrightarrow>
     life_of tb (set_ack tb a h) =
       (if a \<or> hq_max_retx h \<le> hq_n_rtx h tb + 1 then Idle else Refused n)"
  by (simp add: life_of_waiting) (simp add: life_of_def set_ack_def is_empty_def Let_def)

lemma life_of_new_retx:
  "life_of tb h = Refused n \<Longrightarrow>
     life_of tb (snd (new_retx tb t h)) = Waiting (unat (hq_n_rtx h tb + 1))"
  by (simp add: life_of_refused) (simp add: life_of_def new_retx_def is_empty_def)

text \<open>The flags after an uplink transmission starts, and what the PHICH query does to them.\<close>

lemma ul_new_tx_need: "hq_need_ack (ul_new_tx t mcs tbs h)"
  by (simp add: ul_new_tx_def new_tx_common_def harq_reset_def Let_def)

lemma ul_new_tx_ack: "hq_ack (ul_new_tx t mcs tbs h) 0"
  by (simp add: ul_new_tx_def new_tx_common_def harq_reset_def Let_def)

lemma ul_new_tx_received: "\<not> hq_ack_received (ul_new_tx t mcs tbs h) 0"
  by (simp add: ul_new_tx_def new_tx_common_def harq_reset_def Let_def)

lemma has_pending_ack_need: "fst (has_pending_ack h) = hq_need_ack h"
  by (simp add: has_pending_ack_def Let_def)

lemma has_pending_ack_acked: "hq_ack h 0 \<Longrightarrow> is_empty (snd (has_pending_ack h)) 0"
  by (simp add: has_pending_ack_def is_empty_def Let_def)

lemma has_pending_ack_received:
  "hq_ack_received (snd (has_pending_ack h)) = hq_ack_received h"
  by (simp add: has_pending_ack_def Let_def)

text \<open>A block that follows the life cycle stays within the invariant.\<close>

lemma tb_event_bounded:
  assumes "tb_bounded tb h" and "life_step (unat (hq_max_retx h)) (life_of tb h) e = Some l"
  shows "tb_bounded tb (tb_event_step tb t mcs tbs e h)"
  using assms by (cases "life_of tb h"; cases e)
    (auto simp: tb_event_step_def tb_bounded_new_tx tb_bounded_set_ack tb_bounded_new_retx)

section \<open>Properties\<close>

text \<open>C1: every operation on a transport block, at an event its life cycle allows, moves the
  block as the abstract three-state machine does: the HARQ code refines the life cycle.\<close>

theorem harq_refines_life_cycle:
  assumes "tb_bounded tb h"
    and "life_step (unat (hq_max_retx h)) (life_of tb h) e = Some l"
  shows "life_of tb (tb_event_step tb t mcs tbs e h) = l"
proof (cases "life_of tb h")
  case Idle
  with assms(2) show ?thesis
    by (cases e) (auto simp: tb_event_step_def life_of_new_tx unat_eq_0)
next
  case (Waiting n)
  with assms(1) have "hq_n_rtx h tb < hq_max_retx h" and "n = unat (hq_n_rtx h tb)"
    by (simp_all add: tb_bounded_def life_of_waiting word_less_nat_alt)
  with Waiting assms(2) show ?thesis
    by (cases e) (auto simp: tb_event_step_def life_of_set_ack max_le_Suc_iff)
next
  case (Refused n)
  with assms(1) have "hq_n_rtx h tb < hq_max_retx h" and "n = unat (hq_n_rtx h tb)"
    by (auto simp: tb_bounded_def life_of_refused word_less_nat_alt)
  with Refused assms(2) show ?thesis
    by (cases e) (auto simp: tb_event_step_def life_of_new_retx unat_Suc_of_less)
qed

theorem harq_refines_life_cycle_witness:
  "life_of 0 (tb_event_step 0 7 4 100 (Feedback False)
     (new_tx_common 0 3 4 100 (set_max_retx 2 harq_zero))) = Refused 0"
proof (rule harq_refines_life_cycle)
  show "tb_bounded 0 (new_tx_common 0 3 4 100 (set_max_retx 2 harq_zero))"
    by (rule tb_bounded_new_tx)
  show "life_step (unat (hq_max_retx (new_tx_common 0 3 4 100 (set_max_retx 2 harq_zero))))
          (life_of 0 (new_tx_common 0 3 4 100 (set_max_retx 2 harq_zero))) (Feedback False)
        = Some (Refused 0)"
    by (simp add: life_of_new_tx set_max_retx_def)
qed



text \<open>C28: over any sequence of events the new-data indicator of a block flips once per new
  transmission and is untouched by feedback and retransmissions, so the receiver tells a new block
  from a resent one.\<close>

theorem ndi_counts_new_blocks:
  "get_ndi (fold (tb_event_step tb t mcs tbs) es h) tb \<longleftrightarrow>
     (get_ndi h tb \<noteq> odd (count_list es Send))"
proof (induction es arbitrary: h)
  case Nil
  then show ?case by simp
next
  case (Cons e es)
  have "get_ndi (tb_event_step tb t mcs tbs e h) tb = (get_ndi h tb \<noteq> (e = Send))"
    by (cases e) (simp_all add: tb_event_step_def harq_defs)
  with Cons show ?case by auto
qed

text \<open>a block refused at its last allowed transmission is dropped (its process is empty and
  free for new data), yet it still counts as having a pending retransmission: the limit tests of
  \<open>set_ack\<close> and \<open>has_pending_retx_common\<close> differ by one.\<close>

theorem dropped_block_still_pending:
  assumes "hq_n_rtx h tb < hq_max_retx h" and "hq_max_retx h \<le> hq_n_rtx h tb + 1"
  shows "is_empty (set_ack tb False h) tb \<and> has_pending_retx_common (set_ack tb False h) tb"
  using assms by (simp add: is_empty_set_ack) (simp add: harq_defs)

theorem dropped_block_still_pending_witness:
  "is_empty (set_ack 0 False (new_tx_common 0 3 4 100 (set_max_retx 1 harq_zero))) 0 \<and>
   has_pending_retx_common (set_ack 0 False (new_tx_common 0 3 4 100 (set_max_retx 1 harq_zero))) 0"
  by (rule dropped_block_still_pending) (simp_all add: harq_defs harq_zero_def)

text \<open>the uplink process of a new transmission is emptied by the next PHICH query even when no
  CRC result has arrived for it, because \<open>reset\<close> presets the acknowledgement that
  \<open>has_pending_ack\<close> tests.\<close>

theorem missing_crc_counts_as_ack:
  "fst (has_pending_ack (ul_new_tx t mcs tbs h)) \<and>
   is_empty (snd (has_pending_ack (ul_new_tx t mcs tbs h))) 0 \<and>
   \<not> hq_ack_received (snd (has_pending_ack (ul_new_tx t mcs tbs h))) 0"
  by (simp add: has_pending_ack_need has_pending_ack_acked has_pending_ack_received ul_new_tx_need
      ul_new_tx_ack ul_new_tx_received)

end
