(* ===== verification/Srslte_Env.thy ===== *)
theory Srslte_Env
  imports Prelude
begin

text \<open>
  What the code under \<open>src/\<close> takes from the srsLTE library, whose headers and sources are not in
  the repository: its plain data structures, with the fields the code uses, and its constants and
  functions, as one record \<open>srslte\<close> that every definition using them has as its first
  argument. The float results of the library are \<open>rat\<close> values (every float is one) and the
  few float operations of the code on them are exact. \<open>rand\<close> is the sequence of values that
  successive calls of the C function return.
\<close>

section \<open>Data of the library\<close>

datatype cyclic_prefix = CP_NORM | CP_EXT

record srslte_cell =
  cl_nof_prb :: u32
  cl_nof_ports :: u32
  cl_id :: u32
  cl_cp :: cyclic_prefix

datatype pucch_format = PUCCH_FORMAT_1 | PUCCH_FORMAT_1A | PUCCH_FORMAT_2

record pucch_cfg =
  pc_delta_pucch_shift :: u32
  pc_N_cs :: u32
  pc_n_rb_2 :: u32
  pc_n1_pucch_an :: u32

record pucch_sched =
  ps_sps_enabled :: bool
  ps_n_pucch_sr :: u32
  ps_n_pucch_2 :: u32
  ps_N_pucch_1 :: u32

datatype dci_format = FORMAT0 | FORMAT1 | FORMAT1A | FORMAT2 | FORMAT2A

record dci_location =
  dl_L :: u32
  dl_ncce :: u32

datatype ra_alloc_type = ALLOC_TYPE0 | ALLOC_TYPE2

datatype nprb1a = NPRB1A_2 | NPRB1A_3

record dl_dci =
  dd_alloc_type :: ra_alloc_type
  dd_rbg_bitmask :: u32
  dd_n_prb1a :: nprb1a
  dd_mode_loc :: bool
  dd_L_crb :: u32
  dd_RB_start :: u32
  dd_harq_process :: u32
  dd_mcs_idx :: u32
  dd_rv_idx :: u32
  dd_ndi :: bool
  dd_mcs_idx_1 :: u32
  dd_rv_idx_1 :: u32
  dd_ndi_1 :: bool
  dd_tpc_pucch :: u8
  dd_pinfo :: u8
  dd_tb_en :: "nat \<Rightarrow> bool"

record ul_dci =
  ud_L_crb :: u32
  ud_RB_start :: u32
  ud_rv_idx :: u32
  ud_mcs_idx :: u32
  ud_ndi :: bool
  ud_cqi_request :: bool
  ud_hop_disabled :: bool
  ud_tpc_pusch :: u32

text \<open>The structures after \<open>bzero\<close>.\<close>

definition dl_dci_zero :: dl_dci where
  "dl_dci_zero = \<lparr>dd_alloc_type = ALLOC_TYPE0, dd_rbg_bitmask = 0, dd_n_prb1a = NPRB1A_2,
     dd_mode_loc = False, dd_L_crb = 0, dd_RB_start = 0, dd_harq_process = 0, dd_mcs_idx = 0,
     dd_rv_idx = 0, dd_ndi = False, dd_mcs_idx_1 = 0, dd_rv_idx_1 = 0, dd_ndi_1 = False,
     dd_tpc_pucch = 0, dd_pinfo = 0, dd_tb_en = (\<lambda>_. False)\<rparr>"

definition ul_dci_zero :: ul_dci where
  "ul_dci_zero = \<lparr>ud_L_crb = 0, ud_RB_start = 0, ud_rv_idx = 0, ud_mcs_idx = 0, ud_ndi = False,
     ud_cqi_request = False, ud_hop_disabled = False, ud_tpc_pusch = 0\<rparr>"

section \<open>Constants and functions of the library\<close>

record srslte =
  HARQ_DELAY_MS :: nat
  MSG3_DELAY_MS :: nat
  SRSLTE_MAX_TB :: nat
  MAX_LC :: nat
  MAX_SIBS :: nat
  MAX_RLC_PDU_LIST :: nat
  MAX_BC_LIST :: nat
  MAX_RAR_LIST :: nat
  MAX_RAR_GRANTS :: nat
  MAX_DATA_LIST :: nat
  MAX_PHICH_LIST :: nat
  SRSLTE_NRE :: u32
  CON_RES_ID :: u32
  cp_nsymb :: "cyclic_prefix \<Rightarrow> u32"
  TTI_TX :: "u32 \<Rightarrow> u32"
  tti_interval :: "u32 \<Rightarrow> u32 \<Rightarrow> u32"
  ra_type0_P :: "u32 \<Rightarrow> u32"
  ra_type2_to_riv :: "u32 \<Rightarrow> u32 \<Rightarrow> u32 \<Rightarrow> u32"
  tbs_idx_from_mcs :: "u32 \<Rightarrow> int"
  tbs_from_idx :: "u32 \<Rightarrow> u32 \<Rightarrow> int"
  tbs_to_table_idx :: "u32 \<Rightarrow> u32 \<Rightarrow> int"
  mcs_from_tbs_idx :: "u32 \<Rightarrow> int"
  mod_bits_from_mcs :: "u32 \<Rightarrow> u32"
  cqi_to_coderate :: "u32 \<Rightarrow> rat"
  coderate :: "u32 \<Rightarrow> u32 \<Rightarrow> rat"
  pdcch_coderate :: "u32 \<Rightarrow> u32 \<Rightarrow> rat"
  dl_approx_nof_re :: "srslte_cell \<Rightarrow> u32 \<Rightarrow> u32 \<Rightarrow> u32"
  dl_dci_nof_re :: "dl_dci \<Rightarrow> srslte_cell \<Rightarrow> u32 \<Rightarrow> u32 \<Rightarrow> u32"
  dl_grant_nof_tb :: "(nat \<Rightarrow> bool) \<Rightarrow> u32"
  valid_prb :: "u32 \<Rightarrow> bool"
  sr_send_tti :: "u32 \<Rightarrow> u32 \<Rightarrow> bool"
  cqi_send :: "u32 \<Rightarrow> u32 \<Rightarrow> bool"
  pucch_get_npucch :: "u32 \<Rightarrow> pucch_format \<Rightarrow> bool \<Rightarrow> pucch_sched \<Rightarrow> u32"
  pucch_n_prb :: "pucch_cfg \<Rightarrow> pucch_format \<Rightarrow> u32 \<Rightarrow> u32 \<Rightarrow> cyclic_prefix \<Rightarrow> u32 \<Rightarrow> u32"
  dci_format_sizeof :: "dci_format \<Rightarrow> u32 \<Rightarrow> u32 \<Rightarrow> u32"
  prach_opportunity :: "u32 \<Rightarrow> u32 \<Rightarrow> bool"
  regs_init_fails :: "srslte_cell \<Rightarrow> bool"
  regs_pdcch_ncce :: "srslte_cell option \<Rightarrow> u32 \<Rightarrow> u32"
  common_locations_ncce :: "u32 \<Rightarrow> dci_location list"
  ue_locations_ncce :: "u32 \<Rightarrow> u32 \<Rightarrow> u16 \<Rightarrow> dci_location list"
  rand :: "nat \<Rightarrow> u32"

section \<open>Documented behaviour of the library\<close>

text \<open>
  A TTI lies below 10240; \<open>tti_interval\<close> is the distance from the second argument forward to
  the first, and \<open>TTI_TX\<close> the TTI that lies \<open>HARQ_DELAY_MS\<close> later.
\<close>

definition tti_laws :: "srslte \<Rightarrow> bool" where
  "tti_laws E \<longleftrightarrow>
     (\<forall>a b. tti_interval E a b = (if b \<le> a then a - b else 10240 - b + a)) \<and>
     (\<forall>t. TTI_TX E t = (t + of_nat (HARQ_DELAY_MS E)) mod 10240)"

text \<open>One resource block is always an allowed uplink width.\<close>

definition valid_prb_one :: "srslte \<Rightarrow> bool" where
  "valid_prb_one E \<longleftrightarrow> valid_prb E 1"

text \<open>
  A concrete library for the examples: the values of srsLTE for the constants and TTI arithmetic,
  and simple stand-ins for its tables (a transport block holds 16 bits per block and MCS step).
\<close>

fun only_235 :: "nat \<Rightarrow> nat \<Rightarrow> bool" where
  "only_235 0 n = False"
| "only_235 (Suc f) n =
     (if n = 0 then False else if n = 1 then True
      else if n mod 2 = 0 then only_235 f (n div 2)
      else if n mod 3 = 0 then only_235 f (n div 3)
      else if n mod 5 = 0 then only_235 f (n div 5) else False)"

definition demo_lib :: srslte where
  "demo_lib = \<lparr>
     HARQ_DELAY_MS = 4, MSG3_DELAY_MS = 2, SRSLTE_MAX_TB = 2, MAX_LC = 6, MAX_SIBS = 16,
     MAX_RLC_PDU_LIST = 8, MAX_BC_LIST = 8, MAX_RAR_LIST = 8, MAX_RAR_GRANTS = 8,
     MAX_DATA_LIST = 32, MAX_PHICH_LIST = 32,
     SRSLTE_NRE = 12, CON_RES_ID = 28,
     cp_nsymb = (\<lambda>c. case c of CP_NORM \<Rightarrow> 7 | CP_EXT \<Rightarrow> 6),
     TTI_TX = (\<lambda>t. (t + 4) mod 10240),
     tti_interval = (\<lambda>a b. if b \<le> a then a - b else 10240 - b + a),
     ra_type0_P = (\<lambda>n. if n \<le> 10 then 1 else if n \<le> 26 then 2 else if n \<le> 63 then 3 else 4),
     ra_type2_to_riv = (\<lambda>l s n. n * (l - 1) + s),
     tbs_idx_from_mcs = (\<lambda>m. uint m),
     tbs_from_idx = (\<lambda>i n. 16 * (uint i + 1) * uint n),
     tbs_to_table_idx = (\<lambda>t n. uint t div (16 * max 1 (uint n))),
     mcs_from_tbs_idx = (\<lambda>i. uint i),
     mod_bits_from_mcs = (\<lambda>m. if m < 10 then 2 else if m < 17 then 4 else 6),
     cqi_to_coderate = (\<lambda>c. of_int (uint c) / 4),
     coderate = (\<lambda>t n. of_int (uint t) / of_int (max 1 (uint n))),
     pdcch_coderate = (\<lambda>b l. of_int (uint b) / (72 * 2 ^ unat l)),
     dl_approx_nof_re = (\<lambda>c n s. n * 120),
     dl_dci_nof_re = (\<lambda>d c s n. 120),
     dl_grant_nof_tb = (\<lambda>en. (if en 0 then 1 else 0) + (if en 1 then 1 else 0)),
     valid_prb = (\<lambda>n. only_235 8 (unat n)),
     sr_send_tti = (\<lambda>i t. t mod 10 = i),
     cqi_send = (\<lambda>i t. t mod 40 = i),
     pucch_get_npucch = (\<lambda>n f sr s. if sr then ps_n_pucch_sr s else n + ps_N_pucch_1 s),
     pucch_n_prb = (\<lambda>c f n p cp i. if i = 0 then n div 36 else p - 1 - n div 36),
     dci_format_sizeof = (\<lambda>f n p. 40),
     prach_opportunity = (\<lambda>c t. t mod 10 = 1),
     regs_init_fails = (\<lambda>c. False),
     regs_pdcch_ncce = (\<lambda>c n. 20),
     common_locations_ncce = (\<lambda>n. [\<lparr>dl_L = 2, dl_ncce = 0\<rparr>, \<lparr>dl_L = 2, dl_ncce = 4\<rparr>]),
     ue_locations_ncce = (\<lambda>n s r. [\<lparr>dl_L = 0, dl_ncce = 8\<rparr>, \<lparr>dl_L = 1, dl_ncce = 8\<rparr>,
                                  \<lparr>dl_L = 2, dl_ncce = 8\<rparr>, \<lparr>dl_L = 3, dl_ncce = 8\<rparr>]),
     rand = (\<lambda>i. of_nat i)\<rparr>"

lemma demo_tti_laws: "tti_laws demo_lib"
  by (simp add: tti_laws_def demo_lib_def)

lemma demo_valid_prb_one: "valid_prb_one demo_lib"
  by (simp add: valid_prb_one_def demo_lib_def) (simp add: numeral_eq_Suc)

end
