(* ===== verification/Sched_Types.thy ===== *)
theory Sched_Types
  imports Srslte_Env
begin

text \<open>
  The structures of \<open>srslte/interfaces/sched_interface.h\<close> that the scheduler exchanges with the
  MAC: configuration of cell, users and bearers, and the results of a scheduling round. The header
  is part of the library; only the fields that the code under \<open>src/\<close> reads or writes are kept.
  Result arrays are lists whose length is the declared size, with the count of used entries
  beside them, as in the C structures.
\<close>

section \<open>Configuration\<close>

datatype direction = IDLE | UL | DL | BOTH

record ue_bearer_cfg =
  ub_direction :: direction
  ub_group :: int

record ue_cfg =
  uc_maxharq_tx :: u32
  uc_aperiodic_cqi_period :: u32
  uc_bearers :: "nat \<Rightarrow> ue_bearer_cfg"
  uc_sr_I :: u32
  uc_sr_N_pucch :: u32
  uc_sr_enabled :: bool
  uc_cqi_pucch :: u32
  uc_cqi_idx :: u32
  uc_cqi_enabled :: bool
  uc_n_pucch_cqi :: u32
  uc_pucch_cfg :: pucch_cfg

record cell_sib =
  sib_len :: u32
  sib_period_rf :: u32

record cell_cfg =
  cc_cell :: srslte_cell
  cc_sibs :: "nat \<Rightarrow> cell_sib"
  cc_si_window_ms :: u32
  cc_prach_config :: u32
  cc_prach_freq_offset :: u32
  cc_prach_rar_window :: u32
  cc_nrb_pucch :: int
  cc_maxharq_msg3tx :: u32

record sched_args =
  sa_pdsch_mcs :: int
  sa_pdsch_max_mcs :: int
  sa_pusch_mcs :: int
  sa_pusch_max_mcs :: int
  sa_nof_ctrl_symbols :: u32

datatype tx_mode = TM1 | TM2 | TM3 | TM4 | TM5 | TM6 | TM7 | TM8 | TM_N_ITEMS

section \<open>Results\<close>

record dl_sched_pdu =
  pdu_lcid :: u32
  pdu_nbytes :: u32

record dl_sched_data =
  ds_rnti :: u16
  ds_dci_format :: dci_format
  ds_dci :: dl_dci
  ds_dci_location :: dci_location
  ds_tbs :: "nat \<Rightarrow> u32"
  ds_pdu :: "nat \<Rightarrow> dl_sched_pdu list"
  ds_nof_pdu_elems :: "nat \<Rightarrow> nat"

record ul_sched_data =
  us_rnti :: u16
  us_dci_location :: dci_location
  us_tbs :: int
  us_needs_pdcch :: bool
  us_dci :: ul_dci

section \<open>The structures after \<open>bzero\<close>\<close>

definition pdu_zero :: dl_sched_pdu where
  "pdu_zero = \<lparr>pdu_lcid = 0, pdu_nbytes = 0\<rparr>"

definition location_zero :: dci_location where
  "location_zero = \<lparr>dl_L = 0, dl_ncce = 0\<rparr>"

definition dl_data_zero :: "srslte \<Rightarrow> dl_sched_data" where
  "dl_data_zero E = \<lparr>ds_rnti = 0, ds_dci_format = FORMAT0, ds_dci = dl_dci_zero,
     ds_dci_location = location_zero, ds_tbs = (\<lambda>_. 0),
     ds_pdu = (\<lambda>_. replicate (MAX_RLC_PDU_LIST E) pdu_zero), ds_nof_pdu_elems = (\<lambda>_. 0)\<rparr>"

definition ul_data_zero :: ul_sched_data where
  "ul_data_zero = \<lparr>us_rnti = 0, us_dci_location = location_zero, us_tbs = 0,
     us_needs_pdcch = False, us_dci = ul_dci_zero\<rparr>"

definition pucch_cfg_zero :: pucch_cfg where
  "pucch_cfg_zero = \<lparr>pc_delta_pucch_shift = 0, pc_N_cs = 0, pc_n_rb_2 = 0, pc_n1_pucch_an = 0\<rparr>"

definition bearer_cfg_zero :: ue_bearer_cfg where
  "bearer_cfg_zero = \<lparr>ub_direction = IDLE, ub_group = 0\<rparr>"

definition ue_cfg_zero :: ue_cfg where
  "ue_cfg_zero = \<lparr>uc_maxharq_tx = 0, uc_aperiodic_cqi_period = 0,
     uc_bearers = (\<lambda>_. bearer_cfg_zero), uc_sr_I = 0, uc_sr_N_pucch = 0,
     uc_sr_enabled = False, uc_cqi_pucch = 0, uc_cqi_idx = 0, uc_cqi_enabled = False,
     uc_n_pucch_cqi = 0, uc_pucch_cfg = pucch_cfg_zero\<rparr>"

definition cell_zero :: srslte_cell where
  "cell_zero = \<lparr>cl_nof_prb = 0, cl_nof_ports = 0, cl_id = 0, cl_cp = CP_NORM\<rparr>"

end
