(* ===== verification/Sched_Cce.thy ===== *)
theory Sched_Cce
  imports Sched_Types
begin

text \<open>
  The tables of candidate control channel elements (\<open>sched_dci_cce_t\<close> of \<open>scheduler_ue.h\<close>) and
  the static functions of class \<open>sched\<close> that users call: \<open>generate_cce_location\<close>, which fills a
  table from the candidate list of the library, and the redundancy version of a retransmission.
\<close>

record sched_dci_cce =
  cce_start :: "u32 list list"
  nof_loc :: "u32 list"

definition sched_dci_cce_zero :: sched_dci_cce where
  "sched_dci_cce_zero = \<lparr>cce_start = replicate 4 (replicate 6 0), nof_loc = replicate 4 0\<rparr>"

definition cce_shape :: "sched_dci_cce \<Rightarrow> bool" where
  "cce_shape d \<longleftrightarrow> map length (cce_start d) = [6, 6, 6, 6] \<and> length (nof_loc d) = 4"

definition get_rvidx :: "u32 \<Rightarrow> u32" where
  "get_rvidx retx_idx = [0, 2, 3, 1] ! unat (retx_idx mod 4)"

definition cce_level_step ::
  "nat \<Rightarrow> dci_location \<Rightarrow> u32 list list \<times> nat \<Rightarrow> (u32 list list \<times> nat) option" where
  "cce_level_step l x s =
     (if dl_L x = of_nat l then do {
        cs \<leftarrow> wr2 (fst s) l (snd s) (dl_ncce x);
        Some (cs, snd s + 1)
      } else Some s)"

definition cce_candidates :: "srslte \<Rightarrow> srslte_cell option \<Rightarrow> u32 \<Rightarrow> u32 \<Rightarrow> u16 \<Rightarrow> dci_location list" where
  "cce_candidates E regs cfi sf rnti =
     (if rnti = 0 then common_locations_ncce E (regs_pdcch_ncce E regs cfi)
      else ue_locations_ncce E (regs_pdcch_ncce E regs cfi) sf rnti)"

definition generate_cce_location ::
  "srslte \<Rightarrow> srslte_cell option \<Rightarrow> u32 \<Rightarrow> u32 \<Rightarrow> u16 \<Rightarrow> sched_dci_cce \<Rightarrow> sched_dci_cce option" where
  "generate_cce_location E regs cfi sf rnti d =
     foldM (\<lambda>l d. do {
         (cs, n) \<leftarrow> foldM (cce_level_step l) (cce_candidates E regs cfi sf rnti) (cce_start d, 0);
         nl \<leftarrow> wr (nof_loc d) l (of_nat n);
         Some (d\<lparr>cce_start := cs, nof_loc := nl\<rparr>)
       }) [0..<4] d"

section \<open>What the table holds\<close>

definition level_cces :: "dci_location list \<Rightarrow> nat \<Rightarrow> u32 list" where
  "level_cces loc l = map dl_ncce (filter (\<lambda>x. dl_L x = of_nat l) loc)"

lemma cce_shape_zero: "cce_shape sched_dci_cce_zero"
  by (simp add: cce_shape_def sched_dci_cce_zero_def numeral_eq_Suc)

lemma cce_level_loop:
  assumes "l < length cs" and "n + length (level_cces loc l) \<le> length (cs ! l)"
  shows "foldM (cce_level_step l) loc (cs, n) =
     Some (cs[l := take n (cs ! l) @ level_cces loc l @
                   drop (n + length (level_cces loc l)) (cs ! l)],
           n + length (level_cces loc l))"
  using assms
proof (induction loc arbitrary: cs n)
  case Nil
  then show ?case by (simp add: level_cces_def)
next
  case (Cons x loc)
  show ?case
  proof (cases "dl_L x = of_nat l")
    case False
    then show ?thesis using Cons by (simp add: cce_level_step_def level_cces_def)
  next
    case True
    have tk: "take (Suc n) ((cs ! l)[n := dl_ncce x]) = take n (cs ! l) @ [dl_ncce x]"
      using Cons.prems True by (simp add: level_cces_def take_Suc_conv_app_nth)
    have ll: "level_cces (x # loc) l = dl_ncce x # level_cces loc l"
      using True by (simp add: level_cces_def)
    have n: "n < length (cs ! l)" using Cons.prems ll by simp
    have "foldM (cce_level_step l) (x # loc) (cs, n) =
        foldM (cce_level_step l) loc (cs[l := (cs ! l)[n := dl_ncce x]], Suc n)"
      using True Cons.prems(1) n by (simp add: cce_level_step_def)
    also have "\<dots> = Some (cs[l := take n (cs ! l) @ level_cces (x # loc) l @
                   drop (n + length (level_cces (x # loc) l)) (cs ! l)],
           n + length (level_cces (x # loc) l))"
      using Cons.IH[of "cs[l := (cs ! l)[n := dl_ncce x]]" "Suc n"] Cons.prems
      by (simp add: tk ll)
    finally show ?thesis .
  qed
qed

lemma cce_level_loop0:
  "l < length cs \<Longrightarrow> length (level_cces loc l) \<le> length (cs ! l) \<Longrightarrow>
   foldM (cce_level_step l) loc (cs, 0) =
     Some (cs[l := level_cces loc l @ drop (length (level_cces loc l)) (cs ! l)],
           length (level_cces loc l))"
  using cce_level_loop[of l cs 0 loc] by simp

definition cce_filled :: "dci_location list \<Rightarrow> sched_dci_cce \<Rightarrow> sched_dci_cce" where
  "cce_filled loc d = d\<lparr>
     cce_start := map (\<lambda>l. level_cces loc l @ drop (length (level_cces loc l)) (cce_start d ! l)) [0..<4],
     nof_loc := map (\<lambda>l. of_nat (length (level_cces loc l))) [0..<4]\<rparr>"

lemma length_4: "length xs = 4 \<longleftrightarrow> (\<exists>a b c e. xs = [a, b, c, e])"
  by (auto simp: numeral_eq_Suc length_Suc_conv)

lemma map_length_6666:
  "map length xs = [6, 6, 6, 6] \<longleftrightarrow>
   (\<exists>a b c e. xs = [a, b, c, e] \<and> length a = 6 \<and> length b = 6 \<and> length c = 6 \<and> length e = 6)"
  by (auto simp: map_eq_Cons_conv)

lemma upt_0_4: "[0..<4] = [0, 1, 2, 3 :: nat]"
  by (simp add: upt_rec)

lemma generate_cce_location_filled:
  assumes "cce_shape d" and "\<And>l. l < 4 \<Longrightarrow> length (level_cces (cce_candidates E regs cfi sf rnti) l) \<le> 6"
  shows "generate_cce_location E regs cfi sf rnti d =
     Some (cce_filled (cce_candidates E regs cfi sf rnti) d)"
proof -
  let ?loc = "cce_candidates E regs cfi sf rnti"
  have le: "length (level_cces ?loc 0) \<le> 6" "length (level_cces ?loc 1) \<le> 6"
    "length (level_cces ?loc 2) \<le> 6" "length (level_cces ?loc 3) \<le> 6"
    using assms(2) by simp_all
  obtain a b c e where cs: "cce_start d = [a, b, c, e]"
    "length a = 6" "length b = 6" "length c = 6" "length e = 6"
    using assms(1) by (auto simp: cce_shape_def map_length_6666)
  obtain w x y z where nl: "nof_loc d = [w, x, y, z]"
    using assms(1) by (auto simp: cce_shape_def length_4)
  show ?thesis
    using le unfolding generate_cce_location_def cce_filled_def upt_0_4
    by (simp add: cs nl cce_level_loop0 numeral_2_eq_2 numeral_3_eq_3)
qed

lemma cce_shape_filled:
  assumes "cce_shape d" and "\<And>l. l < 4 \<Longrightarrow> length (level_cces loc l) \<le> 6"
  shows "cce_shape (cce_filled loc d)"
  using assms by (auto simp: cce_shape_def cce_filled_def upt_0_4 map_length_6666)

end
