(* ===== verification/Sched_UE.thy ===== *)
theory Sched_UE
  imports Harq_Lifecycle Sched_Cce
begin

text \<open>
  The scheduler's context of one user (\<open>scheduler_ue.h\<close>, \<open>scheduler_ue.cc\<close>): configuration,
  bearer buffers, channel state, HARQ processes, and the queries and updates of the FAPI-like
  interface. The grants (DCI formats) are in \<open>Sched_UE_Grants\<close>. A pointer to a HARQ process
  is its index; the process arrays have \<open>SCHED_MAX_HARQ_PROC\<close> entries and every loop over them
  stays below it, so they are functions of the index. The mutex makes each operation atomic and
  is not part of the state; neither is the log.
\<close>

section \<open>State\<close>

record ue_bearer =
  lc_cfg :: ue_bearer_cfg
  lc_buf_tx :: int
  lc_buf_retx :: int
  lc_bsr :: int

record sched_ue =
  su_dl_next_alloc :: "nat option"
  su_ul_next_alloc :: "nat option"
  su_has_pucch :: bool
  su_cfg :: ue_cfg
  su_cell :: srslte_cell
  su_sr :: bool
  su_buf_mac :: int
  su_buf_ul :: int
  su_lch :: "nat \<Rightarrow> ue_bearer"
  su_power_headroom :: int
  su_dl_ri :: u32
  su_dl_ri_tti :: u32
  su_dl_pmi :: u32
  su_dl_pmi_tti :: u32
  su_dl_cqi :: u32
  su_dl_cqi_tti :: u32
  su_cqi_request_tti :: u32
  su_ul_cqi :: u32
  su_ul_cqi_tti :: u32
  su_rnti :: u16
  su_max_mcs_dl :: u32
  su_max_mcs_ul :: u32
  su_fixed_mcs_ul :: int
  su_fixed_mcs_dl :: int
  su_P :: u32
  su_next_tpc_pusch :: int
  su_next_tpc_pucch :: int
  su_dci_locations :: "nat \<Rightarrow> nat \<Rightarrow> sched_dci_cce"
  su_dl_harq :: "nat \<Rightarrow> dl_harq_proc"
  su_ul_harq :: "nat \<Rightarrow> ul_harq_proc"
  su_phy_config_dedicated_enabled :: bool
  su_dl_ant_tx_mode :: tx_mode

definition SCHED_MAX_HARQ_PROC :: "srslte \<Rightarrow> nat" where
  "SCHED_MAX_HARQ_PROC E = 2 * HARQ_DELAY_MS E"

definition upd_dl_harq :: "nat \<Rightarrow> (dl_harq_proc \<Rightarrow> dl_harq_proc) \<Rightarrow> sched_ue \<Rightarrow> sched_ue" where
  "upd_dl_harq i f u = u\<lparr>su_dl_harq := (su_dl_harq u)(i := f (su_dl_harq u i))\<rparr>"

definition upd_ul_harq :: "nat \<Rightarrow> (ul_harq_proc \<Rightarrow> ul_harq_proc) \<Rightarrow> sched_ue \<Rightarrow> sched_ue" where
  "upd_ul_harq i f u = u\<lparr>su_ul_harq := (su_ul_harq u)(i := f (su_ul_harq u i))\<rparr>"

definition upd_lch :: "nat \<Rightarrow> (ue_bearer \<Rightarrow> ue_bearer) \<Rightarrow> sched_ue \<Rightarrow> sched_ue" where
  "upd_lch i f u = u\<lparr>su_lch := (su_lch u)(i := f (su_lch u i))\<rparr>"

lemmas upd_defs = upd_dl_harq_def upd_ul_harq_def upd_lch_def

section \<open>Bearers and buffers\<close>

definition bearer_zero :: ue_bearer where
  "bearer_zero = \<lparr>lc_cfg = bearer_cfg_zero, lc_buf_tx = 0, lc_buf_retx = 0, lc_bsr = 0\<rparr>"

definition rem_bearer :: "srslte \<Rightarrow> u32 \<Rightarrow> sched_ue \<Rightarrow> sched_ue" where
  "rem_bearer E lc u =
     (if unat lc < MAX_LC E then upd_lch (unat lc) (\<lambda>_. bearer_zero) u else u)"

definition set_bearer_cfg :: "srslte \<Rightarrow> u32 \<Rightarrow> ue_bearer_cfg \<Rightarrow> sched_ue \<Rightarrow> sched_ue" where
  "set_bearer_cfg E lc c u =
     (if unat lc < MAX_LC E
      then upd_lch (unat lc) (\<lambda>b. b\<lparr>lc_cfg := c, lc_buf_tx := 0, lc_buf_retx := 0\<rparr>) u
      else u)"

definition ul_buffer_state :: "srslte \<Rightarrow> u8 \<Rightarrow> u32 \<Rightarrow> bool \<Rightarrow> sched_ue \<Rightarrow> sched_ue" where
  "ul_buffer_state E lc bsr set_value u =
     (if unat lc < MAX_LC E
      then upd_lch (unat lc)
        (\<lambda>b. b\<lparr>lc_bsr := (if set_value then i32 bsr else i32 (of_i32 (lc_bsr b) + bsr))\<rparr>) u
      else u)"

definition dl_buffer_state :: "srslte \<Rightarrow> u8 \<Rightarrow> u32 \<Rightarrow> u32 \<Rightarrow> sched_ue \<Rightarrow> sched_ue" where
  "dl_buffer_state E lc tx retx u =
     (if unat lc < MAX_LC E
      then upd_lch (unat lc) (\<lambda>b. b\<lparr>lc_buf_retx := i32 retx, lc_buf_tx := i32 tx\<rparr>) u
      else u)"

definition mac_buffer_state :: "u32 \<Rightarrow> sched_ue \<Rightarrow> sched_ue" where
  "mac_buffer_state ce u = u\<lparr>su_buf_mac := su_buf_mac u + 1\<rparr>"

definition bearer_is_ul :: "ue_bearer \<Rightarrow> bool" where
  "bearer_is_ul b \<longleftrightarrow> ub_direction (lc_cfg b) = UL \<or> ub_direction (lc_cfg b) = BOTH"

definition bearer_is_dl :: "ue_bearer \<Rightarrow> bool" where
  "bearer_is_dl b \<longleftrightarrow> ub_direction (lc_cfg b) = DL \<or> ub_direction (lc_cfg b) = BOTH"

definition ul_recv_len :: "srslte \<Rightarrow> u32 \<Rightarrow> u32 \<Rightarrow> sched_ue \<Rightarrow> sched_ue" where
  "ul_recv_len E lcid len u =
     (let len = (if 4 < len then len - 4 else len)
      in if unat lcid < MAX_LC E \<and> bearer_is_ul (su_lch u (unat lcid))
         then upd_lch (unat lcid)
           (\<lambda>b. b\<lparr>lc_bsr := (if i32 len < lc_bsr b then i32 (of_i32 (lc_bsr b) - len) else 0)\<rparr>) u
         else u)"

section \<open>Construction, reset and configuration\<close>

definition reset_all_tbs :: "srslte \<Rightarrow> 'a harq_proc_scheme \<Rightarrow> 'a harq_proc_scheme" where
  "reset_all_tbs E h = fold harq_reset [0..<SRSLTE_MAX_TB E] h"

definition sched_ue_reset :: "srslte \<Rightarrow> sched_ue \<Rightarrow> sched_ue" where
  "sched_ue_reset E u =
     (let u = u\<lparr>su_cfg := ue_cfg_zero, su_sr := False, su_next_tpc_pusch := 1,
                su_next_tpc_pucch := 1, su_buf_mac := 0, su_buf_ul := 0,
                su_phy_config_dedicated_enabled := False, su_dl_cqi := 1, su_ul_cqi := 1,
                su_dl_cqi_tti := 0, su_ul_cqi_tti := 0, su_dl_ri := 0, su_dl_ri_tti := 0,
                su_dl_pmi := 0, su_dl_pmi_tti := 0, su_cqi_request_tti := 0\<rparr>;
          u = fold (\<lambda>i u. upd_ul_harq i (reset_all_tbs E) (upd_dl_harq i (reset_all_tbs E) u))
                [0..<SCHED_MAX_HARQ_PROC E] u
      in fold (\<lambda>i u. rem_bearer E (of_nat i) u) [0..<MAX_LC E] u)"

text \<open>
  The constructor: its initialisers and \<open>bzero\<close> calls, then \<open>reset\<close>. The members it leaves
  unset before \<open>set_cfg\<close> writes them (\<open>P\<close>) start at 0 here.
\<close>

definition sched_ue_raw :: sched_ue where
  "sched_ue_raw =
     \<lparr>su_dl_next_alloc = None, su_ul_next_alloc = None, su_has_pucch = False,
      su_cfg = ue_cfg_zero, su_cell = cell_zero, su_sr = False, su_buf_mac = 0, su_buf_ul = 0,
      su_lch = (\<lambda>_. bearer_zero), su_power_headroom = 0, su_dl_ri = 0, su_dl_ri_tti = 0,
      su_dl_pmi = 0, su_dl_pmi_tti = 0, su_dl_cqi = 0, su_dl_cqi_tti = 0,
      su_cqi_request_tti = 0, su_ul_cqi = 0, su_ul_cqi_tti = 0, su_rnti = 0,
      su_max_mcs_dl = 0, su_max_mcs_ul = 0, su_fixed_mcs_ul = 0, su_fixed_mcs_dl = 0, su_P = 0,
      su_next_tpc_pusch = 0, su_next_tpc_pucch = 0,
      su_dci_locations = (\<lambda>_ _. sched_dci_cce_zero),
      su_dl_harq = (\<lambda>_. harq_zero), su_ul_harq = (\<lambda>_. ul_harq_zero),
      su_phy_config_dedicated_enabled = False, su_dl_ant_tx_mode = TM1\<rparr>"

definition sched_ue_new :: "srslte \<Rightarrow> sched_ue" where
  "sched_ue_new E = sched_ue_reset E sched_ue_raw"

definition set_cfg ::
  "srslte \<Rightarrow> u16 \<Rightarrow> ue_cfg option \<Rightarrow> cell_cfg \<Rightarrow> srslte_cell option \<Rightarrow> sched_ue \<Rightarrow> sched_ue option" where
  "set_cfg E rnti cfg cellc regs u = do {
     let u = sched_ue_reset E u;
     let u = u\<lparr>su_rnti := rnti, su_cell := cc_cell cellc,
               su_P := ra_type0_P E (cl_nof_prb (cc_cell cellc)),
               su_max_mcs_dl := 28, su_max_mcs_ul := 28\<rparr>;
     let u = (case cfg of None \<Rightarrow> u | Some c \<Rightarrow> u\<lparr>su_cfg := c\<rparr>);
     let u = fold (\<lambda>i u.
               upd_ul_harq i (harq_config (SRSLTE_MAX_TB E) (of_nat i) (uc_maxharq_tx (su_cfg u)))
                 (upd_dl_harq i (harq_config (SRSLTE_MAX_TB E) (of_nat i) (uc_maxharq_tx (su_cfg u))) u))
             [0..<SCHED_MAX_HARQ_PROC E] u;
     u \<leftarrow> foldM (\<lambda>cfi. foldM (\<lambda>sf u. do {
              d \<leftarrow> generate_cce_location E regs (of_nat cfi + 1) (of_nat sf) rnti (su_dci_locations u cfi sf);
              Some (u\<lparr>su_dci_locations :=
                (su_dci_locations u)(cfi := (su_dci_locations u cfi)(sf := d))\<rparr>)
            }) [0..<10]) [0..<3] u;
     Some (fold (\<lambda>i u. set_bearer_cfg E (of_nat i) (uc_bearers (su_cfg u) i) u) [0..<MAX_LC E] u)
   }"

definition set_fixed_mcs :: "int \<Rightarrow> int \<Rightarrow> sched_ue \<Rightarrow> sched_ue" where
  "set_fixed_mcs ul dl u = u\<lparr>su_fixed_mcs_ul := ul, su_fixed_mcs_dl := dl\<rparr>"

definition set_max_mcs :: "int \<Rightarrow> int \<Rightarrow> sched_ue \<Rightarrow> sched_ue" where
  "set_max_mcs ul dl u =
     u\<lparr>su_max_mcs_ul := (if ul < 0 then 28 else of_i32 ul),
       su_max_mcs_dl := (if dl < 0 then 28 else of_i32 dl)\<rparr>"

definition get_max_retx :: "sched_ue \<Rightarrow> u32" where
  "get_max_retx u = uc_maxharq_tx (su_cfg u)"

section \<open>Indications from the MAC and the physical layer\<close>

definition ue_phy_config_enabled :: "u32 \<Rightarrow> bool \<Rightarrow> sched_ue \<Rightarrow> sched_ue" where
  "ue_phy_config_enabled tti en u = u\<lparr>su_dl_cqi_tti := tti, su_phy_config_dedicated_enabled := en\<rparr>"

definition ul_phr :: "int \<Rightarrow> sched_ue \<Rightarrow> sched_ue" where
  "ul_phr phr u = u\<lparr>su_power_headroom := phr\<rparr>"

definition set_sr :: "sched_ue \<Rightarrow> sched_ue" where
  "set_sr u = u\<lparr>su_sr := True\<rparr>"

definition unset_sr :: "sched_ue \<Rightarrow> sched_ue" where
  "unset_sr u = u\<lparr>su_sr := False\<rparr>"

definition is_sr_triggered :: "sched_ue \<Rightarrow> bool" where
  "is_sr_triggered u = su_sr u"

definition set_dl_ri :: "u32 \<Rightarrow> u32 \<Rightarrow> sched_ue \<Rightarrow> sched_ue" where
  "set_dl_ri tti ri u = u\<lparr>su_dl_ri := ri, su_dl_ri_tti := tti\<rparr>"

definition set_dl_pmi :: "u32 \<Rightarrow> u32 \<Rightarrow> sched_ue \<Rightarrow> sched_ue" where
  "set_dl_pmi tti pmi u = u\<lparr>su_dl_pmi := pmi, su_dl_pmi_tti := tti\<rparr>"

definition set_dl_cqi :: "u32 \<Rightarrow> u32 \<Rightarrow> sched_ue \<Rightarrow> sched_ue" where
  "set_dl_cqi tti cqi u = u\<lparr>su_dl_cqi := cqi, su_dl_cqi_tti := tti\<rparr>"

definition set_ul_cqi :: "u32 \<Rightarrow> u32 \<Rightarrow> u32 \<Rightarrow> sched_ue \<Rightarrow> sched_ue" where
  "set_ul_cqi tti cqi ul_ch_code u = u\<lparr>su_ul_cqi := cqi, su_ul_cqi_tti := tti\<rparr>"

definition set_dl_ant_info :: "tx_mode \<Rightarrow> sched_ue \<Rightarrow> sched_ue" where
  "set_dl_ant_info m u = u\<lparr>su_dl_ant_tx_mode := m\<rparr>"

definition ue_tpc_inc :: "sched_ue \<Rightarrow> sched_ue" where
  "ue_tpc_inc u =
     (if 0 < su_power_headroom u then u\<lparr>su_next_tpc_pusch := 3, su_next_tpc_pucch := 3\<rparr> else u)"

definition ue_tpc_dec :: "sched_ue \<Rightarrow> sched_ue" where
  "ue_tpc_dec u = u\<lparr>su_next_tpc_pusch := 0, su_next_tpc_pucch := 0\<rparr>"

section \<open>HARQ processes of the user\<close>

definition ue_set_ack_info :: "srslte \<Rightarrow> u32 \<Rightarrow> nat \<Rightarrow> bool \<Rightarrow> sched_ue \<Rightarrow> int \<times> sched_ue" where
  "ue_set_ack_info E tti tb ack u =
     (case find (\<lambda>i. TTI_TX E (get_tti (su_dl_harq u i)) = tti) [0..<SCHED_MAX_HARQ_PROC E] of
        None \<Rightarrow> (-1, u)
      | Some i \<Rightarrow> (let u = upd_dl_harq i (set_ack tb ack) u in (dl_get_tbs (su_dl_harq u i) tb, u)))"

definition get_ul_harq :: "srslte \<Rightarrow> u32 \<Rightarrow> nat" where
  "get_ul_harq E tti = unat (tti mod of_nat (SCHED_MAX_HARQ_PROC E))"

definition set_ul_crc :: "srslte \<Rightarrow> u32 \<Rightarrow> bool \<Rightarrow> sched_ue \<Rightarrow> sched_ue" where
  "set_ul_crc E tti crc u = upd_ul_harq (get_ul_harq E tti) (set_ack 0 crc) u"

definition reset_timeout_dl_harq :: "srslte \<Rightarrow> u32 \<Rightarrow> sched_ue \<Rightarrow> sched_ue" where
  "reset_timeout_dl_harq E tti u =
     fold (\<lambda>i u. let h = su_dl_harq u i in
        if \<not> (is_empty h 0 \<and> is_empty h 1) \<and> 50 < tti_interval E tti (get_tti h)
        then upd_dl_harq i (\<lambda>h. harq_reset 1 (harq_reset 0 h)) u else u)
       [0..<SCHED_MAX_HARQ_PROC E] u"

definition harq_pending :: "srslte \<Rightarrow> u32 \<Rightarrow> dl_harq_proc \<Rightarrow> bool" where
  "harq_pending E tti h \<longleftrightarrow>
     dl_has_pending_retx (tti_interval E) (HARQ_DELAY_MS E) 0 tti h \<or>
     dl_has_pending_retx (tti_interval E) (HARQ_DELAY_MS E) 1 tti h"

definition oldest_step ::
  "(nat \<Rightarrow> bool) \<Rightarrow> (nat \<Rightarrow> u32) \<Rightarrow> nat \<Rightarrow> nat option \<times> u32 \<Rightarrow> nat option \<times> u32" where
  "oldest_step pending age i s = (if pending i \<and> snd s < age i then (Some i, age i) else s)"

definition get_pending_dl_harq :: "srslte \<Rightarrow> u32 \<Rightarrow> sched_ue \<Rightarrow> nat option" where
  "get_pending_dl_harq E tti u =
     fst (fold (oldest_step (\<lambda>i. harq_pending E tti (su_dl_harq u i))
                            (\<lambda>i. tti_interval E tti (get_tti (su_dl_harq u i))))
            [0..<SCHED_MAX_HARQ_PROC E] (None, 0))"

definition get_empty_dl_harq :: "srslte \<Rightarrow> sched_ue \<Rightarrow> nat option" where
  "get_empty_dl_harq E u =
     find (\<lambda>i. is_empty (su_dl_harq u i) 0 \<and> is_empty (su_dl_harq u i) 1)
       [0..<SCHED_MAX_HARQ_PROC E]"

definition is_first_dl_tx :: "srslte \<Rightarrow> sched_ue \<Rightarrow> bool" where
  "is_first_dl_tx E u = list_all (\<lambda>i. \<not> 0 < nof_tx (su_dl_harq u i) 0) [0..<SCHED_MAX_HARQ_PROC E]"

section \<open>Pending data\<close>

definition get_pending_dl_new_data :: "srslte \<Rightarrow> sched_ue \<Rightarrow> u32" where
  "get_pending_dl_new_data E u =
     fold (\<lambda>i n. if bearer_is_dl (su_lch u i)
                 then n + of_i32 (lc_buf_retx (su_lch u i) + lc_buf_tx (su_lch u i)) else n)
       [0..<MAX_LC E] 0"

definition get_pending_dl_new_data_total :: "srslte \<Rightarrow> sched_ue \<Rightarrow> u32" where
  "get_pending_dl_new_data_total E u =
     (let req = get_pending_dl_new_data E u
      in if 0 < req
         then (let req = req + (if req < 128 then 2 else 3)
               in if is_first_dl_tx E u then req + 6 else req)
         else req)"

text \<open>\<open>needs_cqi\<close> records the request when it will be sent; the flag alone is the first part.\<close>

definition needs_cqi_flag :: "srslte \<Rightarrow> u32 \<Rightarrow> sched_ue \<Rightarrow> bool" where
  "needs_cqi_flag E tti u \<longleftrightarrow>
     su_phy_config_dedicated_enabled u \<and> uc_aperiodic_cqi_period (su_cfg u) \<noteq> 0 \<and>
     0 < get_pending_dl_new_data E u \<and>
     uc_aperiodic_cqi_period (su_cfg u) \<le> tti_interval E tti (su_dl_cqi_tti u) \<and>
     16 \<le> tti_interval E tti (su_cqi_request_tti u)"

definition needs_cqi :: "srslte \<Rightarrow> u32 \<Rightarrow> bool \<Rightarrow> sched_ue \<Rightarrow> bool \<times> sched_ue" where
  "needs_cqi E tti will_be_sent u =
     (if needs_cqi_flag E tti u
      then (True, if will_be_sent then u\<lparr>su_cqi_request_tti := tti\<rparr> else u)
      else (False, u))"

definition get_pending_ul_old_data :: "srslte \<Rightarrow> sched_ue \<Rightarrow> u32" where
  "get_pending_ul_old_data E u =
     fold (\<lambda>i n. n + get_pending_data (su_ul_harq u i)) [0..<SCHED_MAX_HARQ_PROC E] 0"

definition get_pending_ul_new_data :: "srslte \<Rightarrow> u32 \<Rightarrow> sched_ue \<Rightarrow> u32" where
  "get_pending_ul_new_data E tti u =
     (let pending = fold (\<lambda>i n. if bearer_is_ul (su_lch u i)
                                then n + of_i32 (lc_bsr (su_lch u i)) else n) [0..<MAX_LC E] (0::u32)
      in if pending = 0 \<and> is_sr_triggered u then 512
         else if pending = 0 \<and> needs_cqi_flag E tti u then 128
         else let old = get_pending_ul_old_data E u
              in if old < pending then pending - old else 0)"

section \<open>PUCCH resources\<close>

definition ue_pucch_sched :: "sched_ue \<Rightarrow> pucch_sched" where
  "ue_pucch_sched u = \<lparr>ps_sps_enabled = False, ps_n_pucch_sr = uc_sr_N_pucch (su_cfg u),
     ps_n_pucch_2 = uc_n_pucch_cqi (su_cfg u),
     ps_N_pucch_1 = pc_n1_pucch_an (uc_pucch_cfg (su_cfg u))\<rparr>"

definition ue_has_sr :: "srslte \<Rightarrow> u32 \<Rightarrow> sched_ue \<Rightarrow> bool" where
  "ue_has_sr E tti u \<longleftrightarrow> uc_sr_enabled (su_cfg u) \<and> sr_send_tti E (uc_sr_I (su_cfg u)) tti"

definition ue_n_prb :: "srslte \<Rightarrow> sched_ue \<Rightarrow> pucch_format \<Rightarrow> u32 \<Rightarrow> u32 \<Rightarrow> u32" where
  "ue_n_prb E u f n j =
     pucch_n_prb E (uc_pucch_cfg (su_cfg u)) f n (cl_nof_prb (su_cell u)) (cl_cp (su_cell u)) j"

definition pucch_sr_collision :: "srslte \<Rightarrow> u32 \<Rightarrow> u32 \<Rightarrow> sched_ue \<Rightarrow> bool" where
  "pucch_sr_collision E tti n_cce u \<longleftrightarrow>
     su_phy_config_dedicated_enabled u \<and> ue_has_sr E tti u \<and>
     ue_n_prb E u PUCCH_FORMAT_1A (pucch_get_npucch E n_cce PUCCH_FORMAT_1A True (ue_pucch_sched u)) 0
     = ue_n_prb E u PUCCH_FORMAT_1A (pucch_get_npucch E n_cce PUCCH_FORMAT_1A False (ue_pucch_sched u)) 0"

text \<open>The result is the pair of resource blocks of the two slots, or \<open>None\<close> for no PUCCH.\<close>

definition get_pucch_sched :: "srslte \<Rightarrow> u32 \<Rightarrow> sched_ue \<Rightarrow> (u32 \<times> u32) option" where
  "get_pucch_sched E tti u =
     (if \<not> su_phy_config_dedicated_enabled u then None
      else case find (\<lambda>i. TTI_TX E (get_tti (su_dl_harq u i)) = tti) [0..<SCHED_MAX_HARQ_PROC E] of
        Some i \<Rightarrow>
          (let n = pucch_get_npucch E (get_n_cce (su_dl_harq u i)) PUCCH_FORMAT_1A
                     (ue_has_sr E tti u) (ue_pucch_sched u)
           in Some (ue_n_prb E u PUCCH_FORMAT_1A n 0, ue_n_prb E u PUCCH_FORMAT_1A n 1))
      | None \<Rightarrow>
          if ue_has_sr E tti u
          then Some (ue_n_prb E u PUCCH_FORMAT_1 (uc_sr_N_pucch (su_cfg u)) 0,
                     ue_n_prb E u PUCCH_FORMAT_1 (uc_sr_N_pucch (su_cfg u)) 1)
          else if uc_cqi_enabled (su_cfg u) \<and> cqi_send E (uc_cqi_idx (su_cfg u)) tti
          then Some (ue_n_prb E u PUCCH_FORMAT_2 (uc_cqi_pucch (su_cfg u)) 0,
                     ue_n_prb E u PUCCH_FORMAT_2 (uc_cqi_pucch (su_cfg u)) 1)
          else None)"

end
