(* ===== verification/Sched_UE_Grants.thy ===== *)
theory Sched_UE_Grants
  imports Sched_UE
begin

text \<open>
  The second half of \<open>scheduler_ue.cc\<close>: how much a user needs (\<open>get_required_prb_dl\<close> and
  \<open>_ul\<close>), the choice of modulation and transport block size, the packing of RLC buffers into a
  transport block, and the four DCI formats. A loop of the code that may run forever
  (\<open>cqi_to_tbs\<close>) is a partial function whose value is then \<open>None\<close>.
\<close>

section \<open>Resource blocks and groups\<close>

definition prb_to_rbg :: "u32 \<Rightarrow> sched_ue \<Rightarrow> u32" where
  "prb_to_rbg nof_prb u = of_nat (ceil_div (unat nof_prb) (unat (su_P u)))"

definition rgb_to_prb :: "u32 \<Rightarrow> sched_ue \<Rightarrow> u32" where
  "rgb_to_prb nof_rbg u = su_P u * nof_rbg"

definition format1_count_prb :: "srslte \<Rightarrow> u32 \<Rightarrow> u32 \<Rightarrow> u32" where
  "format1_count_prb E bitmask nof_prb =
     (let P = unat (ra_type0_P E nof_prb);
          nb = ceil_div (unat nof_prb) P
      in fold (\<lambda>i n. if bit bitmask (nb - i - 1)
                     then fold (\<lambda>j n. if i * P + j < unat nof_prb then n + 1 else n) [0..<P] n
                     else n) [0..<nb] 0)"

section \<open>Modulation and transport block size\<close>

definition tbs_bytes :: "srslte \<Rightarrow> int \<Rightarrow> u32 \<Rightarrow> int" where
  "tbs_bytes E mcs nof_prb =
     cdiv (tbs_from_idx E (of_i32 (tbs_idx_from_mcs E (of_i32 mcs))) nof_prb) 8"

partial_function (option) cqi_to_tbs_loop ::
  "srslte \<Rightarrow> rat \<Rightarrow> u32 \<Rightarrow> u32 \<Rightarrow> u32 \<Rightarrow> int \<Rightarrow> (int \<times> int) option" where
  "cqi_to_tbs_loop E max_coderate nof_prb nof_re max_Qm sel_mcs =
     (let sel_mcs = sel_mcs - 1;
          tbs_idx = of_i32 (tbs_idx_from_mcs E (of_i32 sel_mcs));
          tbs = tbs_from_idx E tbs_idx nof_prb;
          cr = coderate E (of_i32 tbs) nof_re;
          Qm = min max_Qm (mod_bits_from_mcs E (of_i32 sel_mcs));
          eff = cr / of_int (uint Qm)
      in if (0 < sel_mcs \<and> max_coderate < cr) \<or> 93 / 100 < eff
         then cqi_to_tbs_loop E max_coderate nof_prb nof_re max_Qm sel_mcs
         else Some (tbs, sel_mcs))"

definition cqi_to_tbs :: "srslte \<Rightarrow> u32 \<Rightarrow> u32 \<Rightarrow> u32 \<Rightarrow> u32 \<Rightarrow> u32 \<Rightarrow> (int \<times> u32) option" where
  "cqi_to_tbs E cqi nof_prb nof_re max_mcs max_Qm = do {
     (tbs, sel_mcs) \<leftarrow> cqi_to_tbs_loop E (cqi_to_coderate E cqi) nof_prb nof_re max_Qm (i32 (max_mcs + 1));
     Some (tbs, of_i32 sel_mcs)
   }"

text \<open>The result is the size in bytes and the variable behind the pointer \<open>mcs\<close>.\<close>

definition alloc_tbs ::
  "srslte \<Rightarrow> sched_ue \<Rightarrow> u32 \<Rightarrow> u32 \<Rightarrow> u32 \<Rightarrow> bool \<Rightarrow> int \<Rightarrow> (int \<times> int) option" where
  "alloc_tbs E u nof_prb nof_re req_bytes is_ul mcs = do {
     let cqi = (if is_ul then su_ul_cqi u else su_dl_cqi u);
     let max_mcs = (if is_ul then su_max_mcs_ul u else su_max_mcs_dl u);
     let max_Qm = (if is_ul then 4 else 6);
     (bits, sel_mcs) \<leftarrow> cqi_to_tbs E cqi nof_prb nof_re max_mcs max_Qm;
     let tbs = cdiv bits 8;
     let (tbs, sel_mcs) =
       (if i32 req_bytes < tbs \<and> 0 < req_bytes
        then let req_tbs_idx = of_i32 (tbs_to_table_idx E (req_bytes * 8) nof_prb);
                 req_mcs = of_i32 (mcs_from_tbs_idx E req_tbs_idx)
             in if req_mcs < sel_mcs then (cdiv (tbs_from_idx E req_tbs_idx nof_prb) 8, req_mcs)
                else (tbs, sel_mcs)
        else (tbs, sel_mcs));
     let (tbs, sel_mcs) =
       (if nof_prb = 1 \<and> sel_mcs = 6 then (tbs_bytes E 5 nof_prb, 5) else (tbs, sel_mcs));
     Some (tbs, if 0 \<le> tbs then i32 sel_mcs else mcs)
   }"

definition alloc_tbs_dl :: "srslte \<Rightarrow> sched_ue \<Rightarrow> u32 \<Rightarrow> u32 \<Rightarrow> u32 \<Rightarrow> int \<Rightarrow> (int \<times> int) option" where
  "alloc_tbs_dl E u nof_prb nof_re req_bytes mcs = alloc_tbs E u nof_prb nof_re req_bytes False mcs"

definition alloc_tbs_ul :: "srslte \<Rightarrow> sched_ue \<Rightarrow> u32 \<Rightarrow> u32 \<Rightarrow> u32 \<Rightarrow> int \<Rightarrow> (int \<times> int) option" where
  "alloc_tbs_ul E u nof_prb nof_re req_bytes mcs = alloc_tbs E u nof_prb nof_re req_bytes True mcs"

section \<open>Required resource blocks\<close>

definition dl_tbs_for :: "srslte \<Rightarrow> sched_ue \<Rightarrow> u32 \<Rightarrow> nat \<Rightarrow> int option" where
  "dl_tbs_for E u nof_ctrl n =
     (let nof_re = dl_approx_nof_re E (su_cell u) (of_nat n) nof_ctrl
      in if su_fixed_mcs_dl u < 0
         then map_option fst (alloc_tbs_dl E u (of_nat n) nof_re 0 0)
         else Some (tbs_bytes E (su_fixed_mcs_dl u) (of_nat n)))"

function required_prb_dl_loop ::
  "srslte \<Rightarrow> sched_ue \<Rightarrow> u32 \<Rightarrow> u32 \<Rightarrow> nat \<Rightarrow> u32 \<Rightarrow> nat option" where
  "required_prb_dl_loop E u req nof_ctrl n nbytes =
     (if n < unat (cl_nof_prb (su_cell u)) \<and> nbytes < req then
        (case dl_tbs_for E u nof_ctrl (n + 1) of
           None \<Rightarrow> None
         | Some tbs \<Rightarrow>
             if 0 < tbs then required_prb_dl_loop E u req nof_ctrl (n + 1) (of_i32 tbs)
             else if tbs < 0 then Some 0
             else required_prb_dl_loop E u req nof_ctrl (n + 1) nbytes)
      else Some n)"
  by pat_completeness auto
termination by (relation "measure (\<lambda>(E, u, r, c, n, b). unat (cl_nof_prb (su_cell u)) - n)") auto

declare required_prb_dl_loop.simps [simp del]

definition get_required_prb_dl :: "srslte \<Rightarrow> u32 \<Rightarrow> u32 \<Rightarrow> sched_ue \<Rightarrow> u32 option" where
  "get_required_prb_dl E req nof_ctrl u = map_option of_nat (required_prb_dl_loop E u req nof_ctrl 0 0)"

definition ul_tbs_for :: "srslte \<Rightarrow> sched_ue \<Rightarrow> nat \<Rightarrow> int option" where
  "ul_tbs_for E u n =
     (let nof_re = (2 * (cp_nsymb E (cl_cp (su_cell u)) - 1) - 0) * of_nat n * SRSLTE_NRE E
      in if su_fixed_mcs_ul u < 0
         then map_option fst (alloc_tbs_ul E u (of_nat n) nof_re 0 0)
         else Some (tbs_bytes E (su_fixed_mcs_ul u) (of_nat n)))"

function required_prb_ul_loop :: "srslte \<Rightarrow> sched_ue \<Rightarrow> u32 \<Rightarrow> nat \<Rightarrow> u32 \<Rightarrow> nat option" where
  "required_prb_ul_loop E u req n nbytes =
     (if n < unat (cl_nof_prb (su_cell u)) \<and> nbytes < req + 4 then
        (case ul_tbs_for E u n of
           None \<Rightarrow> None
         | Some tbs \<Rightarrow>
             required_prb_ul_loop E u req (n + 1) (if 0 < tbs then of_i32 tbs else nbytes))
      else Some n)"
  by pat_completeness auto
termination by (relation "measure (\<lambda>(E, u, r, n, b). unat (cl_nof_prb (su_cell u)) - n)") auto

declare required_prb_ul_loop.simps [simp del]

function next_valid_prb :: "srslte \<Rightarrow> nat \<Rightarrow> nat \<Rightarrow> nat" where
  "next_valid_prb E nof_prb n =
     (if \<not> valid_prb E (of_nat n) \<and> n \<le> nof_prb then next_valid_prb E nof_prb (n + 1) else n)"
  by pat_completeness auto
termination by (relation "measure (\<lambda>(E, m, n). Suc m - n)") auto

declare next_valid_prb.simps [simp del]

definition get_required_prb_ul :: "srslte \<Rightarrow> u32 \<Rightarrow> sched_ue \<Rightarrow> u32 option" where
  "get_required_prb_ul E req u =
     (if req = 0 then Some 0
      else do {
        n \<leftarrow> required_prb_ul_loop E u req 1 0;
        Some (of_nat (next_valid_prb E (unat (cl_nof_prb (su_cell u))) n))
      })"

section \<open>DCI format, aggregation level and locations\<close>

definition get_dci_format :: "sched_ue \<Rightarrow> dci_format" where
  "get_dci_format u =
     (if su_phy_config_dedicated_enabled u
      then (case su_dl_ant_tx_mode u of TM3 \<Rightarrow> FORMAT2A | TM4 \<Rightarrow> FORMAT2 | _ \<Rightarrow> FORMAT1)
      else FORMAT1)"

function aggr_level_loop :: "srslte \<Rightarrow> u32 \<Rightarrow> rat \<Rightarrow> rat \<Rightarrow> nat \<Rightarrow> nat \<Rightarrow> nat" where
  "aggr_level_loop E nof_bits factor max_coderate l_max l =
     (let cr = pdcch_coderate E nof_bits (of_nat l)
      in if l + 1 < l_max \<and> max_coderate < factor * cr
         then aggr_level_loop E nof_bits factor max_coderate l_max (l + 1) else l + 1)"
  by pat_completeness auto
termination by (relation "measure (\<lambda>(E, b, f, m, lm, l). lm - l)") auto

declare aggr_level_loop.simps [simp del]

definition get_aggr_level :: "srslte \<Rightarrow> u32 \<Rightarrow> sched_ue \<Rightarrow> nat" where
  "get_aggr_level E nof_bits u =
     (let six = (cl_nof_prb (su_cell u) = 6)
      in aggr_level_loop E nof_bits (if six then 1 else 3 / 2) (cqi_to_coderate E (su_dl_cqi u))
           (if six then 2 else 3) 0)"

definition get_locations :: "u32 \<Rightarrow> u32 \<Rightarrow> sched_ue \<Rightarrow> sched_dci_cce" where
  "get_locations cfi sf_idx u =
     (if 0 < cfi \<and> cfi \<le> 3 then su_dci_locations u (unat (cfi - 1)) (unat sf_idx)
      else su_dci_locations u 0 (unat sf_idx))"

section \<open>Packing the RLC buffers\<close>

text \<open>
  \<open>alloc_pdu\<close> takes bytes from the first bearer with data, retransmissions first, and returns
  their number, the PDU it fills in when there is one, and the user.
\<close>

definition take_bytes :: "int \<Rightarrow> ue_bearer \<Rightarrow> int \<times> ue_bearer" where
  "take_bytes tbs b =
     (if lc_buf_retx b \<noteq> 0
      then let x = min (lc_buf_retx b) tbs in (x, b\<lparr>lc_buf_retx := lc_buf_retx b - x\<rparr>)
      else if lc_buf_tx b \<noteq> 0
      then let x = min (lc_buf_tx b) tbs in (x, b\<lparr>lc_buf_tx := lc_buf_tx b - x\<rparr>)
      else (0, b))"

fun alloc_pdu_loop :: "int \<Rightarrow> nat list \<Rightarrow> sched_ue \<Rightarrow> int \<times> nat \<times> sched_ue" where
  "alloc_pdu_loop tbs [] u = (0, 0, u)"
| "alloc_pdu_loop tbs (i # is) u =
     (let (x, b) = take_bytes tbs (su_lch u i);
          u' = upd_lch i (\<lambda>_. b) u
      in if x \<noteq> 0 then (x, i, u') else alloc_pdu_loop tbs is u')"

definition alloc_pdu :: "srslte \<Rightarrow> int \<Rightarrow> sched_ue \<Rightarrow> int \<times> dl_sched_pdu option \<times> sched_ue" where
  "alloc_pdu E tbs u =
     (let (x, i, u) = alloc_pdu_loop tbs [0..<MAX_LC E] u
      in (x, if x \<noteq> 0 then Some \<lparr>pdu_lcid = of_nat i, pdu_nbytes = of_i32 x\<rparr> else None, u))"

definition append_pdu :: "nat \<Rightarrow> dl_sched_pdu \<Rightarrow> dl_sched_data \<Rightarrow> dl_sched_data option" where
  "append_pdu tb p d = do {
     row \<leftarrow> wr (ds_pdu d tb) (ds_nof_pdu_elems d tb) p;
     Some (d\<lparr>ds_pdu := (ds_pdu d)(tb := row),
             ds_nof_pdu_elems := (ds_nof_pdu_elems d)(tb := ds_nof_pdu_elems d tb + 1)\<rparr>)
   }"

text \<open>The \<open>do\<close> loop of both format functions that fills a transport block.\<close>

function fill_tb ::
  "srslte \<Rightarrow> nat \<Rightarrow> int \<Rightarrow> dl_sched_data \<Rightarrow> sched_ue \<Rightarrow> (dl_sched_data \<times> sched_ue) option" where
  "fill_tb E tb rem d u =
     (let x = fst (alloc_pdu E rem u);
          p = fst (snd (alloc_pdu E rem u));
          u' = snd (snd (alloc_pdu E rem u))
      in case (case p of None \<Rightarrow> Some d | Some q \<Rightarrow> append_pdu tb q d) of
           None \<Rightarrow> None
         | Some d' \<Rightarrow> if 0 < rem - x \<and> 0 < x then fill_tb E tb (rem - x) d' u' else Some (d', u'))"
  by pat_completeness auto
termination by (relation "measure (\<lambda>(E, tb, rem, d, u). nat rem)") auto

declare fill_tb.simps [simp del]

section \<open>DCI formats\<close>

definition clear_dci :: "dl_harq_proc \<Rightarrow> dl_sched_data \<Rightarrow> dl_sched_data" where
  "clear_dci h d =
     d\<lparr>ds_dci := dl_dci_zero\<lparr>dd_alloc_type := ALLOC_TYPE0, dd_rbg_bitmask := get_rbgmask h\<rparr>\<rparr>"

definition grant_nof_re :: "srslte \<Rightarrow> u32 \<Rightarrow> u32 \<Rightarrow> dl_sched_data \<Rightarrow> sched_ue \<Rightarrow> u32" where
  "grant_nof_re E tti cfi d u =
     dl_dci_nof_re E (ds_dci d) (su_cell u) (tti mod 10)
       (cfi + (if cl_nof_prb (su_cell u) < 10 then 1 else 0))"

definition put_conres :: "srslte \<Rightarrow> dl_sched_data \<Rightarrow> dl_sched_data option" where
  "put_conres E d = do {
     p \<leftarrow> rd (ds_pdu d 0) 0;
     row \<leftarrow> wr (ds_pdu d 0) 0 (p\<lparr>pdu_lcid := CON_RES_ID E\<rparr>);
     Some (d\<lparr>ds_pdu := (ds_pdu d)(0 := row),
             ds_nof_pdu_elems := (ds_nof_pdu_elems d)(0 := ds_nof_pdu_elems d 0 + 1)\<rparr>)
   }"

definition format1_size ::
  "srslte \<Rightarrow> nat \<Rightarrow> dl_sched_data \<Rightarrow> u32 \<Rightarrow> u32 \<Rightarrow> sched_ue \<Rightarrow> (int \<times> int) option" where
  "format1_size E i d tti cfi u =
     (let req_bytes = get_pending_dl_new_data E u;
          nof_prb = format1_count_prb E (get_rbgmask (su_dl_harq u i)) (cl_nof_prb (su_cell u));
          nof_re = grant_nof_re E tti cfi d u
      in if is_first_dl_tx E u \<and> cl_nof_prb (su_cell u) < 10 then Some (tbs_bytes E 4 nof_prb, 4)
         else if su_fixed_mcs_dl u < 0 then alloc_tbs_dl E u nof_prb nof_re req_bytes 0
         else Some (tbs_bytes E (su_fixed_mcs_dl u) nof_prb, su_fixed_mcs_dl u))"

definition format1_new_tx ::
  "srslte \<Rightarrow> nat \<Rightarrow> dl_sched_data \<Rightarrow> u32 \<Rightarrow> u32 \<Rightarrow> sched_ue \<Rightarrow> (int \<times> int \<times> dl_sched_data \<times> sched_ue) option" where
  "format1_new_tx E i d tti cfi u = do {
     let need_conres_ce = is_first_dl_tx E u;
     (tbs, mcs) \<leftarrow> format1_size E i d tti cfi u;
     let u = upd_dl_harq i (dl_new_tx 0 tti mcs tbs (dl_ncce (ds_dci_location d))) u;
     d \<leftarrow> (if need_conres_ce then put_conres E d else Some d);
     (d, u) \<leftarrow> fill_tb E 0 tbs d u;
     Some (mcs, tbs, d, u)
   }"

definition format1_result ::
  "nat \<Rightarrow> int \<Rightarrow> int \<Rightarrow> dl_sched_data \<Rightarrow> sched_ue \<Rightarrow> int \<times> dl_sched_data \<times> sched_ue" where
  "format1_result i mcs tbs d u =
     (let d = d\<lparr>ds_rnti := su_rnti u\<rparr>;
          h = su_dl_harq u i
      in if 0 < tbs
         then (tbs,
           d\<lparr>ds_dci := (ds_dci d)\<lparr>dd_harq_process := hq_id h, dd_mcs_idx := of_i32 mcs,
                dd_rv_idx := get_rvidx (nof_retx h 0), dd_ndi := get_ndi h 0,
                dd_tpc_pucch := word_of_int (su_next_tpc_pucch u),
                dd_tb_en := (dd_tb_en (ds_dci d))(0 := True, 1 := False)\<rparr>,
             ds_tbs := (ds_tbs d)(0 := of_i32 tbs, 1 := 0)\<rparr>,
           u\<lparr>su_next_tpc_pucch := 1\<rparr>)
         else (tbs, d, u))"

definition generate_format1 ::
  "srslte \<Rightarrow> nat \<Rightarrow> dl_sched_data \<Rightarrow> u32 \<Rightarrow> u32 \<Rightarrow> sched_ue \<Rightarrow> (int \<times> dl_sched_data \<times> sched_ue) option" where
  "generate_format1 E i d tti cfi u = do {
     let d = clear_dci (su_dl_harq u i) d;
     (mcs, tbs, d, u) \<leftarrow>
       (if is_empty (su_dl_harq u i) 0 then format1_new_tx E i d tti cfi u
        else let ((mcs, tbs), h) = new_retx 0 tti (su_dl_harq u i)
             in Some (mcs, tbs, d, upd_dl_harq i (\<lambda>_. h) u));
     Some (format1_result i mcs tbs d u)
   }"

definition format2_layers :: "srslte \<Rightarrow> u32 \<Rightarrow> dl_harq_proc \<Rightarrow> (nat \<Rightarrow> bool) \<times> bool" where
  "format2_layers E dl_ri h =
     (if dl_ri = 0 then
        (if is_empty h 1 then ((\<lambda>_. False)(0 := True), True) else ((\<lambda>_. False)(1 := True), True))
      else
        (let tb_en = (\<lambda>tb. tb < SRSLTE_MAX_TB E \<and> \<not> is_empty h tb);
             no_retx = list_all (is_empty h) [0..<SRSLTE_MAX_TB E]
         in if no_retx then (tb_en(0 := True, 1 := True), True) else (tb_en, False)))"

definition set_dci_tb :: "nat \<Rightarrow> dl_harq_proc \<Rightarrow> int \<Rightarrow> int \<Rightarrow> dl_sched_data \<Rightarrow> dl_sched_data" where
  "set_dci_tb tb h mcs tbs d =
     (if 0 < tbs then
        (let dci = ds_dci d;
             dci = (if tb = 0
                    then dci\<lparr>dd_mcs_idx := of_i32 mcs, dd_rv_idx := get_rvidx (nof_retx h tb),
                             dd_ndi := get_ndi h tb\<rparr>
                    else dci\<lparr>dd_mcs_idx_1 := of_i32 mcs, dd_rv_idx_1 := get_rvidx (nof_retx h tb),
                             dd_ndi_1 := get_ndi h tb\<rparr>)
         in d\<lparr>ds_tbs := (ds_tbs d)(tb := of_i32 tbs),
              ds_dci := dci\<lparr>dd_tb_en := (dd_tb_en dci)(tb := True)\<rparr>\<rparr>)
      else
        d\<lparr>ds_tbs := (ds_tbs d)(tb := 0),
          ds_dci := (ds_dci d)\<lparr>dd_tb_en := (dd_tb_en (ds_dci d))(tb := False)\<rparr>\<rparr>)"

definition format2_tb ::
  "srslte \<Rightarrow> nat \<Rightarrow> u32 \<Rightarrow> u32 \<Rightarrow> u32 \<Rightarrow> (nat \<Rightarrow> bool) \<Rightarrow> bool \<Rightarrow> nat \<Rightarrow>
   dl_sched_data \<times> sched_ue \<Rightarrow> (dl_sched_data \<times> sched_ue) option" where
  "format2_tb E i tti nof_prb nof_re tb_en no_retx tb s = do {
     let (d, u) = s;
     let req_bytes = get_pending_dl_new_data E u;
     let h = su_dl_harq u i;
     (mcs, tbs, d, u) \<leftarrow>
       (if \<not> is_empty h tb then
          let ((mcs, tbs), h) = new_retx tb tti h in Some (mcs, tbs, d, upd_dl_harq i (\<lambda>_. h) u)
        else if tb_en tb \<and> req_bytes \<noteq> 0 \<and> no_retx then do {
          (tbs, mcs) \<leftarrow>
            (if su_fixed_mcs_dl u < 0 then alloc_tbs_dl E u nof_prb nof_re req_bytes 0
             else Some (tbs_bytes E (su_fixed_mcs_dl u) nof_prb, su_fixed_mcs_dl u));
          let u = upd_dl_harq i (dl_new_tx tb tti mcs tbs (dl_ncce (ds_dci_location d))) u;
          (d, u) \<leftarrow> fill_tb E tb tbs d u;
          Some (mcs, tbs, d, u)
        }
        else Some (0, 0, d, u));
     Some (set_dci_tb tb (su_dl_harq u i) mcs tbs d, u)
   }"

definition generate_format2a ::
  "srslte \<Rightarrow> nat \<Rightarrow> dl_sched_data \<Rightarrow> u32 \<Rightarrow> u32 \<Rightarrow> sched_ue \<Rightarrow> (int \<times> dl_sched_data \<times> sched_ue) option" where
  "generate_format2a E i d tti cfi u = do {
     let d = clear_dci (su_dl_harq u i) d;
     let nof_prb = format1_count_prb E (get_rbgmask (su_dl_harq u i)) (cl_nof_prb (su_cell u));
     let nof_re = grant_nof_re E tti cfi d u;
     let (tb_en, no_retx) = format2_layers E (su_dl_ri u) (su_dl_harq u i);
     (d, u) \<leftarrow> foldM (format2_tb E i tti nof_prb nof_re tb_en no_retx) [0..<SRSLTE_MAX_TB E] (d, u);
     let d = d\<lparr>ds_rnti := su_rnti u,
               ds_dci := (ds_dci d)\<lparr>dd_harq_process := hq_id (su_dl_harq u i),
                                    dd_tpc_pucch := word_of_int (su_next_tpc_pucch u)\<rparr>\<rparr>;
     Some (i32 (ds_tbs d 0 + ds_tbs d 1), d, u\<lparr>su_next_tpc_pucch := 1\<rparr>)
   }"

definition generate_format2 ::
  "srslte \<Rightarrow> nat \<Rightarrow> dl_sched_data \<Rightarrow> u32 \<Rightarrow> u32 \<Rightarrow> sched_ue \<Rightarrow> (int \<times> dl_sched_data \<times> sched_ue) option" where
  "generate_format2 E i d tti cfi u = do {
     (ret, d, u) \<leftarrow> generate_format2a E i d tti cfi u;
     let pinfo = (if dl_grant_nof_tb E (dd_tb_en (ds_dci d)) = 1
                  then (ucast (su_dl_pmi u + 1) :: u8) mod 5
                  else (ucast (su_dl_pmi u AND 1) :: u8));
     Some (ret, d\<lparr>ds_dci := (ds_dci d)\<lparr>dd_pinfo := pinfo\<rparr>\<rparr>, u)
   }"

definition format0_tx ::
  "srslte \<Rightarrow> nat \<Rightarrow> u32 \<Rightarrow> sched_ue \<Rightarrow> (bool \<times> int \<times> int \<times> sched_ue) option" where
  "format0_tx E i tti u =
     (let L = ua_L (get_alloc (su_ul_harq u i));
          (rar_mcs, h) = get_rar_mcs (su_ul_harq u i)
      in case rar_mcs of
           Some mcs \<Rightarrow>
             (let tbs = tbs_bytes E mcs L in Some (True, mcs, tbs, upd_ul_harq i (\<lambda>_. ul_new_tx tti mcs tbs h) u))
         | None \<Rightarrow>
             if is_empty h 0 then do {
               let req_bytes = get_pending_ul_new_data E tti u;
               let nof_re = (2 * (cp_nsymb E (cl_cp (su_cell u)) - 1) - 0) * L * SRSLTE_NRE E;
               (tbs, mcs) \<leftarrow>
                 (if su_fixed_mcs_ul u < 0 then alloc_tbs_ul E u L nof_re req_bytes 0
                  else Some (tbs_bytes E (su_fixed_mcs_ul u) L, su_fixed_mcs_ul u));
               Some (True, mcs, tbs, upd_ul_harq i (\<lambda>_. ul_new_tx tti mcs tbs h) u)
             }
             else (let ((mcs, _), h) = new_retx 0 tti h
                   in Some (False, mcs, tbs_bytes E mcs L, upd_ul_harq i (\<lambda>_. h) u)))"

definition format0_result ::
  "ul_alloc \<Rightarrow> nat \<Rightarrow> bool \<Rightarrow> int \<Rightarrow> int \<Rightarrow> bool \<Rightarrow> ul_sched_data \<Rightarrow> sched_ue \<Rightarrow>
   int \<times> ul_sched_data \<times> sched_ue" where
  "format0_result allocation i is_newtx mcs tbs cqi_request d u =
     (let d = d\<lparr>us_rnti := su_rnti u, us_tbs := tbs\<rparr>;
          h = su_ul_harq u i;
          rv = get_rvidx (nof_retx h 0)
      in if 0 < tbs
         then (tbs,
           d\<lparr>us_dci := (us_dci d)\<lparr>ud_L_crb := ua_L allocation, ud_RB_start := ua_RB_start allocation,
               ud_rv_idx := rv,
               ud_mcs_idx := (if \<not> is_newtx \<and> is_adaptive_retx h then 28 + rv else of_i32 mcs),
               ud_ndi := get_ndi h 0, ud_cqi_request := cqi_request, ud_hop_disabled := True,
               ud_tpc_pusch := of_i32 (su_next_tpc_pusch u)\<rparr>\<rparr>,
           u\<lparr>su_next_tpc_pusch := 1\<rparr>)
         else (tbs, d, u))"

definition generate_format0 ::
  "srslte \<Rightarrow> nat \<Rightarrow> ul_sched_data \<Rightarrow> u32 \<Rightarrow> bool \<Rightarrow> sched_ue \<Rightarrow> (int \<times> ul_sched_data \<times> sched_ue) option" where
  "generate_format0 E i d tti cqi_request u = do {
     let d = d\<lparr>us_dci := ul_dci_zero\<rparr>;
     let allocation = get_alloc (su_ul_harq u i);
     (is_newtx, mcs, tbs, u) \<leftarrow> format0_tx E i tti u;
     Some (format0_result allocation i is_newtx mcs tbs cqi_request d u)
   }"

end
