(* ===== verification/Sched_UE_Packing.thy ===== *)
theory Sched_UE_Packing
  imports Sched_UE_Grants
begin

text \<open>
  How a transport block is filled (\<open>alloc_pdu\<close> and the loop around it): every byte taken from an
  RLC buffer is announced in a PDU, the block is never overfilled, and it is filled up as far as
  the buffers allow.
\<close>

section \<open>Backlog\<close>

definition bearer_backlog :: "ue_bearer \<Rightarrow> int" where
  "bearer_backlog b = lc_buf_retx b + lc_buf_tx b"

definition bearer_ok :: "ue_bearer \<Rightarrow> bool" where
  "bearer_ok b \<longleftrightarrow> 0 \<le> lc_buf_retx b \<and> 0 \<le> lc_buf_tx b"

definition bufs_ok :: "srslte \<Rightarrow> sched_ue \<Rightarrow> bool" where
  "bufs_ok E u \<longleftrightarrow> (\<forall>i < MAX_LC E. bearer_ok (su_lch u i))"

definition dl_backlog :: "srslte \<Rightarrow> sched_ue \<Rightarrow> int" where
  "dl_backlog E u = (\<Sum>i < MAX_LC E. bearer_backlog (su_lch u i))"

lemma dl_backlog_nonneg: "bufs_ok E u \<Longrightarrow> 0 \<le> dl_backlog E u"
  by (auto simp: dl_backlog_def bufs_ok_def bearer_ok_def bearer_backlog_def intro!: sum_nonneg)

lemma take_bytes_cases:
  assumes "take_bytes tbs b = (x, b')" and "bearer_ok b" and "0 \<le> tbs"
  shows "bearer_ok b'" and "bearer_backlog b' = bearer_backlog b - x" and "0 \<le> x" and "x \<le> tbs"
    and "x = 0 \<Longrightarrow> b' = b \<and> (tbs = 0 \<or> bearer_backlog b = 0)"
  using assms
  by (auto simp: take_bytes_def bearer_ok_def bearer_backlog_def Let_def split: if_splits)

lemma upd_lch_same [simp]: "upd_lch i (\<lambda>_. su_lch u i) u = u"
  by (simp add: upd_lch_def)

lemma alloc_pdu_loop_spec:
  assumes "alloc_pdu_loop tbs is u = (x, i, u')" and "\<forall>j \<in> set is. bearer_ok (su_lch u j)"
    and "0 \<le> tbs"
  shows "(x = 0 \<and> u' = u \<and> (tbs = 0 \<or> (\<forall>j \<in> set is. bearer_backlog (su_lch u j) = 0))) \<or>
     (0 < x \<and> x \<le> tbs \<and> i \<in> set is \<and>
      (\<exists>b. take_bytes tbs (su_lch u i) = (x, b) \<and> u' = upd_lch i (\<lambda>_. b) u))"
  using assms(1,2)
proof (induction "is")
  case Nil
  then show ?case by simp
next
  case (Cons j js)
  obtain y b where tb: "take_bytes tbs (su_lch u j) = (y, b)" by fastforce
  have ok: "bearer_ok (su_lch u j)" using Cons.prems(2) by simp
  note t = take_bytes_cases[OF tb ok assms(3)]
  show ?case
  proof (cases "y = 0")
    case True
    then show ?thesis using Cons t(5) tb by auto
  next
    case False
    then show ?thesis using Cons.prems tb t(3,4) by auto
  qed
qed

lemma dl_backlog_upd:
  assumes "i < MAX_LC E"
  shows "dl_backlog E (upd_lch i (\<lambda>_. b) u) =
    dl_backlog E u - bearer_backlog (su_lch u i) + bearer_backlog b"
proof -
  have "(\<Sum>j < MAX_LC E. bearer_backlog (((su_lch u)(i := b)) j)) =
     (\<Sum>j \<in> {..<MAX_LC E} - {i}. bearer_backlog (su_lch u j)) + bearer_backlog b"
    using assms by (simp add: sum.remove[of _ i])
  moreover have "dl_backlog E u =
     (\<Sum>j \<in> {..<MAX_LC E} - {i}. bearer_backlog (su_lch u j)) + bearer_backlog (su_lch u i)"
    using assms by (simp add: dl_backlog_def sum.remove[of _ i])
  ultimately show ?thesis by (simp add: dl_backlog_def upd_lch_def)
qed

text \<open>One PDU: nothing is taken only when the block or the buffers are empty.\<close>

lemma alloc_pdu_spec:
  assumes "alloc_pdu E tbs u = (x, p, u')" and "bufs_ok E u" and "0 \<le> tbs"
  shows "bufs_ok E u'" and "dl_backlog E u' = dl_backlog E u - x" and "0 \<le> x" and "x \<le> tbs"
    and "x = 0 \<Longrightarrow> u' = u \<and> p = None \<and> (tbs = 0 \<or> dl_backlog E u = 0)"
    and "x \<noteq> 0 \<Longrightarrow> \<exists>i < MAX_LC E. p = Some \<lparr>pdu_lcid = of_nat i, pdu_nbytes = of_i32 x\<rparr>"
proof -
  obtain y i v where l: "alloc_pdu_loop tbs [0..<MAX_LC E] u = (y, i, v)" by (metis prod_cases3)
  with assms(1) have eq: "y = x" "v = u'"
    and p: "p = (if x \<noteq> 0 then Some \<lparr>pdu_lcid = of_nat i, pdu_nbytes = of_i32 x\<rparr> else None)"
    by (auto simp: alloc_pdu_def Let_def)
  have ok: "\<forall>j \<in> set [0..<MAX_LC E]. bearer_ok (su_lch u j)" using assms(2) by (simp add: bufs_ok_def)
  note s = alloc_pdu_loop_spec[OF l ok assms(3), unfolded eq]
  consider (none) "x = 0" "u' = u" "tbs = 0 \<or> (\<forall>j < MAX_LC E. bearer_backlog (su_lch u j) = 0)"
    | (some) b where "0 < x" "x \<le> tbs" "i < MAX_LC E" "take_bytes tbs (su_lch u i) = (x, b)"
        "u' = upd_lch i (\<lambda>_. b) u"
    using s by auto
  note cases = this
  show "bufs_ok E u'"
    using cases
  proof cases
    case some
    then show ?thesis
      using assms(2,3) take_bytes_cases(1)[OF some(4)] by (auto simp: bufs_ok_def upd_lch_def)
  qed (use assms(2) in simp)
  show "dl_backlog E u' = dl_backlog E u - x"
    using cases
  proof cases
    case some
    then show ?thesis
      using assms(2,3) take_bytes_cases(2)[OF some(4)] by (simp add: dl_backlog_upd bufs_ok_def)
  qed simp
  show "0 \<le> x" "x \<le> tbs" using cases assms(3) by (cases, auto)+
  show "x = 0 \<Longrightarrow> u' = u \<and> p = None \<and> (tbs = 0 \<or> dl_backlog E u = 0)"
    using cases p by (cases) (auto simp: dl_backlog_def)
  show "x \<noteq> 0 \<Longrightarrow> \<exists>i < MAX_LC E. p = Some \<lparr>pdu_lcid = of_nat i, pdu_nbytes = of_i32 x\<rparr>"
    using cases p by (cases) auto
qed

section \<open>The announced bytes\<close>

definition pdu_bytes :: "dl_sched_data \<Rightarrow> nat \<Rightarrow> int" where
  "pdu_bytes d tb = (\<Sum>i < ds_nof_pdu_elems d tb. uint (pdu_nbytes (ds_pdu d tb ! i)))"

lemma append_pdu_spec:
  assumes "append_pdu tb p d = Some d'"
  shows "pdu_bytes d' tb = pdu_bytes d tb + uint (pdu_nbytes p)"
    and "ds_nof_pdu_elems d' tb = ds_nof_pdu_elems d tb + 1"
    and "length (ds_pdu d' tb) = length (ds_pdu d tb)"
    and "ds_nof_pdu_elems d tb < length (ds_pdu d tb)"
proof -
  let ?n = "ds_nof_pdu_elems d tb"
  from assms have n: "?n < length (ds_pdu d tb)"
    and d': "d' = d\<lparr>ds_pdu := (ds_pdu d)(tb := (ds_pdu d tb)[?n := p]),
                    ds_nof_pdu_elems := (ds_nof_pdu_elems d)(tb := ?n + 1)\<rparr>"
    by (auto simp: append_pdu_def bind_eq_Some_conv dest!: wr_SomeD)
  show "pdu_bytes d' tb = pdu_bytes d tb + uint (pdu_nbytes p)"
    using n by (simp add: d' pdu_bytes_def)
  show "ds_nof_pdu_elems d' tb = ?n + 1" "length (ds_pdu d' tb) = length (ds_pdu d tb)"
    "?n < length (ds_pdu d tb)"
    using n by (simp_all add: d')
qed

lemma append_pdu_defined:
  "ds_nof_pdu_elems d tb < length (ds_pdu d tb) \<Longrightarrow> \<exists>d'. append_pdu tb p d = Some d'"
  by (simp add: append_pdu_def)

definition put_pdu :: "nat \<Rightarrow> dl_sched_pdu option \<Rightarrow> dl_sched_data \<Rightarrow> dl_sched_data option" where
  "put_pdu tb p d = (case p of None \<Rightarrow> Some d | Some q \<Rightarrow> append_pdu tb q d)"

lemma fill_tb_step:
  assumes "alloc_pdu E rem u = (x, p, v)"
  shows "fill_tb E tb rem d u =
     (case put_pdu tb p d of None \<Rightarrow> None
      | Some c \<Rightarrow> if 0 < rem - x \<and> 0 < x then fill_tb E tb (rem - x) c v else Some (c, v))"
  by (subst fill_tb.simps) (simp add: assms Let_def put_pdu_def)

lemma uint_of_i32: "0 \<le> x \<Longrightarrow> x < 2 ^ 31 \<Longrightarrow> uint (of_i32 x) = x"
  by (simp add: uint_word_of_int take_bit_int_eq_self)

lemma put_pdu_bytes:
  assumes "alloc_pdu E rem u = (x, p, v)" and "bufs_ok E u" and "0 \<le> rem" and "rem < 2 ^ 31"
    and "put_pdu tb p d = Some c"
  shows "pdu_bytes c tb = pdu_bytes d tb + x"
proof (cases "x = 0")
  case True
  then show ?thesis using alloc_pdu_spec(5)[OF assms(1-3)] assms(5) by (simp add: put_pdu_def)
next
  case False
  note a = alloc_pdu_spec[OF assms(1-3)]
  obtain i where "p = Some \<lparr>pdu_lcid = of_nat i, pdu_nbytes = of_i32 x\<rparr>" using a(6) False by auto
  then show ?thesis
    using assms(4,5) a(3,4) append_pdu_spec(1)[of tb _ d c] by (auto simp: put_pdu_def uint_of_i32)
qed

lemma fill_tb_spec:
  assumes "fill_tb E tb rem d u = Some (d', u')" and "bufs_ok E u" and "0 \<le> rem" and "rem < 2 ^ 31"
  shows "bufs_ok E u' \<and> dl_backlog E u' = dl_backlog E u - min rem (dl_backlog E u) \<and>
    pdu_bytes d' tb = pdu_bytes d tb + min rem (dl_backlog E u)"
  using assms
proof (induction E tb rem d u rule: fill_tb.induct)
  case (1 E tb rem d u)
  obtain x p v where al: "alloc_pdu E rem u = (x, p, v)" by (metis prod_cases3)
  note a = alloc_pdu_spec[OF al 1(3,4)]
  obtain c where c: "put_pdu tb p d = Some c"
    using 1(2) by (auto simp: fill_tb_step[OF al] split: option.splits)
  note pb = put_pdu_bytes[OF al 1(3-5) c]
  show ?case
  proof (cases "0 < rem - x \<and> 0 < x")
    case True
    then have f: "fill_tb E tb (rem - x) c v = Some (d', u')"
      using 1(2) c by (simp add: fill_tb_step[OF al])
    have "bufs_ok E u' \<and> dl_backlog E u' = dl_backlog E v - min (rem - x) (dl_backlog E v) \<and>
        pdu_bytes d' tb = pdu_bytes c tb + min (rem - x) (dl_backlog E v)"
    proof (rule 1(1)[of x p v c, OF _ _ _ _ True f a(1)])
      show "x = fst (alloc_pdu E rem u)" "p = fst (snd (alloc_pdu E rem u))"
        "v = snd (snd (alloc_pdu E rem u))" by (simp_all add: al)
      show "(case p of None \<Rightarrow> Some d | Some q \<Rightarrow> append_pdu tb q d) = Some c"
        using c by (simp add: put_pdu_def)
      show "0 \<le> rem - x" "rem - x < 2 ^ 31" using True a(3) 1(5) by linarith+
    qed
    then show ?thesis using a(2) pb by (simp add: min_def)
  next
    case False
    then have "d' = c" "u' = v"
      using 1(2) unfolding fill_tb_step[OF al] c option.case if_not_P[OF False] by simp_all
    moreover have "x = rem \<or> (x = 0 \<and> dl_backlog E u = 0)" using False a(3-5) by linarith
    moreover have "0 \<le> dl_backlog E v" by (rule dl_backlog_nonneg[OF a(1)])
    ultimately show ?thesis using a(1,2) pb 1(4) by (auto simp: min_def)
  qed
qed

text \<open>PDUs already in the block stay as they are.\<close>

lemma append_pdu_prefix:
  "append_pdu tb p d = Some d' \<Longrightarrow> k < ds_nof_pdu_elems d tb \<Longrightarrow> ds_pdu d' tb ! k = ds_pdu d tb ! k"
  by (auto simp: append_pdu_def bind_eq_Some_conv dest!: wr_SomeD)

lemma fill_tb_prefix:
  assumes "fill_tb E tb rem d u = Some (d', u')" and "k < ds_nof_pdu_elems d tb"
  shows "ds_pdu d' tb ! k = ds_pdu d tb ! k"
  using assms
proof (induction E tb rem d u rule: fill_tb.induct)
  case (1 E tb rem d u)
  obtain x p v where al: "alloc_pdu E rem u = (x, p, v)" by (metis prod_cases3)
  obtain c where c: "put_pdu tb p d = Some c"
    using 1(2) by (auto simp: fill_tb_step[OF al] split: option.splits)
  have k: "ds_pdu c tb ! k = ds_pdu d tb ! k" "k < ds_nof_pdu_elems c tb"
    using c 1(3) append_pdu_prefix[of tb _ d c k] append_pdu_spec(2)[of tb _ d c]
    by (auto simp: put_pdu_def split: option.splits)
  show ?case
  proof (cases "0 < rem - x \<and> 0 < x")
    case True
    then have f: "fill_tb E tb (rem - x) c v = Some (d', u')"
      using 1(2) c by (simp add: fill_tb_step[OF al])
    have "ds_pdu d' tb ! k = ds_pdu c tb ! k"
    proof (rule 1(1)[of x p v c, OF _ _ _ _ True f k(2)])
      show "x = fst (alloc_pdu E rem u)" "p = fst (snd (alloc_pdu E rem u))"
        "v = snd (snd (alloc_pdu E rem u))" by (simp_all add: al)
      show "(case p of None \<Rightarrow> Some d | Some q \<Rightarrow> append_pdu tb q d) = Some c"
        using c by (simp add: put_pdu_def)
    qed
    then show ?thesis using k(1) by simp
  next
    case False
    then have "d' = c"
      using 1(2) unfolding fill_tb_step[OF al] c option.case if_not_P[OF False] by simp
    then show ?thesis using k(1) by simp
  qed
qed

text \<open>Packing changes nothing of the user but its buffers.\<close>

lemma upd_lch_frame: "upd_lch i f u = u\<lparr>su_lch := su_lch (upd_lch i f u)\<rparr>"
  by (simp add: upd_lch_def)

lemma alloc_pdu_loop_frame:
  "alloc_pdu_loop tbs is u = (x, i, u') \<Longrightarrow> u' = u\<lparr>su_lch := su_lch u'\<rparr>"
proof (induction "is" arbitrary: u)
  case Nil
  then show ?case by simp
next
  case (Cons j js)
  obtain y b where tb: "take_bytes tbs (su_lch u j) = (y, b)" by fastforce
  show ?case
  proof (cases "y = 0")
    case True
    then have "u' = (upd_lch j (\<lambda>_. b) u)\<lparr>su_lch := su_lch u'\<rparr>" using Cons tb by simp
    then show ?thesis by (simp add: upd_lch_def)
  next
    case False
    then have "u' = upd_lch j (\<lambda>_. b) u" using Cons.prems tb by auto
    then show ?thesis by (metis upd_lch_frame)
  qed
qed

lemma alloc_pdu_frame: "snd (snd (alloc_pdu E rem u)) = u\<lparr>su_lch := su_lch (snd (snd (alloc_pdu E rem u)))\<rparr>"
proof -
  obtain y i v where l: "alloc_pdu_loop rem [0..<MAX_LC E] u = (y, i, v)" by (metis prod_cases3)
  then show ?thesis using alloc_pdu_loop_frame[OF l] by (simp add: alloc_pdu_def)
qed

lemma fill_tb_frame: "fill_tb E tb rem d u = Some (d', u') \<Longrightarrow> u' = u\<lparr>su_lch := su_lch u'\<rparr>"
proof (induction E tb rem d u rule: fill_tb.induct)
  case (1 E tb rem d u)
  obtain x p v where al: "alloc_pdu E rem u = (x, p, v)" by (metis prod_cases3)
  have v: "v = u\<lparr>su_lch := su_lch v\<rparr>" using alloc_pdu_frame[of E rem u] al by simp
  obtain c where c: "put_pdu tb p d = Some c"
    using 1(2) by (auto simp: fill_tb_step[OF al] split: option.splits)
  show ?case
  proof (cases "0 < rem - x \<and> 0 < x")
    case True
    then have f: "fill_tb E tb (rem - x) c v = Some (d', u')"
      using 1(2) c by (simp add: fill_tb_step[OF al])
    have "u' = v\<lparr>su_lch := su_lch u'\<rparr>"
    proof (rule 1(1)[of x p v c, OF _ _ _ _ True f])
      show "x = fst (alloc_pdu E rem u)" "p = fst (snd (alloc_pdu E rem u))"
        "v = snd (snd (alloc_pdu E rem u))" by (simp_all add: al)
      show "(case p of None \<Rightarrow> Some d | Some q \<Rightarrow> append_pdu tb q d) = Some c"
        using c by (simp add: put_pdu_def)
    qed
    then show ?thesis by (subst (asm) v) simp
  next
    case False
    then have "u' = v"
      using 1(2) unfolding fill_tb_step[OF al] c option.case if_not_P[OF False] by simp
    then show ?thesis using v by simp
  qed
qed

section \<open>Room for the PDUs\<close>

definition bearer_queues :: "ue_bearer \<Rightarrow> nat" where
  "bearer_queues b = (if lc_buf_retx b \<noteq> 0 then 1 else 0) + (if lc_buf_tx b \<noteq> 0 then 1 else 0)"

definition dl_queues :: "srslte \<Rightarrow> sched_ue \<Rightarrow> nat" where
  "dl_queues E u = (\<Sum>i < MAX_LC E. bearer_queues (su_lch u i))"

lemma take_bytes_queues:
  assumes "take_bytes tbs b = (x, b')" and "x \<noteq> 0"
  shows "0 < bearer_queues b" and "x < tbs \<Longrightarrow> Suc (bearer_queues b') = bearer_queues b"
  using assms by (auto simp: take_bytes_def bearer_queues_def Let_def min_def split: if_splits)

lemma dl_queues_upd:
  assumes "i < MAX_LC E"
  shows "dl_queues E (upd_lch i (\<lambda>_. b) u) + bearer_queues (su_lch u i) = dl_queues E u + bearer_queues b"
  using assms by (simp add: dl_queues_def upd_lch_def sum.remove[of "{..<MAX_LC E}" i])

lemma alloc_pdu_queues:
  assumes "alloc_pdu E tbs u = (x, p, u')" and "bufs_ok E u" and "0 < tbs" and "x \<noteq> 0"
  shows "0 < dl_queues E u" and "x < tbs \<Longrightarrow> Suc (dl_queues E u') = dl_queues E u"
proof -
  obtain y i v where l: "alloc_pdu_loop tbs [0..<MAX_LC E] u = (y, i, v)" by (metis prod_cases3)
  with assms(1) have eq: "y = x" "v = u'" by (auto simp: alloc_pdu_def Let_def)
  have ok: "\<forall>j \<in> set [0..<MAX_LC E]. bearer_ok (su_lch u j)" using assms(2) by (simp add: bufs_ok_def)
  obtain b where b: "i < MAX_LC E" "take_bytes tbs (su_lch u i) = (x, b)" "u' = upd_lch i (\<lambda>_. b) u"
    using alloc_pdu_loop_spec[OF l ok] assms(3,4) eq by auto
  note q = take_bytes_queues[OF b(2) assms(4)] dl_queues_upd[OF b(1), of b u]
  show "0 < dl_queues E u" using q(1) b(1) by (auto simp: dl_queues_def intro!: sum_pos2[of _ i])
  show "x < tbs \<Longrightarrow> Suc (dl_queues E u') = dl_queues E u" using q b(3) by simp
qed

lemma fill_tb_defined:
  assumes "bufs_ok E u" and "0 \<le> rem"
    and "ds_nof_pdu_elems d tb + dl_queues E u \<le> length (ds_pdu d tb)"
  shows "\<exists>d' u'. fill_tb E tb rem d u = Some (d', u')"
  using assms
proof (induction E tb rem d u rule: fill_tb.induct)
  case (1 E tb rem d u)
  obtain x p v where al: "alloc_pdu E rem u = (x, p, v)" by (metis prod_cases3)
  note a = alloc_pdu_spec[OF al 1(2,3)]
  show ?case
  proof (cases "x = 0")
    case True
    then show ?thesis using a(5) by (simp add: fill_tb_step[OF al] put_pdu_def)
  next
    case False
    with a(3,4) have rem: "0 < rem" "0 < x" by auto
    note q = alloc_pdu_queues[OF al 1(2) rem(1) False]
    obtain i where p: "p = Some \<lparr>pdu_lcid = of_nat i, pdu_nbytes = of_i32 x\<rparr>" using a(6) False by auto
    obtain c where c: "put_pdu tb p d = Some c"
      using append_pdu_defined[of d tb] q(1) 1(4) by (auto simp: put_pdu_def p)
    note ap = append_pdu_spec[OF c[unfolded put_pdu_def p option.case]]
    show ?thesis
    proof (cases "0 < rem - x")
      case True
      then have "ds_nof_pdu_elems c tb + dl_queues E v \<le> length (ds_pdu c tb)"
        using q(2) ap(2,3) 1(4) by simp
      moreover have "(case p of None \<Rightarrow> Some d | Some q \<Rightarrow> append_pdu tb q d) = Some c"
        using c by (simp add: put_pdu_def)
      ultimately have "\<exists>d' u'. fill_tb E tb (rem - x) c v = Some (d', u')"
        using True rem(2) a(1) by (intro 1(1)[of x p v c]) (simp_all add: al)
      then show ?thesis using c True rem(2) by (simp add: fill_tb_step[OF al])
    next
      case False
      then show ?thesis using c by (simp add: fill_tb_step[OF al])
    qed
  qed
qed

end
