(* ===== verification/Sched_UE_Tbs.thy ===== *)
theory Sched_UE_Tbs
  imports Sched_UE_Packing
begin

text \<open>
  The choice of the modulation and coding scheme and the resource blocks a user asks for: the
  loop of \<open>cqi_to_tbs\<close> ends when scheme 0 is admissible and takes the largest admissible scheme,
  \<open>get_required_prb_dl\<close> returns the least number of blocks that carries the request, and
  \<open>get_required_prb_ul\<close> a number the uplink precoder accepts.
\<close>

section \<open>The loop of \<open>cqi_to_tbs\<close>\<close>

definition mcs_bits :: "srslte \<Rightarrow> u32 \<Rightarrow> int \<Rightarrow> int" where
  "mcs_bits E nof_prb m = tbs_from_idx E (of_i32 (tbs_idx_from_mcs E (of_i32 m))) nof_prb"

definition mcs_coderate :: "srslte \<Rightarrow> u32 \<Rightarrow> u32 \<Rightarrow> int \<Rightarrow> rat" where
  "mcs_coderate E nof_prb nof_re m = coderate E (of_i32 (mcs_bits E nof_prb m)) nof_re"

definition mcs_rejected :: "srslte \<Rightarrow> rat \<Rightarrow> u32 \<Rightarrow> u32 \<Rightarrow> u32 \<Rightarrow> int \<Rightarrow> bool" where
  "mcs_rejected E max_cr nof_prb nof_re max_Qm m \<longleftrightarrow>
     0 < m \<and> max_cr < mcs_coderate E nof_prb nof_re m \<or>
     93 / 100 < mcs_coderate E nof_prb nof_re m
                  / of_int (uint (min max_Qm (mod_bits_from_mcs E (of_i32 m))))"

lemma cqi_to_tbs_loop_step:
  "cqi_to_tbs_loop E max_cr nof_prb nof_re max_Qm s =
     (if mcs_rejected E max_cr nof_prb nof_re max_Qm (s - 1)
      then cqi_to_tbs_loop E max_cr nof_prb nof_re max_Qm (s - 1)
      else Some (mcs_bits E nof_prb (s - 1), s - 1))"
  by (subst cqi_to_tbs_loop.simps)
    (simp add: mcs_rejected_def mcs_coderate_def mcs_bits_def Let_def)

lemma cqi_to_tbs_loop_ends:
  assumes "\<not> mcs_rejected E max_cr nof_prb nof_re max_Qm k" and "k < s"
  shows "\<exists>m. cqi_to_tbs_loop E max_cr nof_prb nof_re max_Qm s = Some (mcs_bits E nof_prb m, m) \<and>
     k \<le> m \<and> m < s \<and> \<not> mcs_rejected E max_cr nof_prb nof_re max_Qm m \<and>
     (\<forall>m'. m < m' \<and> m' < s \<longrightarrow> mcs_rejected E max_cr nof_prb nof_re max_Qm m')"
  using assms(2)
proof (induction "nat (s - k)" arbitrary: s)
  case 0
  then show ?case by simp
next
  case (Suc d)
  show ?case
  proof (cases "mcs_rejected E max_cr nof_prb nof_re max_Qm (s - 1)")
    case False
    then show ?thesis
      using Suc.prems by (subst cqi_to_tbs_loop_step) (auto intro!: exI[of _ "s - 1"])
  next
    case True
    with assms(1) Suc.prems have ks: "k < s - 1" by (metis add_diff_cancel_right' order_le_less zle_diff1_eq)
    have "d = nat ((s - 1) - k)" using Suc.hyps(2) by simp
    from Suc.hyps(1)[OF this ks] obtain m where m: "cqi_to_tbs_loop E max_cr nof_prb nof_re max_Qm (s - 1)
         = Some (mcs_bits E nof_prb m, m)" "k \<le> m" "m < s - 1"
        "\<not> mcs_rejected E max_cr nof_prb nof_re max_Qm m"
        "\<And>m'. m < m' \<Longrightarrow> m' < s - 1 \<Longrightarrow> mcs_rejected E max_cr nof_prb nof_re max_Qm m'"
      by blast
    have "mcs_rejected E max_cr nof_prb nof_re max_Qm m'" if "m < m'" "m' < s" for m'
      using m(5)[of m'] True that by (cases "m' = s - 1") auto
    then show ?thesis
      using m(1-4) True by (subst cqi_to_tbs_loop_step) (auto intro!: exI[of _ m])
  qed
qed

section \<open>The least number of downlink blocks\<close>

lemma required_prb_dl_loop_least:
  assumes "\<And>m. 0 < m \<Longrightarrow> m \<le> unat (cl_nof_prb (su_cell u)) \<Longrightarrow>
      dl_tbs_for E u c m = Some (int (sz m)) \<and> 0 < sz m \<and> sz m < 2 ^ 32"
    and "n \<le> unat (cl_nof_prb (su_cell u))" and "nb = (if n = 0 then 0 else of_nat (sz n))"
    and "\<And>m. 0 < m \<Longrightarrow> m < n \<Longrightarrow> sz m < unat req" and "n = 0 \<or> 0 < unat req"
  shows "\<exists>k \<le> unat (cl_nof_prb (su_cell u)).
      required_prb_dl_loop E u req c n nb = Some k \<and> (k = 0 \<or> 0 < unat req) \<and>
      (k = unat (cl_nof_prb (su_cell u)) \<or> unat req \<le> (if k = 0 then 0 else sz k)) \<and>
      (\<forall>m. 0 < m \<and> m < k \<longrightarrow> sz m < unat req)"
  using assms(2-)
proof (induction "unat (cl_nof_prb (su_cell u)) - n" arbitrary: n nb)
  case 0
  then have "required_prb_dl_loop E u req c n nb = Some n"
    by (subst required_prb_dl_loop.simps) simp
  then show ?case using 0 by auto
next
  case (Suc d)
  have nb: "unat nb = (if n = 0 then 0 else sz n)"
    using assms(1)[of n] Suc.prems(1,2) by (auto simp: unat_of_nat)
  show ?case
  proof (cases "nb < req")
    case False
    then have "required_prb_dl_loop E u req c n nb = Some n"
      by (subst required_prb_dl_loop.simps) simp
    then show ?thesis
      using False Suc.prems nb by (auto simp: word_less_nat_alt)
  next
    case True
    have n: "n < unat (cl_nof_prb (su_cell u))" using Suc.hyps(2) by linarith
    have "required_prb_dl_loop E u req c n nb = required_prb_dl_loop E u req c (Suc n) (of_nat (sz (Suc n)))"
      using assms(1)[of "Suc n"] n True by (subst required_prb_dl_loop.simps) simp
    moreover have "\<exists>k \<le> unat (cl_nof_prb (su_cell u)).
      required_prb_dl_loop E u req c (Suc n) (of_nat (sz (Suc n))) = Some k \<and> (k = 0 \<or> 0 < unat req) \<and>
      (k = unat (cl_nof_prb (su_cell u)) \<or> unat req \<le> (if k = 0 then 0 else sz k)) \<and>
      (\<forall>m. 0 < m \<and> m < k \<longrightarrow> sz m < unat req)"
    proof (rule Suc.hyps(1))
      show "sz m < unat req" if "0 < m" "m < Suc n" for m
        using that Suc.prems(3)[of m] True nb by (cases "m = n") (auto simp: word_less_nat_alt)
    qed (use Suc.hyps(2) n True in \<open>auto simp: word_less_nat_alt\<close>)
    ultimately show ?thesis by simp
  qed
qed

section \<open>Widths of the uplink precoder\<close>

lemma next_valid_prb_spec:
  assumes "n \<le> Suc N"
  shows "next_valid_prb E N n \<le> Suc N \<and> n \<le> next_valid_prb E N n \<and>
     (next_valid_prb E N n = Suc N \<or> valid_prb E (of_nat (next_valid_prb E N n)))"
  using assms
proof (induction E N n rule: next_valid_prb.induct)
  case (1 E N n)
  show ?case
  proof (cases "\<not> valid_prb E (of_nat n) \<and> n \<le> N")
    case True
    then show ?thesis using 1 by (subst (1 2 3 4) next_valid_prb.simps) simp
  next
    case False
    then show ?thesis using 1(2) by (subst (1 2 3 4) next_valid_prb.simps) auto
  qed
qed

lemma required_prb_ul_loop_ends:
  assumes "\<And>m. ul_tbs_for E u m \<noteq> None" and "n \<le> max 1 (unat (cl_nof_prb (su_cell u)))"
  shows "\<exists>k. required_prb_ul_loop E u req n nb = Some k \<and> n \<le> k \<and>
     k \<le> max 1 (unat (cl_nof_prb (su_cell u)))"
  using assms(2)
proof (induction "unat (cl_nof_prb (su_cell u)) - n" arbitrary: n nb)
  case 0
  then show ?case by (subst required_prb_ul_loop.simps) auto
next
  case (Suc d)
  obtain t where t: "ul_tbs_for E u n = Some t" using assms(1)[of n] by auto
  show ?case
  proof (cases "nb < req + 4")
    case False
    then show ?thesis using Suc.prems by (subst required_prb_ul_loop.simps) auto
  next
    case True
    have n: "n < unat (cl_nof_prb (su_cell u))" using Suc.hyps(2) by linarith
    have "d = unat (cl_nof_prb (su_cell u)) - Suc n" using Suc.hyps(2) by simp
    from Suc.hyps(1)[OF this, of "if 0 < t then of_i32 t else nb"] n
    obtain k where "required_prb_ul_loop E u req (Suc n) (if 0 < t then of_i32 t else nb) = Some k"
        "Suc n \<le> k" "k \<le> max 1 (unat (cl_nof_prb (su_cell u)))"
      by auto
    then show ?thesis using True n t by (subst required_prb_ul_loop.simps) auto
  qed
qed

end
