(* ===== verification/Sched_UE_Props.thy ===== *)
theory Sched_UE_Props
  imports Sched_UE_Tbs
begin

text \<open>
  The properties of the user context: what a downlink grant carries, which HARQ process a grant or
  a piece of feedback concerns, how much bandwidth a user asks for, and the tables of control
  channel candidates.
\<close>

section \<open>Frame lemmas\<close>

lemma upd_dl_harq_frame [simp]:
  "dl_backlog E (upd_dl_harq i f u) = dl_backlog E u"
  "dl_queues E (upd_dl_harq i f u) = dl_queues E u"
  "bufs_ok E (upd_dl_harq i f u) = bufs_ok E u"
  by (simp_all add: upd_dl_harq_def dl_backlog_def bufs_ok_def dl_queues_def)

lemma tpc_frame [simp]:
  "dl_backlog E (u\<lparr>su_next_tpc_pucch := x\<rparr>) = dl_backlog E u"
  "bufs_ok E (u\<lparr>su_next_tpc_pucch := x\<rparr>) = bufs_ok E u"
  by (simp_all add: dl_backlog_def bufs_ok_def)

text \<open>The block under construction before its first PDU.\<close>

definition fresh_block :: "srslte \<Rightarrow> nat \<Rightarrow> dl_sched_data \<Rightarrow> bool" where
  "fresh_block E tb d \<longleftrightarrow> ds_nof_pdu_elems d tb = 0 \<and> length (ds_pdu d tb) = MAX_RLC_PDU_LIST E \<and>
     (\<forall>p \<in> set (ds_pdu d tb). pdu_nbytes p = 0)"

lemma fresh_block_zero: "fresh_block E tb (dl_data_zero E)"
  by (simp add: fresh_block_def dl_data_zero_def pdu_zero_def)

lemma fresh_block_frame [simp]: "fresh_block E tb (clear_dci h d) = fresh_block E tb d"
  by (simp add: fresh_block_def clear_dci_def)

lemma fresh_block_bytes: "fresh_block E tb d \<Longrightarrow> pdu_bytes d tb = 0"
  by (simp add: fresh_block_def pdu_bytes_def)

lemma put_conres_fresh:
  assumes "put_conres E d = Some c" and "fresh_block E 0 d"
  shows "pdu_bytes c 0 = 0" and "ds_nof_pdu_elems c 0 = 1" and "length (ds_pdu c 0) = length (ds_pdu d 0)"
    and "pdu_lcid (ds_pdu c 0 ! 0) = CON_RES_ID E"
proof -
  from assms obtain p where p: "0 < length (ds_pdu d 0)" "p = ds_pdu d 0 ! 0"
      "c = d\<lparr>ds_pdu := (ds_pdu d)(0 := (ds_pdu d 0)[0 := p\<lparr>pdu_lcid := CON_RES_ID E\<rparr>]),
             ds_nof_pdu_elems := (ds_nof_pdu_elems d)(0 := ds_nof_pdu_elems d 0 + 1)\<rparr>"
    by (auto simp: put_conres_def bind_eq_Some_conv dest!: rd_SomeD wr_SomeD)
  have z: "pdu_nbytes p = 0" using assms(2) p(1,2) by (auto simp: fresh_block_def)
  show "ds_nof_pdu_elems c 0 = 1" "length (ds_pdu c 0) = length (ds_pdu d 0)"
    "pdu_lcid (ds_pdu c 0 ! 0) = CON_RES_ID E"
    using assms(2) p by (auto simp: fresh_block_def)
  show "pdu_bytes c 0 = 0"
    using assms(2) p z by (simp add: pdu_bytes_def fresh_block_def)
qed

lemma put_conres_defined: "fresh_block E 0 d \<Longrightarrow> 0 < MAX_RLC_PDU_LIST E \<Longrightarrow> \<exists>c. put_conres E d = Some c"
  by (simp add: put_conres_def fresh_block_def)

lemma conres_step_bytes:
  assumes "(if b then put_conres E d else Some d) = Some c" and "fresh_block E 0 d"
  shows "pdu_bytes c 0 = 0"
  using assms put_conres_fresh(1) fresh_block_bytes by (cases b) auto

lemma format1_new_tx_spec:
  assumes "format1_new_tx E i d tti cfi u = Some (mcs, tbs, d', u')" and "fresh_block E 0 d"
    and "bufs_ok E u" and "0 \<le> tbs" and "tbs < 2 ^ 31"
  shows "bufs_ok E u'" and "dl_backlog E u' = dl_backlog E u - min tbs (dl_backlog E u)"
    and "pdu_bytes d' 0 = min tbs (dl_backlog E u)"
proof -
  obtain c v where c: "(if is_first_dl_tx E u then put_conres E d else Some d) = Some c"
    and v: "v = upd_dl_harq i (dl_new_tx 0 tti mcs tbs (dl_ncce (ds_dci_location d))) u"
    and f: "fill_tb E 0 tbs c v = Some (d', u')"
    using assms(1) by (auto simp: format1_new_tx_def Let_def bind_eq_Some_conv)
  have "bufs_ok E v" "dl_backlog E v = dl_backlog E u" using assms(3) v by simp_all
  moreover from this(1) f assms(4,5) have "bufs_ok E u' \<and>
      dl_backlog E u' = dl_backlog E v - min tbs (dl_backlog E v) \<and>
      pdu_bytes d' 0 = pdu_bytes c 0 + min tbs (dl_backlog E v)"
    by (intro fill_tb_spec)
  ultimately show "bufs_ok E u'" "dl_backlog E u' = dl_backlog E u - min tbs (dl_backlog E u)"
    "pdu_bytes d' 0 = min tbs (dl_backlog E u)"
    using conres_step_bytes[OF c assms(2)] by simp_all
qed

text \<open>A size below zero, the error value of the size tables, takes one PDU at most.\<close>

lemma take_bytes_at_most: "take_bytes tbs b = (x, b') \<Longrightarrow> (x = 0 \<longrightarrow> b' = b) \<and> (x \<noteq> 0 \<longrightarrow> x \<le> tbs)"
  by (auto simp: take_bytes_def Let_def split: if_splits)

lemma alloc_pdu_loop_taken:
  "alloc_pdu_loop tbs is u = (x, i, v) \<Longrightarrow> x \<noteq> 0 \<Longrightarrow> x \<le> tbs \<and> (\<exists>j \<in> set is. 0 < bearer_queues (su_lch u j))"
proof (induction "is" arbitrary: u)
  case Nil
  then show ?case by simp
next
  case (Cons k "is")
  obtain y b where t: "take_bytes tbs (su_lch u k) = (y, b)" by fastforce
  note m = take_bytes_at_most[OF t]
  show ?case
  proof (cases "y = 0")
    case True
    then have "alloc_pdu_loop tbs is u = (x, i, v)" using Cons.prems(1) m t by simp
    then show ?thesis using Cons.IH Cons.prems(2) by auto
  next
    case False
    then have "x = y" using Cons.prems(1) t by simp
    then show ?thesis using m False take_bytes_queues(1)[OF t] by auto
  qed
qed

lemma fill_tb_error_defined:
  assumes "rem < 0" and "ds_nof_pdu_elems d tb + dl_queues E u \<le> length (ds_pdu d tb)"
  shows "\<exists>d' u'. fill_tb E tb rem d u = Some (d', u')"
proof -
  obtain x p v where al: "alloc_pdu E rem u = (x, p, v)" by (metis prod_cases3)
  obtain y i w where l: "alloc_pdu_loop rem [0..<MAX_LC E] u = (y, i, w)" by (metis prod_cases3)
  have p: "p = (if x \<noteq> 0 then Some \<lparr>pdu_lcid = of_nat i, pdu_nbytes = of_i32 x\<rparr> else None)" and "y = x"
    using al l by (auto simp: alloc_pdu_def Let_def)
  show ?thesis
  proof (cases "x = 0")
    case True
    then show ?thesis by (simp add: fill_tb_step[OF al] put_pdu_def p)
  next
    case False
    then have t: "x \<le> rem" "\<exists>j < MAX_LC E. 0 < bearer_queues (su_lch u j)"
      using alloc_pdu_loop_taken[OF l] \<open>y = x\<close> by auto
    then have "0 < dl_queues E u" by (auto simp: dl_queues_def intro!: sum_pos2)
    then obtain c where "put_pdu tb p d = Some c"
      using append_pdu_defined[of d tb] assms(2) False by (auto simp: put_pdu_def p)
    then show ?thesis using t(1) assms(1) by (simp add: fill_tb_step[OF al])
  qed
qed

lemma format1_new_tx_defined:
  assumes "format1_size E i d tti cfi u = Some (tbs, mcs)" and "fresh_block E 0 d"
    and "bufs_ok E u" and "1 + dl_queues E u \<le> MAX_RLC_PDU_LIST E"
  shows "\<exists>d' u'. format1_new_tx E i d tti cfi u = Some (mcs, tbs, d', u')"
proof -
  let ?v = "upd_dl_harq i (dl_new_tx 0 tti mcs tbs (dl_ncce (ds_dci_location d))) u"
  obtain c where c: "(if is_first_dl_tx E u then put_conres E d else Some d) = Some c"
    using put_conres_defined[OF assms(2)] assms(4) by (cases "is_first_dl_tx E u") auto
  have len: "ds_nof_pdu_elems c 0 + dl_queues E ?v \<le> length (ds_pdu c 0)"
    using c put_conres_fresh(2,3)[OF _ assms(2)] assms(2,4)
    by (cases "is_first_dl_tx E u") (auto simp: fresh_block_def)
  have "bufs_ok E ?v" using assms(3) by simp
  then obtain d' u' where "fill_tb E 0 tbs c ?v = Some (d', u')"
    using fill_tb_defined[OF _ _ len, of tbs] fill_tb_error_defined[OF _ len, of tbs] by fastforce
  then show ?thesis using c assms(1) by (simp add: format1_new_tx_def Let_def)
qed

lemma generate_format1_defined:
  assumes "is_empty (su_dl_harq u i) 0" and "fresh_block E 0 d" and "bufs_ok E u"
    and "format1_size E i (clear_dci (su_dl_harq u i) d) tti cfi u = Some (tbs, mcs)"
    and "1 + dl_queues E u \<le> MAX_RLC_PDU_LIST E"
  shows "\<exists>d' u'. generate_format1 E i d tti cfi u = Some (tbs, d', u')"
proof -
  have "fresh_block E 0 (clear_dci (su_dl_harq u i) d)" using assms(2) by simp
  from format1_new_tx_defined[OF assms(4) this assms(3,5)] obtain e v where
    "format1_new_tx E i (clear_dci (su_dl_harq u i) d) tti cfi u = Some (mcs, tbs, e, v)" by blast
  then show ?thesis
    using assms(1) by (simp add: generate_format1_def format1_result_def Let_def)
qed

lemma generate_format1_new:
  assumes "generate_format1 E i d tti cfi u = Some (tbs, d', u')" and "is_empty (su_dl_harq u i) 0"
  shows "\<exists>mcs e v. format1_new_tx E i (clear_dci (su_dl_harq u i) d) tti cfi u = Some (mcs, tbs, e, v) \<and>
     ds_pdu d' = ds_pdu e \<and> ds_nof_pdu_elems d' = ds_nof_pdu_elems e \<and> su_lch u' = su_lch v"
proof -
  obtain mcs t e v where g: "format1_new_tx E i (clear_dci (su_dl_harq u i) d) tti cfi u = Some (mcs, t, e, v)"
    and r: "format1_result i mcs t e v = (tbs, d', u')"
    using assms unfolding generate_format1_def Let_def
    by (simp add: bind_eq_Some_conv split_paired_Ex) blast
  then show ?thesis
    by (cases "0 < t") (auto simp: format1_result_def Let_def)
qed

lemma format1_new_tx_harq:
  assumes "format1_new_tx E i d tti cfi u = Some (mcs, tbs, d', u')"
  shows "su_dl_harq u' = (su_dl_harq u)
    (i := dl_new_tx 0 tti mcs tbs (dl_ncce (ds_dci_location d)) (su_dl_harq u i))"
proof -
  obtain c v where v: "v = upd_dl_harq i (dl_new_tx 0 tti mcs tbs (dl_ncce (ds_dci_location d))) u"
    and f: "fill_tb E 0 tbs c v = Some (d', u')"
    using assms by (auto simp: format1_new_tx_def Let_def bind_eq_Some_conv)
  have "su_dl_harq u' = su_dl_harq v"
    by (subst fill_tb_frame[OF f]) simp
  then show ?thesis by (simp add: v upd_dl_harq_def)
qed

lemma generate_format1_harq:
  assumes "generate_format1 E i d tti cfi u = Some (tbs, d', u')" and "is_empty (su_dl_harq u i) 0"
  shows "\<exists>mcs. su_dl_harq u' = (su_dl_harq u)
    (i := dl_new_tx 0 tti mcs tbs (dl_ncce (ds_dci_location d)) (su_dl_harq u i))"
proof -
  obtain mcs t e v where g: "format1_new_tx E i (clear_dci (su_dl_harq u i) d) tti cfi u = Some (mcs, t, e, v)"
    and r: "format1_result i mcs t e v = (tbs, d', u')"
    using assms unfolding generate_format1_def Let_def
    by (simp add: bind_eq_Some_conv split_paired_Ex) blast
  have "su_dl_harq u' = su_dl_harq v" "t = tbs"
    using r by (cases "0 < t"; simp add: format1_result_def Let_def; auto)+
  then show ?thesis using format1_new_tx_harq[OF g] by (auto simp: clear_dci_def)
qed

lemma backlog_cong:
  "su_lch u = su_lch v \<Longrightarrow> dl_backlog E u = dl_backlog E v \<and> bufs_ok E u = bufs_ok E v"
  by (simp add: dl_backlog_def bufs_ok_def)

lemma pdu_bytes_cong:
  "ds_pdu d = ds_pdu e \<Longrightarrow> ds_nof_pdu_elems d = ds_nof_pdu_elems e \<Longrightarrow> pdu_bytes d tb = pdu_bytes e tb"
  by (simp add: pdu_bytes_def)

section \<open>An example user\<close>

text \<open>
  The example user: a 25-block cell, one resource block group granted on process 0, a fixed MCS
  and 100 bytes waiting on bearer 1.
\<close>

definition demo_cell :: srslte_cell where
  "demo_cell = \<lparr>cl_nof_prb = 25, cl_nof_ports = 1, cl_id = 1, cl_cp = CP_NORM\<rparr>"

definition demo_lch :: "nat \<Rightarrow> ue_bearer" where
  "demo_lch = (\<lambda>_. bearer_zero)(1 := \<lparr>lc_cfg = \<lparr>ub_direction = BOTH, ub_group = 0\<rparr>,
     lc_buf_tx = 100, lc_buf_retx = 0, lc_bsr = 40\<rparr>)"

definition demo_ue :: sched_ue where
  "demo_ue = sched_ue_raw\<lparr>su_cell := demo_cell, su_P := 2, su_fixed_mcs_dl := 3, su_fixed_mcs_ul := 3,
     su_lch := demo_lch, su_dl_harq := (\<lambda>_. harq_zero\<lparr>hq_rbgmask := 4096\<rparr>)\<rparr>"

lemma demo_bufs_ok: "bufs_ok demo_lib demo_ue"
  by (simp add: bufs_ok_def demo_ue_def demo_lch_def bearer_zero_def bearer_ok_def)

lemma demo_max_lc [simp]: "MAX_LC demo_lib = 6" "MAX_RLC_PDU_LIST demo_lib = 8" "HARQ_DELAY_MS demo_lib = 4"
  by (simp_all add: demo_lib_def)

lemma demo_backlog: "dl_backlog demo_lib demo_ue = 100"
  by (simp add: dl_backlog_def demo_ue_def demo_lch_def bearer_zero_def bearer_backlog_def
      lessThan_nat_numeral lessThan_Suc)

lemma demo_queues: "dl_queues demo_lib demo_ue = 1"
  by (simp add: dl_queues_def demo_ue_def demo_lch_def bearer_zero_def bearer_queues_def
      lessThan_nat_numeral lessThan_Suc)

lemma demo_empty: "is_empty (su_dl_harq demo_ue 0) 0"
  by (simp add: demo_ue_def harq_zero_def is_empty_def)

lemma demo_size: "format1_size demo_lib 0 d 7 3 demo_ue = Some (16, 3)"
proof -
  have "format1_count_prb demo_lib 4096 25 = 2"
    by (simp add: format1_count_prb_def demo_lib_def ceil_div_def upt_rec bit_numeral_rec Let_def)
  then show ?thesis
    by (simp add: format1_size_def demo_ue_def demo_cell_def get_rbgmask_def harq_zero_def)
       (simp add: tbs_bytes_def demo_lib_def cdiv_nonneg)
qed

section \<open>What a downlink grant carries\<close>

text \<open>C2: a new transport block of DCI format 1 carries exactly as many RLC bytes as fit: the PDUs
  announce the smaller of the block size and the backlog of the user, the buffers fall by that
  amount, and no buffer becomes negative.\<close>

theorem format1_fills_block:
  assumes "generate_format1 E i d tti cfi u = Some (tbs, d', u')" and "is_empty (su_dl_harq u i) 0"
    and "fresh_block E 0 d" and "bufs_ok E u" and "0 \<le> tbs" and "tbs < 2 ^ 31"
  shows "pdu_bytes d' 0 = min tbs (dl_backlog E u) \<and>
     dl_backlog E u' = dl_backlog E u - min tbs (dl_backlog E u) \<and> bufs_ok E u'"
proof -
  obtain mcs e v where g: "format1_new_tx E i (clear_dci (su_dl_harq u i) d) tti cfi u = Some (mcs, tbs, e, v)"
      "ds_pdu d' = ds_pdu e" "ds_nof_pdu_elems d' = ds_nof_pdu_elems e" "su_lch u' = su_lch v"
    using generate_format1_new[OF assms(1,2)] by blast
  have "fresh_block E 0 (clear_dci (su_dl_harq u i) d)" using assms(3) by simp
  from format1_new_tx_spec[OF g(1) this assms(4-6)] show ?thesis
    using backlog_cong[OF g(4)] pdu_bytes_cong[OF g(2,3)] by simp
qed

theorem format1_fills_block_witness:
  "\<exists>d' u'. generate_format1 demo_lib 0 (dl_data_zero demo_lib) 7 3 demo_ue = Some (16, d', u') \<and>
     pdu_bytes d' 0 = 16 \<and> dl_backlog demo_lib u' = 84"
proof -
  obtain d' u' where g: "generate_format1 demo_lib 0 (dl_data_zero demo_lib) 7 3 demo_ue = Some (16, d', u')"
    using generate_format1_defined[OF demo_empty fresh_block_zero demo_bufs_ok demo_size]
    by (auto simp: demo_queues)
  from format1_fills_block[OF g demo_empty fresh_block_zero demo_bufs_ok] g show ?thesis
    by (simp add: demo_backlog)
qed

lemma format1_new_tx_conres:
  assumes "format1_new_tx E i d tti cfi u = Some (mcs, tbs, d', u')" and "fresh_block E 0 d"
    and "is_first_dl_tx E u"
  shows "pdu_lcid (ds_pdu d' 0 ! 0) = CON_RES_ID E"
proof -
  obtain c v where c: "put_conres E d = Some c" and f: "fill_tb E 0 tbs c v = Some (d', u')"
    using assms(1,3) by (auto simp: format1_new_tx_def Let_def bind_eq_Some_conv)
  show ?thesis
    using put_conres_fresh(2,4)[OF c assms(2)] fill_tb_prefix[OF f, of 0] by simp
qed

text \<open>the first downlink transmission announces the MAC contention resolution element in its
  first PDU, and still fills the whole block with RLC bytes when the backlog is large enough: the
  room that the comment in \<open>generate_format1\<close> promises to the element is not reserved.\<close>

theorem conres_gets_no_room:
  assumes "generate_format1 E i d tti cfi u = Some (tbs, d', u')" and "is_empty (su_dl_harq u i) 0"
    and "is_first_dl_tx E u" and "fresh_block E 0 d" and "bufs_ok E u" and "0 \<le> tbs"
    and "tbs < 2 ^ 31" and "tbs \<le> dl_backlog E u"
  shows "pdu_lcid (ds_pdu d' 0 ! 0) = CON_RES_ID E \<and> pdu_bytes d' 0 = tbs"
proof -
  obtain mcs e v where g: "format1_new_tx E i (clear_dci (su_dl_harq u i) d) tti cfi u = Some (mcs, tbs, e, v)"
      "ds_pdu d' = ds_pdu e" "ds_nof_pdu_elems d' = ds_nof_pdu_elems e"
    using generate_format1_new[OF assms(1,2)] by blast
  have f: "fresh_block E 0 (clear_dci (su_dl_harq u i) d)" using assms(4) by simp
  from format1_new_tx_conres[OF g(1) f assms(3)] format1_new_tx_spec(3)[OF g(1) f assms(5-7)]
  show ?thesis using g(2) pdu_bytes_cong[OF g(2,3)] assms(8) by simp
qed

theorem conres_gets_no_room_witness:
  "\<exists>d' u'. generate_format1 demo_lib 0 (dl_data_zero demo_lib) 7 3 demo_ue = Some (16, d', u') \<and>
     pdu_lcid (ds_pdu d' 0 ! 0) = CON_RES_ID demo_lib \<and> pdu_bytes d' 0 = 16"
proof -
  obtain d' u' where g: "generate_format1 demo_lib 0 (dl_data_zero demo_lib) 7 3 demo_ue = Some (16, d', u')"
    using generate_format1_defined[OF demo_empty fresh_block_zero demo_bufs_ok demo_size]
    by (auto simp: demo_queues)
  have first: "is_first_dl_tx demo_lib demo_ue"
    by (simp add: is_first_dl_tx_def demo_ue_def harq_zero_def nof_tx_def list_all_iff)
  from conres_gets_no_room[OF g demo_empty first fresh_block_zero demo_bufs_ok] g show ?thesis
    by (simp add: demo_backlog)
qed

text \<open>
  The loop of \<open>cqi_to_tbs\<close> goes on below scheme 0 when even scheme 0 exceeds the limit on the effective
  code rate: \<open>scheme_0_fits\<close> is that it does not.
\<close>

definition scheme_0_fits :: "srslte \<Rightarrow> u32 \<Rightarrow> u32 \<Rightarrow> bool" where
  "scheme_0_fits E nof_prb nof_re \<longleftrightarrow>
     mcs_coderate E nof_prb nof_re 0 / of_int (uint (min 6 (mod_bits_from_mcs E 0))) \<le> 93 / 100"

lemma alloc_tbs_dl_defined:
  assumes "scheme_0_fits E nof_prb nof_re" and "su_max_mcs_dl u < 2 ^ 31 - 1"
  shows "alloc_tbs_dl E u nof_prb nof_re req mcs \<noteq> None"
proof -
  have r: "\<not> mcs_rejected E cr nof_prb nof_re 6 0" for cr
    using assms(1) by (simp add: mcs_rejected_def scheme_0_fits_def not_less)
  have "uint (su_max_mcs_dl u) < 2 ^ 31 - 1" using assms(2) by (simp add: word_less_def)
  then have "i32 (su_max_mcs_dl u + 1) = uint (su_max_mcs_dl u) + 1"
    by (simp add: sint_uint uint_word_ariths signed_take_bit_int_eq_self)
  moreover have "0 \<le> uint (su_max_mcs_dl u)" by simp
  ultimately have "0 < i32 (su_max_mcs_dl u + 1)" by linarith
  then obtain t m where "cqi_to_tbs_loop E (cqi_to_coderate E (su_dl_cqi u)) nof_prb nof_re 6 (i32 (su_max_mcs_dl u + 1)) = Some (t, m)"
    using cqi_to_tbs_loop_ends[OF r] by blast
  then show ?thesis by (simp add: alloc_tbs_dl_def alloc_tbs_def cqi_to_tbs_def Let_def case_prod_beta)
qed

lemma format1_size_defined:
  assumes "0 \<le> su_fixed_mcs_dl u \<or> su_max_mcs_dl u < 2 ^ 31 - 1 \<and>
      scheme_0_fits E (format1_count_prb E (get_rbgmask (su_dl_harq u i)) (cl_nof_prb (su_cell u)))
        (grant_nof_re E tti cfi d u)"
  shows "\<exists>tbs mcs. format1_size E i d tti cfi u = Some (tbs, mcs)"
  using assms alloc_tbs_dl_defined[of E _ _ u] by (auto simp: format1_size_def Let_def)


definition demo_adaptive_ue :: sched_ue where
  "demo_adaptive_ue = demo_ue\<lparr>su_fixed_mcs_dl := -1, su_max_mcs_dl := 28\<rparr>"


section \<open>Modulation and bandwidth\<close>

text \<open>when scheme 0 passes the limit on the effective code rate, the loop of \<open>cqi_to_tbs\<close>
  ends, and it returns the largest scheme up to \<open>max_mcs\<close> whose code rate the channel quality
  and that limit admit, with its transport block size.\<close>

theorem cqi_to_tbs_largest:
  assumes "\<not> mcs_rejected E (cqi_to_coderate E cqi) nof_prb nof_re max_Qm 0" and "max_mcs < 2 ^ 31 - 1"
  shows "\<exists>m. cqi_to_tbs E cqi nof_prb nof_re max_mcs max_Qm = Some (mcs_bits E nof_prb m, of_i32 m) \<and>
     0 \<le> m \<and> m \<le> uint max_mcs \<and> \<not> mcs_rejected E (cqi_to_coderate E cqi) nof_prb nof_re max_Qm m \<and>
     (\<forall>m'. m < m' \<and> m' \<le> uint max_mcs \<longrightarrow>
        mcs_rejected E (cqi_to_coderate E cqi) nof_prb nof_re max_Qm m')"
proof -
  have u: "uint max_mcs < 2 ^ 31 - 1" using assms(2) by (simp add: word_less_def)
  have "i32 (max_mcs + 1) = uint max_mcs + 1"
    using u by (simp add: sint_uint uint_word_ariths signed_take_bit_int_eq_self)
  moreover have "0 \<le> uint max_mcs" by simp
  ultimately show ?thesis
    using cqi_to_tbs_loop_ends[OF assms(1), of "uint max_mcs + 1"]
    by (auto simp: cqi_to_tbs_def bind_eq_Some_conv zle_add1_eq_le)
qed

theorem cqi_to_tbs_largest_witness:
  "\<exists>m. cqi_to_tbs demo_lib 2 4 600 28 6 = Some (mcs_bits demo_lib 4 m, of_i32 m) \<and> 0 \<le> m \<and> m \<le> 28"
proof -
  have "\<not> mcs_rejected demo_lib (cqi_to_coderate demo_lib 2) 4 600 6 0"
    by (simp add: mcs_rejected_def mcs_coderate_def mcs_bits_def demo_lib_def)
  from cqi_to_tbs_largest[OF this, of 28] show ?thesis by auto
qed

text \<open>\<open>get_required_prb_dl\<close> returns the least number of blocks of the cell whose transport
  block holds the request, or the whole cell when none does.\<close>

theorem required_prb_dl_least:
  assumes "\<And>m. 0 < m \<Longrightarrow> m \<le> unat (cl_nof_prb (su_cell u)) \<Longrightarrow>
      dl_tbs_for E u c m = Some (int (sz m)) \<and> 0 < sz m \<and> sz m < 2 ^ 32"
  shows "\<exists>k \<le> unat (cl_nof_prb (su_cell u)). get_required_prb_dl E req c u = Some (of_nat k) \<and>
      (k = unat (cl_nof_prb (su_cell u)) \<or> unat req \<le> (if k = 0 then 0 else sz k)) \<and>
      (\<forall>m. 0 < m \<and> m < k \<longrightarrow> sz m < unat req)"
proof -
  have "\<exists>k \<le> unat (cl_nof_prb (su_cell u)). required_prb_dl_loop E u req c 0 0 = Some k \<and>
      (k = 0 \<or> 0 < unat req) \<and>
      (k = unat (cl_nof_prb (su_cell u)) \<or> unat req \<le> (if k = 0 then 0 else sz k)) \<and>
      (\<forall>m. 0 < m \<and> m < k \<longrightarrow> sz m < unat req)"
    by (rule required_prb_dl_loop_least[where sz = sz, OF assms]) auto
  then obtain k where "k \<le> unat (cl_nof_prb (su_cell u))" "required_prb_dl_loop E u req c 0 0 = Some k"
      "k = unat (cl_nof_prb (su_cell u)) \<or> unat req \<le> (if k = 0 then 0 else sz k)"
      "\<forall>m. 0 < m \<and> m < k \<longrightarrow> sz m < unat req"
    by blast
  then show ?thesis unfolding get_required_prb_dl_def by (intro exI[of _ k]) simp
qed

theorem required_prb_dl_least_witness:
  "\<exists>k \<le> 25. get_required_prb_dl demo_lib 30 3 demo_ue = Some (of_nat k) \<and>
      (k = 25 \<or> 30 \<le> (if k = 0 then 0 else 8 * k)) \<and> (\<forall>m. 0 < m \<and> m < k \<longrightarrow> 8 * m < 30)"
proof -
  have N: "unat (cl_nof_prb (su_cell demo_ue)) = 25" by (simp add: demo_ue_def demo_cell_def)
  have "dl_tbs_for demo_lib demo_ue 3 m = Some (int (8 * m)) \<and> 0 < 8 * m \<and> 8 * m < 2 ^ 32"
    if "0 < m" "m \<le> unat (cl_nof_prb (su_cell demo_ue))" for m
  proof -
    have m: "m \<le> 25" using that(2) by (simp only: N)
    then have "uint (word_of_nat m :: u32) = int m" by (simp add: uint_nat unat_of_nat)
    then show ?thesis
      using that(1) m by (simp add: dl_tbs_for_def demo_ue_def tbs_bytes_def demo_lib_def cdiv_nonneg)
  qed
  from required_prb_dl_least[where sz = "\<lambda>m. 8 * m" and req = 30, OF this] show ?thesis
    by (simp only: N) simp
qed

text \<open>\<open>get_required_prb_ul\<close> always returns when the choice of the scheme ends, and its result
  is a width that the uplink precoder accepts, or one block more than the cell has.\<close>

theorem required_prb_ul_valid:
  assumes "\<And>m. ul_tbs_for E u m \<noteq> None" and "req \<noteq> 0" and "0 < cl_nof_prb (su_cell u)"
  shows "\<exists>k. get_required_prb_ul E req u = Some (of_nat k) \<and> 0 < k \<and>
     k \<le> Suc (unat (cl_nof_prb (su_cell u))) \<and>
     (valid_prb E (of_nat k) \<or> k = Suc (unat (cl_nof_prb (su_cell u))))"
proof -
  let ?N = "unat (cl_nof_prb (su_cell u))"
  have N: "0 < ?N" using assms(3) by (simp add: word_less_nat_alt)
  obtain n where n: "required_prb_ul_loop E u req 1 0 = Some n" "1 \<le> n" "n \<le> max 1 ?N"
    using required_prb_ul_loop_ends[OF assms(1), where n = 1 and nb = 0] by auto
  then have "n \<le> Suc ?N" using N by auto
  from next_valid_prb_spec[OF this, of E] n(1,2) assms(2) show ?thesis
    by (auto simp: get_required_prb_ul_def)
qed

theorem required_prb_ul_valid_witness:
  "\<exists>k. get_required_prb_ul demo_lib 40 demo_ue = Some (of_nat k) \<and> 0 < k \<and> k \<le> 26 \<and>
     (valid_prb demo_lib (of_nat k) \<or> k = 26)"
proof -
  have "ul_tbs_for demo_lib demo_ue m \<noteq> None" for m
    by (simp add: ul_tbs_for_def demo_ue_def)
  from required_prb_ul_valid[OF this, of 40] show ?thesis by (simp add: demo_ue_def demo_cell_def)
qed

end
