(* ===== verification/Sched_UE_Harq.thy ===== *)
theory Sched_UE_Harq
  imports Sched_UE_Props
begin

text \<open>
  The HARQ side of the user context: which process is retransmitted, which process a piece of
  feedback or a timeout concerns, and what a retransmission repeats; and the small functions on
  bit masks, buffer reports and candidate tables.
\<close>

section \<open>Loops over the processes\<close>

lemma fold_upd_dl_harq:
  "fold (\<lambda>i u. if P (su_dl_harq u i) then upd_dl_harq i f u else u) [0..<n] u =
     u\<lparr>su_dl_harq := (\<lambda>i. if i < n \<and> P (su_dl_harq u i) then f (su_dl_harq u i) else su_dl_harq u i)\<rparr>"
proof (induction n)
  case 0
  then show ?case by simp
next
  case (Suc n)
  then show ?case
    by (auto simp: upd_dl_harq_def less_Suc_eq fun_eq_iff intro!: sched_ue.fold_congs)
qed

abbreviation harq_age :: "srslte \<Rightarrow> u32 \<Rightarrow> sched_ue \<Rightarrow> nat \<Rightarrow> u32" where
  "harq_age E tti u i \<equiv> tti_interval E tti (get_tti (su_dl_harq u i))"

definition oldest_of :: "(nat \<Rightarrow> bool) \<Rightarrow> (nat \<Rightarrow> u32) \<Rightarrow> nat \<Rightarrow> nat \<Rightarrow> bool" where
  "oldest_of p age n i \<longleftrightarrow> i < n \<and> p i \<and> (\<forall>j < n. p j \<longrightarrow> age j \<le> age i) \<and> (\<forall>j < i. p j \<longrightarrow> age j < age i)"

lemma oldest_of_Suc:
  "oldest_of p age (Suc n) i \<longleftrightarrow>
     (oldest_of p age n i \<and> (p n \<longrightarrow> age n \<le> age i)) \<or> (i = n \<and> p n \<and> (\<forall>j < n. p j \<longrightarrow> age j < age n))"
  by (auto simp: oldest_of_def less_Suc_eq)

lemma fold_oldest:
  assumes "\<And>j. p j \<Longrightarrow> 0 < age j"
  shows "case fold (oldest_step p age) [0..<n] (None, 0) of
       (None, x) \<Rightarrow> x = 0 \<and> (\<forall>j < n. \<not> p j)
     | (Some i, x) \<Rightarrow> x = age i \<and> oldest_of p age n i"
proof (induction n)
  case 0
  then show ?case by simp
next
  case (Suc n)
  obtain r x where r: "fold (oldest_step p age) [0..<n] (None, 0) = (r, x)" by fastforce
  then have st: "fold (oldest_step p age) [0..<Suc n] (None, 0) = oldest_step p age n (r, x)" by simp
  show ?case
  proof (cases r)
    case None
    with Suc r have x: "x = 0" and np: "\<forall>j < n. \<not> p j" by auto
    show ?thesis
    proof (cases "p n")
      case True
      then show ?thesis unfolding st using assms[OF True] None x np
        by (simp add: oldest_step_def oldest_of_Suc)
    next
      case False
      then show ?thesis unfolding st using None x np by (simp add: oldest_step_def less_Suc_eq)
    qed
  next
    case (Some i)
    with Suc r have x: "x = age i" and o: "oldest_of p age n i" by auto
    show ?thesis
    proof (cases "p n \<and> age i < age n")
      case True
      then have "\<forall>j < n. p j \<longrightarrow> age j < age n"
        using o by (auto simp: oldest_of_def intro: le_less_trans)
      then show ?thesis unfolding st using True Some x by (simp add: oldest_step_def oldest_of_Suc)
    next
      case False
      then show ?thesis unfolding st using Some x o
        by (auto simp: oldest_step_def oldest_of_Suc not_less)
    qed
  qed
qed

lemma oldest_of_not_less:
  assumes "oldest_of p age n i" and "oldest_of p age n j"
  shows "\<not> i < j"
proof
  assume "i < j"
  with assms have "age i < age j" "age j \<le> age i" by (auto simp: oldest_of_def)
  then show False by simp
qed

lemma oldest_of_unique: "oldest_of p age n i \<Longrightarrow> oldest_of p age n j \<Longrightarrow> i = j"
  using oldest_of_not_less[of p age n i j] oldest_of_not_less[of p age n j i] by simp

lemma find_upt_Some:
  "find P [0..<n] = Some i \<longleftrightarrow> i < n \<and> P i \<and> (\<forall>j < i. \<not> P j)"
  by (auto simp: find_Some_iff dest: order.strict_trans)

lemma find_upt_None: "find P [0..<n] = None \<longleftrightarrow> (\<forall>j < n. \<not> P j)"
  by (auto simp: find_None_iff)

section \<open>Retransmissions\<close>

text \<open>C31: \<open>get_pending_dl_harq\<close> returns the process whose pending retransmission is the oldest, the
  one with the lowest number among equals, and none exactly when nothing is pending.\<close>

theorem oldest_retx_first:
  assumes "(of_nat (2 * HARQ_DELAY_MS E) :: u32) \<noteq> 0"
  shows "(get_pending_dl_harq E tti u = Some i \<longleftrightarrow>
      oldest_of (\<lambda>i. harq_pending E tti (su_dl_harq u i)) (harq_age E tti u) (SCHED_MAX_HARQ_PROC E) i) \<and>
    (get_pending_dl_harq E tti u = None \<longleftrightarrow>
      (\<forall>i < SCHED_MAX_HARQ_PROC E. \<not> harq_pending E tti (su_dl_harq u i)))"
proof -
  let ?p = "\<lambda>i. harq_pending E tti (su_dl_harq u i)" and ?n = "SCHED_MAX_HARQ_PROC E"
  have pos: "0 < harq_age E tti u j" if "?p j" for j
  proof -
    have "of_nat (2 * HARQ_DELAY_MS E) \<le> harq_age E tti u j"
      using that by (auto simp: harq_pending_def dl_has_pending_retx_def get_tti_def)
    then show ?thesis using assms by (metis word_le_0_iff word_neq_0_conv)
  qed
  obtain r x where r: "fold (oldest_step ?p (harq_age E tti u)) [0..<?n] (None, 0) = (r, x)"
    by fastforce
  then have g: "get_pending_dl_harq E tti u = r" by (simp add: get_pending_dl_harq_def)
  note f = fold_oldest[where p = ?p and age = "harq_age E tti u" and n = ?n, OF pos, unfolded r]
  show ?thesis
  proof (cases r)
    case None
    then show ?thesis using f g by (auto simp: oldest_of_def)
  next
    case (Some k)
    then have k: "oldest_of ?p (harq_age E tti u) ?n k" using f by simp
    then have iff: "oldest_of ?p (harq_age E tti u) ?n i \<longleftrightarrow> k = i"
      using oldest_of_unique[OF k] by blast
    have "k < ?n" "?p k" using k by (simp_all add: oldest_of_def)
    then have some: "\<not> (\<forall>i < ?n. \<not> ?p i)" by blast
    show ?thesis unfolding g Some iff option.inject using some by simp
  qed
qed

theorem oldest_retx_first_witness:
  "get_pending_dl_harq demo_lib 20 (upd_dl_harq 5 (set_ack 0 False)
     (upd_dl_harq 5 (dl_new_tx 0 3 4 16 0) (upd_dl_harq 5 (set_max_retx 4) demo_ue))) = Some 5"
proof -
  let ?u = "upd_dl_harq 5 (set_ack 0 False)
     (upd_dl_harq 5 (dl_new_tx 0 3 4 16 0) (upd_dl_harq 5 (set_max_retx 4) demo_ue))"
  have d: "(of_nat (2 * HARQ_DELAY_MS demo_lib) :: u32) \<noteq> 0" by simp
  have p: "harq_pending demo_lib 20 (su_dl_harq ?u j) \<longleftrightarrow> j = 5" for j
    by (simp add: harq_pending_def dl_has_pending_retx_def upd_dl_harq_def demo_ue_def harq_zero_def
        dl_new_tx_def harq_defs demo_lib_def)
  show ?thesis
    using oldest_retx_first[OF d, of 20 ?u 5]
    by (simp add: p oldest_of_def SCHED_MAX_HARQ_PROC_def)
qed

lemma generate_format1_retx:
  assumes "\<not> is_empty (su_dl_harq u i) 0"
  shows "generate_format1 E i d tti cfi u =
     Some (format1_result i (hq_last_mcs (su_dl_harq u i) 0) (hq_last_tbs (su_dl_harq u i) 0)
       (clear_dci (su_dl_harq u i) d) (upd_dl_harq i (\<lambda>h. snd (new_retx 0 tti h)) u))"
  using assms by (simp add: generate_format1_def new_retx_def upd_dl_harq_def Let_def)

text \<open>What the first transmission of a block stores in its process and announces.\<close>

definition holds_block :: "int \<Rightarrow> int \<Rightarrow> bool \<Rightarrow> u32 \<Rightarrow> u32 \<Rightarrow> nat \<Rightarrow> dl_harq_proc \<Rightarrow> bool" where
  "holds_block tbs mcs ndi pid limit n h \<longleftrightarrow> hq_active h 0 \<and> unat (hq_n_rtx h 0) = n \<and>
     hq_last_tbs h 0 = tbs \<and> hq_last_mcs h 0 = mcs \<and> get_ndi h 0 = ndi \<and> hq_id h = pid \<and> hq_max_retx h = limit"

definition announces_block :: "int \<Rightarrow> u32 \<Rightarrow> bool \<Rightarrow> u32 \<Rightarrow> nat \<Rightarrow> dl_sched_data \<Rightarrow> bool" where
  "announces_block tbs mcs ndi pid n d \<longleftrightarrow> ds_tbs d 0 = of_i32 tbs \<and> dd_mcs_idx (ds_dci d) = mcs \<and>
     dd_ndi (ds_dci d) = ndi \<and> dd_harq_process (ds_dci d) = pid \<and> dd_rv_idx (ds_dci d) = get_rvidx (of_nat n)"

lemma format1_result_announces:
  assumes "format1_result i mcs tbs d u = (t, d', u')" and "0 < tbs"
  shows "t = tbs \<and> announces_block tbs (of_i32 mcs) (get_ndi (su_dl_harq u i) 0) (hq_id (su_dl_harq u i))
       (unat (hq_n_rtx (su_dl_harq u i) 0)) d' \<and>
     dd_rbg_bitmask (ds_dci d') = dd_rbg_bitmask (ds_dci d) \<and> ds_pdu d' = ds_pdu d \<and>
     ds_nof_pdu_elems d' = ds_nof_pdu_elems d \<and> u' = u\<lparr>su_next_tpc_pucch := 1\<rparr>"
  using assms by (auto simp: format1_result_def announces_block_def nof_retx_def Let_def)

lemma first_tx_block:
  assumes "generate_format1 E i d tti cfi u = Some (tbs, d1, u1)" and "is_empty (su_dl_harq u i) 0"
    and "0 < tbs" and "hq_max_retx (su_dl_harq u i) \<noteq> 0"
  shows "\<exists>mcs. holds_block tbs mcs (\<not> get_ndi (su_dl_harq u i) 0) (hq_id (su_dl_harq u i))
       (hq_max_retx (su_dl_harq u i)) 0 (su_dl_harq u1 i) \<and>
     announces_block tbs (of_i32 mcs) (\<not> get_ndi (su_dl_harq u i) 0) (hq_id (su_dl_harq u i)) 0 d1"
proof -
  obtain mcs t e v where g: "format1_new_tx E i (clear_dci (su_dl_harq u i) d) tti cfi u = Some (mcs, t, e, v)"
    and r: "format1_result i mcs t e v = (tbs, d1, u1)"
    using assms(1,2) unfolding generate_format1_def Let_def
    by (simp add: bind_eq_Some_conv split_paired_Ex) blast
  have t: "t = tbs" using r by (cases "0 < t") (auto simp: format1_result_def Let_def)
  note h = format1_new_tx_harq[OF g]
  have pos: "0 < t" using t assms(3) by simp
  note a = format1_result_announces[OF r pos]
  then have u: "su_dl_harq u1 i = su_dl_harq v i" by simp
  have v: "su_dl_harq v i = dl_new_tx 0 tti mcs tbs (dl_ncce (ds_dci_location d)) (su_dl_harq u i)"
    using h t by (simp add: clear_dci_def)
  have w: "holds_block tbs mcs (\<not> get_ndi (su_dl_harq u i) 0) (hq_id (su_dl_harq u i))
       (hq_max_retx (su_dl_harq u i)) 0 (su_dl_harq v i)"
    unfolding v holds_block_def using assms(4) by (simp add: dl_new_tx_def harq_defs)
  then have w': "get_ndi (su_dl_harq v i) 0 = (\<not> get_ndi (su_dl_harq u i) 0)"
    "hq_id (su_dl_harq v i) = hq_id (su_dl_harq u i)" "unat (hq_n_rtx (su_dl_harq v i) 0) = 0"
    by (simp_all only: holds_block_def)
  have "announces_block t (of_i32 mcs) (get_ndi (su_dl_harq v i) 0) (hq_id (su_dl_harq v i))
       (unat (hq_n_rtx (su_dl_harq v i) 0)) d1"
    using a by blast
  then have "announces_block tbs (of_i32 mcs) (\<not> get_ndi (su_dl_harq u i) 0) (hq_id (su_dl_harq u i)) 0 d1"
    unfolding w' t .
  then show ?thesis using w unfolding u by blast
qed

text \<open>One retransmission: the feedback refuses the block, the metric gives the process the groups \<open>w\<close> of
  the round, the same or others, and the scheduler makes the grant in a fresh entry \<open>d\<close>.\<close>

definition resend_round ::
  "srslte \<Rightarrow> nat \<Rightarrow> u32 \<times> dl_sched_data \<times> u32 \<times> u32 \<Rightarrow> sched_ue \<times> (int \<times> dl_sched_data) list \<Rightarrow>
   (sched_ue \<times> (int \<times> dl_sched_data) list) option" where
  "resend_round E i r a = do {
     let (w, d, tti, cfi) = r;
     let (u, gs) = a;
     let u = upd_dl_harq i (set_rbgmask w) (upd_dl_harq i (set_ack 0 False) u);
     (n, d, u) \<leftarrow> generate_format1 E i d tti cfi u;
     Some (u, gs @ [(n, d)])
   }"

lemma resend_round_block:
  assumes "holds_block tbs mcs ndi pid limit n (su_dl_harq u i)" and "Suc n < unat limit" and "0 < tbs"
  shows "\<exists>d' u'. resend_round E i (w, d, tti, cfi) (u, gs) = Some (u', gs @ [(tbs, d')]) \<and>
     holds_block tbs mcs ndi pid limit (Suc n) (su_dl_harq u' i) \<and> su_lch u' = su_lch u \<and>
     announces_block tbs (of_i32 mcs) ndi pid (Suc n) d' \<and> dd_rbg_bitmask (ds_dci d') = w \<and>
     ds_pdu d' = ds_pdu d \<and> ds_nof_pdu_elems d' = ds_nof_pdu_elems d"
proof -
  let ?u = "upd_dl_harq i (set_rbgmask w) (upd_dl_harq i (set_ack 0 False) u)"
  have h: "hq_active (su_dl_harq u i) 0" "unat (hq_n_rtx (su_dl_harq u i) 0) = n" "hq_last_tbs (su_dl_harq u i) 0 = tbs"
    "hq_last_mcs (su_dl_harq u i) 0 = mcs" "get_ndi (su_dl_harq u i) 0 = ndi" "hq_id (su_dl_harq u i) = pid"
    "hq_max_retx (su_dl_harq u i) = limit"
    using assms(1) by (simp_all add: holds_block_def)
  have "unat limit < 2 ^ 32" by (rule order.strict_trans2[OF unsigned_less]) simp
  then have n1: "unat (hq_n_rtx (su_dl_harq u i) 0 + 1) = Suc n" using h(2) assms(2) by (simp add: unat_word_ariths)
  then have lim: "\<not> limit \<le> hq_n_rtx (su_dl_harq u i) 0 + 1" using assms(2) by (simp add: word_le_nat_alt)
  have k: "holds_block tbs mcs ndi pid limit n (su_dl_harq ?u i)" "hq_rbgmask (su_dl_harq ?u i) = w"
    "\<not> is_empty (su_dl_harq ?u i) 0" "su_lch ?u = su_lch u"
    using h lim by (simp_all add: holds_block_def upd_dl_harq_def set_rbgmask_def set_ack_def is_empty_def get_ndi_def Let_def)
  let ?v = "upd_dl_harq i (\<lambda>h. snd (new_retx 0 tti h)) ?u" and ?d = "clear_dci (su_dl_harq ?u i) d"
  obtain d' u' where r: "format1_result i mcs tbs ?d ?v = (tbs, d', u')"
    using assms(3) by (simp add: format1_result_def Let_def)
  have g: "generate_format1 E i d tti cfi ?u = Some (tbs, d', u')"
    using generate_format1_retx[OF k(3), of E d tti cfi] k(1) r by (simp add: holds_block_def)
  note a = format1_result_announces[OF r assms(3)]
  have v: "holds_block tbs mcs ndi pid limit (Suc n) (su_dl_harq ?v i)"
    using k(1) n1 h(2) by (simp add: holds_block_def upd_dl_harq_def new_retx_def get_ndi_def set_rbgmask_def set_ack_def Let_def)
  then have "announces_block tbs (of_i32 mcs) ndi pid (Suc n) d'"
    using a by (simp add: holds_block_def)
  moreover have "holds_block tbs mcs ndi pid limit (Suc n) (su_dl_harq u' i)" "su_lch u' = su_lch u"
    using a v k(4) by (simp_all add: upd_dl_harq_def)
  moreover have "dd_rbg_bitmask (ds_dci d') = w" "ds_pdu d' = ds_pdu d" "ds_nof_pdu_elems d' = ds_nof_pdu_elems d"
    using a k(2) by (simp_all add: clear_dci_def get_rbgmask_def)
  ultimately show ?thesis using g by (simp add: resend_round_def)
qed

text \<open>What the \<open>n\<close>-th resend announces when the first transmission announced \<open>d1\<close>.\<close>

definition repeats_first :: "int \<Rightarrow> dl_sched_data \<Rightarrow> nat \<Rightarrow> u32 \<times> dl_sched_data \<times> u32 \<times> u32 \<Rightarrow> int \<times> dl_sched_data \<Rightarrow> bool" where
  "repeats_first tbs d1 n r g \<longleftrightarrow> fst g = tbs \<and> ds_tbs (snd g) 0 = ds_tbs d1 0 \<and>
     dd_mcs_idx (ds_dci (snd g)) = dd_mcs_idx (ds_dci d1) \<and> dd_ndi (ds_dci (snd g)) = dd_ndi (ds_dci d1) \<and>
     dd_harq_process (ds_dci (snd g)) = dd_harq_process (ds_dci d1) \<and>
     dd_rv_idx (ds_dci (snd g)) = get_rvidx (of_nat n) \<and> dd_rbg_bitmask (ds_dci (snd g)) = fst r \<and>
     ds_pdu (snd g) = ds_pdu (fst (snd r)) \<and> ds_nof_pdu_elems (snd g) = ds_nof_pdu_elems (fst (snd r))"

lemma resend_rounds_block:
  assumes "holds_block tbs mcs ndi pid limit n (su_dl_harq u i)" and "n + length rs < unat limit" and "0 < tbs"
    and "announces_block tbs (of_i32 mcs) ndi pid 0 d1"
  shows "\<exists>u' gs'. foldM (resend_round E i) rs (u, gs) = Some (u', gs @ gs') \<and> length gs' = length rs \<and>
     su_lch u' = su_lch u \<and> (\<forall>k < length rs. repeats_first tbs d1 (n + Suc k) (rs ! k) (gs' ! k))"
  using assms(1,2)
proof (induction rs arbitrary: n u gs)
  case Nil
  then show ?case by simp
next
  case (Cons r rs)
  obtain w d tti cfi where r: "r = (w, d, tti, cfi)" by (rule prod_cases4)
  have "Suc n < unat limit" using Cons.prems(2) by simp
  from resend_round_block[OF Cons.prems(1) this assms(3), of E w d tti cfi gs] obtain d' v where
    s: "resend_round E i r (u, gs) = Some (v, gs @ [(tbs, d')])"
      "holds_block tbs mcs ndi pid limit (Suc n) (su_dl_harq v i)" "su_lch v = su_lch u"
      "announces_block tbs (of_i32 mcs) ndi pid (Suc n) d'" "dd_rbg_bitmask (ds_dci d') = w"
      "ds_pdu d' = ds_pdu d" "ds_nof_pdu_elems d' = ds_nof_pdu_elems d"
    unfolding r by blast
  have "Suc n + length rs < unat limit" using Cons.prems(2) by simp
  from Cons.IH[OF s(2) this, of "gs @ [(tbs, d')]"] obtain u' gs' where
    t: "foldM (resend_round E i) rs (v, gs @ [(tbs, d')]) = Some (u', (gs @ [(tbs, d')]) @ gs')"
      "length gs' = length rs" "su_lch u' = su_lch v"
      "\<forall>k < length rs. repeats_first tbs d1 (Suc n + Suc k) (rs ! k) (gs' ! k)"
    by blast
  have z: "repeats_first tbs d1 (Suc n) r (tbs, d')"
    using s(4-7) assms(4) by (simp add: repeats_first_def announces_block_def r)
  have "\<forall>k < length (r # rs). repeats_first tbs d1 (n + Suc k) ((r # rs) ! k) (((tbs, d') # gs') ! k)"
    using z t(4) by (auto simp: less_Suc_eq_0_disj)
  then show ?case using s(1,3) t(1-3) by (intro exI[of _ u'] exI[of _ "(tbs, d') # gs'"]) simp
qed


text \<open>The example user with a limit of four transmissions.\<close>

definition demo_limit_ue :: sched_ue where
  "demo_limit_ue = upd_dl_harq 0 (set_max_retx 4) demo_ue"

lemma demo_limit_grant:
  "\<exists>d' u'. generate_format1 demo_lib 0 (dl_data_zero demo_lib) 7 3 demo_limit_ue = Some (16, d', u')"
proof (rule generate_format1_defined)
  show "is_empty (su_dl_harq demo_limit_ue 0) 0"
    using demo_empty by (simp add: demo_limit_ue_def upd_dl_harq_def set_max_retx_def is_empty_def)
  show "fresh_block demo_lib 0 (dl_data_zero demo_lib)" by (rule fresh_block_zero)
  show "bufs_ok demo_lib demo_limit_ue" using demo_bufs_ok by (simp add: demo_limit_ue_def bufs_ok_def upd_dl_harq_def)
  have "format1_count_prb demo_lib 4096 25 = 2"
    by (simp add: format1_count_prb_def demo_lib_def ceil_div_def upt_rec bit_numeral_rec Let_def)
  then show "format1_size demo_lib 0 (clear_dci (su_dl_harq demo_limit_ue 0) (dl_data_zero demo_lib)) 7 3 demo_limit_ue =
      Some (16, 3)"
    by (simp add: format1_size_def demo_limit_ue_def upd_dl_harq_def set_max_retx_def demo_ue_def demo_cell_def
        get_rbgmask_def harq_zero_def)
       (simp add: tbs_bytes_def demo_lib_def cdiv_nonneg)
  show "1 + dl_queues demo_lib demo_limit_ue \<le> MAX_RLC_PDU_LIST demo_lib"
    using demo_queues by (simp add: demo_limit_ue_def upd_dl_harq_def dl_queues_def)
qed


section \<open>Feedback and timeouts\<close>

text \<open>What a grant of format 1 leaves in the user, first transmission or not.\<close>

lemma generate_format1_leaves:
  assumes "generate_format1 E i d tti cfi u = Some (tbs, d', u')"
  shows "(\<forall>j. j \<noteq> i \<longrightarrow> su_dl_harq u' j = su_dl_harq u j) \<and> get_tti (su_dl_harq u' i) = tti \<and>
     hq_last_tbs (su_dl_harq u' i) 0 = tbs \<and> su_cfg u' = su_cfg u \<and> su_cell u' = su_cell u \<and>
     su_phy_config_dedicated_enabled u' = su_phy_config_dedicated_enabled u \<and>
     get_n_cce (su_dl_harq u' i) =
       (if is_empty (su_dl_harq u i) 0 then dl_ncce (ds_dci_location d) else get_n_cce (su_dl_harq u i))"
proof (cases "is_empty (su_dl_harq u i) 0")
  case True
  obtain mcs t e v where g: "format1_new_tx E i (clear_dci (su_dl_harq u i) d) tti cfi u = Some (mcs, t, e, v)"
    and r: "format1_result i mcs t e v = (tbs, d', u')"
    using assms True unfolding generate_format1_def Let_def
    by (simp add: bind_eq_Some_conv split_paired_Ex) blast
  have f: "t = tbs" "su_dl_harq u' = su_dl_harq v" "su_cfg u' = su_cfg v" "su_cell u' = su_cell v"
    "su_phy_config_dedicated_enabled u' = su_phy_config_dedicated_enabled v"
    using r by (cases "0 < t"; auto simp: format1_result_def Let_def)+
  obtain c w where w: "w = upd_dl_harq i (dl_new_tx 0 tti mcs t (dl_ncce (ds_dci_location (clear_dci (su_dl_harq u i) d)))) u"
    and fl: "fill_tb E 0 t c w = Some (e, v)"
    using g by (auto simp: format1_new_tx_def Let_def bind_eq_Some_conv)
  have "su_cfg v = su_cfg u" "su_cell v = su_cell u"
    "su_phy_config_dedicated_enabled v = su_phy_config_dedicated_enabled u"
    by (subst fill_tb_frame[OF fl], simp add: w upd_dl_harq_def)+
  moreover have "su_dl_harq v = (su_dl_harq u)(i := dl_new_tx 0 tti mcs t (dl_ncce (ds_dci_location d)) (su_dl_harq u i))"
    using format1_new_tx_harq[OF g] by (simp add: clear_dci_def)
  ultimately show ?thesis using True f
    by (simp add: dl_new_tx_def get_tti_new_tx get_n_cce_def) (simp add: new_tx_common_def harq_reset_def Let_def)
next
  case False
  let ?v = "upd_dl_harq i (\<lambda>h. snd (new_retx 0 tti h)) u"
  have r: "format1_result i (hq_last_mcs (su_dl_harq u i) 0) (hq_last_tbs (su_dl_harq u i) 0)
      (clear_dci (su_dl_harq u i) d) ?v = (tbs, d', u')"
    using assms generate_format1_retx[OF False] by simp
  have f: "hq_last_tbs (su_dl_harq u i) 0 = tbs" "su_dl_harq u' = su_dl_harq ?v" "su_cfg u' = su_cfg ?v"
    "su_cell u' = su_cell ?v" "su_phy_config_dedicated_enabled u' = su_phy_config_dedicated_enabled ?v"
    using r by (cases "0 < hq_last_tbs (su_dl_harq u i) 0"; auto simp: format1_result_def Let_def)+
  then show ?thesis using False
    by (simp add: upd_dl_harq_def get_tti_new_retx get_n_cce_def) (simp add: new_retx_def)
qed



text \<open>a process that was reset counts as transmitted at TTI 0: for a user whose processes are
  all idle, feedback at the TTI that answers TTI 0 is still given to process 0, and a PUCCH is
  reserved for it.\<close>

theorem idle_harq_matches_tti_0:
  assumes "\<And>j. j < SCHED_MAX_HARQ_PROC E \<Longrightarrow> su_dl_harq u j = harq_reset tb (h j)"
    and "0 < HARQ_DELAY_MS E" and "su_phy_config_dedicated_enabled u"
  shows "ue_set_ack_info E (TTI_TX E 0) tb ack u = (-1, upd_dl_harq 0 (set_ack tb ack) u) \<and>
     get_pucch_sched E (TTI_TX E 0) u \<noteq> None"
proof -
  have n: "0 < SCHED_MAX_HARQ_PROC E" using assms(2) by (simp add: SCHED_MAX_HARQ_PROC_def)
  then have h0: "su_dl_harq u 0 = harq_reset tb (h 0)" by (rule assms(1))
  have "find (\<lambda>i. TTI_TX E (get_tti (su_dl_harq u i)) = TTI_TX E 0) [0..<SCHED_MAX_HARQ_PROC E] = Some 0"
    using n h0 by (simp add: find_upt_Some get_tti_reset)
  then show ?thesis
    using assms(3) by (simp add: ue_set_ack_info_def get_pucch_sched_def Let_def h0 upd_dl_harq_def
        dl_get_tbs_def set_ack_def harq_reset_def)
qed

theorem idle_harq_matches_tti_0_witness:
  "get_pucch_sched demo_lib 4 (demo_ue\<lparr>su_phy_config_dedicated_enabled := True,
     su_dl_harq := (\<lambda>_. harq_reset 0 harq_zero)\<rparr>) \<noteq> None"
proof -
  have "TTI_TX demo_lib 0 = 4" by (simp add: demo_lib_def)
  then show ?thesis
    using idle_harq_matches_tti_0[of demo_lib "demo_ue\<lparr>su_phy_config_dedicated_enabled := True,
     su_dl_harq := (\<lambda>_. harq_reset 0 harq_zero)\<rparr>" 0 "\<lambda>_. harq_zero"] by simp
qed

text \<open>\<open>reset_timeout_dl_harq\<close> resets both transport blocks of exactly those processes of the
  user that are in use and were last transmitted more than 50 TTIs ago.\<close>

theorem stale_harq_reset:
  "su_dl_harq (reset_timeout_dl_harq E tti u) i =
     (if i < SCHED_MAX_HARQ_PROC E \<and>
         \<not> (is_empty (su_dl_harq u i) 0 \<and> is_empty (su_dl_harq u i) 1) \<and> 50 < harq_age E tti u i
      then harq_reset 1 (harq_reset 0 (su_dl_harq u i)) else su_dl_harq u i)"
proof -
  let ?P = "\<lambda>h. \<not> (is_empty h 0 \<and> is_empty h 1) \<and> 50 < tti_interval E tti (get_tti h)"
  show ?thesis
    unfolding reset_timeout_dl_harq_def Let_def fold_upd_dl_harq[where P = ?P] by simp
qed

end
