(* ===== verification/Sched_UE_Config.thy ===== *)
theory Sched_UE_Config
  imports Sched_UE_Harq
begin

text \<open>
  What \<open>set_cfg\<close> leaves behind: idle HARQ processes with the configured limit, empty buffers,
  the configured bearers and the tables of control channel candidates; and the update of the
  buffer reports by received data.
\<close>

section \<open>The candidate tables\<close>

definition cands :: "srslte \<Rightarrow> srslte_cell option \<Rightarrow> u16 \<Rightarrow> nat \<Rightarrow> nat \<Rightarrow> dci_location list" where
  "cands E regs rnti cfi sf = cce_candidates E regs (of_nat cfi + 1) (of_nat sf) rnti"

definition few_candidates :: "srslte \<Rightarrow> srslte_cell option \<Rightarrow> u16 \<Rightarrow> bool" where
  "few_candidates E regs rnti \<longleftrightarrow>
     (\<forall>cfi < 3. \<forall>sf < 10. \<forall>l < 4. length (level_cces (cands E regs rnti cfi sf) l) \<le> 6)"

definition tables_ok :: "sched_ue \<Rightarrow> bool" where
  "tables_ok u \<longleftrightarrow> (\<forall>cfi sf. cce_shape (su_dci_locations u cfi sf))"

definition fill_tables :: "srslte \<Rightarrow> srslte_cell option \<Rightarrow> u16 \<Rightarrow> nat \<Rightarrow> sched_ue \<Rightarrow> sched_ue" where
  "fill_tables E regs rnti n u = u\<lparr>su_dci_locations := (\<lambda>cfi sf.
     if cfi < n \<and> sf < 10 then cce_filled (cands E regs rnti cfi sf) (su_dci_locations u cfi sf)
     else su_dci_locations u cfi sf)\<rparr>"

abbreviation table_step :: "srslte \<Rightarrow> srslte_cell option \<Rightarrow> u16 \<Rightarrow> nat \<Rightarrow> nat \<Rightarrow> sched_ue \<Rightarrow> sched_ue option" where
  "table_step E regs rnti \<equiv> \<lambda>cfi sf u. do {
     d \<leftarrow> generate_cce_location E regs (of_nat cfi + 1) (of_nat sf) rnti (su_dci_locations u cfi sf);
     Some (u\<lparr>su_dci_locations := (su_dci_locations u)(cfi := (su_dci_locations u cfi)(sf := d))\<rparr>)
   }"

lemma tables_row:
  assumes "few_candidates E regs rnti" and "tables_ok u" and "cfi < 3"
  shows "foldM (table_step E regs rnti cfi) [0..<10] (fill_tables E regs rnti cfi u) =
     Some (fill_tables E regs rnti (Suc cfi) u)"
proof -
  define st where "st k = u\<lparr>su_dci_locations := (\<lambda>c s.
     if (c < cfi \<and> s < 10) \<or> (c = cfi \<and> s < k)
     then cce_filled (cands E regs rnti c s) (su_dci_locations u c s) else su_dci_locations u c s)\<rparr>" for k
  have step: "table_step E regs rnti cfi k (st k) = Some (st (Suc k))" if "k < 10" for k
  proof -
    have "generate_cce_location E regs (of_nat cfi + 1) (of_nat k) rnti (su_dci_locations u cfi k) =
        Some (cce_filled (cands E regs rnti cfi k) (su_dci_locations u cfi k))"
      using assms that unfolding cands_def
      by (intro generate_cce_location_filled) (auto simp: tables_ok_def few_candidates_def cands_def)
    then show ?thesis
      by (auto simp: st_def fun_eq_iff less_Suc_eq intro!: sched_ue.fold_congs)
  qed
  have "foldM (table_step E regs rnti cfi) [0..<10] (st 0) = Some (st 10)"
    by (rule foldM_upt) (simp_all add: step)
  moreover have "st 0 = fill_tables E regs rnti cfi u" "st 10 = fill_tables E regs rnti (Suc cfi) u"
    by (auto simp: st_def fill_tables_def less_Suc_eq fun_eq_iff intro!: sched_ue.fold_congs)
  ultimately show ?thesis by simp
qed

lemma tables_all:
  assumes "few_candidates E regs rnti" and "tables_ok u"
  shows "foldM (\<lambda>cfi. foldM (table_step E regs rnti cfi) [0..<10]) [0..<3] u =
     Some (fill_tables E regs rnti 3 u)"
proof -
  have "fill_tables E regs rnti 0 u = u" by (simp add: fill_tables_def)
  moreover have "foldM (\<lambda>cfi. foldM (table_step E regs rnti cfi) [0..<10]) [0..<3]
      (fill_tables E regs rnti 0 u) = Some (fill_tables E regs rnti 3 u)"
    by (rule foldM_upt) (simp_all add: tables_row[OF assms])
  ultimately show ?thesis by simp
qed

section \<open>The loops over processes and bearers\<close>

lemma fold_upd_both_harq:
  "fold (\<lambda>i u. upd_ul_harq i f (upd_dl_harq i g u)) [0..<n] u =
     u\<lparr>su_dl_harq := (\<lambda>i. if i < n then g (su_dl_harq u i) else su_dl_harq u i),
       su_ul_harq := (\<lambda>i. if i < n then f (su_ul_harq u i) else su_ul_harq u i)\<rparr>"
proof (induction n)
  case 0
  then show ?case by simp
next
  case (Suc n)
  then show ?case
    by (simp add: upd_dl_harq_def upd_ul_harq_def less_Suc_eq)
      (intro sched_ue.fold_congs, auto simp: fun_eq_iff)
qed

lemma fold_conf:
  assumes "su_cfg u = c"
  shows "fold (\<lambda>i u. upd_ul_harq i (harq_config k (of_nat i) (uc_maxharq_tx (su_cfg u)))
       (upd_dl_harq i (harq_config k (of_nat i) (uc_maxharq_tx (su_cfg u))) u)) [0..<n] u =
     u\<lparr>su_dl_harq := (\<lambda>i. if i < n then harq_config k (of_nat i) (uc_maxharq_tx c) (su_dl_harq u i)
                         else su_dl_harq u i),
       su_ul_harq := (\<lambda>i. if i < n then harq_config k (of_nat i) (uc_maxharq_tx c) (su_ul_harq u i)
                         else su_ul_harq u i)\<rparr>"
proof (induction n)
  case 0
  then show ?case by simp
next
  case (Suc n)
  then show ?case using assms
    by (simp add: upd_dl_harq_def upd_ul_harq_def less_Suc_eq)
      (intro sched_ue.fold_congs, auto simp: fun_eq_iff)
qed

lemma fold_rem_bearer:
  assumes "MAX_LC E < 2 ^ 32" and "n \<le> MAX_LC E"
  shows "fold (\<lambda>i u. rem_bearer E (of_nat i) u) [0..<n] u =
     u\<lparr>su_lch := (\<lambda>i. if i < n then bearer_zero else su_lch u i)\<rparr>"
  using assms(2)
proof (induction n)
  case 0
  then show ?case by simp
next
  case (Suc n)
  then have "unat (of_nat n :: u32) = n" using assms(1) by (simp add: unat_of_nat)
  then show ?case using Suc
    by (simp add: rem_bearer_def upd_lch_def less_Suc_eq)
      (intro sched_ue.fold_congs, auto simp: fun_eq_iff)
qed

lemma fold_set_bearer_cfg:
  assumes "MAX_LC E < 2 ^ 32" and "n \<le> MAX_LC E"
  shows "fold (\<lambda>i u. set_bearer_cfg E (of_nat i) (uc_bearers (su_cfg u) i) u) [0..<n] u =
     u\<lparr>su_lch := (\<lambda>i. if i < n then (su_lch u i)\<lparr>lc_cfg := uc_bearers (su_cfg u) i,
       lc_buf_tx := 0, lc_buf_retx := 0\<rparr> else su_lch u i)\<rparr>"
  using assms(2)
proof (induction n)
  case 0
  then show ?case by simp
next
  case (Suc n)
  then have "unat (of_nat n :: u32) = n" using assms(1) by (simp add: unat_of_nat)
  then show ?case using Suc
    by (simp add: set_bearer_cfg_def upd_lch_def less_Suc_eq)
      (intro sched_ue.fold_congs, auto simp: fun_eq_iff)
qed

lemma fold_harq_reset_empty:
  "tb < n \<Longrightarrow> is_empty (fold harq_reset [0..<n] h) tb"
proof (induction n)
  case 0
  then show ?case by simp
next
  case (Suc n)
  then show ?case by (cases "tb = n") auto
qed

lemma is_empty_config [simp]: "is_empty (harq_config k i m h) tb = is_empty h tb"
  by (simp add: harq_config_def is_empty_def)

lemma max_retx_config [simp]: "hq_max_retx (harq_config k i m h) = m"
  by (simp add: harq_config_def)

definition configured_ue :: "srslte \<Rightarrow> u16 \<Rightarrow> ue_cfg \<Rightarrow> srslte_cell option \<Rightarrow> sched_ue \<Rightarrow> bool" where
  "configured_ue E rnti c regs u \<longleftrightarrow>
     su_rnti u = rnti \<and> su_cfg u = c \<and> \<not> su_sr u \<and> \<not> su_phy_config_dedicated_enabled u \<and>
     (\<forall>i < SCHED_MAX_HARQ_PROC E.
        hq_max_retx (su_dl_harq u i) = uc_maxharq_tx c \<and> hq_max_retx (su_ul_harq u i) = uc_maxharq_tx c \<and>
        (\<forall>tb < SRSLTE_MAX_TB E. is_empty (su_dl_harq u i) tb \<and> is_empty (su_ul_harq u i) tb)) \<and>
     (\<forall>i < MAX_LC E. su_lch u i = bearer_zero\<lparr>lc_cfg := uc_bearers c i\<rparr>) \<and>
     (\<forall>cfi < 3. \<forall>sf < 10. \<forall>l < 4.
        nof_loc (su_dci_locations u cfi sf) ! l = of_nat (length (level_cces (cands E regs rnti cfi sf) l)) \<and>
        take (length (level_cces (cands E regs rnti cfi sf) l)) (cce_start (su_dci_locations u cfi sf) ! l)
          = level_cces (cands E regs rnti cfi sf) l)"

lemma reset_shape:
  assumes "MAX_LC E < 2 ^ 32"
  shows "sched_ue_reset E u = u\<lparr>su_cfg := ue_cfg_zero, su_sr := False, su_next_tpc_pusch := 1,
                su_next_tpc_pucch := 1, su_buf_mac := 0, su_buf_ul := 0,
                su_phy_config_dedicated_enabled := False, su_dl_cqi := 1, su_ul_cqi := 1,
                su_dl_cqi_tti := 0, su_ul_cqi_tti := 0, su_dl_ri := 0, su_dl_ri_tti := 0,
                su_dl_pmi := 0, su_dl_pmi_tti := 0, su_cqi_request_tti := 0,
     su_dl_harq := (\<lambda>i. if i < SCHED_MAX_HARQ_PROC E then reset_all_tbs E (su_dl_harq u i) else su_dl_harq u i),
     su_ul_harq := (\<lambda>i. if i < SCHED_MAX_HARQ_PROC E then reset_all_tbs E (su_ul_harq u i) else su_ul_harq u i),
     su_lch := (\<lambda>i. if i < MAX_LC E then bearer_zero else su_lch u i)\<rparr>"
  by (simp add: sched_ue_reset_def fold_upd_both_harq fold_rem_bearer[OF assms] Let_def
      cong: if_cong)

lemma set_cfg_configured:
  assumes "few_candidates E regs rnti" and "tables_ok u" and "MAX_LC E < 2 ^ 32"
  shows "\<exists>u'. set_cfg E rnti (Some c) cellc regs u = Some u' \<and> configured_ue E rnti c regs u'"
proof -
  let ?r = "sched_ue_reset E u"
  let ?v = "?r\<lparr>su_rnti := rnti, su_cell := cc_cell cellc,
               su_P := ra_type0_P E (cl_nof_prb (cc_cell cellc)),
               su_max_mcs_dl := 28, su_max_mcs_ul := 28, su_cfg := c\<rparr>"
  let ?conf = "\<lambda>i u. upd_ul_harq i (harq_config (SRSLTE_MAX_TB E) (of_nat i) (uc_maxharq_tx (su_cfg u)))
                 (upd_dl_harq i (harq_config (SRSLTE_MAX_TB E) (of_nat i) (uc_maxharq_tx (su_cfg u))) u)"
  let ?w = "fold ?conf [0..<SCHED_MAX_HARQ_PROC E] ?v"
  have w: "?w = ?v\<lparr>
     su_dl_harq := (\<lambda>i. if i < SCHED_MAX_HARQ_PROC E
        then harq_config (SRSLTE_MAX_TB E) (of_nat i) (uc_maxharq_tx c) (su_dl_harq ?v i) else su_dl_harq ?v i),
     su_ul_harq := (\<lambda>i. if i < SCHED_MAX_HARQ_PROC E
        then harq_config (SRSLTE_MAX_TB E) (of_nat i) (uc_maxharq_tx c) (su_ul_harq ?v i) else su_ul_harq ?v i)\<rparr>"
    by (rule fold_conf) simp
  have tok: "tables_ok ?w"
    using assms(2) unfolding w unfolding reset_shape[OF assms(3)] tables_ok_def by simp
  let ?t = "fill_tables E regs rnti 3 ?w"
  have few: "length (level_cces (cands E regs rnti cfi sf) l) \<le> 6" if "cfi < 3" "sf < 10" "l < 4" for cfi sf l
    using assms(1) that by (simp add: few_candidates_def)
  have "set_cfg E rnti (Some c) cellc regs u = Some (fold (\<lambda>i u. set_bearer_cfg E (of_nat i)
      (uc_bearers (su_cfg u) i) u) [0..<MAX_LC E] ?t)"
    using tables_all[OF assms(1) tok] by (simp add: set_cfg_def Let_def)
  moreover have "configured_ue E rnti c regs (fold (\<lambda>i u. set_bearer_cfg E (of_nat i)
      (uc_bearers (su_cfg u) i) u) [0..<MAX_LC E] ?t)"
    unfolding fold_set_bearer_cfg[OF assms(3) order_refl] w unfolding reset_shape[OF assms(3)]
    by (simp add: configured_ue_def fill_tables_def cce_filled_def bearer_zero_def reset_all_tbs_def
        fold_harq_reset_empty)
  ultimately show ?thesis by blast
qed

text \<open>\<open>set_cfg\<close> returns whenever no aggregation level has more than the six candidates its
  table holds, and leaves an idle user: every process is empty with the configured limit, every
  buffer and report is zero, the bearers are the configured ones, and the tables list exactly the
  candidates of each control format indicator, subframe and level.\<close>

theorem set_cfg_initialises:
  assumes "few_candidates E regs rnti" and "tables_ok u" and "MAX_LC E < 2 ^ 32"
  shows "\<exists>u'. set_cfg E rnti (Some c) cellc regs u = Some u' \<and> configured_ue E rnti c regs u'"
  by (rule set_cfg_configured[OF assms])

definition demo_cell_cfg :: cell_cfg where
  "demo_cell_cfg = \<lparr>cc_cell = demo_cell, cc_sibs = (\<lambda>i. if i < 2 then \<lparr>sib_len = 18, sib_period_rf = 8\<rparr>
       else \<lparr>sib_len = 0, sib_period_rf = 0\<rparr>),
     cc_si_window_ms = 40, cc_prach_config = 3, cc_prach_freq_offset = 2, cc_prach_rar_window = 10,
     cc_nrb_pucch = 2, cc_maxharq_msg3tx = 4\<rparr>"

lemma demo_few_candidates: "few_candidates demo_lib regs rnti"
proof -
  have "length (level_cces (cands demo_lib regs rnti cfi sf) l) \<le> 4" for cfi sf l
    unfolding level_cces_def length_map
    by (rule order.trans[OF length_filter_le]) (simp add: cands_def cce_candidates_def demo_lib_def)
  then have "length (level_cces (cands demo_lib regs rnti cfi sf) l) \<le> 6" for cfi sf l
    by (rule order.trans) simp
  then show ?thesis by (simp add: few_candidates_def)
qed

lemma raw_tables_ok: "tables_ok sched_ue_raw"
  by (simp add: tables_ok_def sched_ue_raw_def cce_shape_zero)

theorem set_cfg_initialises_witness:
  "\<exists>u'. set_cfg demo_lib 70 (Some (ue_cfg_zero\<lparr>uc_maxharq_tx := 5\<rparr>)) demo_cell_cfg (Some demo_cell) sched_ue_raw
       = Some u' \<and> hq_max_retx (su_dl_harq u' 3) = 5 \<and> is_empty (su_dl_harq u' 3) 1"
proof -
  have lc: "MAX_LC demo_lib < 2 ^ 32" by simp
  obtain u' where "set_cfg demo_lib 70 (Some (ue_cfg_zero\<lparr>uc_maxharq_tx := 5\<rparr>)) demo_cell_cfg
       (Some demo_cell) sched_ue_raw = Some u'"
    and "configured_ue demo_lib 70 (ue_cfg_zero\<lparr>uc_maxharq_tx := 5\<rparr>) (Some demo_cell) u'"
    using set_cfg_initialises[OF demo_few_candidates raw_tables_ok lc] by blast
  then show ?thesis
    by (simp add: configured_ue_def SCHED_MAX_HARQ_PROC_def) (simp add: demo_lib_def)
qed

section \<open>Buffer reports\<close>

text \<open>received data lowers the buffer report of its uplink bearer by its length less the four
  bytes of the PDCP header, and never below zero; no other bearer changes.\<close>

theorem ul_recv_len_lowers_report:
  assumes "unat lcid < MAX_LC E" and "bearer_is_ul (su_lch u (unat lcid))" and "len < 2 ^ 31"
    and "0 \<le> lc_bsr (su_lch u (unat lcid))" and "lc_bsr (su_lch u (unat lcid)) < 2 ^ 31"
  shows "su_lch (ul_recv_len E lcid len u) = (su_lch u)(unat lcid := (su_lch u (unat lcid))
     \<lparr>lc_bsr := max 0 (lc_bsr (su_lch u (unat lcid)) - (if 4 < uint len then uint len - 4 else uint len))\<rparr>)"
proof -
  let ?b = "su_lch u (unat lcid)"
  define n where "n = (if 4 < len then len - 4 else len)"
  have n: "uint n = (if 4 < uint len then uint len - 4 else uint len)"
    by (auto simp: n_def word_less_def uint_sub_if_size word_size)
  have "uint n < 2 ^ 31" using assms(3) n by (auto simp: word_less_def split: if_splits)
  then have i: "i32 n = uint n" by (rule i32_small)
  have sub: "i32 (of_i32 (lc_bsr ?b) - n) = lc_bsr ?b - uint n" if "uint n < lc_bsr ?b"
  proof -
    have "of_i32 (lc_bsr ?b) - n = of_i32 (lc_bsr ?b - uint n)" by (simp add: wi_hom_sub[symmetric])
    moreover have "0 \<le> lc_bsr ?b - uint n" "lc_bsr ?b - uint n < 2 ^ 31"
      using that assms(5) uint_ge_0[of n] by linarith+
    ultimately show ?thesis by (metis i32_of_i32 neg_le_0_iff_le order.trans zero_le_numeral zero_le_power)
  qed
  have "su_lch (ul_recv_len E lcid len u) = (su_lch u)(unat lcid := ?b\<lparr>lc_bsr :=
      (if i32 n < lc_bsr ?b then i32 (of_i32 (lc_bsr ?b) - n) else 0)\<rparr>)"
    using assms(1,2) by (simp add: ul_recv_len_def n_def upd_lch_def Let_def)
  also have "(if i32 n < lc_bsr ?b then i32 (of_i32 (lc_bsr ?b) - n) else 0) = max 0 (lc_bsr ?b - uint n)"
    using sub by (auto simp: i)
  finally show ?thesis by (simp only: n)
qed

theorem ul_recv_len_lowers_report_witness:
  "lc_bsr (su_lch (ul_recv_len demo_lib 1 24 demo_ue) 1) = 20"
proof -
  have b: "lc_bsr (su_lch demo_ue (unat (1 :: u32))) = 40" "bearer_is_ul (su_lch demo_ue (unat (1 :: u32)))"
    by (simp_all add: demo_ue_def demo_lch_def bearer_is_ul_def)
  then show ?thesis using ul_recv_len_lowers_report[of 1 demo_lib demo_ue 24] by simp
qed

end
