(* ===== verification/Grant_Pool.thy ===== *)
theory Grant_Pool
  imports Prelude
begin

text \<open>
  What the two metric classes of \<open>scheduler_metric.cc\<close> have in common. Each walks over the users
  in an order that rotates with the TTI, lets one step serve each user, and stores the HARQ
  process it chose (or none) in the user. The locale states what a step promises about the shared
  resources; from it the loops give pairwise disjoint grants.
\<close>

section \<open>The visiting order\<close>

text \<open>
  The iterator over the user map: it starts at the priority index and is moved back to the
  beginning when it has reached the end.
\<close>

fun rr_visit :: "nat \<Rightarrow> nat \<Rightarrow> nat \<Rightarrow> nat list" where
  "rr_visit n 0 it = []"
| "rr_visit n (Suc ue_count) it =
     (let it = (if it = n then 0 else it) in it # rr_visit n ue_count (it + 1))"

lemma rr_visit_up: "it + c \<le> n \<Longrightarrow> rr_visit n c it = [it..<it + c]"
  by (induction c arbitrary: it) (auto simp: upt_rec)

lemma rr_visit_wrap: "p \<le> n \<Longrightarrow> c \<le> p \<Longrightarrow> 0 < n \<Longrightarrow> rr_visit n (n - p + c) p = [p..<n] @ [0..<c]"
proof (induction "n - p" arbitrary: p)
  case 0
  then show ?case
  proof (cases c)
    case (Suc d)
    then have "rr_visit n (Suc d) p = 0 # rr_visit n d 1" using 0 by simp
    also have "rr_visit n d 1 = [1..<Suc d]" using 0 Suc by (subst rr_visit_up) auto
    finally show ?thesis using 0 Suc by (simp add: upt_conv_Cons)
  qed simp
next
  case (Suc d)
  then have p: "p < n" by simp
  then have "n - p + c = Suc (n - Suc p + c)" by simp
  moreover have "rr_visit n (n - Suc p + c) (Suc p) = [Suc p..<n] @ [0..<c]"
    using Suc p by (intro Suc.hyps(1)) auto
  ultimately show ?case using p by (simp add: upt_conv_Cons)
qed

text \<open>Every user is visited exactly once.\<close>

lemma rr_visit_rotation: "p < n \<Longrightarrow> rr_visit n n p = [p..<n] @ [0..<p]"
  using rr_visit_wrap[of p n p] by simp

lemma rr_visit_distinct: "p < n \<Longrightarrow> distinct (rr_visit n n p)"
  by (simp add: rr_visit_rotation)

lemma rr_visit_set: "p < n \<Longrightarrow> set (rr_visit n n p) = {..<n}"
  by (auto simp: rr_visit_rotation)

section \<open>One visit\<close>

definition rr_body ::
  "('m \<Rightarrow> 'u \<Rightarrow> (nat option \<times> 'm \<times> 'u) option) \<Rightarrow> (nat option \<Rightarrow> 'u \<Rightarrow> 'u) \<Rightarrow>
   nat \<Rightarrow> 'm \<times> ('k \<times> 'u) list \<Rightarrow> ('m \<times> ('k \<times> 'u) list) option" where
  "rr_body step mark i s = do {
     x \<leftarrow> rd (snd s) i;
     (h, m, u) \<leftarrow> step (fst s) (snd x);
     db \<leftarrow> wr (snd s) i (fst x, mark h u);
     Some (m, db)
   }"

lemma rr_body_SomeD:
  assumes "rr_body step mark i (m, db) = Some (m', db')"
  shows "\<exists>h u. i < length db \<and> step m (snd (db ! i)) = Some (h, m', u) \<and>
     db' = db[i := (fst (db ! i), mark h u)]"
proof -
  obtain x h n u where "rd db i = Some x" "step m (snd x) = Some (h, n, u)"
      "wr db i (fst x, mark h u) = Some db'" "n = m'"
    using assms by (auto simp: rr_body_def bind_eq_Some_conv)
  then show ?thesis by (auto dest!: rd_SomeD wr_SomeD)
qed

section \<open>The contract of a step\<close>

locale grant_pool =
  fixes inv :: "'m \<Rightarrow> bool"
    and used :: "'m \<Rightarrow> nat set"
    and step :: "'m \<Rightarrow> 'u \<Rightarrow> (nat option \<times> 'm \<times> 'u) option"
    and mark :: "nat option \<Rightarrow> 'u \<Rightarrow> 'u"
    and got :: "'u \<Rightarrow> nat option"
    and res :: "'u \<Rightarrow> nat \<Rightarrow> nat set"
  assumes got_mark: "got (mark h u) = h"
    and res_mark: "res (mark h u) = res u"
    and step_inv: "inv m \<Longrightarrow> step m u = Some (h, m', u') \<Longrightarrow> inv m'"
    and step_used: "inv m \<Longrightarrow> step m u = Some (h, m', u') \<Longrightarrow> used m \<subseteq> used m'"
    and step_fresh: "inv m \<Longrightarrow> step m u = Some (Some k, m', u') \<Longrightarrow>
          res u' k \<inter> used m = {} \<and> res u' k \<subseteq> used m'"
begin

text \<open>
  The grants of the users at the positions \<open>D\<close> are recorded as used, lie outside \<open>B\<close> (what was
  in use before the pass) and are pairwise disjoint.
\<close>

definition pool :: "nat set \<Rightarrow> 'm \<Rightarrow> ('k \<times> 'u) list \<Rightarrow> nat set \<Rightarrow> bool" where
  "pool B m db D \<longleftrightarrow> inv m \<and> B \<subseteq> used m \<and>
     (\<forall>i \<in> D. \<forall>h. got (snd (db ! i)) = Some h \<longrightarrow>
        res (snd (db ! i)) h \<subseteq> used m \<and> res (snd (db ! i)) h \<inter> B = {}) \<and>
     (\<forall>i \<in> D. \<forall>j \<in> D. \<forall>h k. i \<noteq> j \<longrightarrow> got (snd (db ! i)) = Some h \<longrightarrow> got (snd (db ! j)) = Some k \<longrightarrow>
        res (snd (db ! i)) h \<inter> res (snd (db ! j)) k = {})"

lemma pool_empty: "inv m \<Longrightarrow> pool (used m) m db {}"
  by (simp add: pool_def)

lemma pool_subset: "pool B m db D \<Longrightarrow> D' \<subseteq> D \<Longrightarrow> pool B m db D'"
  unfolding pool_def by (meson subsetD)

lemma body_pool:
  assumes "pool B m db (D - {i})" and "rr_body step mark i (m, db) = Some (m', db')"
  shows "pool B m' db' (insert i D) \<and> length db' = length db \<and> used m \<subseteq> used m'"
proof -
  obtain h u where b: "i < length db" "step m (snd (db ! i)) = Some (h, m', u)"
      "db' = db[i := (fst (db ! i), mark h u)]"
    using rr_body_SomeD[OF assms(2)] by blast
  have m: "inv m" using assms(1) by (simp add: pool_def)
  note us = step_used[OF m b(2)]
  have new: "res u k \<inter> used m = {}" "res u k \<subseteq> used m'" if "h = Some k" for k
    using step_fresh[OF m] b(2) that by blast+
  have same: "db' ! j = db ! j" if "j \<noteq> i" for j using that b(3) by simp
  have at_i: "got (snd (db' ! i)) = h" "res (snd (db' ! i)) = res u"
    using b(1,3) by (simp_all add: got_mark res_mark)
  have old: "res (snd (db' ! j)) k \<subseteq> used m" "res (snd (db' ! j)) k \<inter> B = {}"
    if "j \<in> D - {i}" "got (snd (db' ! j)) = Some k" for j k
    using assms(1) that same[of j] by (auto simp: pool_def)
  have B: "B \<subseteq> used m" using assms(1) by (simp add: pool_def)
  have "pool B m' db' (insert i D)"
    unfolding pool_def
  proof (intro conjI ballI allI impI)
    show "inv m'" by (rule step_inv[OF m b(2)])
    show "B \<subseteq> used m'" using B us by blast
    fix j k assume j: "j \<in> insert i D" "got (snd (db' ! j)) = Some k"
    show "res (snd (db' ! j)) k \<subseteq> used m'"
    proof (cases "j = i")
      case True
      then show ?thesis using new j at_i by simp
    next
      case False
      then show ?thesis using old(1)[of j k] j us by blast
    qed
    show "res (snd (db' ! j)) k \<inter> B = {}"
    proof (cases "j = i")
      case True
      then show ?thesis using new(1)[of k] j at_i B by auto
    next
      case False
      then show ?thesis using old(2)[of j k] j by blast
    qed
    fix l n assume l: "l \<in> insert i D" "j \<noteq> l" "got (snd (db' ! l)) = Some n"
    consider "j = i" "l \<in> D - {i}" | "l = i" "j \<in> D - {i}" | "j \<in> D - {i}" "l \<in> D - {i}"
      using j l by blast
    then show "res (snd (db' ! j)) k \<inter> res (snd (db' ! l)) n = {}"
    proof cases
      case 1
      then show ?thesis using new(1)[of k] old(1)[of l n] j l at_i by auto
    next
      case 2
      then show ?thesis using new(1)[of n] old(1)[of j k] j l at_i by auto
    next
      case 3
      then show ?thesis using assms(1) j l same[of j] same[of l] by (auto simp: pool_def)
    qed
  qed
  then show ?thesis using b(3) us by simp
qed

text \<open>A pass over distinct users that serves each of them.\<close>

lemma first_pass:
  assumes "foldM (rr_body step mark) is (m, db) = Some (m', db')" and "pool B m db D"
    and "distinct is" and "set is \<inter> D = {}"
  shows "pool B m' db' (D \<union> set is) \<and> length db' = length db \<and> used m \<subseteq> used m'"
  using assms
proof (induction "is" arbitrary: m db D)
  case Nil
  then show ?case by simp
next
  case (Cons i js)
  obtain n dc where b: "rr_body step mark i (m, db) = Some (n, dc)"
    and f: "foldM (rr_body step mark) js (n, dc) = Some (m', db')"
    using Cons.prems(1) by (auto simp: bind_eq_Some_conv)
  have "pool B m db (D - {i})" using Cons.prems(2,4) by (simp add: Diff_triv)
  from body_pool[OF this b] have s: "pool B n dc (insert i D)" "length dc = length db" "used m \<subseteq> used n"
    by auto
  have "pool B m' db' (insert i D \<union> set js) \<and> length db' = length dc \<and> used n \<subseteq> used m'"
    using Cons.prems(3,4) by (intro Cons.IH[OF f s(1)]) auto
  then show ?case using s by auto
qed

text \<open>The pass has a result when every step has one.\<close>

lemma pass_total:
  assumes "inv m" and "distinct is" and "\<forall>i \<in> set is. i < length db"
    and "\<And>i n. i \<in> set is \<Longrightarrow> inv n \<Longrightarrow> step n (snd (db ! i)) \<noteq> None"
  shows "\<exists>m' db'. foldM (rr_body step mark) is (m, db) = Some (m', db') \<and> map fst db' = map fst db"
  using assms
proof (induction "is" arbitrary: m db)
  case Nil
  then show ?case by simp
next
  case (Cons i js)
  obtain h n u where st: "step m (snd (db ! i)) = Some (h, n, u)"
    using Cons.prems(1) Cons.prems(4)[of i m] by auto
  let ?dc = "db[i := (fst (db ! i), mark h u)]"
  have i: "i < length db" using Cons.prems(3) by simp
  have b: "rr_body step mark i (m, db) = Some (n, ?dc)" using i st by (simp add: rr_body_def)
  have "\<exists>m' db'. foldM (rr_body step mark) js (n, ?dc) = Some (m', db') \<and> map fst db' = map fst ?dc"
  proof (rule Cons.IH)
    show "inv n" by (rule step_inv[OF Cons.prems(1) st])
    show "distinct js" "\<forall>j \<in> set js. j < length ?dc" using Cons.prems(2,3) by simp_all
    fix j k assume j: "j \<in> set js" "inv k"
    then have "j \<noteq> i" using Cons.prems(2) by auto
    then show "step k (snd (?dc ! j)) \<noteq> None" using Cons.prems(4)[of j k] j by simp
  qed
  moreover have "map fst ?dc = map fst db" using i by (simp add: map_update list_update_same_conv)
  ultimately show ?case using b by auto
qed

text \<open>The same when the promise \<open>P\<close> a step needs of its user survives the steps.\<close>

lemma pass_total_keeps:
  assumes "inv m" and "\<forall>i \<in> set is. i < length db" and "\<forall>p \<in> set db. P (snd p)"
    and "\<And>n u. inv n \<Longrightarrow> P u \<Longrightarrow> \<exists>h n' u'. f n u = Some (h, n', u') \<and> inv n' \<and> P (mark h u')"
  shows "\<exists>m' db'. foldM (rr_body f mark) is (m, db) = Some (m', db') \<and> inv m' \<and>
     map fst db' = map fst db \<and> (\<forall>p \<in> set db'. P (snd p))"
proof -
  let ?I = "\<lambda>s. inv (fst s) \<and> map fst (snd s) = map fst db \<and> (\<forall>p \<in> set (snd s). P (snd p))"
  have "\<exists>s'. foldM (rr_body f mark) is (m, db) = Some s' \<and> ?I s'"
  proof (rule foldM_total[where I = ?I])
    show "?I (m, db)" using assms(1,3) by simp
    fix i s assume i: "i \<in> set is" and I: "?I s"
    obtain n dc where s: "s = (n, dc)" by fastforce
    have "length dc = length db" using I s by (metis length_map snd_conv)
    then have il: "i < length dc" using i assms(2) by simp
    then have "P (snd (dc ! i))" using I s by simp
    then obtain h n' u' where st: "f n (snd (dc ! i)) = Some (h, n', u')" "inv n'" "P (mark h u')"
      using assms(4)[of n "snd (dc ! i)"] I s by auto
    have keys: "map fst (dc[i := (fst (dc ! i), mark h u')]) = map fst db"
      using I s il by (metis fst_conv list_update_id map_update nth_map snd_conv)
    have "rr_body f mark i s = Some (n', dc[i := (fst (dc ! i), mark h u')])"
      using il st(1) by (simp add: rr_body_def s)
    moreover have "?I (n', dc[i := (fst (dc ! i), mark h u')])"
      using I s st(2,3) il set_update_subset_insert[of dc i "(fst (dc ! i), mark h u')"]
      by (auto simp: keys)
    ultimately show "\<exists>s'. rr_body f mark i s = Some s' \<and> ?I s'" by blast
  qed
  then show ?thesis by auto
qed

text \<open>A pass that serves only the users that have nothing yet.\<close>

definition step_rest :: "'m \<Rightarrow> 'u \<Rightarrow> (nat option \<times> 'm \<times> 'u) option" where
  "step_rest m u = (if got u = None then step m u else Some (got u, m, u))"

lemma second_pass:
  assumes "foldM (rr_body step_rest mark) is (m, db) = Some (m', db')" and "pool B m db D" and "set is \<subseteq> D"
  shows "pool B m' db' D \<and> length db' = length db \<and> used m \<subseteq> used m'"
  using assms
proof (induction "is" arbitrary: m db)
  case Nil
  then show ?case by simp
next
  case (Cons i js)
  obtain n dc where b: "rr_body step_rest mark i (m, db) = Some (n, dc)"
    and f: "foldM (rr_body step_rest mark) js (n, dc) = Some (m', db')"
    using Cons.prems(1) by (auto simp: bind_eq_Some_conv)
  obtain h u where r: "i < length db" "step_rest m (snd (db ! i)) = Some (h, n, u)"
      "dc = db[i := (fst (db ! i), mark h u)]"
    using rr_body_SomeD[OF b] by blast
  have "pool B n dc D \<and> length dc = length db \<and> used m \<subseteq> used n"
  proof (cases "got (snd (db ! i))")
    case None
    then have "rr_body step mark i (m, db) = Some (n, dc)"
      using r by (auto simp: rr_body_def step_rest_def)
    moreover have "pool B m db (D - {i})" using Cons.prems(2) by (rule pool_subset) auto
    ultimately have "pool B n dc (insert i D) \<and> length dc = length db \<and> used m \<subseteq> used n"
      by (intro body_pool)
    then show ?thesis using Cons.prems(3) by (simp add: insert_absorb)
  next
    case (Some k)
    then have "h = Some k" "n = m" "u = snd (db ! i)" using r(2) by (auto simp: step_rest_def)
    then have eq: "got (snd (dc ! j)) = got (snd (db ! j)) \<and> res (snd (dc ! j)) = res (snd (db ! j))" for j
      using r(1,3) Some by (cases "j = i") (auto simp: got_mark res_mark)
    have "pool B n dc D" using Cons.prems(2) \<open>n = m\<close> by (simp add: pool_def eq)
    then show ?thesis using r(3) \<open>n = m\<close> by simp
  qed
  moreover from this Cons.prems(3) have "pool B m' db' D \<and> length db' = length dc \<and> used n \<subseteq> used m'"
    by (intro Cons.IH[OF f]) auto
  ultimately show ?case by auto
qed

end

end
