(* ===== verification/Metric_DL.thy ===== *)
theory Metric_DL
  imports Grant_Pool Sched_UE_Config
begin

text \<open>
  The downlink metric \<open>dl_metric_rr\<close> (\<open>scheduler_metric.h\<close>, \<open>scheduler_metric.cc\<close>): resource
  block groups are handed out to the users of a TTI in round-robin order. The array \<open>used_rbg\<close>
  has \<open>MAX_RBG\<close> entries and is accessed through \<open>rd\<close> and \<open>wr\<close>; the mask \<open>used_rbg_mask\<close> holds
  group \<open>n\<close> at bit \<open>total_rbg - 1 - n\<close>.
\<close>

section \<open>State and operations\<close>

definition MAX_RBG :: nat where
  "MAX_RBG = 25"

record dl_metric =
  dm_used_rbg :: "bool list"
  dm_current_tti :: u32
  dm_total_rbg :: u32
  dm_used_rbg_mask :: u32
  dm_nof_ctrl_symbols :: u32
  dm_available_rbg :: u32

definition calc_rbg_mask :: "u32 \<Rightarrow> bool list \<Rightarrow> u32 option" where
  "calc_rbg_mask tot bits =
     foldM (\<lambda>n acc. do {
         b \<leftarrow> rd bits n;
         Some (if b then acc OR push_bit (unat tot - 1 - n) 1 else acc)
       }) [0..<unat tot] 0"

lemma unat_drop_bit_1: "0 < m \<Longrightarrow> unat (drop_bit 1 m) < unat m" for m :: u32
proof -
  assume "0 < m"
  then have "0 < unat m" by (simp add: word_less_nat_alt)
  moreover have "unat (drop_bit 1 m) = unat m div 2"
    by (simp only: unat_drop_bit_eq) (simp add: drop_bit_eq_div)
  ultimately show ?thesis by simp
qed

function count_rbg_loop :: "u32 \<Rightarrow> u32 \<Rightarrow> u32" where
  "count_rbg_loop w count =
     (if 0 < w then count_rbg_loop (drop_bit 1 w) (if w AND 1 = 1 then count + 1 else count)
      else count)"
  by pat_completeness auto
termination by (relation "measure (\<lambda>(m, c). unat m)") (auto simp: unat_drop_bit_1 simp del: One_nat_def)

declare count_rbg_loop.simps [simp del]

definition count_rbg :: "u32 \<Rightarrow> u32" where
  "count_rbg w = count_rbg_loop w 0"

definition get_required_rbg :: "srslte \<Rightarrow> sched_ue \<Rightarrow> u32 \<Rightarrow> dl_metric \<Rightarrow> u32 option" where
  "get_required_rbg E u tti m =
     (case get_pending_dl_harq E tti u of
        Some i \<Rightarrow> Some (count_rbg (get_rbgmask (su_dl_harq u i)))
      | None \<Rightarrow> do {
          n \<leftarrow> get_required_prb_dl E (get_pending_dl_new_data E u) (dm_nof_ctrl_symbols m) u;
          Some (prb_to_rbg n u)
        })"

definition pick_step :: "bool list \<Rightarrow> nat \<Rightarrow> bool list \<times> u32 \<Rightarrow> (bool list \<times> u32) option" where
  "pick_step used i s =
     (if 0 < snd s then do {
        b \<leftarrow> rd used i;
        bits \<leftarrow> wr (fst s) i (\<not> b);
        Some (bits, if b then snd s else snd s - 1)
      } else Some s)"

definition dl_new_allocation :: "u32 \<Rightarrow> dl_metric \<Rightarrow> (bool \<times> u32) option" where
  "dl_new_allocation nof_rbg m = do {
     (mask_bit, nof_rbg) \<leftarrow>
       foldM (pick_step (dm_used_rbg m))
         [0..<unat (dm_total_rbg m)] (replicate MAX_RBG False, nof_rbg);
     rbgmask \<leftarrow> calc_rbg_mask (dm_total_rbg m) mask_bit;
     Some (nof_rbg = 0, rbgmask)
   }"

definition dl_update_allocation :: "u32 \<Rightarrow> dl_metric \<Rightarrow> dl_metric option" where
  "dl_update_allocation new_mask m = do {
     let used = dm_used_rbg_mask m OR new_mask;
     rbg \<leftarrow> foldM (\<lambda>n rbg. wr rbg n (bit used (unat (dm_total_rbg m) - 1 - n)))
              [0..<unat (dm_total_rbg m)] (dm_used_rbg m);
     Some (m\<lparr>dm_used_rbg_mask := used, dm_used_rbg := rbg\<rparr>)
   }"

text \<open>The name is the code's; the result is true for a mask that collides.\<close>

definition dl_allocation_is_valid :: "u32 \<Rightarrow> dl_metric \<Rightarrow> bool" where
  "dl_allocation_is_valid w m \<longleftrightarrow> w AND dm_used_rbg_mask m \<noteq> 0"

definition dl_apply_retx :: "nat \<Rightarrow> dl_metric \<Rightarrow> sched_ue \<Rightarrow> (nat \<times> dl_metric \<times> sched_ue) option option" where
  "dl_apply_retx i m u =
     (let retx_mask = get_rbgmask (su_dl_harq u i)
      in if \<not> dl_allocation_is_valid retx_mask m
         then do { m \<leftarrow> dl_update_allocation retx_mask m; Some (Some (i, m, u)) }
         else let nof_rbg = count_rbg retx_mask
         in if nof_rbg < dm_available_rbg m
         then do {
           (ok, rbgmask) \<leftarrow> dl_new_allocation nof_rbg m;
           if ok then do {
             m \<leftarrow> dl_update_allocation rbgmask m;
             Some (Some (i, m, upd_dl_harq i (set_rbgmask rbgmask) u))
           } else Some None
         }
         else Some None)"

definition dl_apply_newtx :: "srslte \<Rightarrow> dl_metric \<Rightarrow> sched_ue \<Rightarrow> (nat option \<times> dl_metric \<times> sched_ue) option" where
  "dl_apply_newtx E m u =
     (let req_bytes = get_pending_dl_new_data_total E u
      in case get_empty_dl_harq E u of
           None \<Rightarrow> Some (None, m, u)
         | Some i \<Rightarrow>
             if req_bytes \<noteq> 0 then do {
               n \<leftarrow> get_required_prb_dl E req_bytes (dm_nof_ctrl_symbols m) u;
               (_, rbgmask) \<leftarrow> dl_new_allocation (prb_to_rbg n u) m;
               if rbgmask \<noteq> 0 then do {
                 m \<leftarrow> dl_update_allocation rbgmask m;
                 Some (Some i, m, upd_dl_harq i (set_rbgmask rbgmask) u)
               } else Some (None, m, u)
             } else Some (None, m, u))"

definition dl_apply_user_allocation ::
  "srslte \<Rightarrow> dl_metric \<Rightarrow> sched_ue \<Rightarrow> (nat option \<times> dl_metric \<times> sched_ue) option" where
  "dl_apply_user_allocation E m u = do {
     retx \<leftarrow> (case get_pending_dl_harq E (dm_current_tti m) u of
                None \<Rightarrow> Some None
              | Some i \<Rightarrow> dl_apply_retx i m u);
     (case retx of
        Some (i, m, u) \<Rightarrow> Some (Some i, m, u)
      | None \<Rightarrow> dl_apply_newtx E m u)
   }"

definition mark_dl :: "nat option \<Rightarrow> sched_ue \<Rightarrow> sched_ue" where
  "mark_dl h u = u\<lparr>su_dl_next_alloc := h\<rparr>"

definition dl_metric_start :: "u32 \<Rightarrow> u32 \<Rightarrow> u32 \<Rightarrow> u32 \<Rightarrow> dl_metric \<Rightarrow> dl_metric option" where
  "dl_metric_start start_rbg nof_rbg nof_ctrl tti m = do {
     let m = m\<lparr>dm_total_rbg := start_rbg + nof_rbg\<rparr>;
     rbg \<leftarrow> foldM (\<lambda>i rbg. wr rbg i (i < unat start_rbg)) [0..<unat (dm_total_rbg m)] (dm_used_rbg m);
     used \<leftarrow> calc_rbg_mask (dm_total_rbg m) rbg;
     Some (m\<lparr>dm_used_rbg := rbg, dm_available_rbg := nof_rbg, dm_used_rbg_mask := used,
             dm_current_tti := tti, dm_nof_ctrl_symbols := nof_ctrl\<rparr>)
   }"

definition dl_new_tti ::
  "srslte \<Rightarrow> u32 \<Rightarrow> u32 \<Rightarrow> u32 \<Rightarrow> u32 \<Rightarrow> dl_metric \<times> (u16, sched_ue) omap \<Rightarrow>
   (dl_metric \<times> (u16, sched_ue) omap) option" where
  "dl_new_tti E start_rbg nof_rbg nof_ctrl tti s = do {
     m \<leftarrow> dl_metric_start start_rbg nof_rbg nof_ctrl tti (fst s);
     let db = snd s;
     (if length db = 0 then Some (m, db)
      else foldM (rr_body (dl_apply_user_allocation E) mark_dl)
             (rr_visit (length db) (length db) (unat tti mod length db)) (m, db))
   }"

definition dl_get_user_allocation :: "sched_ue \<Rightarrow> nat option" where
  "dl_get_user_allocation u = su_dl_next_alloc u"

section \<open>Bit masks\<close>

lemma calc_rbg_mask_prefix:
  assumes "k \<le> unat tot" and "k \<le> length bits"
  shows "\<exists>w. foldM (\<lambda>n acc. do { b \<leftarrow> rd bits n;
        Some (if b then acc OR push_bit (unat tot - 1 - n) 1 else acc) }) [0..<k] 0 = Some (w :: u32) \<and>
     (\<forall>b < 32. bit w b \<longleftrightarrow> (\<exists>n < k. bits ! n \<and> b = unat tot - 1 - n))"
  using assms
proof (induction k)
  case 0
  then show ?case by simp
next
  case (Suc k)
  then obtain w where w: "foldM (\<lambda>n acc. do { b \<leftarrow> rd bits n;
        Some (if b then acc OR push_bit (unat tot - 1 - n) 1 else acc) }) [0..<k] 0 = Some (w :: u32)"
      "\<forall>b < 32. bit w b \<longleftrightarrow> (\<exists>n < k. bits ! n \<and> b = unat tot - 1 - n)"
    by auto
  let ?v = "if bits ! k then w OR push_bit (unat tot - 1 - k) 1 else w"
  have "bit ?v b \<longleftrightarrow> (\<exists>n < Suc k. bits ! n \<and> b = unat tot - 1 - n)" if "b < 32" for b
    using w(2) that by (auto simp: bit_or_iff bit_push1 less_Suc_eq simp del: push_bit_of_1)
  then show ?case using w(1) Suc.prems(2) by (simp add: foldM_append)
qed

lemma calc_rbg_mask_spec:
  assumes "unat tot \<le> length bits" and "unat tot \<le> 32"
  obtains w where "calc_rbg_mask tot bits = Some w"
    and "\<And>b. bit w b \<longleftrightarrow> (\<exists>n < unat tot. bits ! n \<and> b = unat tot - 1 - n)"
proof -
  obtain w where w: "calc_rbg_mask tot bits = Some w"
      "\<forall>b < 32. bit w b \<longleftrightarrow> (\<exists>n < unat tot. bits ! n \<and> b = unat tot - 1 - n)"
    using calc_rbg_mask_prefix[of "unat tot" tot bits] assms(1) by (auto simp: calc_rbg_mask_def)
  have "bit w b \<longleftrightarrow> (\<exists>n < unat tot. bits ! n \<and> b = unat tot - 1 - n)" for b
  proof (cases "b < 32")
    case True
    then show ?thesis using w(2) by simp
  next
    case False
    then have "\<not> bit w b" using bit_imp_le_length[of w b] by auto
    moreover have "b \<noteq> unat tot - 1 - n" if "n < unat tot" for n using False assms(2) that by linarith
    ultimately show ?thesis by auto
  qed
  then show ?thesis using w(1) that by blast
qed

section \<open>The invariant of the metric\<close>

definition dl_inv :: "dl_metric \<Rightarrow> bool" where
  "dl_inv m \<longleftrightarrow> length (dm_used_rbg m) = MAX_RBG \<and> unat (dm_total_rbg m) \<le> MAX_RBG \<and>
     (\<forall>n < unat (dm_total_rbg m).
        dm_used_rbg m ! n = bit (dm_used_rbg_mask m) (unat (dm_total_rbg m) - 1 - n))"

definition mask_set :: "u32 \<Rightarrow> nat set" where
  "mask_set w = {b. bit w b}"

definition dl_used :: "dl_metric \<Rightarrow> nat set" where
  "dl_used m = mask_set (dm_used_rbg_mask m)"

lemma mask_disjoint: "mask_set v \<inter> mask_set w = {} \<longleftrightarrow> v AND w = 0"
  by (auto simp: mask_set_def bit_eq_iff bit_and_iff dest: bit_u32_less)

lemma mask_set_or: "mask_set (v OR w) = mask_set v \<union> mask_set w"
  by (auto simp: mask_set_def bit_or_iff)

lemma fold_wr_all:
  assumes "k \<le> length xs"
  shows "foldM (\<lambda>n ys. wr ys n (f n)) [0..<k] xs = Some (map (\<lambda>n. if n < k then f n else xs ! n) [0..<length xs])"
  using assms
proof (induction k)
  case 0
  then show ?case by (simp add: map_nth)
next
  case (Suc k)
  have "(map (\<lambda>n. if n < k then f n else xs ! n) [0..<length xs])[k := f k] =
      map (\<lambda>n. if n < Suc k then f n else xs ! n) [0..<length xs]"
    using Suc.prems by (intro nth_equalityI) (auto simp: nth_list_update less_Suc_eq)
  then show ?case using Suc by (simp add: foldM_append)
qed

lemma dl_update_spec:
  assumes "dl_inv m"
  obtains m' where "dl_update_allocation w m = Some m'" and "dl_inv m'" and "dl_used m' = dl_used m \<union> mask_set w"
    and "dm_current_tti m' = dm_current_tti m" and "dm_total_rbg m' = dm_total_rbg m"
    and "dm_nof_ctrl_symbols m' = dm_nof_ctrl_symbols m"
proof -
  let ?used = "dm_used_rbg_mask m OR w" and ?T = "unat (dm_total_rbg m)"
  let ?rbg = "map (\<lambda>n. if n < ?T then bit ?used (?T - 1 - n) else dm_used_rbg m ! n) [0..<length (dm_used_rbg m)]"
  let ?m = "m\<lparr>dm_used_rbg_mask := ?used, dm_used_rbg := ?rbg\<rparr>"
  have T: "?T \<le> length (dm_used_rbg m)" using assms by (simp add: dl_inv_def)
  have "dl_update_allocation w m = Some ?m"
    by (simp add: dl_update_allocation_def fold_wr_all[OF T] Let_def)
  moreover have "dl_inv ?m" using assms T by (auto simp: dl_inv_def)
  moreover have "dl_used ?m = dl_used m \<union> mask_set w" by (simp add: dl_used_def mask_set_or)
  ultimately show ?thesis using that by simp
qed

section \<open>New allocations\<close>

lemma pick_prefix:
  assumes "k \<le> MAX_RBG" and "length used = MAX_RBG"
  shows "\<exists>bits r. foldM (pick_step used) [0..<k] (replicate MAX_RBG False, nof) = Some (bits, r) \<and>
     length bits = MAX_RBG \<and> (\<forall>n < MAX_RBG. bits ! n \<longrightarrow> n < k \<and> \<not> used ! n) \<and>
     unat r + card {n. n < k \<and> bits ! n} = unat nof \<and> (0 < r \<longrightarrow> (\<forall>n < k. \<not> used ! n \<longrightarrow> bits ! n)) \<and>
     (\<forall>n < k. \<forall>l < n. bits ! n \<longrightarrow> \<not> used ! l \<longrightarrow> bits ! l)"
  using assms(1)
proof (induction k)
  case 0
  then show ?case by simp
next
  case (Suc k)
  then obtain bits r where IH: "foldM (pick_step used) [0..<k] (replicate MAX_RBG False, nof) = Some (bits, r)"
     "length bits = MAX_RBG" "\<forall>n < MAX_RBG. bits ! n \<longrightarrow> n < k \<and> \<not> used ! n"
     "unat r + card {n. n < k \<and> bits ! n} = unat nof" "0 < r \<longrightarrow> (\<forall>n < k. \<not> used ! n \<longrightarrow> bits ! n)"
     "\<forall>n < k. \<forall>l < n. bits ! n \<longrightarrow> \<not> used ! l \<longrightarrow> bits ! l"
    by auto
  have k: "k < MAX_RBG" using Suc.prems by simp
  then have nk: "\<not> bits ! k" using IH(3) by auto
  show ?case
  proof (cases "0 < r")
    case False
    then have "foldM (pick_step used) [0..<Suc k] (replicate MAX_RBG False, nof) = Some (bits, r)"
      using IH(1) by (simp add: foldM_append pick_step_def)
    moreover have "{n. n < Suc k \<and> bits ! n} = {n. n < k \<and> bits ! n}" using nk by (auto simp: less_Suc_eq)
    ultimately show ?thesis using IH False nk
      by (intro exI[of _ bits] exI[of _ r]) (auto simp: less_Suc_eq)
  next
    case True
    let ?bits = "bits[k := \<not> used ! k]" and ?r = "if used ! k then r else r - 1"
    have eq: "foldM (pick_step used) [0..<Suc k] (replicate MAX_RBG False, nof) = Some (?bits, ?r)"
      using IH(1,2) k True assms(2) by (simp add: foldM_append pick_step_def)
    have set: "{n. n < Suc k \<and> ?bits ! n} = {n. n < k \<and> bits ! n} \<union> (if used ! k then {} else {k})"
      using IH(2) k nk by (auto simp: less_Suc_eq nth_list_update)
    have "unat ?r + card {n. n < Suc k \<and> ?bits ! n} = unat nof"
      using IH(4) True unat_dec[OF True] unfolding set by (auto simp: card_insert_if)
    moreover have "\<forall>n < MAX_RBG. ?bits ! n \<longrightarrow> n < Suc k \<and> \<not> used ! n"
      using IH(2,3) k by (auto simp: nth_list_update)
    moreover have "0 < ?r \<longrightarrow> (\<forall>n < Suc k. \<not> used ! n \<longrightarrow> ?bits ! n)"
      using IH(2,5) k True by (auto simp: nth_list_update less_Suc_eq)
    moreover have "\<forall>n < Suc k. \<forall>l < n. ?bits ! n \<longrightarrow> \<not> used ! l \<longrightarrow> ?bits ! l"
    proof (intro allI impI)
      fix n l assume n: "n < Suc k" "l < n" "?bits ! n" "\<not> used ! l"
      then have "bits ! l"
        using IH(2,5,6) k True by (cases "n = k") (auto simp: nth_list_update)
      then show "?bits ! l" using n(1,2) by (simp add: nth_list_update)
    qed
    ultimately show ?thesis using eq IH(2) by (intro exI[of _ ?bits] exI[of _ ?r]) simp
  qed
qed

text \<open>The groups of a mask, by their number.\<close>

definition rbgs :: "dl_metric \<Rightarrow> u32 \<Rightarrow> nat set" where
  "rbgs m w = {n. n < unat (dm_total_rbg m) \<and> bit w (unat (dm_total_rbg m) - 1 - n)}"

definition free_rbgs :: "dl_metric \<Rightarrow> nat set" where
  "free_rbgs m = {n. n < unat (dm_total_rbg m) \<and> \<not> dm_used_rbg m ! n}"

lemma dl_new_allocation_spec:
  assumes "dl_inv m"
  obtains ok w where "dl_new_allocation nof m = Some (ok, w)" and "mask_set w \<inter> dl_used m = {}"
    and "rbgs m w \<subseteq> free_rbgs m" and "ok = (card (rbgs m w) = unat nof)"
    and "card (rbgs m w) = min (unat nof) (card (free_rbgs m))"
    and "\<And>n l. n \<in> rbgs m w \<Longrightarrow> l \<in> free_rbgs m \<Longrightarrow> l < n \<Longrightarrow> l \<in> rbgs m w"
    and "\<And>b. bit w b \<Longrightarrow> b < unat (dm_total_rbg m)"
proof -
  let ?T = "unat (dm_total_rbg m)"
  have T: "?T \<le> MAX_RBG" and len: "length (dm_used_rbg m) = MAX_RBG"
    using assms by (simp_all add: dl_inv_def)
  have mask: "dm_used_rbg m ! n = bit (dm_used_rbg_mask m) (?T - 1 - n)" if "n < ?T" for n
    using assms that by (simp add: dl_inv_def)
  obtain bits r where p: "foldM (pick_step (dm_used_rbg m)) [0..<?T] (replicate MAX_RBG False, nof) = Some (bits, r)"
     "length bits = MAX_RBG" "\<forall>n < MAX_RBG. bits ! n \<longrightarrow> n < ?T \<and> \<not> dm_used_rbg m ! n"
     "unat r + card {n. n < ?T \<and> bits ! n} = unat nof"
     "0 < r \<longrightarrow> (\<forall>n < ?T. \<not> dm_used_rbg m ! n \<longrightarrow> bits ! n)"
     "\<forall>n < ?T. \<forall>l < n. bits ! n \<longrightarrow> \<not> dm_used_rbg m ! l \<longrightarrow> bits ! l"
    using pick_prefix[OF T len, of nof] by blast
  obtain w where w: "calc_rbg_mask (dm_total_rbg m) bits = Some w"
     "\<And>b. bit w b \<longleftrightarrow> (\<exists>n < ?T. bits ! n \<and> b = ?T - 1 - n)"
    using calc_rbg_mask_spec[of "dm_total_rbg m" bits] T p(2) by (auto simp: MAX_RBG_def)
  have r: "rbgs m w = {n. n < ?T \<and> bits ! n}"
  proof -
    have "bit w (?T - 1 - n) \<longleftrightarrow> bits ! n" if "n < ?T" for n
    proof -
      have "?T - 1 - n = ?T - 1 - l \<longleftrightarrow> l = n" if "l < ?T" for l using that \<open>n < ?T\<close> by arith
      then show ?thesis using that w(2)[of "?T - 1 - n"] by auto
    qed
    then show ?thesis by (auto simp: rbgs_def)
  qed
  have sub: "rbgs m w \<subseteq> free_rbgs m" using p(3) T by (auto simp: r free_rbgs_def)
  have fin: "finite (free_rbgs m)" by (simp add: free_rbgs_def)
  show ?thesis
  proof (rule that[of "r = 0" w])
    show "dl_new_allocation nof m = Some (r = 0, w)"
      using p(1) w(1) by (simp add: dl_new_allocation_def)
    show "mask_set w \<inter> dl_used m = {}"
    proof -
      have "\<not> bit (dm_used_rbg_mask m) (?T - 1 - n)" if "n < ?T" "bits ! n" for n
        using p(3) T mask[OF that(1)] that order.strict_trans2[OF that(1) T] by blast
      then show ?thesis by (auto simp: dl_used_def mask_set_def w(2))
    qed
    show "rbgs m w \<subseteq> free_rbgs m" by (rule sub)
    show "(r = 0) = (card (rbgs m w) = unat nof)" using p(4) by (auto simp: r unat_eq_0)
    show "card (rbgs m w) = min (unat nof) (card (free_rbgs m))"
    proof (cases "r = 0")
      case True
      then show ?thesis using p(4) card_mono[OF fin sub] by (simp add: r)
    next
      case False
      then have "rbgs m w = free_rbgs m"
        using p(5) sub by (auto simp: r free_rbgs_def word_neq_0_conv)
      then show ?thesis using p(4) by (simp add: r)
    qed
    show "\<And>n l. n \<in> rbgs m w \<Longrightarrow> l \<in> free_rbgs m \<Longrightarrow> l < n \<Longrightarrow> l \<in> rbgs m w"
      using p(6) by (auto simp: r free_rbgs_def)
    show "\<And>b. bit w b \<Longrightarrow> b < ?T" using w(2) by auto
  qed
qed

lemma dl_new_allocation_disjoint:
  assumes "dl_inv m" and "dl_new_allocation nof m = Some (ok, w)"
  shows "mask_set w \<inter> dl_used m = {}"
  by (rule dl_new_allocation_spec[OF assms(1), of nof]) (use assms(2) in simp)

section \<open>The contract of a downlink step\<close>

definition dl_res :: "sched_ue \<Rightarrow> nat \<Rightarrow> nat set" where
  "dl_res u i = mask_set (get_rbgmask (su_dl_harq u i))"

lemma dl_res_set [simp]: "dl_res (upd_dl_harq i (set_rbgmask w) u) i = mask_set w"
  by (simp add: dl_res_def upd_dl_harq_def set_rbgmask_def get_rbgmask_def)

definition dl_step_ok :: "dl_metric \<Rightarrow> nat option \<Rightarrow> dl_metric \<Rightarrow> sched_ue \<Rightarrow> bool" where
  "dl_step_ok m h m' u' \<longleftrightarrow> dl_inv m' \<and> dl_used m \<subseteq> dl_used m' \<and> dm_total_rbg m' = dm_total_rbg m \<and>
     dm_nof_ctrl_symbols m' = dm_nof_ctrl_symbols m \<and>
     (\<forall>k. h = Some k \<longrightarrow> dl_res u' k \<inter> dl_used m = {} \<and> dl_res u' k \<subseteq> dl_used m')"

lemma dl_step_update:
  assumes "dl_inv m" and "dl_update_allocation w m = Some m'" and "mask_set w \<inter> dl_used m = {}"
    and "dl_res u' i = mask_set w"
  shows "dl_step_ok m (Some i) m' u'"
proof (rule dl_update_spec[OF assms(1), of w])
  fix n assume "dl_update_allocation w m = Some n" "dl_inv n" "dl_used n = dl_used m \<union> mask_set w"
    "dm_total_rbg n = dm_total_rbg m" "dm_nof_ctrl_symbols n = dm_nof_ctrl_symbols m"
  then show ?thesis using assms by (simp add: dl_step_ok_def)
qed

lemma dl_apply_retx_ok:
  assumes "dl_apply_retx i m u = Some (Some (k, m', u'))" and "dl_inv m"
  shows "dl_step_ok m (Some k) m' u'"
proof (cases "dl_allocation_is_valid (get_rbgmask (su_dl_harq u i)) m")
  case False
  then have "mask_set (get_rbgmask (su_dl_harq u i)) \<inter> dl_used m = {}"
    by (simp add: dl_allocation_is_valid_def dl_used_def mask_disjoint)
  then show ?thesis
    using assms False by (auto simp: dl_apply_retx_def Let_def bind_eq_Some_conv dl_res_def
        intro: dl_step_update)
next
  case True
  let ?nof = "count_rbg (get_rbgmask (su_dl_harq u i))"
  have lt: "?nof < dm_available_rbg m" using assms(1) True by (simp add: dl_apply_retx_def Let_def split: if_splits)
  obtain ok w where n: "dl_new_allocation ?nof m = Some (ok, w)"
    by (rule dl_new_allocation_spec[OF assms(2), of ?nof])
  have ok
    using assms(1) True lt n by (simp add: dl_apply_retx_def split: if_splits)
  with n have a1: "dl_new_allocation ?nof m = Some (True, w)" by simp
  from assms(1) True lt a1 have a: "dl_update_allocation w m = Some m'" "k = i" "u' = upd_dl_harq i (set_rbgmask w) u"
    by (auto simp: dl_apply_retx_def bind_eq_Some_conv)
  note a = a1 a
  have "mask_set w \<inter> dl_used m = {}" by (rule dl_new_allocation_disjoint[OF assms(2) a(1)])
  then have "dl_step_ok m (Some i) m' u'"
    by (intro dl_step_update[OF assms(2) a(2)]) (simp_all add: a(4))
  then show ?thesis using a(3) by simp
qed

lemma dl_step_ok_idle: "dl_inv m \<Longrightarrow> dl_step_ok m None m u"
  by (simp add: dl_step_ok_def)

lemma dl_apply_newtx_ok:
  assumes "dl_apply_newtx E m u = Some (h, m', u')" and "dl_inv m"
  shows "dl_step_ok m h m' u'"
proof (cases h)
  case None
  then have "m' = m"
    using assms(1) by (auto simp: dl_apply_newtx_def Let_def bind_eq_Some_conv split: option.splits if_splits)
  then show ?thesis using None assms(2) by (simp add: dl_step_ok_idle)
next
  case (Some i)
  then obtain nof ok w where a: "dl_new_allocation nof m = Some (ok, w)"
      "dl_update_allocation w m = Some m'" "u' = upd_dl_harq i (set_rbgmask w) u"
    using assms(1) by (auto simp: dl_apply_newtx_def Let_def bind_eq_Some_conv split: option.splits if_splits)
  have "mask_set w \<inter> dl_used m = {}" by (rule dl_new_allocation_disjoint[OF assms(2) a(1)])
  then have "dl_step_ok m (Some i) m' u'"
    by (intro dl_step_update[OF assms(2) a(2)]) (simp_all add: a(3))
  then show ?thesis using Some by simp
qed

lemma dl_apply_ok:
  assumes "dl_apply_user_allocation E m u = Some (h, m', u')" and "dl_inv m"
  shows "dl_step_ok m h m' u'"
proof -
  obtain retx where r: "(case get_pending_dl_harq E (dm_current_tti m) u of
                None \<Rightarrow> Some None | Some i \<Rightarrow> dl_apply_retx i m u) = Some retx"
    and c: "(case retx of Some (i, m, u) \<Rightarrow> Some (Some i, m, u) | None \<Rightarrow> dl_apply_newtx E m u) = Some (h, m', u')"
    using assms(1) by (auto simp: dl_apply_user_allocation_def bind_eq_Some_conv)
  show ?thesis
  proof (cases retx)
    case None
    then show ?thesis using c dl_apply_newtx_ok[OF _ assms(2)] by simp
  next
    case (Some x)
    then obtain k where x: "x = (k, m', u')" "h = Some k" using c by (cases x) auto
    then obtain i where "dl_apply_retx i m u = Some (Some (k, m', u'))"
      using r Some by (auto split: option.splits)
    from dl_apply_retx_ok[OF this assms(2)] show ?thesis using x(2) by simp
  qed
qed

interpretation dlp: grant_pool dl_inv dl_used "dl_apply_user_allocation E" mark_dl su_dl_next_alloc dl_res
  for E
proof unfold_locales
  show "dl_res (mark_dl h u) = dl_res u" for h u by (simp add: mark_dl_def dl_res_def fun_eq_iff)
qed (auto simp: mark_dl_def dest!: dl_apply_ok simp: dl_step_ok_def)

text \<open>The same contract among the metrics of a round with \<open>c\<close> control symbols.\<close>

interpretation dlc: grant_pool "\<lambda>m. dl_inv m \<and> dm_nof_ctrl_symbols m = c" dl_used "dl_apply_user_allocation E"
    mark_dl su_dl_next_alloc dl_res
  for E c
proof unfold_locales
  show "dl_res (mark_dl h u) = dl_res u" for h u by (simp add: mark_dl_def dl_res_def fun_eq_iff)
qed (auto simp: mark_dl_def dest!: dl_apply_ok simp: dl_step_ok_def)

section \<open>A whole TTI\<close>

lemma dl_metric_start_spec:
  assumes "length (dm_used_rbg m) = MAX_RBG" and "unat (start_rbg + nof_rbg) \<le> MAX_RBG"
  obtains m' where "dl_metric_start start_rbg nof_rbg c tti m = Some m'" and "dl_inv m'"
    and "dm_total_rbg m' = start_rbg + nof_rbg"
    and "\<And>n. n < unat (start_rbg + nof_rbg) \<Longrightarrow> n < unat start_rbg \<Longrightarrow>
           unat (start_rbg + nof_rbg) - 1 - n \<in> dl_used m'"
    and "dm_nof_ctrl_symbols m' = c"
proof -
  let ?T = "unat (start_rbg + nof_rbg)"
  let ?rbg = "map (\<lambda>n. if n < ?T then n < unat start_rbg else dm_used_rbg m ! n) [0..<length (dm_used_rbg m)]"
  have len: "?T \<le> length (dm_used_rbg m)" "length ?rbg = MAX_RBG" using assms by simp_all
  have T: "?T \<le> length ?rbg" "?T \<le> 32" using assms by (simp_all add: MAX_RBG_def)
  obtain w where w: "calc_rbg_mask (start_rbg + nof_rbg) ?rbg = Some w"
      "\<And>b. bit w b \<longleftrightarrow> (\<exists>n < ?T. ?rbg ! n \<and> b = ?T - 1 - n)"
    by (rule calc_rbg_mask_spec[OF T]) blast
  have bits: "bit w (?T - 1 - n) \<longleftrightarrow> n < unat start_rbg" if "n < ?T" for n
  proof -
    have "?T - 1 - n = ?T - 1 - l \<longleftrightarrow> l = n" if "l < ?T" for l using that \<open>n < ?T\<close> by arith
    then have "bit w (?T - 1 - n) \<longleftrightarrow> ?rbg ! n" using that w(2)[of "?T - 1 - n"] by auto
    then show ?thesis using that len(1) by simp
  qed
  let ?m = "m\<lparr>dm_total_rbg := start_rbg + nof_rbg, dm_used_rbg := ?rbg, dm_available_rbg := nof_rbg,
     dm_used_rbg_mask := w, dm_current_tti := tti, dm_nof_ctrl_symbols := c\<rparr>"
  have "dl_metric_start start_rbg nof_rbg c tti m = Some ?m"
    using fold_wr_all[OF len(1), of "\<lambda>n. n < unat start_rbg"] w(1)
    by (simp add: dl_metric_start_def Let_def)
  moreover have "dl_inv ?m" using assms(2) len bits by (simp add: dl_inv_def)
  moreover have "?T - 1 - n \<in> dl_used ?m" if "n < ?T" "n < unat start_rbg" for n
    using bits[OF that(1)] that(2) by (simp add: dl_used_def mask_set_def)
  ultimately show ?thesis using that by simp
qed

lemma rr_positions:
  assumes "0 < n"
  shows "distinct (rr_visit n n (t mod n))" and "set (rr_visit n n (t mod n)) = {..<n}"
  using assms by (simp_all add: rr_visit_distinct rr_visit_set)

text \<open>C3: the downlink grants of a TTI are pairwise disjoint: after \<open>new_tti\<close> no two users hold
  HARQ processes whose resource block group masks share a group, and no grant touches the groups
  below \<open>start_rbg\<close>, which broadcast and random access responses already occupy.\<close>

theorem dl_grants_disjoint:
  assumes "dl_new_tti E start_rbg nof_rbg c tti (m, db) = Some (m', db')"
    and "length (dm_used_rbg m) = MAX_RBG" and "unat (start_rbg + nof_rbg) \<le> MAX_RBG"
    and "i < length db" and "su_dl_next_alloc (snd (db' ! i)) = Some h"
  shows "(\<forall>j k. j < length db \<and> j \<noteq> i \<and> su_dl_next_alloc (snd (db' ! j)) = Some k \<longrightarrow>
      get_rbgmask (su_dl_harq (snd (db' ! i)) h) AND get_rbgmask (su_dl_harq (snd (db' ! j)) k) = 0) \<and>
    (\<forall>n. n < unat (start_rbg + nof_rbg) \<and> n < unat start_rbg \<longrightarrow>
      \<not> bit (get_rbgmask (su_dl_harq (snd (db' ! i)) h)) (unat (start_rbg + nof_rbg) - 1 - n))"
proof -
  obtain m0 where s: "dl_metric_start start_rbg nof_rbg c tti m = Some m0" "dl_inv m0"
      "\<And>n. n < unat (start_rbg + nof_rbg) \<Longrightarrow> n < unat start_rbg \<Longrightarrow>
           unat (start_rbg + nof_rbg) - 1 - n \<in> dl_used m0"
    by (rule dl_metric_start_spec[OF assms(2,3)]) blast
  let ?is = "rr_visit (length db) (length db) (unat tti mod length db)"
  have n: "0 < length db" using assms(4) by auto
  have f: "foldM (rr_body (dl_apply_user_allocation E) mark_dl) ?is (m0, db) = Some (m', db')"
    using assms(1) s(1) n by (simp add: dl_new_tti_def)
  have "dlp.pool (dl_used m0) m' db' {..<length db}"
    using dlp.first_pass[OF f dlp.pool_empty[OF s(2)]] rr_positions[OF n] by simp
  then have p: "\<forall>j k. j < length db \<and> j \<noteq> i \<and> su_dl_next_alloc (snd (db' ! j)) = Some k \<longrightarrow>
      dl_res (snd (db' ! i)) h \<inter> dl_res (snd (db' ! j)) k = {}"
    and o: "dl_res (snd (db' ! i)) h \<inter> dl_used m0 = {}"
    using assms(4,5) by (auto simp: dlp.pool_def)
  have "\<not> bit (get_rbgmask (su_dl_harq (snd (db' ! i)) h)) (unat (start_rbg + nof_rbg) - 1 - n)"
    if "n < unat (start_rbg + nof_rbg)" "n < unat start_rbg" for n
    using s(3)[OF that] o by (auto simp: dl_res_def mask_set_def)
  then show ?thesis using p by (simp add: dl_res_def mask_disjoint)
qed

text \<open>
  The sizes of a user's blocks are defined: the user has a fixed scheme, or \<open>max_mcs\<close> fits an \<open>int\<close> and
  scheme 0 passes the limit on the effective code rate with any number of blocks of the cell.
\<close>

definition sizes_defined :: "srslte \<Rightarrow> u32 \<Rightarrow> sched_ue \<Rightarrow> bool" where
  "sizes_defined E c u \<longleftrightarrow> 0 \<le> su_fixed_mcs_dl u \<or> su_max_mcs_dl u < 2 ^ 31 - 1 \<and>
     (\<forall>n \<in> {1..unat (cl_nof_prb (su_cell u))}.
        scheme_0_fits E (of_nat n) (dl_approx_nof_re E (su_cell u) (of_nat n) c))"

lemma sizes_defined_tbs:
  assumes "sizes_defined E c u" and "n < unat (cl_nof_prb (su_cell u))"
  shows "dl_tbs_for E u c (Suc n) \<noteq> None"
proof (cases "0 \<le> su_fixed_mcs_dl u")
  case False
  then have "scheme_0_fits E (of_nat (Suc n)) (dl_approx_nof_re E (su_cell u) (of_nat (Suc n)) c)"
    and m: "su_max_mcs_dl u < 2 ^ 31 - 1"
    using assms by (simp_all add: sizes_defined_def del: of_nat_Suc)
  from alloc_tbs_dl_defined[OF this] show ?thesis
    by (simp add: dl_tbs_for_def Let_def del: of_nat_Suc)
qed (simp add: dl_tbs_for_def Let_def)

lemma required_prb_dl_loop_some:
  assumes "sizes_defined E c u"
  shows "required_prb_dl_loop E u req c n nb \<noteq> None"
proof (induction "unat (cl_nof_prb (su_cell u)) - n" arbitrary: n nb)
  case 0
  then show ?case by (subst required_prb_dl_loop.simps) simp
next
  case (Suc d)
  have "d = unat (cl_nof_prb (su_cell u)) - Suc n" using Suc.hyps(2) by simp
  note IH = Suc.hyps(1)[OF this]
  show ?case
    using IH sizes_defined_tbs[OF assms, of n] by (subst required_prb_dl_loop.simps) (auto split: option.splits)
qed

lemma required_prb_dl_defined: "sizes_defined E c u \<Longrightarrow> \<exists>n. get_required_prb_dl E req c u = Some n"
  using required_prb_dl_loop_some[of E c u req 0 0] by (auto simp: get_required_prb_dl_def)

lemma sizes_defined_frame [simp]:
  "sizes_defined E c (upd_dl_harq i f u) = sizes_defined E c u"
  "sizes_defined E c (mark_dl h u) = sizes_defined E c u"
  by (simp_all add: sizes_defined_def upd_dl_harq_def mark_dl_def)

lemma dl_apply_newtx_total:
  assumes "sizes_defined E (dm_nof_ctrl_symbols m) u" and "dl_inv m"
  shows "\<exists>h m' u'. dl_apply_newtx E m u = Some (h, m', u') \<and> (\<forall>c. sizes_defined E c u' = sizes_defined E c u)"
proof -
  obtain n where n: "get_required_prb_dl E (get_pending_dl_new_data_total E u) (dm_nof_ctrl_symbols m) u = Some n"
    using required_prb_dl_defined[OF assms(1)] by blast
  obtain ok w where w: "dl_new_allocation (prb_to_rbg n u) m = Some (ok, w)"
    by (rule dl_new_allocation_spec[OF assms(2), of "prb_to_rbg n u"])
  obtain m' where "dl_update_allocation w m = Some m'" by (rule dl_update_spec[OF assms(2), of w])
  then show ?thesis using n w by (simp add: dl_apply_newtx_def Let_def split: option.splits)
qed

lemma dl_apply_retx_total:
  assumes "dl_inv m"
  shows "\<exists>r. dl_apply_retx i m u = Some r \<and> (\<forall>k m' u'. r = Some (k, m', u') \<longrightarrow> (\<forall>c. sizes_defined E c u' = sizes_defined E c u))"
proof -
  let ?w = "get_rbgmask (su_dl_harq u i)"
  obtain m1 where m1: "dl_update_allocation ?w m = Some m1" by (rule dl_update_spec[OF assms, of ?w])
  obtain ok w where w: "dl_new_allocation (count_rbg ?w) m = Some (ok, w)"
    by (rule dl_new_allocation_spec[OF assms, of "count_rbg ?w"])
  obtain m2 where "dl_update_allocation w m = Some m2" by (rule dl_update_spec[OF assms, of w])
  then show ?thesis using m1 w by (simp add: dl_apply_retx_def Let_def)
qed

lemma dl_apply_total:
  assumes "sizes_defined E (dm_nof_ctrl_symbols m) u" and "dl_inv m"
  shows "\<exists>h m' u'. dl_apply_user_allocation E m u = Some (h, m', u') \<and> (\<forall>c. sizes_defined E c u' = sizes_defined E c u)"
proof (cases "get_pending_dl_harq E (dm_current_tti m) u")
  case None
  then show ?thesis using dl_apply_newtx_total[OF assms] by (simp add: dl_apply_user_allocation_def)
next
  case (Some i)
  obtain r where r: "dl_apply_retx i m u = Some r" "\<forall>k m' u'. r = Some (k, m', u') \<longrightarrow> (\<forall>c. sizes_defined E c u' = sizes_defined E c u)"
    using dl_apply_retx_total[OF assms(2)] by blast
  show ?thesis
  proof (cases r)
    case None
    then show ?thesis using Some r(1) dl_apply_newtx_total[OF assms] by (simp add: dl_apply_user_allocation_def)
  next
    case (Some x)
    then show ?thesis using \<open>get_pending_dl_harq E (dm_current_tti m) u = Some i\<close> r
      by (cases x) (simp add: dl_apply_user_allocation_def)
  qed
qed

text \<open>C35: the downlink round returns and stays inside its arrays: the groups of the round fit \<open>MAX_RBG\<close>,
  and for every user the transport block sizes are defined with the round's control symbols (the user has
  a fixed scheme, or scheme 0 passes the limit of 0.93 on the effective code rate with any number of blocks
  of the cell, which ends the loop that chooses the scheme). The round keeps the users and their order,
  holds back its array and leaves the sizes defined for the next round.\<close>

theorem dl_new_tti_returns:
  assumes "\<forall>p \<in> set db. sizes_defined E c (snd p)"
    and "length (dm_used_rbg m) = MAX_RBG" and "unat (start_rbg + nof_rbg) \<le> MAX_RBG"
  shows "\<exists>m' db'. dl_new_tti E start_rbg nof_rbg c tti (m, db) = Some (m', db') \<and>
     map fst db' = map fst db \<and> length (dm_used_rbg m') = MAX_RBG \<and> (\<forall>p \<in> set db'. sizes_defined E c (snd p))"
proof -
  let ?inv = "\<lambda>m. dl_inv m \<and> dm_nof_ctrl_symbols m = c"
  obtain m0 where s: "dl_metric_start start_rbg nof_rbg c tti m = Some m0" "?inv m0"
    by (rule dl_metric_start_spec[OF assms(2,3)]) blast
  show ?thesis
  proof (cases "length db = 0")
    case True
    then show ?thesis using s assms(1) by (simp add: dl_new_tti_def dl_inv_def)
  next
    case False
    then have n: "0 < length db" by simp
    have "\<exists>m' db'. foldM (rr_body (dl_apply_user_allocation E) mark_dl)
        (rr_visit (length db) (length db) (unat tti mod length db)) (m0, db) = Some (m', db') \<and> ?inv m' \<and>
        map fst db' = map fst db \<and> (\<forall>p \<in> set db'. sizes_defined E c (snd p))"
    proof (rule dlc.pass_total_keeps[where P = "sizes_defined E c"])
      fix n u assume n: "?inv n" and u: "sizes_defined E c u"
      then obtain h n' u' where a: "dl_apply_user_allocation E n u = Some (h, n', u')"
          "sizes_defined E c u' = sizes_defined E c u"
        using dl_apply_total[of E n u] by auto
      then show "\<exists>h n' u'. dl_apply_user_allocation E n u = Some (h, n', u') \<and> ?inv n' \<and>
          sizes_defined E c (mark_dl h u')"
        using dlc.step_inv[OF n a(1)] u by auto
    qed (use s(2) assms(1) rr_positions[OF n, of "unat tti"] in auto)
    then show ?thesis using s(1) n by (auto simp: dl_new_tti_def dl_inv_def)
  qed
qed

text \<open>\<open>new_allocation\<close> takes free groups only, the lowest free ones, exactly as many as
  requested or all of them, and reports whether it got the requested number.\<close>

theorem dl_new_allocation_takes_lowest_free:
  assumes "dl_inv m"
  shows "\<exists>ok w. dl_new_allocation nof m = Some (ok, w) \<and> rbgs m w \<subseteq> free_rbgs m \<and>
     card (rbgs m w) = min (unat nof) (card (free_rbgs m)) \<and> (ok \<longleftrightarrow> card (rbgs m w) = unat nof) \<and>
     (\<forall>n l. n \<in> rbgs m w \<and> l \<in> free_rbgs m \<and> l < n \<longrightarrow> l \<in> rbgs m w)"
  by (rule dl_new_allocation_spec[OF assms, of nof]) blast

section \<open>Examples\<close>

definition dl_metric_zero :: dl_metric where
  "dl_metric_zero = \<lparr>dm_used_rbg = replicate MAX_RBG False, dm_current_tti = 0, dm_total_rbg = 0,
     dm_used_rbg_mask = 0, dm_nof_ctrl_symbols = 0, dm_available_rbg = 0\<rparr>"

theorem dl_new_tti_returns_witness:
  "\<exists>m' db'. dl_new_tti demo_lib 2 11 3 7 (dl_metric_zero, [(70, demo_ue), (71, demo_adaptive_ue)]) = Some (m', db') \<and>
     map fst db' = [70, 71]"
proof -
  have "scheme_0_fits demo_lib (of_nat n) (dl_approx_nof_re demo_lib demo_cell (of_nat n) 3)"
    if "n \<in> {1..25}" for n
  proof -
    have "{1..25} = set [1..<26 :: nat]" by auto
    then have "\<forall>n \<in> {1..25}. scheme_0_fits demo_lib (of_nat n) (dl_approx_nof_re demo_lib demo_cell (of_nat n) 3)"
      by (simp add: upt_rec scheme_0_fits_def mcs_coderate_def mcs_bits_def demo_lib_def del: set_upt)
    then show ?thesis using that by blast
  qed
  then have "\<forall>p \<in> set [(70 :: u16, demo_ue), (71, demo_adaptive_ue)]. sizes_defined demo_lib 3 (snd p)"
    by (simp add: sizes_defined_def demo_adaptive_ue_def demo_ue_def demo_cell_def)
  from dl_new_tti_returns[OF this, where m = dl_metric_zero and start_rbg = 2 and nof_rbg = 11 and tti = 7]
  show ?thesis by (auto simp: dl_metric_zero_def MAX_RBG_def)
qed

lemma dl_metric_zero_inv: "dl_inv dl_metric_zero"
  by (simp add: dl_inv_def dl_metric_zero_def)

theorem dl_new_allocation_takes_lowest_free_witness:
  "\<exists>ok w. dl_new_allocation 3 dl_metric_zero = Some (ok, w) \<and> card (rbgs dl_metric_zero w) = 0 \<and> \<not> ok"
  using dl_new_allocation_takes_lowest_free[OF dl_metric_zero_inv, of 3]
  by (auto simp: free_rbgs_def dl_metric_zero_def)

text \<open>Two users with refused blocks on process 5, and the round that resends both.\<close>

definition demo_retx_ue :: "u32 \<Rightarrow> sched_ue" where
  "demo_retx_ue w = upd_dl_harq 5 (set_rbgmask w) (upd_dl_harq 5 (set_ack 0 False)
     (upd_dl_harq 5 (dl_new_tx 0 3 4 16 0) (upd_dl_harq 5 (set_max_retx 4) demo_ue)))"

lemma demo_retx_pending: "harq_pending demo_lib 20 (su_dl_harq (demo_retx_ue w) j) \<longleftrightarrow> j = 5"
  by (simp add: demo_retx_ue_def harq_pending_def dl_has_pending_retx_def upd_dl_harq_def demo_ue_def
      harq_zero_def dl_new_tx_def harq_defs demo_lib_def set_rbgmask_def)

lemma demo_retx_get: "get_pending_dl_harq demo_lib 20 (demo_retx_ue w) = Some 5"
  by (simp add: get_pending_dl_harq_def SCHED_MAX_HARQ_PROC_def upt_rec oldest_step_def demo_retx_pending)
    (simp add: demo_retx_ue_def upd_dl_harq_def dl_new_tx_def harq_defs demo_lib_def set_rbgmask_def)

lemma demo_retx_mask: "get_rbgmask (su_dl_harq (demo_retx_ue w) 5) = w"
  by (simp add: demo_retx_ue_def upd_dl_harq_def set_rbgmask_def get_rbgmask_def)

definition demo_round :: "bool list \<Rightarrow> u32 \<Rightarrow> dl_metric" where
  "demo_round used w = \<lparr>dm_used_rbg = used @ replicate 23 False, dm_current_tti = 20, dm_total_rbg = 2,
     dm_used_rbg_mask = w, dm_nof_ctrl_symbols = 3, dm_available_rbg = 2\<rparr>"

lemma upt_2: "[0..<2] = [0, 1 :: nat]"
  by (simp add: upt_rec)

lemma demo_round_start: "dl_metric_start 0 2 3 20 dl_metric_zero = Some (demo_round [False, False] 0)"
  by (simp add: dl_metric_start_def calc_rbg_mask_def upt_2 dl_metric_zero_def MAX_RBG_def
      demo_round_def Let_def)
    (simp add: numeral_eq_Suc)

lemma demo_round_update:
  "dl_update_allocation 1 (demo_round [False, False] 0) = Some (demo_round [False, True] 1)"
  "dl_update_allocation 2 (demo_round [False, True] 1) = Some (demo_round [True, True] 3)"
  by (simp_all add: dl_update_allocation_def upt_2 demo_round_def bit_numeral_rec Let_def)

lemma demo_round_apply:
  assumes "w AND v = 0" and "dl_update_allocation w (demo_round used v) = Some m'"
  shows "dl_apply_user_allocation demo_lib (demo_round used v) (demo_retx_ue w) =
     Some (Some 5, m', demo_retx_ue w)"
proof -
  have "dm_current_tti (demo_round used v) = 20" "dm_used_rbg_mask (demo_round used v) = v"
    by (simp_all add: demo_round_def)
  then show ?thesis
    using assms by (simp add: dl_apply_user_allocation_def demo_retx_get dl_apply_retx_def
        demo_retx_mask dl_allocation_is_valid_def)
qed

lemma demo_retx_round:
  "dl_new_tti demo_lib 0 2 3 20 (dl_metric_zero, [(70, demo_retx_ue 1), (71, demo_retx_ue 2)]) =
     Some (demo_round [True, True] 3,
       [(70, mark_dl (Some 5) (demo_retx_ue 1)), (71, mark_dl (Some 5) (demo_retx_ue 2))])"
proof -
  let ?db = "[(70, demo_retx_ue 1), (71, demo_retx_ue 2)] :: (u16, sched_ue) omap"
  have len: "length ?db = 2" by simp
  have v: "rr_visit (length ?db) (length ?db) (unat (20 :: u32) mod length ?db) = [0, 1]"
    unfolding len by (simp add: rr_visit_rotation upt_2)
  have a: "dl_apply_user_allocation demo_lib (demo_round [False, False] 0) (demo_retx_ue 1) =
      Some (Some 5, demo_round [False, True] 1, demo_retx_ue 1)"
    "dl_apply_user_allocation demo_lib (demo_round [False, True] 1) (demo_retx_ue 2) =
      Some (Some 5, demo_round [True, True] 3, demo_retx_ue 2)"
    by (rule demo_round_apply[OF _ demo_round_update(1)], simp)
      (rule demo_round_apply[OF _ demo_round_update(2)], simp)
  have "foldM (rr_body (dl_apply_user_allocation demo_lib) mark_dl) [0, 1] (demo_round [False, False] 0, ?db) =
     Some (demo_round [True, True] 3,
       [(70, mark_dl (Some 5) (demo_retx_ue 1)), (71, mark_dl (Some 5) (demo_retx_ue 2))])"
    by (simp add: rr_body_def a)
  then show ?thesis unfolding dl_new_tti_def snd_conv fst_conv demo_round_start Let_def v by simp
qed

theorem dl_grants_disjoint_witness:
  "\<exists>m' db'. dl_new_tti demo_lib 0 2 3 20 (dl_metric_zero, [(70, demo_retx_ue 1), (71, demo_retx_ue 2)]) =
     Some (m', db') \<and> su_dl_next_alloc (snd (db' ! 0)) = Some 5 \<and> su_dl_next_alloc (snd (db' ! 1)) = Some 5 \<and>
     get_rbgmask (su_dl_harq (snd (db' ! 0)) 5) AND get_rbgmask (su_dl_harq (snd (db' ! 1)) 5) = 0"
proof -
  let ?db' = "[(70, mark_dl (Some 5) (demo_retx_ue 1)), (71, mark_dl (Some 5) (demo_retx_ue 2))]
    :: (u16, sched_ue) omap"
  obtain m' where r: "dl_new_tti demo_lib 0 2 3 20 (dl_metric_zero, [(70, demo_retx_ue 1), (71, demo_retx_ue 2)]) =
     Some (m', ?db')"
    using demo_retx_round by blast
  have n: "su_dl_next_alloc (snd (?db' ! 0)) = Some 5" "su_dl_next_alloc (snd (?db' ! 1)) = Some 5"
    by (simp_all add: mark_dl_def)
  have "length (dm_used_rbg dl_metric_zero) = MAX_RBG" "unat (0 + 2 :: u32) \<le> MAX_RBG"
    "0 < length [(70 :: u16, demo_retx_ue 1), (71, demo_retx_ue 2)]"
    by (simp_all add: dl_metric_zero_def MAX_RBG_def)
  from conjunct1[OF dl_grants_disjoint[OF r this n(1)], rule_format, of 1 5] n(2)
  have "get_rbgmask (su_dl_harq (snd (?db' ! 0)) 5) AND get_rbgmask (su_dl_harq (snd (?db' ! 1)) 5) = 0"
    by simp
  then show ?thesis using r n by blast
qed

end
