(* ===== verification/Metric_UL.thy ===== *)
theory Metric_UL
  imports Grant_Pool Sched_UE_Config
begin

text \<open>
  The uplink metric \<open>ul_metric_rr\<close> (\<open>scheduler_metric.h\<close>, \<open>scheduler_metric.cc\<close>): runs of
  resource blocks are handed out, first to retransmissions, then to new data in round-robin
  order. The array \<open>used_rb\<close> has \<open>MAX_PRB\<close> entries and is accessed through \<open>rd\<close> and
  \<open>wr\<close>.
\<close>

section \<open>State and operations\<close>

definition MAX_PRB :: nat where
  "MAX_PRB = 100"

record ul_metric =
  um_used_rb :: "bool list"
  um_current_tti :: u32
  um_nof_rb :: u32

abbreviation rb_run :: "ul_alloc \<Rightarrow> nat list" where
  "rb_run a \<equiv> [unat (ua_RB_start a)..<unat (ua_RB_start a + ua_L a)]"

definition ul_reset_allocation :: "u32 \<Rightarrow> ul_metric \<Rightarrow> ul_metric option" where
  "ul_reset_allocation nof_rb m = do {
     used \<leftarrow> foldM (\<lambda>n used. wr used n False) [0..<unat nof_rb] (um_used_rb m);
     Some (m\<lparr>um_nof_rb := nof_rb, um_used_rb := used\<rparr>)
   }"

fun all_free :: "bool list \<Rightarrow> nat list \<Rightarrow> bool option" where
  "all_free used [] = Some True"
| "all_free used (n # ns) = do { b \<leftarrow> rd used n; if b then Some False else all_free used ns }"

definition ul_allocation_is_valid :: "ul_alloc \<Rightarrow> ul_metric \<Rightarrow> bool option" where
  "ul_allocation_is_valid a m =
     (if um_nof_rb m < ua_RB_start a + ua_L a then Some False else all_free (um_used_rb m) (rb_run a))"

definition ul_update_allocation :: "ul_alloc \<Rightarrow> ul_metric \<Rightarrow> (bool \<times> ul_metric) option" where
  "ul_update_allocation a m = do {
     ret \<leftarrow> ul_allocation_is_valid a m;
     used \<leftarrow> foldM (\<lambda>n used. wr used n True) (rb_run a) (um_used_rb m);
     Some (ret, m\<lparr>um_used_rb := used\<rparr>)
   }"

text \<open>The search loop of \<open>new_allocation\<close> over the blocks, and the loop that shortens the run.\<close>

fun find_run :: "bool list \<Rightarrow> u32 \<Rightarrow> nat list \<Rightarrow> ul_alloc \<Rightarrow> ul_alloc option" where
  "find_run used L [] a = Some a"
| "find_run used L (n # ns) a =
     (if ua_L a < L then do {
        b \<leftarrow> rd used n;
        let a = (if \<not> b \<and> ua_L a = 0 then a\<lparr>ua_RB_start := of_nat n\<rparr> else a);
        (if \<not> b then find_run used L ns (a\<lparr>ua_L := ua_L a + 1\<rparr>)
         else if 0 < ua_L a
         then (if n < 3 then find_run used L ns (a\<lparr>ua_RB_start := 0, ua_L := 0\<rparr>) else Some a)
         else find_run used L ns a)
      } else Some a)"

partial_function (option) shorten_run :: "srslte \<Rightarrow> u32 \<Rightarrow> u32 option" where
  "shorten_run E L = (if valid_prb E L then Some L else shorten_run E (L - 1))"

definition ul_new_allocation :: "srslte \<Rightarrow> u32 \<Rightarrow> ul_metric \<Rightarrow> (bool \<times> ul_alloc) option" where
  "ul_new_allocation E L m = do {
     a \<leftarrow> find_run (um_used_rb m) L [0..<unat (um_nof_rb m)] \<lparr>ua_RB_start = 0, ua_L = 0\<rparr>;
     (if ua_L a = 0 then Some (False, a)
      else do {
        l \<leftarrow> shorten_run E (ua_L a);
        Some (l = L, a\<lparr>ua_L := l\<rparr>)
      })
   }"

definition allocate_user_retx_prbs ::
  "srslte \<Rightarrow> ul_metric \<Rightarrow> sched_ue \<Rightarrow> (nat option \<times> ul_metric \<times> sched_ue) option" where
  "allocate_user_retx_prbs E m u =
     (let i = get_ul_harq E (um_current_tti m);
          h = su_ul_harq u i
      in if \<not> is_empty h 0 then do {
           let alloc = get_alloc h;
           (ok, m) \<leftarrow> ul_update_allocation alloc m;
           (if ok then Some (Some i, m, u)
            else do {
              (found, alloc) \<leftarrow> ul_new_allocation E (ua_L alloc) m;
              (if found then do {
                 (_, m) \<leftarrow> ul_update_allocation alloc m;
                 Some (Some i, m, upd_ul_harq i (set_alloc alloc) u)
               } else Some (None, m, u))
            })
         } else Some (None, m, u))"

definition allocate_user_newtx_prbs ::
  "srslte \<Rightarrow> ul_metric \<Rightarrow> sched_ue \<Rightarrow> (nat option \<times> ul_metric \<times> sched_ue) option" where
  "allocate_user_newtx_prbs E m u =
     (let pending_data = get_pending_ul_new_data E (um_current_tti m) u;
          i = get_ul_harq E (um_current_tti m)
      in if is_empty (su_ul_harq u i) 0 \<and> pending_data \<noteq> 0 then do {
           pending_rb \<leftarrow> get_required_prb_ul E pending_data u;
           (_, alloc) \<leftarrow> ul_new_allocation E pending_rb m;
           (if ua_L alloc \<noteq> 0 then do {
              (_, m) \<leftarrow> ul_update_allocation alloc m;
              Some (Some i, m, upd_ul_harq i (set_alloc alloc) u)
            } else Some (None, m, u))
         } else Some (None, m, u))"

text \<open>The older one-pass version, which the class still has.\<close>

definition ul_apply_user_allocation ::
  "srslte \<Rightarrow> bool \<Rightarrow> ul_metric \<Rightarrow> sched_ue \<Rightarrow> (nat option \<times> ul_metric \<times> sched_ue) option" where
  "ul_apply_user_allocation E retx_only m u = do {
     let pending_data = get_pending_ul_new_data E (um_current_tti m) u;
     let i = get_ul_harq E (um_current_tti m);
     let h = su_ul_harq u i;
     retx \<leftarrow>
       (if \<not> is_empty h 0 then do {
          let alloc = get_alloc h;
          valid \<leftarrow> ul_allocation_is_valid alloc m;
          (if valid then do { (_, m) \<leftarrow> ul_update_allocation alloc m; Some (Some (m, u)) }
           else do {
             (found, alloc) \<leftarrow> ul_new_allocation E (ua_L alloc) m;
             (if found then do {
                (_, m) \<leftarrow> ul_update_allocation alloc m;
                Some (Some (m, upd_ul_harq i (set_alloc alloc) u))
              } else Some None)
           })
        } else Some None);
     (case retx of
        Some (m, u) \<Rightarrow> Some (Some i, m, u)
      | None \<Rightarrow>
          if \<not> retx_only \<and> is_empty h 0 \<and> pending_data \<noteq> 0 then do {
            pending_rb \<leftarrow> get_required_prb_ul E pending_data u;
            (_, alloc) \<leftarrow> ul_new_allocation E pending_rb m;
            (if ua_L alloc \<noteq> 0 then do {
               (_, m) \<leftarrow> ul_update_allocation alloc m;
               Some (Some i, m, upd_ul_harq i (set_alloc alloc) u)
             } else Some (None, m, u))
          } else Some (None, m, u))
   }"

definition mark_ul :: "nat option \<Rightarrow> sched_ue \<Rightarrow> sched_ue" where
  "mark_ul h u = u\<lparr>su_ul_next_alloc := h\<rparr>"

definition newtx_if_unserved ::
  "srslte \<Rightarrow> ul_metric \<Rightarrow> sched_ue \<Rightarrow> (nat option \<times> ul_metric \<times> sched_ue) option" where
  "newtx_if_unserved E m u =
     (if su_ul_next_alloc u = None then allocate_user_newtx_prbs E m u
      else Some (su_ul_next_alloc u, m, u))"

definition ul_new_tti ::
  "srslte \<Rightarrow> u32 \<Rightarrow> ul_metric \<times> (u16, sched_ue) omap \<Rightarrow> (ul_metric \<times> (u16, sched_ue) omap) option" where
  "ul_new_tti E tti s = do {
     let m = (fst s)\<lparr>um_current_tti := tti\<rparr>;
     let n = length (snd s);
     (if n = 0 then Some (m, snd s)
      else do {
        let db = map (\<lambda>p. (fst p, mark_ul None (snd p))) (snd s);
        let priority_idx = unat (tti + of_nat n div 2) mod n;
        s \<leftarrow> foldM (rr_body (allocate_user_retx_prbs E) mark_ul) (rr_visit n n 0) (m, db);
        foldM (rr_body (newtx_if_unserved E) mark_ul) (rr_visit n n priority_idx) s
      })
   }"

definition ul_get_user_allocation :: "sched_ue \<Rightarrow> nat option" where
  "ul_get_user_allocation u = su_ul_next_alloc u"

section \<open>Runs of resource blocks\<close>

definition ul_inv :: "ul_metric \<Rightarrow> bool" where
  "ul_inv m \<longleftrightarrow> length (um_used_rb m) = MAX_PRB \<and> unat (um_nof_rb m) \<le> MAX_PRB"

definition ul_used :: "ul_metric \<Rightarrow> nat set" where
  "ul_used m = {n. n < length (um_used_rb m) \<and> um_used_rb m ! n}"

definition run_set :: "ul_alloc \<Rightarrow> nat set" where
  "run_set a = set (rb_run a)"

text \<open>A run of free blocks that ends before block \<open>n\<close>.\<close>

definition free_run :: "bool list \<Rightarrow> nat \<Rightarrow> ul_alloc \<Rightarrow> bool" where
  "free_run used n a \<longleftrightarrow> unat (ua_RB_start a) + unat (ua_L a) \<le> n \<and>
     (\<forall>k. unat (ua_RB_start a) \<le> k \<longrightarrow> k < unat (ua_RB_start a) + unat (ua_L a) \<longrightarrow> \<not> used ! k)"

lemma unat_plus_small: "unat x + unat y \<le> 100 \<Longrightarrow> unat (x + y) = unat x + unat y" for x y :: u32
  by (simp add: unat_word_ariths)

lemma free_run_set:
  assumes "free_run used n a" and "n \<le> MAX_PRB"
  shows "run_set a = {unat (ua_RB_start a)..<unat (ua_RB_start a) + unat (ua_L a)}"
  using assms by (auto simp: run_set_def free_run_def MAX_PRB_def unat_plus_small)

lemma find_run_spec:
  assumes "N \<le> length used" and "N \<le> MAX_PRB" and "n \<le> N"
    and "ua_L a = 0 \<or> (free_run used N a \<and> unat (ua_RB_start a) + unat (ua_L a) = n)" and "ua_L a \<le> L"
  shows "\<exists>a'. find_run used L [n..<N] a = Some a' \<and> (ua_L a' = 0 \<or> free_run used N a') \<and> ua_L a' \<le> L"
  using assms(3-)
proof (induction "N - n" arbitrary: n a)
  case 0
  then show ?case by auto
next
  case (Suc d)
  then have n: "n < N" and eq: "[n..<N] = n # [Suc n..<N]" by (auto simp: upt_conv_Cons)
  have d: "d = N - Suc n" using Suc.hyps(2) by simp
  have un: "unat (of_nat n :: u32) = n" using n assms(2) by (simp add: unat_of_nat MAX_PRB_def)
  show ?case
  proof (cases "ua_L a < L")
    case False
    then show ?thesis using Suc.prems eq by auto
  next
    case True
    have rd: "rd used n = Some (used ! n)" using n assms(1) by simp
    show ?thesis
    proof (cases "used ! n")
      case False
      let ?a = "(if ua_L a = 0 then a\<lparr>ua_RB_start := of_nat n\<rparr> else a)\<lparr>ua_L := ua_L a + 1\<rparr>"
      have L1: "unat (ua_L a + 1) = Suc (unat (ua_L a))" using True by (rule unat_Suc_of_less)
      have "free_run used N ?a \<and> unat (ua_RB_start ?a) + unat (ua_L ?a) = Suc n"
        using Suc.prems(2) False n un L1 by (auto simp: free_run_def less_Suc_eq)
      moreover have "ua_L ?a \<le> L" using True by (simp add: inc_le)
      ultimately have "\<exists>a'. find_run used L [Suc n..<N] ?a = Some a' \<and> (ua_L a' = 0 \<or> free_run used N a') \<and> ua_L a' \<le> L"
        using n by (intro Suc.hyps(1)[OF d]) auto
      then show ?thesis using eq True rd False by (auto simp: Let_def)
    next
      case used: True
      show ?thesis
      proof (cases "0 < ua_L a \<and> \<not> n < 3")
        case True
        then have "find_run used L [n..<N] a = Some a" using eq rd used \<open>ua_L a < L\<close> by simp
        then show ?thesis using Suc.prems by auto
      next
        case False
        let ?a = "if 0 < ua_L a then a\<lparr>ua_RB_start := 0, ua_L := 0\<rparr> else a"
        have z: "ua_L ?a = 0" by (simp add: word_gt_0)
        then have "\<exists>a'. find_run used L [Suc n..<N] ?a = Some a' \<and> (ua_L a' = 0 \<or> free_run used N a') \<and> ua_L a' \<le> L"
          using n by (intro Suc.hyps(1)[OF d]) auto
        moreover have "find_run used L [n..<N] a = find_run used L [Suc n..<N] ?a"
          using eq rd used \<open>ua_L a < L\<close> False by simp
        ultimately show ?thesis by simp
      qed
    qed
  qed
qed

lemma shorten_run_spec:
  assumes "valid_prb_one E" and "0 < L"
  shows "\<exists>l. shorten_run E L = Some l \<and> 0 < l \<and> l \<le> L \<and> valid_prb E l"
  using assms(2)
proof (induction "unat L" arbitrary: L rule: less_induct)
  case less
  show ?case
  proof (cases "valid_prb E L")
    case True
    then show ?thesis using less.prems by (subst shorten_run.simps) auto
  next
    case False
    then have "L \<noteq> 1" using assms(1) by (auto simp: valid_prb_one_def)
    then have L: "0 < L - 1" "unat (L - 1) < unat L" "L - 1 \<le> L"
      using less.prems by unat_arith+
    then obtain l where "shorten_run E (L - 1) = Some l" "0 < l" "l \<le> L - 1" "valid_prb E l"
      using less.hyps by blast
    then show ?thesis using False L(3) by (subst shorten_run.simps) auto
  qed
qed

lemma ul_new_allocation_spec:
  assumes "ul_inv m" and "valid_prb_one E"
  obtains ok a where "ul_new_allocation E L m = Some (ok, a)" and "ok \<Longrightarrow> ua_L a = L \<and> ua_L a \<noteq> 0"
    and "ua_L a \<le> L" and "ua_L a \<noteq> 0 \<Longrightarrow> free_run (um_used_rb m) (unat (um_nof_rb m)) a \<and> valid_prb E (ua_L a)"
proof -
  let ?N = "unat (um_nof_rb m)"
  obtain a where a: "find_run (um_used_rb m) L [0..<?N] \<lparr>ua_RB_start = 0, ua_L = 0\<rparr> = Some a"
      "ua_L a = 0 \<or> free_run (um_used_rb m) ?N a" "ua_L a \<le> L"
    using find_run_spec[of ?N "um_used_rb m" 0 "\<lparr>ua_RB_start = 0, ua_L = 0\<rparr>" L] assms(1)
    by (auto simp: ul_inv_def)
  show ?thesis
  proof (cases "ua_L a = 0")
    case True
    then show ?thesis using a by (intro that[of False a]) (simp_all add: ul_new_allocation_def)
  next
    case False
    then obtain l where l: "shorten_run E (ua_L a) = Some l" "0 < l" "l \<le> ua_L a" "valid_prb E l"
      using shorten_run_spec[OF assms(2), of "ua_L a"] by (auto simp: word_neq_0_conv)
    have "free_run (um_used_rb m) ?N (a\<lparr>ua_L := l\<rparr>)"
      using a(2) False l(3) by (auto simp: free_run_def word_le_nat_alt)
    moreover have "l \<le> L" using l(3) a(3) by simp
    ultimately show ?thesis
      using a(1) False l by (intro that[of "l = L" "a\<lparr>ua_L := l\<rparr>"]) (auto simp: ul_new_allocation_def)
  qed
qed

section \<open>The contract of an uplink step\<close>

lemma fold_wr_set:
  assumes "\<forall>n \<in> set ns. n < length xs"
  shows "\<exists>ys. foldM (\<lambda>n used. wr used n True) ns xs = Some ys \<and> length ys = length xs \<and>
     {n. n < length ys \<and> ys ! n} = {n. n < length xs \<and> xs ! n} \<union> set ns"
  using assms
proof (induction ns arbitrary: xs)
  case Nil
  then show ?case by simp
next
  case (Cons k ns)
  obtain ys where y: "foldM (\<lambda>n used. wr used n True) ns (xs[k := True]) = Some ys" "length ys = length xs"
      "{n. n < length ys \<and> ys ! n} = {n. n < length xs \<and> (xs[k := True]) ! n} \<union> set ns"
    using Cons.IH[of "xs[k := True]"] Cons.prems by auto
  have "{n. n < length xs \<and> (xs[k := True]) ! n} = insert k {n. n < length xs \<and> xs ! n}"
    using Cons.prems by (auto simp: nth_list_update)
  then show ?case using y Cons.prems by auto
qed

lemma fold_wr_set_D:
  assumes "foldM (\<lambda>n used. wr used n True) ns xs = Some ys"
  shows "\<forall>n \<in> set ns. n < length xs"
  using assms
proof (induction ns arbitrary: xs)
  case (Cons k ns)
  then show ?case by (fastforce simp: bind_eq_Some_conv dest: wr_SomeD)
qed simp

lemma all_free_True: "all_free used ns = Some True \<Longrightarrow> \<forall>n \<in> set ns. n < length used \<and> \<not> used ! n"
  by (induction ns) (auto simp: bind_eq_Some_conv dest!: rd_SomeD split: if_splits)

lemma all_free_I: "\<forall>n \<in> set ns. n < length used \<and> \<not> used ! n \<Longrightarrow> all_free used ns = Some True"
  by (induction ns) auto

lemma all_free_total: "\<forall>n \<in> set ns. n < length used \<Longrightarrow> all_free used ns \<noteq> None"
  by (induction ns) auto

text \<open>Any update that stays inside the array.\<close>

lemma ul_update_spec:
  assumes "ul_update_allocation a m = Some (ret, m')" and "ul_inv m"
  shows "ul_inv m' \<and> ul_used m' = ul_used m \<union> run_set a \<and> (ret \<longrightarrow> run_set a \<inter> ul_used m = {}) \<and>
     um_current_tti m' = um_current_tti m \<and> um_nof_rb m' = um_nof_rb m"
proof -
  obtain used where v: "ul_allocation_is_valid a m = Some ret"
    and f: "foldM (\<lambda>n used. wr used n True) (rb_run a) (um_used_rb m) = Some used"
    and m': "m' = m\<lparr>um_used_rb := used\<rparr>"
    using assms(1) by (auto simp: ul_update_allocation_def bind_eq_Some_conv)
  obtain ys where ys: "foldM (\<lambda>n used. wr used n True) (rb_run a) (um_used_rb m) = Some ys"
    "length ys = length (um_used_rb m)"
    "{n. n < length ys \<and> ys ! n} = {n. n < length (um_used_rb m) \<and> um_used_rb m ! n} \<union> set (rb_run a)"
    using fold_wr_set[OF fold_wr_set_D[OF f]] by blast
  have "ys = used" using ys(1) f by simp
  with ys have "length used = length (um_used_rb m)"
    "{n. n < length used \<and> used ! n} = {n. n < length (um_used_rb m) \<and> um_used_rb m ! n} \<union> set (rb_run a)"
    by simp_all
  then have u: "ul_used m' = ul_used m \<union> run_set a" "ul_inv m'"
    using assms(2) by (simp_all add: m' ul_used_def run_set_def ul_inv_def)
  have "run_set a \<inter> ul_used m = {}" if ret
    using v that all_free_True[of "um_used_rb m" "rb_run a"]
    by (auto simp: ul_allocation_is_valid_def run_set_def ul_used_def split: if_splits)
  then show ?thesis using u by (simp add: m')
qed

lemma ul_update_free_run:
  assumes "ul_inv m" and "free_run (um_used_rb m) (unat (um_nof_rb m)) a"
  shows "\<exists>m'. ul_update_allocation a m = Some (True, m')"
proof -
  have N: "unat (um_nof_rb m) \<le> MAX_PRB" "length (um_used_rb m) = MAX_PRB"
    using assms(1) by (simp_all add: ul_inv_def)
  note rs = free_run_set[OF assms(2) N(1)]
  have in_range: "\<forall>n \<in> set (rb_run a). n < length (um_used_rb m) \<and> \<not> um_used_rb m ! n"
    using rs assms(2) N unfolding run_set_def by (auto simp: free_run_def)
  have "\<not> um_nof_rb m < ua_RB_start a + ua_L a"
    using assms(2) N(1) by (simp add: free_run_def word_less_nat_alt MAX_PRB_def unat_plus_small)
  then have "ul_allocation_is_valid a m = Some True"
    using all_free_I[OF in_range] by (simp add: ul_allocation_is_valid_def)
  moreover obtain used where "foldM (\<lambda>n used. wr used n True) (rb_run a) (um_used_rb m) = Some used"
    using fold_wr_set[of "rb_run a" "um_used_rb m"] in_range by blast
  ultimately show ?thesis by (simp add: ul_update_allocation_def)
qed

definition ul_res :: "sched_ue \<Rightarrow> nat \<Rightarrow> nat set" where
  "ul_res u i = run_set (hq_allocation (su_ul_harq u i))"

lemma ul_res_set [simp]: "ul_res (upd_ul_harq i (set_alloc a) u) i = run_set a"
  by (simp add: ul_res_def upd_ul_harq_def set_alloc_def)

definition ul_step_ok :: "ul_metric \<Rightarrow> nat option \<Rightarrow> ul_metric \<Rightarrow> sched_ue \<Rightarrow> bool" where
  "ul_step_ok m h m' u' \<longleftrightarrow> ul_inv m' \<and> ul_used m \<subseteq> ul_used m' \<and> um_nof_rb m' = um_nof_rb m \<and>
     (\<forall>k. h = Some k \<longrightarrow> ul_res u' k \<inter> ul_used m = {} \<and> ul_res u' k \<subseteq> ul_used m')"

lemma free_run_disjoint:
  assumes "ul_inv m" and "free_run (um_used_rb m) (unat (um_nof_rb m)) a"
  shows "run_set a \<inter> ul_used m = {}"
proof -
  obtain m' where "ul_update_allocation a m = Some (True, m')" using ul_update_free_run[OF assms] by blast
  from ul_update_spec[OF this assms(1)] show ?thesis by simp
qed

lemma ul_step_new:
  assumes "ul_inv m" and "valid_prb_one E" and "ul_new_allocation E L m = Some (ok, a)" and "ua_L a \<noteq> 0"
    and "ul_update_allocation a m = Some (ret, m')"
  shows "ret \<and> ul_step_ok m (Some i) m' (upd_ul_harq i (set_alloc a) u)"
proof -
  have "free_run (um_used_rb m) (unat (um_nof_rb m)) a"
    by (rule ul_new_allocation_spec[OF assms(1,2), of L]) (use assms(3,4) in simp)
  note fr = this
  have d: "run_set a \<inter> ul_used m = {}" by (rule free_run_disjoint[OF assms(1) fr])
  obtain m'' where "ul_update_allocation a m = Some (True, m'')" using ul_update_free_run[OF assms(1) fr] by blast
  then have ret using assms(5) by simp
  moreover have "ul_step_ok m (Some i) m' (upd_ul_harq i (set_alloc a) u)"
    using ul_update_spec[OF assms(5,1)] d unfolding ul_step_ok_def by simp
  ultimately show ?thesis by simp
qed

lemma ul_step_ok_idle: "ul_inv m \<Longrightarrow> ul_step_ok m None m u"
  by (simp add: ul_step_ok_def)

lemma ul_step_ok_trans:
  assumes "ul_step_ok n h m' u" and "ul_used m \<subseteq> ul_used n" and "um_nof_rb n = um_nof_rb m"
  shows "ul_step_ok m h m' u"
  using assms by (auto simp: ul_step_ok_def)

lemma ul_retx_ok:
  assumes "allocate_user_retx_prbs E m u = Some (h, m', u')" and "ul_inv m" and "valid_prb_one E"
  shows "ul_step_ok m h m' u'"
proof -
  let ?i = "get_ul_harq E (um_current_tti m)"
  let ?a = "get_alloc (su_ul_harq u ?i)"
  show ?thesis
  proof (cases "is_empty (su_ul_harq u ?i) 0")
    case True
    then have "h = None" "m' = m" "u' = u" using assms(1) by (auto simp: allocate_user_retx_prbs_def Let_def)
    then show ?thesis using assms(2) by (simp add: ul_step_ok_idle)
  next
    case False
    then obtain ok n where n: "ul_update_allocation ?a m = Some (ok, n)"
      using assms(1) by (auto simp: allocate_user_retx_prbs_def Let_def bind_eq_Some_conv)
    note us = ul_update_spec[OF n assms(2)]
    show ?thesis
    proof (cases ok)
      case True
      then have "h = Some ?i" "m' = n" "u' = u"
        using assms(1) False n by (simp_all add: allocate_user_retx_prbs_def Let_def)
      then show ?thesis using us True by (simp add: ul_step_ok_def ul_res_def get_alloc_def)
    next
      case nok: False
      have ni: "ul_inv n" using us by simp
      obtain found a where a: "ul_new_allocation E (ua_L ?a) n = Some (found, a)"
          "found \<Longrightarrow> ua_L a \<noteq> 0"
        by (rule ul_new_allocation_spec[OF ni assms(3), of "ua_L ?a"]) blast
      have "ul_step_ok n h m' u'"
      proof (cases found)
        case True
        then obtain ret where "ul_update_allocation a n = Some (ret, m')" "h = Some ?i"
            "u' = upd_ul_harq ?i (set_alloc a) u"
          using assms(1) False nok n a(1)
          by (simp add: allocate_user_retx_prbs_def Let_def bind_eq_Some_conv split_paired_Ex) blast
        then show ?thesis using ul_step_new[OF ni assms(3) a(1)] a(2) True by blast
      next
        case False
        then have "h = None" "m' = n"
          using assms(1) \<open>\<not> is_empty _ 0\<close> nok n a(1) by (simp_all add: allocate_user_retx_prbs_def Let_def)
        then show ?thesis using ni by (simp add: ul_step_ok_idle)
      qed
      then show ?thesis using us by (auto intro: ul_step_ok_trans)
    qed
  qed
qed

lemma ul_newtx_ok:
  assumes "allocate_user_newtx_prbs E m u = Some (h, m', u')" and "ul_inv m" and "valid_prb_one E"
  shows "ul_step_ok m h m' u'"
proof -
  let ?i = "get_ul_harq E (um_current_tti m)"
  show ?thesis
  proof (cases "is_empty (su_ul_harq u ?i) 0 \<and> get_pending_ul_new_data E (um_current_tti m) u \<noteq> 0")
    case False
    then have "h = None" "m' = m" using assms(1) by (auto simp: allocate_user_newtx_prbs_def Let_def)
    then show ?thesis using assms(2) by (simp add: ul_step_ok_idle)
  next
    case True
    then obtain rb where rb: "get_required_prb_ul E (get_pending_ul_new_data E (um_current_tti m) u) u = Some rb"
      using assms(1) by (auto simp: allocate_user_newtx_prbs_def Let_def bind_eq_Some_conv)
    obtain ok a where a: "ul_new_allocation E rb m = Some (ok, a)"
      by (rule ul_new_allocation_spec[OF assms(2,3), of rb]) blast
    show ?thesis
    proof (cases "ua_L a = 0")
      case L0: True
      then have "h = None" "m' = m"
        using assms(1) True rb a by (auto simp: allocate_user_newtx_prbs_def Let_def)
      then show ?thesis using assms(2) by (simp add: ul_step_ok_idle)
    next
      case False
      then obtain ret where "ul_update_allocation a m = Some (ret, m')" "h = Some ?i"
          "u' = upd_ul_harq ?i (set_alloc a) u"
        using assms(1) True rb a
        by (simp add: allocate_user_newtx_prbs_def Let_def bind_eq_Some_conv split_paired_Ex) blast
      then show ?thesis using ul_step_new[OF assms(2,3) a False] by blast
    qed
  qed
qed

text \<open>The library's promise on widths is part of the invariant the interpretations use.\<close>

definition ul_inv_for :: "srslte \<Rightarrow> ul_metric \<Rightarrow> bool" where
  "ul_inv_for E m \<longleftrightarrow> ul_inv m \<and> valid_prb_one E"

interpretation ulr: grant_pool "ul_inv_for E" ul_used "allocate_user_retx_prbs E" mark_ul su_ul_next_alloc ul_res
  for E
proof unfold_locales
  show "ul_res (mark_ul h u) = ul_res u" for h u by (simp add: mark_ul_def ul_res_def fun_eq_iff)
qed (auto simp: mark_ul_def ul_inv_for_def dest!: ul_retx_ok simp: ul_step_ok_def)

interpretation uln: grant_pool "ul_inv_for E" ul_used "allocate_user_newtx_prbs E" mark_ul su_ul_next_alloc ul_res
  for E
proof unfold_locales
  show "ul_res (mark_ul h u) = ul_res u" for h u by (simp add: mark_ul_def ul_res_def fun_eq_iff)
qed (auto simp: mark_ul_def ul_inv_for_def dest!: ul_newtx_ok simp: ul_step_ok_def)

lemma newtx_is_second_pass: "newtx_if_unserved E = uln.step_rest E"
  by (simp add: fun_eq_iff newtx_if_unserved_def uln.step_rest_def)

lemma ul_rr_positions:
  assumes "0 < n"
  shows "distinct (rr_visit n n (t mod n))" and "set (rr_visit n n (t mod n)) = {..<n}"
    and "distinct (rr_visit n n 0)" and "set (rr_visit n n 0) = {..<n}"
  using assms by (simp_all add: rr_visit_distinct rr_visit_set)

lemma ul_grants_pool:
  assumes "ul_new_tti E tti (m, db) = Some (m', db')" and "ul_inv m" and "valid_prb_one E"
    and "i < length db" and "su_ul_next_alloc (snd (db' ! i)) = Some h"
  shows "(\<forall>j k. j < length db \<and> j \<noteq> i \<and> su_ul_next_alloc (snd (db' ! j)) = Some k \<longrightarrow>
      ul_res (snd (db' ! i)) h \<inter> ul_res (snd (db' ! j)) k = {}) \<and>
    ul_res (snd (db' ! i)) h \<inter> ul_used m = {}"
proof -
  let ?n = "length db" and ?m = "m\<lparr>um_current_tti := tti\<rparr>"
  let ?db = "map (\<lambda>p. (fst p, mark_ul None (snd p))) db"
  let ?prio = "unat (tti + of_nat (length db) div 2) mod length db"
  have n: "0 < ?n" using assms(4) by auto
  have inv: "ul_inv_for E ?m" using assms(2,3) by (simp add: ul_inv_for_def ul_inv_def)
  have used: "ul_used ?m = ul_used m" by (simp add: ul_used_def)
  obtain m1 db1 where
    f1: "foldM (rr_body (allocate_user_retx_prbs E) mark_ul) (rr_visit ?n ?n 0) (?m, ?db) = Some (m1, db1)" and
    f2: "foldM (rr_body (newtx_if_unserved E) mark_ul) (rr_visit ?n ?n ?prio) (m1, db1) = Some (m', db')"
    using assms(1) n by (auto simp: ul_new_tti_def bind_eq_Some_conv Let_def)
  have "ulr.pool E (ul_used ?m) m1 db1 {..<?n}"
    using ulr.first_pass[OF f1 ulr.pool_empty[OF inv]] ul_rr_positions[OF n] by simp
  then have "uln.pool E (ul_used ?m) m' db' {..<?n}"
    using uln.second_pass[OF f2[unfolded newtx_is_second_pass]] ul_rr_positions(2)[OF n] by simp
  then show ?thesis using assms(4,5) by (auto simp: uln.pool_def used)
qed

text \<open>C4: the uplink grants of a TTI are pairwise disjoint: after \<open>new_tti\<close> no two users hold runs
  that share a resource block, and no grant touches a block that was occupied before (by PRACH,
  Msg3 or PUCCH).\<close>

theorem ul_grants_disjoint:
  assumes "ul_new_tti E tti (m, db) = Some (m', db')" and "ul_inv m" and "valid_prb_one E"
    and "i < length db" and "su_ul_next_alloc (snd (db' ! i)) = Some h"
  shows "(\<forall>j k. j < length db \<and> j \<noteq> i \<and> su_ul_next_alloc (snd (db' ! j)) = Some k \<longrightarrow>
      ul_res (snd (db' ! i)) h \<inter> ul_res (snd (db' ! j)) k = {}) \<and>
    ul_res (snd (db' ! i)) h \<inter> ul_used m = {}"
  by (rule ul_grants_pool[OF assms])

text \<open>a retransmission that finds no place still blocks the resource blocks of its old
  allocation: \<open>update_allocation\<close> marks them whether or not the allocation is valid.\<close>

theorem refused_retx_blocks_rbs:
  assumes "allocate_user_retx_prbs E m u = Some (None, m', u')" and "ul_inv m" and "valid_prb_one E"
    and "\<not> is_empty (su_ul_harq u (get_ul_harq E (um_current_tti m))) 0"
  shows "ul_used m' = ul_used m \<union> run_set (get_alloc (su_ul_harq u (get_ul_harq E (um_current_tti m)))) \<and> u' = u"
proof -
  let ?a = "get_alloc (su_ul_harq u (get_ul_harq E (um_current_tti m)))"
  obtain ok n where n: "ul_update_allocation ?a m = Some (ok, n)"
    using assms(1,4) by (auto simp: allocate_user_retx_prbs_def Let_def bind_eq_Some_conv)
  note us = ul_update_spec[OF n assms(2)]
  have ni: "ul_inv n" using us by simp
  have nok: "\<not> ok"
    using assms(1,4) n by (cases ok) (simp_all add: allocate_user_retx_prbs_def Let_def)
  obtain found a where a: "ul_new_allocation E (ua_L ?a) n = Some (found, a)"
    by (rule ul_new_allocation_spec[OF ni assms(3), of "ua_L ?a"]) blast
  have "\<not> found"
    using assms(1,4) n nok a
    by (cases found) (auto simp: allocate_user_retx_prbs_def Let_def bind_eq_Some_conv)
  then have "m' = n" "u' = u"
    using assms(1,4) n nok a by (simp_all add: allocate_user_retx_prbs_def Let_def)
  then show ?thesis using us by simp
qed

section \<open>Examples\<close>

text \<open>Two users whose uplink process 4 waits for a retransmission of two resource blocks.\<close>

definition demo_ul_ue :: "u32 \<Rightarrow> sched_ue" where
  "demo_ul_ue s = upd_ul_harq 4 (\<lambda>h. set_alloc \<lparr>ua_RB_start = s, ua_L = 2\<rparr>
     (ul_new_tx 12 3 16 (set_max_retx 4 h))) demo_ue"

definition demo_ul :: "bool list \<Rightarrow> ul_metric" where
  "demo_ul used = \<lparr>um_used_rb = used @ replicate 96 False, um_current_tti = 20, um_nof_rb = 4\<rparr>"

lemma demo_ul_harq: "get_ul_harq demo_lib 20 = 4"
  by (simp add: get_ul_harq_def SCHED_MAX_HARQ_PROC_def demo_lib_def)

lemma demo_ul_pending:
  "\<not> is_empty (su_ul_harq (demo_ul_ue s) 4) 0"
  "get_alloc (su_ul_harq (demo_ul_ue s) 4) = \<lparr>ua_RB_start = s, ua_L = 2\<rparr>"
  by (simp_all add: demo_ul_ue_def upd_ul_harq_def set_alloc_def get_alloc_def ul_new_tx_def harq_defs)

lemma demo_runs: "[0..<2] = [0, 1 :: nat]" "[2..<4] = [2, 3 :: nat]"
  by (simp_all add: upt_rec)

lemma demo_ul_update:
  "ul_update_allocation \<lparr>ua_RB_start = 0, ua_L = 2\<rparr> (demo_ul [a, b, c, d]) =
     Some (\<not> a \<and> \<not> b, demo_ul [True, True, c, d])"
  "ul_update_allocation \<lparr>ua_RB_start = 2, ua_L = 2\<rparr> (demo_ul [a, b, c, d]) =
     Some (\<not> c \<and> \<not> d, demo_ul [a, b, True, True])"
  by (simp_all add: ul_update_allocation_def ul_allocation_is_valid_def demo_ul_def demo_runs)

lemma demo_ul_inv: "length used = 4 \<Longrightarrow> ul_inv (demo_ul used)"
  by (simp add: ul_inv_def demo_ul_def MAX_PRB_def)

lemma demo_ul_round:
  "ul_new_tti demo_lib 20 (demo_ul [False, False, False, False], [(70, demo_ul_ue 0), (71, demo_ul_ue 2)]) =
     Some (demo_ul [True, True, True, True],
       [(70, mark_ul (Some 4) (demo_ul_ue 0)), (71, mark_ul (Some 4) (demo_ul_ue 2))])"
proof -
  let ?u = "\<lambda>h s. mark_ul h (demo_ul_ue s)"
  let ?db = "[(70, ?u None 0), (71, ?u None 2)] :: (u16, sched_ue) omap"
  let ?db' = "[(70, ?u (Some 4) 0), (71, ?u (Some 4) 2)] :: (u16, sched_ue) omap"
  let ?m = "demo_ul [False, False, False, False]" and ?m' = "demo_ul [True, True, True, True]"
  have n: "(demo_ul l)\<lparr>um_current_tti := 20\<rparr> = demo_ul l" for l by (simp add: demo_ul_def)
  have p: "is_empty (su_ul_harq (?u h s) 4) 0 = is_empty (su_ul_harq (demo_ul_ue s) 4) 0"
    "get_alloc (su_ul_harq (?u h s) 4) = get_alloc (su_ul_harq (demo_ul_ue s) 4)"
    "su_ul_next_alloc (?u h s) = h" "mark_ul k (?u h s) = ?u k s" for h k s
    by (simp_all add: mark_ul_def)
  have t: "um_current_tti (demo_ul l) = 20" for l by (simp add: demo_ul_def)
  have r: "allocate_user_retx_prbs demo_lib ?m (?u None 0) = Some (Some 4, demo_ul [True, True, False, False], ?u None 0)"
    "allocate_user_retx_prbs demo_lib (demo_ul [True, True, False, False]) (?u None 2) = Some (Some 4, ?m', ?u None 2)"
    by (simp_all add: allocate_user_retx_prbs_def t demo_ul_harq demo_ul_pending p demo_ul_update)
  have first: "foldM (rr_body (allocate_user_retx_prbs demo_lib) mark_ul) [0, 1] (?m, ?db) = Some (?m', ?db')"
    by (simp add: rr_body_def r p)
  have second: "foldM (rr_body (newtx_if_unserved demo_lib) mark_ul) [1, 0] (?m', ?db') = Some (?m', ?db')"
    by (simp add: rr_body_def newtx_if_unserved_def p)
  have v: "rr_visit 2 2 0 = [0, 1]" "rr_visit 2 2 1 = [1, 0]" by (simp_all add: rr_visit_rotation upt_rec)
  have len: "length [(70 :: u16, demo_ul_ue 0), (71, demo_ul_ue 2)] = 2" by simp
  have prio: "unat (20 + of_nat 2 div 2 :: u32) mod 2 = 1" by simp
  have db: "map (\<lambda>p. (fst p, mark_ul None (snd p))) [(70 :: u16, demo_ul_ue 0), (71, demo_ul_ue 2)] = ?db"
    by simp
  show ?thesis
    unfolding ul_new_tti_def fst_conv snd_conv n Let_def len prio v db first
    unfolding Option.bind.bind_lunit second by simp
qed

theorem ul_grants_disjoint_witness:
  "\<exists>m' db'. ul_new_tti demo_lib 20 (demo_ul [False, False, False, False], [(70, demo_ul_ue 0), (71, demo_ul_ue 2)]) =
     Some (m', db') \<and> su_ul_next_alloc (snd (db' ! 0)) = Some 4 \<and> su_ul_next_alloc (snd (db' ! 1)) = Some 4 \<and>
     ul_res (snd (db' ! 0)) 4 \<inter> ul_res (snd (db' ! 1)) 4 = {}"
proof -
  let ?db' = "[(70, mark_ul (Some 4) (demo_ul_ue 0)), (71, mark_ul (Some 4) (demo_ul_ue 2))]
    :: (u16, sched_ue) omap"
  have n: "su_ul_next_alloc (snd (?db' ! 0)) = Some 4" "su_ul_next_alloc (snd (?db' ! 1)) = Some 4"
    by (simp_all add: mark_ul_def)
  have "ul_inv (demo_ul [False, False, False, False])" by (simp add: demo_ul_inv)
  from conjunct1[OF ul_grants_disjoint[OF demo_ul_round this demo_valid_prb_one _ n(1)], rule_format, of 1 4] n(2)
  have "ul_res (snd (?db' ! 0)) 4 \<inter> ul_res (snd (?db' ! 1)) 4 = {}" by simp
  then show ?thesis using demo_ul_round n by blast
qed

lemma demo_no_run: "ul_new_allocation demo_lib 2 (demo_ul [True, True, True, True]) =
    Some (False, \<lparr>ua_RB_start = 0, ua_L = 0\<rparr>)"
proof -
  have "[0..<4] = [0, 1, 2, 3 :: nat]" by (simp add: upt_rec)
  then show ?thesis
    by (simp add: ul_new_allocation_def demo_ul_def rd_def)
qed

theorem refused_retx_blocks_rbs_witness:
  "\<exists>m'. allocate_user_retx_prbs demo_lib (demo_ul [False, True, True, True]) (demo_ul_ue 0) =
     Some (None, m', demo_ul_ue 0) \<and> 0 \<notin> ul_used (demo_ul [False, True, True, True]) \<and> 0 \<in> ul_used m'"
proof -
  let ?m = "demo_ul [False, True, True, True]" and ?m' = "demo_ul [True, True, True, True]"
  have t: "um_current_tti ?m = 20" by (simp add: demo_ul_def)
  have r: "allocate_user_retx_prbs demo_lib ?m (demo_ul_ue 0) = Some (None, ?m', demo_ul_ue 0)"
    by (simp add: allocate_user_retx_prbs_def t demo_ul_harq demo_ul_pending demo_ul_update demo_no_run)
  have run: "run_set \<lparr>ua_RB_start = 0, ua_L = 2\<rparr> = {0, 1}" by (simp add: run_set_def demo_runs)
  have "ul_inv ?m" by (simp add: demo_ul_inv)
  from refused_retx_blocks_rbs[OF r this demo_valid_prb_one] have "0 \<in> ul_used ?m'"
    by (simp add: t demo_ul_harq demo_ul_pending run)
  moreover have "0 \<notin> ul_used ?m" by (simp add: ul_used_def demo_ul_def)
  ultimately show ?thesis using r by blast
qed

end
