(* ===== verification/Sched_State.thy ===== *)
theory Sched_State
  imports Metric_DL Metric_UL
begin

text \<open>
  The scheduler object (\<open>scheduler.h\<close>, first half of \<open>scheduler.cc\<close>): its state, construction,
  configuration, and the calls that pass an indication on to one user. The lock that makes a call
  atomic and the log are not part of the state. The metric objects, which only the scheduler uses,
  are part of it (\<open>None\<close> is the null pointer), and so is the number of calls of \<open>rand\<close> so far.
\<close>

section \<open>State\<close>

definition MAX_CCE :: nat where
  "MAX_CCE = 128"

definition SCHED_MAX_PENDING_RAR :: nat where
  "SCHED_MAX_PENDING_RAR = 8"

record sched_rar =
  ra_buf_rar :: int
  ra_rnti :: u16
  ra_ra_id :: u32
  ra_rar_tti :: u32

record sched_sib =
  sb_is_in_window :: bool
  sb_window_start :: u32
  sb_n_tx :: u32

record pending_msg3 =
  m3_enabled :: bool
  m3_rnti :: u16
  m3_L :: u32
  m3_n_prb :: u32
  m3_mcs :: u32

record sched =
  sc_dl_metric :: "dl_metric option"
  sc_ul_metric :: "ul_metric option"
  sc_cfg :: cell_cfg
  sc_sched_cfg :: sched_args
  sc_regs :: "srslte_cell option"
  sc_used_cce :: "bool list"
  sc_ue_db :: "(u16, sched_ue) omap"
  sc_pending_sibs :: "nat \<Rightarrow> sched_sib"
  sc_pending_rar :: "nat \<Rightarrow> sched_rar"
  sc_pending_msg3 :: "nat \<Rightarrow> pending_msg3"
  sc_common_locations :: "sched_dci_cce list"
  sc_rar_locations :: "sched_dci_cce list list"
  sc_bc_aggr_level :: nat
  sc_rar_aggr_level :: nat
  sc_avail_rbg :: u32
  sc_P :: u32
  sc_start_rbg :: u32
  sc_si_n_rbg :: u32
  sc_rar_n_rbg :: u32
  sc_nof_rbg :: u32
  sc_sf_idx :: u32
  sc_sfn :: u32
  sc_current_tti :: u32
  sc_current_cfi :: u32
  sc_configured :: bool
  sc_rand :: nat

definition sched_rar_zero :: sched_rar where
  "sched_rar_zero = \<lparr>ra_buf_rar = 0, ra_rnti = 0, ra_ra_id = 0, ra_rar_tti = 0\<rparr>"

definition sched_sib_zero :: sched_sib where
  "sched_sib_zero = \<lparr>sb_is_in_window = False, sb_window_start = 0, sb_n_tx = 0\<rparr>"

definition msg3_zero :: pending_msg3 where
  "msg3_zero = \<lparr>m3_enabled = False, m3_rnti = 0, m3_L = 0, m3_n_prb = 0, m3_mcs = 0\<rparr>"

definition cell_cfg_zero :: cell_cfg where
  "cell_cfg_zero = \<lparr>cc_cell = cell_zero, cc_sibs = (\<lambda>_. \<lparr>sib_len = 0, sib_period_rf = 0\<rparr>),
     cc_si_window_ms = 0, cc_prach_config = 0, cc_prach_freq_offset = 0, cc_prach_rar_window = 0,
     cc_nrb_pucch = 0, cc_maxharq_msg3tx = 0\<rparr>"

definition sched_args_zero :: sched_args where
  "sched_args_zero = \<lparr>sa_pdsch_mcs = 0, sa_pdsch_max_mcs = 0, sa_pusch_mcs = 0,
     sa_pusch_max_mcs = 0, sa_nof_ctrl_symbols = 0\<rparr>"

section \<open>Construction and configuration\<close>

definition sched_reset :: "sched \<Rightarrow> sched" where
  "sched_reset s = s\<lparr>sc_pending_msg3 := (\<lambda>_. msg3_zero), sc_pending_rar := (\<lambda>_. sched_rar_zero),
     sc_pending_sibs := (\<lambda>_. sched_sib_zero), sc_configured := False, sc_ue_db := []\<rparr>"

text \<open>The number of calls of \<open>rand\<close> the process has made before is an argument.\<close>

definition sched_new :: "nat \<Rightarrow> sched" where
  "sched_new calls = sched_reset
     \<lparr>sc_dl_metric = None, sc_ul_metric = None, sc_cfg = cell_cfg_zero, sc_sched_cfg = sched_args_zero,
      sc_regs = None, sc_used_cce = replicate MAX_CCE False, sc_ue_db = [],
      sc_pending_sibs = (\<lambda>_. sched_sib_zero), sc_pending_rar = (\<lambda>_. sched_rar_zero),
      sc_pending_msg3 = (\<lambda>_. msg3_zero), sc_common_locations = replicate 3 sched_dci_cce_zero,
      sc_rar_locations = replicate 3 (replicate 10 sched_dci_cce_zero),
      sc_bc_aggr_level = 0, sc_rar_aggr_level = 0, sc_avail_rbg = 0, sc_P = 0, sc_start_rbg = 0,
      sc_si_n_rbg = 0, sc_rar_n_rbg = 0, sc_nof_rbg = 0, sc_sf_idx = 0, sc_sfn = 0,
      sc_current_tti = 0, sc_current_cfi = 0, sc_configured = False, sc_rand = calls\<rparr>"

text \<open>The \<open>rrc\<close> pointer that \<open>init\<close> stores is an argument of \<open>dl_sched\<close> below.\<close>

definition sched_init :: "sched \<Rightarrow> sched" where
  "sched_init s = sched_reset (s\<lparr>sc_sched_cfg := (sc_sched_cfg s)
     \<lparr>sa_pdsch_max_mcs := 28, sa_pdsch_mcs := -1, sa_pusch_max_mcs := 28, sa_pusch_mcs := -1,
      sa_nof_ctrl_symbols := 3\<rparr>\<rparr>)"

definition set_sched_cfg :: "sched_args option \<Rightarrow> sched \<Rightarrow> sched" where
  "set_sched_cfg a s = (case a of None \<Rightarrow> s | Some c \<Rightarrow> s\<lparr>sc_sched_cfg := c\<rparr>)"

definition set_metric :: "dl_metric option \<Rightarrow> ul_metric option \<Rightarrow> sched \<Rightarrow> sched" where
  "set_metric dl ul s = s\<lparr>sc_dl_metric := dl, sc_ul_metric := ul\<rparr>"

text \<open>Both location tables are generated without an RNTI, hence from the common search space.\<close>

definition cell_cfg :: "srslte \<Rightarrow> cell_cfg \<Rightarrow> sched \<Rightarrow> (int \<times> sched) option" where
  "cell_cfg E c s =
     (if cc_si_window_ms c = 0 then Some (-1, s)
      else let s = s\<lparr>sc_cfg := c\<rparr> in
      if regs_init_fails E (cc_cell c) then Some (-1, s)
      else do {
        let s = s\<lparr>sc_regs := Some (cc_cell c)\<rparr>;
        let P = ra_type0_P E (cl_nof_prb (cc_cell c));
        let s = s\<lparr>sc_P := P, sc_si_n_rbg := of_nat (ceil_div 4 (unat P)),
                  sc_rar_n_rbg := of_nat (ceil_div 3 (unat P)),
                  sc_nof_rbg := of_nat (ceil_div (unat (cl_nof_prb (cc_cell c))) (unat P))\<rparr>;
        locs \<leftarrow> foldM (\<lambda>cfi locs. do {
            d \<leftarrow> rd locs cfi;
            d \<leftarrow> generate_cce_location E (sc_regs s) (of_nat cfi + 1) 0 0 d;
            wr locs cfi d
          }) [0..<3] (sc_common_locations s);
        rars \<leftarrow> foldM (\<lambda>cfi. foldM (\<lambda>sf rars. do {
            d \<leftarrow> rd2 rars cfi sf;
            d \<leftarrow> generate_cce_location E (sc_regs s) (of_nat cfi + 1) (of_nat sf) 0 d;
            wr2 rars cfi sf d
          }) [0..<10]) [0..<3] (sc_rar_locations s);
        Some (0, s\<lparr>sc_common_locations := locs, sc_rar_locations := rars, sc_configured := True\<rparr>)
      })"

section \<open>Adding and removing users\<close>

definition sched_ue_cfg :: "srslte \<Rightarrow> u16 \<Rightarrow> ue_cfg option \<Rightarrow> sched \<Rightarrow> (int \<times> sched) option" where
  "sched_ue_cfg E rnti c s = do {
     let u = (case omap_get (sc_ue_db s) rnti of None \<Rightarrow> sched_ue_new E | Some u \<Rightarrow> u);
     u \<leftarrow> set_cfg E rnti c (sc_cfg s) (sc_regs s) u;
     let u = set_max_mcs (sa_pusch_max_mcs (sc_sched_cfg s)) (sa_pdsch_max_mcs (sc_sched_cfg s)) u;
     let u = set_fixed_mcs (sa_pusch_mcs (sc_sched_cfg s)) (sa_pdsch_mcs (sc_sched_cfg s)) u;
     Some (0, s\<lparr>sc_ue_db := omap_set rnti u (sc_ue_db s)\<rparr>)
   }"

definition sched_ue_rem :: "u16 \<Rightarrow> sched \<Rightarrow> int \<times> sched" where
  "sched_ue_rem rnti s =
     (if omap_get (sc_ue_db s) rnti \<noteq> None then (0, s\<lparr>sc_ue_db := omap_del rnti (sc_ue_db s)\<rparr>)
      else (-1, s))"

definition sched_ue_exists :: "u16 \<Rightarrow> sched \<Rightarrow> bool" where
  "sched_ue_exists rnti s \<longleftrightarrow> omap_get (sc_ue_db s) rnti \<noteq> None"

section \<open>Indications for one user\<close>

text \<open>
  Every wrapper looks the user up; for an unknown one it logs and returns its error value. The
  operation on the user returns the value of the call and the user.
\<close>

definition on_ue :: "u16 \<Rightarrow> 'a \<Rightarrow> (sched_ue \<Rightarrow> 'a \<times> sched_ue) \<Rightarrow> sched \<Rightarrow> 'a \<times> sched" where
  "on_ue rnti err f s =
     (case omap_get (sc_ue_db s) rnti of
        None \<Rightarrow> (err, s)
      | Some u \<Rightarrow> (fst (f u), s\<lparr>sc_ue_db := omap_set rnti (snd (f u)) (sc_ue_db s)\<rparr>))"

definition sched_phy_config_enabled :: "u16 \<Rightarrow> bool \<Rightarrow> sched \<Rightarrow> unit \<times> sched" where
  "sched_phy_config_enabled rnti en s =
     on_ue rnti () (\<lambda>u. ((), ue_phy_config_enabled (sc_current_tti s) en u)) s"

definition bearer_ue_cfg :: "srslte \<Rightarrow> u16 \<Rightarrow> u32 \<Rightarrow> ue_bearer_cfg \<Rightarrow> sched \<Rightarrow> int \<times> sched" where
  "bearer_ue_cfg E rnti lc c = on_ue rnti (-1) (\<lambda>u. (0, set_bearer_cfg E lc c u))"

definition bearer_ue_rem :: "srslte \<Rightarrow> u16 \<Rightarrow> u32 \<Rightarrow> sched \<Rightarrow> int \<times> sched" where
  "bearer_ue_rem E rnti lc = on_ue rnti (-1) (\<lambda>u. (0, rem_bearer E lc u))"

definition get_dl_buffer :: "srslte \<Rightarrow> u16 \<Rightarrow> sched \<Rightarrow> u32" where
  "get_dl_buffer E rnti s =
     (case omap_get (sc_ue_db s) rnti of None \<Rightarrow> 0 | Some u \<Rightarrow> get_pending_dl_new_data E u)"

definition get_ul_buffer :: "srslte \<Rightarrow> u16 \<Rightarrow> sched \<Rightarrow> u32" where
  "get_ul_buffer E rnti s =
     (case omap_get (sc_ue_db s) rnti of
        None \<Rightarrow> 0 | Some u \<Rightarrow> get_pending_ul_new_data E (sc_current_tti s) u)"

definition dl_rlc_buffer_state :: "srslte \<Rightarrow> u16 \<Rightarrow> u32 \<Rightarrow> u32 \<Rightarrow> u32 \<Rightarrow> sched \<Rightarrow> int \<times> sched" where
  "dl_rlc_buffer_state E rnti lc tx retx =
     on_ue rnti (-1) (\<lambda>u. (0, dl_buffer_state E (ucast lc) tx retx u))"

definition dl_mac_buffer_state :: "u16 \<Rightarrow> u32 \<Rightarrow> sched \<Rightarrow> int \<times> sched" where
  "dl_mac_buffer_state rnti ce = on_ue rnti (-1) (\<lambda>u. (0, mac_buffer_state ce u))"

definition dl_ant_info :: "u16 \<Rightarrow> tx_mode \<Rightarrow> sched \<Rightarrow> int \<times> sched" where
  "dl_ant_info rnti m = on_ue rnti (-1) (\<lambda>u. (0, set_dl_ant_info m u))"

definition dl_ack_info :: "srslte \<Rightarrow> u32 \<Rightarrow> u16 \<Rightarrow> nat \<Rightarrow> bool \<Rightarrow> sched \<Rightarrow> int \<times> sched" where
  "dl_ack_info E tti rnti tb ack = on_ue rnti (-1) (ue_set_ack_info E tti tb ack)"

definition ul_crc_info :: "srslte \<Rightarrow> u32 \<Rightarrow> u16 \<Rightarrow> bool \<Rightarrow> sched \<Rightarrow> int \<times> sched" where
  "ul_crc_info E tti rnti crc = on_ue rnti (-1) (\<lambda>u. (0, set_ul_crc E tti crc u))"

definition dl_ri_info :: "u32 \<Rightarrow> u16 \<Rightarrow> u32 \<Rightarrow> sched \<Rightarrow> int \<times> sched" where
  "dl_ri_info tti rnti ri = on_ue rnti (-1) (\<lambda>u. (0, set_dl_ri tti ri u))"

definition dl_pmi_info :: "u32 \<Rightarrow> u16 \<Rightarrow> u32 \<Rightarrow> sched \<Rightarrow> int \<times> sched" where
  "dl_pmi_info tti rnti pmi = on_ue rnti (-1) (\<lambda>u. (0, set_dl_pmi tti pmi u))"

definition dl_cqi_info :: "u32 \<Rightarrow> u16 \<Rightarrow> u32 \<Rightarrow> sched \<Rightarrow> int \<times> sched" where
  "dl_cqi_info tti rnti cqi = on_ue rnti (-1) (\<lambda>u. (0, set_dl_cqi tti cqi u))"

definition ul_cqi_info :: "u32 \<Rightarrow> u16 \<Rightarrow> u32 \<Rightarrow> u32 \<Rightarrow> sched \<Rightarrow> int \<times> sched" where
  "ul_cqi_info tti rnti cqi ch = on_ue rnti (-1) (\<lambda>u. (0, set_ul_cqi tti cqi ch u))"

definition ul_bsr :: "srslte \<Rightarrow> u16 \<Rightarrow> u32 \<Rightarrow> u32 \<Rightarrow> bool \<Rightarrow> sched \<Rightarrow> int \<times> sched" where
  "ul_bsr E rnti lcid bsr set_value =
     on_ue rnti (-1) (\<lambda>u. (0, ul_buffer_state E (ucast lcid) bsr set_value u))"

definition sched_ul_recv_len :: "srslte \<Rightarrow> u16 \<Rightarrow> u32 \<Rightarrow> u32 \<Rightarrow> sched \<Rightarrow> int \<times> sched" where
  "sched_ul_recv_len E rnti lcid len = on_ue rnti (-1) (\<lambda>u. (0, ul_recv_len E lcid len u))"

definition sched_ul_phr :: "u16 \<Rightarrow> int \<Rightarrow> sched \<Rightarrow> int \<times> sched" where
  "sched_ul_phr rnti phr = on_ue rnti (-1) (\<lambda>u. (0, ul_phr phr u))"

definition ul_sr_info :: "u32 \<Rightarrow> u16 \<Rightarrow> sched \<Rightarrow> int \<times> sched" where
  "ul_sr_info tti rnti = on_ue rnti (-1) (\<lambda>u. (0, set_sr u))"

definition sched_tpc_inc :: "u16 \<Rightarrow> sched \<Rightarrow> unit \<times> sched" where
  "sched_tpc_inc rnti = on_ue rnti () (\<lambda>u. ((), ue_tpc_inc u))"

definition sched_tpc_dec :: "u16 \<Rightarrow> sched \<Rightarrow> unit \<times> sched" where
  "sched_tpc_dec rnti = on_ue rnti () (\<lambda>u. ((), ue_tpc_dec u))"

section \<open>Random access indications\<close>

definition dl_rach_info :: "u32 \<Rightarrow> u32 \<Rightarrow> u16 \<Rightarrow> u32 \<Rightarrow> sched \<Rightarrow> int \<times> sched" where
  "dl_rach_info tti ra_id rnti estimated_size s =
     (case find (\<lambda>i. ra_buf_rar (sc_pending_rar s i) = 0) [0..<SCHED_MAX_PENDING_RAR] of
        Some i \<Rightarrow> (0, s\<lparr>sc_pending_rar := (sc_pending_rar s)(i :=
          \<lparr>ra_buf_rar = i32 estimated_size, ra_rnti = rnti, ra_ra_id = ra_id, ra_rar_tti = tti\<rparr>)\<rparr>)
      | None \<Rightarrow> (-1, s))"

end
