(* ===== verification/Sched_DCI.thy ===== *)
theory Sched_DCI
  imports Sched_State
begin

text \<open>
  The helper functions at the end of \<open>scheduler.cc\<close>: \<open>generate_dci\<close>, which looks for a free run
  of control channel elements for a DCI, and \<open>generate_format1a\<close>, which sizes the broadcast and
  random access transport blocks.
\<close>

section \<open>Control channel elements\<close>

abbreviation NCCE :: "nat \<Rightarrow> nat" where
  "NCCE L \<equiv> 2 ^ L"

definition cce_run :: "u32 \<Rightarrow> nat \<Rightarrow> nat list" where
  "cce_run ncce L = map (\<lambda>j. unat (ncce + of_nat j)) [0..<NCCE L]"

fun any_used :: "bool list \<Rightarrow> nat list \<Rightarrow> bool option" where
  "any_used used [] = Some False"
| "any_used used (n # ns) = do { b \<leftarrow> rd used n; if b then Some True else any_used used ns }"

text \<open>
  The loop over the candidates. \<open>test_cand\<close> starts at a random position and wraps around, so
  the positions are those of \<open>rr_visit\<close>; the result is the position that was allocated.
\<close>

fun dci_search ::
  "(u32 \<Rightarrow> bool) \<Rightarrow> u32 list \<Rightarrow> nat \<Rightarrow> nat list \<Rightarrow> bool list \<Rightarrow> (nat option \<times> bool list) option" where
  "dci_search collides cces L [] used_cce = Some (None, used_cce)"
| "dci_search collides cces L (test_cand # rest) used_cce = do {
     ncce \<leftarrow> rd cces test_cand;
     used \<leftarrow> (if collides ncce then Some True else any_used used_cce (cce_run ncce L));
     (if used then dci_search collides cces L rest used_cce
      else do {
        used_cce \<leftarrow> foldM (\<lambda>n used. wr used n True) (cce_run ncce L) used_cce;
        Some (Some test_cand, used_cce)
      })
   }"

definition generate_dci ::
  "srslte \<Rightarrow> sched_dci_cce \<Rightarrow> nat \<Rightarrow> sched_ue option \<Rightarrow> sched \<Rightarrow> (dci_location option \<times> sched) option" where
  "generate_dci E locations L user s = do {
     nof_loc \<leftarrow> rd (nof_loc locations) L;
     (if nof_loc = 0 then Some (None, s)
      else do {
        let test_cand = rand E (sc_rand s) mod nof_loc;
        cces \<leftarrow> rd (cce_start locations) L;
        let collides = (\<lambda>ncce. case user of None \<Rightarrow> False
                               | Some u \<Rightarrow> pucch_sr_collision E (sc_current_tti s) ncce u);
        (found, used) \<leftarrow> dci_search collides cces L
           (rr_visit (unat nof_loc) (unat nof_loc) (unat test_cand)) (sc_used_cce s);
        let s = s\<lparr>sc_used_cce := used, sc_rand := sc_rand s + 1\<rparr>;
        Some (map_option (\<lambda>i. \<lparr>dl_L = of_nat L, dl_ncce = cces ! i\<rparr>) found, s)
      })
   }"

section \<open>Format 1A\<close>

fun find_tbs_1a :: "srslte \<Rightarrow> int \<Rightarrow> nat list \<Rightarrow> (nat \<times> nprb1a \<times> int) option" where
  "find_tbs_1a E tbs [] = None"
| "find_tbs_1a E tbs (i # is) =
     (if tbs \<le> tbs_from_idx E (of_nat i) 2 then Some (i, NPRB1A_2, tbs_from_idx E (of_nat i) 2)
      else if tbs \<le> tbs_from_idx E (of_nat i) 3 then Some (i, NPRB1A_3, tbs_from_idx E (of_nat i) 3)
      else find_tbs_1a E tbs is)"

text \<open>
  The search variable \<open>i\<close> ends at most at 27, so the test \<open>i == 28\<close> for failure never holds;
  the branch is kept, and \<open>format1a_never_fails\<close> states what follows.
\<close>

definition generate_format1a :: "srslte \<Rightarrow> u32 \<Rightarrow> u32 \<Rightarrow> u32 \<Rightarrow> u32 \<Rightarrow> dl_dci \<Rightarrow> int \<times> dl_dci" where
  "generate_format1a E rb_start l_crb nbytes rv dci =
     (let tbs = i32 (nbytes * 8);
          r = find_tbs_1a E tbs [0..<27];
          i = (case r of Some (i, _, _) \<Rightarrow> i | None \<Rightarrow> 27);
          mcs = (case r of Some (i, _, _) \<Rightarrow> int i | None \<Rightarrow> -1);
          dci = (case r of Some (_, n, _) \<Rightarrow> dci\<lparr>dd_n_prb1a := n\<rparr> | None \<Rightarrow> dci);
          tbs = (case r of Some (_, _, t) \<Rightarrow> t | None \<Rightarrow> tbs)
      in if i = 28 then (-1, dci)
         else (tbs, dci\<lparr>dd_alloc_type := ALLOC_TYPE2, dd_mode_loc := True, dd_L_crb := l_crb,
                 dd_RB_start := rb_start, dd_harq_process := 0, dd_mcs_idx := of_i32 mcs,
                 dd_rv_idx := rv, dd_tb_en := (dd_tb_en dci)(0 := True, 1 := False)\<rparr>))"

lemma find_tbs_1a_Some:
  "find_tbs_1a E tbs is = Some (i, n, t) \<Longrightarrow> i \<in> set is \<and> tbs \<le> t \<and>
     t = tbs_from_idx E (of_nat i) (case n of NPRB1A_2 \<Rightarrow> 2 | NPRB1A_3 \<Rightarrow> 3)"
  by (induction "is") (auto split: if_splits)

lemma find_tbs_1a_least:
  "find_tbs_1a E tbs [a..<b] = Some (i, n, t) \<Longrightarrow>
     \<forall>j. a \<le> j \<and> j < i \<longrightarrow> tbs_from_idx E (of_nat j) 2 < tbs \<and> tbs_from_idx E (of_nat j) 3 < tbs"
proof (induction "b - a" arbitrary: a)
  case (Suc d)
  then have e: "[a..<b] = a # [Suc a..<b]" by (simp add: upt_conv_Cons)
  show ?case
  proof (cases "tbs \<le> tbs_from_idx E (of_nat a) 2 \<or> tbs \<le> tbs_from_idx E (of_nat a) 3")
    case True
    then have "i = a" using Suc.prems by (auto simp: e split: if_splits)
    then show ?thesis by simp
  next
    case False
    then have "find_tbs_1a E tbs [Suc a..<b] = Some (i, n, t)" using Suc.prems by (simp add: e)
    moreover have "d = b - Suc a" using Suc.hyps(2) by simp
    ultimately have "\<forall>j. Suc a \<le> j \<and> j < i \<longrightarrow>
        tbs_from_idx E (of_nat j) 2 < tbs \<and> tbs_from_idx E (of_nat j) 3 < tbs"
      using Suc.hyps(1)[of "Suc a"] by simp
    then show ?thesis using False by (metis le_eq_less_or_eq not_le Suc_le_eq)
  qed
qed simp

lemma find_tbs_1a_None:
  "find_tbs_1a E tbs is = None \<longleftrightarrow>
     (\<forall>i \<in> set is. tbs_from_idx E (of_nat i) 2 < tbs \<and> tbs_from_idx E (of_nat i) 3 < tbs)"
  by (induction "is") auto

section \<open>What an allocated DCI occupies\<close>

definition true_at :: "bool list \<Rightarrow> nat set" where
  "true_at xs = {n. n < length xs \<and> xs ! n}"

definition used_cces :: "sched \<Rightarrow> nat set" where
  "used_cces s = true_at (sc_used_cce s)"

definition loc_cces :: "dci_location \<Rightarrow> nat set" where
  "loc_cces l = set (cce_run (dl_ncce l) (unat (dl_L l)))"

lemma any_used_all_free: "any_used used ns = map_option Not (all_free used ns)"
proof (induction ns)
  case (Cons n ns)
  then show ?case by (cases "rd used n") simp_all
qed simp

lemma any_used_False: "any_used used ns = Some False \<Longrightarrow> \<forall>n \<in> set ns. n < length used \<and> \<not> used ! n"
  by (rule all_free_True) (cases "all_free used ns", simp_all add: any_used_all_free)

lemma any_used_True: "any_used used ns = Some True \<Longrightarrow> \<exists>n \<in> set ns. n < length used \<and> used ! n"
proof (induction ns)
  case (Cons n ns)
  then show ?case by (cases "n < length used \<and> used ! n") (auto simp: rd_def split: if_splits)
qed simp

lemma any_used_total: "\<forall>n \<in> set ns. n < length used \<Longrightarrow> any_used used ns \<noteq> None"
  by (simp add: any_used_all_free all_free_total)

definition blocked :: "(u32 \<Rightarrow> bool) \<Rightarrow> nat \<Rightarrow> bool list \<Rightarrow> u32 \<Rightarrow> bool" where
  "blocked collides L used ncce \<longleftrightarrow>
     collides ncce \<or> set (cce_run ncce L) \<inter> true_at used \<noteq> {}"

lemma wr_run_set:
  assumes "foldM (\<lambda>n used. wr used n True) ns xs = Some ys"
  shows "length ys = length xs \<and> true_at ys = true_at xs \<union> set ns"
proof -
  obtain zs where "foldM (\<lambda>n used. wr used n True) ns xs = Some zs" "length zs = length xs"
      "{n. n < length zs \<and> zs ! n} = {n. n < length xs \<and> xs ! n} \<union> set ns"
    using fold_wr_set[OF fold_wr_set_D[OF assms]] by blast
  then show ?thesis using assms unfolding true_at_def by (simp only: option.inject)
qed

lemma dci_search_None:
  assumes "dci_search collides cces L ns used = Some (None, used')"
  shows "used' = used \<and> (\<forall>i \<in> set ns. i < length cces \<and> blocked collides L used (cces ! i))"
  using assms
proof (induction ns)
  case Nil
  then show ?case by simp
next
  case (Cons i ns)
  obtain ncce b where r: "rd cces i = Some ncce"
      "(if collides ncce then Some True else any_used used (cce_run ncce L)) = Some b"
    using Cons.prems by (auto simp: bind_eq_Some_conv)
  then have i: "i < length cces" "ncce = cces ! i" by (auto dest: rd_SomeD)
  have b using Cons.prems r by (cases b) (auto simp: bind_eq_Some_conv)
  then have "blocked collides L used (cces ! i)"
    using r(2) i by (auto simp: blocked_def true_at_def dest: any_used_True split: if_splits)
  moreover have "dci_search collides cces L ns used = Some (None, used')"
    using Cons.prems r \<open>b\<close> by simp
  ultimately show ?case using Cons.IH i by auto
qed

lemma dci_search_Some:
  assumes "dci_search collides cces L ns used = Some (Some i, used')"
  shows "i \<in> set ns \<and> i < length cces \<and> \<not> blocked collides L used (cces ! i) \<and> length used' = length used \<and>
     true_at used' = true_at used \<union> set (cce_run (cces ! i) L)"
  using assms
proof (induction ns)
  case Nil
  then show ?case by simp
next
  case (Cons k ns)
  obtain ncce b where r: "rd cces k = Some ncce"
      "(if collides ncce then Some True else any_used used (cce_run ncce L)) = Some b"
    using Cons.prems by (auto simp: bind_eq_Some_conv)
  then have k: "k < length cces" "ncce = cces ! k" by (auto dest: rd_SomeD)
  show ?case
  proof (cases b)
    case True
    then have "dci_search collides cces L ns used = Some (Some i, used')" using Cons.prems r by simp
    from Cons.IH[OF this] show ?thesis by simp
  next
    case False
    then have u: "i = k" "foldM (\<lambda>n used. wr used n True) (cce_run ncce L) used = Some used'"
      using Cons.prems r by (auto simp: bind_eq_Some_conv)
    have "any_used used (cce_run ncce L) = Some False" "\<not> collides ncce"
      using r(2) False by (auto split: if_splits)
    then have "\<not> blocked collides L used (cces ! k)"
      using any_used_False k by (fastforce simp: blocked_def true_at_def)
    then show ?thesis using u wr_run_set[OF u(2)] k by simp
  qed
qed

lemma dci_search_total:
  assumes "\<forall>i \<in> set ns. i < length cces \<and> (\<forall>n \<in> set (cce_run (cces ! i) L). n < length used)"
  shows "dci_search collides cces L ns used \<noteq> None"
  using assms
proof (induction ns)
  case Nil
  then show ?case by simp
next
  case (Cons i ns)
  have i: "i < length cces" "\<forall>n \<in> set (cce_run (cces ! i) L). n < length used" using Cons.prems by simp_all
  obtain b where b: "any_used used (cce_run (cces ! i) L) = Some b" using any_used_total[OF i(2)] by auto
  obtain w where "foldM (\<lambda>n used. wr used n True) (cce_run (cces ! i) L) used = Some w"
    using fold_wr_set[OF i(2)] by blast
  then show ?case using Cons i(1) b by simp
qed

text \<open>The candidates of a level, and tables whose runs stay inside the array of elements.\<close>

definition level_cands :: "sched_dci_cce \<Rightarrow> nat \<Rightarrow> u32 list" where
  "level_cands d L = take (unat (nof_loc d ! L)) (cce_start d ! L)"

definition locs_ok :: "nat \<Rightarrow> sched_dci_cce \<Rightarrow> nat \<Rightarrow> bool" where
  "locs_ok n d L \<longleftrightarrow> L < length (nof_loc d) \<and> L < length (cce_start d) \<and>
     unat (nof_loc d ! L) \<le> length (cce_start d ! L) \<and>
     (\<forall>c \<in> set (level_cands d L). \<forall>k \<in> set (cce_run c L). k < n)"

lemma rr_positions_mod:
  assumes "0 < (n :: u32)"
  shows "set (rr_visit (unat n) (unat n) (unat (r mod n))) = {..<unat n}"
proof -
  have "r mod n < n" using assms by (rule word_mod_less_divisor)
  then show ?thesis by (intro rr_visit_set) (simp add: word_less_nat_alt)
qed

lemma generate_dci_D:
  assumes "generate_dci E locs L user s = Some (r, s')"
  obtains used k where "s' = s\<lparr>sc_used_cce := used, sc_rand := k\<rparr>" and "length used = length (sc_used_cce s)"
    and "r = None \<Longrightarrow> used = sc_used_cce s"
    and "\<And>l. r = Some l \<Longrightarrow> dl_L l = of_nat L \<and> set (cce_run (dl_ncce l) L) \<inter> used_cces s = {} \<and>
           true_at used = used_cces s \<union> set (cce_run (dl_ncce l) L)"
proof -
  obtain n where n: "rd (nof_loc locs) L = Some n" using assms by (auto simp: generate_dci_def bind_eq_Some_conv)
  show ?thesis
  proof (cases "n = 0")
    case True
    then have "r = None" "s' = s" using assms n by (simp_all add: generate_dci_def)
    then show ?thesis by (intro that[of "sc_rand s" "sc_used_cce s"]) simp_all
  next
    case False
    let ?col = "\<lambda>ncce. case user of None \<Rightarrow> False | Some u \<Rightarrow> pucch_sr_collision E (sc_current_tti s) ncce u"
    let ?ps = "rr_visit (unat n) (unat n) (unat (rand E (sc_rand s) mod n))"
    obtain cces found used where c: "rd (cce_start locs) L = Some cces"
        "dci_search ?col cces L ?ps (sc_used_cce s) = Some (found, used)"
        "r = map_option (\<lambda>i. \<lparr>dl_L = of_nat L, dl_ncce = cces ! i\<rparr>) found"
        "s' = s\<lparr>sc_used_cce := used, sc_rand := sc_rand s + 1\<rparr>"
      using assms n False
      by (simp add: generate_dci_def Let_def bind_eq_Some_conv split_paired_Ex) blast
    show ?thesis
    proof (cases found)
      case None
      then show ?thesis using c dci_search_None[OF c(2)[unfolded None]] by (intro that[OF c(4)]) simp_all
    next
      case (Some i)
      note ds = dci_search_Some[OF c(2)[unfolded Some]]
      show ?thesis
        using c(3) Some ds by (intro that[OF c(4)]) (auto simp: blocked_def used_cces_def)
    qed
  qed
qed

text \<open>C22: the search for control channel elements is complete and does not depend on the random
  start: with a table whose runs lie inside the array it returns, it finds a location exactly when
  some candidate of the level is neither used nor collides with the scheduling request of the
  user, and then it marks exactly the elements of that location.\<close>

theorem generate_dci_complete:
  assumes "locs_ok (length (sc_used_cce s)) locs L"
  shows "\<exists>r s'. generate_dci E locs L user s = Some (r, s') \<and>
     (r \<noteq> None \<longleftrightarrow> (\<exists>c \<in> set (level_cands locs L).
        \<not> (case user of None \<Rightarrow> False | Some u \<Rightarrow> pucch_sr_collision E (sc_current_tti s) c u) \<and>
        set (cce_run c L) \<inter> used_cces s = {})) \<and>
     used_cces s' = used_cces s \<union> (case r of None \<Rightarrow> {} | Some l \<Rightarrow> set (cce_run (dl_ncce l) L))"
proof -
  let ?n = "nof_loc locs ! L" and ?cces = "cce_start locs ! L"
  let ?col = "\<lambda>ncce. case user of None \<Rightarrow> False | Some u \<Rightarrow> pucch_sr_collision E (sc_current_tti s) ncce u"
  let ?ps = "rr_visit (unat ?n) (unat ?n) (unat (rand E (sc_rand s) mod ?n))"
  have L: "L < length (nof_loc locs)" "L < length (cce_start locs)" "unat ?n \<le> length ?cces"
    using assms by (simp_all add: locs_ok_def)
  show ?thesis
  proof (cases "?n = 0")
    case True
    then show ?thesis using L by (simp add: generate_dci_def level_cands_def)
  next
    case False
    then have ps: "set ?ps = {..<unat ?n}" by (intro rr_positions_mod) (simp add: word_gt_0)
    have cand: "set (level_cands locs L) = (\<lambda>i. ?cces ! i) ` set ?ps"
      unfolding level_cands_def ps using nth_image[OF L(3)] by (simp add: lessThan_atLeast0)
    have "\<forall>i \<in> set ?ps. i < length ?cces \<and> (\<forall>k \<in> set (cce_run (?cces ! i) L). k < length (sc_used_cce s))"
      using L(3) ps cand assms by (auto simp: locs_ok_def)
    then obtain found used where d: "dci_search ?col ?cces L ?ps (sc_used_cce s) = Some (found, used)"
      using dci_search_total[where ns = ?ps and cces = ?cces and L = L and used = "sc_used_cce s"
          and collides = ?col] by fastforce
    let ?r = "map_option (\<lambda>i. \<lparr>dl_L = of_nat L, dl_ncce = ?cces ! i\<rparr>) found"
    let ?s = "s\<lparr>sc_used_cce := used, sc_rand := sc_rand s + 1\<rparr>"
    have g: "generate_dci E locs L user s = Some (?r, ?s)"
      using L False d by (simp add: generate_dci_def Let_def)
    show ?thesis
    proof (cases found)
      case None
      then have "used = sc_used_cce s" "\<forall>i \<in> set ?ps. blocked ?col L (sc_used_cce s) (?cces ! i)"
        using dci_search_None[OF d[unfolded None]] by simp_all
      then show ?thesis using g None cand by (auto simp: blocked_def used_cces_def)
    next
      case (Some i)
      note ds = dci_search_Some[OF d[unfolded Some]]
      then have "?cces ! i \<in> set (level_cands locs L)" using cand by simp
      then show ?thesis using g Some ds by (auto simp: blocked_def used_cces_def)
    qed
  qed
qed

theorem generate_dci_complete_witness:
  "\<exists>l s'. generate_dci demo_lib \<lparr>cce_start = [[3, 5]], nof_loc = [2]\<rparr> 0 None
       ((sched_new 0)\<lparr>sc_used_cce := [False, False, False, True, False, False]\<rparr>) = Some (Some l, s') \<and>
     used_cces s' = {3} \<union> set (cce_run (dl_ncce l) 0)"
proof -
  let ?s = "(sched_new 0)\<lparr>sc_used_cce := [False, False, False, True, False, False]\<rparr>"
  let ?d = "\<lparr>cce_start = [[3, 5]], nof_loc = [2]\<rparr> :: sched_dci_cce"
  have c: "level_cands ?d 0 = [3, 5]" "cce_run 3 0 = [3]" "cce_run 5 0 = [5]"
    by (simp_all add: level_cands_def cce_run_def)
  then have ok: "locs_ok (length (sc_used_cce ?s)) ?d 0" by (simp add: locs_ok_def)
  have u: "used_cces ?s = {3}"
    by (auto simp: used_cces_def true_at_def less_Suc_eq numeral_eq_Suc)
  from generate_dci_complete[OF ok, of demo_lib None] obtain r s' where
      r: "generate_dci demo_lib ?d 0 None ?s = Some (r, s')" "r \<noteq> None"
      "used_cces s' = {3} \<union> (case r of None \<Rightarrow> {} | Some l \<Rightarrow> set (cce_run (dl_ncce l) 0))"
    by (auto simp: c u)
  then show ?thesis by auto
qed

section \<open>What format 1A returns\<close>

text \<open>format 1A uses the lowest scheme for which a block of two or three resource blocks holds
  the payload, and reports the size of that block in bits.\<close>

theorem format1a_least_scheme:
  assumes "k < 27" and "i32 (nbytes * 8) \<le> tbs_from_idx E (of_nat k) 2 \<or> i32 (nbytes * 8) \<le> tbs_from_idx E (of_nat k) 3"
  shows "\<exists>i \<le> k. dd_mcs_idx (snd (generate_format1a E rb l nbytes rv d)) = of_nat i \<and>
     i32 (nbytes * 8) \<le> fst (generate_format1a E rb l nbytes rv d) \<and>
     fst (generate_format1a E rb l nbytes rv d) =
       tbs_from_idx E (of_nat i) (case dd_n_prb1a (snd (generate_format1a E rb l nbytes rv d)) of
         NPRB1A_2 \<Rightarrow> 2 | NPRB1A_3 \<Rightarrow> 3) \<and>
     (\<forall>j < i. tbs_from_idx E (of_nat j) 2 < i32 (nbytes * 8) \<and> tbs_from_idx E (of_nat j) 3 < i32 (nbytes * 8))"
proof -
  let ?t = "i32 (nbytes * 8)"
  obtain i n t where f: "find_tbs_1a E ?t [0..<27] = Some (i, n, t)"
    using find_tbs_1a_None[of E ?t "[0..<27]"] assms
    by (cases "find_tbs_1a E ?t [0..<27]") (fastforce simp: not_le[symmetric])+
  note F = find_tbs_1a_Some[OF f]
  have least: "\<forall>j < i. tbs_from_idx E (of_nat j) 2 < ?t \<and> tbs_from_idx E (of_nat j) 3 < ?t"
    using find_tbs_1a_least[OF f] by simp
  then have "i \<le> k" using assms(2) by (metis leI not_le)
  moreover have "i \<noteq> 28" using F by simp
  ultimately show ?thesis
    using f F least by (intro exI[of _ i]) (simp add: generate_format1a_def Let_def)
qed

text \<open>format 1A never reports a failure: when no scheme holds the payload it returns the
  payload size as if it were the block size, which every caller accepts, with the scheme field set
  to the conversion of -1. The loop tries schemes 0 to 26 and the failure test asks for 28.\<close>

theorem format1a_never_fails:
  assumes "\<And>k. k < 27 \<Longrightarrow> tbs_from_idx E (of_nat k) 2 < i32 (nbytes * 8) \<and> tbs_from_idx E (of_nat k) 3 < i32 (nbytes * 8)"
  shows "fst (generate_format1a E rb l nbytes rv d) = i32 (nbytes * 8) \<and>
     dd_mcs_idx (snd (generate_format1a E rb l nbytes rv d)) = 0xFFFFFFFF"
proof -
  have "find_tbs_1a E (i32 (nbytes * 8)) [0..<27] = None"
    using assms by (simp add: find_tbs_1a_None)
  then show ?thesis by (simp add: generate_format1a_def)
qed

lemma demo_tbs: "tbs_from_idx demo_lib i n = 16 * (uint i + 1) * uint n"
  by (simp add: demo_lib_def)

theorem format1a_least_scheme_witness:
  "fst (generate_format1a demo_lib 0 3 18 0 dl_dci_zero) = 144 \<and>
   dd_mcs_idx (snd (generate_format1a demo_lib 0 3 18 0 dl_dci_zero)) = 2"
proof -
  let ?r = "generate_format1a demo_lib 0 3 18 0 dl_dci_zero"
  obtain i where i: "i \<le> 2" "dd_mcs_idx (snd ?r) = of_nat i" "144 \<le> fst ?r"
      "fst ?r = tbs_from_idx demo_lib (of_nat i) (case dd_n_prb1a (snd ?r) of NPRB1A_2 \<Rightarrow> 2 | NPRB1A_3 \<Rightarrow> 3)"
    using format1a_least_scheme[of 2 18 demo_lib 0 3 0 dl_dci_zero] by (auto simp: demo_tbs)
  have "i = 0 \<or> i = 1 \<or> i = 2" using i(1) by auto
  then show ?thesis using i by (auto simp: demo_tbs split: nprb1a.splits)
qed

theorem format1a_never_fails_witness:
  "fst (generate_format1a demo_lib 0 3 200 0 dl_dci_zero) = 1600 \<and>
   dd_mcs_idx (snd (generate_format1a demo_lib 0 3 200 0 dl_dci_zero)) = 0xFFFFFFFF"
proof -
  have "tbs_from_idx demo_lib (of_nat k) 2 < i32 (200 * 8) \<and> tbs_from_idx demo_lib (of_nat k) 3 < i32 (200 * 8)"
    if "k < 27" for k
  proof -
    have "uint (of_nat k :: u32) = int k" using that by (simp add: unsigned_of_nat take_bit_nat_eq_self)
    then show ?thesis using that by (simp add: demo_tbs)
  qed
  from format1a_never_fails[OF this] show ?thesis by simp
qed

end
