(* ===== verification/Sched_DL.thy ===== *)
theory Sched_DL
  imports Sched_DCI
begin

text \<open>
  The downlink round of \<open>scheduler.cc\<close>: broadcast and paging (\<open>dl_sched_bc\<close>), random access
  responses (\<open>dl_sched_rar\<close>), user data (\<open>dl_sched_data\<close>) and their composition \<open>dl_sched\<close>.
  The one call of the RRC (\<open>is_paging_opportunity\<close> at the current TTI) is an argument: its
  answer and the payload it stored, or \<open>None\<close> when the scheduler has no RRC. The result arrays
  have the lengths of the interface header and are accessed through \<open>rd\<close> and \<open>wr\<close>.
\<close>

section \<open>Results\<close>

datatype bc_type = BCCH | PCCH

record dl_sched_bc_t =
  bc_dci :: dl_dci
  bc_dci_location :: dci_location
  bc_type :: bc_type
  bc_index :: u32
  bc_tbs :: u32

record rar_grant =
  rg_ra_id :: u32
  rg_tpc_pusch :: u32
  rg_trunc_mcs :: u32
  rg_rba :: u32

record dl_sched_rar_t =
  rr_rarnti :: u32
  rr_tbs :: u32
  rr_dci :: dl_dci
  rr_dci_location :: dci_location
  rr_nof_grants :: u32
  rr_grants :: "rar_grant list"

record dl_sched_res =
  dr_cfi :: u32
  dr_nof_bc_elems :: nat
  dr_nof_rar_elems :: nat
  dr_nof_data_elems :: nat
  dr_bc :: "dl_sched_bc_t list"
  dr_rar :: "dl_sched_rar_t list"
  dr_data :: "dl_sched_data list"

definition bc_zero :: dl_sched_bc_t where
  "bc_zero = \<lparr>bc_dci = dl_dci_zero, bc_dci_location = location_zero, bc_type = BCCH, bc_index = 0, bc_tbs = 0\<rparr>"

definition rar_grant_zero :: rar_grant where
  "rar_grant_zero = \<lparr>rg_ra_id = 0, rg_tpc_pusch = 0, rg_trunc_mcs = 0, rg_rba = 0\<rparr>"

definition rar_zero :: "srslte \<Rightarrow> dl_sched_rar_t" where
  "rar_zero E = \<lparr>rr_rarnti = 0, rr_tbs = 0, rr_dci = dl_dci_zero, rr_dci_location = location_zero,
     rr_nof_grants = 0, rr_grants = replicate (MAX_RAR_GRANTS E) rar_grant_zero\<rparr>"

definition dl_res_zero :: "srslte \<Rightarrow> dl_sched_res" where
  "dl_res_zero E = \<lparr>dr_cfi = 0, dr_nof_bc_elems = 0, dr_nof_rar_elems = 0, dr_nof_data_elems = 0,
     dr_bc = replicate (MAX_BC_LIST E) bc_zero, dr_rar = replicate (MAX_RAR_LIST E) (rar_zero E),
     dr_data = replicate (MAX_DATA_LIST E) (dl_data_zero E)\<rparr>"

section \<open>Broadcast\<close>

definition upd_sib :: "nat \<Rightarrow> (sched_sib \<Rightarrow> sched_sib) \<Rightarrow> sched \<Rightarrow> sched" where
  "upd_sib i f s = s\<lparr>sc_pending_sibs := (sc_pending_sibs s)(i := f (sc_pending_sibs s i))\<rparr>"

text \<open>The first loop: opening and closing the windows. \<open>i\<close> is a C \<open>int\<close>, the products are
  unsigned.\<close>

definition sib_window :: "srslte \<Rightarrow> nat \<Rightarrow> sched \<Rightarrow> sched" where
  "sib_window E i s =
     (let sib = cc_sibs (sc_cfg s) i; p = sc_pending_sibs s i
      in if sib_len sib \<noteq> 0 then
        (if \<not> sb_is_in_window p then
           (let x = (if 0 < i then of_nat (i - 1) * cc_si_window_ms (sc_cfg s) else 0);
                sf = (if 0 < i then x mod 10 else 5)
            in if sc_sfn s mod sib_period_rf sib = x div 10 \<and> sc_sf_idx s = sf
               then upd_sib i (\<lambda>p. p\<lparr>sb_is_in_window := True, sb_window_start := sc_current_tti s,
                                     sb_n_tx := 0\<rparr>) s
               else s)
         else if 0 < i then
           (if cc_si_window_ms (sc_cfg s) < tti_interval E (sc_current_tti s) (sb_window_start p)
            then upd_sib i (\<lambda>p. p\<lparr>sb_is_in_window := False, sb_window_start := 0\<rparr>) s
            else s)
         else if sb_n_tx p = 4 then upd_sib 0 (\<lambda>p. p\<lparr>sb_n_tx := 0\<rparr>) s else s)
      else s)"

definition sib_nof_tx :: "cell_cfg \<Rightarrow> nat \<Rightarrow> u32" where
  "sib_nof_tx c i =
     (if 0 < i then (if cc_si_window_ms c \<le> 10 then 1 else if cc_si_window_ms c \<le> 20 then 2
                     else if cc_si_window_ms c \<le> 30 then 3 else 4)
      else 4)"

definition sib_due :: "nat \<Rightarrow> sched \<Rightarrow> bool" where
  "sib_due i s \<longleftrightarrow>
     (let p = sc_pending_sibs s i;
          n_sf = sc_current_tti s - sb_window_start p
      in (i = 0 \<and> sc_sfn s mod 2 = 0 \<and> sc_sf_idx s = 5) \<or>
         (0 < i \<and> (cc_si_window_ms (sc_cfg s) div sib_nof_tx (sc_cfg s) i) * sb_n_tx p \<le> n_sf \<and> sc_sf_idx s = 9))"

text \<open>A location table of the cell: the array index is unsigned, so index 0 wraps below.\<close>

definition common_table :: "sched \<Rightarrow> sched_dci_cce option" where
  "common_table s = rd (sc_common_locations s) (unat (sc_current_cfi s - 1))"

definition take_rbg :: "u32 \<Rightarrow> sched \<Rightarrow> sched" where
  "take_rbg n s = s\<lparr>sc_avail_rbg := sc_avail_rbg s - n, sc_start_rbg := sc_start_rbg s + n\<rparr>"

text \<open>
  The body that the system information and the paging branch have in common: a DCI in the common
  space and, when there is one, the block of \<open>nbytes\<close> in the next groups. The DCI goes to the
  next entry of the result, which is filled by \<open>entry\<close> and counted only when \<open>accepts\<close> holds of
  the size that format 1A reports; \<open>count\<close> is the bookkeeping of the sender.
\<close>

definition place_bc ::
  "srslte \<Rightarrow> u32 \<Rightarrow> u32 \<Rightarrow> (int \<Rightarrow> bool) \<Rightarrow> (int \<Rightarrow> dl_sched_bc_t \<Rightarrow> dl_sched_bc_t) \<Rightarrow> (sched \<Rightarrow> sched) \<Rightarrow>
   sched \<times> nat \<times> dl_sched_bc_t list \<Rightarrow> (sched \<times> nat \<times> dl_sched_bc_t list) option" where
  "place_bc E nbytes rv accepts entry count st = do {
     let (s, n, bc) = st;
     locs \<leftarrow> common_table s;
     e \<leftarrow> rd bc n;
     (loc, s) \<leftarrow> generate_dci E locs (sc_bc_aggr_level s) None s;
     (case loc of
        None \<Rightarrow> Some (s, n, bc)
      | Some l \<Rightarrow> do {
          let r = generate_format1a E (sc_start_rbg s * sc_P s) (sc_si_n_rbg s * sc_P s) nbytes rv (bc_dci e);
          let e = e\<lparr>bc_dci_location := l, bc_dci := snd r\<rparr>;
          (if accepts (fst r) then do {
             bc \<leftarrow> wr bc n (entry (fst r) e);
             Some (take_rbg (sc_si_n_rbg s) (count s), n + 1, bc)
           } else do {
             bc \<leftarrow> wr bc n e;
             Some (s, n, bc)
           })
        })
   }"

text \<open>The second loop: one transmission of one block of system information.\<close>

definition sib_tx ::
  "srslte \<Rightarrow> nat \<Rightarrow> sched \<times> nat \<times> dl_sched_bc_t list \<Rightarrow> (sched \<times> nat \<times> dl_sched_bc_t list) option" where
  "sib_tx E i st =
     (let s = fst st; sib = cc_sibs (sc_cfg s) i; p = sc_pending_sibs s i
      in if sib_len sib \<noteq> 0 \<and> sb_is_in_window p \<and> sb_n_tx p < 4 \<and> sc_si_n_rbg s < sc_avail_rbg s \<and> sib_due i s
         then place_bc E (sib_len sib) (get_rvidx (sb_n_tx p)) (\<lambda>tbs. i32 (sib_len sib) \<le> tbs)
                (\<lambda>tbs e. e\<lparr>bc_index := of_nat i, bc_type := BCCH, bc_tbs := of_i32 tbs\<rparr>)
                (upd_sib i (\<lambda>p. p\<lparr>sb_n_tx := sb_n_tx p + 1\<rparr>)) st
         else Some st)"

definition paging_tx ::
  "srslte \<Rightarrow> (bool \<times> u32) option \<Rightarrow> sched \<times> nat \<times> dl_sched_bc_t list \<Rightarrow>
   (sched \<times> nat \<times> dl_sched_bc_t list) option" where
  "paging_tx E paging st =
     (case paging of
        None \<Rightarrow> Some st
      | Some (opportunity, payload) \<Rightarrow>
          if opportunity \<and> sc_si_n_rbg (fst st) < sc_avail_rbg (fst st) \<and> payload \<noteq> 0
          then place_bc E payload 0 (\<lambda>tbs. 0 < tbs) (\<lambda>tbs e. e\<lparr>bc_type := PCCH, bc_tbs := of_i32 tbs\<rparr>)
                 (\<lambda>s. s) st
          else Some st)"

definition dl_sched_bc ::
  "srslte \<Rightarrow> (bool \<times> u32) option \<Rightarrow> dl_sched_bc_t list \<Rightarrow> sched \<Rightarrow> (sched \<times> nat \<times> dl_sched_bc_t list) option" where
  "dl_sched_bc E paging bc s = do {
     let s = fold (sib_window E) [0..<MAX_SIBS E] s;
     st \<leftarrow> foldM (sib_tx E) [0..<MAX_SIBS E] (s, 0, bc);
     paging_tx E paging st
   }"

section \<open>Random access responses\<close>

definition upd_rar :: "nat \<Rightarrow> (sched_rar \<Rightarrow> sched_rar) \<Rightarrow> sched \<Rightarrow> sched" where
  "upd_rar i f s = s\<lparr>sc_pending_rar := (sc_pending_rar s)(i := f (sc_pending_rar s i))\<rparr>"

definition clear_rar :: "nat \<Rightarrow> sched \<Rightarrow> sched" where
  "clear_rar i = upd_rar i (\<lambda>p. p\<lparr>ra_buf_rar := 0, ra_rar_tti := 0\<rparr>)"

definition in_rar_window :: "nat \<Rightarrow> sched \<Rightarrow> bool" where
  "in_rar_window i s \<longleftrightarrow>
     sc_current_tti s \<le> (ra_rar_tti (sc_pending_rar s i) + cc_prach_rar_window (sc_cfg s) + 3) mod 10240 \<and>
     ra_rar_tti (sc_pending_rar s i) + 3 \<le> sc_current_tti s"

text \<open>One round of the inner loop over the pending responses with the same TTI. The grant of the
  first match reserves the uplink blocks of its Msg3; further matches are only counted.\<close>

definition rar_grant_step ::
  "srslte \<Rightarrow> u32 \<Rightarrow> nat \<Rightarrow> nat \<Rightarrow> sched \<times> dl_sched_rar_t \<times> u32 \<times> u32 \<Rightarrow>
   (sched \<times> dl_sched_rar_t \<times> u32 \<times> u32) option" where
  "rar_grant_step E tti i j st = do {
     let (s, e, buf_rar, nof_grants) = st;
     (if ra_rar_tti (sc_pending_rar s j) = tti then
        (if nof_grants = 0 then do {
           grants \<leftarrow> wr (rr_grants e) 0 \<lparr>rg_ra_id = ra_ra_id (sc_pending_rar s j), rg_tpc_pusch = 3,
             rg_trunc_mcs = 0, rg_rba = ra_type2_to_riv E 3 2 (cl_nof_prb (cc_cell (sc_cfg s)))\<rparr>;
           let buf_rar = buf_rar + of_i32 (ra_buf_rar (sc_pending_rar s i));
           let s = clear_rar j s;
           let t = unat ((sc_current_tti s + of_nat (MSG3_DELAY_MS E) + of_nat (HARQ_DELAY_MS E)) mod 10);
           let s = s\<lparr>sc_pending_msg3 := (sc_pending_msg3 s)(t :=
             \<lparr>m3_enabled = True, m3_rnti = ra_rnti (sc_pending_rar s j), m3_L = 3, m3_n_prb = 2, m3_mcs = 0\<rparr>)\<rparr>;
           Some (s, e\<lparr>rr_grants := grants\<rparr>, buf_rar, nof_grants + 1)
         } else Some (s, e, buf_rar, nof_grants + 1))
      else Some (s, e, buf_rar, nof_grants))
   }"

definition rar_tx ::
  "srslte \<Rightarrow> nat \<Rightarrow> sched \<times> nat \<times> dl_sched_rar_t list \<Rightarrow> (sched \<times> nat \<times> dl_sched_rar_t list) option" where
  "rar_tx E i st = do {
     let (s, n, rar) = st;
     (if 0 < ra_buf_rar (sc_pending_rar s i) \<and> sc_rar_n_rbg s \<le> sc_avail_rbg s then
        (if in_rar_window i s then do {
           locs \<leftarrow> rd2 (sc_rar_locations s) (unat (sc_current_cfi s - 1)) (unat (sc_sf_idx s));
           e \<leftarrow> rd rar n;
           (loc, s) \<leftarrow> generate_dci E locs (sc_rar_aggr_level s) None s;
           (case loc of
              None \<Rightarrow> Some (s, n, rar)
            | Some l \<Rightarrow> do {
                let e = e\<lparr>rr_dci_location := l\<rparr>;
                let tti = ra_rar_tti (sc_pending_rar s i);
                (s, e, buf_rar, nof_grants) \<leftarrow>
                  foldM (rar_grant_step E tti i) [0..<SCHED_MAX_PENDING_RAR] (s, e, 0, 0);
                let e = e\<lparr>rr_nof_grants := nof_grants, rr_rarnti := (tti + 1) mod 10\<rparr>;
                let (tbs, dci) = generate_format1a E (sc_start_rbg s * sc_P s) (sc_rar_n_rbg s * sc_P s)
                                   buf_rar 0 (rr_dci e);
                let e = e\<lparr>rr_dci := dci\<rparr>;
                (if 0 \<le> tbs then do {
                   rar \<leftarrow> wr rar n (e\<lparr>rr_tbs := buf_rar\<rparr>);
                   Some (take_rbg (sc_rar_n_rbg s) s, n + 1, rar)
                 } else do {
                   rar \<leftarrow> wr rar n e;
                   Some (s, n, rar)
                 })
              })
         } else Some (clear_rar i s, n, rar))
      else Some (s, n, rar))
   }"

definition dl_sched_rar ::
  "srslte \<Rightarrow> dl_sched_rar_t list \<Rightarrow> sched \<Rightarrow> (sched \<times> nat \<times> dl_sched_rar_t list) option" where
  "dl_sched_rar E rar s = foldM (rar_tx E) [0..<SCHED_MAX_PENDING_RAR] (s, 0, rar)"

section \<open>User data\<close>

definition prach_guard :: "srslte \<Rightarrow> sched \<Rightarrow> sched" where
  "prach_guard E s =
     (if cl_nof_prb (cc_cell (sc_cfg s)) < 10 \<and> prach_opportunity E (cc_prach_config (sc_cfg s)) (sc_current_tti s + 4)
      then s\<lparr>sc_start_rbg := sc_avail_rbg s\<rparr> else s)"

definition data_nof_ctrl :: "sched \<Rightarrow> u32" where
  "data_nof_ctrl s =
     (if cl_nof_prb (cc_cell (sc_cfg s)) < 10 then sc_current_cfi s + 1 else sc_current_cfi s)"

definition data_grant ::
  "srslte \<Rightarrow> dci_format \<Rightarrow> nat \<Rightarrow> dl_sched_data \<Rightarrow> sched \<Rightarrow> sched_ue \<Rightarrow> (int \<times> dl_sched_data \<times> sched_ue) option" where
  "data_grant E f h d s u =
     (case f of
        FORMAT1 \<Rightarrow> generate_format1 E h d (sc_current_tti s) (sc_current_cfi s) u
      | FORMAT2 \<Rightarrow> generate_format2 E h d (sc_current_tti s) (sc_current_cfi s) u
      | FORMAT2A \<Rightarrow> generate_format2a E h d (sc_current_tti s) (sc_current_cfi s) u
      | _ \<Rightarrow> Some (0, d, u))"

text \<open>The loop over the users, by position in the map. The user is written back at the end.\<close>

definition data_tx ::
  "srslte \<Rightarrow> nat \<Rightarrow> sched \<times> nat \<times> dl_sched_data list \<Rightarrow> (sched \<times> nat \<times> dl_sched_data list) option" where
  "data_tx E k st = do {
     let (s, n, data) = st;
     x \<leftarrow> rd (sc_ue_db s) k;
     let u = snd x;
     d \<leftarrow> rd data n;
     let d = d\<lparr>ds_dci_format := get_dci_format u\<rparr>;
     let L = get_aggr_level E (dci_format_sizeof E FORMAT1 (cl_nof_prb (cc_cell (sc_cfg s)))
                                 (cl_nof_ports (cc_cell (sc_cfg s)))) u;
     (s, n, d, u, m) \<leftarrow>
       (case dl_get_user_allocation u of
          None \<Rightarrow> Some (s, n, d, u, n)
        | Some h \<Rightarrow> do {
            (loc, s) \<leftarrow> generate_dci E (get_locations (sc_current_cfi s) (sc_sf_idx s) u) L (Some u) s;
            (case loc of
               None \<Rightarrow> Some (s, n, d, upd_dl_harq h (reset_all_tbs E) u, n)
             | Some l \<Rightarrow> do {
                 (tbs, d, u) \<leftarrow> data_grant E (get_dci_format u) h (d\<lparr>ds_dci_location := l\<rparr>) s u;
                 Some (s, n, d, u, if 0 < tbs then n + 1 else n)
               })
          });
     data \<leftarrow> wr data n d;
     db \<leftarrow> wr (sc_ue_db s) k (fst x, reset_timeout_dl_harq E (sc_current_tti s) u);
     Some (s\<lparr>sc_ue_db := db\<rparr>, m, data)
   }"

definition dl_sched_data_fn ::
  "srslte \<Rightarrow> dl_sched_data list \<Rightarrow> sched \<Rightarrow> (sched \<times> nat \<times> dl_sched_data list) option" where
  "dl_sched_data_fn E data s = do {
     let s = prach_guard E s;
     m \<leftarrow> sc_dl_metric s;
     (m, db) \<leftarrow> dl_new_tti E (sc_start_rbg s) (sc_avail_rbg s) (data_nof_ctrl s) (sc_current_tti s) (m, sc_ue_db s);
     let s = s\<lparr>sc_dl_metric := Some m, sc_ue_db := db\<rparr>;
     foldM (data_tx E) [0..<length (sc_ue_db s)] (s, 0, data)
   }"

section \<open>The downlink round\<close>

definition dl_start :: "u32 \<Rightarrow> sched \<Rightarrow> sched" where
  "dl_start tti s =
     (let s = (if sc_current_tti s \<noteq> tti then s\<lparr>sc_used_cce := replicate MAX_CCE False\<rparr> else s)
      in s\<lparr>sc_current_tti := tti, sc_sfn := tti div 10, sc_sf_idx := tti mod 10,
           sc_avail_rbg := sc_nof_rbg s, sc_start_rbg := 0,
           sc_current_cfi := sa_nof_ctrl_symbols (sc_sched_cfg s),
           sc_bc_aggr_level := 2, sc_rar_aggr_level := 2\<rparr>)"

definition dl_sched ::
  "srslte \<Rightarrow> (bool \<times> u32) option \<Rightarrow> u32 \<Rightarrow> dl_sched_res \<Rightarrow> sched \<Rightarrow> (int \<times> dl_sched_res \<times> sched) option" where
  "dl_sched E paging tti res s =
     (if \<not> sc_configured s then Some (0, res, s)
      else do {
        let s = dl_start tti s;
        let res = dl_res_zero E;
        (s, nbc, bc) \<leftarrow> dl_sched_bc E paging (dr_bc res) s;
        (s, nrar, rar) \<leftarrow> dl_sched_rar E (dr_rar res) s;
        (s, ndata, data) \<leftarrow> dl_sched_data_fn E (dr_data res) s;
        Some (0, res\<lparr>dr_nof_bc_elems := nbc, dr_bc := bc, dr_nof_rar_elems := nrar, dr_rar := rar,
                     dr_nof_data_elems := ndata, dr_data := data, dr_cfi := sc_current_cfi s\<rparr>, s)
      })"

end
