(* ===== verification/Sched_UL.thy ===== *)
theory Sched_UL
  imports Sched_DL
begin

text \<open>
  The uplink round of \<open>scheduler.cc\<close> (\<open>ul_sched\<close>): PHICH feedback, the resource blocks that
  PRACH, Msg3 and PUCCH keep, the uplink metric, the grants, and the update of the data counters.
  Each loop over the user map is one definition per user, applied by position.
\<close>

section \<open>Results\<close>

datatype phich = ACK | NACK

record ul_sched_phich =
  ph_phich :: phich
  ph_rnti :: u16

record ul_sched_res =
  ur_nof_dci_elems :: nat
  ur_nof_phich_elems :: nat
  ur_pusch :: "ul_sched_data list"
  ur_phich :: "ul_sched_phich list"

definition ul_res_zero :: "srslte \<Rightarrow> ul_sched_res" where
  "ul_res_zero E = \<lparr>ur_nof_dci_elems = 0, ur_nof_phich_elems = 0,
     ur_pusch = replicate (MAX_DATA_LIST E) ul_data_zero,
     ur_phich = replicate (MAX_PHICH_LIST E) \<lparr>ph_phich = ACK, ph_rnti = 0\<rparr>\<rparr>"

section \<open>Feedback\<close>

definition phich_step ::
  "srslte \<Rightarrow> u32 \<Rightarrow> nat \<Rightarrow> (u16, sched_ue) omap \<times> nat \<times> ul_sched_phich list \<Rightarrow>
   ((u16, sched_ue) omap \<times> nat \<times> ul_sched_phich list) option" where
  "phich_step E tti k st = do {
     let (db, n, phich) = st;
     x \<leftarrow> rd db k;
     let u = (snd x)\<lparr>su_has_pucch := False\<rparr>;
     let i = get_ul_harq E tti;
     let (pending, h) = has_pending_ack (su_ul_harq u i);
     let u = upd_ul_harq i (\<lambda>_. h) u;
     db \<leftarrow> wr db k (fst x, u);
     (if pending then do {
        phich \<leftarrow> wr phich n \<lparr>ph_phich = (if get_ack h 0 then ACK else NACK), ph_rnti = fst x\<rparr>;
        Some (db, n + 1, phich)
      } else Some (db, n, phich))
   }"

section \<open>Reserved resource blocks\<close>

definition reserve :: "ul_alloc \<Rightarrow> ul_metric \<Rightarrow> ul_metric option" where
  "reserve a m = do { (_, m) \<leftarrow> ul_update_allocation a m; Some m }"

definition reserve_prach :: "srslte \<Rightarrow> u32 \<Rightarrow> cell_cfg \<Rightarrow> ul_metric \<Rightarrow> ul_metric option" where
  "reserve_prach E tti c m =
     (if prach_opportunity E (cc_prach_config c) tti
      then reserve \<lparr>ua_RB_start = cc_prach_freq_offset c, ua_L = 6\<rparr> m else Some m)"

definition reserve_msg3 :: "pending_msg3 \<Rightarrow> ul_metric \<Rightarrow> ul_metric option" where
  "reserve_msg3 p m =
     (if m3_enabled p then reserve \<lparr>ua_RB_start = m3_n_prb p, ua_L = m3_L p\<rparr> m else Some m)"

definition pucch_step ::
  "srslte \<Rightarrow> u32 \<Rightarrow> nat \<Rightarrow> ul_metric \<times> (u16, sched_ue) omap \<Rightarrow>
   (ul_metric \<times> (u16, sched_ue) omap) option" where
  "pucch_step E tti k st = do {
     let (m, db) = st;
     x \<leftarrow> rd db k;
     (case get_pucch_sched E tti (snd x) of
        None \<Rightarrow> Some (m, db)
      | Some (a, b) \<Rightarrow> do {
          db \<leftarrow> wr db k (fst x, (snd x)\<lparr>su_has_pucch := True\<rparr>);
          m \<leftarrow> reserve \<lparr>ua_RB_start = a, ua_L = 1\<rparr> m;
          m \<leftarrow> reserve \<lparr>ua_RB_start = b, ua_L = 1\<rparr> m;
          Some (m, db)
        })
   }"

definition reserve_pucch ::
  "srslte \<Rightarrow> u32 \<Rightarrow> cell_cfg \<Rightarrow> ul_metric \<times> (u16, sched_ue) omap \<Rightarrow>
   (ul_metric \<times> (u16, sched_ue) omap) option" where
  "reserve_pucch E tti c st =
     (if 0 \<le> cc_nrb_pucch c then do {
        let (m, db) = st;
        let L = of_i32 (cc_nrb_pucch c);
        m \<leftarrow> reserve \<lparr>ua_RB_start = 0, ua_L = L\<rparr> m;
        m \<leftarrow> reserve \<lparr>ua_RB_start = cl_nof_prb (cc_cell c) - L, ua_L = L\<rparr> m;
        Some (m, db)
      } else foldM (pucch_step E tti) [0..<length (snd st)] st)"

section \<open>Grants\<close>

text \<open>The process of a user's grant: the one of Msg3, or what the metric chose. The flag tells
  whether it is the grant of a random access response.\<close>

definition pusch_harq ::
  "srslte \<Rightarrow> u32 \<Rightarrow> u16 \<Rightarrow> sched \<Rightarrow> sched_ue \<Rightarrow> nat option \<times> bool \<times> sched \<times> sched_ue" where
  "pusch_harq E tti rnti s u =
     (let t = unat (tti mod 10); p = sc_pending_msg3 s t
      in if m3_enabled p \<and> m3_rnti p = rnti then
        (let i = get_ul_harq E tti;
             u = upd_ul_harq i (\<lambda>h. set_rar_mcs (m3_mcs p)
                   (set_alloc \<lparr>ua_RB_start = m3_n_prb p, ua_L = m3_L p\<rparr> h)) u;
             s = s\<lparr>sc_pending_msg3 := (sc_pending_msg3 s)(t := p\<lparr>m3_enabled := False\<rparr>)\<rparr>
         in (Some i, True, s, u))
      else (ul_get_user_allocation u, False, s, u))"

text \<open>The DCI of a grant, unless it needs none; the result tells whether the grant goes ahead.\<close>

definition pusch_dci ::
  "srslte \<Rightarrow> bool \<Rightarrow> nat \<Rightarrow> ul_sched_data \<Rightarrow> sched \<Rightarrow> sched_ue \<Rightarrow>
   (bool \<times> ul_sched_data \<times> sched \<times> sched_ue) option" where
  "pusch_dci E needs_pdcch i d s u =
     (if needs_pdcch then do {
        let L = get_aggr_level E (dci_format_sizeof E FORMAT0 (cl_nof_prb (cc_cell (sc_cfg s)))
                                    (cl_nof_ports (cc_cell (sc_cfg s)))) u;
        (loc, s) \<leftarrow> generate_dci E (get_locations (sc_current_cfi s) (sc_sf_idx s) u) L None s;
        (case loc of
           None \<Rightarrow> Some (False, d\<lparr>us_needs_pdcch := False\<rparr>, s, upd_ul_harq i (harq_reset 0) u)
         | Some l \<Rightarrow> Some (True, d\<lparr>us_dci_location := l, us_needs_pdcch := True\<rparr>, s, u))
      } else Some (True, d\<lparr>us_needs_pdcch := False\<rparr>, s, u))"

definition pusch_grant ::
  "srslte \<Rightarrow> u32 \<Rightarrow> bool \<Rightarrow> nat \<Rightarrow> ul_sched_data \<Rightarrow> sched \<Rightarrow> sched_ue \<Rightarrow>
   (bool \<times> ul_sched_data \<times> sched \<times> sched_ue) option" where
  "pusch_grant E tti is_rar i d s u = do {
     let is_newtx = is_empty (su_ul_harq u i) 0;
     let needs_pdcch = (\<not> is_adaptive_retx (su_ul_harq u i) \<and> \<not> is_rar);
     let u = (if is_newtx
              then upd_ul_harq i (set_max_retx (if is_rar then cc_maxharq_msg3tx (sc_cfg s) else get_max_retx u)) u
              else u);
     (go, d, s, u) \<leftarrow> pusch_dci E needs_pdcch i d s u;
     (if go then do {
        let (cqi, u) = needs_cqi E tti True u;
        (tbs, d, u) \<leftarrow> generate_format0 E i d (sc_current_tti s) cqi u;
        Some (0 < tbs, d, s, if 0 < tbs \<and> is_newtx then unset_sr u else u)
      } else Some (False, d, s, u))
   }"

definition pusch_step ::
  "srslte \<Rightarrow> u32 \<Rightarrow> nat \<Rightarrow> sched \<times> nat \<times> ul_sched_data list \<Rightarrow> (sched \<times> nat \<times> ul_sched_data list) option" where
  "pusch_step E tti k st = do {
     let (s, n, pusch) = st;
     x \<leftarrow> rd (sc_ue_db s) k;
     let (h, is_rar, s, u) = pusch_harq E tti (fst x) s (snd x);
     (n, pusch, s, u) \<leftarrow>
       (case h of
          None \<Rightarrow> Some (n, pusch, s, u)
        | Some i \<Rightarrow> do {
            d \<leftarrow> rd pusch n;
            (ok, d, s, u) \<leftarrow> pusch_grant E tti is_rar i d s u;
            pusch \<leftarrow> wr pusch n d;
            Some (if ok then n + 1 else n, pusch, s, u)
          });
     db \<leftarrow> wr (sc_ue_db s) k (fst x, u);
     Some (s\<lparr>sc_ue_db := db\<rparr>, n, pusch)
   }"

section \<open>The uplink round\<close>

definition reset_pending_step ::
  "srslte \<Rightarrow> u32 \<Rightarrow> u16 \<times> sched_ue \<Rightarrow> u16 \<times> sched_ue" where
  "reset_pending_step E tti p = (fst p, upd_ul_harq (get_ul_harq E tti) reset_pending_data (snd p))"

definition ul_start :: "srslte \<Rightarrow> u32 \<Rightarrow> sched \<Rightarrow> sched" where
  "ul_start E tti s =
     (let s = (if TTI_TX E (sc_current_tti s) \<noteq> tti then s\<lparr>sc_used_cce := replicate MAX_CCE False\<rparr> else s);
          d = of_nat (HARQ_DELAY_MS E)
      in s\<lparr>sc_current_tti := tti, sc_sfn := tti div 10,
           sc_sf_idx := (if d < tti then (tti - d) mod 10 else (tti + 10240 - d) mod 10)\<rparr>)"

definition ul_sched ::
  "srslte \<Rightarrow> u32 \<Rightarrow> ul_sched_res \<Rightarrow> sched \<Rightarrow> (int \<times> ul_sched_res \<times> sched) option" where
  "ul_sched E tti res s =
     (let c = sc_cfg s; nof_prb = cl_nof_prb (cc_cell c)
      in if \<not> sc_configured s then Some (0, res, s)
      else if nof_prb < cc_prach_freq_offset c + 6 \<and> 10 < nof_prb then Some (-1, res, s)
      else do {
        let s = ul_start E tti s;
        let res = ul_res_zero E;
        m \<leftarrow> sc_ul_metric s;
        m \<leftarrow> ul_reset_allocation nof_prb m;
        (db, nphich, phich) \<leftarrow>
          foldM (phich_step E tti) [0..<length (sc_ue_db s)] (sc_ue_db s, 0, ur_phich res);
        m \<leftarrow> reserve_prach E tti c m;
        m \<leftarrow> reserve_msg3 (sc_pending_msg3 s (unat (tti mod 10))) m;
        (m, db) \<leftarrow> reserve_pucch E tti c (m, db);
        (m, db) \<leftarrow> ul_new_tti E tti (m, db);
        let s = s\<lparr>sc_ul_metric := Some m, sc_ue_db := db\<rparr>;
        (s, ndci, pusch) \<leftarrow> foldM (pusch_step E tti) [0..<length (sc_ue_db s)] (s, 0, ur_pusch res);
        let s = s\<lparr>sc_ue_db := map (reset_pending_step E tti) (sc_ue_db s)\<rparr>;
        Some (0, res\<lparr>ur_pusch := pusch, ur_phich := phich, ur_nof_dci_elems := ndci,
                     ur_nof_phich_elems := nphich\<rparr>, s)
      })"

end
