(* ===== verification/Dci_Pool.thy ===== *)
theory Dci_Pool
  imports Sched_UL
begin

text \<open>
  The DCIs of one TTI never share a control channel element. Every loop of the scheduler that
  generates DCIs makes steps of the same kind (a location is found among the unused elements and
  the entry is counted or not); the locale \<open>dci_loop\<close> states that as its law, and the loops of
  \<open>dl_sched\<close> and \<open>ul_sched\<close> interpret it.
\<close>

section \<open>Pools of locations\<close>

definition pool :: "nat set \<Rightarrow> nat set \<Rightarrow> dci_location list \<Rightarrow> bool" where
  "pool B U ls \<longleftrightarrow> B \<subseteq> U \<and> (\<forall>l \<in> set ls. loc_cces l \<subseteq> U \<and> loc_cces l \<inter> B = {}) \<and>
     sorted_wrt (\<lambda>a b. loc_cces a \<inter> loc_cces b = {}) ls"

definition adds_dci :: "nat set \<Rightarrow> dci_location list \<Rightarrow> nat set \<Rightarrow> dci_location list \<Rightarrow> bool" where
  "adds_dci U ls U' ls' \<longleftrightarrow>
     (\<exists>C. C \<inter> U = {} \<and> U' = U \<union> C \<and> (ls' = ls \<or> (\<exists>l. ls' = ls @ [l] \<and> loc_cces l = C)))"

lemma pool_start: "pool U U []"
  by (simp add: pool_def)

lemma pool_join:
  assumes "pool B U ls" and "pool U V ks"
  shows "pool B V (ls @ ks)"
proof -
  have U: "B \<subseteq> U" "U \<subseteq> V" using assms by (simp_all add: pool_def)
  have ls: "loc_cces l \<subseteq> U" "loc_cces l \<inter> B = {}" if "l \<in> set ls" for l
    using assms(1) that by (simp_all add: pool_def)
  have ks: "loc_cces l \<subseteq> V" "loc_cces l \<inter> U = {}" if "l \<in> set ks" for l
    using assms(2) that by (simp_all add: pool_def)
  have "\<forall>l \<in> set (ls @ ks). loc_cces l \<subseteq> V \<and> loc_cces l \<inter> B = {}"
  proof
    fix l assume "l \<in> set (ls @ ks)"
    then consider "l \<in> set ls" | "l \<in> set ks" by auto
    then show "loc_cces l \<subseteq> V \<and> loc_cces l \<inter> B = {}"
    proof cases
      case 1
      then show ?thesis using ls U by blast
    next
      case 2
      then show ?thesis using ks U by blast
    qed
  qed
  moreover have "\<forall>a \<in> set ls. \<forall>b \<in> set ks. loc_cces a \<inter> loc_cces b = {}"
    using ls(1) ks(2) by blast
  moreover have "B \<subseteq> V" using U by blast
  ultimately show ?thesis using assms by (simp add: pool_def sorted_wrt_append)
qed

lemma pool_adds:
  assumes "pool B U ls" and "adds_dci U ls U' ls'"
  shows "pool B U' ls'"
proof -
  obtain C where C: "C \<inter> U = {}" "U' = U \<union> C" "ls' = ls \<or> (\<exists>l. ls' = ls @ [l] \<and> loc_cces l = C)"
    using assms(2) by (auto simp: adds_dci_def)
  from C(3) show ?thesis
  proof
    assume "ls' = ls"
    then show ?thesis using pool_join[OF assms(1), of U' "[]"] C(2) by (simp add: pool_def)
  next
    assume "\<exists>l. ls' = ls @ [l] \<and> loc_cces l = C"
    then obtain l where l: "ls' = ls @ [l]" "loc_cces l = C" by blast
    have "pool U U' [l]" using C l by (auto simp: pool_def)
    then show ?thesis using pool_join[OF assms(1)] l by simp
  qed
qed

lemma adds_dci_same: "adds_dci U ls U ls"
  by (auto simp: adds_dci_def)

lemma adds_dci_kept: "C \<inter> U = {} \<Longrightarrow> U' = U \<union> C \<Longrightarrow> adds_dci U ls U' ls"
  by (auto simp: adds_dci_def)

lemma adds_dci_new: "loc_cces l \<inter> U = {} \<Longrightarrow> U' = U \<union> loc_cces l \<Longrightarrow> adds_dci U ls U' (ls @ [l])"
  by (auto simp: adds_dci_def)

text \<open>What one call of \<open>generate_dci\<close> contributes.\<close>

lemma generate_dci_adds:
  assumes "generate_dci E locs L user s = Some (r, s')" and "L < 2 ^ 32"
  shows "(r = None \<and> used_cces s' = used_cces s) \<or>
    (\<exists>l. r = Some l \<and> loc_cces l \<inter> used_cces s = {} \<and> used_cces s' = used_cces s \<union> loc_cces l)"
proof -
  obtain used k where d: "s' = s\<lparr>sc_used_cce := used, sc_rand := k\<rparr>"
      "r = None \<Longrightarrow> used = sc_used_cce s"
      "\<And>l. r = Some l \<Longrightarrow> dl_L l = of_nat L \<and> set (cce_run (dl_ncce l) L) \<inter> used_cces s = {} \<and>
           true_at used = used_cces s \<union> set (cce_run (dl_ncce l) L)"
    by (rule generate_dci_D[OF assms(1)]) blast
  show ?thesis
  proof (cases r)
    case None
    then show ?thesis using d by (simp add: used_cces_def)
  next
    case (Some l)
    then have "unat (dl_L l) = L" using d(3) assms(2) by (simp add: unat_of_nat)
    then show ?thesis using d(1) d(3)[OF Some] Some by (simp add: used_cces_def loc_cces_def)
  qed
qed

lemma generate_dci_frame:
  assumes "generate_dci E locs L user s = Some (r, s')"
  shows "\<exists>used k. s' = s\<lparr>sc_used_cce := used, sc_rand := k\<rparr>"
  by (rule generate_dci_D[OF assms]) blast

section \<open>Counted entries of a result array\<close>

lemma wr_take_same: "wr xs n e = Some ys \<Longrightarrow> take n ys = take n xs"
  by (auto dest: wr_SomeD)

lemma wr_take_Suc: "wr xs n e = Some ys \<Longrightarrow> take (Suc n) ys = take n xs @ [e]"
  by (auto dest!: wr_SomeD simp: take_Suc_conv_app_nth)

section \<open>The contract of a loop\<close>

locale dci_loop =
  fixes step :: "'x \<Rightarrow> 's \<Rightarrow> 's option"
    and used :: "'s \<Rightarrow> nat set"
    and locs :: "'s \<Rightarrow> dci_location list"
    and inv :: "'s \<Rightarrow> bool"
  assumes step_adds: "inv st \<Longrightarrow> step x st = Some st' \<Longrightarrow> adds_dci (used st) (locs st) (used st') (locs st')"
    and step_inv: "inv st \<Longrightarrow> step x st = Some st' \<Longrightarrow> inv st'"
begin

lemma loop_pool:
  assumes "foldM step xs st = Some st'" and "inv st" and "pool B (used st) (locs st)"
  shows "pool B (used st') (locs st') \<and> inv st'"
proof (rule foldM_invariant[OF assms(1), where I = "\<lambda>st. pool B (used st) (locs st) \<and> inv st"])
  show "pool B (used st) (locs st) \<and> inv st" using assms(2,3) by simp
qed (use step_adds step_inv pool_adds in blast)

end

section \<open>Broadcast and paging\<close>

lemma place_bc_cases:
  assumes "place_bc E nb rv acc entry count (s, n, bc) = Some st'"
  obtains (nodci) locs s1 where "generate_dci E locs (sc_bc_aggr_level s) None s = Some (None, s1)"
      "st' = (s1, n, bc)"
  | (refused) locs s1 l bc' e where "generate_dci E locs (sc_bc_aggr_level s) None s = Some (Some l, s1)"
      "wr bc n e = Some bc'" "st' = (s1, n, bc')"
  | (placed) locs s1 l bc' e tbs where "generate_dci E locs (sc_bc_aggr_level s) None s = Some (Some l, s1)"
      "wr bc n (entry tbs e) = Some bc'" "bc_dci_location e = l" "acc tbs"
      "st' = (take_rbg (sc_si_n_rbg s1) (count s1), n + 1, bc')"
proof -
  obtain locs e r s1 where g: "common_table s = Some locs" "rd bc n = Some e"
      "generate_dci E locs (sc_bc_aggr_level s) None s = Some (r, s1)"
    using assms by (simp add: place_bc_def bind_eq_Some_conv split_paired_Ex) blast
  show thesis
  proof (cases r)
    case None
    then show ?thesis using assms g by (intro nodci) (auto simp: place_bc_def)
  next
    case (Some l)
    let ?r = "generate_format1a E (sc_start_rbg s1 * sc_P s1) (sc_si_n_rbg s1 * sc_P s1) nb rv (bc_dci e)"
    let ?e = "e\<lparr>bc_dci_location := l, bc_dci := snd ?r\<rparr>"
    have l: "bc_dci_location ?e = l" by simp
    show ?thesis
    proof (cases "acc (fst ?r)")
      case True
      then obtain bc' where w: "wr bc n (entry (fst ?r) ?e) = Some bc'"
          "st' = (take_rbg (sc_si_n_rbg s1) (count s1), n + 1, bc')"
        using assms g Some by (auto simp: place_bc_def Let_def bind_eq_Some_conv)
      show ?thesis by (rule placed[OF g(3)[unfolded Some] w(1) l True w(2)])
    next
      case False
      then obtain bc' where w: "wr bc n ?e = Some bc'" "st' = (s1, n, bc')"
        using assms g Some by (auto simp: place_bc_def Let_def bind_eq_Some_conv)
      show ?thesis by (rule refused[OF g(3)[unfolded Some] w])
    qed
  qed
qed

definition bc_locs :: "sched \<times> nat \<times> dl_sched_bc_t list \<Rightarrow> dci_location list" where
  "bc_locs st = map bc_dci_location (take (fst (snd st)) (snd (snd st)))"

definition bc_lev :: "sched \<times> nat \<times> dl_sched_bc_t list \<Rightarrow> bool" where
  "bc_lev st \<longleftrightarrow> sc_bc_aggr_level (fst st) = 2"

abbreviation st_used :: "sched \<times> 'a \<Rightarrow> nat set" where
  "st_used st \<equiv> used_cces (fst st)"

lemma used_take_rbg [simp]: "used_cces (take_rbg n s) = used_cces s"
  by (simp add: used_cces_def take_rbg_def)

lemma place_bc_adds:
  assumes "place_bc E nb rv acc entry count st = Some st'" and "bc_lev st"
    and "\<And>t e. bc_dci_location (entry t e) = bc_dci_location e"
    and "\<And>s. used_cces (count s) = used_cces s" and "\<And>s. sc_bc_aggr_level (count s) = sc_bc_aggr_level s"
  shows "adds_dci (st_used st) (bc_locs st) (st_used st') (bc_locs st') \<and> bc_lev st'"
proof -
  obtain s n bc where st: "st = (s, n, bc)" by (cases st) auto
  have lev: "sc_bc_aggr_level s < 2 ^ 32" using assms(2) by (simp add: bc_lev_def st)
  show ?thesis
  proof (rule place_bc_cases[OF assms(1)[unfolded st]])
    fix locs s1
    assume a: "generate_dci E locs (sc_bc_aggr_level s) None s = Some (None, s1)" "st' = (s1, n, bc)"
    show ?thesis
      using generate_dci_adds[OF a(1) lev] generate_dci_frame[OF a(1)] a(2) assms(2)
      by (auto simp: st bc_locs_def bc_lev_def adds_dci_same)
  next
    fix locs s1 l bc' e
    assume a: "generate_dci E locs (sc_bc_aggr_level s) None s = Some (Some l, s1)"
      "wr bc n e = Some bc'" "st' = (s1, n, bc')"
    show ?thesis
      using generate_dci_adds[OF a(1) lev] generate_dci_frame[OF a(1)] a(3) wr_take_same[OF a(2)] assms(2)
      by (auto simp: st bc_locs_def bc_lev_def intro: adds_dci_kept)
  next
    fix locs s1 l bc' e tbs
    assume a: "generate_dci E locs (sc_bc_aggr_level s) None s = Some (Some l, s1)"
      "wr bc n (entry tbs e) = Some bc'" "bc_dci_location e = l"
      "st' = (take_rbg (sc_si_n_rbg s1) (count s1), n + 1, bc')"
    have "sc_bc_aggr_level s1 = sc_bc_aggr_level s" using generate_dci_frame[OF a(1)] by auto
    then show ?thesis
      using generate_dci_adds[OF a(1) lev] a(3,4) wr_take_Suc[OF a(2)] assms(2-5)
      by (auto simp: st bc_locs_def bc_lev_def take_rbg_def used_cces_def intro: adds_dci_new)
  qed
qed

lemma used_upd_sib [simp]: "used_cces (upd_sib i f s) = used_cces s" "sc_bc_aggr_level (upd_sib i f s) = sc_bc_aggr_level s"
  by (simp_all add: used_cces_def upd_sib_def)

lemma sib_tx_adds:
  assumes "bc_lev st" and "sib_tx E i st = Some st'"
  shows "adds_dci (st_used st) (bc_locs st) (st_used st') (bc_locs st') \<and> bc_lev st'"
  using assms unfolding sib_tx_def Let_def
  by (auto split: if_splits simp: adds_dci_same dest!: place_bc_adds)

lemma paging_tx_adds:
  assumes "bc_lev st" and "paging_tx E paging st = Some st'"
  shows "adds_dci (st_used st) (bc_locs st) (st_used st') (bc_locs st') \<and> bc_lev st'"
  using assms unfolding paging_tx_def
  by (auto split: if_splits option.splits simp: adds_dci_same dest!: place_bc_adds)

interpretation bcl: dci_loop "sib_tx E" st_used bc_locs bc_lev for E
  by unfold_locales (auto dest: sib_tx_adds)

section \<open>Random access responses\<close>

definition rar_locs :: "sched \<times> nat \<times> dl_sched_rar_t list \<Rightarrow> dci_location list" where
  "rar_locs st = map rr_dci_location (take (fst (snd st)) (snd (snd st)))"

definition rar_lev :: "sched \<times> nat \<times> dl_sched_rar_t list \<Rightarrow> bool" where
  "rar_lev st \<longleftrightarrow> sc_rar_aggr_level (fst st) = 2"

text \<open>What the inner loop leaves alone.\<close>

definition rar_frame :: "sched \<Rightarrow> sched \<Rightarrow> bool" where
  "rar_frame s t \<longleftrightarrow> t = s\<lparr>sc_pending_rar := sc_pending_rar t, sc_pending_msg3 := sc_pending_msg3 t\<rparr>"

lemma rar_frame_update:
  "rar_frame s t \<Longrightarrow> rar_frame s (t\<lparr>sc_pending_rar := p, sc_pending_msg3 := q\<rparr>)"
  unfolding rar_frame_def by (erule ssubst) simp

lemma rar_frame_used: "rar_frame s t \<Longrightarrow> used_cces t = used_cces s \<and> sc_rar_aggr_level t = sc_rar_aggr_level s"
  unfolding rar_frame_def by (erule ssubst) (simp add: used_cces_def)

lemma rar_grants_frame:
  assumes "foldM (rar_grant_step E tti i) js (s, e, b, g) = Some (s', e', b', g')"
  shows "rar_frame s s' \<and> rr_dci_location e' = rr_dci_location e"
proof -
  let ?I = "\<lambda>st. rar_frame s (fst st) \<and> rr_dci_location (fst (snd st)) = rr_dci_location e"
  have "?I (s', e', b', g')"
  proof (rule foldM_invariant[OF assms, where I = ?I])
    show "?I (s, e, b, g)" by (simp add: rar_frame_def)
  next
    fix j st st' assume I: "?I st" and r: "rar_grant_step E tti i j st = Some st'"
    obtain t f c h where st: "st = (t, f, c, h)" by (cases st) auto
    have t: "rar_frame s t" "rr_dci_location f = rr_dci_location e" using I by (simp_all add: st)
    show "?I st'"
    proof (cases "ra_rar_tti (sc_pending_rar t j) = tti \<and> h = 0")
      case False
      then have "fst st' = t \<and> fst (snd st') = f"
        using r by (auto simp: rar_grant_step_def st split: if_splits)
      then show ?thesis using t by auto
    next
      case True
      then obtain p q where "fst st' = t\<lparr>sc_pending_rar := p, sc_pending_msg3 := q\<rparr>"
          "rr_dci_location (fst (snd st')) = rr_dci_location f"
        using r by (auto simp: rar_grant_step_def st Let_def clear_rar_def upd_rar_def bind_eq_Some_conv)
      then show ?thesis using t rar_frame_update by simp
    qed
  qed
  then show ?thesis by simp
qed

lemma rar_tx_cases:
  assumes "rar_tx E i (s, n, rar) = Some st'"
  obtains (idle) "st' = (s, n, rar)"
  | (late) "st' = (clear_rar i s, n, rar)" "0 < ra_buf_rar (sc_pending_rar s i)" "\<not> in_rar_window i s"
  | (nodci) locs s1 where "generate_dci E locs (sc_rar_aggr_level s) None s = Some (None, s1)"
      "st' = (s1, n, rar)"
  | (refused) locs s1 l s2 rar' e where "generate_dci E locs (sc_rar_aggr_level s) None s = Some (Some l, s1)"
      "rar_frame s1 s2" "wr rar n e = Some rar'" "st' = (s2, n, rar')"
  | (placed) locs s1 l s2 rar' e where "generate_dci E locs (sc_rar_aggr_level s) None s = Some (Some l, s1)"
      "rar_frame s1 s2" "wr rar n e = Some rar'" "rr_dci_location e = l"
      "sc_rar_n_rbg s \<le> sc_avail_rbg s" "st' = (take_rbg (sc_rar_n_rbg s2) s2, n + 1, rar')"
proof -
  let ?go = "0 < ra_buf_rar (sc_pending_rar s i) \<and> sc_rar_n_rbg s \<le> sc_avail_rbg s"
  show thesis
  proof (cases ?go)
    case False
    then show ?thesis using assms by (intro idle) (auto simp: rar_tx_def)
  next
    case go: True
    show ?thesis
    proof (cases "in_rar_window i s")
      case False
      then show ?thesis using assms go by (intro late) (auto simp: rar_tx_def)
    next
      case win: True
      obtain locs e r s1 where g: "rd2 (sc_rar_locations s) (unat (sc_current_cfi s - 1)) (unat (sc_sf_idx s)) = Some locs"
          "rd rar n = Some e" "generate_dci E locs (sc_rar_aggr_level s) None s = Some (r, s1)"
        using assms go win by (simp add: rar_tx_def bind_eq_Some_conv split_paired_Ex) blast
      show ?thesis
      proof (cases r)
        case None
        then show ?thesis using assms go win g by (intro nodci) (auto simp: rar_tx_def)
      next
        case (Some l)
        let ?tti = "ra_rar_tti (sc_pending_rar s1 i)"
        obtain s2 e2 buf gr where f: "foldM (rar_grant_step E ?tti i) [0..<SCHED_MAX_PENDING_RAR]
            (s1, e\<lparr>rr_dci_location := l\<rparr>, 0, 0) = Some (s2, e2, buf, gr)"
          using assms go win g Some by (simp add: rar_tx_def Let_def bind_eq_Some_conv split_paired_Ex) blast
        note fr = rar_grants_frame[OF f]
        let ?e = "e2\<lparr>rr_nof_grants := gr, rr_rarnti := (?tti + 1) mod 10\<rparr>"
        let ?r = "generate_format1a E (sc_start_rbg s2 * sc_P s2) (sc_rar_n_rbg s2 * sc_P s2) buf 0 (rr_dci ?e)"
        obtain t d where r: "?r = (t, d)" by fastforce
        show ?thesis
        proof (cases "0 \<le> t")
          case True
          then obtain rar' where w: "wr rar n (?e\<lparr>rr_dci := d, rr_tbs := buf\<rparr>) = Some rar'"
              "st' = (take_rbg (sc_rar_n_rbg s2) s2, n + 1, rar')"
            using assms go win g Some f r by (simp add: rar_tx_def Let_def bind_eq_Some_conv) blast
          show ?thesis
            using fr go by (intro placed[OF g(3)[unfolded Some] _ w(1) _ _ w(2)]) simp_all
        next
          case False
          then obtain rar' where w: "wr rar n (?e\<lparr>rr_dci := d\<rparr>) = Some rar'" "st' = (s2, n, rar')"
            using assms go win g Some f r by (simp add: rar_tx_def Let_def bind_eq_Some_conv) blast
          show ?thesis using fr by (intro refused[OF g(3)[unfolded Some] _ w]) simp
        qed
      qed
    qed
  qed
qed

lemma rar_tx_adds:
  assumes "rar_lev st" and "rar_tx E i st = Some st'"
  shows "adds_dci (st_used st) (rar_locs st) (st_used st') (rar_locs st') \<and> rar_lev st'"
proof -
  obtain s n rar where st: "st = (s, n, rar)" by (cases st) auto
  have lev: "sc_rar_aggr_level s < 2 ^ 32" using assms(1) by (simp add: rar_lev_def st)
  show ?thesis
  proof (rule rar_tx_cases[OF assms(2)[unfolded st]])
    assume "st' = (s, n, rar)"
    then show ?thesis using assms(1) by (simp add: st adds_dci_same)
  next
    assume "st' = (clear_rar i s, n, rar)"
    then show ?thesis using assms(1)
      by (simp add: st clear_rar_def upd_rar_def rar_lev_def rar_locs_def used_cces_def adds_dci_same)
  next
    fix locs s1
    assume a: "generate_dci E locs (sc_rar_aggr_level s) None s = Some (None, s1)" "st' = (s1, n, rar)"
    show ?thesis
      using generate_dci_adds[OF a(1) lev] generate_dci_frame[OF a(1)] a(2) assms(1)
      by (auto simp: st rar_locs_def rar_lev_def adds_dci_same)
  next
    fix locs s1 l s2 rar' e
    assume a: "generate_dci E locs (sc_rar_aggr_level s) None s = Some (Some l, s1)"
      "rar_frame s1 s2" "wr rar n e = Some rar'" "st' = (s2, n, rar')"
    then have "used_cces s2 = used_cces s1" "sc_rar_aggr_level s2 = sc_rar_aggr_level s"
      using generate_dci_frame[OF a(1)] rar_frame_used[OF a(2)] by auto
    then show ?thesis
      using generate_dci_adds[OF a(1) lev] a(4) wr_take_same[OF a(3)] assms(1)
      by (auto simp: st rar_locs_def rar_lev_def intro: adds_dci_kept)
  next
    fix locs s1 l s2 rar' e
    assume a: "generate_dci E locs (sc_rar_aggr_level s) None s = Some (Some l, s1)"
      "rar_frame s1 s2" "wr rar n e = Some rar'" "rr_dci_location e = l"
      "st' = (take_rbg (sc_rar_n_rbg s2) s2, n + 1, rar')"
    then have "used_cces s2 = used_cces s1" "sc_rar_aggr_level (take_rbg (sc_rar_n_rbg s2) s2) = sc_rar_aggr_level s"
      using generate_dci_frame[OF a(1)] rar_frame_used[OF a(2)] by (auto simp: take_rbg_def)
    then show ?thesis
      using generate_dci_adds[OF a(1) lev] a(4,5) wr_take_Suc[OF a(3)] assms(1)
      by (auto simp: st rar_locs_def rar_lev_def intro: adds_dci_new)
  qed
qed

interpretation rarl: dci_loop "rar_tx E" st_used rar_locs rar_lev for E
  by unfold_locales (auto dest: rar_tx_adds)

end
