(* ===== verification/Dci_Disjoint.thy ===== *)
theory Dci_Disjoint
  imports Dci_Pool
begin

text \<open>
  The user loops of both directions as \<open>dci_loop\<close>s, and the theorem on a whole TTI: the DCIs of
  a downlink round and of the uplink round that follows it occupy pairwise disjoint control
  channel elements.
\<close>

section \<open>Downlink users\<close>

lemma aggr_level_loop_le: "l + 1 \<le> k \<Longrightarrow> l_max \<le> k \<Longrightarrow> aggr_level_loop E b f m l_max l \<le> k"
proof (induction E b f m l_max l rule: aggr_level_loop.induct)
  case (1 E b f m l_max l)
  show ?case
    using 1 by (subst aggr_level_loop.simps) (auto simp: Let_def)
qed

lemma get_aggr_level_le: "get_aggr_level E b u \<le> 3"
  by (simp add: get_aggr_level_def Let_def aggr_level_loop_le)

lemma get_aggr_level_small: "get_aggr_level E b u < 2 ^ 32"
  using get_aggr_level_le[of E b u] by simp

lemma append_pdu_loc: "append_pdu tb p d = Some d' \<Longrightarrow> ds_dci_location d' = ds_dci_location d"
  by (auto simp: append_pdu_def bind_eq_Some_conv)

lemma put_conres_loc: "put_conres E d = Some d' \<Longrightarrow> ds_dci_location d' = ds_dci_location d"
  by (auto simp: put_conres_def bind_eq_Some_conv)

lemma fill_tb_loc: "fill_tb E tb rem d u = Some (d', u') \<Longrightarrow> ds_dci_location d' = ds_dci_location d"
proof (induction E tb rem d u arbitrary: d' u' rule: fill_tb.induct)
  case (1 E tb rem d u)
  let ?x = "fst (alloc_pdu E rem u)" and ?p = "fst (snd (alloc_pdu E rem u))"
  obtain c where c: "(case ?p of None \<Rightarrow> Some d | Some q \<Rightarrow> append_pdu tb q d) = Some c"
    using 1(2) by (subst (asm) fill_tb.simps) (auto simp: Let_def split: option.splits)
  then have l: "ds_dci_location c = ds_dci_location d" by (auto split: option.splits dest: append_pdu_loc)
  show ?case
  proof (cases "0 < rem - ?x \<and> 0 < ?x")
    case True
    then have "fill_tb E tb (rem - ?x) c (snd (snd (alloc_pdu E rem u))) = Some (d', u')"
      using 1(2) c by (subst (asm) fill_tb.simps) (simp add: Let_def)
    from 1(1)[OF refl refl refl c True this] l show ?thesis by simp
  next
    case False
    then have "d' = c" using 1(2) c by (subst (asm) fill_tb.simps) (auto simp: Let_def split: if_splits)
    then show ?thesis using l by simp
  qed
qed

lemma clear_dci_loc: "ds_dci_location (clear_dci h d) = ds_dci_location d"
  by (simp add: clear_dci_def)

lemma format1_loc:
  assumes "generate_format1 E i d tti cfi u = Some (t, d', u')"
  shows "ds_dci_location d' = ds_dci_location d"
proof -
  let ?d = "clear_dci (su_dl_harq u i) d"
  obtain mcs tbs e v where g: "(if is_empty (su_dl_harq u i) 0 then format1_new_tx E i ?d tti cfi u
        else let ((mcs, tbs), h) = new_retx 0 tti (su_dl_harq u i)
             in Some (mcs, tbs, ?d, upd_dl_harq i (\<lambda>_. h) u)) = Some (mcs, tbs, e, v)"
      "format1_result i mcs tbs e v = (t, d', u')"
    using assms by (simp add: generate_format1_def Let_def bind_eq_Some_conv split_paired_Ex) blast
  have "ds_dci_location e = ds_dci_location d"
  proof (cases "is_empty (su_dl_harq u i) 0")
    case True
    then show ?thesis
      using g(1) by (auto simp: format1_new_tx_def Let_def bind_eq_Some_conv clear_dci_loc
          dest!: fill_tb_loc put_conres_loc split: if_splits)
  next
    case False
    then show ?thesis using g(1) by (auto simp: new_retx_def clear_dci_loc)
  qed
  then show ?thesis using g(2) by (auto simp: format1_result_def Let_def split: if_splits)
qed

lemma set_dci_tb_loc [simp]: "ds_dci_location (set_dci_tb tb h mcs tbs d) = ds_dci_location d"
  by (simp add: set_dci_tb_def Let_def)

lemma format2_tb_loc:
  assumes "format2_tb E i tti nof_prb nof_re en nr tb (d, u) = Some (d', u')"
  shows "ds_dci_location d' = ds_dci_location d"
  using assms
  by (auto simp: format2_tb_def Let_def bind_eq_Some_conv new_retx_def split: if_splits dest!: fill_tb_loc)

lemma format2a_loc:
  assumes "generate_format2a E i d tti cfi u = Some (t, d', u')"
  shows "ds_dci_location d' = ds_dci_location d"
proof -
  let ?c = "clear_dci (su_dl_harq u i) d"
  obtain nof_prb nof_re en nr e v where
    f: "foldM (format2_tb E i tti nof_prb nof_re en nr) [0..<SRSLTE_MAX_TB E] (?c, u) = Some (e, v)"
    and d': "ds_dci_location d' = ds_dci_location e"
    using assms by (auto simp: generate_format2a_def Let_def bind_eq_Some_conv split: prod.splits)
  have "ds_dci_location (fst (e, v)) = ds_dci_location d"
  proof (rule foldM_invariant[OF f, where I = "\<lambda>st. ds_dci_location (fst st) = ds_dci_location d"])
    fix tb st st'
    assume "ds_dci_location (fst st) = ds_dci_location d"
      "format2_tb E i tti nof_prb nof_re en nr tb st = Some st'"
    then show "ds_dci_location (fst st') = ds_dci_location d"
      by (metis format2_tb_loc prod.collapse)
  qed (simp add: clear_dci_loc)
  then show ?thesis using d' by simp
qed

lemma format2_loc:
  "generate_format2 E i d tti cfi u = Some (t, d', u') \<Longrightarrow> ds_dci_location d' = ds_dci_location d"
  by (auto simp: generate_format2_def Let_def bind_eq_Some_conv dest: format2a_loc)

lemma data_grant_loc:
  "data_grant E f h d s u = Some (t, d', u') \<Longrightarrow> ds_dci_location d' = ds_dci_location d"
  by (auto simp: data_grant_def dest: format1_loc format2_loc format2a_loc split: dci_format.splits)

definition data_locs :: "sched \<times> nat \<times> dl_sched_data list \<Rightarrow> dci_location list" where
  "data_locs st = map ds_dci_location (take (fst (snd st)) (snd (snd st)))"

lemma data_tx_cases:
  assumes "data_tx E k (s, n, data) = Some st'"
  obtains (same) db data' e where "wr data n e = Some data'" "st' = (s\<lparr>sc_ue_db := db\<rparr>, n, data')"
  | (nodci) locs L v s1 db data' e where "generate_dci E locs L v s = Some (None, s1)" "L < 2 ^ 32"
      "wr data n e = Some data'" "st' = (s1\<lparr>sc_ue_db := db\<rparr>, n, data')"
  | (refused) locs L v s1 l db data' e where "generate_dci E locs L v s = Some (Some l, s1)" "L < 2 ^ 32"
      "wr data n e = Some data'" "st' = (s1\<lparr>sc_ue_db := db\<rparr>, n, data')"
  | (placed) locs L v s1 l db data' e where "generate_dci E locs L v s = Some (Some l, s1)" "L < 2 ^ 32"
      "wr data n e = Some data'" "ds_dci_location e = l" "st' = (s1\<lparr>sc_ue_db := db\<rparr>, n + 1, data')"
proof -
  obtain x d where x: "rd (sc_ue_db s) k = Some x" "rd data n = Some d"
    using assms by (auto simp: data_tx_def bind_eq_Some_conv)
  let ?u = "snd x" and ?d = "d\<lparr>ds_dci_format := get_dci_format (snd x)\<rparr>"
  let ?L = "get_aggr_level E (dci_format_sizeof E FORMAT1 (cl_nof_prb (cc_cell (sc_cfg s)))
                                 (cl_nof_ports (cc_cell (sc_cfg s)))) ?u"
  let ?locs = "get_locations (sc_current_cfi s) (sc_sf_idx s) ?u"
  show thesis
  proof (cases "dl_get_user_allocation ?u")
    case None
    then obtain data' db where "wr data n ?d = Some data'" "st' = (s\<lparr>sc_ue_db := db\<rparr>, n, data')"
      using assms x by (auto simp: data_tx_def Let_def bind_eq_Some_conv)
    then show ?thesis by (rule same)
  next
    case (Some h)
    obtain r s1 where g: "generate_dci E ?locs ?L (Some ?u) s = Some (r, s1)"
      using assms x Some by (simp add: data_tx_def Let_def bind_eq_Some_conv split_paired_Ex) blast
    show ?thesis
    proof (cases r)
      case None
      note g = g[unfolded None]
      obtain data' db where "wr data n ?d = Some data'" "st' = (s1\<lparr>sc_ue_db := db\<rparr>, n, data')"
        using assms x \<open>dl_get_user_allocation ?u = Some h\<close> g
        by (auto simp: data_tx_def Let_def bind_eq_Some_conv)
      then show ?thesis by (rule nodci[OF g get_aggr_level_small])
    next
      case (Some l)
      note g = g[unfolded Some]
      obtain tbs e v where f: "data_grant E (get_dci_format ?u) h (?d\<lparr>ds_dci_location := l\<rparr>) s1 ?u = Some (tbs, e, v)"
        using assms x \<open>dl_get_user_allocation ?u = Some h\<close> g
        by (simp add: data_tx_def Let_def bind_eq_Some_conv split_paired_Ex) blast
      have l: "ds_dci_location e = l" using data_grant_loc[OF f] by simp
      obtain data' db where w: "wr data n e = Some data'"
          "st' = (s1\<lparr>sc_ue_db := db\<rparr>, if 0 < tbs then n + 1 else n, data')"
        using assms x \<open>dl_get_user_allocation ?u = Some h\<close> g f
        by (auto simp: data_tx_def Let_def bind_eq_Some_conv)
      show ?thesis
      proof (cases "0 < tbs")
        case True
        then show ?thesis using w by (intro placed[OF g get_aggr_level_small w(1) l]) simp
      next
        case False
        then show ?thesis using w by (intro refused[OF g get_aggr_level_small w(1)]) simp
      qed
    qed
  qed
qed

lemma used_ue_db [simp]: "used_cces (s\<lparr>sc_ue_db := db\<rparr>) = used_cces s"
  by (simp add: used_cces_def)

lemma data_tx_adds:
  assumes "data_tx E k st = Some st'"
  shows "adds_dci (st_used st) (data_locs st) (st_used st') (data_locs st')"
proof -
  obtain s n data where st: "st = (s, n, data)" by (cases st) auto
  show ?thesis
  proof (rule data_tx_cases[OF assms[unfolded st]])
    fix db data' e
    assume a: "wr data n e = Some data'" "st' = (s\<lparr>sc_ue_db := db\<rparr>, n, data')"
    show ?thesis using a(2) wr_take_same[OF a(1)] by (simp add: st data_locs_def adds_dci_same)
  next
    fix locs L v s1 db data' e
    assume a: "generate_dci E locs L v s = Some (None, s1)" "L < 2 ^ 32"
      "wr data n e = Some data'" "st' = (s1\<lparr>sc_ue_db := db\<rparr>, n, data')"
    show ?thesis using generate_dci_adds[OF a(1,2)] a(4) wr_take_same[OF a(3)]
      by (simp add: st data_locs_def adds_dci_same)
  next
    fix locs L v s1 l db data' e
    assume a: "generate_dci E locs L v s = Some (Some l, s1)" "L < 2 ^ 32"
      "wr data n e = Some data'" "st' = (s1\<lparr>sc_ue_db := db\<rparr>, n, data')"
    show ?thesis using generate_dci_adds[OF a(1,2)] a(4) wr_take_same[OF a(3)]
      by (auto simp: st data_locs_def intro: adds_dci_kept)
  next
    fix locs L v s1 l db data' e
    assume a: "generate_dci E locs L v s = Some (Some l, s1)" "L < 2 ^ 32"
      "wr data n e = Some data'" "ds_dci_location e = l" "st' = (s1\<lparr>sc_ue_db := db\<rparr>, n + 1, data')"
    show ?thesis using generate_dci_adds[OF a(1,2)] a(4,5) wr_take_Suc[OF a(3)]
      by (auto simp: st data_locs_def intro: adds_dci_new)
  qed
qed

interpretation dal: dci_loop "data_tx E" st_used data_locs "\<lambda>_. True" for E
  by unfold_locales (auto dest: data_tx_adds)

section \<open>Uplink users\<close>

definition pusch_locs :: "sched \<times> nat \<times> ul_sched_data list \<Rightarrow> dci_location list" where
  "pusch_locs st = map us_dci_location (filter us_needs_pdcch (take (fst (snd st)) (snd (snd st))))"

lemma format0_dci:
  assumes "generate_format0 E i d tti cqi u = Some (t, d', u')"
  shows "us_dci_location d' = us_dci_location d \<and> us_needs_pdcch d' = us_needs_pdcch d"
proof -
  obtain nt mcs tbs v where "format0_tx E i tti u = Some (nt, mcs, tbs, v)"
      "format0_result (get_alloc (su_ul_harq u i)) i nt mcs tbs cqi (d\<lparr>us_dci := ul_dci_zero\<rparr>) v = (t, d', u')"
    using assms by (simp add: generate_format0_def Let_def bind_eq_Some_conv split_paired_Ex) blast
  then show ?thesis by (simp add: format0_result_def Let_def split: if_splits) auto
qed

text \<open>A grant that goes ahead either needs no DCI or has one; one that does not is not counted.\<close>

lemma pusch_dci_cases:
  assumes "pusch_dci E np i d s u = Some (go, d', s', u')"
  obtains (nopdcch) "\<not> np" "go" "s' = s" "\<not> us_needs_pdcch d'"
  | (nodci) locs L where "np" "\<not> go" "generate_dci E locs L None s = Some (None, s')" "L < 2 ^ 32"
  | (dci) locs L l where "np" "go" "generate_dci E locs L None s = Some (Some l, s')" "L < 2 ^ 32"
      "us_dci_location d' = l" "us_needs_pdcch d'"
proof -
  let ?L = "get_aggr_level E (dci_format_sizeof E FORMAT0 (cl_nof_prb (cc_cell (sc_cfg s)))
                                    (cl_nof_ports (cc_cell (sc_cfg s)))) u"
  let ?locs = "get_locations (sc_current_cfi s) (sc_sf_idx s) u"
  show thesis
  proof (cases np)
    case False
    then show ?thesis using assms by (intro nopdcch) (auto simp: pusch_dci_def)
  next
    case True
    then obtain r s1 where g: "generate_dci E ?locs ?L None s = Some (r, s1)"
      using assms by (auto simp: pusch_dci_def Let_def bind_eq_Some_conv)
    show ?thesis
    proof (cases r)
      case None
      then have "\<not> go" "s1 = s'" using assms True g by (auto simp: pusch_dci_def)
      then show ?thesis using nodci[OF True _ _ get_aggr_level_small] g None by blast
    next
      case (Some l)
      then have "go" "s1 = s'" "us_dci_location d' = l" "us_needs_pdcch d'"
        using assms True g by (auto simp: pusch_dci_def)
      then show ?thesis using dci[OF True _ _ get_aggr_level_small] g Some by blast
    qed
  qed
qed

lemma pusch_grant_cases:
  assumes "pusch_grant E tti is_rar i d s u = Some (ok, d', s', u')"
  obtains (nopdcch) "s' = s" "\<not> us_needs_pdcch d'"
  | (nodci) locs L where "\<not> ok" "generate_dci E locs L None s = Some (None, s')" "L < 2 ^ 32"
  | (dci) locs L l where "generate_dci E locs L None s = Some (Some l, s')" "L < 2 ^ 32"
      "us_dci_location d' = l" "us_needs_pdcch d'"
proof -
  let ?np = "\<not> is_adaptive_retx (su_ul_harq u i) \<and> \<not> is_rar"
  let ?v = "if is_empty (su_ul_harq u i) 0
      then upd_ul_harq i (set_max_retx (if is_rar then cc_maxharq_msg3tx (sc_cfg s) else get_max_retx u)) u
      else u"
  obtain go e s1 w where g: "pusch_dci E ?np i d s ?v = Some (go, e, s1, w)"
    using assms by (simp only: pusch_grant_def Let_def bind_eq_Some_conv) auto
  show thesis
  proof (cases go)
    case True
    obtain cqi w' where c: "needs_cqi E tti True w = (cqi, w')" by fastforce
    obtain t z where f: "generate_format0 E i e (sc_current_tti s1) cqi w' = Some (t, d', z)" and s1: "s1 = s'"
      using assms g True c by (simp only: pusch_grant_def Let_def) (auto simp: bind_eq_Some_conv)
    note fd = format0_dci[OF f]
    show ?thesis
    proof (rule pusch_dci_cases[OF g])
      assume "s1 = s" "\<not> us_needs_pdcch e"
      then show ?thesis using fd s1 by (intro nopdcch) simp_all
    next
      fix locs L
      assume "\<not> go"
      then show ?thesis using True by simp
    next
      fix locs L l
      assume "generate_dci E locs L None s = Some (Some l, s1)" "L < 2 ^ 32" "us_dci_location e = l" "us_needs_pdcch e"
      then show ?thesis using fd s1 by (intro dci[of locs L l]) simp_all
    qed
  next
    case False
    then have r: "s1 = s'" "\<not> ok" "d' = e"
      using assms g by (simp only: pusch_grant_def Let_def, auto)+
    show ?thesis
    proof (rule pusch_dci_cases[OF g])
      fix locs L
      assume "generate_dci E locs L None s = Some (None, s1)" "L < 2 ^ 32"
      then show ?thesis using r by (intro nodci[of locs L]) simp_all
    qed (use False in simp_all)
  qed
qed

lemma pusch_step_cases:
  assumes "pusch_step E tti k (s, n, pusch) = Some st'"
  obtains (nogrant) s1 db where "sc_used_cce s1 = sc_used_cce s" "st' = (s1\<lparr>sc_ue_db := db\<rparr>, n, pusch)"
  | (grant) s1 is_rar i d u ok e s2 v pusch' db where "sc_used_cce s1 = sc_used_cce s"
      "pusch_grant E tti is_rar i d s1 u = Some (ok, e, s2, v)" "wr pusch n e = Some pusch'"
      "st' = (s2\<lparr>sc_ue_db := db\<rparr>, if ok then n + 1 else n, pusch')"
proof -
  obtain x where x: "rd (sc_ue_db s) k = Some x" using assms by (auto simp: pusch_step_def bind_eq_Some_conv)
  obtain h is_rar s1 u where h: "pusch_harq E tti (fst x) s (snd x) = (h, is_rar, s1, u)"
    by (metis prod_cases4)
  then have u1: "sc_used_cce s1 = sc_used_cce s"
    by (auto simp: pusch_harq_def Let_def split: if_splits)
  show thesis
  proof (cases h)
    case None
    then obtain db where "st' = (s1\<lparr>sc_ue_db := db\<rparr>, n, pusch)"
      using assms x h by (auto simp: pusch_step_def bind_eq_Some_conv)
    then show ?thesis by (rule nogrant[OF u1])
  next
    case (Some i)
    obtain d ok e s2 v pusch' where g: "pusch_grant E tti is_rar i d s1 u = Some (ok, e, s2, v)"
        "rd pusch n = Some d" "wr pusch n e = Some pusch'"
      using assms x h Some by (auto simp: pusch_step_def bind_eq_Some_conv)
    then obtain db where "st' = (s2\<lparr>sc_ue_db := db\<rparr>, if ok then n + 1 else n, pusch')"
      using assms x h Some by (auto simp: pusch_step_def bind_eq_Some_conv)
    then show ?thesis by (rule grant[OF u1 g(1,3)])
  qed
qed

lemma pusch_step_adds:
  assumes "pusch_step E tti k st = Some st'"
  shows "adds_dci (st_used st) (pusch_locs st) (st_used st') (pusch_locs st')"
proof -
  obtain s n pusch where st: "st = (s, n, pusch)" by (cases st) auto
  show ?thesis
  proof (rule pusch_step_cases[OF assms[unfolded st]])
    fix s1 db
    assume "sc_used_cce s1 = sc_used_cce s" "st' = (s1\<lparr>sc_ue_db := db\<rparr>, n, pusch)"
    then show ?thesis by (simp add: st pusch_locs_def used_cces_def adds_dci_same)
  next
    fix s1 is_rar i d u ok e s2 v pusch' db
    assume a: "sc_used_cce s1 = sc_used_cce s" "pusch_grant E tti is_rar i d s1 u = Some (ok, e, s2, v)"
      "wr pusch n e = Some pusch'" "st' = (s2\<lparr>sc_ue_db := db\<rparr>, if ok then n + 1 else n, pusch')"
    have u1: "used_cces s1 = used_cces s" using a(1) by (simp add: used_cces_def)
    note tk = wr_take_same[OF a(3)] wr_take_Suc[OF a(3)]
    show ?thesis
    proof (rule pusch_grant_cases[OF a(2)])
      assume "s2 = s1" "\<not> us_needs_pdcch e"
      then show ?thesis using a(4) tk u1 by (simp add: st pusch_locs_def adds_dci_same)
    next
      fix locs L
      assume "\<not> ok" and g: "generate_dci E locs L None s1 = Some (None, s2)" "L < 2 ^ 32"
      then show ?thesis using generate_dci_adds[OF g] a(4) tk u1
        by (simp add: st pusch_locs_def adds_dci_same)
    next
      fix locs L l
      assume g: "generate_dci E locs L None s1 = Some (Some l, s2)" "L < 2 ^ 32"
        "us_dci_location e = l" "us_needs_pdcch e"
      then show ?thesis using generate_dci_adds[OF g(1,2)] a(4) tk u1
        by (cases ok) (auto simp: st pusch_locs_def intro: adds_dci_new adds_dci_kept)
    qed
  qed
qed

interpretation pul: dci_loop "pusch_step E tti" st_used pusch_locs "\<lambda>_. True" for E tti
  by unfold_locales (auto dest: pusch_step_adds)

section \<open>A downlink round\<close>

definition dl_dcis :: "dl_sched_res \<Rightarrow> dci_location list" where
  "dl_dcis r = map bc_dci_location (take (dr_nof_bc_elems r) (dr_bc r)) @
     map rr_dci_location (take (dr_nof_rar_elems r) (dr_rar r)) @
     map ds_dci_location (take (dr_nof_data_elems r) (dr_data r))"

definition ul_dcis :: "ul_sched_res \<Rightarrow> dci_location list" where
  "ul_dcis r = map us_dci_location (filter us_needs_pdcch (take (ur_nof_dci_elems r) (ur_pusch r)))"

lemma fold_sib_window_keeps:
  "sc_used_cce (fold (sib_window E) is s) = sc_used_cce s \<and>
   sc_bc_aggr_level (fold (sib_window E) is s) = sc_bc_aggr_level s"
proof (induction "is" arbitrary: s)
  case (Cons i js)
  have "sc_used_cce (sib_window E i s) = sc_used_cce s" "sc_bc_aggr_level (sib_window E i s) = sc_bc_aggr_level s"
    by (simp_all add: sib_window_def upd_sib_def Let_def)
  then show ?case using Cons by simp
qed simp

lemma dl_sched_bc_pool:
  assumes "dl_sched_bc E paging bc s = Some (s', n, bc')" and "sc_bc_aggr_level s = 2"
  shows "pool (used_cces s) (used_cces s') (map bc_dci_location (take n bc'))"
proof -
  let ?s = "fold (sib_window E) [0..<MAX_SIBS E] s"
  obtain st where f: "foldM (sib_tx E) [0..<MAX_SIBS E] (?s, 0, bc) = Some st"
      "paging_tx E paging st = Some (s', n, bc')"
    using assms(1) by (auto simp: dl_sched_bc_def Let_def bind_eq_Some_conv)
  have w: "used_cces ?s = used_cces s" "bc_lev (?s, 0, bc)"
    using fold_sib_window_keeps[of E "[0..<MAX_SIBS E]" s] assms(2) by (simp_all add: used_cces_def bc_lev_def)
  have "pool (used_cces s) (st_used st) (bc_locs st) \<and> bc_lev st"
    using bcl.loop_pool[OF f(1) w(2), of "used_cces s"] w(1) by (simp add: bc_locs_def pool_start)
  then show ?thesis
    using paging_tx_adds[OF _ f(2)] pool_adds by (fastforce simp: bc_locs_def)
qed

lemma dl_sched_rar_pool:
  assumes "dl_sched_rar E rar s = Some (s', n, rar')" and "sc_rar_aggr_level s = 2"
  shows "pool (used_cces s) (used_cces s') (map rr_dci_location (take n rar'))"
  using rarl.loop_pool[of E "[0..<SCHED_MAX_PENDING_RAR]" "(s, 0, rar)"] assms
  by (auto simp: dl_sched_rar_def rar_lev_def rar_locs_def pool_start)

lemma dl_sched_data_pool:
  assumes "dl_sched_data_fn E data s = Some (s', n, data')"
  shows "pool (used_cces s) (used_cces s') (map ds_dci_location (take n data'))"
proof -
  let ?s = "prach_guard E s"
  obtain m db where f: "foldM (data_tx E) [0..<length db]
      (?s\<lparr>sc_dl_metric := Some m, sc_ue_db := db\<rparr>, 0, data) = Some (s', n, data')"
    using assms by (auto simp: dl_sched_data_fn_def Let_def bind_eq_Some_conv)
  have "used_cces (?s\<lparr>sc_dl_metric := Some m, sc_ue_db := db\<rparr>) = used_cces s"
    by (simp add: used_cces_def prach_guard_def)
  then show ?thesis
    using dal.loop_pool[OF f, of "used_cces s"] by (simp add: data_locs_def pool_start)
qed

text \<open>What a round leaves alone: its parameters.\<close>

definition params :: "sched \<Rightarrow> cell_cfg \<times> bool \<times> u32 \<times> u32 \<times> u32 \<times> u32 \<times> u32 \<times> u32 \<times> u32 \<times> nat \<times> nat" where
  "params s = (sc_cfg s, sc_configured s, sc_current_tti s, sc_sfn s, sc_sf_idx s, sc_current_cfi s,
     sc_P s, sc_si_n_rbg s, sc_rar_n_rbg s, sc_bc_aggr_level s, sc_rar_aggr_level s)"

lemma params_upd [simp]:
  "params (s\<lparr>sc_used_cce := a, sc_rand := k\<rparr>) = params s" "params (s\<lparr>sc_ue_db := db\<rparr>) = params s"
  "params (s\<lparr>sc_pending_rar := p, sc_pending_msg3 := q\<rparr>) = params s"
  "params (upd_sib i f s) = params s" "params (take_rbg n s) = params s" "params (clear_rar i s) = params s"
  "params (s\<lparr>sc_dl_metric := dm\<rparr>) = params s" "params (prach_guard E s) = params s"
  by (simp_all add: params_def upd_sib_def take_rbg_def clear_rar_def upd_rar_def prach_guard_def)

lemma params_dci: "generate_dci E locs L v s = Some (r, s') \<Longrightarrow> params s' = params s"
  by (auto dest!: generate_dci_frame)

lemma params_rar: "rar_frame s t \<Longrightarrow> params t = params s"
  unfolding rar_frame_def by (erule ssubst) simp

lemma place_bc_params:
  assumes "place_bc E nb rv acc entry count (s, n, bc) = Some st'" and "\<And>s. params (count s) = params s"
  shows "params (fst st') = params s"
  by (rule place_bc_cases[OF assms(1)]) (use assms(2) in \<open>auto dest!: params_dci\<close>)

lemma sib_tx_params: "sib_tx E i st = Some st' \<Longrightarrow> params (fst st') = params (fst st)"
  by (cases st) (auto simp: sib_tx_def Let_def split: if_splits dest!: place_bc_params)

lemma paging_tx_params: "paging_tx E p st = Some st' \<Longrightarrow> params (fst st') = params (fst st)"
  by (cases st) (auto simp: paging_tx_def split: if_splits option.splits dest!: place_bc_params)

lemma sib_window_params: "params (fold (sib_window E) js s) = params s"
  by (induction js arbitrary: s) (simp_all add: sib_window_def Let_def)

lemma loop_params:
  assumes "foldM f xs st = Some st'" and "\<And>x st st'. f x st = Some st' \<Longrightarrow> params (fst st') = params (fst st)"
  shows "params (fst st') = params (fst st)"
  by (rule foldM_invariant[OF assms(1), where I = "\<lambda>t. params (fst t) = params (fst st)"]) (auto dest: assms(2))

lemma dl_sched_bc_params: "dl_sched_bc E paging bc s = Some (s', n, bc') \<Longrightarrow> params s' = params s"
  by (auto simp: dl_sched_bc_def Let_def bind_eq_Some_conv sib_window_params
      dest!: loop_params[OF _ sib_tx_params] paging_tx_params)

lemma rar_tx_params: "rar_tx E i st = Some st' \<Longrightarrow> params (fst st') = params (fst st)"
  by (cases st, simp, erule rar_tx_cases) (auto dest!: params_dci params_rar)

lemma dl_sched_rar_params: "dl_sched_rar E rar s = Some (s', n, rar') \<Longrightarrow> params s' = params s"
  by (auto simp: dl_sched_rar_def dest!: loop_params[OF _ rar_tx_params])

lemma data_tx_params: "data_tx E k st = Some st' \<Longrightarrow> params (fst st') = params (fst st)"
  by (cases st, simp, erule data_tx_cases) (auto dest!: params_dci)

lemma dl_sched_data_params: "dl_sched_data_fn E data s = Some (s', n, data') \<Longrightarrow> params s' = params s"
  by (auto simp: dl_sched_data_fn_def Let_def bind_eq_Some_conv dest!: loop_params[OF _ data_tx_params])

lemma dl_sched_params:
  assumes "dl_sched E paging tti res s = Some (c, res', s')" and "sc_configured s"
  shows "params s' = params (dl_start tti s)"
  using assms
  by (auto simp: dl_sched_def Let_def bind_eq_Some_conv
      dest!: dl_sched_bc_params dl_sched_rar_params dl_sched_data_params)

definition cces_disjoint :: "dci_location list \<Rightarrow> bool" where
  "cces_disjoint ls \<longleftrightarrow>
     (\<forall>i j. i < j \<and> j < length ls \<longrightarrow> loc_cces (ls ! i) \<inter> loc_cces (ls ! j) = {})"

lemma pool_disjoint: "pool B U ls \<Longrightarrow> cces_disjoint ls"
  by (simp add: pool_def cces_disjoint_def sorted_wrt_iff_nth_less)

lemma dl_sched_pool:
  assumes "dl_sched E paging tti res s = Some (c, res', s')" and "sc_configured s"
  shows "pool (used_cces (dl_start tti s)) (used_cces s') (dl_dcis res')"
proof -
  let ?s = "dl_start tti s"
  obtain s1 nbc bc s2 nrar rar ndata data where
    b: "dl_sched_bc E paging (dr_bc (dl_res_zero E)) ?s = Some (s1, nbc, bc)" and
    r: "dl_sched_rar E (dr_rar (dl_res_zero E)) s1 = Some (s2, nrar, rar)" and
    d: "dl_sched_data_fn E (dr_data (dl_res_zero E)) s2 = Some (s', ndata, data)" and
    res: "dl_dcis res' = map bc_dci_location (take nbc bc) @ map rr_dci_location (take nrar rar) @
       map ds_dci_location (take ndata data)"
    using assms by (auto simp: dl_sched_def Let_def bind_eq_Some_conv dl_dcis_def)
  have l: "sc_bc_aggr_level ?s = 2" "sc_rar_aggr_level ?s = 2" by (simp_all add: dl_start_def Let_def)
  have "sc_rar_aggr_level s1 = 2" using dl_sched_bc_params[OF b] l by (simp add: params_def)
  then have p: "pool (used_cces ?s) (used_cces s1) (map bc_dci_location (take nbc bc))"
    "pool (used_cces s1) (used_cces s2) (map rr_dci_location (take nrar rar))"
    "pool (used_cces s2) (used_cces s') (map ds_dci_location (take ndata data))"
    using dl_sched_bc_pool[OF b l(1)] dl_sched_rar_pool[OF r] dl_sched_data_pool[OF d] by blast+
  show ?thesis unfolding res by (rule pool_join[OF p(1) pool_join[OF p(2,3)]])
qed

lemma ul_sched_pool:
  assumes "ul_sched E tti res s = Some (c, res', s')" and "c = 0" and "sc_configured s"
  shows "pool (used_cces (ul_start E tti s)) (used_cces s') (ul_dcis res')"
proof -
  let ?s = "ul_start E tti s"
  obtain m db s1 n pusch where
    f: "foldM (pusch_step E tti) [0..<length db] (?s\<lparr>sc_ul_metric := Some m, sc_ue_db := db\<rparr>, 0, ur_pusch (ul_res_zero E))
      = Some (s1, n, pusch)" and
    s': "s' = s1\<lparr>sc_ue_db := map (reset_pending_step E tti) (sc_ue_db s1)\<rparr>" and
    res: "ul_dcis res' = map us_dci_location (filter us_needs_pdcch (take n pusch))"
    using assms by (simp add: ul_sched_def Let_def bind_eq_Some_conv split_paired_Ex ul_dcis_def split: if_splits) fastforce
  have "used_cces (?s\<lparr>sc_ul_metric := Some m, sc_ue_db := db\<rparr>) = used_cces ?s" by (simp add: used_cces_def)
  then show ?thesis
    using pul.loop_pool[OF f, of "used_cces ?s"] by (simp add: pusch_locs_def pool_start res s')
qed

text \<open>C5: the DCIs of a TTI never overlap: the downlink round for \<open>tti\<close> and the uplink round that
  follows it for the TTI \<open>TTI_TX tti\<close>, whose DCIs are sent in the same subframe, give broadcast,
  random access, downlink and uplink DCIs whose control channel elements are pairwise disjoint.\<close>

theorem tti_dcis_disjoint:
  assumes "dl_sched E paging tti dres s = Some (c, dres', s1)" and "sc_configured s"
    and "ul_sched E (TTI_TX E tti) ures s1 = Some (0, ures', s2)"
  shows "cces_disjoint (dl_dcis dres' @ ul_dcis ures')"
proof -
  have st: "sc_configured s1" "sc_current_tti s1 = tti"
    using dl_sched_params[OF assms(1,2)] assms(2) by (simp_all add: params_def dl_start_def Let_def)
  then have "used_cces (ul_start E (TTI_TX E tti) s1) = used_cces s1"
    by (simp add: ul_start_def used_cces_def Let_def)
  then show ?thesis
    using pool_join[OF dl_sched_pool[OF assms(1,2)]] ul_sched_pool[OF assms(3) refl st(1)] pool_disjoint
    by fastforce
qed

section \<open>A concrete TTI\<close>

text \<open>
  A configured 25-block cell with system information block 1 due and one random access response
  pending, in TTI 5, with a library whose lists are short.
\<close>

definition demo_locs :: sched_dci_cce where
  "demo_locs = \<lparr>cce_start = [[0,0,0,0,0,0],[0,0,0,0,0,0],[0,4,0,0,0,0],[8,16,0,0,0,0]], nof_loc = [0,0,2,2]\<rparr>"

definition demo_sched :: sched where
  "demo_sched = (sched_new 0)\<lparr>sc_dl_metric := Some dl_metric_zero, sc_ul_metric := Some (demo_ul (replicate 4 False)),
     sc_cfg := demo_cell_cfg, sc_sched_cfg := \<lparr>sa_pdsch_mcs = -1, sa_pdsch_max_mcs = 28, sa_pusch_mcs = -1,
     sa_pusch_max_mcs = 28, sa_nof_ctrl_symbols = 3\<rparr>, sc_P := 2, sc_si_n_rbg := 2, sc_rar_n_rbg := 2,
     sc_nof_rbg := 13, sc_configured := True,
     sc_common_locations := [demo_locs, demo_locs, demo_locs],
     sc_rar_locations := replicate 3 (replicate 10 demo_locs),
     sc_pending_rar := (\<lambda>i. if i = 0 then \<lparr>ra_buf_rar = 7, ra_rnti = 70, ra_ra_id = 1, ra_rar_tti = 2\<rparr> else sched_rar_zero),
     sc_pending_sibs := (\<lambda>i. if i = 0 then \<lparr>sb_is_in_window = True, sb_window_start = 0, sb_n_tx = 0\<rparr> else sched_sib_zero)\<rparr>"

definition short_lib :: srslte where
  "short_lib = demo_lib\<lparr>MAX_SIBS := 1, MAX_BC_LIST := 1, MAX_RAR_LIST := 1, MAX_RAR_GRANTS := 1,
     MAX_DATA_LIST := 2, MAX_PHICH_LIST := 2, MAX_LC := 2, MAX_RLC_PDU_LIST := 2\<rparr>"

definition demo_tti :: "(int \<times> dci_location list \<times> dci_location list) option" where
  "demo_tti = do {
     (c, d, s1) \<leftarrow> dl_sched short_lib None 5 (dl_res_zero short_lib) demo_sched;
     (c', u, s2) \<leftarrow> ul_sched short_lib (TTI_TX short_lib 5) (ul_res_zero short_lib) s1;
     Some (c', dl_dcis d, ul_dcis u)
   }"

declare cqi_to_tbs_loop.simps [code] shorten_run.simps [code]

lemma demo_tti_run: "demo_tti = Some (0, [\<lparr>dl_L = 2, dl_ncce = 0\<rparr>, \<lparr>dl_L = 2, dl_ncce = 4\<rparr>], [])"
  by code_simp

theorem tti_dcis_disjoint_witness:
  "\<exists>c d s1 u s2. dl_sched short_lib None 5 (dl_res_zero short_lib) demo_sched = Some (c, d, s1) \<and>
     ul_sched short_lib (TTI_TX short_lib 5) (ul_res_zero short_lib) s1 = Some (0, u, s2) \<and>
     dl_dcis d = [\<lparr>dl_L = 2, dl_ncce = 0\<rparr>, \<lparr>dl_L = 2, dl_ncce = 4\<rparr>] \<and> cces_disjoint (dl_dcis d @ ul_dcis u)"
proof -
  obtain c d s1 u s2 where r: "dl_sched short_lib None 5 (dl_res_zero short_lib) demo_sched = Some (c, d, s1)"
      "ul_sched short_lib (TTI_TX short_lib 5) (ul_res_zero short_lib) s1 = Some (0, u, s2)"
      "dl_dcis d = [\<lparr>dl_L = 2, dl_ncce = 0\<rparr>, \<lparr>dl_L = 2, dl_ncce = 4\<rparr>]"
    using demo_tti_run by (auto simp: demo_tti_def bind_eq_Some_conv)
  have "sc_configured demo_sched" by (simp add: demo_sched_def)
  from tti_dcis_disjoint[OF r(1) this r(2)] r show ?thesis by blast
qed

end
