(* ===== verification/Sched_Rounds.thy ===== *)
theory Sched_Rounds
  imports Dci_Disjoint
begin

text \<open>
  What the rounds keep: the accounting of resource block groups in the downlink round, the bound
  on the transmissions of a block of system information, the window of the random access
  responses, the PRACH guard of narrow cells, and the resource blocks the uplink round reserves.
\<close>

section \<open>Resource block groups\<close>

definition groups :: "sched \<Rightarrow> nat" where
  "groups s = unat (sc_start_rbg s) + unat (sc_avail_rbg s)"

text \<open>Every counted entry took its groups from the front of the free ones.\<close>

definition rbg_step :: "u32 \<Rightarrow> sched \<Rightarrow> nat \<Rightarrow> sched \<Rightarrow> nat \<Rightarrow> bool" where
  "rbg_step k s n s' n' \<longleftrightarrow> groups s' = groups s \<and>
     (\<exists>d. n' = n + d \<and> unat (sc_start_rbg s') = unat (sc_start_rbg s) + d * unat k)"

lemma unat_lt_size: "unat w < 2 ^ 32" for w :: u32
  using unsigned_less[of w] by simp

lemma rbg_step_same: "sc_start_rbg s' = sc_start_rbg s \<Longrightarrow> sc_avail_rbg s' = sc_avail_rbg s \<Longrightarrow> rbg_step k s n s' n"
  by (simp add: rbg_step_def groups_def)

lemma rbg_step_take:
  assumes "k \<le> sc_avail_rbg s" and "groups s < 2 ^ 32"
  shows "rbg_step k s n (take_rbg k s) (Suc n)"
proof -
  have k: "unat k \<le> unat (sc_avail_rbg s)" using assms(1) by (simp add: word_le_nat_alt)
  then have "unat (sc_avail_rbg s - k) = unat (sc_avail_rbg s) - unat k" by (simp add: unat_sub assms(1))
  moreover have "unat (sc_start_rbg s + k) = unat (sc_start_rbg s) + unat k"
    using k assms(2) by (simp add: groups_def unat_word_ariths)
  ultimately show ?thesis using k by (simp add: rbg_step_def groups_def take_rbg_def)
qed

lemma rbg_step_trans:
  assumes "rbg_step k s n s' n'" and "rbg_step k s' n' s'' n''"
  shows "rbg_step k s n s'' n''"
proof -
  obtain c d where "n' = n + c" "unat (sc_start_rbg s') = unat (sc_start_rbg s) + c * unat k"
      "n'' = n' + d" "unat (sc_start_rbg s'') = unat (sc_start_rbg s') + d * unat k"
    using assms by (auto simp: rbg_step_def)
  then have "n'' = n + (c + d) \<and> unat (sc_start_rbg s'') = unat (sc_start_rbg s) + (c + d) * unat k"
    by (simp add: distrib_right)
  moreover have "groups s'' = groups s" using assms by (simp add: rbg_step_def)
  ultimately show ?thesis unfolding rbg_step_def by blast
qed

lemma dci_keeps_rbg:
  "generate_dci E locs L v s = Some (r, s') \<Longrightarrow> sc_start_rbg s' = sc_start_rbg s \<and> sc_avail_rbg s' = sc_avail_rbg s \<and>
     sc_si_n_rbg s' = sc_si_n_rbg s \<and> sc_rar_n_rbg s' = sc_rar_n_rbg s \<and> sc_pending_sibs s' = sc_pending_sibs s"
  by (auto dest!: generate_dci_frame)

lemma place_bc_rbg:
  assumes "place_bc E nb rv acc entry count (s, n, bc) = Some st'" and "sc_si_n_rbg s < sc_avail_rbg s"
    and "groups s < 2 ^ 32"
    and "\<And>s. sc_start_rbg (count s) = sc_start_rbg s" "\<And>s. sc_avail_rbg (count s) = sc_avail_rbg s"
  shows "rbg_step (sc_si_n_rbg s) s n (fst st') (fst (snd st'))"
proof (rule place_bc_cases[OF assms(1)])
  fix locs s1 l bc' e tbs
  assume g: "generate_dci E locs (sc_bc_aggr_level s) None s = Some (Some l, s1)"
    and st': "st' = (take_rbg (sc_si_n_rbg s1) (count s1), n + 1, bc')"
  note k = dci_keeps_rbg[OF g]
  have "rbg_step (sc_si_n_rbg s) (count s1) n (take_rbg (sc_si_n_rbg s) (count s1)) (Suc n)"
    using assms(2,3) k by (intro rbg_step_take) (simp_all add: assms(4,5) groups_def)
  moreover have "groups (count s1) = groups s" "sc_start_rbg (count s1) = sc_start_rbg s"
    using k by (simp_all add: groups_def assms(4,5))
  ultimately show ?thesis using st' k by (simp add: rbg_step_def)
qed (auto dest!: dci_keeps_rbg intro: rbg_step_same)

text \<open>A loop whose steps take groups of one size.\<close>

lemma loop_rbg:
  assumes "foldM f xs (s, n, r) = Some st'" and "groups s < 2 ^ 32"
    and "\<And>x st st'. f x st = Some st' \<Longrightarrow> groups (fst st) < 2 ^ 32 \<Longrightarrow> params (fst st) = params s \<Longrightarrow>
           rbg_step k (fst st) (fst (snd st)) (fst st') (fst (snd st')) \<and> params (fst st') = params (fst st)"
  shows "rbg_step k s n (fst st') (fst (snd st'))"
proof -
  let ?I = "\<lambda>st. rbg_step k s n (fst st) (fst (snd st)) \<and> params (fst st) = params s"
  have "?I st'"
  proof (rule foldM_invariant[OF assms(1), where I = ?I])
    show "?I (s, n, r)" by (simp add: rbg_step_same)
    fix x st st' assume I: "?I st" and r: "f x st = Some st'"
    have "groups (fst st) < 2 ^ 32" using I assms(2) by (simp add: rbg_step_def)
    then have "rbg_step k (fst st) (fst (snd st)) (fst st') (fst (snd st')) \<and> params (fst st') = params (fst st)"
      using assms(3)[OF r] I by blast
    then show "?I st'" using I rbg_step_trans by auto
  qed
  then show ?thesis by blast
qed

lemma params_sizes: "params s' = params s \<Longrightarrow> sc_si_n_rbg s' = sc_si_n_rbg s \<and> sc_rar_n_rbg s' = sc_rar_n_rbg s"
  by (simp add: params_def)

lemma sib_tx_rbg:
  assumes "sib_tx E i st = Some st'" and "groups (fst st) < 2 ^ 32"
  shows "rbg_step (sc_si_n_rbg (fst st)) (fst st) (fst (snd st)) (fst st') (fst (snd st'))"
proof -
  obtain s n bc where st: "st = (s, n, bc)" by (cases st) auto
  show ?thesis
    using assms
    by (auto simp: st sib_tx_def Let_def upd_sib_def rbg_step_same split: if_splits dest!: place_bc_rbg)
qed

lemma paging_tx_rbg:
  assumes "paging_tx E p st = Some st'" and "groups (fst st) < 2 ^ 32"
  shows "rbg_step (sc_si_n_rbg (fst st)) (fst st) (fst (snd st)) (fst st') (fst (snd st'))"
proof -
  obtain s n bc where st: "st = (s, n, bc)" by (cases st) auto
  show ?thesis
    using assms
    by (auto simp: st paging_tx_def rbg_step_same split: if_splits option.splits dest!: place_bc_rbg)
qed

lemma sib_window_rbg:
  "sc_start_rbg (fold (sib_window E) js s) = sc_start_rbg s \<and> sc_avail_rbg (fold (sib_window E) js s) = sc_avail_rbg s"
proof (induction js arbitrary: s)
  case (Cons i js)
  have "sc_start_rbg (sib_window E i s) = sc_start_rbg s" "sc_avail_rbg (sib_window E i s) = sc_avail_rbg s"
    by (simp_all add: sib_window_def upd_sib_def Let_def)
  then show ?case using Cons by simp
qed simp

lemma dl_sched_bc_rbg:
  assumes "dl_sched_bc E paging bc s = Some (s', n, bc')" and "groups s < 2 ^ 32"
  shows "rbg_step (sc_si_n_rbg s) s 0 s' n"
proof -
  let ?s = "fold (sib_window E) [0..<MAX_SIBS E] s"
  obtain st where f: "foldM (sib_tx E) [0..<MAX_SIBS E] (?s, 0, bc) = Some st"
      "paging_tx E paging st = Some (s', n, bc')"
    using assms(1) by (auto simp: dl_sched_bc_def Let_def bind_eq_Some_conv)
  have g: "groups ?s = groups s" "sc_start_rbg ?s = sc_start_rbg s"
    using sib_window_rbg[of E "[0..<MAX_SIBS E]" s] by (simp_all add: groups_def)
  have p: "params ?s = params s" by (rule sib_window_params)
  have a: "rbg_step (sc_si_n_rbg s) ?s 0 (fst st) (fst (snd st))"
  proof (rule loop_rbg[OF f(1)])
    show "groups ?s < 2 ^ 32" using g assms(2) by simp
    fix i st st' assume r: "sib_tx E i st = Some st'" "groups (fst st) < 2 ^ 32" "params (fst st) = params ?s"
    then have "sc_si_n_rbg (fst st) = sc_si_n_rbg s" using params_sizes[OF r(3)] params_sizes[OF p] by simp
    then show "rbg_step (sc_si_n_rbg s) (fst st) (fst (snd st)) (fst st') (fst (snd st')) \<and>
        params (fst st') = params (fst st)"
      using sib_tx_rbg[OF r(1,2)] sib_tx_params[OF r(1)] by simp
  qed
  have gs: "groups (fst st) < 2 ^ 32" using a g assms(2) by (simp add: rbg_step_def)
  have "params (fst st) = params s" using loop_params[OF f(1) sib_tx_params] p by simp
  then have "sc_si_n_rbg (fst st) = sc_si_n_rbg s" by (rule params_sizes[THEN conjunct1])
  then have "rbg_step (sc_si_n_rbg s) ?s 0 s' n"
    using rbg_step_trans[OF a] paging_tx_rbg[OF f(2) gs] by simp
  then show ?thesis using g by (simp add: rbg_step_def)
qed

lemma rar_frame_rbg: "rar_frame s t \<Longrightarrow> sc_start_rbg t = sc_start_rbg s \<and> sc_avail_rbg t = sc_avail_rbg s \<and>
    sc_rar_n_rbg t = sc_rar_n_rbg s \<and> sc_pending_sibs t = sc_pending_sibs s"
  unfolding rar_frame_def by (erule ssubst) simp

lemma rar_tx_rbg:
  assumes "rar_tx E i st = Some st'" and "groups (fst st) < 2 ^ 32"
  shows "rbg_step (sc_rar_n_rbg (fst st)) (fst st) (fst (snd st)) (fst st') (fst (snd st'))"
proof -
  obtain s n rar where st: "st = (s, n, rar)" by (cases st) auto
  have "rbg_step (sc_rar_n_rbg s) s n (fst st') (fst (snd st'))"
  proof (rule rar_tx_cases[OF assms(1)[unfolded st]])
    fix locs s1 l s2 rar' e
    assume a: "generate_dci E locs (sc_rar_aggr_level s) None s = Some (Some l, s1)" "rar_frame s1 s2"
      "sc_rar_n_rbg s \<le> sc_avail_rbg s" "st' = (take_rbg (sc_rar_n_rbg s2) s2, n + 1, rar')"
    note k = dci_keeps_rbg[OF a(1)] rar_frame_rbg[OF a(2)]
    have "rbg_step (sc_rar_n_rbg s) s2 n (take_rbg (sc_rar_n_rbg s) s2) (Suc n)"
      using a(3) assms(2) k by (intro rbg_step_take) (simp_all add: st groups_def)
    moreover have "groups s2 = groups s" using k by (simp add: groups_def)
    ultimately show ?thesis using a(4) k by (simp add: rbg_step_def)
  next
    fix locs s1 l s2 rar' e
    assume a: "generate_dci E locs (sc_rar_aggr_level s) None s = Some (Some l, s1)" "rar_frame s1 s2"
      "st' = (s2, n, rar')"
    show ?thesis using dci_keeps_rbg[OF a(1)] rar_frame_rbg[OF a(2)] a(3) by (simp add: rbg_step_same)
  qed (auto dest!: dci_keeps_rbg simp: clear_rar_def upd_rar_def intro: rbg_step_same)
  then show ?thesis by (simp add: st)
qed

lemma dl_sched_rar_rbg:
  assumes "dl_sched_rar E rar s = Some (s', n, rar')" and "groups s < 2 ^ 32"
  shows "rbg_step (sc_rar_n_rbg s) s 0 s' n"
proof -
  have "rbg_step (sc_rar_n_rbg s) s 0 (fst (s', n, rar')) (fst (snd (s', n, rar')))"
  proof (rule loop_rbg[OF assms(1)[unfolded dl_sched_rar_def] assms(2)])
    fix i st st' assume r: "rar_tx E i st = Some st'" "groups (fst st) < 2 ^ 32" "params (fst st) = params s"
    then have "sc_rar_n_rbg (fst st) = sc_rar_n_rbg s" using params_sizes[OF r(3)] by simp
    then show "rbg_step (sc_rar_n_rbg s) (fst st) (fst (snd st)) (fst st') (fst (snd st')) \<and>
        params (fst st') = params (fst st)"
      using rar_tx_rbg[OF r(1,2)] rar_tx_params[OF r(1)] by simp
  qed
  then show ?thesis by simp
qed

text \<open>C19: the downlink round never runs out of resource block groups or counts one twice: before
  user data is placed, the first free group is the number of broadcast entries times their size
  plus the number of random access responses times theirs, and it and the free groups together are
  the groups of the cell.\<close>

theorem dl_groups_accounted:
  assumes "dl_sched_bc E paging bc (dl_start tti s) = Some (s1, nbc, bc')"
    and "dl_sched_rar E rar s1 = Some (s2, nrar, rar')"
  shows "unat (sc_start_rbg s2) = nbc * unat (sc_si_n_rbg s) + nrar * unat (sc_rar_n_rbg s) \<and>
     unat (sc_start_rbg s2) + unat (sc_avail_rbg s2) = unat (sc_nof_rbg s)"
proof -
  let ?s = "dl_start tti s"
  have i: "sc_start_rbg ?s = 0" "sc_avail_rbg ?s = sc_nof_rbg s" "sc_si_n_rbg ?s = sc_si_n_rbg s"
    "sc_rar_n_rbg ?s = sc_rar_n_rbg s"
    by (simp_all add: dl_start_def Let_def)
  have g: "groups ?s = unat (sc_nof_rbg s)" using i by (simp add: groups_def)
  then have lt: "groups ?s < 2 ^ 32" using unat_lt_size[of "sc_nof_rbg s"] by simp
  have b: "rbg_step (sc_si_n_rbg s) ?s 0 s1 nbc" using dl_sched_bc_rbg[OF assms(1) lt] i by simp
  then have lt1: "groups s1 < 2 ^ 32" using lt by (simp add: rbg_step_def)
  have "sc_rar_n_rbg s1 = sc_rar_n_rbg s" using params_sizes[OF dl_sched_bc_params[OF assms(1)]] i by simp
  then have "rbg_step (sc_rar_n_rbg s) s1 0 s2 nrar" using dl_sched_rar_rbg[OF assms(2) lt1] by simp
  then show ?thesis using b g i by (auto simp: rbg_step_def groups_def)
qed

definition demo_groups :: "(nat \<times> nat \<times> u32 \<times> u32) option" where
  "demo_groups = do {
     (s1, n, b) \<leftarrow> dl_sched_bc short_lib None (dr_bc (dl_res_zero short_lib)) (dl_start 5 demo_sched);
     (s2, k, r) \<leftarrow> dl_sched_rar short_lib (dr_rar (dl_res_zero short_lib)) s1;
     Some (n, k, sc_start_rbg s2, sc_avail_rbg s2)
   }"

lemma demo_groups_run: "map_option (\<lambda>g. (fst g, fst (snd g))) demo_groups = Some (1, 1)"
  by code_simp

theorem dl_groups_accounted_witness:
  "\<exists>st av. demo_groups = Some (1, 1, st, av) \<and> unat st = 4 \<and> unat av = 9"
proof -
  obtain s1 b s2 r where f:
      "dl_sched_bc short_lib None (dr_bc (dl_res_zero short_lib)) (dl_start 5 demo_sched) = Some (s1, 1, b)"
      "dl_sched_rar short_lib (dr_rar (dl_res_zero short_lib)) s1 = Some (s2, 1, r)"
      "demo_groups = Some (1, 1, sc_start_rbg s2, sc_avail_rbg s2)"
    using demo_groups_run by (auto simp: demo_groups_def bind_eq_Some_conv)
  have "sc_si_n_rbg demo_sched = 2" "sc_rar_n_rbg demo_sched = 2" "sc_nof_rbg demo_sched = 13"
    by (simp_all add: demo_sched_def)
  then have "unat (sc_start_rbg s2) = 4" "unat (sc_avail_rbg s2) = 9"
    using dl_groups_accounted[OF f(1,2)] by simp_all
  then show ?thesis using f(3) by (intro exI conjI)
qed

section \<open>System information\<close>

definition sib_bound :: "sched \<Rightarrow> bool" where
  "sib_bound s \<longleftrightarrow> (\<forall>i. sb_n_tx (sc_pending_sibs s i) \<le> 4)"

lemma sib_bound_cong: "sc_pending_sibs s' = sc_pending_sibs s \<Longrightarrow> sib_bound s' = sib_bound s"
  by (simp add: sib_bound_def)

lemma sib_bound_upd: "sib_bound s \<Longrightarrow> sb_n_tx (f (sc_pending_sibs s i)) \<le> 4 \<Longrightarrow> sib_bound (upd_sib i f s)"
  by (simp add: sib_bound_def upd_sib_def)

lemma sib_bound_at: "sib_bound s \<Longrightarrow> sb_n_tx (sc_pending_sibs s i) \<le> 4"
  by (simp add: sib_bound_def)

lemma sib_window_bound: "sib_bound s \<Longrightarrow> sib_bound (sib_window E i s)"
  unfolding sib_window_def Let_def by (simp add: sib_bound_upd sib_bound_at)

lemma place_bc_bound:
  assumes "place_bc E nb rv acc entry count (s, n, bc) = Some st'" and "sib_bound s"
    and "\<And>t. sc_pending_sibs t = sc_pending_sibs s \<Longrightarrow> sib_bound (count t)"
  shows "sib_bound (fst st')"
proof (rule place_bc_cases[OF assms(1)])
  fix locs s1 l bc' e tbs
  assume "generate_dci E locs (sc_bc_aggr_level s) None s = Some (Some l, s1)"
    "st' = (take_rbg (sc_si_n_rbg s1) (count s1), n + 1, bc')"
  then show ?thesis using assms(3)[of s1] dci_keeps_rbg by (fastforce simp: take_rbg_def sib_bound_def)
qed (use assms(2) in \<open>auto dest!: dci_keeps_rbg simp: sib_bound_def\<close>)

lemma sib_tx_bound:
  assumes "sib_tx E i st = Some st'" and "sib_bound (fst st)"
  shows "sib_bound (fst st')"
proof -
  obtain s n bc where st: "st = (s, n, bc)" by (cases st) auto
  show ?thesis
  proof (cases "sb_n_tx (sc_pending_sibs s i) < 4")
    case False
    then have "st' = st" using assms(1) by (auto simp: st sib_tx_def Let_def)
    then show ?thesis using assms(2) by simp
  next
    case True
    then have "sib_bound (upd_sib i (\<lambda>p. p\<lparr>sb_n_tx := sb_n_tx p + 1\<rparr>) t)"
      if "sc_pending_sibs t = sc_pending_sibs s" for t
      using that assms(2) sib_bound_cong[OF that] by (intro sib_bound_upd) (simp_all add: st inc_le)
    then show ?thesis
      using assms by (auto simp: st sib_tx_def Let_def split: if_splits dest!: place_bc_bound)
  qed
qed

lemma paging_tx_bound:
  assumes "paging_tx E p st = Some st'" and "sib_bound (fst st)"
  shows "sib_bound (fst st')"
proof -
  obtain s n bc where st: "st = (s, n, bc)" by (cases st) auto
  have "sib_bound t" if "sc_pending_sibs t = sc_pending_sibs s" for t
    using sib_bound_cong[OF that] assms(2) by (simp add: st)
  then show ?thesis
    using assms by (auto simp: st paging_tx_def split: if_splits option.splits dest!: place_bc_bound)
qed

lemma rar_tx_sibs: "rar_tx E i st = Some st' \<Longrightarrow> sib_bound (fst st) \<Longrightarrow> sib_bound (fst st')"
proof (cases st)
  fix s n rar
  assume "rar_tx E i st = Some st'" "sib_bound (fst st)" and st: "st = (s, n, rar)"
  then have r: "rar_tx E i (s, n, rar) = Some st'" and b: "sib_bound s" by simp_all
  show ?thesis
    by (rule rar_tx_cases[OF r])
      (use b in \<open>auto dest!: dci_keeps_rbg rar_frame_rbg simp: clear_rar_def upd_rar_def take_rbg_def sib_bound_def\<close>)
qed

lemma data_tx_sibs: "data_tx E k st = Some st' \<Longrightarrow> sib_bound (fst st) \<Longrightarrow> sib_bound (fst st')"
proof (cases st)
  fix s n d
  assume "data_tx E k st = Some st'" "sib_bound (fst st)" and st: "st = (s, n, d)"
  then have r: "data_tx E k (s, n, d) = Some st'" and b: "sib_bound s" by simp_all
  show ?thesis
    by (rule data_tx_cases[OF r]) (use b in \<open>auto dest!: dci_keeps_rbg simp: sib_bound_def\<close>)
qed

text \<open>a block of system information is counted at most four times in its window, and the count
  never passes four in any downlink round.\<close>

theorem sib_transmissions_bounded:
  assumes "dl_sched E paging tti res s = Some (c, res', s')" and "sib_bound s"
  shows "sib_bound s'"
proof (cases "sc_configured s")
  case False
  then show ?thesis using assms by (simp add: dl_sched_def)
next
  case True
  let ?s = "dl_start tti s"
  obtain s1 nbc bc s2 nrar rar ndata data where
    b: "dl_sched_bc E paging (dr_bc (dl_res_zero E)) ?s = Some (s1, nbc, bc)" and
    r: "dl_sched_rar E (dr_rar (dl_res_zero E)) s1 = Some (s2, nrar, rar)" and
    d: "dl_sched_data_fn E (dr_data (dl_res_zero E)) s2 = Some (s', ndata, data)"
    using assms True by (auto simp: dl_sched_def Let_def bind_eq_Some_conv)
  have inv: "sib_bound (fst st')"
    if "foldM f xs st = Some st'" "sib_bound (fst st)"
      "\<And>x st st'. f x st = Some st' \<Longrightarrow> sib_bound (fst st) \<Longrightarrow> sib_bound (fst st')"
    for f xs and st st' :: "sched \<times> nat \<times> 'a list"
    by (rule foldM_invariant[OF that(1), where I = "\<lambda>st. sib_bound (fst st)"]) (use that(2,3) in blast)+
  have "sib_bound ?s" using assms(2) by (simp add: sib_bound_def dl_start_def Let_def)
  then have w: "sib_bound (fold (sib_window E) js ?s)" for js
    by (induction js arbitrary: s rule: rev_induct) (simp_all add: sib_window_bound)
  obtain st where st: "foldM (sib_tx E) [0..<MAX_SIBS E] (fold (sib_window E) [0..<MAX_SIBS E] ?s, 0, dr_bc (dl_res_zero E)) = Some st"
      "paging_tx E paging st = Some (s1, nbc, bc)"
    using b by (auto simp: dl_sched_bc_def Let_def bind_eq_Some_conv)
  have "sib_bound (fst st)"
    by (rule foldM_invariant[OF st(1), where I = "\<lambda>st. sib_bound (fst st)"]) (auto simp: w dest: sib_tx_bound)
  then have s1: "sib_bound s1" using paging_tx_bound[OF st(2)] by simp
  have "sib_bound (fst (s2, nrar, rar))"
    by (rule foldM_invariant[OF r[unfolded dl_sched_rar_def], where I = "\<lambda>st. sib_bound (fst st)"])
      (auto simp: s1 dest: rar_tx_sibs)
  then have s2: "sib_bound s2" by simp
  obtain m db where f: "foldM (data_tx E) [0..<length db]
      (prach_guard E s2\<lparr>sc_dl_metric := Some m, sc_ue_db := db\<rparr>, 0, dr_data (dl_res_zero E)) = Some (s', ndata, data)"
    using d by (auto simp: dl_sched_data_fn_def Let_def bind_eq_Some_conv)
  have "sib_bound (prach_guard E s2\<lparr>sc_dl_metric := Some m, sc_ue_db := db\<rparr>)"
    using s2 by (simp add: sib_bound_def prach_guard_def)
  then have "sib_bound (fst (s', ndata, data))"
    by (intro foldM_invariant[OF f, where I = "\<lambda>st. sib_bound (fst st)"]) (auto dest: data_tx_sibs)
  then show ?thesis by simp
qed

theorem sib_transmissions_bounded_witness:
  "\<exists>c res' s'. dl_sched short_lib None 5 (dl_res_zero short_lib) demo_sched = Some (c, res', s') \<and> sib_bound s'"
proof -
  obtain c res' s' where r: "dl_sched short_lib None 5 (dl_res_zero short_lib) demo_sched = Some (c, res', s')"
    using demo_tti_run by (auto simp: demo_tti_def bind_eq_Some_conv)
  have "sib_bound demo_sched" by (simp add: sib_bound_def demo_sched_def sched_sib_zero_def)
  from sib_transmissions_bounded[OF r this] r show ?thesis by blast
qed

section \<open>Random access responses at the wrap of the TTI\<close>

text \<open>a preamble received in one of the last three TTIs before the counter wraps is never
  answered: as soon as there is room for a response, the pending entry is discarded, because the
  start of the window is not reduced modulo 10240 while the current TTI is.\<close>

theorem rach_before_wrap_discarded:
  assumes "sc_current_tti s < 10240" and "10237 \<le> ra_rar_tti (sc_pending_rar s i)"
    and "ra_rar_tti (sc_pending_rar s i) < 10240"
    and "0 < ra_buf_rar (sc_pending_rar s i)" and "sc_rar_n_rbg s \<le> sc_avail_rbg s"
  shows "rar_tx E i (s, n, rar) = Some (clear_rar i s, n, rar)"
proof -
  let ?t = "ra_rar_tti (sc_pending_rar s i)"
  have "unat (?t + 3) = unat ?t + 3"
    using assms(3) by (simp add: unat_word_ariths word_less_nat_alt)
  then have "\<not> ?t + 3 \<le> sc_current_tti s"
    using assms(1,2) by (simp add: word_le_nat_alt word_less_nat_alt)
  then have "\<not> in_rar_window i s" by (simp add: in_rar_window_def)
  then show ?thesis using assms(4,5) by (simp add: rar_tx_def)
qed

theorem rach_before_wrap_discarded_witness:
  "\<exists>s. fst (dl_rach_info 10239 5 71 7 demo_sched) = 0 \<and> s = snd (dl_rach_info 10239 5 71 7 demo_sched) \<and>
     rar_tx demo_lib 1 (s\<lparr>sc_current_tti := 3, sc_avail_rbg := 13\<rparr>, 0, []) =
       Some (clear_rar 1 (s\<lparr>sc_current_tti := 3, sc_avail_rbg := 13\<rparr>), 0, [])"
proof -
  let ?s = "snd (dl_rach_info 10239 5 71 7 demo_sched)"
  have f: "find (\<lambda>i. ra_buf_rar (sc_pending_rar demo_sched i) = 0) [0..<SCHED_MAX_PENDING_RAR] = Some 1"
    by (simp add: SCHED_MAX_PENDING_RAR_def upt_rec demo_sched_def sched_rar_zero_def)
  have r: "fst (dl_rach_info 10239 5 71 7 demo_sched) = 0"
    "ra_rar_tti (sc_pending_rar ?s 1) = 10239" "ra_buf_rar (sc_pending_rar ?s 1) = 7" "sc_rar_n_rbg ?s = 2"
    by (simp_all add: dl_rach_info_def f) (simp_all add: demo_sched_def)
  have "rar_tx demo_lib 1 (?s\<lparr>sc_current_tti := 3, sc_avail_rbg := 13\<rparr>, 0, []) =
       Some (clear_rar 1 (?s\<lparr>sc_current_tti := 3, sc_avail_rbg := 13\<rparr>), 0, [])"
    by (rule rach_before_wrap_discarded) (simp_all add: r del: One_nat_def)
  then show ?thesis using r(1) by blast
qed

end
