(* ===== verification/Sched_Users.thy ===== *)
theory Sched_Users
  imports Sched_Rounds
begin

text \<open>
  The user map of the scheduler and what reaches its users: adding and removing them, the
  indications of the FAPI-like interface, the PRACH guard of the downlink round and the resource
  blocks the uplink round keeps from its users.
\<close>

section \<open>The user map\<close>

text \<open>adding a user and removing it again: \<open>ue_cfg\<close> makes the user known and leaves every
  other user as it was, \<open>ue_rem\<close> then succeeds, the user is unknown again, and a second removal
  reports an error and changes nothing.\<close>

theorem ue_cfg_rem_roundtrip:
  assumes "sched_ue_cfg E rnti c s = Some (r, s1)"
  shows "sched_ue_exists rnti s1 \<and>
    (\<forall>k. k \<noteq> rnti \<longrightarrow> omap_get (sc_ue_db s1) k = omap_get (sc_ue_db s) k) \<and>
    (\<exists>s2. sched_ue_rem rnti s1 = (0, s2) \<and> \<not> sched_ue_exists rnti s2 \<and>
       (\<forall>k. k \<noteq> rnti \<longrightarrow> omap_get (sc_ue_db s2) k = omap_get (sc_ue_db s) k) \<and>
       sched_ue_rem rnti s2 = (-1, s2))"
proof -
  obtain u where s1: "s1 = s\<lparr>sc_ue_db := omap_set rnti u (sc_ue_db s)\<rparr>"
    using assms by (auto simp: sched_ue_cfg_def Let_def bind_eq_Some_conv)
  let ?s2 = "s1\<lparr>sc_ue_db := omap_del rnti (sc_ue_db s1)\<rparr>"
  have "sched_ue_rem rnti s1 = (0, ?s2)" by (simp add: sched_ue_rem_def s1 om.put_same)
  then show ?thesis
    by (intro conjI exI[of _ ?s2])
      (simp_all add: s1 sched_ue_exists_def sched_ue_rem_def om.put_same om.put_other om.del_same om.del_other)
qed

theorem ue_cfg_rem_roundtrip_witness:
  "\<exists>s1 s2. sched_ue_cfg demo_lib 70 (Some ue_cfg_zero) (sched_new 0) = Some (0, s1) \<and>
     sched_ue_exists 70 s1 \<and> sched_ue_rem 70 s1 = (0, s2) \<and> \<not> sched_ue_exists 70 s2"
proof -
  have "tables_ok (sched_ue_new demo_lib)"
    using raw_tables_ok by (simp add: sched_ue_new_def reset_shape tables_ok_def)
  then obtain u where "set_cfg demo_lib 70 (Some ue_cfg_zero) (sc_cfg (sched_new 0)) (sc_regs (sched_new 0))
      (sched_ue_new demo_lib) = Some u"
    using set_cfg_configured[OF demo_few_candidates, of "sched_ue_new demo_lib" 70 ue_cfg_zero] by fastforce
  then obtain s1 where r: "sched_ue_cfg demo_lib 70 (Some ue_cfg_zero) (sched_new 0) = Some (0, s1)"
    by (simp add: sched_ue_cfg_def sched_new_def sched_reset_def)
  from ue_cfg_rem_roundtrip[OF r] r show ?thesis by blast
qed

text \<open>
  The calls of the interface that concern one user, as one type; \<open>indicate\<close> is the call.
\<close>

datatype indication =
    Bearer_Cfg u32 ue_bearer_cfg | Bearer_Rem u32
  | Rlc_Buffer u32 u32 u32 | Mac_Buffer u32 | Ant_Info tx_mode
  | Dl_Ack u32 nat bool | Ul_Crc u32 bool | Dl_Ri u32 u32 | Dl_Pmi u32 u32 | Dl_Cqi u32 u32
  | Ul_Cqi u32 u32 u32 | Ul_Bsr u32 u32 bool | Ul_Recv u32 u32 | Ul_Phr int | Ul_Sr u32

fun indicate :: "srslte \<Rightarrow> u16 \<Rightarrow> indication \<Rightarrow> sched \<Rightarrow> int \<times> sched" where
  "indicate E rnti (Bearer_Cfg lc c) = bearer_ue_cfg E rnti lc c"
| "indicate E rnti (Bearer_Rem lc) = bearer_ue_rem E rnti lc"
| "indicate E rnti (Rlc_Buffer lc tx retx) = dl_rlc_buffer_state E rnti lc tx retx"
| "indicate E rnti (Mac_Buffer ce) = dl_mac_buffer_state rnti ce"
| "indicate E rnti (Ant_Info m) = dl_ant_info rnti m"
| "indicate E rnti (Dl_Ack tti tb ack) = dl_ack_info E tti rnti tb ack"
| "indicate E rnti (Ul_Crc tti crc) = ul_crc_info E tti rnti crc"
| "indicate E rnti (Dl_Ri tti v) = dl_ri_info tti rnti v"
| "indicate E rnti (Dl_Pmi tti v) = dl_pmi_info tti rnti v"
| "indicate E rnti (Dl_Cqi tti v) = dl_cqi_info tti rnti v"
| "indicate E rnti (Ul_Cqi tti v ch) = ul_cqi_info tti rnti v ch"
| "indicate E rnti (Ul_Bsr lc v set_v) = ul_bsr E rnti lc v set_v"
| "indicate E rnti (Ul_Recv lc len) = sched_ul_recv_len E rnti lc len"
| "indicate E rnti (Ul_Phr phr) = sched_ul_phr rnti phr"
| "indicate E rnti (Ul_Sr tti) = ul_sr_info tti rnti"

lemmas indicate_defs = bearer_ue_cfg_def bearer_ue_rem_def dl_rlc_buffer_state_def dl_mac_buffer_state_def
  dl_ant_info_def dl_ack_info_def ul_crc_info_def dl_ri_info_def dl_pmi_info_def dl_cqi_info_def
  ul_cqi_info_def ul_bsr_def sched_ul_recv_len_def sched_ul_phr_def ul_sr_info_def

lemma indicate_on_ue: "\<exists>f. indicate E rnti i = on_ue rnti (-1) f"
  by (cases i) (auto simp: indicate_defs)

lemma on_ue_unknown: "omap_get (sc_ue_db s) rnti = None \<Longrightarrow> on_ue rnti err f s = (err, s)"
  by (simp add: on_ue_def)

lemma on_ue_frame:
  "\<exists>db. snd (on_ue rnti err f s) = s\<lparr>sc_ue_db := db\<rparr> \<and>
     (\<forall>k. (omap_get db k = None) = (omap_get (sc_ue_db s) k = None)) \<and>
     (\<forall>k. k \<noteq> rnti \<longrightarrow> omap_get db k = omap_get (sc_ue_db s) k)"
proof (cases "omap_get (sc_ue_db s) rnti")
  case None
  then show ?thesis by (intro exI[of _ "sc_ue_db s"]) (simp add: on_ue_def)
next
  case (Some u)
  then show ?thesis
    by (intro exI[of _ "omap_set rnti (snd (f u)) (sc_ue_db s)"]) (simp add: on_ue_def om.look_put)
qed

text \<open>C36: every indication for an unknown user is answered with an error and changes nothing; an
  indication for a known user touches that user alone: no user appears or disappears, and nothing
  of the scheduler besides the map changes.\<close>

theorem indication_isolated:
  "(omap_get (sc_ue_db s) rnti = None \<longrightarrow> indicate E rnti i s = (-1, s)) \<and>
   (\<exists>db. snd (indicate E rnti i s) = s\<lparr>sc_ue_db := db\<rparr> \<and>
      (\<forall>k. (omap_get db k = None) = (omap_get (sc_ue_db s) k = None)) \<and>
      (\<forall>k. k \<noteq> rnti \<longrightarrow> omap_get db k = omap_get (sc_ue_db s) k))"
proof -
  obtain f where f: "indicate E rnti i = on_ue rnti (-1) f" using indicate_on_ue by blast
  show ?thesis unfolding f using on_ue_frame[of rnti "-1" f s] on_ue_unknown[of s rnti "-1" f] by simp
qed

theorem indication_isolated_witness:
  "indicate demo_lib 70 (Ul_Bsr 1 100 True) demo_sched = (-1, demo_sched)"
  by (rule indication_isolated[THEN conjunct1, rule_format]) (simp add: demo_sched_def sched_new_def sched_reset_def)

section \<open>The PRACH guard\<close>

lemma metric_start_free:
  assumes "dl_metric_start st nof c tti m = Some m'" and "length (dm_used_rbg m) = MAX_RBG"
    and "unat (st + nof) \<le> MAX_RBG"
  shows "free_rbgs m' = {unat st..<unat (st + nof)} \<and> dm_total_rbg m' = st + nof"
proof -
  let ?T = "unat (st + nof)"
  have "foldM (\<lambda>i rbg. wr rbg i (i < unat st)) [0..<?T] (dm_used_rbg m) =
     Some (map (\<lambda>n. if n < ?T then n < unat st else dm_used_rbg m ! n) [0..<length (dm_used_rbg m)])"
    using assms(2,3) by (intro fold_wr_all) simp
  then have "dm_used_rbg m' = map (\<lambda>n. if n < ?T then n < unat st else dm_used_rbg m ! n) [0..<length (dm_used_rbg m)]"
    "dm_total_rbg m' = st + nof"
    using assms(1) by (auto simp: dl_metric_start_def Let_def bind_eq_Some_conv)
  then show ?thesis using assms(2,3) by (auto simp: free_rbgs_def)
qed

lemma initial_segment:
  fixes S :: "nat set"
  assumes "S \<subseteq> {a..<b}" and "\<And>n l. n \<in> S \<Longrightarrow> l \<in> {a..<b} \<Longrightarrow> l < n \<Longrightarrow> l \<in> S"
  shows "S = {a..<a + card S}"
proof (rule card_subset_eq)
  show "S \<subseteq> {a..<a + card S}"
  proof
    fix n assume n: "n \<in> S"
    then have "{a..n} \<subseteq> S" using assms by (auto simp: less_le) (metis assms(2) atLeastLessThan_iff le_less_trans le_neq_implies_less subsetD)
    then have "card {a..n} \<le> card S" using assms(1) by (meson card_mono finite_atLeastLessThan finite_subset)
    then show "n \<in> {a..<a + card S}" using n assms(1) by auto
  qed
qed simp_all

text \<open>In a fresh round the new mask takes the highest bits of those the free groups have.\<close>

lemma fresh_allocation:
  assumes "dl_metric_start st a c tti m = Some m'" and "length (dm_used_rbg m) = MAX_RBG"
    and "unat st + unat a \<le> MAX_RBG"
  shows "\<exists>ok w. dl_new_allocation k m' = Some (ok, w) \<and> ok = (unat k \<le> unat a) \<and>
     (\<forall>b. bit w b \<longleftrightarrow> unat a - min (unat k) (unat a) \<le> b \<and> b < unat a)"
proof -
  have T: "unat (st + a) = unat st + unat a" using assms(3) by (simp add: unat_word_ariths MAX_RBG_def)
  then have le: "unat (st + a) \<le> MAX_RBG" using assms(3) by simp
  have inv: "dl_inv m'"
    by (rule dl_metric_start_spec[OF assms(2) le, of c tti]) (use assms(1) in simp)
  have f: "free_rbgs m' = {unat st..<unat st + unat a}" and tot: "unat (dm_total_rbg m') = unat st + unat a"
    using metric_start_free[OF assms(1,2) le] T by simp_all
  obtain ok w where w: "dl_new_allocation k m' = Some (ok, w)" "rbgs m' w \<subseteq> free_rbgs m'"
      "ok = (card (rbgs m' w) = unat k)" "card (rbgs m' w) = min (unat k) (card (free_rbgs m'))"
      "\<And>n l. n \<in> rbgs m' w \<Longrightarrow> l \<in> free_rbgs m' \<Longrightarrow> l < n \<Longrightarrow> l \<in> rbgs m' w"
      "\<And>b. bit w b \<Longrightarrow> b < unat (dm_total_rbg m')"
    by (rule dl_new_allocation_spec[OF inv, of k]) blast
  define c' where "c' = min (unat k) (unat a)"
  have c: "card (rbgs m' w) = c'" using w(4) f by (simp add: c'_def)
  have r: "rbgs m' w = {unat st..<unat st + c'}"
    using initial_segment[of "rbgs m' w"] w(2,5) f c by fastforce
  have "bit w b \<longleftrightarrow> unat a - c' \<le> b \<and> b < unat a" for b
  proof (cases "b < unat st + unat a")
    case False
    then show ?thesis using w(6)[of b] tot by auto
  next
    case True
    let ?n = "unat st + unat a - 1 - b"
    have "bit w b \<longleftrightarrow> ?n \<in> rbgs m' w" using True by (auto simp: rbgs_def tot)
    also have "\<dots> \<longleftrightarrow> unat a - c' \<le> b \<and> b < unat a" using True by (auto simp: r c'_def)
    finally show ?thesis .
  qed
  moreover have "ok = (unat k \<le> unat a)" using w(3) c by (auto simp: c'_def)
  ultimately show ?thesis using w(1) by (auto simp: c'_def)
qed

text \<open>The part of \<open>dl_sched_data\<close> after the guard, and what it hands on: the users, the control channel
  elements, the number of grants and the grants.\<close>

definition data_round ::
  "srslte \<Rightarrow> dl_sched_data list \<Rightarrow> sched \<Rightarrow> (sched \<times> nat \<times> dl_sched_data list) option" where
  "data_round E data s = do {
     m \<leftarrow> sc_dl_metric s;
     (m, db) \<leftarrow> dl_new_tti E (sc_start_rbg s) (sc_avail_rbg s) (data_nof_ctrl s) (sc_current_tti s) (m, sc_ue_db s);
     foldM (data_tx E) [0..<length db] (s\<lparr>sc_dl_metric := Some m, sc_ue_db := db\<rparr>, 0, data)
   }"

lemma data_fn_guard: "dl_sched_data_fn E data s = data_round E data (prach_guard E s)"
  by (simp add: dl_sched_data_fn_def data_round_def Let_def cong: Option.bind_cong)

definition data_out ::
  "(sched \<times> nat \<times> dl_sched_data list) option \<Rightarrow> ((u16, sched_ue) omap \<times> bool list \<times> nat \<times> dl_sched_data list) option" where
  "data_out r = map_option (\<lambda>(s, n, d). (sc_ue_db s, sc_used_cce s, n, d)) r"

text \<open>The grants do not read the metric or the first free group.\<close>

definition moved :: "u32 \<Rightarrow> dl_metric option \<Rightarrow> sched \<Rightarrow> sched" where
  "moved a x s = s\<lparr>sc_start_rbg := a, sc_dl_metric := x\<rparr>"

lemma moved_sel [simp]:
  "sc_ue_db (moved a x s) = sc_ue_db s" "sc_used_cce (moved a x s) = sc_used_cce s" "sc_cfg (moved a x s) = sc_cfg s"
  "sc_current_tti (moved a x s) = sc_current_tti s" "sc_current_cfi (moved a x s) = sc_current_cfi s"
  "sc_sf_idx (moved a x s) = sc_sf_idx s" "sc_rand (moved a x s) = sc_rand s"
  by (simp_all add: moved_def)

lemma moved_db:
  "s\<lparr>sc_start_rbg := a, sc_dl_metric := x, sc_ue_db := d\<rparr> = moved a x (s\<lparr>sc_ue_db := d\<rparr>)"
  "s\<lparr>sc_dl_metric := x, sc_ue_db := d\<rparr> = moved (sc_start_rbg s) x (s\<lparr>sc_ue_db := d\<rparr>)"
  by (rule sched.equality; simp add: moved_def)+

lemma bind_foldM_Nil: "Option.bind x (foldM f []) = x"
  by (cases x) simp_all

lemma generate_dci_moved:
  "generate_dci E locs L v (moved a x s) = map_option (\<lambda>(l, t). (l, moved a x t)) (generate_dci E locs L v s)"
  by (cases "rd (nof_loc locs) L"; cases "rd (cce_start locs) L")
    (auto simp: generate_dci_def Let_def moved_def split: option.splits Option.bind_splits)

lemma data_grant_moved: "data_grant E f h d (moved a x s) u = data_grant E f h d s u"
  by (cases f) (simp_all add: data_grant_def)

lemma data_tx_moved:
  "data_out (data_tx E k (moved a x s, n, data)) = data_out (data_tx E k (s, n, data))"
proof (cases "rd (sc_ue_db s) k"; cases "rd data n")
  fix p d
  assume r: "rd (sc_ue_db s) k = Some p" "rd data n = Some d"
  let ?L = "get_aggr_level E (dci_format_sizeof E FORMAT1 (cl_nof_prb (cc_cell (sc_cfg s)))
      (cl_nof_ports (cc_cell (sc_cfg s)))) (snd p)"
  show ?thesis
  proof (cases "dl_get_user_allocation (snd p)")
    case None
    then show ?thesis using r by (auto simp: data_tx_def data_out_def Let_def split: Option.bind_splits)
  next
    case (Some h)
    show ?thesis
    proof (cases "generate_dci E (get_locations (sc_current_cfi s) (sc_sf_idx s) (snd p)) ?L (Some (snd p)) s")
      case None
      then show ?thesis using r Some by (simp add: data_tx_def generate_dci_moved data_out_def)
    next
      case (Some g)
      obtain loc t where g: "g = (loc, t)" by fastforce
      show ?thesis
      proof (cases loc)
        case None
        then show ?thesis using r Some \<open>dl_get_user_allocation (snd p) = Some h\<close> g
          by (auto simp: data_tx_def generate_dci_moved data_out_def Let_def split: Option.bind_splits)
      next
        case (Some l)
        show ?thesis
          using r Some \<open>generate_dci _ _ _ _ _ = Some g\<close> \<open>dl_get_user_allocation (snd p) = Some h\<close> g
          by (cases "data_grant E (get_dci_format (snd p)) h (d\<lparr>ds_dci_format := get_dci_format (snd p), ds_dci_location := l\<rparr>) t (snd p)")
            (auto simp: data_tx_def generate_dci_moved data_grant_moved data_out_def Let_def split: Option.bind_splits)
      qed
    qed
  qed
qed (simp_all add: data_tx_def data_out_def)

lemma one_user_tti:
  "dl_new_tti E st a c tti (m, [(r, u)]) = do {
     m \<leftarrow> dl_metric_start st a c tti m;
     (h, m, u) \<leftarrow> dl_apply_user_allocation E m u;
     Some (m, [(r, mark_dl h u)])
   }"
  by (simp add: dl_new_tti_def rr_visit_rotation rr_body_def case_prod_beta cong: Option.bind_cong)

lemma metric_start_tti: "dl_metric_start st a c tti m = Some m' \<Longrightarrow> dm_current_tti m' = tti \<and> dm_nof_ctrl_symbols m' = c"
  by (auto simp: dl_metric_start_def bind_eq_Some_conv)

text \<open>Two fresh metrics with the same number of available groups give a user without a pending
  retransmission the same process and groups, wherever the first free group is.\<close>

lemma fresh_newtx:
  assumes "dl_metric_start st a c tti m = Some m1" and "dl_metric_start st' a c tti m = Some m2"
    and "length (dm_used_rbg m) = MAX_RBG" and "unat st + unat a \<le> MAX_RBG" and "unat st' + unat a \<le> MAX_RBG"
    and "get_pending_dl_harq E tti u = None"
  shows "map_option (\<lambda>(h, n, v). (h, v)) (dl_apply_user_allocation E m1 u) =
    map_option (\<lambda>(h, n, v). (h, v)) (dl_apply_user_allocation E m2 u)"
proof -
  have le: "unat (st + a) \<le> MAX_RBG" "unat (st' + a) \<le> MAX_RBG"
    using assms(4,5) by (simp_all add: unat_word_ariths MAX_RBG_def)
  have inv: "dl_inv m1" "dl_inv m2"
    by (rule dl_metric_start_spec[OF assms(3) le(1), of c tti], use assms(1) in simp)
      (rule dl_metric_start_spec[OF assms(3) le(2), of c tti], use assms(2) in simp)
  have upd: "dl_update_allocation w m1 \<noteq> None" "dl_update_allocation w m2 \<noteq> None" for w
    by (rule dl_update_spec[OF inv(1), of w], simp) (rule dl_update_spec[OF inv(2), of w], simp)
  have new: "dl_new_allocation k m1 = dl_new_allocation k m2" for k
  proof -
    obtain ok w ok' w' where
      "dl_new_allocation k m1 = Some (ok, w)" "ok = (unat k \<le> unat a)"
      "\<forall>b. bit w b \<longleftrightarrow> unat a - min (unat k) (unat a) \<le> b \<and> b < unat a"
      "dl_new_allocation k m2 = Some (ok', w')" "ok' = (unat k \<le> unat a)"
      "\<forall>b. bit w' b \<longleftrightarrow> unat a - min (unat k) (unat a) \<le> b \<and> b < unat a"
      using fresh_allocation[OF assms(1,3,4), of k] fresh_allocation[OF assms(2,3,5), of k] by blast
    moreover from this have "w = w'" by (simp add: bit_eq_iff)
    ultimately show ?thesis by simp
  qed
  have f: "dm_current_tti m1 = tti" "dm_current_tti m2 = tti" "dm_nof_ctrl_symbols m1 = c" "dm_nof_ctrl_symbols m2 = c"
    using metric_start_tti[OF assms(1)] metric_start_tti[OF assms(2)] by simp_all
  obtain U1 U2 where u1: "\<And>w. dl_update_allocation w m1 = Some (U1 w)" and u2: "\<And>w. dl_update_allocation w m2 = Some (U2 w)"
  proof
    show "dl_update_allocation w m1 = Some (the (dl_update_allocation w m1))" for w using upd(1)[of w] by simp
    show "dl_update_allocation w m2 = Some (the (dl_update_allocation w m2))" for w using upd(2)[of w] by simp
  qed
  have fin: "map_option (\<lambda>(h, n, v). (h, v)) (dl_apply_newtx E m1 u) = map_option (\<lambda>(h, n, v). (h, v)) (dl_apply_newtx E m2 u)"
  proof (cases "get_empty_dl_harq E u")
    case None
    then show ?thesis by (simp add: dl_apply_newtx_def)
  next
    case (Some i)
    note i = this
    show ?thesis
    proof (cases "get_required_prb_dl E (get_pending_dl_new_data_total E u) c u")
      case None
      then show ?thesis using i by (simp add: dl_apply_newtx_def f Let_def)
    next
      case (Some n)
      note n = this
      show ?thesis
      proof (cases "dl_new_allocation (prb_to_rbg n u) m2")
        case None
        then show ?thesis using i n by (simp add: dl_apply_newtx_def f new Let_def)
      next
        case (Some x)
        then show ?thesis using i n by (cases x) (simp add: dl_apply_newtx_def f new u1 u2 Let_def)
      qed
    qed
  qed
  then show ?thesis using assms(6) by (simp add: dl_apply_user_allocation_def f)
qed


text \<open>A cell of six resource blocks with a PRACH due four TTIs ahead and one user with data.\<close>

definition narrow_ue :: sched_ue where
  "narrow_ue = demo_ue\<lparr>su_cell := demo_cell\<lparr>cl_nof_prb := 6\<rparr>, su_dci_locations := (\<lambda>_ _. demo_locs)\<rparr>"

definition narrow_sched :: sched where
  "narrow_sched = demo_sched\<lparr>sc_cfg := (sc_cfg demo_sched)\<lparr>cc_cell := demo_cell\<lparr>cl_nof_prb := 6\<rparr>\<rparr>, sc_start_rbg := 0,
     sc_avail_rbg := 6, sc_current_cfi := 3, sc_current_tti := 7, sc_sf_idx := 7,
     sc_used_cce := replicate MAX_CCE False,
     sc_ue_db := [(70, narrow_ue)]\<rparr>"

lemma narrow_pending:
  "get_pending_dl_harq short_lib 7 narrow_ue = None"
  by code_simp


section \<open>What the uplink round reserves\<close>

lemma reserve_used:
  "reserve a m = Some m' \<Longrightarrow> ul_inv m \<Longrightarrow> ul_inv m' \<and> ul_used m' = ul_used m \<union> run_set a"
  by (auto simp: reserve_def bind_eq_Some_conv dest: ul_update_spec)

text \<open>C20: the uplink metric gives no user a resource block that the round has reserved: the PRACH
  blocks of a PRACH opportunity, the blocks of a pending Msg3 and the configured PUCCH blocks at
  both edges.\<close>

theorem grants_avoid_reserved:
  assumes "ul_inv m0" and "valid_prb_one E" and "0 \<le> cc_nrb_pucch c"
    and "reserve_prach E tti c m0 = Some m1" and "reserve_msg3 p m1 = Some m2"
    and "reserve_pucch E tti c (m2, db) = Some (m3, db1)" and "ul_new_tti E tti (m3, db1) = Some (m4, db2)"
    and "i < length db1" and "su_ul_next_alloc (snd (db2 ! i)) = Some h"
  shows "(prach_opportunity E (cc_prach_config c) tti \<longrightarrow>
       ul_res (snd (db2 ! i)) h \<inter> run_set \<lparr>ua_RB_start = cc_prach_freq_offset c, ua_L = 6\<rparr> = {}) \<and>
     (m3_enabled p \<longrightarrow> ul_res (snd (db2 ! i)) h \<inter> run_set \<lparr>ua_RB_start = m3_n_prb p, ua_L = m3_L p\<rparr> = {}) \<and>
     ul_res (snd (db2 ! i)) h \<inter> run_set \<lparr>ua_RB_start = 0, ua_L = of_i32 (cc_nrb_pucch c)\<rparr> = {} \<and>
     ul_res (snd (db2 ! i)) h \<inter> run_set \<lparr>ua_RB_start = cl_nof_prb (cc_cell c) - of_i32 (cc_nrb_pucch c),
       ua_L = of_i32 (cc_nrb_pucch c)\<rparr> = {}"
proof -
  have m1: "ul_inv m1" "prach_opportunity E (cc_prach_config c) tti \<longrightarrow>
      run_set \<lparr>ua_RB_start = cc_prach_freq_offset c, ua_L = 6\<rparr> \<subseteq> ul_used m1"
    using assms(1,4) by (auto simp: reserve_prach_def dest!: reserve_used split: if_splits)
  have m2: "ul_inv m2" "ul_used m1 \<subseteq> ul_used m2"
      "m3_enabled p \<longrightarrow> run_set \<lparr>ua_RB_start = m3_n_prb p, ua_L = m3_L p\<rparr> \<subseteq> ul_used m2"
    using m1(1) assms(5) by (auto simp: reserve_msg3_def dest!: reserve_used split: if_splits)
  let ?L = "of_i32 (cc_nrb_pucch c)"
  obtain n where n: "reserve \<lparr>ua_RB_start = 0, ua_L = ?L\<rparr> m2 = Some n"
      "reserve \<lparr>ua_RB_start = cl_nof_prb (cc_cell c) - ?L, ua_L = ?L\<rparr> n = Some m3"
    using assms(3,6) by (auto simp: reserve_pucch_def Let_def bind_eq_Some_conv)
  have m3: "ul_inv m3" "ul_used m2 \<subseteq> ul_used m3" "run_set \<lparr>ua_RB_start = 0, ua_L = ?L\<rparr> \<subseteq> ul_used m3"
      "run_set \<lparr>ua_RB_start = cl_nof_prb (cc_cell c) - ?L, ua_L = ?L\<rparr> \<subseteq> ul_used m3"
    using reserve_used[OF n(1) m2(1)] reserve_used[OF n(2)] by auto
  have "ul_res (snd (db2 ! i)) h \<inter> ul_used m3 = {}"
    using ul_grants_pool[OF assms(7) m3(1) assms(2,8,9)] by blast
  then show ?thesis using m1 m2 m3 by blast
qed

definition narrow_cfg :: cell_cfg where
  "narrow_cfg = demo_cell_cfg\<lparr>cc_cell := demo_cell\<lparr>cl_nof_prb := 4\<rparr>, cc_nrb_pucch := 1\<rparr>"

definition demo_reserved ::
  "(ul_metric \<times> (u16, sched_ue) omap \<times> ul_metric \<times> (u16, sched_ue) omap) option" where
  "demo_reserved = do {
     m \<leftarrow> reserve_prach demo_lib 20 narrow_cfg (demo_ul [False, False, False, False]);
     m \<leftarrow> reserve_msg3 msg3_zero m;
     (m, db) \<leftarrow> reserve_pucch demo_lib 20 narrow_cfg (m, [(70, demo_ul_ue 1)]);
     (m', db') \<leftarrow> ul_new_tti demo_lib 20 (m, db);
     Some (m, db, m', db')
   }"

lemma demo_reserved_run:
  "map_option (\<lambda>(m, db, m', db'). (length db, su_ul_next_alloc (snd (db' ! 0)))) demo_reserved = Some (1, Some 4)"
  by code_simp

theorem grants_avoid_reserved_witness:
  "\<exists>m db m' db'. demo_reserved = Some (m, db, m', db') \<and> su_ul_next_alloc (snd (db' ! 0)) = Some 4 \<and>
     ul_res (snd (db' ! 0)) 4 \<inter> {0} = {} \<and> ul_res (snd (db' ! 0)) 4 \<inter> {3} = {}"
proof -
  obtain m1 m2 m db m' db' where r:
      "reserve_prach demo_lib 20 narrow_cfg (demo_ul [False, False, False, False]) = Some m1"
      "reserve_msg3 msg3_zero m1 = Some m2"
      "reserve_pucch demo_lib 20 narrow_cfg (m2, [(70, demo_ul_ue 1)]) = Some (m, db)"
      "ul_new_tti demo_lib 20 (m, db) = Some (m', db')" "demo_reserved = Some (m, db, m', db')"
      "length db = 1" "su_ul_next_alloc (snd (db' ! 0)) = Some 4"
    using demo_reserved_run by (auto simp: demo_reserved_def bind_eq_Some_conv)
  have i: "ul_inv (demo_ul [False, False, False, False])" by (simp add: demo_ul_inv)
  have c: "cc_nrb_pucch narrow_cfg = 1" "cl_nof_prb (cc_cell narrow_cfg) = 4" by (simp_all add: narrow_cfg_def)
  have "0 \<le> cc_nrb_pucch narrow_cfg" "0 < length db" using c r(6) by simp_all
  from grants_avoid_reserved[OF i demo_valid_prb_one this(1) r(1-4) this(2) r(7)]
  have "ul_res (snd (db' ! 0)) 4 \<inter> {0} = {}" "ul_res (snd (db' ! 0)) 4 \<inter> {3} = {}"
    by (simp_all add: c run_set_def)
  then show ?thesis using r(5,7) by blast
qed

end
