(* ===== verification/Mac_UE.thy ===== *)
theory Mac_UE
  imports Sched_State
begin

text \<open>
  The user context of the MAC (\<open>mac/ue.h\<close>, \<open>mac/ue.cc\<close>). Its calls into the scheduler act on the
  scheduler model; the calls it makes into the RLC, the RRC and the queue of received PDUs are
  recorded in order as a list of \<open>call\<close>s. Taking a PDU apart and putting one together is the
  srsLTE library's work: the received PDU is the list of its subheaders as the getters of
  \<open>sch_subh\<close> show them, and the packers are records of functions on an abstract state \<open>'w\<close> (the
  PDU being built, together with the RLC whose SDUs it takes). The soft buffers, which the user
  only hands out, are represented by their index. The mutex, the PCAP writer and the log are left
  out, as are the \<open>init\<close>, \<open>reset\<close> and \<open>free\<close> calls on the soft buffers.
\<close>

section \<open>What the code takes from the library\<close>

datatype ce_type = PHR_REPORT | CRNTI | TRUNC_BSR | SHORT_BSR | LONG_BSR | PADDING | OTHER_CE

text \<open>One subheader of a received PDU; \<open>sh_bsr\<close> is the answer of \<open>get_bsr\<close>, the index and the four sizes.\<close>

record sch_subh =
  sh_is_sdu :: bool
  sh_sdu_lcid :: u32
  sh_payload :: "u8 list"
  sh_ce_type :: ce_type
  sh_phr :: rat
  sh_c_rnti :: u16
  sh_bsr :: "int \<times> u32 list"

record mac_lib =
  PHR_REPORT_LCID :: u32
  MCH_SCHED_INFO :: u32
  MTCH_MAX_LCID :: u32
  MAC_CE_CONTRES_LEN :: nat
  parse_packet :: "u8 list \<Rightarrow> sch_subh list"
  vec_cma :: "rat \<Rightarrow> rat \<Rightarrow> u32 \<Rightarrow> rat"
  vec_ema :: "rat \<Rightarrow> rat \<Rightarrow> rat \<Rightarrow> rat"
  cqi_from_snr :: "rat \<Rightarrow> u32"
  ra_mcs_tbs :: "u32 \<Rightarrow> u32 \<Rightarrow> int"
  SRSLTE_MRNTI :: u16
  SRSLTE_SIRNTI :: u16
  SRSLTE_PRNTI :: u16

text \<open>
  The packer of DL-SCH PDUs; \<open>pk_set_sdu\<close> has the \<open>read_pdu\<close> method of its caller as an argument.
\<close>

record 'w packer =
  pk_init_tx :: "nat \<Rightarrow> u32 \<Rightarrow> 'w \<Rightarrow> 'w"
  pk_get_sdu_space :: "'w \<Rightarrow> int"
  pk_new_subh :: "'w \<Rightarrow> bool \<times> 'w"
  pk_set_sdu :: "u32 \<Rightarrow> int \<Rightarrow> (u32 \<Rightarrow> u32 \<Rightarrow> 'w \<Rightarrow> (int \<times> u8 list) \<times> 'w) \<Rightarrow> 'w \<Rightarrow> int \<times> 'w"
  pk_del_subh :: "'w \<Rightarrow> 'w"
  pk_set_con_res_id :: "64 word \<Rightarrow> 'w \<Rightarrow> bool \<times> 'w"
  pk_write_packet :: "'w \<Rightarrow> u8 list option"
  rlc_read_pdu :: "u16 \<Rightarrow> u32 \<Rightarrow> u32 \<Rightarrow> 'w \<Rightarrow> (int \<times> u8 list) \<times> 'w"

record 'w mch_packer =
  mk_init_tx :: "u32 \<Rightarrow> 'w \<Rightarrow> 'w"
  mk_new_subh :: "'w \<Rightarrow> 'w"
  mk_set_next_mch_sched_info :: "u32 \<Rightarrow> u32 \<Rightarrow> 'w \<Rightarrow> 'w"
  mk_set_sdu :: "u32 \<Rightarrow> u32 \<Rightarrow> u8 list \<Rightarrow> 'w \<Rightarrow> 'w"
  mk_write_packet :: "'w \<Rightarrow> u8 list option"

text \<open>What the MAC asks of the other layers, of the queue of received PDUs and of a soft buffer.\<close>

datatype call =
    Rlc_Write u16 u32 "u8 list"
  | Rrc_Activity u16
  | Rrc_Upd_User u16 u16
  | Rrc_Rl_Failure u16
  | Rrc_Add_User u16
  | Phy_Add_Rnti u16
  | Phy_Rem_Rnti u16
  | Pdu_Request u32
  | Pdu_Push nat u32
  | Pdu_Dealloc nat
  | Rx_Softbuffer_Reset u16 nat u32

section \<open>State\<close>

record mac_metrics =
  mm_rnti :: u16
  mm_tx_pkts :: int
  mm_tx_errors :: int
  mm_tx_brate :: int
  mm_rx_pkts :: int
  mm_rx_errors :: int
  mm_rx_brate :: int
  mm_ul_buffer :: int
  mm_dl_buffer :: int
  mm_dl_cqi :: rat
  mm_dl_ri :: rat
  mm_dl_pmi :: rat
  mm_phr :: rat

text \<open>\<open>mu_rlc\<close> tells whether the pointer to the RLC is set; a buffer is its address.\<close>

record mac_ue =
  mu_rnti :: u16
  mu_is_phy_added :: bool
  mu_lc_groups :: "u32 list list"
  mu_phr_counter :: u32
  mu_dl_cqi_counter :: u32
  mu_dl_ri_counter :: u32
  mu_dl_pmi_counter :: u32
  mu_metrics :: mac_metrics
  mu_conres_id :: "64 word"
  mu_last_tti :: u32
  mu_nof_failures :: u32
  mu_pending_buffers :: "nat option list"
  mu_rlc :: bool

definition mac_metrics_zero :: mac_metrics where
  "mac_metrics_zero = \<lparr>mm_rnti = 0, mm_tx_pkts = 0, mm_tx_errors = 0, mm_tx_brate = 0,
     mm_rx_pkts = 0, mm_rx_errors = 0, mm_rx_brate = 0, mm_ul_buffer = 0, mm_dl_buffer = 0,
     mm_dl_cqi = 0, mm_dl_ri = 0, mm_dl_pmi = 0, mm_phr = 0\<rparr>"

definition NOF_HARQ_PROCESSES :: "srslte \<Rightarrow> nat" where
  "NOF_HARQ_PROCESSES E = 2 * HARQ_DELAY_MS E * SRSLTE_MAX_TB E"

definition mac_ue_new :: "srslte \<Rightarrow> mac_ue" where
  "mac_ue_new E = \<lparr>mu_rnti = 0, mu_is_phy_added = False, mu_lc_groups = replicate 4 [],
     mu_phr_counter = 0, mu_dl_cqi_counter = 0, mu_dl_ri_counter = 0, mu_dl_pmi_counter = 0,
     mu_metrics = mac_metrics_zero, mu_conres_id = 0, mu_last_tti = 0, mu_nof_failures = 0,
     mu_pending_buffers = replicate (NOF_HARQ_PROCESSES E) None, mu_rlc = False\<rparr>"

section \<open>Configuration\<close>

text \<open>The loop of the code erases the channel from the same group four times.\<close>

definition set_lcg :: "u32 \<Rightarrow> u32 \<Rightarrow> mac_ue \<Rightarrow> mac_ue option" where
  "set_lcg lcid lcg u = do {
     grps \<leftarrow> foldM (\<lambda>_ grps. do {
         grp \<leftarrow> rd grps (unat lcg);
         wr grps (unat lcg) (removeAll lcid grp)
       }) [0..<4] (mu_lc_groups u);
     grp \<leftarrow> rd grps (unat lcg);
     grps \<leftarrow> wr grps (unat lcg) (grp @ [lcid]);
     Some (u\<lparr>mu_lc_groups := grps\<rparr>)
   }"

definition mac_ue_config :: "srslte \<Rightarrow> u16 \<Rightarrow> mac_ue \<Rightarrow> mac_ue option" where
  "mac_ue_config E rnti u = do {
     u \<leftarrow> set_lcg 0 0 (u\<lparr>mu_rnti := rnti, mu_rlc := True, mu_metrics := mac_metrics_zero,
       mu_nof_failures := 0, mu_pending_buffers := replicate (NOF_HARQ_PROCESSES E) None\<rparr>);
     set_lcg 1 0 u
   }"

definition mac_ue_reset :: "mac_ue \<Rightarrow> mac_ue" where
  "mac_ue_reset u = u\<lparr>mu_metrics := mac_metrics_zero, mu_nof_failures := 0\<rparr>"

definition ue_rl_failure :: "mac_ue \<Rightarrow> u32 \<times> mac_ue" where
  "ue_rl_failure u = (let n = mu_nof_failures u + 1 in (n, u\<lparr>mu_nof_failures := n\<rparr>))"

definition rl_failure_reset :: "mac_ue \<Rightarrow> mac_ue" where
  "rl_failure_reset u = u\<lparr>mu_nof_failures := 0\<rparr>"

definition set_tti :: "u32 \<Rightarrow> mac_ue \<Rightarrow> mac_ue" where
  "set_tti tti u = u\<lparr>mu_last_tti := tti\<rparr>"

section \<open>Buffers\<close>

definition harq_pid :: "srslte \<Rightarrow> u32 \<Rightarrow> nat" where
  "harq_pid E tti = unat tti mod NOF_HARQ_PROCESSES E"

definition get_rx_softbuffer :: "srslte \<Rightarrow> u32 \<Rightarrow> nat" where
  "get_rx_softbuffer E tti = harq_pid E tti"

definition get_tx_softbuffer :: "srslte \<Rightarrow> u32 \<Rightarrow> u32 \<Rightarrow> nat" where
  "get_tx_softbuffer E harq_process tb_idx =
     harq_pid E (harq_process * of_nat (SRSLTE_MAX_TB E) + tb_idx)"

text \<open>\<open>ans\<close> is the answer of the queue to the request.\<close>

definition request_buffer ::
  "srslte \<Rightarrow> u32 \<Rightarrow> u32 \<Rightarrow> nat option \<Rightarrow> mac_ue \<Rightarrow> nat option \<times> mac_ue \<times> call list" where
  "request_buffer E tti len ans u =
     (if 0 < len then
        (case mu_pending_buffers u ! harq_pid E tti of
           None \<Rightarrow> (ans, u\<lparr>mu_pending_buffers := (mu_pending_buffers u)[harq_pid E tti := ans]\<rparr>, [Pdu_Request len])
         | Some _ \<Rightarrow> (None, u, []))
      else (None, u, []))"

definition deallocate_pdu :: "srslte \<Rightarrow> u32 \<Rightarrow> mac_ue \<Rightarrow> mac_ue \<times> call list" where
  "deallocate_pdu E tti u =
     (case mu_pending_buffers u ! harq_pid E tti of
        Some b \<Rightarrow> (u\<lparr>mu_pending_buffers := (mu_pending_buffers u)[harq_pid E tti := None]\<rparr>, [Pdu_Dealloc b])
      | None \<Rightarrow> (u, []))"

definition push_pdu :: "srslte \<Rightarrow> u32 \<Rightarrow> u32 \<Rightarrow> mac_ue \<Rightarrow> mac_ue \<times> call list" where
  "push_pdu E tti len u =
     (case mu_pending_buffers u ! harq_pid E tti of
        Some b \<Rightarrow> (u\<lparr>mu_pending_buffers := (mu_pending_buffers u)[harq_pid E tti := None]\<rparr>, [Pdu_Push b len])
      | None \<Rightarrow> (u, []))"

section \<open>Metrics\<close>

definition upd_metrics :: "(mac_metrics \<Rightarrow> mac_metrics) \<Rightarrow> mac_ue \<Rightarrow> mac_ue" where
  "upd_metrics f u = u\<lparr>mu_metrics := f (mu_metrics u)\<rparr>"

definition metrics_phr :: "mac_lib \<Rightarrow> rat \<Rightarrow> mac_ue \<Rightarrow> mac_ue" where
  "metrics_phr L phr u =
     upd_metrics (\<lambda>m. m\<lparr>mm_phr := vec_cma L phr (mm_phr m) (mu_phr_counter u)\<rparr>) u
       \<lparr>mu_phr_counter := mu_phr_counter u + 1\<rparr>"

definition metrics_dl_ri :: "mac_lib \<Rightarrow> u32 \<Rightarrow> mac_ue \<Rightarrow> mac_ue" where
  "metrics_dl_ri L dl_ri u =
     upd_metrics (\<lambda>m. m\<lparr>mm_dl_ri :=
         (if mm_dl_ri m = 0 then of_nat (unat dl_ri) + 1
          else vec_ema L (of_nat (unat dl_ri) + 1) (mm_dl_ri m) (1 / 2))\<rparr>) u
       \<lparr>mu_dl_ri_counter := mu_dl_ri_counter u + 1\<rparr>"

definition metrics_dl_pmi :: "mac_lib \<Rightarrow> u32 \<Rightarrow> mac_ue \<Rightarrow> mac_ue" where
  "metrics_dl_pmi L dl_ri u =
     upd_metrics (\<lambda>m. m\<lparr>mm_dl_pmi := vec_cma L (of_nat (unat dl_ri)) (mm_dl_pmi m) (mu_dl_pmi_counter u)\<rparr>) u
       \<lparr>mu_dl_pmi_counter := mu_dl_pmi_counter u + 1\<rparr>"

definition metrics_dl_cqi :: "mac_lib \<Rightarrow> u32 \<Rightarrow> mac_ue \<Rightarrow> mac_ue" where
  "metrics_dl_cqi L dl_cqi u =
     upd_metrics (\<lambda>m. m\<lparr>mm_dl_cqi := vec_cma L (of_nat (unat dl_cqi)) (mm_dl_cqi m) (mu_dl_cqi_counter u)\<rparr>) u
       \<lparr>mu_dl_cqi_counter := mu_dl_cqi_counter u + 1\<rparr>"

text \<open>The bit counter is a C \<open>int\<close> to which an unsigned product is added.\<close>

definition metrics_rx :: "bool \<Rightarrow> u32 \<Rightarrow> mac_ue \<Rightarrow> mac_ue" where
  "metrics_rx crc tbs = upd_metrics (\<lambda>m.
     (if crc then m\<lparr>mm_rx_brate := i32 (of_i32 (mm_rx_brate m) + tbs * 8)\<rparr>
      else m\<lparr>mm_rx_errors := mm_rx_errors m + 1\<rparr>)\<lparr>mm_rx_pkts := mm_rx_pkts m + 1\<rparr>)"

definition metrics_tx :: "bool \<Rightarrow> u32 \<Rightarrow> mac_ue \<Rightarrow> mac_ue" where
  "metrics_tx crc tbs = upd_metrics (\<lambda>m.
     (if crc then m\<lparr>mm_tx_brate := i32 (of_i32 (mm_tx_brate m) + tbs * 8)\<rparr>
      else m\<lparr>mm_tx_errors := mm_tx_errors m + 1\<rparr>)\<lparr>mm_tx_pkts := mm_tx_pkts m + 1\<rparr>)"

definition metrics_read :: "srslte \<Rightarrow> sched \<Rightarrow> mac_ue \<Rightarrow> mac_metrics \<times> mac_ue" where
  "metrics_read E s u =
     (let m = (mu_metrics u)\<lparr>mm_rnti := mu_rnti u, mm_ul_buffer := i32 (get_ul_buffer E (mu_rnti u) s),
                 mm_dl_buffer := i32 (get_dl_buffer E (mu_rnti u) s)\<rparr>
      in (m, u\<lparr>mu_phr_counter := 0, mu_dl_cqi_counter := 0, mu_metrics := mac_metrics_zero\<rparr>))"

section \<open>Received PDUs\<close>

text \<open>The \<open>uint64_t\<close> of the contention resolution identity, written by bytes (little endian).\<close>

definition set_byte :: "nat \<Rightarrow> u8 \<Rightarrow> 64 word \<Rightarrow> 64 word" where
  "set_byte k b w = (w AND NOT (push_bit (8 * k) 255)) OR push_bit (8 * k) (ucast b)"

definition get_byte :: "nat \<Rightarrow> 64 word \<Rightarrow> u8" where
  "get_byte k w = ucast (drop_bit (8 * k) w)"

definition save_conres_id :: "nat \<Rightarrow> u8 list \<Rightarrow> 64 word \<Rightarrow> 64 word" where
  "save_conres_id nbytes pkt w = fold (\<lambda>i. set_byte (nbytes - i - 1) (pkt ! i)) [0..<nbytes] w"

text \<open>The checksum is a \<open>uint32_t\<close>.\<close>

definition byte_sum :: "u8 list \<Rightarrow> u32" where
  "byte_sum x = fold (\<lambda>b sum. sum + ucast b) x 0"

definition route_pdu :: "sch_subh \<Rightarrow> bool" where
  "route_pdu sh \<longleftrightarrow> \<not> (sh_sdu_lcid sh = 0 \<and> byte_sum (sh_payload sh) = 0)"

abbreviation payload_size :: "sch_subh \<Rightarrow> u32" where
  "payload_size sh \<equiv> of_nat (length (sh_payload sh))"

text \<open>One SDU: the user, the calls so far, \<open>most_data\<close> and \<open>lcid_most_data\<close>.\<close>

definition process_sdu ::
  "mac_lib \<Rightarrow> sch_subh \<Rightarrow> mac_ue \<times> call list \<times> int \<times> u32 \<Rightarrow> mac_ue \<times> call list \<times> int \<times> u32" where
  "process_sdu L sh a =
     (case a of (u, cs, most_data, lcid_most_data) \<Rightarrow>
        let cs = (if route_pdu sh
                  then cs @ [Rlc_Write (mu_rnti u) (sh_sdu_lcid sh) (sh_payload sh)] else cs);
            cs = (if 64 < payload_size sh then cs @ [Rrc_Activity (mu_rnti u)] else cs);
            more = most_data < i32 (payload_size sh);
            u = (if sh_sdu_lcid sh = 0 \<and> route_pdu sh \<and> of_nat (MAC_CE_CONTRES_LEN L) \<le> payload_size sh
                 then u\<lparr>mu_conres_id := save_conres_id (MAC_CE_CONTRES_LEN L) (sh_payload sh) (mu_conres_id u)\<rparr>
                 else u)
        in (u, cs, if more then i32 (payload_size sh) else most_data,
            if more then sh_sdu_lcid sh else lcid_most_data))"

text \<open>A C cast of a float to \<open>int\<close> truncates.\<close>

definition float_to_int :: "rat \<Rightarrow> int" where
  "float_to_int x = (if 0 \<le> x then \<lfloor>x\<rfloor> else \<lceil>x\<rceil>)"

definition bsr_group :: "srslte \<Rightarrow> u16 \<Rightarrow> u32 \<Rightarrow> u32 list \<Rightarrow> sched \<Rightarrow> sched" where
  "bsr_group E rnti sz grp s = fold (\<lambda>lcid s. snd (ul_bsr E rnti lcid sz True s)) grp s"

text \<open>The result is \<open>None\<close> where the code indexes a group or a size that does not exist.\<close>

definition process_ce ::
  "srslte \<Rightarrow> mac_lib \<Rightarrow> sch_subh \<Rightarrow> mac_ue \<times> sched \<times> call list \<Rightarrow>
   (bool \<times> mac_ue \<times> sched \<times> call list) option" where
  "process_ce E L sh a =
     (case a of (u, s, cs) \<Rightarrow>
      (case sh_ce_type sh of
         PHR_REPORT \<Rightarrow>
           Some (False, metrics_phr L (sh_phr sh) u,
                 snd (sched_ul_phr (mu_rnti u) (float_to_int (sh_phr sh)) s), cs)
       | CRNTI \<Rightarrow>
           Some (if sched_ue_exists (sh_c_rnti sh) s
                 then (False, u\<lparr>mu_rnti := sh_c_rnti sh\<rparr>, s, cs @ [Rrc_Upd_User (mu_rnti u) (sh_c_rnti sh)])
                 else (False, u, s, cs))
       | PADDING \<Rightarrow> Some (False, u, s, cs)
       | OTHER_CE \<Rightarrow> Some (False, u, s, cs)
       | LONG_BSR \<Rightarrow> do {
           s \<leftarrow> foldM (\<lambda>idx s. do {
               grp \<leftarrow> rd (mu_lc_groups u) idx;
               sz \<leftarrow> rd (snd (sh_bsr sh)) idx;
               Some (bsr_group E (mu_rnti u) sz grp s)
             }) [0..<4] s;
           Some (True, u, s, cs)
         }
       | _ \<Rightarrow>
           let idx = fst (sh_bsr sh) in
           if idx = -1 then Some (False, u, s, cs)
           else if idx < 0 then None
           else do {
             grp \<leftarrow> rd (mu_lc_groups u) (nat idx);
             sz \<leftarrow> rd (snd (sh_bsr sh)) (nat idx);
             Some (True, u, bsr_group E (mu_rnti u) sz grp s, cs)
           }))"

text \<open>
  The second pass over the control elements starts when all SDUs are routed. A user that sent no
  BSR although it had data for a channel above 2 gets 256 bytes added to that channel.
\<close>

definition process_ces ::
  "srslte \<Rightarrow> mac_lib \<Rightarrow> sch_subh list \<Rightarrow> mac_ue \<times> sched \<times> call list \<Rightarrow>
   (bool \<times> mac_ue \<times> sched \<times> call list) option" where
  "process_ces E L shs a =
     foldM (\<lambda>sh (bsr_received, a).
         if sh_is_sdu sh then Some (bsr_received, a)
         else do { (is_bsr, a) \<leftarrow> process_ce E L sh a; Some (bsr_received \<or> is_bsr, a) })
       shs (False, a)"

definition process_pdu ::
  "srslte \<Rightarrow> mac_lib \<Rightarrow> nat \<Rightarrow> u8 list \<Rightarrow> mac_ue \<Rightarrow> sched \<Rightarrow> (mac_ue \<times> sched \<times> call list) option" where
  "process_pdu E L pdu bytes u s =
     (let shs = parse_packet L bytes;
          (u, cs, most_data, lcid_most_data) =
            fold (\<lambda>sh a. if sh_is_sdu sh then process_sdu L sh a else a) shs (u, [Pdu_Dealloc pdu], -99, 0)
      in do {
        (bsr_received, u, s, cs) \<leftarrow> process_ces E L shs (u, s, cs);
        Some (u, if \<not> bsr_received \<and> 2 < lcid_most_data
                 then snd (ul_bsr E (mu_rnti u) lcid_most_data 256 False s) else s, cs)
      })"

section \<open>PDUs to send\<close>

definition ue_read_pdu :: "'w packer \<Rightarrow> mac_ue \<Rightarrow> u32 \<Rightarrow> u32 \<Rightarrow> 'w \<Rightarrow> (int \<times> u8 list) \<times> 'w" where
  "ue_read_pdu P u lcid requested_bytes = rlc_read_pdu P (mu_rnti u) lcid requested_bytes"

text \<open>The loop of \<open>allocate_sdu\<close>: \<open>sdu_len\<close> shrinks in every round that goes on.\<close>

function sdu_loop :: "'w packer \<Rightarrow> mac_ue \<Rightarrow> u32 \<Rightarrow> int \<Rightarrow> int \<Rightarrow> 'w \<Rightarrow> 'w" where
  "sdu_loop P u lcid sdu_len n w =
     (if 3 < sdu_len \<and> 0 < n then
        let (ok, w) = pk_new_subh P w in
        if ok then
          let (n, w) = pk_set_sdu P lcid sdu_len (ue_read_pdu P u) w in
          if 0 < n then sdu_loop P u lcid (sdu_len - n) n w
          else sdu_loop P u lcid sdu_len n (pk_del_subh P w)
        else sdu_loop P u lcid sdu_len 0 w
      else w)"
  by pat_completeness auto
termination
  by (relation "measure (\<lambda>(P, u, lcid, sdu_len, n, w). if 0 < n then Suc (nat sdu_len) else 0)") (auto split: prod.splits)

declare sdu_loop.simps [simp del]

definition allocate_sdu :: "'w packer \<Rightarrow> mac_ue \<Rightarrow> u32 \<Rightarrow> u32 \<Rightarrow> 'w \<Rightarrow> 'w" where
  "allocate_sdu P u lcid total_sdu_len w =
     (let sdu_space = pk_get_sdu_space P w in
      if 0 < sdu_space
      then sdu_loop P u lcid (i32 (min total_sdu_len (of_i32 sdu_space))) 1 w
      else w)"

definition allocate_ce :: "srslte \<Rightarrow> 'w packer \<Rightarrow> mac_ue \<Rightarrow> u32 \<Rightarrow> 'w \<Rightarrow> 'w" where
  "allocate_ce E P u lcid w =
     (if lcid = CON_RES_ID E then
        let (ok, w) = pk_new_subh P w in
        if ok then snd (pk_set_con_res_id P (mu_conres_id u) w) else w
      else w)"

text \<open>A user without an RLC (not configured) only prints an error.\<close>

definition generate_pdu ::
  "srslte \<Rightarrow> mac_lib \<Rightarrow> 'w packer \<Rightarrow> nat \<Rightarrow> dl_sched_pdu list \<Rightarrow> nat \<Rightarrow> u32 \<Rightarrow> mac_ue \<Rightarrow> 'w \<Rightarrow>
   (u8 list option \<times> 'w) option" where
  "generate_pdu E L P tb_idx pdu nof_pdu_elems grant_size u w =
     (if mu_rlc u then do {
        w \<leftarrow> foldM (\<lambda>i w. do {
            p \<leftarrow> rd pdu i;
            Some (if pdu_lcid p \<le> PHR_REPORT_LCID L then allocate_sdu P u (pdu_lcid p) (pdu_nbytes p) w
                  else allocate_ce E P u (pdu_lcid p) w)
          }) [0..<nof_pdu_elems] (pk_init_tx P tb_idx grant_size w);
        Some (pk_write_packet P w, w)
      } else Some (None, w))"

text \<open>The schedule of one MCH transmission (\<open>dl_pdu_mch_t\<close>).\<close>

record mtch_sched =
  mt_lcid :: u32
  mt_lcid_buffer_size :: u32
  mt_stop :: u32
  mt_mtch_payload :: "u8 list"

record dl_pdu_mch =
  mp_pdu :: "dl_sched_pdu list"
  mp_mtch_sched :: "mtch_sched list"
  mp_num_mtch_sched :: nat
  mp_mcch_payload :: "u8 list"
  mp_current_sf_allocation_num :: u32

definition generate_mch_pdu ::
  "mac_lib \<Rightarrow> 'w mch_packer \<Rightarrow> dl_pdu_mch \<Rightarrow> nat \<Rightarrow> u32 \<Rightarrow> 'w \<Rightarrow> (u8 list option \<times> 'w) option" where
  "generate_mch_pdu L M sch nof_pdu_elems grant_size w = do {
     w \<leftarrow> foldM (\<lambda>i w. do {
         p \<leftarrow> rd (mp_pdu sch) i;
         if pdu_lcid p = MCH_SCHED_INFO L then do {
           t \<leftarrow> rd (mp_mtch_sched sch) i;
           Some (mk_set_next_mch_sched_info M (mt_lcid t) (mt_stop t) (mk_new_subh M w))
         } else if pdu_lcid p = 0 then
           Some (mk_set_sdu M 0 (pdu_nbytes p) (mp_mcch_payload sch) (mk_new_subh M w))
         else if pdu_lcid p \<le> MTCH_MAX_LCID L then do {
           t \<leftarrow> rd (mp_mtch_sched sch) i;
           Some (mk_set_sdu M (pdu_lcid p) (pdu_nbytes p) (mt_mtch_payload t) (mk_new_subh M w))
         } else Some w
       }) [0..<nof_pdu_elems] (mk_init_tx M grant_size w);
     Some (mk_write_packet M w, w)
   }"

end
