(* ===== verification/Mac.thy ===== *)
theory Mac
  imports Mac_UE Sched_UL
begin

text \<open>
  The MAC entity (\<open>mac/mac.h\<close>, \<open>mac/mac.cc\<close>): the map of users, the pending random accesses, the
  scheduler it owns and the calls from the PHY, the RRC and the RLC. Calls into other layers are
  recorded as in \<open>Mac_UE\<close>. The operations return \<open>None\<close> where the code dereferences the null
  pointer that \<open>std::map\<close> creates for an unknown user, or leaves an array. The read-write lock, PCAP
  and the log are left out, and so is the thread that steps the timers of the library.
\<close>

section \<open>State\<close>

definition MAX_PENDING_RARS :: nat where
  "MAX_PENDING_RARS = 64"

definition rar_payload_len :: u32 where
  "rar_payload_len = 128"

definition mcch_payload_len :: nat where
  "mcch_payload_len = 3000"

record pending_rar =
  pr_preamble_idx :: u32
  pr_ta_cmd :: u32
  pr_temp_crnti :: u16

text \<open>The fields of the MCCH message and of SIB13 that the MAC reads.\<close>

record mcch_msg =
  mc_sf_alloc_end :: int
  mc_datamcs :: u32
  mc_lcids :: "u32 list"

text \<open>\<open>ma_sib13_mcs\<close> is the signalling MCS in the member \<open>sib13\<close>.\<close>

record mac =
  ma_started :: bool
  ma_cell :: srslte_cell
  ma_link_failure_nof_err :: int
  ma_sched_args :: sched_args
  ma_tti :: u32
  ma_scheduler :: sched
  ma_cell_config :: cell_cfg
  ma_mch :: dl_pdu_mch
  ma_ue_db :: "(u16, mac_ue) omap"
  ma_last_rnti :: u16
  ma_pending_rars :: "pending_rar list"
  ma_bcch_dlsch_payload :: "u8 list"
  ma_pcch_payload_buffer :: "u8 list"
  ma_mcch :: mcch_msg
  ma_current_mcch_length :: int
  ma_mcch_payload :: "u8 list"
  ma_sib13_mcs :: u32

definition pending_rar_zero :: pending_rar where
  "pending_rar_zero = \<lparr>pr_preamble_idx = 0, pr_ta_cmd = 0, pr_temp_crnti = 0\<rparr>"

text \<open>A MAC before its initialisation.\<close>

definition mac_new :: mac where
  "mac_new = \<lparr>ma_started = False, ma_cell = cell_zero, ma_link_failure_nof_err = 0,
     ma_sched_args = sched_args_zero, ma_tti = 0, ma_scheduler = sched_new 0, ma_cell_config = cell_cfg_zero,
     ma_mch = \<lparr>mp_pdu = replicate 20 pdu_zero, mp_mtch_sched = [], mp_num_mtch_sched = 0,
       mp_mcch_payload = [], mp_current_sf_allocation_num = 0\<rparr>,
     ma_ue_db = [], ma_last_rnti = 0, ma_pending_rars = replicate MAX_PENDING_RARS pending_rar_zero,
     ma_bcch_dlsch_payload = [], ma_pcch_payload_buffer = [],
     ma_mcch = \<lparr>mc_sf_alloc_end = 0, mc_datamcs = 0, mc_lcids = []\<rparr>, ma_current_mcch_length = 0,
     ma_mcch_payload = [], ma_sib13_mcs = 0\<rparr>"

text \<open>What the library does for the MAC on the state \<open>'w\<close>, besides packing user PDUs.\<close>

record 'w mac_env =
  en_packer :: "'w packer"
  en_mch_packer :: "'w mch_packer"
  en_rar_init_tx :: "nat \<Rightarrow> u32 \<Rightarrow> 'w \<Rightarrow> 'w"
  en_rar_new_subh :: "'w \<Rightarrow> bool \<times> 'w"
  en_rar_set_rapid :: "u32 \<Rightarrow> 'w \<Rightarrow> 'w"
  en_rar_set_ta_cmd :: "u32 \<Rightarrow> 'w \<Rightarrow> 'w"
  en_rar_set_temp_crnti :: "u16 \<Rightarrow> 'w \<Rightarrow> 'w"
  en_rar_set_sched_grant :: "rar_grant \<Rightarrow> 'w \<Rightarrow> 'w"
  en_rar_write_packet :: "'w \<Rightarrow> u8 list"
  en_read_pdu_bcch_dlsch :: "u32 \<Rightarrow> 'w \<Rightarrow> u8 list"
  en_read_pdu_pcch :: "'w \<Rightarrow> u8 list"

section \<open>Start and stop\<close>

text \<open>The pointers \<open>init\<close> tests: the arguments and the cell as options, the other three as a flag.\<close>

definition mac_reset :: "mac \<Rightarrow> mac" where
  "mac_reset m = m\<lparr>ma_tti := 0, ma_last_rnti := 70, ma_scheduler := sched_reset (ma_scheduler m)\<rparr>"

definition ul_metric_zero :: ul_metric where
  "ul_metric_zero = \<lparr>um_used_rb = replicate 100 False, um_current_tti = 0, um_nof_rb = 0\<rparr>"

definition mac_init :: "(sched_args \<times> int) option \<Rightarrow> srslte_cell option \<Rightarrow> bool \<Rightarrow> mac \<Rightarrow> bool \<times> mac" where
  "mac_init args cell ptrs m =
     (let m = m\<lparr>ma_started := False\<rparr> in
      case (args, cell) of
        (Some (sa, nof_err), Some c) \<Rightarrow>
          if ptrs then
            let m = m\<lparr>ma_sched_args := sa, ma_link_failure_nof_err := nof_err, ma_cell := c\<rparr>;
                s = set_sched_cfg (Some sa)
                      (set_metric (Some dl_metric_zero) (Some ul_metric_zero) (sched_init (ma_scheduler m)));
                m = mac_reset (m\<lparr>ma_scheduler := s\<rparr>)
            in (True, m\<lparr>ma_started := True\<rparr>)
          else (False, m)
      | _ \<Rightarrow> (False, m))"

text \<open>
  \<open>stop\<close> walks the map by index: \<open>ue_db[i]\<close> adds a null entry where the map has none, so the map,
  here with null pointers as \<open>None\<close>, grows while the loop runs. The result has the deleted keys.
\<close>

partial_function (option) stop_loop ::
  "u32 \<Rightarrow> (u16, bool) omap \<Rightarrow> u16 list \<Rightarrow> ((u16, bool) omap \<times> u16 list) option" where
  [code]: "stop_loop i db freed =
     (if unat i < length db then
        case omap_get db (ucast i) of
          None \<Rightarrow> stop_loop (i + 1) (omap_set (ucast i) False db) freed
        | Some user \<Rightarrow> stop_loop (i + 1) db (if user then freed @ [ucast i] else freed)
      else Some (db, freed))"

definition mac_stop :: "mac \<Rightarrow> (u16 list \<times> mac) option" where
  "mac_stop m = do {
     (db, freed) \<leftarrow> stop_loop 0 (map (\<lambda>(k, u). (k, True)) (ma_ue_db m)) [];
     Some (freed, m\<lparr>ma_started := False\<rparr>)
   }"

section \<open>Calls for one user\<close>

text \<open>The calls that do nothing for an unknown user but log and return -1.\<close>

definition user :: "u16 \<Rightarrow> mac \<Rightarrow> mac_ue option" where
  "user rnti m = omap_get (ma_ue_db m) rnti"

definition put_user :: "u16 \<Rightarrow> mac_ue \<Rightarrow> mac \<Rightarrow> mac" where
  "put_user rnti u m = m\<lparr>ma_ue_db := omap_set rnti u (ma_ue_db m)\<rparr>"

definition mac_rlc_buffer_state ::
  "srslte \<Rightarrow> mac_lib \<Rightarrow> u16 \<Rightarrow> u32 \<Rightarrow> u32 \<Rightarrow> u32 \<Rightarrow> mac \<Rightarrow> (int \<times> mac) option" where
  "mac_rlc_buffer_state E L rnti lc_id tx_queue retx_queue m =
     (case user rnti m of
        None \<Rightarrow> Some (-1, m)
      | Some _ \<Rightarrow>
          if rnti \<noteq> SRSLTE_MRNTI L then
            let (ret, s) = dl_rlc_buffer_state E rnti lc_id tx_queue retx_queue (ma_scheduler m)
            in Some (ret, m\<lparr>ma_scheduler := s\<rparr>)
          else do {
            ms \<leftarrow> foldM (\<lambda>i ms. do {
                t \<leftarrow> rd ms i;
                wr ms i (if lc_id = mt_lcid t then t\<lparr>mt_lcid_buffer_size := tx_queue\<rparr> else t)
              }) [0..<mp_num_mtch_sched (ma_mch m)] (mp_mtch_sched (ma_mch m));
            Some (0, m\<lparr>ma_mch := (ma_mch m)\<lparr>mp_mtch_sched := ms\<rparr>\<rparr>)
          })"

definition mac_bearer_ue_cfg :: "srslte \<Rightarrow> u16 \<Rightarrow> u32 \<Rightarrow> ue_bearer_cfg \<Rightarrow> mac \<Rightarrow> (int \<times> mac) option" where
  "mac_bearer_ue_cfg E rnti lc_id cfg m =
     (case user rnti m of
        None \<Rightarrow> Some (-1, m)
      | Some u \<Rightarrow> do {
          u \<leftarrow> set_lcg lc_id (of_i32 (ub_group cfg)) u;
          let (ret, s) = bearer_ue_cfg E rnti lc_id cfg (ma_scheduler m);
          Some (ret, put_user rnti u m\<lparr>ma_scheduler := s\<rparr>)
        })"

definition mac_bearer_ue_rem :: "srslte \<Rightarrow> u16 \<Rightarrow> u32 \<Rightarrow> mac \<Rightarrow> int \<times> mac" where
  "mac_bearer_ue_rem E rnti lc_id m =
     (case user rnti m of
        None \<Rightarrow> (-1, m)
      | Some u \<Rightarrow> let (ret, s) = bearer_ue_rem E rnti lc_id (ma_scheduler m) in (ret, m\<lparr>ma_scheduler := s\<rparr>))"

definition mac_phy_config_enabled :: "u16 \<Rightarrow> bool \<Rightarrow> mac \<Rightarrow> mac" where
  "mac_phy_config_enabled rnti enabled m =
     m\<lparr>ma_scheduler := snd (sched_phy_config_enabled rnti enabled (ma_scheduler m))\<rparr>"

definition mac_ue_cfg :: "srslte \<Rightarrow> u16 \<Rightarrow> ue_cfg option \<Rightarrow> mac \<Rightarrow> (int \<times> mac \<times> call list) option" where
  "mac_ue_cfg E rnti cfg m =
     (case user rnti m of
        None \<Rightarrow> Some (-1, m, [])
      | Some u \<Rightarrow> do {
          let (m, cs) = (if \<not> mu_is_phy_added u
                         then (put_user rnti (u\<lparr>mu_is_phy_added := True\<rparr>) m, [Phy_Add_Rnti rnti]) else (m, []));
          (r, s) \<leftarrow> sched_ue_cfg E rnti cfg (ma_scheduler m);
          Some (if r \<noteq> 0 then -1 else 0, m\<lparr>ma_scheduler := s\<rparr>, cs)
        })"

definition mac_ue_rem :: "u16 \<Rightarrow> mac \<Rightarrow> int \<times> mac \<times> call list" where
  "mac_ue_rem rnti m =
     (case user rnti m of
        None \<Rightarrow> (-1, m, [])
      | Some u \<Rightarrow>
          (0, m\<lparr>ma_scheduler := snd (sched_ue_rem rnti (ma_scheduler m)), ma_ue_db := omap_del rnti (ma_ue_db m)\<rparr>,
           [Phy_Rem_Rnti rnti]))"

definition mac_cell_cfg :: "srslte \<Rightarrow> cell_cfg \<Rightarrow> mac \<Rightarrow> (int \<times> mac) option" where
  "mac_cell_cfg E c m = do {
     (r, s) \<leftarrow> cell_cfg E c (ma_scheduler m);
     Some (r, m\<lparr>ma_cell_config := c, ma_scheduler := s\<rparr>)
   }"

text \<open>The metrics go to an array of \<open>ENB_METRICS_MAX_USERS\<close> entries.\<close>

definition ENB_METRICS_MAX_USERS :: nat where
  "ENB_METRICS_MAX_USERS = 64"

definition mac_get_metrics :: "srslte \<Rightarrow> mac_lib \<Rightarrow> mac \<Rightarrow> (mac_metrics list \<times> mac) option" where
  "mac_get_metrics E L m = do {
     (ms, db) \<leftarrow> foldM (\<lambda>(rnti, u) (ms, db).
         if rnti \<noteq> SRSLTE_MRNTI L then
           if length ms < ENB_METRICS_MAX_USERS then
             let (x, u) = metrics_read E (ma_scheduler m) u in Some (ms @ [x], omap_set rnti u db)
           else None
         else Some (ms, db)) (ma_ue_db m) ([], ma_ue_db m);
     Some (ms, m\<lparr>ma_ue_db := db\<rparr>)
   }"

section \<open>Indications of the PHY\<close>

definition mac_rl_failure :: "u16 \<Rightarrow> mac \<Rightarrow> mac \<times> call list" where
  "mac_rl_failure rnti m =
     (case user rnti m of
        None \<Rightarrow> (m, [])
      | Some u \<Rightarrow>
          let (nof_fails, u) = ue_rl_failure u in
          if of_i32 (ma_link_failure_nof_err m) \<le> nof_fails \<and> 0 < ma_link_failure_nof_err m
          then (put_user rnti (rl_failure_reset u) m, [Rrc_Rl_Failure rnti])
          else (put_user rnti u m, []))"

definition mac_rl_ok :: "u16 \<Rightarrow> mac \<Rightarrow> mac" where
  "mac_rl_ok rnti m =
     (case user rnti m of None \<Rightarrow> m | Some u \<Rightarrow> put_user rnti (rl_failure_reset u) m)"

definition mac_ack_info :: "srslte \<Rightarrow> u32 \<Rightarrow> u16 \<Rightarrow> nat \<Rightarrow> bool \<Rightarrow> mac \<Rightarrow> (int \<times> mac \<times> call list) option" where
  "mac_ack_info E tti rnti tb_idx ack m =
     (let (r, s) = dl_ack_info E tti rnti tb_idx ack (ma_scheduler m);
          nof_bytes = of_i32 r
      in case user rnti m of
           None \<Rightarrow> None
         | Some u \<Rightarrow> Some (0, put_user rnti (metrics_tx ack nof_bytes u) m\<lparr>ma_scheduler := s\<rparr>,
                           if ack \<and> 64 < nof_bytes then [Rrc_Activity rnti] else []))"

definition mac_crc_info :: "srslte \<Rightarrow> u32 \<Rightarrow> u16 \<Rightarrow> u32 \<Rightarrow> bool \<Rightarrow> mac \<Rightarrow> int \<times> mac \<times> call list" where
  "mac_crc_info E tti rnti nof_bytes crc m =
     (case user rnti m of
        None \<Rightarrow> (-1, m, [])
      | Some u \<Rightarrow>
          let u = metrics_rx crc nof_bytes (set_tti tti u);
              (u, cs) = (if crc then push_pdu E tti nof_bytes u else deallocate_pdu E tti u);
              (ret, s) = ul_crc_info E tti rnti crc (ma_scheduler m)
          in (ret, put_user rnti u m\<lparr>ma_scheduler := s\<rparr>, cs))"

definition mac_set_dl_ant_info :: "u16 \<Rightarrow> tx_mode \<Rightarrow> mac \<Rightarrow> int \<times> mac" where
  "mac_set_dl_ant_info rnti a m =
     (case user rnti m of
        None \<Rightarrow> (-1, m) | Some _ \<Rightarrow> (0, m\<lparr>ma_scheduler := snd (dl_ant_info rnti a (ma_scheduler m))\<rparr>))"

definition mac_ri_info :: "mac_lib \<Rightarrow> u32 \<Rightarrow> u16 \<Rightarrow> u32 \<Rightarrow> mac \<Rightarrow> int \<times> mac" where
  "mac_ri_info L tti rnti ri m =
     (case user rnti m of
        None \<Rightarrow> (-1, m)
      | Some u \<Rightarrow> (0, put_user rnti (metrics_dl_ri L ri u) m
                       \<lparr>ma_scheduler := snd (dl_ri_info tti rnti ri (ma_scheduler m))\<rparr>))"

definition mac_pmi_info :: "mac_lib \<Rightarrow> u32 \<Rightarrow> u16 \<Rightarrow> u32 \<Rightarrow> mac \<Rightarrow> int \<times> mac" where
  "mac_pmi_info L tti rnti pmi m =
     (case user rnti m of
        None \<Rightarrow> (-1, m)
      | Some u \<Rightarrow> (0, put_user rnti (metrics_dl_pmi L pmi u) m
                       \<lparr>ma_scheduler := snd (dl_pmi_info tti rnti pmi (ma_scheduler m))\<rparr>))"

definition mac_cqi_info :: "mac_lib \<Rightarrow> u32 \<Rightarrow> u16 \<Rightarrow> u32 \<Rightarrow> mac \<Rightarrow> int \<times> mac" where
  "mac_cqi_info L tti rnti cqi m =
     (case user rnti m of
        None \<Rightarrow> (-1, m)
      | Some u \<Rightarrow> (0, put_user rnti (metrics_dl_cqi L cqi u) m
                       \<lparr>ma_scheduler := snd (dl_cqi_info tti rnti cqi (ma_scheduler m))\<rparr>))"

definition mac_snr_info :: "mac_lib \<Rightarrow> u32 \<Rightarrow> u16 \<Rightarrow> rat \<Rightarrow> mac \<Rightarrow> int \<times> mac" where
  "mac_snr_info L tti rnti snr m =
     (case user rnti m of
        None \<Rightarrow> (-1, m)
      | Some _ \<Rightarrow> (0, m\<lparr>ma_scheduler := snd (ul_cqi_info tti rnti (cqi_from_snr L snr) 0 (ma_scheduler m))\<rparr>))"

definition mac_sr_detected :: "u32 \<Rightarrow> u16 \<Rightarrow> mac \<Rightarrow> int \<times> mac" where
  "mac_sr_detected tti rnti m =
     (case user rnti m of
        None \<Rightarrow> (-1, m) | Some _ \<Rightarrow> (0, m\<lparr>ma_scheduler := snd (ul_sr_info tti rnti (ma_scheduler m))\<rparr>))"

section \<open>Random access\<close>

text \<open>The search stops at the last slot whether or not it is free, so its result is never 64.\<close>

fun rar_slot :: "pending_rar list \<Rightarrow> nat \<Rightarrow> nat \<Rightarrow> nat option" where
  "rar_slot rars ra_id 0 = Some ra_id"
| "rar_slot rars ra_id (Suc left) = do {
     r \<leftarrow> rd rars ra_id;
     if pr_temp_crnti r \<noteq> 0 \<and> ra_id < MAX_PENDING_RARS - 1 then rar_slot rars (ra_id + 1) left
     else Some ra_id
   }"

definition rach_ue_cfg :: ue_cfg where
  "rach_ue_cfg = ue_cfg_zero\<lparr>uc_bearers := (uc_bearers ue_cfg_zero)
     (0 := (uc_bearers ue_cfg_zero 0)\<lparr>ub_direction := BOTH\<rparr>)\<rparr>"

definition rach_detected ::
  "srslte \<Rightarrow> u32 \<Rightarrow> u32 \<Rightarrow> u32 \<Rightarrow> mac \<Rightarrow> (int \<times> mac \<times> call list) option" where
  "rach_detected E tti preamble_idx time_adv m = do {
     ra_id \<leftarrow> rar_slot (ma_pending_rars m) 0 MAX_PENDING_RARS;
     if ra_id = MAX_PENDING_RARS then Some (-1, m, [])
     else do {
       let rnti = ma_last_rnti m;
       u \<leftarrow> mac_ue_config E rnti (mac_ue_new E);
       let m = put_user rnti u m;
       rars \<leftarrow> wr (ma_pending_rars m) ra_id
         \<lparr>pr_preamble_idx = preamble_idx, pr_ta_cmd = time_adv, pr_temp_crnti = rnti\<rparr>;
       let m = m\<lparr>ma_pending_rars := rars\<rparr>;
       (r, s) \<leftarrow> sched_ue_cfg E rnti (Some rach_ue_cfg) (ma_scheduler m);
       let m = m\<lparr>ma_scheduler := s\<rparr>;
       if r \<noteq> 0 then Some (-1, m\<lparr>ma_pending_rars := rars[ra_id := pending_rar_zero]\<rparr>, [])
       else do {
         let s = snd (dl_rach_info tti (of_nat ra_id) rnti 7 (ma_scheduler m));
         Some (0, m\<lparr>ma_scheduler := s, ma_last_rnti := (if 60000 \<le> rnti + 1 then 70 else rnti + 1)\<rparr>,
               [Rrc_Add_User rnti])
       }
     }
   }"

end
