(* ===== verification/Mac_Rounds.thy ===== *)
theory Mac_Rounds
  imports Mac
begin

text \<open>
  What the MAC does in every TTI (\<open>mac.cc\<close>): it runs the scheduler and turns its result into grants
  with soft buffers and PDUs for the PHY, downlink (\<open>get_dl_sched\<close>), uplink (\<open>get_ul_sched\<close>) and
  multicast (\<open>get_mch_sched\<close>). Grants are appended to the list the PHY receives, whose array is
  taken to be long enough.
\<close>

section \<open>Grants\<close>

text \<open>
  A data pointer: null, a buffer of its own (of a user's transport block or of one RAR) with its
  bytes, or one of the two buffers of the MAC that all SI and all paging grants share.
\<close>

datatype data_ptr = Null | Own "u8 list" | Bcch_Payload | Pcch_Payload

datatype softbuffer = Ue_Tx u16 nat | Ue_Rx u16 nat | Rar_Tx | Bcch_Tx u32 | Pcch_Tx

record mac_dl_grant =
  mg_rnti :: u16
  mg_dci_format :: dci_format
  mg_grant :: dl_dci
  mg_location :: dci_location
  mg_softbuffers :: "nat \<Rightarrow> softbuffer option"
  mg_data :: "nat \<Rightarrow> data_ptr"

record mac_ul_grant =
  mj_rnti :: u16
  mj_current_tx_nb :: u32
  mj_needs_pdcch :: bool
  mj_grant :: ul_dci
  mj_location :: dci_location
  mj_softbuffer :: softbuffer
  mj_data :: "nat option"

definition ptr :: "u8 list option \<Rightarrow> data_ptr" where
  "ptr data = (case data of None \<Rightarrow> Null | Some b \<Rightarrow> Own b)"

section \<open>Downlink\<close>

text \<open>Both transport blocks of a user: a PDU is made for a block the scheduler filled.\<close>

definition tb_payload ::
  "srslte \<Rightarrow> mac_lib \<Rightarrow> 'w mac_env \<Rightarrow> mac_ue \<Rightarrow> dl_sched_data \<Rightarrow> nat \<Rightarrow> mac_dl_grant \<times> 'w \<Rightarrow>
   (mac_dl_grant \<times> 'w) option" where
  "tb_payload E L N u d tb a = do {
     let (g, w) = a;
     let g = g\<lparr>mg_softbuffers := (mg_softbuffers g)(tb :=
               Some (Ue_Tx (mg_rnti g) (get_tx_softbuffer E (dd_harq_process (ds_dci d)) (of_nat tb))))\<rparr>;
     if 0 < ds_nof_pdu_elems d tb then do {
       (data, w) \<leftarrow> generate_pdu E L (en_packer N) tb (ds_pdu d tb) (ds_nof_pdu_elems d tb) (ds_tbs d tb) u w;
       Some (g\<lparr>mg_data := (mg_data g)(tb := ptr data)\<rparr>, w)
     } else Some (g\<lparr>mg_data := (mg_data g)(tb := Null)\<rparr>, w)
   }"

text \<open>The grant is copied before a missing PDU disables its block, so that has no effect on it.\<close>

definition data_grant_copy ::
  "srslte \<Rightarrow> mac_lib \<Rightarrow> 'w mac_env \<Rightarrow> mac \<Rightarrow> dl_sched_data \<Rightarrow> mac_dl_grant list \<times> 'w \<Rightarrow>
   (mac_dl_grant list \<times> 'w) option" where
  "data_grant_copy E L N m d a =
     (case a of (gs, w) \<Rightarrow>
        (case user (ds_rnti d) m of
           None \<Rightarrow> Some (gs, w)
         | Some u \<Rightarrow> do {
             (g, w) \<leftarrow> foldM (tb_payload E L N u d) [0..<SRSLTE_MAX_TB E]
               (\<lparr>mg_rnti = ds_rnti d, mg_dci_format = ds_dci_format d, mg_grant = ds_dci d,
                 mg_location = ds_dci_location d, mg_softbuffers = (\<lambda>_. None), mg_data = (\<lambda>_. Null)\<rparr>, w);
             Some (gs @ [g], w)
           }))"

text \<open>Each response in a RAR takes the pending random access it answers and clears it.\<close>

definition rar_response ::
  "'w mac_env \<Rightarrow> rar_grant \<Rightarrow> pending_rar list \<times> 'w \<Rightarrow> (pending_rar list \<times> 'w) option" where
  "rar_response N g a = do {
     let (rars, w) = a;
     let (ok, w) = en_rar_new_subh N w;
     if ok then do {
       r \<leftarrow> rd rars (unat (rg_ra_id g));
       rars \<leftarrow> wr rars (unat (rg_ra_id g)) pending_rar_zero;
       Some (rars, en_rar_set_sched_grant N g (en_rar_set_temp_crnti N (pr_temp_crnti r)
                     (en_rar_set_ta_cmd N (pr_ta_cmd r) (en_rar_set_rapid N (pr_preamble_idx r) w))))
     } else Some (rars, w)
   }"

definition assemble_rar ::
  "'w mac_env \<Rightarrow> rar_grant list \<Rightarrow> nat \<Rightarrow> nat \<Rightarrow> u32 \<Rightarrow> pending_rar list \<times> 'w \<Rightarrow>
   (u8 list option \<times> pending_rar list \<times> 'w) option" where
  "assemble_rar N grants nof_grants rar_idx pdu_len a = do {
     let (rars, w) = a;
     if pdu_len < rar_payload_len then do {
       (rars, w) \<leftarrow> foldM (\<lambda>i a. do { g \<leftarrow> rd grants i; rar_response N g a }) [0..<nof_grants]
                     (rars, en_rar_init_tx N rar_idx pdu_len w);
       Some (Some (en_rar_write_packet N w), rars, w)
     } else Some (None, rars, w)
   }"

definition rar_grant_copy ::
  "'w mac_env \<Rightarrow> dl_sched_rar_t list \<Rightarrow> nat \<Rightarrow> mac_dl_grant list \<times> pending_rar list \<times> 'w \<Rightarrow>
   (mac_dl_grant list \<times> pending_rar list \<times> 'w) option" where
  "rar_grant_copy N rar i a = do {
     let (gs, rars, w) = a;
     r \<leftarrow> rd rar i;
     (data, rars, w) \<leftarrow> assemble_rar N (rr_grants r) (unat (rr_nof_grants r)) i (rr_tbs r) (rars, w);
     Some (gs @ [\<lparr>mg_rnti = ucast (rr_rarnti r), mg_dci_format = FORMAT1A, mg_grant = rr_dci r,
                  mg_location = rr_dci_location r, mg_softbuffers = (\<lambda>_. None)(0 := Some Rar_Tx),
                  mg_data = (\<lambda>_. Null)(0 := ptr data)\<rparr>], rars, w)
   }"

definition assemble_si :: "'w mac_env \<Rightarrow> u32 \<Rightarrow> 'w \<Rightarrow> u8 list" where
  "assemble_si N index w = en_read_pdu_bcch_dlsch N index w"

definition bc_grant_copy ::
  "mac_lib \<Rightarrow> 'w mac_env \<Rightarrow> 'w \<Rightarrow> dl_sched_bc_t \<Rightarrow> mac_dl_grant list \<times> mac \<Rightarrow> mac_dl_grant list \<times> mac" where
  "bc_grant_copy L N w b a =
     (case a of (gs, m) \<Rightarrow>
        let g = (\<lambda>rnti soft data. \<lparr>mg_rnti = rnti, mg_dci_format = FORMAT1A, mg_grant = bc_dci b,
                   mg_location = bc_dci_location b, mg_softbuffers = (\<lambda>_. None)(0 := Some soft),
                   mg_data = (\<lambda>_. Null)(0 := data)\<rparr>)
        in if bc_type b = BCCH
           then (gs @ [g (SRSLTE_SIRNTI L) (Bcch_Tx (bc_index b)) Bcch_Payload],
                 m\<lparr>ma_bcch_dlsch_payload := assemble_si N (bc_index b) w\<rparr>)
           else (gs @ [g (SRSLTE_PRNTI L) Pcch_Tx Pcch_Payload],
                 m\<lparr>ma_pcch_payload_buffer := en_read_pdu_pcch N w\<rparr>))"

text \<open>The grants of a result, in the order user data, random access responses, broadcast.\<close>

definition copy_dl_grants ::
  "srslte \<Rightarrow> mac_lib \<Rightarrow> 'w mac_env \<Rightarrow> dl_sched_res \<Rightarrow> mac \<Rightarrow> 'w \<Rightarrow> (mac_dl_grant list \<times> mac \<times> 'w) option" where
  "copy_dl_grants E L N res m w = do {
     (gs, w) \<leftarrow> foldM (data_grant_copy E L N m) (take (dr_nof_data_elems res) (dr_data res)) ([], w);
     (gs, rars, w) \<leftarrow> foldM (rar_grant_copy N (dr_rar res)) [0..<dr_nof_rar_elems res] (gs, ma_pending_rars m, w);
     let (gs, m) = fold (bc_grant_copy L N w) (take (dr_nof_bc_elems res) (dr_bc res)) (gs, m\<lparr>ma_pending_rars := rars\<rparr>);
     Some (gs, m, w)
   }"

text \<open>
  The value, the grants, the number of control symbols and the MAC; the error value of the code for
  a failed scheduler is -1. \<open>paging\<close> is the RRC's answer the scheduler asks for.
\<close>

definition get_dl_sched ::
  "srslte \<Rightarrow> mac_lib \<Rightarrow> 'w mac_env \<Rightarrow> (bool \<times> u32) option \<Rightarrow> u32 \<Rightarrow> mac \<Rightarrow> 'w \<Rightarrow>
   (int \<times> (mac_dl_grant list \<times> u32) option \<times> mac \<times> 'w) option" where
  "get_dl_sched E L N paging tti m w =
     (if \<not> ma_started m then Some (0, None, m, w)
      else do {
        (r, res, s) \<leftarrow> dl_sched E paging tti (dl_res_zero E) (ma_scheduler m);
        if r < 0 then Some (-1, None, m\<lparr>ma_scheduler := s\<rparr>, w)
        else do {
          (gs, m, w) \<leftarrow> copy_dl_grants E L N res (m\<lparr>ma_scheduler := s\<rparr>) w;
          Some (0, Some (gs, dr_cfi res), m, w)
        }
      })"

section \<open>Uplink\<close>

text \<open>
  The number of the transmission in a scheduling result is read by the MAC and written nowhere in
  the code, which clears the result before the scheduler runs.
\<close>

definition us_current_tx_nb :: "ul_sched_data \<Rightarrow> u32" where
  "us_current_tx_nb d = 0"

text \<open>\<open>q\<close> has the answers of the users' queues to requests for a buffer.\<close>

definition ul_grant_copy ::
  "srslte \<Rightarrow> (u16 \<Rightarrow> u32 \<Rightarrow> nat option) \<Rightarrow> u32 \<Rightarrow> ul_sched_data list \<Rightarrow> nat \<Rightarrow>
   mac \<times> mac_ul_grant list \<times> call list \<Rightarrow> (mac \<times> mac_ul_grant list \<times> call list) option" where
  "ul_grant_copy E q tti pusch i a = do {
     let (m, gs, cs) = a;
     d \<leftarrow> rd pusch i;
     let rnti = us_rnti d;
     (case user rnti m of
        Some u \<Rightarrow>
          if 0 < us_tbs d then do {
            at_n \<leftarrow> rd pusch (length gs);
            let soft = get_rx_softbuffer E tti;
            let cs = (if us_current_tx_nb at_n = 0
                      then cs @ [Rx_Softbuffer_Reset rnti soft (of_i32 (us_tbs d * 8))] else cs);
            let (data, u, cs') = request_buffer E tti (of_i32 (us_tbs d)) (q rnti (of_i32 (us_tbs d))) u;
            Some (put_user rnti u m,
                  gs @ [\<lparr>mj_rnti = rnti, mj_current_tx_nb = us_current_tx_nb d,
                         mj_needs_pdcch = us_needs_pdcch d, mj_grant = us_dci d,
                         mj_location = us_dci_location d, mj_softbuffer = Ue_Rx rnti soft,
                         mj_data = data\<rparr>], cs @ cs')
          } else Some (m, gs, cs)
      | None \<Rightarrow> Some (m, gs, cs))
   }"

definition get_ul_sched ::
  "srslte \<Rightarrow> (u16 \<Rightarrow> u32 \<Rightarrow> nat option) \<Rightarrow> u32 \<Rightarrow> mac \<Rightarrow>
   (int \<times> (mac_ul_grant list \<times> (bool \<times> u16) list) option \<times> mac \<times> call list) option" where
  "get_ul_sched E q tti m =
     (if \<not> ma_started m then Some (0, None, m, [])
      else do {
        (r, res, s) \<leftarrow> ul_sched E tti (ul_res_zero E) (ma_scheduler m);
        let m = m\<lparr>ma_scheduler := s\<rparr>;
        if r < 0 then Some (-1, None, m, [])
        else do {
          (m, gs, cs) \<leftarrow> foldM (ul_grant_copy E q tti (ur_pusch res)) [0..<ur_nof_dci_elems res] (m, [], []);
          let phich = map (\<lambda>p. (ph_phich p = ACK, ph_rnti p)) (take (ur_nof_phich_elems res) (ur_phich res));
          Some (0, Some (gs, phich), m, cs)
        }
      })"

section \<open>Multicast\<close>

text \<open>
  \<open>bytes_per_sf\<close> is computed in \<open>uint32_t\<close>. Where the channels do not fit, the ratio of two
  integers is an integer; a division by zero has no result. The quotient of the other case is a
  float, exact below $2^{24}$.
\<close>

definition mch_bytes_per_sf :: "u32 \<Rightarrow> int" where
  "mch_bytes_per_sf tbs = i32 (tbs div 8 - 6)"

definition mch_total :: "mtch_sched list \<Rightarrow> int" where
  "mch_total ms = fold (\<lambda>t total. i32 (of_i32 total + mt_lcid_buffer_size t)) ms 0"

definition mch_assign :: "(mtch_sched \<Rightarrow> u32 option) \<Rightarrow> mtch_sched list \<Rightarrow> mtch_sched list option" where
  "mch_assign assigned ms = do {
     (ms', last) \<leftarrow> foldM (\<lambda>t (ms', last). do {
         a \<leftarrow> assigned t;
         Some (ms' @ [t\<lparr>mt_stop := of_i32 last + a\<rparr>], i32 (of_i32 last + a))
       }) ms ([], 0);
     Some ms'
   }"

definition build_mch_sched :: "u32 \<Rightarrow> mac \<Rightarrow> mac option" where
  "build_mch_sched tbs m = do {
     let sfs = mc_sf_alloc_end (ma_mcch m);
     let space = sfs * mch_bytes_per_sf tbs;
     let n = mp_num_mtch_sched (ma_mch m);
     let ms = mp_mtch_sched (ma_mch m);
     if length ms < n then None
     else do {
       let sched = map (\<lambda>t. t\<lparr>mt_stop := 0\<rparr>) (take n ms);
       let total = mch_total sched;
       sched \<leftarrow> mch_assign
         (if space \<le> total then
            (\<lambda>t. if of_i32 total = (0 :: u32) then None
                 else Some (of_i32 (sfs * uint (mt_lcid_buffer_size t div of_i32 total))))
          else
            (\<lambda>t. if mch_bytes_per_sf tbs = 0 then None
                 else Some (of_i32 \<lceil>(of_nat (unat (mt_lcid_buffer_size t)) :: rat) / of_int (mch_bytes_per_sf tbs)\<rceil>)))
         sched;
       Some (m\<lparr>ma_mch := (ma_mch m)\<lparr>mp_mtch_sched := sched @ drop n ms\<rparr>\<rparr>)
     }
   }"

text \<open>
  The grant is its RNTI and, unless the pointer is left as it was, its data. The user of the
  multicast RNTI must exist.
\<close>

datatype mch_data = Mch_Data "u8 list option" | Mch_Untouched

definition mch_signalling ::
  "mac_lib \<Rightarrow> 'w mac_env \<Rightarrow> int \<Rightarrow> int \<Rightarrow> mac \<Rightarrow> 'w \<Rightarrow> (u16 \<times> mch_data \<times> mac \<times> 'w) option" where
  "mch_signalling L N tbs tbs_data m w = do {
     m \<leftarrow> build_mch_sched (of_i32 tbs_data) m;
     let mch = (ma_mch m)\<lparr>mp_mcch_payload := ma_mcch_payload m, mp_current_sf_allocation_num := 1\<rparr>;
     pdu \<leftarrow> foldM (\<lambda>i pdu. do { p \<leftarrow> rd pdu i; wr pdu i (p\<lparr>pdu_lcid := MCH_SCHED_INFO L\<rparr>) })
              [0..<mp_num_mtch_sched mch] (mp_pdu mch);
     p \<leftarrow> rd pdu (mp_num_mtch_sched mch);
     pdu \<leftarrow> wr pdu (mp_num_mtch_sched mch) (p\<lparr>pdu_lcid := 0, pdu_nbytes := of_i32 (ma_current_mcch_length m)\<rparr>);
     let mch = mch\<lparr>mp_pdu := pdu\<rparr>;
     u \<leftarrow> user (SRSLTE_MRNTI L) m;
     (data, w) \<leftarrow> generate_mch_pdu L (en_mch_packer N) mch (mp_num_mtch_sched mch + 1) (of_i32 (cdiv tbs 8)) w;
     Some (SRSLTE_MRNTI L, Mch_Data data, m\<lparr>ma_mch := mch\<rparr>, w)
   }"

definition mch_current :: "dl_pdu_mch \<Rightarrow> nat option" where
  "mch_current mch = find (\<lambda>i. mp_current_sf_allocation_num mch \<le> mt_stop (mp_mtch_sched mch ! i))
     [0..<mp_num_mtch_sched mch]"

definition mch_traffic ::
  "mac_lib \<Rightarrow> 'w mac_env \<Rightarrow> int \<Rightarrow> mac \<Rightarrow> 'w \<Rightarrow> (u16 \<times> mch_data \<times> mac \<times> 'w) option" where
  "mch_traffic L N tbs_data m w = do {
     let mch = ma_mch m;
     last \<leftarrow> (if mp_num_mtch_sched mch = 0 then None else rd (mp_mtch_sched mch) (mp_num_mtch_sched mch - 1));
     let (lcid, idx) = (case mch_current mch of None \<Rightarrow> (1, 0) | Some i \<Rightarrow> (mt_lcid (mp_mtch_sched mch ! i), i));
     (rnti, data, mch, w) \<leftarrow>
       (if mp_current_sf_allocation_num mch \<le> mt_stop last then do {
          t \<leftarrow> rd (mp_mtch_sched mch) idx;
          let requested = (if i32 (mt_lcid_buffer_size t) < cdiv tbs_data 8
                           then i32 (mt_lcid_buffer_size t) else cdiv tbs_data 8 - 2);
          u \<leftarrow> user (SRSLTE_MRNTI L) m;
          let ((received, bytes), w) = ue_read_pdu (en_packer N) u lcid (of_i32 requested) w;
          p \<leftarrow> rd (mp_pdu mch) 0;
          pdu \<leftarrow> wr (mp_pdu mch) 0 (p\<lparr>pdu_lcid := lcid, pdu_nbytes := of_i32 received\<rparr>);
          t0 \<leftarrow> rd (mp_mtch_sched mch) 0;
          ms \<leftarrow> wr (mp_mtch_sched mch) 0 (t0\<lparr>mt_mtch_payload := bytes\<rparr>);
          let mch = mch\<lparr>mp_pdu := pdu, mp_mtch_sched := ms\<rparr>;
          if received \<noteq> 0 then do {
            (data, w) \<leftarrow> generate_mch_pdu L (en_mch_packer N) mch 1 (of_i32 (cdiv tbs_data 8)) w;
            Some (SRSLTE_MRNTI L, Mch_Data data, mch, w)
          } else Some (SRSLTE_MRNTI L, Mch_Untouched, mch, w)
        } else Some (0, Mch_Data None, mch, w));
     Some (rnti, data, m\<lparr>ma_mch := mch\<lparr>mp_current_sf_allocation_num := mp_current_sf_allocation_num mch + 1\<rparr>\<rparr>, w)
   }"

definition get_mch_sched ::
  "mac_lib \<Rightarrow> 'w mac_env \<Rightarrow> bool \<Rightarrow> mac \<Rightarrow> 'w \<Rightarrow> (u16 \<times> mch_data \<times> mac \<times> 'w) option" where
  "get_mch_sched L N is_mcch m w =
     (let nof_prb = cl_nof_prb (cc_cell (ma_cell_config m));
          tbs = ra_mcs_tbs L (ma_sib13_mcs m) nof_prb;
          tbs_data = ra_mcs_tbs L (mc_datamcs (ma_mcch m)) nof_prb
      in if is_mcch then mch_signalling L N tbs tbs_data m w else mch_traffic L N tbs_data m w)"

text \<open>
  \<open>pack\<close> is the library's encoding of an MCCH message as bits and \<open>bits\<close> its packing of bits into
  bytes. The SIB13 argument is copied over the member \<open>sib2\<close>, which nothing reads.
\<close>

definition write_mcch ::
  "srslte \<Rightarrow> mac_lib \<Rightarrow> (mcch_msg \<Rightarrow> bool list) \<Rightarrow> (bool list \<Rightarrow> u8 list) \<Rightarrow> u32 \<Rightarrow> mcch_msg \<Rightarrow> mac \<Rightarrow>
   (mac \<times> call list) option" where
  "write_mcch E L pack bits sib13_mcs mcch m = do {
     let msg = pack mcch;
     let n = length (mc_lcids mcch);
     ms \<leftarrow> foldM (\<lambda>i ms. do { t \<leftarrow> rd ms i; wr ms i (t\<lparr>mt_lcid := mc_lcids mcch ! i\<rparr>) }) [0..<n] (mp_mtch_sched (ma_mch m));
     let len = int (length msg) div 8 + (if length msg mod 8 \<noteq> 0 then 1 else 0) + 1;
     let packed = 0 # bits msg;
     if mcch_payload_len < length packed then None
     else do {
       u \<leftarrow> mac_ue_config E (SRSLTE_MRNTI L) (mac_ue_new E);
       Some (put_user (SRSLTE_MRNTI L) u
               (m\<lparr>ma_mcch := mcch, ma_mch := (ma_mch m)\<lparr>mp_num_mtch_sched := n, mp_mtch_sched := ms\<rparr>,
                  ma_current_mcch_length := len,
                  ma_mcch_payload := packed @ replicate (mcch_payload_len - length packed) 0\<rparr>),
             [Rrc_Add_User (SRSLTE_MRNTI L)])
     }
   }"

end
