(* ===== verification/Mac_UE_Props.thy ===== *)
theory Mac_UE_Props
  imports Mac_UE
begin

text \<open>
  What makes the user context of the MAC correct: buffers of received PDUs are handed back exactly
  once, SDUs reach the RLC in order, buffer status reports reach every channel of their group, and
  the contention resolution identity echoes the bytes the user sent.
\<close>

section \<open>Buffers of received PDUs\<close>

fun handed_back :: "call list \<Rightarrow> nat set" where
  "handed_back [] = {}"
| "handed_back (Pdu_Push b len # cs) = insert b (handed_back cs)"
| "handed_back (Pdu_Dealloc b # cs) = insert b (handed_back cs)"
| "handed_back (_ # cs) = handed_back cs"

text \<open>
  The runs of one user from its configuration, with the set \<open>H\<close> of buffers the queue has handed
  out and not got back. The queue hands out buffers that nobody holds, or none.
\<close>

inductive buf_run :: "srslte \<Rightarrow> mac_ue \<Rightarrow> nat set \<Rightarrow> bool" for E where
  start: "mac_ue_config E rnti (mac_ue_new E) = Some u \<Longrightarrow> buf_run E u {}"
| request: "buf_run E u H \<Longrightarrow> (\<And>b. ans = Some b \<Longrightarrow> b \<notin> H) \<Longrightarrow>
    request_buffer E tti len ans u = (r, u', cs) \<Longrightarrow>
    buf_run E u' (if cs = [] then H else H \<union> set_option ans)"
| push: "buf_run E u H \<Longrightarrow> push_pdu E tti len u = (u', cs) \<Longrightarrow> buf_run E u' (H - handed_back cs)"
| dealloc: "buf_run E u H \<Longrightarrow> deallocate_pdu E tti u = (u', cs) \<Longrightarrow> buf_run E u' (H - handed_back cs)"
| other: "buf_run E u H \<Longrightarrow> mu_pending_buffers u' = mu_pending_buffers u \<Longrightarrow> buf_run E u' H"

inductive_cases buf_runE: "buf_run E u H"

definition slots :: "nat option list \<Rightarrow> nat set" where
  "slots p = {b. \<exists>i < length p. p ! i = Some b}"

definition slots_distinct :: "nat option list \<Rightarrow> bool" where
  "slots_distinct p \<longleftrightarrow> (\<forall>i j b. i < length p \<longrightarrow> j < length p \<longrightarrow> p ! i = Some b \<longrightarrow> p ! j = Some b \<longrightarrow> i = j)"

definition buf_inv :: "srslte \<Rightarrow> mac_ue \<Rightarrow> nat set \<Rightarrow> bool" where
  "buf_inv E u H \<longleftrightarrow> length (mu_pending_buffers u) = NOF_HARQ_PROCESSES E \<and>
     slots_distinct (mu_pending_buffers u) \<and> slots (mu_pending_buffers u) = H"

lemma slots_set: "slots p = {b. Some b \<in> set p}"
  by (auto simp: slots_def in_set_conv_nth)

text \<open>Filling an empty slot with a new buffer, and clearing a full one.\<close>

lemma nth_upd: "j < length p \<Longrightarrow> p[i := x] ! j = (if j = i then x else p ! j)"
  by auto

lemma slots_fill:
  assumes "i < length p" and "p ! i = None"
  shows "slots (p[i := Some b]) = insert b (slots p)"
proof (intro set_eqI)
  fix c
  have "c \<in> slots (p[i := Some b]) \<longleftrightarrow> (\<exists>j < length p. if j = i then c = b else p ! j = Some c)"
    by (auto simp: slots_def nth_upd cong: conj_cong)
  also have "\<dots> \<longleftrightarrow> c = b \<or> (\<exists>j < length p. j \<noteq> i \<and> p ! j = Some c)" using assms(1) by auto
  also have "\<dots> \<longleftrightarrow> c = b \<or> c \<in> slots p" using assms(2) by (fastforce simp: slots_def)
  finally show "c \<in> slots (p[i := Some b]) \<longleftrightarrow> c \<in> insert b (slots p)" by simp
qed

lemma distinct_fill:
  assumes "slots_distinct p" and "b \<notin> slots p"
  shows "slots_distinct (p[i := Some b])"
proof -
  have "\<forall>j < length p. p ! j \<noteq> Some b" using assms(2) by (simp add: slots_def)
  then show ?thesis using assms(1) by (auto simp: slots_distinct_def nth_upd)
qed

lemma slots_clear:
  assumes "i < length p" and "p ! i = Some b" and "slots_distinct p"
  shows "slots (p[i := None]) = slots p - {b}"
proof (intro set_eqI)
  fix c
  have "c \<in> slots (p[i := None]) \<longleftrightarrow> (\<exists>j < length p. j \<noteq> i \<and> p ! j = Some c)"
    by (auto simp: slots_def nth_upd cong: conj_cong)
  also have "\<dots> \<longleftrightarrow> (\<exists>j < length p. p ! j = Some c \<and> c \<noteq> b)"
  proof (rule ex_cong1, rule conj_cong, rule refl)
    fix j assume j: "j < length p"
    have "p ! j = Some b \<Longrightarrow> j = i" using assms j by (simp add: slots_distinct_def)
    then show "(j \<noteq> i \<and> p ! j = Some c) = (p ! j = Some c \<and> c \<noteq> b)" using assms(2) by auto
  qed
  also have "\<dots> \<longleftrightarrow> c \<in> slots p \<and> c \<noteq> b" by (auto simp: slots_def)
  finally show "c \<in> slots (p[i := None]) \<longleftrightarrow> c \<in> slots p - {b}" by simp
qed

lemma distinct_clear: "slots_distinct p \<Longrightarrow> slots_distinct (p[i := None])"
  by (simp add: slots_distinct_def nth_upd)

lemma harq_pid_less: "0 < NOF_HARQ_PROCESSES E \<Longrightarrow> harq_pid E tti < NOF_HARQ_PROCESSES E"
  by (simp add: harq_pid_def)

lemma set_lcg_eq:
  "set_lcg l g u = (if unat g < length (mu_lc_groups u)
     then Some (u\<lparr>mu_lc_groups := (mu_lc_groups u)[unat g := removeAll l (mu_lc_groups u ! unat g) @ [l]]\<rparr>)
     else None)"
proof -
  have "[0..<4] = [0, 1, 2, 3 :: nat]" by (simp add: upt_rec)
  then show ?thesis by (simp add: set_lcg_def) (simp add: rd_def)
qed

lemma set_lcg_pending: "set_lcg l g u = Some u' \<Longrightarrow> mu_pending_buffers u' = mu_pending_buffers u"
  by (auto simp: set_lcg_eq split: if_splits)

lemma config_pending:
  "mac_ue_config E rnti u = Some u' \<Longrightarrow> mu_pending_buffers u' = replicate (NOF_HARQ_PROCESSES E) None"
  unfolding mac_ue_config_def by (auto simp: bind_eq_Some_conv dest!: set_lcg_pending)

lemma inv_fill:
  assumes "buf_inv E u H" and "i < NOF_HARQ_PROCESSES E" and "mu_pending_buffers u ! i = None" and "b \<notin> H"
  shows "buf_inv E (u\<lparr>mu_pending_buffers := (mu_pending_buffers u)[i := Some b]\<rparr>) (insert b H)"
  using assms by (simp add: buf_inv_def slots_fill distinct_fill)

lemma inv_clear:
  assumes "buf_inv E u H" and "i < NOF_HARQ_PROCESSES E" and "mu_pending_buffers u ! i = Some b"
  shows "b \<in> H \<and> buf_inv E (u\<lparr>mu_pending_buffers := (mu_pending_buffers u)[i := None]\<rparr>) (H - {b})"
  using assms by (auto simp: buf_inv_def slots_clear distinct_clear) (auto simp: slots_def)

lemma take_back_inv:
  assumes "buf_inv E u H" and "0 < NOF_HARQ_PROCESSES E"
  shows "handed_back (snd (push_pdu E tti len u)) \<subseteq> H \<and>
      buf_inv E (fst (push_pdu E tti len u)) (H - handed_back (snd (push_pdu E tti len u)))"
    and "handed_back (snd (deallocate_pdu E tti u)) \<subseteq> H \<and>
      buf_inv E (fst (deallocate_pdu E tti u)) (H - handed_back (snd (deallocate_pdu E tti u)))"
  using inv_clear[OF assms(1) harq_pid_less[OF assms(2), of tti]] assms(1)
  by (auto simp: push_pdu_def deallocate_pdu_def split: option.split)

lemma buf_run_inv:
  assumes "0 < NOF_HARQ_PROCESSES E" and "buf_run E u H"
  shows "buf_inv E u H"
  using assms(2)
proof induction
  case (start rnti u)
  then show ?case
    by (auto dest!: config_pending simp: buf_inv_def slots_def slots_distinct_def)
next
  case (request u H ans tti len r u' cs)
  have same: "(mu_pending_buffers u)[harq_pid E tti := None] = mu_pending_buffers u"
    if "mu_pending_buffers u ! harq_pid E tti = None" using that by (metis list_update_id)
  have inv: "buf_inv E u H \<Longrightarrow> buf_inv E (u\<lparr>mu_pending_buffers := mu_pending_buffers u\<rparr>) H" by (simp add: buf_inv_def)
  show ?case
    using request.IH request.hyps(2,3) inv_fill[OF request.IH harq_pid_less[OF assms(1), of tti]] same inv
    by (cases ans) (auto simp: request_buffer_def split: if_splits option.splits)
next
  case (push u H tti len u' cs)
  then show ?case using take_back_inv(1)[OF push.IH assms(1), of tti len] by simp
next
  case (dealloc u H tti u' cs)
  then show ?case using take_back_inv(2)[OF dealloc.IH assms(1), of tti] by simp
next
  case (other u H u')
  then show ?case by (simp add: buf_inv_def)
qed

text \<open>C18: in every run of a user the buffers the queue has handed out and not got back are exactly
  those in the pending slots, each in one slot only; what \<open>push_pdu\<close> and \<open>deallocate_pdu\<close> hand back
  is held at that moment: no buffer is lost and none is returned twice.\<close>

theorem buffers_returned_once:
  assumes "0 < NOF_HARQ_PROCESSES E" and "buf_run E u H"
  shows "H = {b. Some b \<in> set (mu_pending_buffers u)} \<and>
    (\<forall>i j b. i < length (mu_pending_buffers u) \<longrightarrow> j < length (mu_pending_buffers u) \<longrightarrow>
       mu_pending_buffers u ! i = Some b \<longrightarrow> mu_pending_buffers u ! j = Some b \<longrightarrow> i = j) \<and>
    handed_back (snd (push_pdu E tti len u)) \<subseteq> H \<and>
    handed_back (snd (deallocate_pdu E tti u)) \<subseteq> H"
  using buf_run_inv[OF assms] take_back_inv[OF buf_run_inv[OF assms] assms(1), of tti]
  by (auto simp: buf_inv_def slots_set slots_distinct_def)

definition demo_mac_ue :: mac_ue where
  "demo_mac_ue = the (mac_ue_config demo_lib 70 (mac_ue_new demo_lib))"

lemma demo_mac_ue_config: "mac_ue_config demo_lib 70 (mac_ue_new demo_lib) = Some demo_mac_ue"
  by (simp add: demo_mac_ue_def mac_ue_config_def mac_ue_new_def set_lcg_eq)

lemma demo_nof_harq: "NOF_HARQ_PROCESSES demo_lib = 16"
  by (simp add: NOF_HARQ_PROCESSES_def demo_lib_def)

theorem buffers_returned_once_witness:
  "\<exists>u. buf_run demo_lib u {9} \<and> {9} = {b. Some b \<in> set (mu_pending_buffers u)}"
proof -
  have p: "mu_pending_buffers demo_mac_ue = replicate 16 None"
    using config_pending[OF demo_mac_ue_config] by (simp add: demo_nof_harq)
  obtain u' where r: "request_buffer demo_lib 3 100 (Some 9) demo_mac_ue = (Some 9, u', [Pdu_Request 100])"
    by (simp add: request_buffer_def p harq_pid_def demo_nof_harq)
  have "buf_run demo_lib u' (if [Pdu_Request 100] = [] then {} else {} \<union> set_option (Some 9))"
    by (rule buf_run.request[OF buf_run.start[OF demo_mac_ue_config] _ r]) simp
  then have "buf_run demo_lib u' {9}" by simp
  then show ?thesis
    using buffers_returned_once[of demo_lib u' "{9}", THEN conjunct1] by (auto simp: demo_nof_harq)
qed

section \<open>Contention resolution\<close>

lemma mask_byte: "(255 :: 64 word) = mask 8"
  by (simp add: mask_eq_exp_minus_1)

lemma bit_set_byte:
  assumes "k < 8"
  shows "bit (set_byte k b w) n \<longleftrightarrow> n < 64 \<and> (if 8 * k \<le> n \<and> n < 8 * k + 8 then bit b (n - 8 * k) else bit w n)"
proof -
  have "n - 8 * k < 8 \<longleftrightarrow> n < 8 * k + 8" if "8 * k \<le> n" using that by linarith
  moreover have "bit b m \<Longrightarrow> m < 8" for m by (drule bit_imp_le_length) simp
  moreover have "bit w m \<Longrightarrow> m < 64" for m by (drule bit_imp_le_length) simp
  ultimately show ?thesis unfolding set_byte_def mask_byte by (auto simp: bit_simps)
qed

lemma get_set_byte:
  assumes "k < 8" and "j < 8"
  shows "get_byte j (set_byte k b w) = (if j = k then b else get_byte j w)"
proof (rule bit_eqI)
  fix n assume "possible_bit TYPE(u8) n"
  then have n: "n < 8" by simp
  have "8 * k \<le> 8 * j + n \<and> 8 * j + n < 8 * k + 8 \<longleftrightarrow> j = k" using n by auto
  then show "bit (get_byte j (set_byte k b w)) n \<longleftrightarrow> bit (if j = k then b else get_byte j w) n"
    using n assms by (auto simp: get_byte_def bit_simps bit_set_byte[OF assms(1)])
qed

lemma save_conres_bytes:
  assumes "nbytes \<le> 8" and "j < 8" and "m \<le> nbytes"
  shows "get_byte j (fold (\<lambda>i. set_byte (nbytes - i - 1) (pkt ! i)) [0..<m] w) =
    (if nbytes - m \<le> j \<and> j < nbytes then pkt ! (nbytes - 1 - j) else get_byte j w)"
  using assms(3)
proof (induction m)
  case 0
  then show ?case by auto
next
  case (Suc m)
  then have "j = nbytes - m - 1 \<Longrightarrow> nbytes - 1 - j = m" by linarith
  then show ?case using Suc assms(1,2) by (cases "j = nbytes - m - 1") (auto simp: get_set_byte)
qed

text \<open>the contention resolution identity holds the first bytes of the CCCH message with the first
  one on top, and the bytes of the old value above them; reading it back by bytes gives the message.\<close>

theorem conres_id_roundtrip:
  assumes "nbytes \<le> 8"
  shows "(\<forall>i < nbytes. get_byte (nbytes - 1 - i) (save_conres_id nbytes pkt w) = pkt ! i) \<and>
    (\<forall>j. nbytes \<le> j \<longrightarrow> j < 8 \<longrightarrow> get_byte j (save_conres_id nbytes pkt w) = get_byte j w)"
  unfolding save_conres_id_def using assms save_conres_bytes[OF assms, of _ nbytes pkt w]
  by (auto simp: less_diff_conv2)

theorem conres_id_roundtrip_witness:
  "get_byte 5 (save_conres_id 6 [1, 2, 3, 4, 5, 6] 0) = 1 \<and> get_byte 0 (save_conres_id 6 [1, 2, 3, 4, 5, 6] 0) = 6"
proof -
  have "\<forall>i < 6. get_byte (6 - 1 - i) (save_conres_id 6 [1, 2, 3, 4, 5, 6] 0) = [1, 2, 3, 4, 5, 6] ! i"
    using conres_id_roundtrip[of 6 "[1, 2, 3, 4, 5, 6]" 0] by simp
  from this[rule_format, of 0] this[rule_format, of 5] show ?thesis by simp
qed

section \<open>SDUs\<close>

fun rlc_writes :: "call list \<Rightarrow> (u16 \<times> u32 \<times> u8 list) list" where
  "rlc_writes [] = []"
| "rlc_writes (Rlc_Write r l p # cs) = (r, l, p) # rlc_writes cs"
| "rlc_writes (_ # cs) = rlc_writes cs"

lemma rlc_writes_append [simp]: "rlc_writes (cs @ ds) = rlc_writes cs @ rlc_writes ds"
  by (induction cs rule: rlc_writes.induct) auto

definition routed :: "sch_subh list \<Rightarrow> sch_subh list" where
  "routed shs = filter (\<lambda>sh. sh_is_sdu sh \<and> route_pdu sh) shs"

lemma process_sdus_writes:
  "rlc_writes (fst (snd (fold (\<lambda>sh a. if sh_is_sdu sh then process_sdu L sh a else a) shs (u, cs, d, l)))) =
     rlc_writes cs @ map (\<lambda>sh. (mu_rnti u, sh_sdu_lcid sh, sh_payload sh)) (routed shs) \<and>
   mu_rnti (fst (fold (\<lambda>sh a. if sh_is_sdu sh then process_sdu L sh a else a) shs (u, cs, d, l))) = mu_rnti u"
proof (induction shs arbitrary: u cs d l)
  case Nil
  then show ?case by (simp add: routed_def)
next
  case (Cons sh shs)
  obtain u' cs' d' l' where p: "process_sdu L sh (u, cs, d, l) = (u', cs', d', l')" by (metis prod_cases4)
  have "mu_rnti u' = mu_rnti u \<and>
      rlc_writes cs' = rlc_writes cs @ (if route_pdu sh then [(mu_rnti u, sh_sdu_lcid sh, sh_payload sh)] else [])"
    using p by (auto simp: process_sdu_def Let_def)
  then show ?case using Cons.IH[of u' cs' d' l'] Cons.IH[of u cs d l] by (simp add: p routed_def)
qed

lemma process_ce_writes:
  "process_ce E L sh (u, s, cs) = Some (b, u', s', cs') \<Longrightarrow> rlc_writes cs' = rlc_writes cs"
  by (auto simp: process_ce_def bind_eq_Some_conv Let_def split: ce_type.splits if_splits)

lemma process_ces_writes:
  assumes "process_ces E L shs (u, s, cs) = Some (b, u', s', cs')"
  shows "rlc_writes cs' = rlc_writes cs"
proof -
  have "(\<lambda>(b, u, s, c). rlc_writes c = rlc_writes cs) (b, u', s', cs')"
    by (rule foldM_invariant[OF assms[unfolded process_ces_def]])
      (auto simp: bind_eq_Some_conv dest!: process_ce_writes split: if_splits)
  then show ?thesis by simp
qed

text \<open>The calls one SDU causes: the write to the RLC, then the notice of activity to the RRC.\<close>

definition sdu_calls :: "u16 \<Rightarrow> sch_subh \<Rightarrow> call list" where
  "sdu_calls rnti sh =
     (if route_pdu sh then [Rlc_Write rnti (sh_sdu_lcid sh) (sh_payload sh)] else []) @
     (if 64 < payload_size sh then [Rrc_Activity rnti] else [])"

lemma process_sdus_calls:
  "fst (snd (fold (\<lambda>sh a. if sh_is_sdu sh then process_sdu L sh a else a) shs (u, cs, d, l))) =
     cs @ concat (map (sdu_calls (mu_rnti u)) (filter sh_is_sdu shs))"
proof (induction shs arbitrary: u cs d l)
  case Nil
  then show ?case by simp
next
  case (Cons sh shs)
  obtain u' cs' d' l' where p: "process_sdu L sh (u, cs, d, l) = (u', cs', d', l')" by (metis prod_cases4)
  have "mu_rnti u' = mu_rnti u \<and> cs' = cs @ sdu_calls (mu_rnti u) sh"
    using p by (auto simp: process_sdu_def sdu_calls_def Let_def)
  then show ?case using Cons.IH[of u' cs' d' l'] Cons.IH[of u cs d l] by (simp add: p)
qed

definition only_upd_user :: "call list \<Rightarrow> bool" where
  "only_upd_user cs \<longleftrightarrow> list_all (\<lambda>c. case c of Rrc_Upd_User old new \<Rightarrow> True | _ \<Rightarrow> False) cs"

lemma process_ce_calls:
  "process_ce E L sh (u, s, cs) = Some (b, u', s', cs') \<Longrightarrow> \<exists>ces. cs' = cs @ ces \<and> only_upd_user ces"
  by (auto simp: process_ce_def only_upd_user_def bind_eq_Some_conv Let_def split: ce_type.splits if_splits)

lemma process_ces_calls:
  assumes "process_ces E L shs (u, s, cs) = Some (b, u', s', cs')"
  shows "\<exists>ces. cs' = cs @ ces \<and> only_upd_user ces"
proof -
  have "(\<lambda>(b, u, s, c). \<exists>ces. c = cs @ ces \<and> only_upd_user ces) (b, u', s', cs')"
  proof (rule foldM_invariant[OF assms[unfolded process_ces_def]])
    show "case (False, u, s, cs) of (b, u, s, c) \<Rightarrow> \<exists>ces. c = cs @ ces \<and> only_upd_user ces"
      by (simp add: only_upd_user_def)
  qed (auto simp: bind_eq_Some_conv only_upd_user_def dest!: process_ce_calls split: if_splits)
  then show ?thesis by simp
qed

text \<open>C23: the calls of a PDU are, in this order: its buffer is given back; for each SDU of the PDU, in
  their order, the write to the RLC with the SDU's channel and bytes under the RNTI the PDU was received
  on (left out for a CCCH SDU whose byte sum is zero) and the notice of activity for one of more than 64
  bytes; then the calls of the control elements, which are only changes of the RNTI at the RRC.  So the
  RLC gets exactly the routable SDUs, before any control element is handled.\<close>

theorem sdus_routed_in_order:
  assumes "process_pdu E L pdu bytes u s = Some (u', s', cs)"
  shows "rlc_writes cs = map (\<lambda>sh. (mu_rnti u, sh_sdu_lcid sh, sh_payload sh)) (routed (parse_packet L bytes)) \<and>
    (\<exists>ces. only_upd_user ces \<and> cs =
       [Pdu_Dealloc pdu] @ concat (map (sdu_calls (mu_rnti u)) (filter sh_is_sdu (parse_packet L bytes))) @ ces)"
proof -
  obtain v c d l where f: "fold (\<lambda>sh a. if sh_is_sdu sh then process_sdu L sh a else a) (parse_packet L bytes)
      (u, [Pdu_Dealloc pdu], -99, 0) = (v, c, d, l)" by (rule prod_cases4)
  have "rlc_writes c = map (\<lambda>sh. (mu_rnti u, sh_sdu_lcid sh, sh_payload sh)) (routed (parse_packet L bytes))"
    using process_sdus_writes[of L "parse_packet L bytes" u "[Pdu_Dealloc pdu]" "-99" 0] by (simp add: f)
  moreover have "c = Pdu_Dealloc pdu # concat (map (sdu_calls (mu_rnti u)) (filter sh_is_sdu (parse_packet L bytes)))"
    using process_sdus_calls[of L "parse_packet L bytes" u "[Pdu_Dealloc pdu]" "-99" 0] by (simp add: f)
  moreover obtain b w t where ce: "process_ces E L (parse_packet L bytes) (v, s, c) = Some (b, w, t, cs)"
    using assms unfolding process_pdu_def Let_def f
    by (cases "process_ces E L (parse_packet L bytes) (v, s, c)") auto
  ultimately show ?thesis using process_ces_writes[OF ce] process_ces_calls[OF ce] by auto
qed

definition demo_mac_lib :: mac_lib where
  "demo_mac_lib = \<lparr>PHR_REPORT_LCID = 26, MCH_SCHED_INFO = 30, MTCH_MAX_LCID = 28, MAC_CE_CONTRES_LEN = 6,
     parse_packet = (\<lambda>b. case b of [] \<Rightarrow> [] | l # p \<Rightarrow>
       [\<lparr>sh_is_sdu = True, sh_sdu_lcid = ucast l, sh_payload = p, sh_ce_type = PADDING, sh_phr = 0,
         sh_c_rnti = 0, sh_bsr = (0, [])\<rparr>]),
     vec_cma = (\<lambda>d a n. (a * of_nat (unat n) + d) / (of_nat (unat n) + 1)),
     vec_ema = (\<lambda>d a k. k * d + (1 - k) * a), cqi_from_snr = (\<lambda>x. 15), ra_mcs_tbs = (\<lambda>m n. 800),
     SRSLTE_MRNTI = 0xFFFD, SRSLTE_SIRNTI = 0xFFFF, SRSLTE_PRNTI = 0xFFFE\<rparr>"

theorem sdus_routed_in_order_witness:
  "\<exists>u' s' cs. process_pdu demo_lib demo_mac_lib 5 [3, 1, 2] demo_mac_ue (sched_new 0) = Some (u', s', cs) \<and>
     rlc_writes cs = [(mu_rnti demo_mac_ue, 3, [1, 2])]"
proof -
  obtain u' s' cs where p: "process_pdu demo_lib demo_mac_lib 5 [3, 1, 2] demo_mac_ue (sched_new 0) = Some (u', s', cs)"
    by (simp add: process_pdu_def demo_mac_lib_def process_ces_def process_sdu_def Let_def)
  have "routed (parse_packet demo_mac_lib [3, 1, 2]) = parse_packet demo_mac_lib [3, 1, 2]"
    by (simp add: routed_def route_pdu_def demo_mac_lib_def)
  then show ?thesis using p conjunct1[OF sdus_routed_in_order[OF p]] by (simp add: demo_mac_lib_def)
qed

section \<open>Buffer status reports\<close>

text \<open>A report for a group sets every channel of the group in the scheduler and nothing else.\<close>

lemma bsr_group_channels:
  assumes "omap_get (sc_ue_db s) rnti = Some v" and "\<forall>l \<in> set grp. unat l < MAX_LC E" and "MAX_LC E \<le> 256"
  shows "\<exists>w. omap_get (sc_ue_db (bsr_group E rnti sz grp s)) rnti = Some w \<and>
     (\<forall>n < MAX_LC E. lc_bsr (su_lch w n) = (if of_nat n \<in> set grp then i32 sz else lc_bsr (su_lch v n))) \<and>
     (\<forall>k. k \<noteq> rnti \<longrightarrow> omap_get (sc_ue_db (bsr_group E rnti sz grp s)) k = omap_get (sc_ue_db s) k)"
  using assms(1,2)
proof (induction grp arbitrary: s v)
  case Nil
  then show ?case by (simp add: bsr_group_def)
next
  case (Cons l grp)
  let ?v = "ul_buffer_state E (ucast l) sz True v"
  let ?s = "s\<lparr>sc_ue_db := omap_set rnti ?v (sc_ue_db s)\<rparr>"
  have step: "bsr_group E rnti sz (l # grp) s = bsr_group E rnti sz grp ?s"
    using Cons.prems(1) by (simp add: bsr_group_def ul_bsr_def on_ue_def)
  have l: "unat l < MAX_LC E" using Cons.prems(2) by simp
  then have "unat l < 256" using assms(3) by simp
  then have u8: "unat (ucast l :: u8) = unat l" by (simp add: unsigned_ucast_eq take_bit_nat_eq_self)
  have n: "(of_nat n :: u32) = l \<longleftrightarrow> n = unat l" if "n < MAX_LC E" for n
  proof -
    have "unat (of_nat n :: u32) = n" using that assms(3) by (simp add: unat_of_nat take_bit_nat_eq_self)
    then show ?thesis by (auto simp: word_unat_eq_iff)
  qed
  have v: "lc_bsr (su_lch ?v n) = (if of_nat n = l then i32 sz else lc_bsr (su_lch v n))" if "n < MAX_LC E" for n
    using l u8 n[OF that] by (simp add: ul_buffer_state_def upd_lch_def)
  have "omap_get (sc_ue_db ?s) rnti = Some ?v" by (simp add: om.put_same)
  then obtain w where "omap_get (sc_ue_db (bsr_group E rnti sz grp ?s)) rnti = Some w"
      "\<forall>n < MAX_LC E. lc_bsr (su_lch w n) = (if of_nat n \<in> set grp then i32 sz else lc_bsr (su_lch ?v n))"
      "\<forall>k. k \<noteq> rnti \<longrightarrow> omap_get (sc_ue_db (bsr_group E rnti sz grp ?s)) k = omap_get (sc_ue_db ?s) k"
    using Cons.IH[of ?s ?v] Cons.prems(2) by auto
  then show ?case unfolding step using v by (intro exI[of _ w]) (simp add: om.put_other)
qed

text \<open>a short or truncated buffer status report sets the size of every channel of the reported
  group in the scheduler's entry of the user, changes no other channel and no other user, and counts
  as a report, so that no extra grant is added for the PDU.\<close>

theorem short_bsr_reaches_group:
  assumes "sh_ce_type sh \<in> {SHORT_BSR, TRUNC_BSR}" and "sh_bsr sh = (int g, sizes)"
    and "g < length (mu_lc_groups u)" and "g < length sizes"
    and "omap_get (sc_ue_db s) (mu_rnti u) = Some v"
    and "\<forall>l \<in> set (mu_lc_groups u ! g). unat l < MAX_LC E" and "MAX_LC E \<le> 256"
  shows "\<exists>s' w. process_ce E L sh (u, s, cs) = Some (True, u, s', cs) \<and>
     omap_get (sc_ue_db s') (mu_rnti u) = Some w \<and>
     (\<forall>n < MAX_LC E. lc_bsr (su_lch w n) =
        (if of_nat n \<in> set (mu_lc_groups u ! g) then i32 (sizes ! g) else lc_bsr (su_lch v n))) \<and>
     (\<forall>k. k \<noteq> mu_rnti u \<longrightarrow> omap_get (sc_ue_db s') k = omap_get (sc_ue_db s) k)"
proof -
  have "process_ce E L sh (u, s, cs) =
      Some (True, u, bsr_group E (mu_rnti u) (sizes ! g) (mu_lc_groups u ! g) s, cs)"
    using assms(1-4) by (auto simp: process_ce_def)
  then show ?thesis using bsr_group_channels[OF assms(5,6,7), of "sizes ! g"] by blast
qed

definition demo_known :: sched where
  "demo_known = (sched_new 0)\<lparr>sc_ue_db := omap_set 70 (sched_ue_new demo_lib) []\<rparr>"

lemma demo_mac_max_lc: "MAX_LC demo_lib = 6"
  by (simp add: demo_lib_def)

lemma demo_mac_ue_fields: "mu_rnti demo_mac_ue = 70" "mu_lc_groups demo_mac_ue = [[0, 1], [], [], []]"
  by (simp_all add: demo_mac_ue_def mac_ue_config_def mac_ue_new_def set_lcg_eq numeral_eq_Suc)

theorem short_bsr_reaches_group_witness:
  "\<exists>s' w. process_ce demo_lib demo_mac_lib \<lparr>sh_is_sdu = False, sh_sdu_lcid = 0, sh_payload = [],
       sh_ce_type = SHORT_BSR, sh_phr = 0, sh_c_rnti = 0, sh_bsr = (0, [500, 0, 0, 0])\<rparr>
       (demo_mac_ue, demo_known, []) = Some (True, demo_mac_ue, s', []) \<and>
     omap_get (sc_ue_db s') 70 = Some w \<and> lc_bsr (su_lch w 1) = 500"
proof -
  let ?sh = "\<lparr>sh_is_sdu = False, sh_sdu_lcid = 0, sh_payload = [], sh_ce_type = SHORT_BSR, sh_phr = 0,
     sh_c_rnti = 0, sh_bsr = (0, [500, 0, 0, 0])\<rparr>"
  have "\<exists>s' w. process_ce demo_lib demo_mac_lib ?sh (demo_mac_ue, demo_known, []) = Some (True, demo_mac_ue, s', []) \<and>
     omap_get (sc_ue_db s') (mu_rnti demo_mac_ue) = Some w \<and>
     (\<forall>n < MAX_LC demo_lib. lc_bsr (su_lch w n) = (if of_nat n \<in> set (mu_lc_groups demo_mac_ue ! 0)
        then i32 ([500, 0, 0, 0] ! 0) else lc_bsr (su_lch (sched_ue_new demo_lib) n))) \<and>
     (\<forall>k. k \<noteq> mu_rnti demo_mac_ue \<longrightarrow> omap_get (sc_ue_db s') k = omap_get (sc_ue_db demo_known) k)"
    by (rule short_bsr_reaches_group) (simp_all add: demo_mac_ue_fields demo_known_def demo_mac_max_lc)
  then obtain s' w where "process_ce demo_lib demo_mac_lib ?sh (demo_mac_ue, demo_known, []) = Some (True, demo_mac_ue, s', [])"
     "omap_get (sc_ue_db s') 70 = Some w"
     "\<forall>n < MAX_LC demo_lib. lc_bsr (su_lch w n) = (if of_nat n \<in> set (mu_lc_groups demo_mac_ue ! 0)
        then i32 ([500, 0, 0, 0] ! 0) else lc_bsr (su_lch (sched_ue_new demo_lib) n))"
    unfolding demo_mac_ue_fields by blast
  moreover from this(3)[rule_format, of 1] have "lc_bsr (su_lch w 1) = 500"
    by (simp add: demo_mac_ue_fields demo_mac_max_lc)
  ultimately show ?thesis by blast
qed

section \<open>Logical channel groups\<close>

text \<open>a channel is once in the group it was assigned last, but moving it to another group does not
  take it out of its old group: both then carry it, and a report for either sets its size.\<close>

theorem lcg_change_keeps_old_group:
  assumes "set_lcg l g u = Some u1" and "set_lcg l g' u1 = Some u2" and "g \<noteq> g'"
  shows "count_list (mu_lc_groups u2 ! unat g') l = 1 \<and> l \<in> set (mu_lc_groups u2 ! unat g)"
proof -
  have g: "unat g \<noteq> unat g'" using assms(3) by (simp add: word_unat_eq_iff)
  have "count_list (removeAll l xs @ [l]) l = 1" for xs
    by (simp add: count_list_0_iff)
  then show ?thesis using assms(1,2) g by (auto simp: set_lcg_eq split: if_splits)
qed

theorem lcg_change_keeps_old_group_witness:
  "\<exists>u1 u2. set_lcg 3 1 demo_mac_ue = Some u1 \<and> set_lcg 3 2 u1 = Some u2 \<and> 3 \<in> set (mu_lc_groups u2 ! 1)"
proof -
  obtain u1 u2 where u: "set_lcg 3 1 demo_mac_ue = Some u1" "set_lcg 3 2 u1 = Some u2"
    by (simp add: set_lcg_eq demo_mac_ue_fields)
  then show ?thesis using lcg_change_keeps_old_group[OF u] by auto
qed

end
