(* ===== verification/Sched_Keys.thy ===== *)
theory Sched_Keys
  imports Sched_Users
begin

text \<open>
  What a scheduling round does to the map of users: it keeps the users and their RNTIs, and every
  grant it counts carries the RNTI of a user of the map. The MAC relies on this when it looks the
  users of the grants up.
\<close>

section \<open>The users of a map and their RNTIs\<close>

definition rids :: "(u16, sched_ue) omap \<Rightarrow> (u16 \<times> u16) list" where
  "rids db = map (\<lambda>p. (fst p, su_rnti (snd p))) db"

definition own_rnti :: "(u16, sched_ue) omap \<Rightarrow> bool" where
  "own_rnti db \<longleftrightarrow> (\<forall>(k, r) \<in> set (rids db). r = k)"

lemma rids_keys: "map fst db = map fst (rids db)"
  by (simp add: rids_def)

lemma rids_known: "(omap_get db k = None) \<longleftrightarrow> k \<notin> fst ` set (rids db)"
  by (force simp: rids_def map_of_eq_None_iff)

lemma rids_same:
  assumes "rids db' = rids db"
  shows "own_rnti db' = own_rnti db" "(omap_get db' k = None) = (omap_get db k = None)" "length db' = length db"
  using assms map_eq_imp_length_eq[OF assms[unfolded rids_def]] by (simp_all add: own_rnti_def rids_known)

lemma rids_update:
  "k < length db \<Longrightarrow> su_rnti u = su_rnti (snd (db ! k)) \<Longrightarrow> rids (db[k := (fst (db ! k), u)]) = rids db"
  by (rule nth_equalityI) (auto simp: rids_def nth_list_update)

lemma rids_wr:
  "rd db k = Some x \<Longrightarrow> wr db k (fst x, u) = Some db' \<Longrightarrow> su_rnti u = su_rnti (snd x) \<Longrightarrow> rids db' = rids db"
  by (auto dest!: rd_SomeD wr_SomeD simp: rids_update)

lemma rids_map: "(\<And>p. fst (f p) = fst p \<and> su_rnti (snd (f p)) = su_rnti (snd p)) \<Longrightarrow> rids (map f db) = rids db"
  by (simp add: rids_def)

lemma rids_member: "own_rnti db \<Longrightarrow> rd db k = Some x \<Longrightarrow> su_rnti (snd x) = fst x \<and> omap_get db (fst x) \<noteq> None"
  by (auto simp: own_rnti_def rids_def rd_def map_of_eq_None_iff split: if_splits)

lemma rnti_upd_harq [simp]:
  "su_rnti (upd_dl_harq i f u) = su_rnti u" "su_rnti (upd_ul_harq i g u) = su_rnti u"
  by (simp_all add: upd_dl_harq_def upd_ul_harq_def)

section \<open>The metrics\<close>

lemma rr_loop_rids:
  assumes "foldM (rr_body step mark) is (m, db) = Some (m', db')"
    and "\<And>m u h m' u'. step m u = Some (h, m', u') \<Longrightarrow> su_rnti u' = su_rnti u"
    and "\<And>h u. su_rnti (mark h u) = su_rnti u"
  shows "rids db' = rids db"
proof -
  have "rids (snd (m', db')) = rids db"
  proof (rule foldM_invariant[OF assms(1), where I = "\<lambda>s. rids (snd s) = rids db"])
    fix i s s' assume I: "rids (snd s) = rids db" and s: "rr_body step mark i s = Some s'"
    obtain n d where sd: "s = (n, d)" by fastforce
    obtain n' d' where sd': "s' = (n', d')" by fastforce
    obtain h u where "i < length d" "step n (snd (d ! i)) = Some (h, n', u)" "d' = d[i := (fst (d ! i), mark h u)]"
      using rr_body_SomeD[OF s[unfolded sd sd']] by blast
    then show "rids (snd s') = rids db" using I assms(2,3) by (simp add: sd sd' rids_update)
  qed simp
  then show ?thesis by simp
qed

lemma dl_apply_retx_rnti: "dl_apply_retx i m u = Some (Some (j, m', u')) \<Longrightarrow> su_rnti u' = su_rnti u"
  unfolding dl_apply_retx_def Let_def by (auto simp: bind_eq_Some_conv split: if_splits)

lemma dl_apply_newtx_rnti: "dl_apply_newtx E m u = Some (h, m', u') \<Longrightarrow> su_rnti u' = su_rnti u"
  unfolding dl_apply_newtx_def Let_def by (auto simp: bind_eq_Some_conv split: option.splits if_splits)

lemma dl_apply_rnti:
  assumes "dl_apply_user_allocation E m u = Some (h, m', u')"
  shows "su_rnti u' = su_rnti u"
proof -
  obtain retx where "(case get_pending_dl_harq E (dm_current_tti m) u of None \<Rightarrow> Some None
      | Some i \<Rightarrow> dl_apply_retx i m u) = Some retx"
      and b: "(case retx of Some (i, m, u) \<Rightarrow> Some (Some i, m, u) | None \<Rightarrow> dl_apply_newtx E m u) = Some (h, m', u')"
    using assms unfolding dl_apply_user_allocation_def by (auto simp only: bind_eq_Some_conv)
  then show ?thesis
    by (cases retx) (auto split: option.splits dest: dl_apply_retx_rnti dl_apply_newtx_rnti)
qed

lemma dl_new_tti_rids: "dl_new_tti E st nof c tti (m, db) = Some (m', db') \<Longrightarrow> rids db' = rids db"
  by (auto simp: dl_new_tti_def Let_def bind_eq_Some_conv mark_dl_def split: if_splits
      dest!: rr_loop_rids[OF _ dl_apply_rnti])

lemma ul_retx_rnti: "allocate_user_retx_prbs E m u = Some (h, m', u') \<Longrightarrow> su_rnti u' = su_rnti u"
  by (auto simp: allocate_user_retx_prbs_def Let_def bind_eq_Some_conv split: if_splits)

lemma ul_newtx_rnti: "newtx_if_unserved E m u = Some (h, m', u') \<Longrightarrow> su_rnti u' = su_rnti u"
  by (auto simp: newtx_if_unserved_def allocate_user_newtx_prbs_def Let_def bind_eq_Some_conv split: if_splits)

lemma mark_ul_rnti: "su_rnti (mark_ul h u) = su_rnti u"
  by (simp add: mark_ul_def)

lemma ul_retx_rids:
  "foldM (rr_body (allocate_user_retx_prbs E) mark_ul) is (m, db) = Some (m', db') \<Longrightarrow> rids db' = rids db"
  by (erule rr_loop_rids) (auto dest: ul_retx_rnti simp: mark_ul_rnti)

lemma ul_newtx_rids:
  "foldM (rr_body (newtx_if_unserved E) mark_ul) is (m, db) = Some (m', db') \<Longrightarrow> rids db' = rids db"
  by (erule rr_loop_rids) (auto dest: ul_newtx_rnti simp: mark_ul_rnti)

lemma ul_new_tti_rids:
  assumes "ul_new_tti E tti (m, db) = Some (m', db')"
  shows "rids db' = rids db"
proof (cases "length db = 0")
  case True
  then show ?thesis using assms by (simp add: ul_new_tti_def)
next
  case False
  let ?db = "map (\<lambda>p. (fst p, mark_ul None (snd p))) db"
  obtain m1 db1 is1 is2 where
    "foldM (rr_body (allocate_user_retx_prbs E) mark_ul) is1 (m\<lparr>um_current_tti := tti\<rparr>, ?db) = Some (m1, db1)"
    "foldM (rr_body (newtx_if_unserved E) mark_ul) is2 (m1, db1) = Some (m', db')"
    using assms False by (auto simp: ul_new_tti_def Let_def bind_eq_Some_conv)
  then have "rids db1 = rids ?db" "rids db' = rids db1" by (auto dest: ul_retx_rids ul_newtx_rids)
  then show ?thesis by (simp add: rids_def mark_ul_rnti)
qed

section \<open>The downlink round\<close>

lemma dci_keeps_db: "generate_dci E locs L v s = Some (r, s') \<Longrightarrow> sc_ue_db s' = sc_ue_db s"
  by (auto dest!: generate_dci_frame)

lemma rar_frame_db: "rar_frame s t \<Longrightarrow> sc_ue_db t = sc_ue_db s"
  unfolding rar_frame_def by (erule ssubst) simp

lemma place_bc_db:
  assumes "place_bc E nb rv acc entry count (s, n, bc) = Some st'" and "\<And>s. sc_ue_db (count s) = sc_ue_db s"
  shows "sc_ue_db (fst st') = sc_ue_db s"
  by (rule place_bc_cases[OF assms(1)]) (use assms(2) in \<open>auto simp: take_rbg_def dest!: dci_keeps_db\<close>)

lemma loop_db:
  assumes "foldM f xs st = Some st'" and "\<And>x st st'. f x st = Some st' \<Longrightarrow> sc_ue_db (fst st') = sc_ue_db (fst st)"
  shows "sc_ue_db (fst st') = sc_ue_db (fst st)"
  by (rule foldM_invariant[OF assms(1), where I = "\<lambda>t. sc_ue_db (fst t) = sc_ue_db (fst st)"]) (auto dest: assms(2))

lemma upd_sib_db [simp]: "sc_ue_db (upd_sib i f s) = sc_ue_db s"
  by (simp add: upd_sib_def)

lemma sib_tx_db: "sib_tx E i st = Some st' \<Longrightarrow> sc_ue_db (fst st') = sc_ue_db (fst st)"
  by (cases st) (auto simp: sib_tx_def Let_def split: if_splits dest!: place_bc_db)

lemma paging_tx_db: "paging_tx E p st = Some st' \<Longrightarrow> sc_ue_db (fst st') = sc_ue_db (fst st)"
  by (cases st) (auto simp: paging_tx_def split: if_splits option.splits dest!: place_bc_db)

lemma sib_window_db: "sc_ue_db (fold (sib_window E) js s) = sc_ue_db s"
  by (induction js arbitrary: s) (simp_all add: sib_window_def Let_def)

lemma dl_sched_bc_db: "dl_sched_bc E paging bc s = Some (s', n, bc') \<Longrightarrow> sc_ue_db s' = sc_ue_db s"
  by (auto simp: dl_sched_bc_def Let_def bind_eq_Some_conv sib_window_db
      dest!: loop_db[OF _ sib_tx_db] paging_tx_db)

lemma rar_tx_db: "rar_tx E i st = Some st' \<Longrightarrow> sc_ue_db (fst st') = sc_ue_db (fst st)"
  by (cases st, simp, erule rar_tx_cases)
    (auto simp: take_rbg_def clear_rar_def upd_rar_def dest!: dci_keeps_db rar_frame_db)

lemma dl_sched_rar_db: "dl_sched_rar E rar s = Some (s', n, rar') \<Longrightarrow> sc_ue_db s' = sc_ue_db s"
  by (auto simp: dl_sched_rar_def dest!: loop_db[OF _ rar_tx_db])

lemma alloc_pdu_loop_rnti: "su_rnti (snd (snd (alloc_pdu_loop tbs is u))) = su_rnti u"
  by (induction "is" arbitrary: u) (simp_all add: Let_def split_beta upd_lch_def)

lemma alloc_pdu_rnti: "su_rnti (snd (snd (alloc_pdu E rem u))) = su_rnti u"
  using alloc_pdu_loop_rnti[of rem "[0..<MAX_LC E]" u] by (simp add: alloc_pdu_def Let_def split_beta)

lemma fill_tb_rnti: "fill_tb E tb rem d u = Some (d', u') \<Longrightarrow> su_rnti u' = su_rnti u"
proof (induction E tb rem d u arbitrary: d' u' rule: fill_tb.induct)
  case (1 E tb rem d u)
  let ?x = "fst (alloc_pdu E rem u)" and ?p = "fst (snd (alloc_pdu E rem u))" and ?u = "snd (snd (alloc_pdu E rem u))"
  obtain c where c: "(case ?p of None \<Rightarrow> Some d | Some q \<Rightarrow> append_pdu tb q d) = Some c"
    using 1(2) by (subst (asm) fill_tb.simps) (auto simp: Let_def split: option.splits)
  show ?case
  proof (cases "0 < rem - ?x \<and> 0 < ?x")
    case True
    then have "fill_tb E tb (rem - ?x) c ?u = Some (d', u')"
      using 1(2) c by (subst (asm) fill_tb.simps) (simp add: Let_def)
    from 1(1)[OF refl refl refl c True this] show ?thesis by (simp add: alloc_pdu_rnti)
  next
    case False
    then have "u' = ?u" using 1(2) c by (subst (asm) fill_tb.simps) (auto simp: Let_def split: if_splits)
    then show ?thesis by (simp add: alloc_pdu_rnti)
  qed
qed

lemma format1_rnti:
  assumes "generate_format1 E i d tti cfi u = Some (t, d', u')"
  shows "su_rnti u' = su_rnti u \<and> ds_rnti d' = su_rnti u"
proof -
  let ?d = "clear_dci (su_dl_harq u i) d"
  obtain mcs tbs e v where g: "(if is_empty (su_dl_harq u i) 0 then format1_new_tx E i ?d tti cfi u
        else let ((mcs, tbs), h) = new_retx 0 tti (su_dl_harq u i)
             in Some (mcs, tbs, ?d, upd_dl_harq i (\<lambda>_. h) u)) = Some (mcs, tbs, e, v)"
      "format1_result i mcs tbs e v = (t, d', u')"
    using assms by (simp add: generate_format1_def Let_def bind_eq_Some_conv split_paired_Ex) blast
  have "su_rnti v = su_rnti u"
  proof (cases "is_empty (su_dl_harq u i) 0")
    case True
    then show ?thesis
      using g(1) by (auto simp: format1_new_tx_def Let_def bind_eq_Some_conv dest!: fill_tb_rnti split: if_splits)
  next
    case False
    then show ?thesis using g(1) by (auto simp: new_retx_def)
  qed
  then show ?thesis using g(2) by (auto simp: format1_result_def Let_def split: if_splits)
qed

lemma format2_tb_rnti: "format2_tb E i tti np nr en nort tb (d, u) = Some (d', u') \<Longrightarrow> su_rnti u' = su_rnti u"
  unfolding format2_tb_def Let_def
  by (auto simp: new_retx_def bind_eq_Some_conv dest!: fill_tb_rnti split: if_splits)

lemma format2a_rnti:
  assumes "generate_format2a E i d tti cfi u = Some (t, d', u')"
  shows "su_rnti u' = su_rnti u \<and> ds_rnti d' = su_rnti u"
proof -
  obtain np nr en nort e v where
    "foldM (format2_tb E i tti np nr en nort) [0..<SRSLTE_MAX_TB E] (clear_dci (su_dl_harq u i) d, u) = Some (e, v)"
    and r: "ds_rnti d' = su_rnti v" "su_rnti u' = su_rnti v"
    using assms unfolding generate_format2a_def Let_def
    by (cases "format2_layers E (su_dl_ri u) (su_dl_harq u i)") (auto simp: bind_eq_Some_conv)
  then have "su_rnti (snd (e, v)) = su_rnti u"
    by (elim foldM_invariant) (auto dest!: format2_tb_rnti)
  then show ?thesis using r by simp
qed

lemma format2_rnti:
  assumes "generate_format2 E i d tti cfi u = Some (t, d', u')"
  shows "su_rnti u' = su_rnti u \<and> ds_rnti d' = su_rnti u"
  using assms by (auto simp: generate_format2_def Let_def bind_eq_Some_conv dest!: format2a_rnti)

lemma data_grant_rnti:
  "data_grant E f h d s u = Some (t, d', u') \<Longrightarrow> su_rnti u' = su_rnti u \<and> (0 < t \<longrightarrow> ds_rnti d' = su_rnti u)"
  by (auto simp: data_grant_def dest: format1_rnti format2_rnti format2a_rnti split: dci_format.splits)

lemma reset_timeout_rnti: "su_rnti (reset_timeout_dl_harq E tti u) = su_rnti u"
  unfolding reset_timeout_dl_harq_def Let_def
  by (rule fold_invariant[where P = "\<lambda>v. su_rnti v = su_rnti u" and Q = "\<lambda>_. True"]) simp_all

text \<open>A result array \<open>data\<close> with \<open>n\<close> entries whose RNTIs belong to users.\<close>

definition known_entries :: "(u16 \<times> u16) list \<Rightarrow> nat \<Rightarrow> u16 list \<Rightarrow> bool" where
  "known_entries rs n ids \<longleftrightarrow> n \<le> length ids \<and> (\<forall>i < n. ids ! i \<in> snd ` set rs)"

lemma known_same: "known_entries rs n ids \<Longrightarrow> known_entries rs n (ids[n := r])"
  by (simp add: known_entries_def)

lemma known_next: "known_entries rs n ids \<Longrightarrow> n < length ids \<Longrightarrow> r \<in> snd ` set rs \<Longrightarrow> known_entries rs (n + 1) (ids[n := r])"
  by (auto simp: known_entries_def nth_list_update less_Suc_eq)

lemma rids_rnti: "rd db k = Some x \<Longrightarrow> su_rnti (snd x) \<in> snd ` set (rids db)"
  by (force simp: rids_def rd_def split: if_splits)

lemma data_tx_keys:
  assumes "data_tx E k (s, n, data) = Some (s', n', data')"
    and "known_entries (rids (sc_ue_db s)) n (map ds_rnti data)"
  shows "rids (sc_ue_db s') = rids (sc_ue_db s) \<and> known_entries (rids (sc_ue_db s)) n' (map ds_rnti data')"
proof -
  obtain x d where x: "rd (sc_ue_db s) k = Some x" and d: "rd data n = Some d"
    using assms(1) by (auto simp: data_tx_def bind_eq_Some_conv)
  let ?u = "snd x" and ?d = "d\<lparr>ds_dci_format := get_dci_format (snd x)\<rparr>"
  let ?L = "get_aggr_level E (dci_format_sizeof E FORMAT1 (cl_nof_prb (cc_cell (sc_cfg s)))
                                 (cl_nof_ports (cc_cell (sc_cfg s)))) ?u"
  let ?locs = "get_locations (sc_current_cfi s) (sc_sf_idx s) ?u"
  note rnti = rids_rnti[OF x] and n = rd_SomeD[OF d]
  have stay: ?thesis if "su_rnti v = su_rnti ?u" "wr data n e = Some data'" "n' = n"
      "wr (sc_ue_db s) k (fst x, reset_timeout_dl_harq E t v) = Some (sc_ue_db s')" for e v t
  proof -
    have "map ds_rnti data' = (map ds_rnti data)[n := ds_rnti e]"
      using wr_SomeD[OF that(2)] by (simp add: map_update)
    then show ?thesis using that assms(2) rids_wr[OF x that(4)] by (simp add: reset_timeout_rnti known_same)
  qed
  show ?thesis
  proof (cases "dl_get_user_allocation ?u")
    case None
    then obtain t where "wr data n ?d = Some data'" "n' = n"
        "wr (sc_ue_db s) k (fst x, reset_timeout_dl_harq E t ?u) = Some (sc_ue_db s')"
      using assms(1) x d by (auto simp: data_tx_def Let_def bind_eq_Some_conv)
    then show ?thesis by (intro stay[of ?u]) simp_all
  next
    case (Some h)
    obtain r s1 where g: "generate_dci E ?locs ?L (Some ?u) s = Some (r, s1)"
      using assms(1) x d Some by (simp add: data_tx_def Let_def bind_eq_Some_conv split_paired_Ex) blast
    note db = dci_keeps_db[OF g]
    show ?thesis
    proof (cases r)
      case None
      then obtain t where "wr data n ?d = Some data'" "n' = n"
          "wr (sc_ue_db s) k (fst x, reset_timeout_dl_harq E t (upd_dl_harq h (reset_all_tbs E) ?u)) = Some (sc_ue_db s')"
        using assms(1) x d Some g db by (auto simp: data_tx_def Let_def bind_eq_Some_conv)
      then show ?thesis by (intro stay[of "upd_dl_harq h (reset_all_tbs E) ?u"]) simp_all
    next
      case (Some l)
      obtain tbs e v where f: "data_grant E (get_dci_format ?u) h (?d\<lparr>ds_dci_location := l\<rparr>) s1 ?u = Some (tbs, e, v)"
        using assms(1) x d \<open>dl_get_user_allocation ?u = _\<close> g[unfolded Some]
        by (simp add: data_tx_def Let_def bind_eq_Some_conv split_paired_Ex) blast
      obtain t where w: "wr data n e = Some data'" "n' = (if 0 < tbs then n + 1 else n)"
          "wr (sc_ue_db s) k (fst x, reset_timeout_dl_harq E t v) = Some (sc_ue_db s')"
        using assms(1) x d \<open>dl_get_user_allocation ?u = _\<close> g[unfolded Some] f db
        by (auto simp: data_tx_def Let_def bind_eq_Some_conv)
      note fr = data_grant_rnti[OF f]
      show ?thesis
      proof (cases "0 < tbs")
        case False
        then show ?thesis using w fr by (intro stay[of v]) simp_all
      next
        case True
        have "map ds_rnti data' = (map ds_rnti data)[n := ds_rnti e]"
          using wr_SomeD[OF w(1)] by (simp add: map_update)
        moreover have "ds_rnti e \<in> snd ` set (rids (sc_ue_db s))" using fr True rnti by simp
        ultimately show ?thesis
          using rids_wr[OF x w(3)] w(2) True fr n known_next[OF assms(2)] by (simp add: reset_timeout_rnti)
      qed
    qed
  qed
qed

lemma dl_sched_data_keys:
  assumes "dl_sched_data_fn E data s = Some (s', n, data')"
  shows "rids (sc_ue_db s') = rids (sc_ue_db s) \<and> known_entries (rids (sc_ue_db s)) n (map ds_rnti data')"
proof -
  let ?s = "prach_guard E s"
  have g: "sc_ue_db ?s = sc_ue_db s" by (simp add: prach_guard_def)
  obtain m m' db where d: "dl_new_tti E (sc_start_rbg ?s) (sc_avail_rbg ?s) (data_nof_ctrl ?s) (sc_current_tti ?s)
        (m, sc_ue_db ?s) = Some (m', db)"
    and f: "foldM (data_tx E) [0..<length db] (?s\<lparr>sc_dl_metric := Some m', sc_ue_db := db\<rparr>, 0, data) = Some (s', n, data')"
    using assms by (auto simp: dl_sched_data_fn_def Let_def bind_eq_Some_conv)
  let ?I = "\<lambda>(t, k, e). rids (sc_ue_db t) = rids db \<and> known_entries (rids db) k (map ds_rnti e)"
  have "?I (s', n, data')"
  proof (rule foldM_invariant[OF f])
    show "?I (?s\<lparr>sc_dl_metric := Some m', sc_ue_db := db\<rparr>, 0, data)" by (simp add: known_entries_def)
  qed (auto dest: data_tx_keys)
  then show ?thesis using dl_new_tti_rids[OF d] g by simp
qed

text \<open>One downlink round: the map keeps its users, and the counted grants are for users in it.\<close>

lemma dl_sched_keys:
  assumes "dl_sched E paging tti res s = Some (c, res', s')" and "dr_nof_data_elems res = 0"
  shows "rids (sc_ue_db s') = rids (sc_ue_db s) \<and>
    known_entries (rids (sc_ue_db s)) (dr_nof_data_elems res') (map ds_rnti (dr_data res'))"
proof (cases "sc_configured s")
  case False
  then show ?thesis using assms by (auto simp: dl_sched_def known_entries_def)
next
  case True
  obtain s1 nbc bc s2 nrar rar ndata data where
    "dl_sched_bc E paging (dr_bc (dl_res_zero E)) (dl_start tti s) = Some (s1, nbc, bc)"
    "dl_sched_rar E (dr_rar (dl_res_zero E)) s1 = Some (s2, nrar, rar)"
    and d: "dl_sched_data_fn E (dr_data (dl_res_zero E)) s2 = Some (s', ndata, data)"
    and r: "dr_nof_data_elems res' = ndata" "dr_data res' = data"
    using assms True by (auto simp: dl_sched_def Let_def bind_eq_Some_conv)
  then have "sc_ue_db s2 = sc_ue_db s"
    by (auto dest!: dl_sched_bc_db dl_sched_rar_db simp: dl_start_def Let_def)
  then show ?thesis using dl_sched_data_keys[OF d] r by simp
qed

section \<open>The uplink round\<close>

lemma phich_step_rids:
  "phich_step E tti k (db, n, ph) = Some (db', n', ph') \<Longrightarrow> rids db' = rids db"
  by (auto simp: phich_step_def Let_def bind_eq_Some_conv split_beta split: if_splits elim!: rids_wr)

lemma pucch_step_rids: "pucch_step E tti k (m, db) = Some (m', db') \<Longrightarrow> rids db' = rids db"
  by (auto simp: pucch_step_def bind_eq_Some_conv split: option.splits elim!: rids_wr)

lemma reserve_pucch_rids:
  assumes "reserve_pucch E tti c (m, db) = Some (m', db')"
  shows "rids db' = rids db"
proof (cases "0 \<le> cc_nrb_pucch c")
  case True
  then show ?thesis using assms by (auto simp: reserve_pucch_def Let_def bind_eq_Some_conv)
next
  case False
  then have f: "foldM (pucch_step E tti) [0..<length db] (m, db) = Some (m', db')"
    using assms by (simp add: reserve_pucch_def)
  have "rids (snd (m', db')) = rids db"
    by (rule foldM_invariant[OF f]) (auto dest: pucch_step_rids)
  then show ?thesis by simp
qed

lemma format0_rnti:
  assumes "generate_format0 E i d tti cqi u = Some (t, d', u')"
  shows "su_rnti u' = su_rnti u \<and> us_rnti d' = su_rnti u"
proof -
  obtain nt mcs tbs v where f: "format0_tx E i tti u = Some (nt, mcs, tbs, v)"
      "format0_result (get_alloc (su_ul_harq u i)) i nt mcs tbs cqi (d\<lparr>us_dci := ul_dci_zero\<rparr>) v = (t, d', u')"
    using assms by (simp add: generate_format0_def Let_def bind_eq_Some_conv split_paired_Ex) blast
  have "su_rnti v = su_rnti u"
    using f(1) by (auto simp: format0_tx_def Let_def bind_eq_Some_conv split_beta split: option.splits if_splits)
  then show ?thesis using f(2) by (auto simp: format0_result_def Let_def split: if_splits)
qed

lemma pusch_dci_rnti: "pusch_dci E np i d s u = Some (go, d', s', u') \<Longrightarrow> su_rnti u' = su_rnti u \<and> sc_ue_db s' = sc_ue_db s"
  by (auto simp: pusch_dci_def Let_def bind_eq_Some_conv split: if_splits option.splits dest: dci_keeps_db)

lemma pusch_grant_rnti:
  assumes "pusch_grant E tti is_rar i d s u = Some (ok, d', s', u')"
  shows "su_rnti u' = su_rnti u \<and> sc_ue_db s' = sc_ue_db s \<and> (ok \<longrightarrow> us_rnti d' = su_rnti u)"
proof -
  let ?np = "\<not> is_adaptive_retx (su_ul_harq u i) \<and> \<not> is_rar"
  let ?v = "if is_empty (su_ul_harq u i) 0
      then upd_ul_harq i (set_max_retx (if is_rar then cc_maxharq_msg3tx (sc_cfg s) else get_max_retx u)) u
      else u"
  have v: "su_rnti ?v = su_rnti u" by simp
  obtain go e s1 w where g: "pusch_dci E ?np i d s ?v = Some (go, e, s1, w)"
    using assms by (simp only: pusch_grant_def Let_def bind_eq_Some_conv) auto
  note dr = pusch_dci_rnti[OF g]
  show ?thesis
  proof (cases go)
    case True
    obtain cqi w' where c: "needs_cqi E tti True w = (cqi, w')" by fastforce
    then have w': "su_rnti w' = su_rnti w" by (auto simp: needs_cqi_def split: if_splits)
    obtain t z where f: "generate_format0 E i e (sc_current_tti s1) cqi w' = Some (t, d', z)" and s1: "s1 = s'"
        and u': "u' = (if 0 < t \<and> is_empty (su_ul_harq u i) 0 then unset_sr z else z)"
      using assms g True c by (simp only: pusch_grant_def Let_def) (auto simp: bind_eq_Some_conv)
    have "su_rnti u' = su_rnti z" by (simp add: u' unset_sr_def)
    then show ?thesis using format0_rnti[OF f] w' dr v s1 by metis
  next
    case False
    then have "s1 = s'" "\<not> ok" "u' = w"
      using assms g by (simp only: pusch_grant_def Let_def, auto)+
    then show ?thesis using dr v by metis
  qed
qed

lemma pusch_harq_rnti:
  "pusch_harq E tti r s u = (h, is_rar, s', u') \<Longrightarrow> su_rnti u' = su_rnti u \<and> sc_ue_db s' = sc_ue_db s"
  by (auto simp: pusch_harq_def Let_def split: if_splits)

lemma pusch_step_keys:
  assumes "pusch_step E tti k (s, n, pusch) = Some (s', n', pusch')"
    and "known_entries (rids (sc_ue_db s)) n (map us_rnti pusch)"
  shows "rids (sc_ue_db s') = rids (sc_ue_db s) \<and> known_entries (rids (sc_ue_db s)) n' (map us_rnti pusch')"
proof -
  obtain x where x: "rd (sc_ue_db s) k = Some x" using assms(1) by (auto simp: pusch_step_def bind_eq_Some_conv)
  obtain h is_rar s1 u where h: "pusch_harq E tti (fst x) s (snd x) = (h, is_rar, s1, u)" by (metis prod_cases4)
  note hr = pusch_harq_rnti[OF h]
  show ?thesis
  proof (cases h)
    case None
    then have "wr (sc_ue_db s) k (fst x, u) = Some (sc_ue_db s')" "n' = n" "pusch' = pusch"
      using assms(1) x h hr by (auto simp: pusch_step_def bind_eq_Some_conv)
    then show ?thesis using assms(2) hr rids_wr[OF x, of u] by simp
  next
    case (Some i)
    obtain d ok e s2 v where g: "pusch_grant E tti is_rar i d s1 u = Some (ok, e, s2, v)"
        "rd pusch n = Some d" "wr pusch n e = Some pusch'"
      using assms(1) x h Some by (auto simp: pusch_step_def bind_eq_Some_conv)
    note gr = pusch_grant_rnti[OF g(1)]
    have w: "wr (sc_ue_db s) k (fst x, v) = Some (sc_ue_db s')" "n' = (if ok then n + 1 else n)"
      using assms(1) x h Some g hr gr by (auto simp: pusch_step_def bind_eq_Some_conv)
    have m: "map us_rnti pusch' = (map us_rnti pusch)[n := us_rnti e]" "n < length pusch"
      using wr_SomeD[OF g(3)] by (simp_all add: map_update)
    have "us_rnti e \<in> snd ` set (rids (sc_ue_db s))" if ok using that gr hr rids_rnti[OF x] by simp
    then have "known_entries (rids (sc_ue_db s)) n' (map us_rnti pusch')"
      using w(2) m known_next[OF assms(2)] known_same[OF assms(2)] by (cases ok) simp_all
    then show ?thesis using rids_wr[OF x w(1)] gr hr by simp
  qed
qed

lemma ul_feedback_rids:
  assumes "foldM (phich_step E tti) [0..<k] (db, n, ph) = Some (db', n', ph')"
  shows "rids db' = rids db"
proof -
  have "rids (fst (db', n', ph')) = rids db"
    by (rule foldM_invariant[OF assms]) (auto dest: phich_step_rids)
  then show ?thesis by simp
qed

text \<open>One uplink round.\<close>

lemma ul_sched_keys:
  assumes "ul_sched E tti res s = Some (c, res', s')" and "ur_nof_dci_elems res = 0"
  shows "rids (sc_ue_db s') = rids (sc_ue_db s) \<and>
    known_entries (rids (sc_ue_db s)) (ur_nof_dci_elems res') (map us_rnti (ur_pusch res'))"
proof (cases "\<not> sc_configured s \<or> c \<noteq> 0")
  case True
  then show ?thesis
    using assms by (auto simp: ul_sched_def Let_def known_entries_def bind_eq_Some_conv split: if_splits)
next
  case False
  let ?s = "ul_start E tti s"
  have start: "sc_ue_db ?s = sc_ue_db s" by (simp add: ul_start_def Let_def)
  obtain m db1 ph n m1 m2 m3 m4 m5 db2 db3 s1 k pusch where
    f: "foldM (phich_step E tti) [0..<length (sc_ue_db ?s)] (sc_ue_db ?s, 0, ur_phich (ul_res_zero E)) = Some (db1, n, ph)"
    and p: "reserve_pucch E tti (sc_cfg s) (m3, db1) = Some (m4, db2)"
    and t: "ul_new_tti E tti (m4, db2) = Some (m5, db3)"
    and g: "foldM (pusch_step E tti) [0..<length db3] (?s\<lparr>sc_ul_metric := Some m5, sc_ue_db := db3\<rparr>, 0, ur_pusch (ul_res_zero E))
      = Some (s1, k, pusch)"
    and s': "sc_ue_db s' = map (reset_pending_step E tti) (sc_ue_db s1)"
    and r: "ur_nof_dci_elems res' = k" "ur_pusch res' = pusch"
    using assms False
    by (simp add: ul_sched_def Let_def bind_eq_Some_conv split_paired_Ex split: if_splits) fastforce
  have db3: "rids db3 = rids (sc_ue_db s)"
    using ul_feedback_rids[OF f] reserve_pucch_rids[OF p] ul_new_tti_rids[OF t] start by simp
  let ?I = "\<lambda>(t, k, e). rids (sc_ue_db t) = rids db3 \<and> known_entries (rids db3) k (map us_rnti e)"
  have "?I (s1, k, pusch)"
  proof (rule foldM_invariant[OF g])
    show "?I (?s\<lparr>sc_ul_metric := Some m5, sc_ue_db := db3\<rparr>, 0, ur_pusch (ul_res_zero E))"
      by (simp add: known_entries_def)
  qed (auto dest: pusch_step_keys)
  moreover have "rids (map (reset_pending_step E tti) (sc_ue_db s1)) = rids (sc_ue_db s1)"
    by (rule rids_map) (simp add: reset_pending_step_def)
  ultimately show ?thesis using db3 s' r by simp
qed

end
