(* ===== verification/Mac_Users.thy ===== *)
theory Mac_Users
  imports Mac_Rounds Mac_UE_Props Sched_Keys
begin

text \<open>
  The users of the MAC and of the scheduler it owns. The MAC keeps its own map of users beside the
  scheduler's; every operation of the class is a step, and the two maps agree in every reachable
  state, so that the grants of a scheduling round are never lost on their way to the PHY.
\<close>

section \<open>Steps\<close>

inductive mac_step :: "srslte \<Rightarrow> mac_lib \<Rightarrow> 'w mac_env \<Rightarrow> mac \<Rightarrow> mac \<Rightarrow> bool" for E L N where
  rach: "rach_detected E tti pre ta m = Some (r, m', cs) \<Longrightarrow> mac_step E L N m m'"
| cfg: "mac_ue_cfg E rnti c m = Some (r, m', cs) \<Longrightarrow> mac_step E L N m m'"
| rem: "mac_ue_rem rnti m = (r, m', cs) \<Longrightarrow> mac_step E L N m m'"
| bearer: "mac_bearer_ue_cfg E rnti lc b m = Some (r, m') \<Longrightarrow> mac_step E L N m m'"
| bearer_rem: "mac_bearer_ue_rem E rnti lc m = (r, m') \<Longrightarrow> mac_step E L N m m'"
| rlc: "mac_rlc_buffer_state E L rnti lc tx retx m = Some (r, m') \<Longrightarrow> mac_step E L N m m'"
| phy: "mac_step E L N m (mac_phy_config_enabled rnti en m)"
| cell: "mac_cell_cfg E cc m = Some (r, m') \<Longrightarrow> mac_step E L N m m'"
| metrics: "mac_get_metrics E L m = Some (ms, m') \<Longrightarrow> mac_step E L N m m'"
| failure: "mac_rl_failure rnti m = (m', cs) \<Longrightarrow> mac_step E L N m m'"
| ok: "mac_step E L N m (mac_rl_ok rnti m)"
| ack: "mac_ack_info E tti rnti tb a m = Some (r, m', cs) \<Longrightarrow> mac_step E L N m m'"
| crc: "mac_crc_info E tti rnti nb c m = (r, m', cs) \<Longrightarrow> mac_step E L N m m'"
| ant: "mac_set_dl_ant_info rnti a m = (r, m') \<Longrightarrow> mac_step E L N m m'"
| ri: "mac_ri_info L tti rnti x m = (r, m') \<Longrightarrow> mac_step E L N m m'"
| pmi: "mac_pmi_info L tti rnti x m = (r, m') \<Longrightarrow> mac_step E L N m m'"
| cqi: "mac_cqi_info L tti rnti x m = (r, m') \<Longrightarrow> mac_step E L N m m'"
| snr: "mac_snr_info L tti rnti y m = (r, m') \<Longrightarrow> mac_step E L N m m'"
| sr: "mac_sr_detected tti rnti m = (r, m') \<Longrightarrow> mac_step E L N m m'"
| dl: "get_dl_sched E L N paging tti m w = Some (r, res, m', w') \<Longrightarrow> mac_step E L N m m'"
| ul: "get_ul_sched E q tti m = Some (r, res', m', cs) \<Longrightarrow> mac_step E L N m m'"
| mch: "get_mch_sched L N is_mcch m w = Some (rn, d, m', w') \<Longrightarrow> mac_step E L N m m'"
| mcch: "write_mcch E L pack bits mcs msg m = Some (m', cs) \<Longrightarrow> mac_step E L N m m'"
| pdu: "user k m = Some u \<Longrightarrow> process_pdu E L p bytes u (ma_scheduler m) = Some (u', s', cs) \<Longrightarrow>
    mac_step E L N m (put_user k u' m\<lparr>ma_scheduler := s'\<rparr>)"

text \<open>The runs of the MAC from \<open>init\<close> on an object without users.\<close>

inductive mac_reach :: "srslte \<Rightarrow> mac_lib \<Rightarrow> 'w mac_env \<Rightarrow> mac \<Rightarrow> bool" for E L N where
  init: "ma_ue_db m = [] \<Longrightarrow> mac_init args cell ptrs m = (True, m') \<Longrightarrow> mac_reach E L N m'"
| step: "mac_reach E L N m \<Longrightarrow> mac_step E L N m m' \<Longrightarrow> mac_reach E L N m'"

section \<open>The two maps\<close>

definition sched_knows :: "u16 \<Rightarrow> mac \<Rightarrow> bool" where
  "sched_knows r m \<longleftrightarrow> omap_get (sc_ue_db (ma_scheduler m)) r \<noteq> None"

definition mac_knows :: "u16 \<Rightarrow> mac \<Rightarrow> bool" where
  "mac_knows r m \<longleftrightarrow> user r m \<noteq> None"

definition mac_inv :: "mac_lib \<Rightarrow> mac \<Rightarrow> bool" where
  "mac_inv L m \<longleftrightarrow> own_rnti (sc_ue_db (ma_scheduler m)) \<and>
     (\<forall>r. sched_knows r m \<longrightarrow> mac_knows r m) \<and>
     (\<forall>r. mac_knows r m \<longrightarrow> r \<noteq> SRSLTE_MRNTI L \<longrightarrow> sched_knows r m)"

text \<open>What almost every operation does: no user appears or disappears on either side.\<close>

definition keeps_users :: "mac \<Rightarrow> mac \<Rightarrow> bool" where
  "keeps_users m m' \<longleftrightarrow> (\<forall>r. mac_knows r m' = mac_knows r m) \<and> (\<forall>r. sched_knows r m' = sched_knows r m) \<and>
     (own_rnti (sc_ue_db (ma_scheduler m)) \<longrightarrow> own_rnti (sc_ue_db (ma_scheduler m')))"

lemma keeps_inv: "mac_inv L m \<Longrightarrow> keeps_users m m' \<Longrightarrow> mac_inv L m'"
  by (simp add: mac_inv_def keeps_users_def)

lemma keeps_refl [simp]: "keeps_users m m"
  by (simp add: keeps_users_def)

lemma keeps_trans: "keeps_users m m1 \<Longrightarrow> keeps_users m1 m2 \<Longrightarrow> keeps_users m m2"
  by (simp add: keeps_users_def)

lemma keeps_put:
  "user k m \<noteq> None \<Longrightarrow> keeps_users m (put_user k u m)"
  by (simp add: keeps_users_def mac_knows_def sched_knows_def user_def put_user_def om.look_put)

text \<open>What a change of the scheduler must satisfy.\<close>

definition sched_keeps :: "sched \<Rightarrow> sched \<Rightarrow> bool" where
  "sched_keeps s s' \<longleftrightarrow> (\<forall>r. (omap_get (sc_ue_db s') r = None) = (omap_get (sc_ue_db s) r = None)) \<and>
     (own_rnti (sc_ue_db s) \<longrightarrow> own_rnti (sc_ue_db s'))"

lemma sched_keeps_refl [simp]: "sched_keeps s s"
  by (simp add: sched_keeps_def)

lemma sched_keeps_trans: "sched_keeps s s1 \<Longrightarrow> sched_keeps s1 s2 \<Longrightarrow> sched_keeps s s2"
  by (simp add: sched_keeps_def)

lemma keeps_sched: "sched_keeps (ma_scheduler m) s \<Longrightarrow> keeps_users m (m\<lparr>ma_scheduler := s\<rparr>)"
  by (simp add: keeps_users_def mac_knows_def sched_knows_def user_def sched_keeps_def)

lemma keeps_fields:
  "ma_ue_db m' = ma_ue_db m \<Longrightarrow> ma_scheduler m' = ma_scheduler m \<Longrightarrow> keeps_users m m'"
  by (simp add: keeps_users_def mac_knows_def sched_knows_def user_def)

lemma sched_keeps_rids:
  assumes "rids (sc_ue_db s') = rids (sc_ue_db s)"
  shows "sched_keeps s s'"
  using rids_same[OF assms] by (simp add: sched_keeps_def)

lemma own_rnti_set: "own_rnti db \<Longrightarrow> su_rnti u = k \<Longrightarrow> own_rnti (omap_set k u db)"
  using set_omap_set_sub[of k u db] by (fastforce simp: own_rnti_def rids_def)

lemma own_rnti_get: "own_rnti db \<Longrightarrow> omap_get db k = Some u \<Longrightarrow> su_rnti u = k"
  by (auto simp: own_rnti_def rids_def dest!: map_of_SomeD)

lemma on_ue_keeps:
  assumes "\<And>u. su_rnti (snd (f u)) = su_rnti u"
  shows "sched_keeps s (snd (on_ue rnti e f s))"
  using assms
  by (auto simp: on_ue_def sched_keeps_def om.look_put own_rnti_set own_rnti_get split: option.split)

named_theorems rnti_kept

lemmas [rnti_kept] = upd_lch_def set_bearer_cfg_def rem_bearer_def dl_buffer_state_def ul_buffer_state_def

lemma ack_rnti [rnti_kept]: "su_rnti (snd (ue_set_ack_info E tti tb a u)) = su_rnti u"
  by (auto simp: ue_set_ack_info_def Let_def split: option.split prod.split)

lemma crc_rnti [rnti_kept]: "su_rnti (set_ul_crc E tti c u) = su_rnti u"
  by (simp add: set_ul_crc_def Let_def)

lemma indications_keep:
  "sched_keeps s (snd (dl_rlc_buffer_state E rnti lc tx retx s))"
  "sched_keeps s (snd (bearer_ue_cfg E rnti lc c s))"
  "sched_keeps s (snd (bearer_ue_rem E rnti lc s))"
  "sched_keeps s (snd (sched_phy_config_enabled rnti en s))"
  "sched_keeps s (snd (dl_ack_info E tti rnti tb a s))"
  "sched_keeps s (snd (ul_crc_info E tti rnti crc s))"
  "sched_keeps s (snd (dl_ant_info rnti am s))"
  "sched_keeps s (snd (dl_ri_info tti rnti x s))"
  "sched_keeps s (snd (dl_pmi_info tti rnti x s))"
  "sched_keeps s (snd (dl_cqi_info tti rnti x s))"
  "sched_keeps s (snd (ul_cqi_info tti rnti x y s))"
  "sched_keeps s (snd (ul_sr_info tti rnti s))"
  "sched_keeps s (snd (ul_bsr E rnti lcid bsr setv s))"
  "sched_keeps s (snd (sched_ul_phr rnti phr s))"
  unfolding dl_rlc_buffer_state_def bearer_ue_cfg_def bearer_ue_rem_def sched_phy_config_enabled_def
    dl_ack_info_def ul_crc_info_def dl_ant_info_def dl_ri_info_def dl_pmi_info_def dl_cqi_info_def
    ul_cqi_info_def ul_sr_info_def ul_bsr_def sched_ul_phr_def
  by (rule on_ue_keeps; simp add: rnti_kept ue_phy_config_enabled_def set_dl_ant_info_def set_dl_ri_def
      set_dl_pmi_def set_dl_cqi_def set_ul_cqi_def set_sr_def ul_phr_def)+

section \<open>Every operation keeps the invariant\<close>

lemma fold_keeps_rnti: "(\<And>i u. su_rnti (f i u) = su_rnti u) \<Longrightarrow> su_rnti (fold f is u) = su_rnti u"
  by (induction "is" arbitrary: u) simp_all

lemma foldM_keeps_rnti:
  assumes "foldM f is u = Some u'" and "\<And>i u u'. f i u = Some u' \<Longrightarrow> su_rnti u' = su_rnti u"
  shows "su_rnti u' = su_rnti u"
  by (rule foldM_invariant[OF assms(1), where I = "\<lambda>v. su_rnti v = su_rnti u"]) (auto dest: assms(2))

lemma set_cfg_rnti:
  assumes "set_cfg E rnti cfg cellc regs u = Some u'"
  shows "su_rnti u' = rnti"
proof -
  let ?f = "\<lambda>i u. upd_ul_harq i (harq_config (SRSLTE_MAX_TB E) (of_nat i) (uc_maxharq_tx (su_cfg u)))
                 (upd_dl_harq i (harq_config (SRSLTE_MAX_TB E) (of_nat i) (uc_maxharq_tx (su_cfg u))) u)"
  let ?g = "\<lambda>cfi. foldM (\<lambda>sf u. do {
              d \<leftarrow> generate_cce_location E regs (of_nat cfi + 1) (of_nat sf) rnti (su_dci_locations u cfi sf);
              Some (u\<lparr>su_dci_locations :=
                (su_dci_locations u)(cfi := (su_dci_locations u cfi)(sf := d))\<rparr>)
            }) [0..<10]"
  let ?r = "sched_ue_reset E u\<lparr>su_rnti := rnti, su_cell := cc_cell cellc,
               su_P := ra_type0_P E (cl_nof_prb (cc_cell cellc)),
               su_max_mcs_dl := 28, su_max_mcs_ul := 28\<rparr>"
  let ?v = "case cfg of None \<Rightarrow> ?r | Some c \<Rightarrow> ?r\<lparr>su_cfg := c\<rparr>"
  have v: "su_rnti ?v = rnti" by (simp split: option.split)
  obtain w where w: "foldM ?g [0..<3] (fold ?f [0..<SCHED_MAX_HARQ_PROC E] ?v) = Some w"
    and u': "u' = fold (\<lambda>i u. set_bearer_cfg E (of_nat i) (uc_bearers (su_cfg u) i) u) [0..<MAX_LC E] w"
    using assms unfolding set_cfg_def Let_def by (auto simp only: bind_eq_Some_conv option.inject)
  have "su_rnti x' = su_rnti x" if "?g c x = Some x'" for c x x'
    using that by (rule foldM_keeps_rnti) (auto simp: bind_eq_Some_conv)
  then have "su_rnti w = su_rnti (fold ?f [0..<SCHED_MAX_HARQ_PROC E] ?v)"
    by (rule foldM_keeps_rnti[OF w])
  then show ?thesis unfolding u' using v by (simp add: fold_keeps_rnti set_bearer_cfg_def upd_lch_def)
qed

lemma sched_ue_cfg_SomeD:
  assumes "sched_ue_cfg E rnti c s = Some (r, s')"
  obtains u where "r = 0" "s' = s\<lparr>sc_ue_db := omap_set rnti u (sc_ue_db s)\<rparr>" "su_rnti u = rnti"
proof -
  obtain v where v: "set_cfg E rnti c (sc_cfg s) (sc_regs s) (case omap_get (sc_ue_db s) rnti of None \<Rightarrow> sched_ue_new E | Some u \<Rightarrow> u) = Some v"
      "r = 0" "s' = s\<lparr>sc_ue_db := omap_set rnti (set_fixed_mcs (sa_pusch_mcs (sc_sched_cfg s)) (sa_pdsch_mcs (sc_sched_cfg s))
        (set_max_mcs (sa_pusch_max_mcs (sc_sched_cfg s)) (sa_pdsch_max_mcs (sc_sched_cfg s)) v)) (sc_ue_db s)\<rparr>"
    using assms by (auto simp: sched_ue_cfg_def Let_def bind_eq_Some_conv)
  show ?thesis
    by (rule that[OF v(2,3)]) (simp add: set_cfg_rnti[OF v(1)] set_fixed_mcs_def set_max_mcs_def)
qed

text \<open>Configuring a user that the MAC has keeps the invariant; so does removing one on both sides.\<close>

lemma inv_sched_cfg:
  assumes "mac_inv L m" and "mac_knows rnti m" and "sched_ue_cfg E rnti c (ma_scheduler m) = Some (r, s')"
  shows "r = 0 \<and> mac_inv L (m\<lparr>ma_scheduler := s'\<rparr>)"
proof -
  obtain u where "r = 0" "s' = (ma_scheduler m)\<lparr>sc_ue_db := omap_set rnti u (sc_ue_db (ma_scheduler m))\<rparr>" "su_rnti u = rnti"
    using sched_ue_cfg_SomeD[OF assms(3)] by blast
  then show ?thesis using assms(1,2)
    by (auto simp: mac_inv_def sched_knows_def mac_knows_def user_def om.look_put own_rnti_set)
qed

lemma own_rnti_del: "own_rnti db \<Longrightarrow> own_rnti (omap_del k db)"
  by (auto simp: own_rnti_def rids_def omap_del_def)

lemma inv_rem: "mac_inv L m \<Longrightarrow> mac_ue_rem rnti m = (r, m', cs) \<Longrightarrow> mac_inv L m'"
  by (auto simp: mac_ue_rem_def mac_inv_def sched_knows_def mac_knows_def user_def sched_ue_rem_def
      om.look_del own_rnti_del split: option.splits if_splits)

lemma inv_ue_cfg:
  assumes "mac_inv L m" and "mac_ue_cfg E rnti c m = Some (r, m', cs)"
  shows "mac_inv L m'"
proof -
  consider u where "user rnti m = Some u" | "m' = m"
    using assms(2) by (auto simp: mac_ue_cfg_def split: option.splits)
  then show ?thesis
  proof cases
    case 1
    let ?m = "if \<not> mu_is_phy_added u then put_user rnti (u\<lparr>mu_is_phy_added := True\<rparr>) m else m"
    have k: "keeps_users m ?m" using keeps_put[of rnti m] 1 by simp
    obtain q s where "sched_ue_cfg E rnti c (ma_scheduler ?m) = Some (q, s)" "m' = ?m\<lparr>ma_scheduler := s\<rparr>"
      using assms(2) 1 by (auto simp: mac_ue_cfg_def Let_def bind_eq_Some_conv split: if_splits)
    moreover have "mac_knows rnti ?m" using k 1 by (simp add: keeps_users_def mac_knows_def)
    ultimately show ?thesis using inv_sched_cfg[OF keeps_inv[OF assms(1) k]] by blast
  qed (use assms(1) in simp)
qed

lemma inv_rach:
  assumes "mac_inv L m" and "rach_detected E tti pre ta m = Some (r, m', cs)"
  shows "mac_inv L m'"
proof -
  obtain i where i: "rar_slot (ma_pending_rars m) 0 MAX_PENDING_RARS = Some i"
    using assms(2) by (auto simp: rach_detected_def bind_eq_Some_conv)
  show ?thesis
  proof (cases "i = MAX_PENDING_RARS")
    case True
    then show ?thesis using assms i by (simp add: rach_detected_def)
  next
    case False
    let ?rnti = "ma_last_rnti m"
    obtain u rars q s where u: "mac_ue_config E ?rnti (mac_ue_new E) = Some u"
        "wr (ma_pending_rars m) i \<lparr>pr_preamble_idx = pre, pr_ta_cmd = ta, pr_temp_crnti = ?rnti\<rparr> = Some rars"
        "sched_ue_cfg E ?rnti (Some rach_ue_cfg) (ma_scheduler m) = Some (q, s)"
      using assms(2) i False by (auto simp: rach_detected_def Let_def bind_eq_Some_conv put_user_def)
    obtain v where v: "q = 0" "s = (ma_scheduler m)\<lparr>sc_ue_db := omap_set ?rnti v (sc_ue_db (ma_scheduler m))\<rparr>" "su_rnti v = ?rnti"
      using sched_ue_cfg_SomeD[OF u(3)] by blast
    have m': "ma_ue_db m' = omap_set ?rnti u (ma_ue_db m)"
        "ma_scheduler m' = snd (dl_rach_info tti (of_nat i) ?rnti 7 s)"
      using assms(2) i False u v(1) by (simp_all add: rach_detected_def Let_def put_user_def) auto
    have "sc_ue_db (snd (dl_rach_info tti (of_nat i) ?rnti 7 s)) = sc_ue_db s"
      by (simp add: dl_rach_info_def split: option.split)
    then have "sc_ue_db (ma_scheduler m') = omap_set ?rnti v (sc_ue_db (ma_scheduler m))"
      using m' v(2) by simp
    then show ?thesis using assms(1) m'(1) v(3)
      by (simp add: mac_inv_def sched_knows_def mac_knows_def user_def om.look_put own_rnti_set)
  qed
qed

lemma keeps_put_sched:
  "user k m \<noteq> None \<Longrightarrow> sched_keeps (ma_scheduler m) s \<Longrightarrow> keeps_users m (put_user k u m\<lparr>ma_scheduler := s\<rparr>)"
  by (rule keeps_trans[OF keeps_put keeps_sched]) (simp_all add: put_user_def)

lemma snd_eqI: "(a, b) = p \<Longrightarrow> b = snd p"
  by (metis snd_conv)

lemma keeps_user_calls:
  "mac_bearer_ue_cfg E rnti lc b m = Some (r, m') \<Longrightarrow> keeps_users m m'"
  "mac_bearer_ue_rem E rnti lc m = (r, m') \<Longrightarrow> keeps_users m m'"
  "mac_rl_failure rnti m = (m', cs) \<Longrightarrow> keeps_users m m'"
  "keeps_users m (mac_rl_ok rnti m)"
  "mac_ack_info E tti rnti tb a m = Some (r, m', cs) \<Longrightarrow> keeps_users m m'"
  "mac_crc_info E tti rnti nb c m = (r, m', cs) \<Longrightarrow> keeps_users m m'"
  using indications_keep
  by (auto simp: mac_bearer_ue_cfg_def mac_bearer_ue_rem_def mac_rl_failure_def mac_rl_ok_def mac_ack_info_def
      mac_crc_info_def Let_def split_beta bind_eq_Some_conv split: option.splits if_splits
      intro!: keeps_put_sched keeps_put keeps_sched)

lemma keeps_phy_calls:
  "mac_set_dl_ant_info rnti am m = (r, m') \<Longrightarrow> keeps_users m m'"
  "mac_ri_info L tti rnti x m = (r, m') \<Longrightarrow> keeps_users m m'"
  "mac_pmi_info L tti rnti x m = (r, m') \<Longrightarrow> keeps_users m m'"
  "mac_cqi_info L tti rnti x m = (r, m') \<Longrightarrow> keeps_users m m'"
  "mac_snr_info L tti rnti y m = (r, m') \<Longrightarrow> keeps_users m m'"
  "mac_sr_detected tti rnti m = (r, m') \<Longrightarrow> keeps_users m m'"
  "keeps_users m (mac_phy_config_enabled rnti en m)"
  using indications_keep
  by (auto simp: mac_set_dl_ant_info_def mac_ri_info_def mac_pmi_info_def mac_cqi_info_def mac_snr_info_def
      mac_sr_detected_def mac_phy_config_enabled_def split: option.splits
      intro!: keeps_put_sched keeps_sched)

lemma keeps_rlc:
  assumes "mac_rlc_buffer_state E L rnti lc tx retx m = Some (r, m')"
  shows "keeps_users m m'"
proof -
  have "m' = m \<or> m' = m\<lparr>ma_scheduler := snd (dl_rlc_buffer_state E rnti lc tx retx (ma_scheduler m))\<rparr> \<or>
      (ma_ue_db m' = ma_ue_db m \<and> ma_scheduler m' = ma_scheduler m)"
    using assms by (auto simp: mac_rlc_buffer_state_def Let_def split_beta bind_eq_Some_conv split: option.splits if_splits)
  then show ?thesis using indications_keep(1) by (auto intro: keeps_sched keeps_fields)
qed

lemma cell_cfg_db: "cell_cfg E c s = Some (r, s') \<Longrightarrow> sc_ue_db s' = sc_ue_db s"
  by (auto simp: cell_cfg_def Let_def bind_eq_Some_conv split: if_splits)

lemma keeps_cell:
  assumes "mac_cell_cfg E c m = Some (r, m')"
  shows "keeps_users m m'"
proof -
  obtain s where "cell_cfg E c (ma_scheduler m) = Some (r, s)" "m' = m\<lparr>ma_cell_config := c, ma_scheduler := s\<rparr>"
    using assms by (auto simp: mac_cell_cfg_def bind_eq_Some_conv)
  then show ?thesis
    by (auto dest!: cell_cfg_db simp: keeps_users_def mac_knows_def sched_knows_def user_def)
qed

lemma metrics_keep_keys:
  assumes "foldM (\<lambda>(rnti, u) (ms, db).
         if rnti \<noteq> SRSLTE_MRNTI L then
           if length ms < ENB_METRICS_MAX_USERS then
             let (x, u) = metrics_read E s u in Some (ms @ [x], omap_set rnti u db)
           else None
         else Some (ms, db)) us (ms0, db0) = Some (ms', db')"
    and "\<forall>k \<in> fst ` set us. omap_get db0 k \<noteq> None"
  shows "(omap_get db' r = None) = (omap_get db0 r = None)"
proof -
  have "(\<lambda>(ms, db). \<forall>r. (omap_get db r = None) = (omap_get db0 r = None)) (ms', db')"
    by (rule foldM_invariant[OF assms(1)])
      (use assms(2) in \<open>auto simp: Let_def split_beta om.look_put split: if_splits\<close>, force)
  then show ?thesis by simp
qed

lemma keeps_metrics:
  assumes "mac_get_metrics E L m = Some (ms, m')"
  shows "keeps_users m m'"
proof -
  obtain db where f: "foldM (\<lambda>(rnti, u) (ms, db).
         if rnti \<noteq> SRSLTE_MRNTI L then
           if length ms < ENB_METRICS_MAX_USERS then
             let (x, u) = metrics_read E (ma_scheduler m) u in Some (ms @ [x], omap_set rnti u db)
           else None
         else Some (ms, db)) (ma_ue_db m) ([], ma_ue_db m) = Some (ms, db)"
    and m': "m' = m\<lparr>ma_ue_db := db\<rparr>"
    using assms by (auto simp: mac_get_metrics_def bind_eq_Some_conv)
  have "\<forall>k \<in> fst ` set (ma_ue_db m). omap_get (ma_ue_db m) k \<noteq> None" by (simp add: map_of_eq_None_iff)
  from metrics_keep_keys[OF f this] show ?thesis
    by (simp add: m' keeps_users_def mac_knows_def sched_knows_def user_def)
qed

text \<open>The three rounds.\<close>

lemma bc_copy_frame:
  "\<exists>hs m'. fold (bc_grant_copy L N w) bs (gs, m) = (gs @ hs, m') \<and> length hs = length bs \<and>
     ma_ue_db m' = ma_ue_db m \<and> ma_scheduler m' = ma_scheduler m"
proof (induction bs arbitrary: gs m)
  case Nil
  then show ?case by simp
next
  case (Cons b bs)
  obtain g m1 where b: "bc_grant_copy L N w b (gs, m) = (gs @ [g], m1)"
      "ma_ue_db m1 = ma_ue_db m" "ma_scheduler m1 = ma_scheduler m"
    by (cases "bc_type b = BCCH") (auto simp: bc_grant_copy_def Let_def)
  obtain hs m' where "fold (bc_grant_copy L N w) bs (gs @ [g], m1) = ((gs @ [g]) @ hs, m')" "length hs = length bs"
      "ma_ue_db m' = ma_ue_db m1" "ma_scheduler m' = ma_scheduler m1"
    using Cons.IH[of "gs @ [g]" m1] by blast
  then show ?case using b by (intro exI[of _ "g # hs"] exI[of _ m']) simp
qed

lemma data_grant_count:
  assumes "foldM (data_grant_copy E L N m) ds (gs, w) = Some (gs', w')" and "\<forall>d \<in> set ds. mac_knows (ds_rnti d) m"
  shows "map mg_rnti gs' = map mg_rnti gs @ map ds_rnti ds"
  using assms
proof (induction ds arbitrary: gs w)
  case Nil
  then show ?case by simp
next
  case (Cons d ds)
  obtain u where u: "user (ds_rnti d) m = Some u" using Cons.prems(2) by (auto simp: mac_knows_def)
  have rn: "mg_rnti (fst st') = mg_rnti (fst st)" if "tb_payload E L N u d tb st = Some st'" for tb st st'
    using that by (cases st) (auto simp: tb_payload_def Let_def bind_eq_Some_conv split: if_splits)
  obtain gs1 w1 where s: "data_grant_copy E L N m d (gs, w) = Some (gs1, w1)"
      "foldM (data_grant_copy E L N m) ds (gs1, w1) = Some (gs', w')"
    using Cons.prems(1) by (auto simp: bind_eq_Some_conv)
  let ?g = "\<lparr>mg_rnti = ds_rnti d, mg_dci_format = ds_dci_format d, mg_grant = ds_dci d,
      mg_location = ds_dci_location d, mg_softbuffers = (\<lambda>_. None), mg_data = (\<lambda>_. Null)\<rparr>"
  obtain g where g: "foldM (tb_payload E L N u d) [0..<SRSLTE_MAX_TB E] (?g, w) = Some (g, w1)" "gs1 = gs @ [g]"
    using s(1) u by (auto simp: data_grant_copy_def bind_eq_Some_conv)
  have "mg_rnti (fst (g, w1)) = ds_rnti d"
    by (rule foldM_invariant[OF g(1)]) (use rn in auto)
  then show ?case using Cons.IH[OF s(2)] Cons.prems(2) g(2) by simp
qed

lemma rar_grant_count:
  assumes "foldM (rar_grant_copy N rar) is (gs, rars, w) = Some (gs', rars', w')"
  shows "\<exists>hs. gs' = gs @ hs \<and> length hs = length is"
  using assms
proof (induction "is" arbitrary: gs rars w)
  case Nil
  then show ?case by simp
next
  case (Cons i "is")
  obtain gs1 r1 w1 where s: "rar_grant_copy N rar i (gs, rars, w) = Some (gs1, r1, w1)"
      "foldM (rar_grant_copy N rar) is (gs1, r1, w1) = Some (gs', rars', w')"
    using Cons.prems by (auto simp: bind_eq_Some_conv)
  have "\<exists>g. gs1 = gs @ [g]" using s(1) by (auto simp: rar_grant_copy_def Let_def bind_eq_Some_conv)
  then show ?case using Cons.IH[OF s(2)] by auto
qed

lemma copy_dl_grants_spec:
  assumes "copy_dl_grants E L N res m w = Some (gs, m', w')"
  shows "ma_ue_db m' = ma_ue_db m \<and> ma_scheduler m' = ma_scheduler m \<and>
    (\<exists>gs1 hs w1. foldM (data_grant_copy E L N m) (take (dr_nof_data_elems res) (dr_data res)) ([], w) = Some (gs1, w1) \<and>
       gs = gs1 @ hs \<and> length hs = dr_nof_rar_elems res + length (take (dr_nof_bc_elems res) (dr_bc res)))"
proof -
  obtain gs1 w1 where a: "foldM (data_grant_copy E L N m) (take (dr_nof_data_elems res) (dr_data res)) ([], w) = Some (gs1, w1)"
    using assms by (auto simp: copy_dl_grants_def bind_eq_Some_conv)
  obtain gs2 rars w2 where b: "foldM (rar_grant_copy N (dr_rar res)) [0..<dr_nof_rar_elems res] (gs1, ma_pending_rars m, w1) = Some (gs2, rars, w2)"
    using assms a by (auto simp: copy_dl_grants_def bind_eq_Some_conv)
  let ?bs = "take (dr_nof_bc_elems res) (dr_bc res)" and ?m = "m\<lparr>ma_pending_rars := rars\<rparr>"
  have f: "fold (bc_grant_copy L N w2) ?bs (gs2, ?m) = (gs, m')"
    using assms a b by (auto simp: copy_dl_grants_def split: prod.splits)
  obtain hs where hs: "gs2 = gs1 @ hs" "length hs = dr_nof_rar_elems res"
    using rar_grant_count[OF b] by auto
  obtain ks where ks: "gs = gs2 @ ks" "length ks = length ?bs"
      "ma_ue_db m' = ma_ue_db m" "ma_scheduler m' = ma_scheduler m"
    using bc_copy_frame[of L N w2 ?bs gs2 ?m] f by auto
  have "gs = gs1 @ (hs @ ks)" using ks(1) hs(1) by simp
  moreover have "length (hs @ ks) = dr_nof_rar_elems res + length ?bs" using ks(2) hs(2) by simp
  ultimately show ?thesis using a ks(3,4) by blast
qed

lemma get_dl_sched_cases:
  assumes "get_dl_sched E L N paging tti m w = Some (r, g, m', w')"
  obtains (idle) "m' = m" "g = None"
  | (failed) c res s where "dl_sched E paging tti (dl_res_zero E) (ma_scheduler m) = Some (c, res, s)"
      "m' = m\<lparr>ma_scheduler := s\<rparr>" "g = None"
  | (run) c res s gs where
      "dl_sched E paging tti (dl_res_zero E) (ma_scheduler m) = Some (c, res, s)"
      "copy_dl_grants E L N res (m\<lparr>ma_scheduler := s\<rparr>) w = Some (gs, m', w')"
      "g = Some (gs, dr_cfi res)" "r = 0"
proof (cases "ma_started m")
  case False
  then show ?thesis using assms by (intro idle) (simp_all add: get_dl_sched_def)
next
  case True
  obtain c res s where d: "dl_sched E paging tti (dl_res_zero E) (ma_scheduler m) = Some (c, res, s)"
    using assms True by (auto simp: get_dl_sched_def bind_eq_Some_conv)
  show ?thesis
  proof (cases "c < 0")
    case True
    then show ?thesis using assms \<open>ma_started m\<close> d by (intro failed) (auto simp: get_dl_sched_def)
  next
    case False
    then obtain gs where "copy_dl_grants E L N res (m\<lparr>ma_scheduler := s\<rparr>) w = Some (gs, m', w')"
        "g = Some (gs, dr_cfi res)" "r = 0"
      using assms True d by (auto simp: get_dl_sched_def bind_eq_Some_conv)
    then show ?thesis using run[OF d] by simp
  qed
qed

lemma dl_sched_keeps:
  "dl_sched E paging tti (dl_res_zero E) s = Some (c, res, s') \<Longrightarrow> sched_keeps s s'"
  by (auto dest!: dl_sched_keys intro: sched_keeps_rids simp: dl_res_zero_def)

lemma keeps_dl:
  assumes "get_dl_sched E L N paging tti m w = Some (r, g, m', w')"
  shows "keeps_users m m'"
  using assms
proof (cases rule: get_dl_sched_cases)
  case idle
  then show ?thesis by simp
next
  case (failed c res s)
  then show ?thesis by (simp add: keeps_sched dl_sched_keeps)
next
  case (run c res s gs)
  have "keeps_users m (m\<lparr>ma_scheduler := s\<rparr>)" by (rule keeps_sched[OF dl_sched_keeps[OF run(1)]])
  moreover have "keeps_users (m\<lparr>ma_scheduler := s\<rparr>) m'"
    using copy_dl_grants_spec[OF run(2)] by (intro keeps_fields) simp_all
  ultimately show ?thesis by (rule keeps_trans)
qed

lemma ul_grant_keeps:
  assumes "ul_grant_copy E q tti pusch i (m, gs, cs) = Some (m', gs', cs')"
  shows "keeps_users m m' \<and> ma_scheduler m' = ma_scheduler m"
  using assms
  by (auto simp: ul_grant_copy_def Let_def split_beta bind_eq_Some_conv put_user_def[symmetric] split: option.splits if_splits
      intro!: keeps_put) (auto simp: put_user_def)

lemma keeps_ul:
  assumes "get_ul_sched E q tti m = Some (r, g, m', cs)"
  shows "keeps_users m m'"
proof (cases "ma_started m")
  case False
  then show ?thesis using assms by (simp add: get_ul_sched_def)
next
  case True
  obtain c res s where d: "ul_sched E tti (ul_res_zero E) (ma_scheduler m) = Some (c, res, s)"
    using assms True by (auto simp: get_ul_sched_def bind_eq_Some_conv)
  have k: "keeps_users m (m\<lparr>ma_scheduler := s\<rparr>)"
    using ul_sched_keys[OF d] by (auto intro!: keeps_sched sched_keeps_rids simp: ul_res_zero_def)
  show ?thesis
  proof (cases "c < 0")
    case True
    then show ?thesis using assms \<open>ma_started m\<close> d k by (auto simp: get_ul_sched_def)
  next
    case False
    obtain gs where f: "foldM (ul_grant_copy E q tti (ur_pusch res)) [0..<ur_nof_dci_elems res] (m\<lparr>ma_scheduler := s\<rparr>, [], []) = Some (m', gs, cs)"
      using assms True d False by (auto simp: get_ul_sched_def Let_def bind_eq_Some_conv)
    have "keeps_users m (fst (m', gs, cs))"
      by (rule foldM_invariant[OF f]) (use k in \<open>auto dest!: ul_grant_keeps intro: keeps_trans\<close>)
    then show ?thesis by simp
  qed
qed

lemma build_mch_frame: "build_mch_sched tbs m = Some m1 \<Longrightarrow> \<exists>x. m1 = m\<lparr>ma_mch := x\<rparr>"
  by (auto simp: build_mch_sched_def Let_def bind_eq_Some_conv split: if_splits)

lemma mch_signalling_frame:
  assumes "mch_signalling L N tbs tbs_data m w = Some (rn, d, m', w')"
  shows "\<exists>x. m' = m\<lparr>ma_mch := x\<rparr>"
proof -
  obtain m1 x where "build_mch_sched (of_i32 tbs_data) m = Some m1" "m' = m1\<lparr>ma_mch := x\<rparr>"
    using assms by (auto simp: mch_signalling_def Let_def bind_eq_Some_conv)
  then show ?thesis by (auto dest!: build_mch_frame)
qed

lemma mch_traffic_frame:
  assumes "mch_traffic L N tbs_data m w = Some (rn, d, m', w')"
  shows "\<exists>x. m' = m\<lparr>ma_mch := x\<rparr>"
proof -
  obtain lcid idx where "(case mch_current (ma_mch m) of None \<Rightarrow> (1, 0)
      | Some i \<Rightarrow> (mt_lcid (mp_mtch_sched (ma_mch m) ! i), i)) = (lcid, idx)" by fastforce
  then show ?thesis using assms by (auto simp: mch_traffic_def Let_def bind_eq_Some_conv)
qed

lemma keeps_mch:
  assumes "get_mch_sched L N is_mcch m w = Some (rn, d, m', w')"
  shows "keeps_users m m'"
proof -
  obtain x where "m' = m\<lparr>ma_mch := x\<rparr>"
    using assms by (auto simp: get_mch_sched_def Let_def split: if_splits dest!: mch_signalling_frame mch_traffic_frame)
  then show ?thesis by (intro keeps_fields) simp_all
qed

lemma inv_mcch:
  assumes "mac_inv L m" and "write_mcch E L pack bits mcs msg m = Some (m', cs)"
  shows "mac_inv L m'"
proof -
  obtain u where "ma_ue_db m' = omap_set (SRSLTE_MRNTI L) u (ma_ue_db m)" "ma_scheduler m' = ma_scheduler m"
    using assms(2) by (auto simp: write_mcch_def Let_def bind_eq_Some_conv put_user_def split: if_splits)
  then show ?thesis using assms(1)
    by (simp add: mac_inv_def mac_knows_def sched_knows_def user_def om.look_put)
qed

lemma bsr_group_keeps: "sched_keeps s (bsr_group E rnti sz grp s)"
proof (induction grp arbitrary: s)
  case Nil
  then show ?case by (simp add: bsr_group_def)
next
  case (Cons l grp)
  have "sched_keeps s (snd (ul_bsr E rnti l sz True s))" by (rule indications_keep)
  moreover have "bsr_group E rnti sz (l # grp) s = bsr_group E rnti sz grp (snd (ul_bsr E rnti l sz True s))"
    by (simp add: bsr_group_def)
  ultimately show ?case using Cons.IH sched_keeps_trans by metis
qed

lemma long_bsr_keeps:
  assumes "foldM (\<lambda>idx s. do { grp \<leftarrow> rd gs idx; sz \<leftarrow> rd szs idx; Some (bsr_group E rnti sz grp s) }) is s = Some s'"
  shows "sched_keeps s s'"
  by (rule foldM_invariant[OF assms, where I = "sched_keeps s"])
    (auto simp: bind_eq_Some_conv intro: sched_keeps_trans bsr_group_keeps)

lemma process_ce_keeps:
  assumes "process_ce E L sh (u, s, cs) = Some (b, u', s', cs')"
  shows "sched_keeps s s'"
proof -
  have ph: "sched_keeps s (snd (sched_ul_phr r p s))" for r p by (rule indications_keep)
  show ?thesis
    using assms by (auto simp: process_ce_def Let_def bind_eq_Some_conv split: ce_type.splits if_splits
        intro: ph bsr_group_keeps dest: long_bsr_keeps)
qed

lemma process_pdu_keeps:
  assumes "process_pdu E L p bytes u s = Some (u', s', cs)"
  shows "sched_keeps s s'"
proof -
  obtain v c d l where f: "fold (\<lambda>sh a. if sh_is_sdu sh then process_sdu L sh a else a) (parse_packet L bytes)
      (u, [Pdu_Dealloc p], -99, 0) = (v, c, d, l)" by (rule prod_cases4)
  obtain b w t e where g: "process_ces E L (parse_packet L bytes) (v, s, c) = Some (b, w, t, e)"
      and s': "s' = (if \<not> b \<and> 2 < l then snd (ul_bsr E (mu_rnti w) l 256 False t) else t)"
    using assms unfolding process_pdu_def Let_def f
    by (cases "process_ces E L (parse_packet L bytes) (v, s, c)") auto
  have "(\<lambda>(b, u, t, c). sched_keeps s t) (b, w, t, e)"
    by (rule foldM_invariant[OF g[unfolded process_ces_def]])
      (auto simp: bind_eq_Some_conv split: if_splits dest!: process_ce_keeps intro: sched_keeps_trans)
  then show ?thesis using s' indications_keep(13) by (auto intro: sched_keeps_trans)
qed

lemma mac_step_inv: "mac_step E L N m m' \<Longrightarrow> mac_inv L m \<Longrightarrow> mac_inv L m'"
proof (induction rule: mac_step.induct)
  case (rach tti pre ta m r m' cs)
  then show ?case by (rule inv_rach[rotated])
next
  case (cfg rnti c m r m' cs)
  then show ?case by (rule inv_ue_cfg[rotated])
next
  case (rem rnti m r m' cs)
  then show ?case by (rule inv_rem[rotated])
next
  case (mcch pack bits mcs msg m m' cs)
  then show ?case by (rule inv_mcch[rotated])
next
  case (pdu k m u p bytes u' s' cs)
  then show ?case by (auto intro!: keeps_inv[of L m] keeps_put_sched process_pdu_keeps)
qed (auto elim!: keeps_inv intro: keeps_user_calls keeps_phy_calls keeps_rlc keeps_cell keeps_metrics
      keeps_dl keeps_ul keeps_mch)

lemma mac_init_inv: "ma_ue_db m = [] \<Longrightarrow> mac_init args cell ptrs m = (True, m') \<Longrightarrow> mac_inv L m'"
  by (auto simp: mac_init_def mac_inv_def sched_knows_def mac_knows_def user_def mac_reset_def sched_reset_def
      own_rnti_def rids_def Let_def split: option.splits if_splits prod.splits)

lemma mac_reach_inv: "mac_reach E L N m \<Longrightarrow> mac_inv L m"
  by (induction rule: mac_reach.induct) (auto intro: mac_init_inv mac_step_inv)

end
