(* ===== verification/Mac_Props.thy ===== *)
theory Mac_Props
  imports Mac_Users
begin

text \<open>
  The properties of the MAC: agreement of the two user maps, no grant lost between scheduler and
  PHY, random access, radio link failure, shutdown, and the multicast schedule.
\<close>

section \<open>Users and grants\<close>

text \<open>C6: in every reachable state of the MAC its own map and the map of its scheduler have the same
  users, the multicast user aside, which only the MAC needs, and each entry of the scheduler holds
  the RNTI it is stored under.\<close>

theorem mac_users_agree:
  assumes "mac_reach E L N m"
  shows "(\<forall>r. r \<noteq> SRSLTE_MRNTI L \<longrightarrow> (user r m \<noteq> None) = sched_ue_exists r (ma_scheduler m)) \<and>
    (\<forall>r. sched_ue_exists r (ma_scheduler m) \<longrightarrow> user r m \<noteq> None) \<and>
    (\<forall>r u. omap_get (sc_ue_db (ma_scheduler m)) r = Some u \<longrightarrow> su_rnti u = r)"
  using mac_reach_inv[OF assms]
  by (auto simp: mac_inv_def sched_knows_def mac_knows_def sched_ue_exists_def dest: own_rnti_get)

definition demo_packer :: "unit packer" where
  "demo_packer = \<lparr>pk_init_tx = (\<lambda>_ _ w. w), pk_get_sdu_space = (\<lambda>_. 100), pk_new_subh = (\<lambda>w. (True, w)),
     pk_set_sdu = (\<lambda>_ len _ w. (len, w)), pk_del_subh = (\<lambda>w. w), pk_set_con_res_id = (\<lambda>_ w. (True, w)),
     pk_write_packet = (\<lambda>_. Some []), rlc_read_pdu = (\<lambda>_ _ n w. ((uint n, []), w))\<rparr>"

definition demo_env :: "unit mac_env" where
  "demo_env = \<lparr>en_packer = demo_packer,
     en_mch_packer = \<lparr>mk_init_tx = (\<lambda>_ w. w), mk_new_subh = (\<lambda>w. w), mk_set_next_mch_sched_info = (\<lambda>_ _ w. w),
       mk_set_sdu = (\<lambda>_ _ _ w. w), mk_write_packet = (\<lambda>_. Some [])\<rparr>,
     en_rar_init_tx = (\<lambda>_ _ w. w), en_rar_new_subh = (\<lambda>w. (True, w)), en_rar_set_rapid = (\<lambda>_ w. w),
     en_rar_set_ta_cmd = (\<lambda>_ w. w), en_rar_set_temp_crnti = (\<lambda>_ w. w), en_rar_set_sched_grant = (\<lambda>_ w. w),
     en_rar_write_packet = (\<lambda>_. []), en_read_pdu_bcch_dlsch = (\<lambda>i _. [ucast i]), en_read_pdu_pcch = (\<lambda>_. [])\<rparr>"

definition demo_mac :: mac where
  "demo_mac = snd (mac_init (Some (sched_args_zero, 3)) (Some cell_zero) True mac_new)"

lemma demo_mac_init: "mac_init (Some (sched_args_zero, 3)) (Some cell_zero) True mac_new = (True, demo_mac)"
  by (simp add: demo_mac_def mac_init_def Let_def)

lemma demo_mac_reach: "mac_reach E L N demo_mac"
  by (rule mac_reach.init[OF _ demo_mac_init]) (simp add: mac_new_def)

lemma demo_mac_fields:
  "ma_pending_rars demo_mac = replicate MAX_PENDING_RARS pending_rar_zero" "ma_last_rnti demo_mac = 70"
  "ma_ue_db demo_mac = []" "ma_started demo_mac" "ma_link_failure_nof_err demo_mac = 3"
  "sc_ue_db (ma_scheduler demo_mac) = []" "sc_regs (ma_scheduler demo_mac) = None" "ma_cell demo_mac = cell_zero"
  by (simp_all add: demo_mac_def mac_init_def Let_def mac_new_def mac_reset_def sched_reset_def
      set_sched_cfg_def set_metric_def sched_init_def sched_new_def)

section \<open>Random access\<close>

lemma rar_slot_spec:
  assumes "length rars = MAX_PENDING_RARS" and "ra_id < MAX_PENDING_RARS" and "MAX_PENDING_RARS \<le> ra_id + left"
  shows "\<exists>i. rar_slot rars ra_id left = Some i \<and> ra_id \<le> i \<and> i < MAX_PENDING_RARS \<and>
     (\<forall>j. ra_id \<le> j \<and> j < i \<longrightarrow> pr_temp_crnti (rars ! j) \<noteq> 0) \<and>
     (pr_temp_crnti (rars ! i) = 0 \<or> i = MAX_PENDING_RARS - 1)"
  using assms(2,3)
proof (induction left arbitrary: ra_id)
  case 0
  then show ?case by simp
next
  case (Suc left)
  show ?case
  proof (cases "pr_temp_crnti (rars ! ra_id) \<noteq> 0 \<and> ra_id < MAX_PENDING_RARS - 1")
    case True
    then obtain i where i: "rar_slot rars (ra_id + 1) left = Some i" "ra_id + 1 \<le> i" "i < MAX_PENDING_RARS"
        "\<forall>j. ra_id + 1 \<le> j \<and> j < i \<longrightarrow> pr_temp_crnti (rars ! j) \<noteq> 0"
        "pr_temp_crnti (rars ! i) = 0 \<or> i = MAX_PENDING_RARS - 1"
      using Suc.IH[of "ra_id + 1"] Suc.prems by (auto simp: less_diff_conv)
    have "\<forall>j. ra_id \<le> j \<and> j < i \<longrightarrow> pr_temp_crnti (rars ! j) \<noteq> 0"
    proof (intro allI impI)
      fix j assume "ra_id \<le> j \<and> j < i"
      then show "pr_temp_crnti (rars ! j) \<noteq> 0" using i(4) True by (cases "j = ra_id") auto
    qed
    then show ?thesis using i True Suc.prems assms(1) by auto
  next
    case False
    then show ?thesis using Suc.prems assms(1) by (auto simp: less_Suc_eq)
  qed
qed

lemma sched_ue_cfg_new:
  assumes "few_candidates E (sc_regs s) rnti" and "MAX_LC E < 2 ^ 32" and "omap_get (sc_ue_db s) rnti = None"
  shows "\<exists>u. sched_ue_cfg E rnti (Some c) s = Some (0, s\<lparr>sc_ue_db := omap_set rnti u (sc_ue_db s)\<rparr>)"
proof -
  have "tables_ok (sched_ue_new E)"
    using raw_tables_ok by (simp add: sched_ue_new_def reset_shape[OF assms(2)] tables_ok_def)
  then obtain u where "set_cfg E rnti (Some c) (sc_cfg s) (sc_regs s) (sched_ue_new E) = Some u"
    using set_cfg_configured[OF assms(1) _ assms(2)] by blast
  then have "sched_ue_cfg E rnti (Some c) s = Some (0, s\<lparr>sc_ue_db := omap_set rnti
      (set_fixed_mcs (sa_pusch_mcs (sc_sched_cfg s)) (sa_pdsch_mcs (sc_sched_cfg s))
        (set_max_mcs (sa_pusch_max_mcs (sc_sched_cfg s)) (sa_pdsch_max_mcs (sc_sched_cfg s)) u)) (sc_ue_db s)\<rparr>)"
    using assms(3) by (simp add: sched_ue_cfg_def Let_def)
  then show ?thesis by blast
qed

lemma next_rnti:
  fixes r :: u16
  assumes "70 \<le> r" and "r < 60000"
  shows "let next = (if 60000 \<le> r + 1 then 70 else r + 1) in 70 \<le> next \<and> next < 60000 \<and> next \<noteq> r"
proof -
  have r: "70 \<le> unat r" "unat r < 60000" using assms by (simp_all add: word_le_nat_alt word_less_nat_alt)
  have s: "unat (r + 1) = Suc (unat r)" using r by (simp add: unat_word_ariths)
  show ?thesis
  proof (cases "60000 \<le> r + 1")
    case True
    then have "unat r = 59999" using r s by (simp add: word_le_nat_alt)
    then show ?thesis using True by (auto simp: word_unat_eq_iff)
  next
    case False
    then show ?thesis using r s by (auto simp: word_le_nat_alt word_less_nat_alt)
  qed
qed

lemma mac_ue_config_total: "\<exists>u. mac_ue_config E rnti (mac_ue_new E) = Some u \<and> mu_rnti u = rnti"
  by (simp add: mac_ue_config_def mac_ue_new_def set_lcg_eq)

text \<open>The table of answers the scheduler still has to send: the first free entry takes the new one, and
  when none is free the table stays (the error of \<open>dl_rach_info\<close> is not looked at).\<close>

definition first_free_answer :: "(nat \<Rightarrow> sched_rar) \<Rightarrow> nat option" where
  "first_free_answer rars = find (\<lambda>i. ra_buf_rar (rars i) = 0) [0..<SCHED_MAX_PENDING_RAR]"

definition pending_answer ::
  "(nat \<Rightarrow> sched_rar) \<Rightarrow> u32 \<Rightarrow> nat \<Rightarrow> u16 \<Rightarrow> (nat \<Rightarrow> sched_rar) \<Rightarrow> bool" where
  "pending_answer old tti ra_id rnti new \<longleftrightarrow>
     new = (case first_free_answer old of
        None \<Rightarrow> old
      | Some k \<Rightarrow> old(k := \<lparr>ra_buf_rar = 7, ra_rnti = rnti, ra_ra_id = of_nat ra_id, ra_rar_tti = tti\<rparr>))"

lemma i32_7: "i32 7 = 7"
  by simp



theorem mac_users_agree_witness:
  "\<exists>m. mac_reach demo_lib demo_mac_lib demo_env m \<and> user 70 m \<noteq> None \<and> sched_ue_exists 70 (ma_scheduler m)"
proof -
  have "few_candidates demo_lib (sc_regs (ma_scheduler demo_mac)) 70" by (simp add: demo_mac_fields demo_few_candidates)
  moreover have "omap_get (sc_ue_db (ma_scheduler demo_mac)) 70 = None" by (simp add: demo_mac_fields)
  ultimately obtain v where v: "sched_ue_cfg demo_lib 70 (Some rach_ue_cfg) (ma_scheduler demo_mac) =
      Some (0, (ma_scheduler demo_mac)\<lparr>sc_ue_db := omap_set 70 v (sc_ue_db (ma_scheduler demo_mac))\<rparr>)"
    using sched_ue_cfg_new[of demo_lib] by (fastforce simp: demo_lib_def)
  obtain u where u: "mac_ue_config demo_lib 70 (mac_ue_new demo_lib) = Some u" using mac_ue_config_total by blast
  have "rar_slot (ma_pending_rars demo_mac) 0 MAX_PENDING_RARS = Some 0"
    by (simp add: demo_mac_fields MAX_PENDING_RARS_def numeral_eq_Suc pending_rar_zero_def)
  then obtain m where m: "rach_detected demo_lib 5 3 0 demo_mac = Some (0, m, [Rrc_Add_User 70])"
      "ma_ue_db m = omap_set 70 u []"
    using u v by (simp add: rach_detected_def Let_def put_user_def demo_mac_fields MAX_PENDING_RARS_def)
  have r: "mac_reach demo_lib demo_mac_lib demo_env m"
    by (rule mac_reach.step[OF demo_mac_reach mac_step.rach[OF m(1)]])
  have "user 70 m \<noteq> None" using m(2) by (simp add: user_def)
  then show ?thesis using mac_users_agree[OF r] r by (auto simp: demo_mac_lib_def)
qed

section \<open>Grants on their way to the PHY\<close>

lemma known_entries_users:
  assumes "mac_inv L m" and "known_entries (rids (sc_ue_db (ma_scheduler m))) n (map f xs)"
    and "keeps_users m m'"
  shows "length (take n xs) = n \<and> (\<forall>x \<in> set (take n xs). mac_knows (f x) m')"
proof (intro conjI ballI)
  show "length (take n xs) = n" using assms(2) by (simp add: known_entries_def)
  fix x assume "x \<in> set (take n xs)"
  then obtain i where i: "i < n" "i < length xs" "x = xs ! i" by (auto simp: in_set_conv_nth)
  then have "f x \<in> snd ` set (rids (sc_ue_db (ma_scheduler m)))"
    using assms(2) by (auto simp: known_entries_def)
  then have "f x \<in> fst ` set (rids (sc_ue_db (ma_scheduler m)))"
    using assms(1) by (force simp: mac_inv_def own_rnti_def)
  then show "mac_knows (f x) m'"
    using assms(1,3) by (auto simp: mac_inv_def sched_knows_def rids_known keeps_users_def)
qed

text \<open>What a grant announces on the control channel, and the same of each kind of scheduling result.\<close>

definition announced :: "mac_dl_grant \<Rightarrow> u16 \<times> dci_format \<times> dl_dci \<times> dci_location" where
  "announced g = (mg_rnti g, mg_dci_format g, mg_grant g, mg_location g)"

definition data_announced :: "dl_sched_data \<Rightarrow> u16 \<times> dci_format \<times> dl_dci \<times> dci_location" where
  "data_announced d = (ds_rnti d, ds_dci_format d, ds_dci d, ds_dci_location d)"

definition rar_announced :: "dl_sched_rar_t \<Rightarrow> u16 \<times> dci_format \<times> dl_dci \<times> dci_location" where
  "rar_announced r = (ucast (rr_rarnti r), FORMAT1A, rr_dci r, rr_dci_location r)"

definition bc_announced :: "mac_lib \<Rightarrow> dl_sched_bc_t \<Rightarrow> u16 \<times> dci_format \<times> dl_dci \<times> dci_location" where
  "bc_announced L b = (if bc_type b = BCCH then SRSLTE_SIRNTI L else SRSLTE_PRNTI L, FORMAT1A, bc_dci b, bc_dci_location b)"

text \<open>The soft buffers of a user's grant are the user's, of the HARQ process the grant names.\<close>

definition data_softbuffers :: "srslte \<Rightarrow> dl_sched_data \<Rightarrow> nat \<Rightarrow> softbuffer option" where
  "data_softbuffers E d tb =
     (if tb < SRSLTE_MAX_TB E then Some (Ue_Tx (ds_rnti d) (get_tx_softbuffer E (dd_harq_process (ds_dci d)) (of_nat tb)))
      else None)"

lemma tb_payload_grant:
  assumes "tb_payload E L N u d tb (g, w) = Some (g', w')"
  shows "announced g' = announced g \<and> mg_softbuffers g' =
     (mg_softbuffers g)(tb := Some (Ue_Tx (mg_rnti g) (get_tx_softbuffer E (dd_harq_process (ds_dci d)) (of_nat tb))))"
  using assms by (auto simp: tb_payload_def announced_def Let_def bind_eq_Some_conv split: if_splits)

lemma tb_payloads_grant:
  assumes "foldM (tb_payload E L N u d) [0..<n] (g, w) = Some (g', w')"
  shows "announced g' = announced g \<and> mg_softbuffers g' = (\<lambda>tb. if tb < n
     then Some (Ue_Tx (mg_rnti g) (get_tx_softbuffer E (dd_harq_process (ds_dci d)) (of_nat tb))) else mg_softbuffers g tb)"
  using assms
proof (induction n arbitrary: g' w')
  case 0
  then show ?case by simp
next
  case (Suc n)
  obtain h v where h: "foldM (tb_payload E L N u d) [0..<n] (g, w) = Some (h, v)" "tb_payload E L N u d n (h, v) = Some (g', w')"
    using Suc.prems by (auto simp: foldM_append bind_eq_Some_conv)
  have r: "announced h = announced g"
    and f: "mg_softbuffers h = (\<lambda>tb. if tb < n
      then Some (Ue_Tx (mg_rnti g) (get_tx_softbuffer E (dd_harq_process (ds_dci d)) (of_nat tb))) else mg_softbuffers g tb)"
    using Suc.IH[OF h(1)] by auto
  have "mg_rnti h = mg_rnti g" using r by (simp add: announced_def)
  then show ?case using tb_payload_grant[OF h(2)] r by (auto simp: f fun_eq_iff less_Suc_eq)
qed

lemma data_grants_copied:
  assumes "foldM (data_grant_copy E L N m) ds (gs, w) = Some (gs', w')" and "\<forall>d \<in> set ds. mac_knows (ds_rnti d) m"
  shows "\<exists>hs. gs' = gs @ hs \<and> map announced hs = map data_announced ds \<and> map mg_softbuffers hs = map (data_softbuffers E) ds"
  using assms
proof (induction ds arbitrary: gs w)
  case Nil
  then show ?case by simp
next
  case (Cons d ds)
  obtain u where u: "user (ds_rnti d) m = Some u" using Cons.prems(2) by (auto simp: mac_knows_def)
  obtain gs1 w1 where s: "data_grant_copy E L N m d (gs, w) = Some (gs1, w1)"
      "foldM (data_grant_copy E L N m) ds (gs1, w1) = Some (gs', w')"
    using Cons.prems(1) by (auto simp: bind_eq_Some_conv)
  let ?g = "\<lparr>mg_rnti = ds_rnti d, mg_dci_format = ds_dci_format d, mg_grant = ds_dci d,
      mg_location = ds_dci_location d, mg_softbuffers = (\<lambda>_. None), mg_data = (\<lambda>_. Null)\<rparr>"
  obtain g where g: "foldM (tb_payload E L N u d) [0..<SRSLTE_MAX_TB E] (?g, w) = Some (g, w1)" "gs1 = gs @ [g]"
    using s(1) u by (auto simp: data_grant_copy_def bind_eq_Some_conv)
  have "announced g = data_announced d" "mg_softbuffers g = data_softbuffers E d"
    using tb_payloads_grant[OF g(1)] by (auto simp: announced_def data_announced_def data_softbuffers_def fun_eq_iff)
  moreover obtain hs where "gs' = gs1 @ hs" "map announced hs = map data_announced ds"
      "map mg_softbuffers hs = map (data_softbuffers E) ds"
    using Cons.IH[OF s(2)] Cons.prems(2) by auto
  ultimately show ?case using g(2) by (intro exI[of _ "g # hs"]) simp
qed

lemma rar_grants_copied:
  assumes "foldM (rar_grant_copy N rar) [0..<n] (gs, rars, w) = Some (gs', rars', w')"
  shows "n \<le> length rar \<and> (\<exists>hs. gs' = gs @ hs \<and> map announced hs = map rar_announced (take n rar))"
  using assms
proof (induction n arbitrary: gs' rars' w')
  case 0
  then show ?case by simp
next
  case (Suc n)
  obtain g1 r1 v where s: "foldM (rar_grant_copy N rar) [0..<n] (gs, rars, w) = Some (g1, r1, v)"
      "rar_grant_copy N rar n (g1, r1, v) = Some (gs', rars', w')"
    using Suc.prems by (auto simp: foldM_append bind_eq_Some_conv)
  obtain hs where hs: "g1 = gs @ hs" "map announced hs = map rar_announced (take n rar)" using Suc.IH[OF s(1)] by auto
  obtain r where r: "rd rar n = Some r" using s(2) by (auto simp: rar_grant_copy_def bind_eq_Some_conv)
  then have n: "n < length rar" "rar ! n = r" by (auto simp: rd_def split: if_splits)
  obtain g where "gs' = g1 @ [g]" "announced g = rar_announced r"
    using s(2) r by (auto simp: rar_grant_copy_def announced_def rar_announced_def bind_eq_Some_conv)
  then show ?case using hs n by (simp add: take_Suc_conv_app_nth)
qed

lemma bc_grants_copied:
  "\<exists>hs. fst (fold (bc_grant_copy L N w) bs (gs, m)) = gs @ hs \<and> map announced hs = map (bc_announced L) bs"
proof (induction bs arbitrary: gs m)
  case Nil
  then show ?case by simp
next
  case (Cons b bs)
  obtain g m1 where b: "bc_grant_copy L N w b (gs, m) = (gs @ [g], m1)" "announced g = bc_announced L b"
    by (cases "bc_type b = BCCH") (auto simp: bc_grant_copy_def announced_def bc_announced_def Let_def)
  obtain hs where "fst (fold (bc_grant_copy L N w) bs (gs @ [g], m1)) = (gs @ [g]) @ hs" "map announced hs = map (bc_announced L) bs"
    using Cons.IH[of "gs @ [g]" m1] by blast
  then show ?case using b by (intro exI[of _ "g # hs"]) simp
qed

lemma copy_dl_grants_announced:
  assumes "copy_dl_grants E L N res m w = Some (gs, m', w')"
    and "\<forall>d \<in> set (take (dr_nof_data_elems res) (dr_data res)). mac_knows (ds_rnti d) m"
  shows "map announced gs = map data_announced (take (dr_nof_data_elems res) (dr_data res)) @
       map rar_announced (take (dr_nof_rar_elems res) (dr_rar res)) @
       map (bc_announced L) (take (dr_nof_bc_elems res) (dr_bc res)) \<and>
     map mg_softbuffers (take (length (take (dr_nof_data_elems res) (dr_data res))) gs) =
       map (data_softbuffers E) (take (dr_nof_data_elems res) (dr_data res)) \<and>
     dr_nof_rar_elems res \<le> length (dr_rar res)"
proof -
  let ?ds = "take (dr_nof_data_elems res) (dr_data res)" and ?bs = "take (dr_nof_bc_elems res) (dr_bc res)"
  obtain g1 w1 where a: "foldM (data_grant_copy E L N m) ?ds ([], w) = Some (g1, w1)"
    using assms(1) by (auto simp: copy_dl_grants_def bind_eq_Some_conv)
  obtain g2 rars w2 where b: "foldM (rar_grant_copy N (dr_rar res)) [0..<dr_nof_rar_elems res] (g1, ma_pending_rars m, w1) = Some (g2, rars, w2)"
    using assms(1) a by (auto simp: copy_dl_grants_def bind_eq_Some_conv)
  have f: "fold (bc_grant_copy L N w2) ?bs (g2, m\<lparr>ma_pending_rars := rars\<rparr>) = (gs, m')"
    using assms(1) a b by (auto simp: copy_dl_grants_def split: prod.splits)
  have d: "map announced g1 = map data_announced ?ds" "map mg_softbuffers g1 = map (data_softbuffers E) ?ds"
    using data_grants_copied[OF a assms(2)] by auto
  obtain hs where r: "g2 = g1 @ hs" "map announced hs = map rar_announced (take (dr_nof_rar_elems res) (dr_rar res))"
      "dr_nof_rar_elems res \<le> length (dr_rar res)"
    using rar_grants_copied[OF b] by auto
  obtain ks where k: "gs = g2 @ ks" "map announced ks = map (bc_announced L) ?bs"
    using bc_grants_copied[of L N w2 ?bs g2 "m\<lparr>ma_pending_rars := rars\<rparr>"] f by auto
  have "take (length ?ds) gs = g1" using map_eq_imp_length_eq[OF d(1)] k(1) r(1) by simp
  then show ?thesis using d r k by simp
qed

text \<open>C24: no grant is lost or mixed up between the scheduler and the PHY: when the user maps agree, the
  downlink grants the PHY gets are, in this order, one for each user grant the scheduler counted, one
  for each random access response and one for each broadcast block, each with the RNTI, the format, the
  DCI and the DCI location of its result; a user's grant has the user's soft buffers of the HARQ process
  in its DCI, one for each transport block; and the number of control symbols is the scheduler's.\<close>

theorem dl_grants_reach_phy:
  assumes "mac_inv L m" and "get_dl_sched E L N paging tti m w = Some (r, Some (gs, cfi), m', w')"
  shows "\<exists>c res s. dl_sched E paging tti (dl_res_zero E) (ma_scheduler m) = Some (c, res, s) \<and>
     map announced gs = map data_announced (take (dr_nof_data_elems res) (dr_data res)) @
       map rar_announced (take (dr_nof_rar_elems res) (dr_rar res)) @
       map (bc_announced L) (take (dr_nof_bc_elems res) (dr_bc res)) \<and>
     map mg_softbuffers (take (dr_nof_data_elems res) gs) =
       map (data_softbuffers E) (take (dr_nof_data_elems res) (dr_data res)) \<and>
     dr_nof_data_elems res \<le> length (dr_data res) \<and> dr_nof_rar_elems res \<le> length (dr_rar res) \<and>
     length gs = dr_nof_data_elems res + dr_nof_rar_elems res + length (take (dr_nof_bc_elems res) (dr_bc res)) \<and>
     cfi = dr_cfi res"
  using assms(2)
proof (cases rule: get_dl_sched_cases)
  case (run c res s gs')
  have k: "known_entries (rids (sc_ue_db (ma_scheduler m))) (dr_nof_data_elems res) (map ds_rnti (dr_data res))"
    using dl_sched_keys[OF run(1)] by (simp add: dl_res_zero_def)
  have kk: "keeps_users m (m\<lparr>ma_scheduler := s\<rparr>)" by (rule keeps_sched[OF dl_sched_keeps[OF run(1)]])
  note u = known_entries_users[OF assms(1) k kk]
  note g = copy_dl_grants_announced[OF run(2) conjunct2[OF u]]
  have n: "dr_nof_data_elems res \<le> length (dr_data res)" using k by (simp add: known_entries_def)
  have "length gs' = length (map announced gs')" by simp
  also have "\<dots> = dr_nof_data_elems res + dr_nof_rar_elems res + length (take (dr_nof_bc_elems res) (dr_bc res))"
    using g n by simp
  finally show ?thesis using run(1,3) g n by (intro exI[of _ c] exI[of _ res] exI[of _ s]) simp
qed simp_all

definition demo_mac_run :: mac where
  "demo_mac_run = mac_new\<lparr>ma_started := True, ma_scheduler := demo_sched\<rparr>"

lemma demo_mac_run_result:
  "map_option (\<lambda>(r, g, m, w). map_option (\<lambda>(gs, cfi). (map mg_rnti gs, cfi)) g)
     (get_dl_sched short_lib demo_mac_lib demo_env None 5 demo_mac_run ()) = Some (Some ([3, 0xFFFF], 3))"
  by code_simp

theorem dl_grants_reach_phy_witness:
  "\<exists>r gs m' c res s. get_dl_sched short_lib demo_mac_lib demo_env None 5 demo_mac_run () = Some (r, Some (gs, 3), m', ()) \<and>
     map mg_rnti gs = [3, 0xFFFF] \<and>
     dl_sched short_lib None 5 (dl_res_zero short_lib) (ma_scheduler demo_mac_run) = Some (c, res, s) \<and>
     dr_nof_data_elems res + dr_nof_rar_elems res + length (take (dr_nof_bc_elems res) (dr_bc res)) = 2"
proof -
  obtain r gs m' where g: "get_dl_sched short_lib demo_mac_lib demo_env None 5 demo_mac_run () = Some (r, Some (gs, 3), m', ())"
      "map mg_rnti gs = [3, 0xFFFF]"
    using demo_mac_run_result by auto
  have "mac_inv demo_mac_lib demo_mac_run"
    by (simp add: mac_inv_def demo_mac_run_def mac_new_def sched_knows_def mac_knows_def user_def
        own_rnti_def rids_def demo_sched_def sched_new_def sched_reset_def)
  from dl_grants_reach_phy[OF this g(1)] obtain c res s where
    "dl_sched short_lib None 5 (dl_res_zero short_lib) (ma_scheduler demo_mac_run) = Some (c, res, s)"
    "length gs = dr_nof_data_elems res + dr_nof_rar_elems res + length (take (dr_nof_bc_elems res) (dr_bc res))"
    by blast
  moreover have "length gs = 2" using arg_cong[OF g(2), of length] by simp
  ultimately show ?thesis using g by (intro exI[of _ r] exI[of _ gs] exI[of _ m'] exI[of _ c] exI[of _ res] exI[of _ s]) simp
qed

lemma ul_grant_step:
  assumes "ul_grant_copy E q tti pusch i (m, gs, cs) = Some (m', gs', cs')"
    and "i < length pusch" and "mac_knows (us_rnti (pusch ! i)) m"
  shows "keeps_users m m' \<and> (\<exists>ds. cs' = cs @ ds) \<and>
    (if 0 < us_tbs (pusch ! i)
     then \<exists>g. gs' = gs @ [g] \<and> mj_rnti g = us_rnti (pusch ! i) \<and>
       Rx_Softbuffer_Reset (mj_rnti g) (harq_pid E tti) (of_i32 (us_tbs (pusch ! i) * 8)) \<in> set cs'
     else gs' = gs)"
proof -
  obtain u where u: "user (us_rnti (pusch ! i)) m = Some u" using assms(3) by (auto simp: mac_knows_def)
  have k: "keeps_users m m'" using ul_grant_keeps[OF assms(1)] by simp
  show ?thesis
  proof (cases "0 < us_tbs (pusch ! i)")
    case False
    then show ?thesis using assms(1,2) u k by (simp add: ul_grant_copy_def)
  next
    case True
    let ?r = "us_rnti (pusch ! i)" and ?n = "of_i32 (us_tbs (pusch ! i)) :: u32"
    obtain data v cs1 where rb: "request_buffer E tti ?n (q ?r ?n) u = (data, v, cs1)" by (rule prod_cases3)
    obtain d where "rd pusch (length gs) = Some d"
      using assms(1,2) u True by (auto simp: ul_grant_copy_def Let_def bind_eq_Some_conv)
    then have "gs' = gs @ [\<lparr>mj_rnti = ?r, mj_current_tx_nb = us_current_tx_nb (pusch ! i),
                         mj_needs_pdcch = us_needs_pdcch (pusch ! i), mj_grant = us_dci (pusch ! i),
                         mj_location = us_dci_location (pusch ! i),
                         mj_softbuffer = Ue_Rx ?r (get_rx_softbuffer E tti), mj_data = data\<rparr>]"
        "cs' = (cs @ [Rx_Softbuffer_Reset ?r (get_rx_softbuffer E tti) (of_i32 (us_tbs (pusch ! i) * 8))]) @ cs1"
      using assms(1,2) u True rb by (auto simp: ul_grant_copy_def us_current_tx_nb_def Let_def)
    then show ?thesis using k True by (simp add: get_rx_softbuffer_def)
  qed
qed

lemma ul_grants_loop:
  assumes "foldM (ul_grant_copy E q tti pusch) [a..<a + k] (m, gs, cs) = Some (m', gs', cs')"
    and "a + k \<le> length pusch" and "\<forall>d \<in> set (take k (drop a pusch)). mac_knows (us_rnti d) m"
  shows "\<exists>hs ds. gs' = gs @ hs \<and> cs' = cs @ ds \<and>
    map mj_rnti hs = map us_rnti (filter (\<lambda>d. 0 < us_tbs d) (take k (drop a pusch))) \<and>
    (\<forall>g \<in> set hs. \<exists>n. Rx_Softbuffer_Reset (mj_rnti g) (harq_pid E tti) n \<in> set cs')"
  using assms
proof (induction k arbitrary: a m gs cs)
  case 0
  then show ?case by simp
next
  case (Suc k)
  have a: "a < length pusch" using Suc.prems(2) by simp
  then have d: "take (Suc k) (drop a pusch) = pusch ! a # take k (drop (Suc a) pusch)"
    by (simp add: Cons_nth_drop_Suc[symmetric])
  have "[a..<a + Suc k] = a # [Suc a..<Suc a + k]" by (simp add: upt_conv_Cons)
  then obtain m1 gs1 cs1 where s: "ul_grant_copy E q tti pusch a (m, gs, cs) = Some (m1, gs1, cs1)"
      "foldM (ul_grant_copy E q tti pusch) [Suc a..<Suc a + k] (m1, gs1, cs1) = Some (m', gs', cs')"
    using Suc.prems(1) by (auto simp: bind_eq_Some_conv)
  have kn: "mac_knows (us_rnti (pusch ! a)) m" using Suc.prems(3) d by simp
  note st = ul_grant_step[OF s(1) a kn]
  have "\<forall>d \<in> set (take k (drop (Suc a) pusch)). mac_knows (us_rnti d) m1"
    using Suc.prems(3) st d by (simp add: keeps_users_def)
  then obtain hs ds where h: "gs' = gs1 @ hs" "cs' = cs1 @ ds"
      "map mj_rnti hs = map us_rnti (filter (\<lambda>d. 0 < us_tbs d) (take k (drop (Suc a) pusch)))"
      "\<forall>g \<in> set hs. \<exists>n. Rx_Softbuffer_Reset (mj_rnti g) (harq_pid E tti) n \<in> set cs'"
    using Suc.IH[OF s(2)] Suc.prems(2) by auto
  show ?case
  proof (cases "0 < us_tbs (pusch ! a)")
    case True
    then obtain g es where g: "gs1 = gs @ [g]" "mj_rnti g = us_rnti (pusch ! a)" "cs1 = cs @ es"
        "Rx_Softbuffer_Reset (mj_rnti g) (harq_pid E tti) (of_i32 (us_tbs (pusch ! a) * 8)) \<in> set cs1"
      using st by auto
    then show ?thesis using h d True by (intro exI[of _ "g # hs"] exI[of _ "es @ ds"]) auto
  next
    case False
    then obtain es where "gs1 = gs" "cs1 = cs @ es" using st by auto
    then show ?thesis using h d False by (intro exI[of _ hs] exI[of _ "es @ ds"]) auto
  qed
qed

text \<open>the uplink grants the PHY gets are exactly those the scheduler counted with a non-empty block,
  in order and under their RNTIs. For each of them the soft buffer of its HARQ process is reset, also
  when the grant is a retransmission, because nothing ever sets the transmission number the code
  tests: earlier transmissions of a block are never combined with later ones.\<close>

theorem ul_grants_reach_phy:
  assumes "mac_inv L m" and "get_ul_sched E q tti m = Some (r, Some (gs, ph), m', cs)"
  shows "\<exists>c res s. ul_sched E tti (ul_res_zero E) (ma_scheduler m) = Some (c, res, s) \<and>
     map mj_rnti gs = map us_rnti (filter (\<lambda>d. 0 < us_tbs d) (take (ur_nof_dci_elems res) (ur_pusch res))) \<and>
     (\<forall>g \<in> set gs. \<exists>n. Rx_Softbuffer_Reset (mj_rnti g) (harq_pid E tti) n \<in> set cs)"
proof -
  obtain c res s where d: "ul_sched E tti (ul_res_zero E) (ma_scheduler m) = Some (c, res, s)" "ma_started m" "\<not> c < 0"
    using assms(2) by (auto simp: get_ul_sched_def Let_def bind_eq_Some_conv split: if_splits)
  obtain m1 where f: "foldM (ul_grant_copy E q tti (ur_pusch res)) [0..<0 + ur_nof_dci_elems res]
      (m\<lparr>ma_scheduler := s\<rparr>, [], []) = Some (m1, gs, cs)"
    using assms(2) d by (auto simp: get_ul_sched_def Let_def bind_eq_Some_conv)
  have k: "known_entries (rids (sc_ue_db (ma_scheduler m))) (ur_nof_dci_elems res) (map us_rnti (ur_pusch res))"
      "keeps_users m (m\<lparr>ma_scheduler := s\<rparr>)"
    using ul_sched_keys[OF d(1)] by (auto intro!: keeps_sched sched_keeps_rids simp: ul_res_zero_def)
  have "ur_nof_dci_elems res \<le> length (ur_pusch res)" using k(1) by (simp add: known_entries_def)
  then show ?thesis
    using ul_grants_loop[OF f] known_entries_users[OF assms(1) k] d(1) by fastforce
qed

lemma demo_mac_inv: "mac_inv demo_mac_lib demo_mac"
  by (rule mac_reach_inv[OF demo_mac_reach])

theorem ul_grants_reach_phy_witness:
  "\<exists>gs ph m' cs c res s. get_ul_sched demo_lib (\<lambda>_ _. None) 9 demo_mac = Some (0, Some (gs, ph), m', cs) \<and>
     ul_sched demo_lib 9 (ul_res_zero demo_lib) (ma_scheduler demo_mac) = Some (c, res, s) \<and>
     map mj_rnti gs = map us_rnti (filter (\<lambda>d. 0 < us_tbs d) (take (ur_nof_dci_elems res) (ur_pusch res)))"
proof -
  have "\<not> sc_configured (ma_scheduler demo_mac)"
    by (simp add: demo_mac_def mac_init_def Let_def mac_reset_def sched_reset_def)
  then obtain gs ph m' cs where g: "get_ul_sched demo_lib (\<lambda>_ _. None) 9 demo_mac = Some (0, Some (gs, ph), m', cs)"
    by (simp add: get_ul_sched_def demo_mac_fields ul_sched_def Let_def ul_res_zero_def)
  from ul_grants_reach_phy[OF demo_mac_inv g] g show ?thesis by blast
qed

section \<open>Radio link failure\<close>

definition fails :: "u16 \<Rightarrow> nat \<Rightarrow> mac \<Rightarrow> mac \<times> call list" where
  "fails rnti k m = ((\<lambda>(m, cs). let (m', ds) = mac_rl_failure rnti m in (m', cs @ ds)) ^^ k) (m, [])"

lemma fails_count:
  assumes "user rnti m = Some u" and "mu_nof_failures u = 0"
    and "0 < ma_link_failure_nof_err m" and "ma_link_failure_nof_err m < 2 ^ 31"
  shows "\<exists>m' v. fails rnti k m = (m', replicate (k div nat (ma_link_failure_nof_err m)) (Rrc_Rl_Failure rnti)) \<and>
    user rnti m' = Some v \<and> mu_nof_failures v = of_nat (k mod nat (ma_link_failure_nof_err m)) \<and>
    ma_link_failure_nof_err m' = ma_link_failure_nof_err m"
proof (induction k)
  case 0
  then show ?case using assms by (simp add: fails_def)
next
  case (Suc k)
  define n where "n = nat (ma_link_failure_nof_err m)"
  have n: "0 < n" "n < 2 ^ 31" "ma_link_failure_nof_err m = int n" using assms(3,4) by (simp_all add: n_def)
  obtain m' v where i: "fails rnti k m = (m', replicate (k div n) (Rrc_Rl_Failure rnti))"
      "user rnti m' = Some v" "mu_nof_failures v = of_nat (k mod n)" "ma_link_failure_nof_err m' = int n"
    using Suc.IH unfolding n(3) nat_int by blast
  obtain m2 ds where f: "mac_rl_failure rnti m' = (m2, ds)" by fastforce
  have s: "fails rnti (Suc k) m = (m2, replicate (k div n) (Rrc_Rl_Failure rnti) @ ds)"
    using i(1) f by (simp add: fails_def)
  have lt: "k mod n < n" using n(1) by simp
  have "unat (of_nat (Suc (k mod n)) :: u32) = Suc (k mod n)"
    using lt n(2) by (simp add: unat_of_nat take_bit_nat_eq_self del: of_nat_Suc)
  moreover have "unat (of_nat n :: u32) = n" using n(2) by (simp add: unat_of_nat take_bit_nat_eq_self)
  ultimately have full: "(of_i32 (int n) \<le> (of_nat (Suc (k mod n)) :: u32)) = (Suc (k mod n) = n)"
    using lt by (auto simp: word_le_nat_alt)
  have mod: "Suc k mod n = (if Suc (k mod n) = n then 0 else Suc (k mod n))"
    "Suc k div n = (if Suc (k mod n) = n then Suc (k div n) else k div n)"
    by (simp_all add: mod_Suc div_Suc)
  show ?case
  proof (cases "Suc (k mod n) = n")
    case True
    have w: "(of_nat n :: u32) = 1 + of_nat (k mod n)" by (metis True of_nat_Suc)
    from True have "ds = [Rrc_Rl_Failure rnti]" "m2 = put_user rnti (rl_failure_reset (v\<lparr>mu_nof_failures := of_nat (Suc (k mod n))\<rparr>)) m'"
      using f i full[unfolded of_nat_Suc] n w by (auto simp: mac_rl_failure_def ue_rl_failure_def Let_def add.commute)
    then show ?thesis using s i True mod n
      by (simp add: user_def put_user_def om.put_same rl_failure_reset_def replicate_append_same flip: n_def)
  next
    case False
    then have "ds = []" "m2 = put_user rnti (v\<lparr>mu_nof_failures := of_nat (Suc (k mod n))\<rparr>) m'"
      using f i full[unfolded of_nat_Suc] n by (auto simp: mac_rl_failure_def ue_rl_failure_def Let_def add.commute)
    then show ?thesis using s i False mod n
      by (simp add: user_def put_user_def om.put_same flip: n_def)
  qed
qed

text \<open>the RRC hears of a radio link failure exactly once for every \<open>link_failure_nof_err\<close> consecutive
  failures of a user, and the count starts anew after each report.\<close>

theorem rl_failure_reported_every_nof_err:
  assumes "user rnti m = Some u" and "0 < ma_link_failure_nof_err m" and "ma_link_failure_nof_err m < 2 ^ 31"
  shows "\<exists>m' v. fails rnti k (mac_rl_ok rnti m) =
      (m', replicate (k div nat (ma_link_failure_nof_err m)) (Rrc_Rl_Failure rnti)) \<and>
    user rnti m' = Some v \<and> unat (mu_nof_failures v) = k mod nat (ma_link_failure_nof_err m)"
proof -
  let ?n = "nat (ma_link_failure_nof_err m)" and ?m = "mac_rl_ok rnti m"
  have n: "0 < ?n" "?n < 2 ^ 31" using assms(2,3) by simp_all
  have m: "user rnti ?m = Some (rl_failure_reset u)" "ma_link_failure_nof_err ?m = ma_link_failure_nof_err m"
    using assms(1) by (simp_all add: mac_rl_ok_def user_def put_user_def om.put_same)
  have "mu_nof_failures (rl_failure_reset u) = 0" by (simp add: rl_failure_reset_def)
  from fails_count[OF m(1) this, of k] obtain m' v where
    "fails rnti k ?m = (m', replicate (k div ?n) (Rrc_Rl_Failure rnti))" "user rnti m' = Some v"
    "mu_nof_failures v = of_nat (k mod ?n)"
    using assms(2,3) m(2) by auto
  moreover have "k mod ?n < 2 ^ 31" using n mod_less_divisor[OF n(1), of k] by linarith
  then have "unat (of_nat (k mod ?n) :: u32) = k mod ?n" by (simp add: unat_of_nat take_bit_nat_eq_self)
  ultimately show ?thesis by simp
qed

theorem rl_failure_reported_every_nof_err_witness:
  "\<exists>m' v. fails 70 7 (mac_rl_ok 70 (put_user 70 demo_mac_ue demo_mac)) = (m', [Rrc_Rl_Failure 70, Rrc_Rl_Failure 70]) \<and>
     user 70 m' = Some v \<and> unat (mu_nof_failures v) = 1"
proof -
  have "user 70 (put_user 70 demo_mac_ue demo_mac) = Some demo_mac_ue" by (simp add: user_def put_user_def om.put_same)
  moreover have "ma_link_failure_nof_err (put_user 70 demo_mac_ue demo_mac) = 3"
    by (simp add: put_user_def demo_mac_fields)
  ultimately obtain m' v where "fails 70 7 (mac_rl_ok 70 (put_user 70 demo_mac_ue demo_mac)) =
      (m', replicate (7 div nat 3) (Rrc_Rl_Failure 70))" "user 70 m' = Some v" "unat (mu_nof_failures v) = 7 mod nat 3"
    using rl_failure_reported_every_nof_err[of 70 "put_user 70 demo_mac_ue demo_mac" demo_mac_ue 7] by auto
  moreover have "replicate (7 div nat 3) (Rrc_Rl_Failure 70) = [Rrc_Rl_Failure 70, Rrc_Rl_Failure 70]"
    by (simp add: numeral_2_eq_2)
  ultimately show ?thesis by simp
qed

section \<open>Shutdown\<close>

lemma unat_u16_less: "unat k < 65536" for k :: u16
  using unsigned_less[of k] by simp

lemma card_low: "i \<le> 65536 \<Longrightarrow> card {k :: u16. unat k < i} = i"
proof -
  assume i: "i \<le> 65536"
  have "unat ` {k :: u16. unat k < i} = {..<i}"
  proof (intro equalityI subsetI)
    fix n assume "n \<in> {..<i}"
    then have "unat (of_nat n :: u16) = n" "n < i" using i by (simp_all add: unat_of_nat take_bit_nat_eq_self)
    then show "n \<in> unat ` {k :: u16. unat k < i}" by (intro image_eqI[of _ _ "of_nat n"]) simp_all
  qed auto
  moreover have "inj_on unat {k :: u16. unat k < i}" by (simp add: inj_on_def word_unat_eq_iff)
  ultimately show ?thesis using card_image card_lessThan by metis
qed

text \<open>The loop goes on exactly while a user lies at or above its index.\<close>

lemma stop_loop_goes_on:
  fixes db :: "(u16, bool) omap"
  assumes "omap_wf db" and "fst ` set db = K \<union> {k. unat k < i}" and "i \<le> 65536"
  shows "i < length db \<longleftrightarrow> (\<exists>k \<in> K. i \<le> unat k)"
proof -
  have "length db = card (fst ` set db)"
    using omap_wf_distinct[OF assms(1)] distinct_card[of "map fst db"] by simp
  also have "\<dots> = card ({k \<in> K. i \<le> unat k} \<union> {k. unat k < i})"
    unfolding assms(2) by (rule arg_cong[of _ _ card]) auto
  also have "\<dots> = card {k \<in> K. i \<le> unat k} + i"
    using card_low[OF assms(3)] by (subst card_Un_disjoint) auto
  finally have "i < length db \<longleftrightarrow> {k \<in> K. i \<le> unat k} \<noteq> {}" by (simp add: card_gt_0_iff)
  then show ?thesis by auto
qed

lemma stop_loop_frees:
  assumes "omap_wf db" and "fst ` set db = K \<union> {k. unat k < i}"
    and "\<forall>k. omap_get db k = Some True \<longleftrightarrow> k \<in> K" and "i \<le> 65536"
  shows "\<exists>db' freed'. stop_loop (of_nat i) db freed = Some (db', freed @ freed') \<and>
    set freed' = {k \<in> K. i \<le> unat k} \<and> distinct freed'"
  using assms
proof (induction "65536 - i" arbitrary: i db freed rule: less_induct)
  case (less i db freed)
  have w: "unat (of_nat i :: u32) = i" using less.prems(4) by (simp add: unat_of_nat take_bit_nat_eq_self)
  show ?case
  proof (cases "i < length db")
    case False
    then have "stop_loop (of_nat i) db freed = Some (db, freed)" by (subst stop_loop.simps) (simp add: w)
    moreover have "{k \<in> K. i \<le> unat k} = {}" using False stop_loop_goes_on[OF less.prems(1,2,4)] by auto
    ultimately show ?thesis by simp
  next
    case True
    then obtain k where "k \<in> K" "i \<le> unat k" using stop_loop_goes_on[OF less.prems(1,2,4)] by auto
    then have i: "i < 65536" using unat_u16_less[of k] by simp
    define ki :: u16 where "ki = of_nat i"
    have uk: "unat ki = i" using i by (simp add: ki_def unat_of_nat take_bit_nat_eq_self)
    have uq: "unat x = i \<longleftrightarrow> x = ki" for x using uk by (auto simp: word_unat_eq_iff)
    have uc: "ucast (of_nat i :: u32) = ki"
      using uk w by (simp add: word_unat_eq_iff unsigned_ucast_eq take_bit_nat_eq_self i)
    have suc: "(of_nat i :: u32) + 1 = of_nat (Suc i)" by simp
    have lt: "65536 - Suc i < 65536 - i" "Suc i \<le> 65536" using i by simp_all
    have split: "{k \<in> K. i \<le> unat k} = {k \<in> K. Suc i \<le> unat k} \<union> (if ki \<in> K then {ki} else {})"
    proof (intro set_eqI)
      fix x
      have "i \<le> unat x \<longleftrightarrow> Suc i \<le> unat x \<or> x = ki" unfolding uq[symmetric] by linarith
      then show "x \<in> {k \<in> K. i \<le> unat k} \<longleftrightarrow> x \<in> {k \<in> K. Suc i \<le> unat k} \<union> (if ki \<in> K then {ki} else {})"
        using uq[of x] by auto
    qed
    show ?thesis
    proof (cases "omap_get db ki")
      case None
      let ?db = "omap_set ki False db"
      have nk: "ki \<notin> K" using None less.prems(3) by (metis option.distinct(1))
      have "fst ` set ?db = K \<union> {k. unat k < Suc i}"
        unfolding set_omap_set less.prems(2) by (auto simp: less_Suc_eq uq)
      moreover have "\<forall>k. omap_get ?db k = Some True \<longleftrightarrow> k \<in> K"
        using less.prems(3) nk by (auto simp: om.look_put)
      ultimately obtain db' freed' where "stop_loop (of_nat (Suc i)) ?db freed = Some (db', freed @ freed')"
          "set freed' = {k \<in> K. Suc i \<le> unat k}" "distinct freed'"
        using less.hyps[OF lt(1) omap_wf_set[OF less.prems(1)] _ _ lt(2), of ki False freed] by blast
      moreover have "stop_loop (of_nat i) db freed = stop_loop (of_nat (Suc i)) ?db freed"
        by (subst stop_loop.simps) (simp only: w True if_True uc None option.case suc)
      ultimately show ?thesis using split nk by auto
    next
      case (Some b)
      have bk: "b \<longleftrightarrow> ki \<in> K" using Some less.prems(3) by (metis (full_types) option.inject)
      let ?fr = "if b then freed @ [ki] else freed"
      have "ki \<in> K \<union> {k. unat k < i}" using Some less.prems(2) by (metis map_of_eq_None_iff option.distinct(1))
      then have "ki \<in> K" using uk by auto
      moreover have "K \<union> {k. unat k < i} = K \<union> {k. unat k < Suc i}"
        using \<open>ki \<in> K\<close> by (auto simp: less_Suc_eq uq)
      ultimately obtain db' freed' where r: "stop_loop (of_nat (Suc i)) db (freed @ [ki]) = Some (db', (freed @ [ki]) @ freed')"
          "set freed' = {k \<in> K. Suc i \<le> unat k}" "distinct freed'"
        using less.hyps[OF lt(1) less.prems(1) _ less.prems(3) lt(2), of "freed @ [ki]"] less.prems(2) by auto
      have "stop_loop (of_nat i) db freed = stop_loop (of_nat (Suc i)) db (freed @ [ki])"
        using bk \<open>ki \<in> K\<close> by (subst stop_loop.simps) (simp only: w True if_True uc Some option.case suc)
      moreover have "ki \<notin> set freed'" using r(2) uk by simp
      ultimately show ?thesis using r split \<open>ki \<in> K\<close>
        by (intro exI[of _ db'] exI[of _ "ki # freed'"]) auto
    qed
  qed
qed

text \<open>\<open>stop\<close>, which walks the map of users by index although it is keyed by RNTI, ends and deletes
  every user exactly once: the null entries that the walk itself adds to the map keep it going just
  until it has passed the highest RNTI in use.\<close>

theorem stop_deletes_every_user:
  assumes "omap_wf (ma_ue_db m)"
  shows "\<exists>freed m'. mac_stop m = Some (freed, m') \<and> set freed = fst ` set (ma_ue_db m) \<and> distinct freed \<and>
    \<not> ma_started m'"
proof -
  let ?db = "map (\<lambda>(k, u). (k, True)) (ma_ue_db m)"
  have k: "map fst ?db = map fst (ma_ue_db m)" by auto
  have "omap_wf ?db" using assms unfolding omap_wf_def k .
  moreover have "fst ` set ?db = fst ` set (ma_ue_db m) \<union> {k. unat k < 0}"
    using k unfolding list.set_map[symmetric] by simp
  moreover have "\<forall>k. omap_get ?db k = Some True \<longleftrightarrow> k \<in> fst ` set (ma_ue_db m)"
  proof
    fix k
    have "omap_get ?db k = map_option (\<lambda>_. True) (omap_get (ma_ue_db m) k)"
      using map_of_map[of "\<lambda>_. True" "ma_ue_db m"] by simp
    then show "omap_get ?db k = Some True \<longleftrightarrow> k \<in> fst ` set (ma_ue_db m)"
      by (simp add: map_of_eq_None_iff flip: not_None_eq)
  qed
  ultimately show ?thesis
    using stop_loop_frees[of ?db "fst ` set (ma_ue_db m)" 0 "[]"] by (auto simp: mac_stop_def)
qed

theorem stop_deletes_every_user_witness:
  "\<exists>freed m'. mac_stop (put_user 71 demo_mac_ue (put_user 3 demo_mac_ue demo_mac)) = Some (freed, m') \<and> set freed = {3, 71}"
proof -
  let ?m = "put_user 71 demo_mac_ue (put_user 3 demo_mac_ue demo_mac)"
  have db: "ma_ue_db ?m = [(3, demo_mac_ue), (71, demo_mac_ue)]" by (simp add: put_user_def demo_mac_fields)
  have "omap_wf (ma_ue_db ?m)" unfolding db by (simp add: omap_wf_def)
  from stop_deletes_every_user[OF this] show ?thesis by (auto simp: db)
qed

section \<open>The multicast schedule\<close>

lemma mch_assign_zero:
  assumes "\<forall>t \<in> set ms. assigned t = Some 0"
  shows "mch_assign assigned ms = Some (map (\<lambda>t. t\<lparr>mt_stop := 0\<rparr>) ms)"
proof -
  have "foldM (\<lambda>t (ms', last). do {
         a \<leftarrow> assigned t;
         Some (ms' @ [t\<lparr>mt_stop := of_i32 last + a\<rparr>], i32 (of_i32 last + a))
       }) ms (acc, 0) = Some (acc @ map (\<lambda>t. t\<lparr>mt_stop := 0\<rparr>) ms, 0)" for acc
    using assms by (induction ms arbitrary: acc) simp_all
  then show ?thesis by (simp add: mch_assign_def)
qed

lemma mch_total_stop: "mch_total (map (\<lambda>t. t\<lparr>mt_stop := x\<rparr>) ms) = mch_total ms"
  by (simp add: mch_total_def fold_map o_def)

text \<open>when the buffers of the multicast channels do not fit into the scheduling period and no
  single channel holds all the data, no channel gets any subframe: the share of a channel is the
  quotient of two integers, which is zero.\<close>

theorem mch_overload_starves:
  assumes "ms = take (mp_num_mtch_sched (ma_mch m)) (mp_mtch_sched (ma_mch m))"
    and "length ms = mp_num_mtch_sched (ma_mch m)"
    and "mc_sf_alloc_end (ma_mcch m) * mch_bytes_per_sf tbs \<le> mch_total ms"
    and "\<forall>t \<in> set ms. mt_lcid_buffer_size t < of_i32 (mch_total ms)"
  shows "\<exists>m'. build_mch_sched tbs m = Some m' \<and>
    (\<forall>i < mp_num_mtch_sched (ma_mch m'). mt_stop (mp_mtch_sched (ma_mch m') ! i) = 0)"
proof -
  let ?n = "mp_num_mtch_sched (ma_mch m)" and ?total = "mch_total ms"
  let ?f = "\<lambda>t. if of_i32 ?total = (0 :: u32) then None
      else Some (of_i32 (mc_sf_alloc_end (ma_mcch m) * uint (mt_lcid_buffer_size t div of_i32 ?total)) :: u32)"
  let ?sched = "map (\<lambda>t. t\<lparr>mt_stop := 0\<rparr>) ms"
  have z: "x div y = 0" if "x < y" for x y :: u32
    using that by (simp add: word_unat_eq_iff unat_div_distrib word_less_nat_alt)
  have "\<forall>t \<in> set ?sched. ?f t = Some 0"
    using assms(4) by (auto simp: z)
  then have a: "mch_assign ?f ?sched = Some (map (\<lambda>t. t\<lparr>mt_stop := 0\<rparr>) ?sched)" by (rule mch_assign_zero)
  have len: "\<not> length (mp_mtch_sched (ma_mch m)) < ?n" using assms(1,2) by auto
  let ?m = "m\<lparr>ma_mch := (ma_mch m)\<lparr>mp_mtch_sched := map (\<lambda>t. t\<lparr>mt_stop := 0\<rparr>) ?sched @ drop ?n (mp_mtch_sched (ma_mch m))\<rparr>\<rparr>"
  have "build_mch_sched tbs m = Some ?m"
    using len assms(3) a by (simp add: build_mch_sched_def Let_def mch_total_stop cong: if_cong flip: assms(1))
  moreover have "\<forall>i < ?n. mt_stop (mp_mtch_sched (ma_mch ?m) ! i) = 0"
    using assms(2) by (simp add: nth_append)
  ultimately show ?thesis by (intro exI[of _ ?m]) simp
qed

definition demo_mtch :: mtch_sched where
  "demo_mtch = \<lparr>mt_lcid = 1, mt_lcid_buffer_size = 1000, mt_stop = 0, mt_mtch_payload = []\<rparr>"

lemma demo_mtch_size [simp]: "mt_lcid_buffer_size demo_mtch = 1000"
  by (simp add: demo_mtch_def)

theorem mch_overload_starves_witness:
  "\<exists>m'. build_mch_sched 160 (mac_new\<lparr>ma_mch := \<lparr>mp_pdu = [], mp_mtch_sched = [demo_mtch, demo_mtch],
      mp_num_mtch_sched = 2, mp_mcch_payload = [], mp_current_sf_allocation_num = 0\<rparr>,
      ma_mcch := \<lparr>mc_sf_alloc_end = 64, mc_datamcs = 0, mc_lcids = [1, 2]\<rparr>\<rparr>) = Some m' \<and>
     mt_stop (mp_mtch_sched (ma_mch m') ! 0) = 0"
proof -
  let ?m = "mac_new\<lparr>ma_mch := \<lparr>mp_pdu = [], mp_mtch_sched = [demo_mtch, demo_mtch],
      mp_num_mtch_sched = 2, mp_mcch_payload = [], mp_current_sf_allocation_num = 0\<rparr>,
      ma_mcch := \<lparr>mc_sf_alloc_end = 64, mc_datamcs = 0, mc_lcids = [1, 2]\<rparr>\<rparr>"
  have t: "mch_total [demo_mtch, demo_mtch] = 2000" by (simp add: mch_total_def demo_mtch_def)
  have b: "mch_bytes_per_sf 160 = 14" by (simp add: mch_bytes_per_sf_def)
  have "\<exists>m'. build_mch_sched 160 ?m = Some m' \<and>
      (\<forall>i < mp_num_mtch_sched (ma_mch m'). mt_stop (mp_mtch_sched (ma_mch m') ! i) = 0)"
    by (rule mch_overload_starves[OF refl]) (simp_all add: t b demo_mtch_size)
  moreover have "mp_num_mtch_sched (ma_mch m') = 2" if "build_mch_sched 160 ?m = Some m'" for m'
    using that by (auto simp: build_mch_sched_def Let_def bind_eq_Some_conv split: if_splits)
  ultimately show ?thesis by fastforce
qed

end
