(* ===== verification/Mac_Threads.thy ===== *)
theory Mac_Threads
  imports Prelude
begin

text \<open>
  The two threads of the MAC (end of \<open>mac/mac.cc\<close>): one steps the timers of the upper layers at every
  TTI, the other drains the queues of received PDUs, woken by the receiving side. The queue of a user,
  the database of timers and the counter they wait on are the library's. The second thread is taken
  apart into the steps between which the receiving side (\<open>crc_info\<close>, which pushes a PDU and then
  notifies) and \<open>stop\<close> can run.
\<close>

section \<open>Timers\<close>

datatype timer_call =
    Sync_Set_Producer_Cntr nat
  | Sync_Resync
  | Sync_Wait
  | Sync_Increase
  | Timers_Step_All
  | Wait_Thread_Finish

record timer_thread =
  tt_running :: bool

definition timer_run_start :: "timer_thread \<Rightarrow> timer_thread \<times> timer_call list" where
  "timer_run_start t = (t\<lparr>tt_running := True\<rparr>, [Sync_Set_Producer_Cntr 0, Sync_Resync])"

text \<open>One round of the loop; the flag is read before the wait, so the round in which the thread is stopped still steps the timers.\<close>

definition timer_round :: "timer_thread \<Rightarrow> timer_call list" where
  "timer_round t = (if tt_running t then [Sync_Wait, Timers_Step_All] else [])"

definition timer_stop :: "timer_thread \<Rightarrow> timer_thread \<times> timer_call list" where
  "timer_stop t = (t\<lparr>tt_running := False\<rparr>, [Sync_Increase, Wait_Thread_Finish])"

definition timer_tti_clock :: "timer_thread \<Rightarrow> timer_call list" where
  "timer_tti_clock t = [Sync_Increase]"

definition mac_tti_clock :: "timer_thread \<Rightarrow> timer_call list" where
  "mac_tti_clock t = timer_tti_clock t"

section \<open>Received PDUs\<close>

text \<open>
  The queue of PDUs of a user: processing it tells whether there was any. The documented behaviour is
  that all of them are processed.
\<close>

record 'q pdu_queue_lib =
  pq_process :: "'q \<Rightarrow> bool \<times> 'q"
  pq_push :: "'q \<Rightarrow> 'q"
  pq_empty :: "'q \<Rightarrow> bool"

definition pdu_queue_laws :: "'q pdu_queue_lib \<Rightarrow> bool" where
  "pdu_queue_laws L \<longleftrightarrow> (\<forall>q. pq_empty L (snd (pq_process L q)) \<and> fst (pq_process L q) = (\<not> pq_empty L q)) \<and>
     (\<forall>q. \<not> pq_empty L (pq_push L q))"

definition ue_process_pdus :: "'q pdu_queue_lib \<Rightarrow> 'q \<Rightarrow> bool \<times> 'q" where
  "ue_process_pdus L q = pq_process L q"

text \<open>
  Where the thread is: at the test of its loop, at the users still to be processed with the result so
  far, before the result is stored, before it is tested, and in the wait.
\<close>

datatype pdu_pc = At_Loop | Processing "u16 list" bool | Storing bool | Testing | Waiting | Ended

text \<open>\<open>pp_to_notify\<close> counts the calls of \<open>crc_info\<close> that have pushed and not yet notified.\<close>

record 'q pdu_process =
  pp_running :: bool
  pp_have_data :: bool
  pp_queues :: "(u16, 'q) omap"
  pp_pc :: pdu_pc
  pp_to_notify :: nat

definition pdu_process_new :: "(u16, 'q) omap \<Rightarrow> 'q pdu_process" where
  "pdu_process_new qs = \<lparr>pp_running = False, pp_have_data = False, pp_queues = qs, pp_pc = At_Loop, pp_to_notify = 0\<rparr>"

definition pdu_run_start :: "'q pdu_process \<Rightarrow> 'q pdu_process" where
  "pdu_run_start s = s\<lparr>pp_running := True, pp_pc := At_Loop\<rparr>"

definition pdu_notify :: "'q pdu_process \<Rightarrow> 'q pdu_process" where
  "pdu_notify s = s\<lparr>pp_have_data := True\<rparr>"

definition pdu_stop :: "'q pdu_process \<Rightarrow> 'q pdu_process" where
  "pdu_stop s = s\<lparr>pp_running := False\<rparr>"

text \<open>\<open>mac::process_pdus\<close> goes through the users in the order of the map, one at a step.\<close>

definition process_pdus_step :: "'q pdu_queue_lib \<Rightarrow> u16 \<Rightarrow> bool \<Rightarrow> 'q pdu_process \<Rightarrow> bool \<times> 'q pdu_process" where
  "process_pdus_step L k ret s =
     (case omap_get (pp_queues s) k of
        None \<Rightarrow> (ret, s)
      | Some q \<Rightarrow> let (r, q) = ue_process_pdus L q in (ret \<or> r, s\<lparr>pp_queues := omap_set k q (pp_queues s)\<rparr>))"

text \<open>A step of the thread; there is none when it waits or has ended.\<close>

definition pdu_thread_step :: "'q pdu_queue_lib \<Rightarrow> 'q pdu_process \<Rightarrow> 'q pdu_process option" where
  "pdu_thread_step L s =
     (case pp_pc s of
        At_Loop \<Rightarrow> Some (s\<lparr>pp_pc := if pp_running s then Processing (map fst (pp_queues s)) False else Ended\<rparr>)
      | Processing [] ret \<Rightarrow> Some (s\<lparr>pp_pc := Storing ret\<rparr>)
      | Processing (k # ks) ret \<Rightarrow>
          let (ret, s) = process_pdus_step L k ret s in Some (s\<lparr>pp_pc := Processing ks ret\<rparr>)
      | Storing ret \<Rightarrow> Some (s\<lparr>pp_have_data := ret, pp_pc := Testing\<rparr>)
      | Testing \<Rightarrow> Some (s\<lparr>pp_pc := if pp_have_data s then At_Loop else Waiting\<rparr>)
      | Waiting \<Rightarrow> if \<not> pp_have_data s \<and> pp_running s then None else Some (s\<lparr>pp_pc := At_Loop\<rparr>)
      | Ended \<Rightarrow> None)"

datatype pdu_label = Push u16 | Notify | Thread | Stop_Pdus

definition pdu_step :: "'q pdu_queue_lib \<Rightarrow> pdu_label \<Rightarrow> 'q pdu_process \<Rightarrow> 'q pdu_process option" where
  "pdu_step L l s =
     (case l of
        Push k \<Rightarrow> (case omap_get (pp_queues s) k of
                     None \<Rightarrow> None
                   | Some q \<Rightarrow> Some (s\<lparr>pp_queues := omap_set k (pq_push L q) (pp_queues s), pp_to_notify := pp_to_notify s + 1\<rparr>))
      | Notify \<Rightarrow> if pp_to_notify s = 0 then None else Some ((pdu_notify s)\<lparr>pp_to_notify := pp_to_notify s - 1\<rparr>)
      | Thread \<Rightarrow> pdu_thread_step L s
      | Stop_Pdus \<Rightarrow> Some (pdu_stop s))"

definition pdu_steps :: "'q pdu_queue_lib \<Rightarrow> pdu_label list \<Rightarrow> 'q pdu_process \<Rightarrow> 'q pdu_process option" where
  "pdu_steps L ls s = foldM (pdu_step L) ls s"

section \<open>When the thread waits\<close>

definition waiting_pdus :: "'q pdu_queue_lib \<Rightarrow> 'q pdu_process \<Rightarrow> u16 \<Rightarrow> bool" where
  "waiting_pdus L s k \<longleftrightarrow> (\<exists>q. omap_get (pp_queues s) k = Some q \<and> \<not> pq_empty L q)"

fun draining :: "pdu_pc \<Rightarrow> bool" where
  "draining (Processing ks ret) = True"
| "draining (Storing ret) = True"
| "draining _ = False"

text \<open>No notification falls between the start of a pass over the users and the store of its result.\<close>

primrec notified_outside :: "'q pdu_queue_lib \<Rightarrow> pdu_label list \<Rightarrow> 'q pdu_process \<Rightarrow> bool" where
  "notified_outside L [] s = True"
| "notified_outside L (l # ls) s =
     ((l = Notify \<longrightarrow> \<not> draining (pp_pc s)) \<and>
      (case pdu_step L l s of None \<Rightarrow> True | Some s' \<Rightarrow> notified_outside L ls s'))"

text \<open>For each user with PDUs something is still to come that makes the thread look at them.\<close>

fun looks :: "pdu_pc \<Rightarrow> bool \<Rightarrow> u16 \<Rightarrow> bool" where
  "looks At_Loop b k = True"
| "looks (Processing ks ret) b k = (k \<in> set ks)"
| "looks (Storing ret) b k = False"
| "looks Testing b k = b"
| "looks Waiting b k = b"
| "looks Ended b k = True"

definition attended :: "'q pdu_queue_lib \<Rightarrow> 'q pdu_process \<Rightarrow> bool" where
  "attended L s \<longleftrightarrow> (\<forall>k. waiting_pdus L s k \<longrightarrow> 0 < pp_to_notify s \<or> looks (pp_pc s) (pp_have_data s) k)"

lemma attended_thread:
  assumes "pdu_queue_laws L" "attended L s" "pdu_thread_step L s = Some s'"
  shows "attended L s'"
proof (cases "\<exists>k ks ret. pp_pc s = Processing (k # ks) ret")
  case True
  then obtain k ks ret where pc: "pp_pc s = Processing (k # ks) ret" by blast
  obtain ret' t where t: "process_pdus_step L k ret s = (ret', t)" by (metis surj_pair)
  have s': "s' = t\<lparr>pp_pc := Processing ks ret'\<rparr>" using assms(3) pc t by (simp add: pdu_thread_step_def)
  have n: "pp_to_notify t = pp_to_notify s" using t by (auto simp: process_pdus_step_def split: option.splits prod.splits)
  have "waiting_pdus L t j \<Longrightarrow> waiting_pdus L s j \<and> j \<noteq> k" for j
  proof (cases "omap_get (pp_queues s) k")
    case None
    then have "t = s" using t by (simp add: process_pdus_step_def)
    then show "waiting_pdus L t j \<Longrightarrow> waiting_pdus L s j \<and> j \<noteq> k" using None by (auto simp: waiting_pdus_def)
  next
    case (Some q)
    then have "pp_queues t = omap_set k (snd (pq_process L q)) (pp_queues s)"
      using t by (auto simp: process_pdus_step_def ue_process_pdus_def split: prod.splits)
    moreover have "pq_empty L (snd (pq_process L q))" using assms(1) by (simp add: pdu_queue_laws_def)
    ultimately show "waiting_pdus L t j \<Longrightarrow> waiting_pdus L s j \<and> j \<noteq> k"
      by (auto simp: waiting_pdus_def omap_get_set split: if_splits)
  qed
  then show ?thesis using assms(2) pc n by (auto simp: attended_def s' waiting_pdus_def)
next
  case False
  have keys: "waiting_pdus L s k \<Longrightarrow> k \<in> fst ` set (pp_queues s)" for k
    unfolding waiting_pdus_def by (metis fst_conv image_eqI map_of_SomeD)
  show ?thesis
    using assms(2,3) False keys unfolding attended_def
    by (cases "pp_pc s") (auto simp: pdu_thread_step_def waiting_pdus_def neq_Nil_conv split: if_splits list.splits)
qed

lemma attended_step:
  assumes "pdu_queue_laws L" "attended L s" "pdu_step L l s = Some s'" "l = Notify \<longrightarrow> \<not> draining (pp_pc s)"
  shows "attended L s'"
proof (cases l)
  case (Push k)
  then have "0 < pp_to_notify s'" using assms(3) by (auto simp: pdu_step_def split: option.splits)
  then show ?thesis by (simp add: attended_def)
next
  case Notify
  then have "s' = s\<lparr>pp_have_data := True, pp_to_notify := pp_to_notify s - 1\<rparr>" "\<not> draining (pp_pc s)"
    using assms(3,4) by (auto simp: pdu_step_def pdu_notify_def split: if_splits)
  then show ?thesis by (cases "pp_pc s") (simp_all add: attended_def)
next
  case Thread
  then show ?thesis using attended_thread[OF assms(1,2)] assms(3) by (simp add: pdu_step_def)
next
  case Stop_Pdus
  then have "s' = s\<lparr>pp_running := False\<rparr>" using assms(3) by (simp add: pdu_step_def pdu_stop_def)
  then show ?thesis using assms(2) by (simp add: attended_def waiting_pdus_def)
qed

lemma attended_steps:
  assumes "pdu_queue_laws L" "attended L s" "pdu_steps L ls s = Some s'" "notified_outside L ls s"
  shows "attended L s'"
  using assms(2-4)
proof (induction ls arbitrary: s)
  case (Cons l ls)
  then obtain t where "pdu_step L l s = Some t" "pdu_steps L ls t = Some s'" by (auto simp: pdu_steps_def bind_eq_Some_conv)
  then show ?case using Cons attended_step[OF assms(1)] by auto
qed (simp add: pdu_steps_def)

section \<open>Properties\<close>

text \<open>C26: As long as no notification falls into a pass over the users, the thread waits only when every queue is empty or a
  call that has pushed a PDU is still about to notify it, whatever the interleaving.\<close>

theorem pdu_thread_waits_when_drained:
  assumes "pdu_queue_laws L" "pdu_steps L ls (pdu_run_start (pdu_process_new qs)) = Some s"
    "notified_outside L ls (pdu_run_start (pdu_process_new qs))" "pp_pc s = Waiting" "pdu_thread_step L s = None"
    "pp_to_notify s = 0" "omap_get (pp_queues s) k = Some q"
  shows "pq_empty L q"
proof -
  have "attended L (pdu_run_start (pdu_process_new qs))" by (simp add: attended_def pdu_run_start_def)
  then have "attended L s" using attended_steps[OF assms(1) _ assms(2,3)] by blast
  then show ?thesis using assms(4-7) by (auto simp: attended_def waiting_pdus_def pdu_thread_step_def split: if_splits)
qed

text \<open>C40: A notification that comes after the pass over the users and before its result is stored is lost: the store, made
  without the mutex, overwrites it, and the thread waits with the PDU in its queue.\<close>

theorem pdu_notification_lost:
  assumes "pp_pc s = Storing False" "pp_running s" "pp_to_notify s = 1" "omap_get (pp_queues s) k = Some q" "\<not> pq_empty L q"
  shows "\<exists>s'. pdu_steps L [Notify, Thread, Thread] s = Some s' \<and> pp_pc s' = Waiting \<and> pdu_thread_step L s' = None \<and>
    pp_to_notify s' = 0 \<and> omap_get (pp_queues s') k = Some q \<and> \<not> pq_empty L q"
  using assms by (simp add: pdu_steps_def pdu_step_def pdu_thread_step_def pdu_notify_def)

section \<open>Witnesses\<close>

definition demo_queue_lib :: "nat pdu_queue_lib" where
  "demo_queue_lib = \<lparr>pq_process = (\<lambda>n. (n \<noteq> 0, 0)), pq_push = Suc, pq_empty = (\<lambda>n. n = 0)\<rparr>"

definition demo_pdus :: "nat pdu_process" where
  "demo_pdus = pdu_run_start (pdu_process_new [(70, 0), (71, 0)])"

lemma demo_queue_laws: "pdu_queue_laws demo_queue_lib"
  by (simp add: pdu_queue_laws_def demo_queue_lib_def)

definition demo_wait :: "pdu_label list" where
  "demo_wait = [Push 71, Notify] @ replicate 12 Thread"

definition demo_late :: "pdu_label list" where
  "demo_late = [Thread, Thread, Push 70, Thread, Thread]"

lemma demo_waits:
  "map_option (\<lambda>s. (pp_pc s, pp_have_data s, pp_running s, pp_to_notify s, pp_queues s)) (pdu_steps demo_queue_lib demo_wait demo_pdus) =
     Some (Waiting, False, True, 0, [(70, 0), (71, 0)])"
  "notified_outside demo_queue_lib demo_wait demo_pdus"
  "map_option (\<lambda>s. (pp_pc s, pp_running s, pp_to_notify s, pp_queues s)) (pdu_steps demo_queue_lib demo_late demo_pdus) =
     Some (Storing False, True, 1, [(70, 1), (71, 0)])"
  by code_simp+

theorem pdu_thread_waits_when_drained_witness:
  "\<exists>s. pdu_steps demo_queue_lib demo_wait demo_pdus = Some s \<and> pp_pc s = Waiting \<and> pdu_thread_step demo_queue_lib s = None \<and>
     (\<forall>q. omap_get (pp_queues s) 71 = Some q \<longrightarrow> pq_empty demo_queue_lib q)"
proof -
  obtain s where s: "pdu_steps demo_queue_lib demo_wait demo_pdus = Some s" "pp_pc s = Waiting" "\<not> pp_have_data s" "pp_running s"
      "pp_to_notify s = 0" using demo_waits(1) by auto
  then have "pdu_thread_step demo_queue_lib s = None" by (simp add: pdu_thread_step_def)
  then show ?thesis
    using s pdu_thread_waits_when_drained[OF demo_queue_laws s(1)[unfolded demo_pdus_def] demo_waits(2)[unfolded demo_pdus_def] s(2)] by blast
qed

theorem pdu_notification_lost_witness:
  "\<exists>s s'. pdu_steps demo_queue_lib demo_late demo_pdus = Some s \<and> pdu_steps demo_queue_lib [Notify, Thread, Thread] s = Some s' \<and>
     pdu_thread_step demo_queue_lib s' = None \<and> omap_get (pp_queues s') 70 = Some 1"
proof -
  obtain s where s: "pdu_steps demo_queue_lib demo_late demo_pdus = Some s" "pp_pc s = Storing False" "pp_running s"
      "pp_to_notify s = 1" "pp_queues s = [(70, 1), (71, 0)]" using demo_waits(3) by auto
  then have "omap_get (pp_queues s) 70 = Some 1" "\<not> pq_empty demo_queue_lib 1" by (simp_all add: demo_queue_lib_def)
  then show ?thesis using pdu_notification_lost[OF s(2-4), of 70 1 demo_queue_lib] s(1) by blast
qed

end
