(* ===== verification/Upper_Types.thy ===== *)
theory Upper_Types
  imports Mac_UE
begin

text \<open>
  What the layers above the MAC share: the bearers (\<open>upper/common_enb.h\<close>), buffers of bytes, and
  the contract of a table of users, which RLC, PDCP and RRC each keep. Structures of the library
  that the code only copies are represented by their bytes.
\<close>

lemma foldM_Nil [simp]: "foldM f [] = Some"
  by (simp add: fun_eq_iff)

section \<open>Bearers\<close>

definition SRSENB_N_SRB :: nat where
  "SRSENB_N_SRB = 3"

definition SRSENB_N_RADIO_BEARERS :: nat where
  "SRSENB_N_RADIO_BEARERS = 11"

abbreviation (input) RB_ID_SRB0 :: u32 where
  "RB_ID_SRB0 \<equiv> 0"

abbreviation (input) RB_ID_SRB1 :: u32 where
  "RB_ID_SRB1 \<equiv> 1"

abbreviation (input) RB_ID_SRB2 :: u32 where
  "RB_ID_SRB2 \<equiv> 2"

section \<open>Buffers\<close>

type_synonym blob = "u8 list"

text \<open>The length member is set by hand in the code, so it need not be the length of the contents.\<close>

record byte_buffer =
  bb_n_bytes :: u32
  bb_msg :: "u8 list"

definition buffer :: "u8 list \<Rightarrow> byte_buffer" where
  "buffer bytes = \<lparr>bb_n_bytes = of_nat (length bytes), bb_msg = bytes\<rparr>"

section \<open>Tables of users\<close>

text \<open>
  The contract of a table of users: which users it holds after one is added and after one is
  removed. Layers whose tables keep it and that see the same sequence of additions and removals
  hold the same users.
\<close>

datatype table_op = Add_User u16 | Rem_User u16

locale user_table =
  fixes users :: "'s \<Rightarrow> u16 set"
    and add :: "u16 \<Rightarrow> 's \<Rightarrow> 's"
    and rem :: "u16 \<Rightarrow> 's \<Rightarrow> 's"
  assumes users_add: "users (add k s) = insert k (users s)"
    and users_rem: "users (rem k s) = users s - {k}"
begin

definition run_op :: "table_op \<Rightarrow> 's \<Rightarrow> 's" where
  "run_op op s = (case op of Add_User k \<Rightarrow> add k s | Rem_User k \<Rightarrow> rem k s)"

definition run_ops :: "table_op list \<Rightarrow> 's \<Rightarrow> 's" where
  "run_ops ops s = fold run_op ops s"

lemma users_add_rem: "users (rem k (add k s)) = users s - {k}"
  by (simp add: users_add users_rem)

lemma users_run_op:
  "users (run_op op s) = (case op of Add_User k \<Rightarrow> insert k (users s) | Rem_User k \<Rightarrow> users s - {k})"
  by (simp add: run_op_def users_add users_rem split: table_op.splits)

lemma users_run_ops:
  "users (run_ops ops s) = fold (\<lambda>op A. case op of Add_User k \<Rightarrow> insert k A | Rem_User k \<Rightarrow> A - {k}) ops (users s)"
  by (induction ops arbitrary: s) (simp_all add: run_ops_def users_run_op)

end

text \<open>Two tables that see the same operations hold the same users.\<close>

locale two_tables = a: user_table users1 add1 rem1 + b: user_table users2 add2 rem2
  for users1 :: "'s \<Rightarrow> u16 set" and add1 rem1
    and users2 :: "'t \<Rightarrow> u16 set" and add2 rem2
begin

lemma agree:
  assumes "users1 s = users2 t"
  shows "users1 (a.run_ops ops s) = users2 (b.run_ops ops t)"
  by (simp add: assms a.users_run_ops b.users_run_ops)

end

end
