(* ===== verification/Pdcp.thy ===== *)
theory Pdcp
  imports Upper_Types
begin

text \<open>
  The PDCP layer of the base station (\<open>upper/pdcp.h\<close>, \<open>upper/pdcp.cc\<close>): a table with one PDCP
  entity of the srsLTE library for each user, which talks to RLC, GTP-U and RRC through three
  interface objects that carry the user's RNTI. The entity is a parameter as in \<open>Rlc\<close>; its calls
  into the three objects are in the results of its functions, and the answer to its question
  whether a bearer is unacknowledged is an argument.
\<close>

section \<open>The PDCP entity of the library\<close>

record pdcp_config =
  pc_is_control :: bool
  pc_is_data :: bool
  pc_downlink :: bool
  pc_sn_len :: u8

datatype pdcp_out =
    Out_Rlc_Write_Sdu u32 byte_buffer
  | Out_Gtpu_Write_Pdu u32 byte_buffer
  | Out_Rrc_Write_Pdu u32 byte_buffer
  | Out_Rrc_Bcch_Bch byte_buffer
  | Out_Rrc_Bcch_Dlsch byte_buffer
  | Out_Rrc_Pcch byte_buffer

record 'p pdcp_lib =
  pl_config_default :: pdcp_config
  pl_config_of :: "blob \<Rightarrow> pdcp_config"
  pl_init :: 'p
  pl_add_bearer :: "(u32 \<Rightarrow> bool) \<Rightarrow> u32 \<Rightarrow> pdcp_config \<Rightarrow> 'p \<Rightarrow> 'p"
  pl_add_bearer_mrb :: "(u32 \<Rightarrow> bool) \<Rightarrow> u32 \<Rightarrow> pdcp_config \<Rightarrow> 'p \<Rightarrow> 'p"
  pl_reset :: "'p \<Rightarrow> 'p"
  pl_config_security :: "u32 \<Rightarrow> u8 list \<Rightarrow> u8 list \<Rightarrow> u32 \<Rightarrow> u32 \<Rightarrow> 'p \<Rightarrow> 'p"
  pl_enable_integrity :: "u32 \<Rightarrow> 'p \<Rightarrow> 'p"
  pl_enable_encryption :: "u32 \<Rightarrow> 'p \<Rightarrow> 'p"
  pl_write_pdu :: "(u32 \<Rightarrow> bool) \<Rightarrow> u32 \<Rightarrow> byte_buffer \<Rightarrow> 'p \<Rightarrow> pdcp_out list \<times> 'p"
  pl_write_sdu :: "(u32 \<Rightarrow> bool) \<Rightarrow> u32 \<Rightarrow> byte_buffer \<Rightarrow> 'p \<Rightarrow> pdcp_out list \<times> 'p"
  pl_write_sdu_mch :: "(u32 \<Rightarrow> bool) \<Rightarrow> u32 \<Rightarrow> byte_buffer \<Rightarrow> 'p \<Rightarrow> pdcp_out list \<times> 'p"

section \<open>State\<close>

text \<open>The RNTI is kept three times, once in each interface object.\<close>

record 'p pdcp_user =
  pu_rlc_itf :: u16
  pu_gtpu_itf :: u16
  pu_rrc_itf :: u16
  pu_pdcp :: 'p

type_synonym 'p pdcp = "(u16, 'p pdcp_user) omap"

datatype pdcp_call =
    Rlc_Write_Sdu u16 u32 byte_buffer
  | Gtpu_Write_Pdu u16 u32 byte_buffer
  | Rrc_Write_Pdu u16 u32 byte_buffer
  | Pdcp_Pool_Deallocate byte_buffer

definition pdcp_users :: "'p pdcp \<Rightarrow> u16 set" where
  "pdcp_users s = {k. omap_get s k \<noteq> None}"

section \<open>The interface objects\<close>

definition itf_rlc_write_sdu :: "'p pdcp_user \<Rightarrow> u32 \<Rightarrow> byte_buffer \<Rightarrow> pdcp_call list" where
  "itf_rlc_write_sdu u lcid sdu = [Rlc_Write_Sdu (pu_rlc_itf u) lcid sdu]"

definition itf_rlc_rb_is_um :: "(u16 \<Rightarrow> u32 \<Rightarrow> bool) \<Rightarrow> 'p pdcp_user \<Rightarrow> u32 \<Rightarrow> bool" where
  "itf_rlc_rb_is_um rb_is_um u lcid = rb_is_um (pu_rlc_itf u) lcid"

definition itf_gtpu_write_pdu :: "'p pdcp_user \<Rightarrow> u32 \<Rightarrow> byte_buffer \<Rightarrow> pdcp_call list" where
  "itf_gtpu_write_pdu u lcid pdu = [Gtpu_Write_Pdu (pu_gtpu_itf u) lcid pdu]"

definition itf_rrc_write_pdu :: "'p pdcp_user \<Rightarrow> u32 \<Rightarrow> byte_buffer \<Rightarrow> pdcp_call list" where
  "itf_rrc_write_pdu u lcid pdu = [Rrc_Write_Pdu (pu_rrc_itf u) lcid pdu]"

text \<open>Broadcast and paging PDUs of a user are only reported on the console.\<close>

definition pdcp_outs :: "'p pdcp_user \<Rightarrow> pdcp_out list \<Rightarrow> pdcp_call list" where
  "pdcp_outs u outs = concat (map (\<lambda>e. case e of
       Out_Rlc_Write_Sdu lcid sdu \<Rightarrow> itf_rlc_write_sdu u lcid sdu
     | Out_Gtpu_Write_Pdu lcid pdu \<Rightarrow> itf_gtpu_write_pdu u lcid pdu
     | Out_Rrc_Write_Pdu lcid pdu \<Rightarrow> itf_rrc_write_pdu u lcid pdu
     | _ \<Rightarrow> []) outs)"

section \<open>Users\<close>

definition pdcp_add_user :: "'p pdcp_lib \<Rightarrow> u16 \<Rightarrow> 'p pdcp \<Rightarrow> 'p pdcp" where
  "pdcp_add_user P rnti s =
     (if omap_get s rnti = None
      then omap_set rnti \<lparr>pu_rlc_itf = rnti, pu_gtpu_itf = rnti, pu_rrc_itf = rnti, pu_pdcp = pl_init P\<rparr> s
      else s)"

definition pdcp_rem_user :: "u16 \<Rightarrow> 'p pdcp \<Rightarrow> 'p pdcp" where
  "pdcp_rem_user rnti s = (if omap_get s rnti \<noteq> None then omap_del rnti s else s)"

definition pdcp_stop :: "'p pdcp \<Rightarrow> 'p pdcp" where
  "pdcp_stop s = []"

definition on_pdcp :: "u16 \<Rightarrow> ('p pdcp_user \<Rightarrow> 'p) \<Rightarrow> 'p pdcp \<Rightarrow> 'p pdcp" where
  "on_pdcp rnti f s =
     (case omap_get s rnti of None \<Rightarrow> s | Some u \<Rightarrow> omap_set rnti (u\<lparr>pu_pdcp := f u\<rparr>) s)"

definition pdcp_add_bearer ::
  "'p pdcp_lib \<Rightarrow> mac_lib \<Rightarrow> (u16 \<Rightarrow> u32 \<Rightarrow> bool) \<Rightarrow> u16 \<Rightarrow> u32 \<Rightarrow> pdcp_config \<Rightarrow> 'p pdcp \<Rightarrow> 'p pdcp" where
  "pdcp_add_bearer P L um rnti lcid cfg s = on_pdcp rnti (\<lambda>u.
     if rnti \<noteq> SRSLTE_MRNTI L then pl_add_bearer P (itf_rlc_rb_is_um um u) lcid cfg (pu_pdcp u)
     else pl_add_bearer_mrb P (itf_rlc_rb_is_um um u) lcid cfg (pu_pdcp u)) s"

definition pdcp_reset :: "'p pdcp_lib \<Rightarrow> u16 \<Rightarrow> 'p pdcp \<Rightarrow> 'p pdcp" where
  "pdcp_reset P rnti s = on_pdcp rnti (\<lambda>u. pl_reset P (pu_pdcp u)) s"

definition pdcp_config_security ::
  "'p pdcp_lib \<Rightarrow> u16 \<Rightarrow> u32 \<Rightarrow> u8 list \<Rightarrow> u8 list \<Rightarrow> u32 \<Rightarrow> u32 \<Rightarrow> 'p pdcp \<Rightarrow> 'p pdcp" where
  "pdcp_config_security P rnti lcid k_rrc_enc k_rrc_int cipher_algo integ_algo s =
     on_pdcp rnti (\<lambda>u. pl_enable_encryption P lcid (pl_enable_integrity P lcid
       (pl_config_security P lcid k_rrc_enc k_rrc_int cipher_algo integ_algo (pu_pdcp u)))) s"

section \<open>Data\<close>

definition pdcp_write_pdu ::
  "'p pdcp_lib \<Rightarrow> (u16 \<Rightarrow> u32 \<Rightarrow> bool) \<Rightarrow> u16 \<Rightarrow> u32 \<Rightarrow> byte_buffer \<Rightarrow> 'p pdcp \<Rightarrow> 'p pdcp \<times> pdcp_call list" where
  "pdcp_write_pdu P um rnti lcid sdu s =
     (case omap_get s rnti of
        None \<Rightarrow> (s, [Pdcp_Pool_Deallocate sdu])
      | Some u \<Rightarrow>
          let (outs, p) = pl_write_pdu P (itf_rlc_rb_is_um um u) lcid sdu (pu_pdcp u)
          in (omap_set rnti (u\<lparr>pu_pdcp := p\<rparr>) s, pdcp_outs u outs))"

definition pdcp_write_sdu ::
  "'p pdcp_lib \<Rightarrow> mac_lib \<Rightarrow> (u16 \<Rightarrow> u32 \<Rightarrow> bool) \<Rightarrow> u16 \<Rightarrow> u32 \<Rightarrow> byte_buffer \<Rightarrow> 'p pdcp \<Rightarrow>
   'p pdcp \<times> pdcp_call list" where
  "pdcp_write_sdu P L um rnti lcid sdu s =
     (case omap_get s rnti of
        None \<Rightarrow> (s, [Pdcp_Pool_Deallocate sdu])
      | Some u \<Rightarrow>
          let (outs, p) = (if rnti \<noteq> SRSLTE_MRNTI L
                           then pl_write_sdu P (itf_rlc_rb_is_um um u) lcid sdu (pu_pdcp u)
                           else pl_write_sdu_mch P (itf_rlc_rb_is_um um u) lcid sdu (pu_pdcp u))
          in (omap_set rnti (u\<lparr>pu_pdcp := p\<rparr>) s, pdcp_outs u outs))"

section \<open>The table keeps the contract\<close>

lemma pdcp_users_add: "pdcp_users (pdcp_add_user P k s) = insert k (pdcp_users s)"
  by (auto simp: pdcp_users_def pdcp_add_user_def om.look_put)

lemma pdcp_users_rem: "pdcp_users (pdcp_rem_user k s) = pdcp_users s - {k}"
  by (auto simp: pdcp_users_def pdcp_rem_user_def om.look_del)

interpretation pdcp_tbl: user_table pdcp_users "pdcp_add_user P" pdcp_rem_user for P :: "'p pdcp_lib"
  by unfold_locales (simp_all add: pdcp_users_add pdcp_users_rem)

lemma pdcp_users_on_pdcp [simp]: "pdcp_users (on_pdcp k f s) = pdcp_users s"
  by (auto simp: pdcp_users_def on_pdcp_def om.look_put split: option.splits)

text \<open>The three copies of the RNTI are the key of the user.\<close>

definition pdcp_own :: "'p pdcp \<Rightarrow> bool" where
  "pdcp_own s \<longleftrightarrow> (\<forall>k u. omap_get s k = Some u \<longrightarrow> pu_rlc_itf u = k \<and> pu_gtpu_itf u = k \<and> pu_rrc_itf u = k)"

lemma pdcp_own_put:
  "pdcp_own s \<Longrightarrow> pu_rlc_itf u = k \<Longrightarrow> pu_gtpu_itf u = k \<Longrightarrow> pu_rrc_itf u = k \<Longrightarrow> pdcp_own (omap_set k u s)"
  by (simp add: pdcp_own_def om.look_put)

lemma pdcp_own_add: "pdcp_own s \<Longrightarrow> pdcp_own (pdcp_add_user P k s)"
  by (simp add: pdcp_add_user_def pdcp_own_put)

lemma pdcp_own_rem: "pdcp_own s \<Longrightarrow> pdcp_own (pdcp_rem_user k s)"
  by (simp add: pdcp_rem_user_def pdcp_own_def om.look_del)

lemma pdcp_own_on_pdcp: "pdcp_own s \<Longrightarrow> pdcp_own (on_pdcp k f s)"
  by (auto simp: on_pdcp_def pdcp_own_def om.look_put split: option.splits)

end
