(* ===== verification/Gtpu.thy ===== *)
theory Gtpu
  imports Upper_Types
begin

text \<open>
  The GTP-U layer (\<open>upper/gtpu.h\<close>, \<open>upper/gtpu.cc\<close>): the end points of the tunnels to the serving
  gateway. Its header codec and constants are the library's and a parameter; the sockets are seen
  as the datagrams received and sent. Addresses and ports are given in host byte order. The waits
  for a free buffer are left out: a buffer is there when it is asked for.
\<close>

section \<open>What the code takes from the library\<close>

text \<open>Members of a header the code does not set before it writes the header are \<open>None\<close>.\<close>

record gtpu_header =
  gh_flags :: u8
  gh_message_type :: u8
  gh_length :: u32
  gh_teid :: u32
  gh_seq_number :: "u16 option"
  gh_n_pdu :: "u8 option"
  gh_next_ext_hdr_type :: "u8 option"

record gtpu_lib =
  GTPU_FLAGS_VERSION_V1 :: u8
  GTPU_FLAGS_GTP_PROTOCOL :: u8
  GTPU_FLAGS_SEQUENCE :: u8
  GTPU_MSG_ECHO_REQUEST :: u8
  GTPU_MSG_ECHO_RESPONSE :: u8
  GTPU_MSG_DATA_PDU :: u8
  gtpu_write_header :: "gtpu_header \<Rightarrow> byte_buffer \<Rightarrow> byte_buffer option"
  gtpu_read_header :: "byte_buffer \<Rightarrow> (gtpu_header \<times> byte_buffer) option"

section \<open>State\<close>

definition GTPU_PORT :: u16 where
  "GTPU_PORT = 2152"

record bearer_map =
  bm_teids_in :: "u32 list"
  bm_teids_out :: "u32 list"
  bm_spgw_addrs :: "u32 list"

definition bearer_map_zero :: bearer_map where
  "bearer_map_zero = \<lparr>bm_teids_in = replicate SRSENB_N_RADIO_BEARERS 0,
     bm_teids_out = replicate SRSENB_N_RADIO_BEARERS 0, bm_spgw_addrs = replicate SRSENB_N_RADIO_BEARERS 0\<rparr>"

record mch_thread =
  mh_initiated :: bool
  mh_running :: bool
  mh_run_enable :: bool
  mh_m1u_sd :: int
  mh_lcid_counter :: int

record gtpu =
  gt_running :: bool
  gt_run_enable :: bool
  gt_enable_mbsfn :: bool
  gt_fd :: int
  gt_rnti_bearers :: "(u16, bearer_map) omap"
  gt_mchthread :: mch_thread

datatype gtpu_call =
    Send_To u32 u16 byte_buffer
  | Pdcp_Write_Sdu u16 u32 byte_buffer
  | Gtpu_Pool_Deallocate byte_buffer
  | Thread_Start
  | Thread_Cancel
  | Mch_Thread_Start
  | Mch_Thread_Cancel
  | Socket_Close int

text \<open>\<open>rnti_bearers[rnti]\<close> adds an entry of zeros where the map has none.\<close>

definition bearers :: "u16 \<Rightarrow> gtpu \<Rightarrow> bearer_map" where
  "bearers rnti g = (case omap_get (gt_rnti_bearers g) rnti of None \<Rightarrow> bearer_map_zero | Some m \<Rightarrow> m)"

definition put_bearers :: "u16 \<Rightarrow> bearer_map \<Rightarrow> gtpu \<Rightarrow> gtpu" where
  "put_bearers rnti m g = g\<lparr>gt_rnti_bearers := omap_set rnti m (gt_rnti_bearers g)\<rparr>"

section \<open>Tunnel end point identifiers\<close>

definition teidin_to_rntilcid :: "u32 \<Rightarrow> u16 \<times> u16" where
  "teidin_to_rntilcid teidin = (ucast (drop_bit 16 teidin AND 0xFFFF), ucast (teidin AND 0xFFFF))"

definition rntilcid_to_teidin :: "u16 \<Rightarrow> u16 \<Rightarrow> u32" where
  "rntilcid_to_teidin rnti lcid = push_bit 16 (ucast rnti) OR ucast lcid"

section \<open>Start and stop\<close>

text \<open>
  The results of the system calls are arguments: the descriptor of the socket and whether it could
  be bound, and the same for the multicast socket, with whether it could join its group.
\<close>

definition mch_thread_init :: "int \<Rightarrow> bool \<Rightarrow> bool \<Rightarrow> mch_thread \<Rightarrow> bool \<times> mch_thread \<times> gtpu_call list" where
  "mch_thread_init sd bound joined t =
     (let t = t\<lparr>mh_m1u_sd := sd\<rparr> in
      if sd < 0 then (False, t, [])
      else if \<not> bound then (False, t, [])
      else if \<not> joined then (False, t, [])
      else (True, t\<lparr>mh_initiated := True, mh_lcid_counter := 1\<rparr>, [Mch_Thread_Start]))"

definition gtpu_init ::
  "int \<Rightarrow> bool \<Rightarrow> int \<Rightarrow> bool \<Rightarrow> bool \<Rightarrow> bool \<Rightarrow> gtpu \<Rightarrow> bool \<times> gtpu \<times> gtpu_call list" where
  "gtpu_init fd bound sd mbound joined enable_mbsfn g =
     (let g = g\<lparr>gt_fd := fd\<rparr> in
      if fd < 0 then (False, g, [])
      else if \<not> bound then (False, g, [])
      else
        let g = g\<lparr>gt_enable_mbsfn := enable_mbsfn\<rparr> in
        if enable_mbsfn then
          let (_, t, cs) = mch_thread_init sd mbound joined (gt_mchthread g)
          in (True, g\<lparr>gt_mchthread := t\<rparr>, Thread_Start # cs)
        else (True, g, [Thread_Start]))"

text \<open>
  A thread that is told to end is waited for at most 100 times; \<open>alive n\<close> tells whether it still runs
  at the \<open>n\<close>-th of the at most 102 reads of its flag. It is cancelled if it runs at the last one.
\<close>

definition still_running :: "(nat \<Rightarrow> bool) \<Rightarrow> bool" where
  "still_running alive \<longleftrightarrow> (\<forall>n \<in> set [0..<102]. alive n)"

definition mch_thread_stop :: "(nat \<Rightarrow> bool) \<Rightarrow> mch_thread \<Rightarrow> mch_thread \<times> gtpu_call list" where
  "mch_thread_stop alive t =
     (if mh_run_enable t
      then (t\<lparr>mh_run_enable := False\<rparr>, if still_running alive then [Mch_Thread_Cancel] else [])
      else (t, []))"

definition gtpu_stop :: "(nat \<Rightarrow> bool) \<Rightarrow> (nat \<Rightarrow> bool) \<Rightarrow> gtpu \<Rightarrow> gtpu \<times> gtpu_call list" where
  "gtpu_stop mch_alive alive g =
     (let (t, cs) = (if gt_enable_mbsfn g then mch_thread_stop mch_alive (gt_mchthread g) else (gt_mchthread g, []));
          g = g\<lparr>gt_mchthread := t\<rparr>;
          (g, cs) = (if gt_run_enable g
                     then (g\<lparr>gt_run_enable := False\<rparr>, cs @ (if still_running alive then [Thread_Cancel] else []))
                     else (g, cs))
      in (g, cs @ (if gt_fd g \<noteq> 0 then [Socket_Close (gt_fd g)] else [])))"

section \<open>Bearers\<close>

text \<open>The identifier of the incoming tunnel keeps 16 bits of the \<open>uint32_t\<close> channel number.\<close>

definition gtpu_add_bearer :: "u16 \<Rightarrow> u32 \<Rightarrow> u32 \<Rightarrow> u32 \<Rightarrow> gtpu \<Rightarrow> (u32 \<times> gtpu) option" where
  "gtpu_add_bearer rnti lcid addr teid_out g = do {
     let teid_in = rntilcid_to_teidin rnti (ucast lcid);
     let m = bearers rnti g;
     tin \<leftarrow> wr (bm_teids_in m) (unat lcid) teid_in;
     tout \<leftarrow> wr (bm_teids_out m) (unat lcid) teid_out;
     addrs \<leftarrow> wr (bm_spgw_addrs m) (unat lcid) addr;
     Some (teid_in, put_bearers rnti \<lparr>bm_teids_in = tin, bm_teids_out = tout, bm_spgw_addrs = addrs\<rparr> g)
   }"

definition gtpu_rem_bearer :: "u16 \<Rightarrow> u32 \<Rightarrow> gtpu \<Rightarrow> gtpu option" where
  "gtpu_rem_bearer rnti lcid g = do {
     let m = bearers rnti g;
     tin \<leftarrow> wr (bm_teids_in m) (unat lcid) 0;
     tout \<leftarrow> wr (bm_teids_out m) (unat lcid) 0;
     let g = put_bearers rnti (m\<lparr>bm_teids_in := tin, bm_teids_out := tout\<rparr>) g;
     used \<leftarrow> foldM (\<lambda>i used. do { t \<leftarrow> rd tin i; Some (used \<or> t \<noteq> 0) }) [0..<SRSENB_N_RADIO_BEARERS] False;
     Some (if \<not> used then g\<lparr>gt_rnti_bearers := omap_del rnti (gt_rnti_bearers g)\<rparr> else g)
   }"

definition gtpu_rem_user :: "u16 \<Rightarrow> gtpu \<Rightarrow> gtpu" where
  "gtpu_rem_user rnti g = g\<lparr>gt_rnti_bearers := omap_del rnti (gt_rnti_bearers g)\<rparr>"

section \<open>Sending\<close>

text \<open>When the header cannot be written the buffer is not given back to the pool.\<close>

definition gtpu_write_pdu ::
  "gtpu_lib \<Rightarrow> u16 \<Rightarrow> u32 \<Rightarrow> byte_buffer \<Rightarrow> gtpu \<Rightarrow> (gtpu \<times> gtpu_call list) option" where
  "gtpu_write_pdu T rnti lcid pdu g = do {
     let m = bearers rnti g;
     teid \<leftarrow> rd (bm_teids_out m) (unat lcid);
     addr \<leftarrow> rd (bm_spgw_addrs m) (unat lcid);
     let g = put_bearers rnti m g;
     let header = \<lparr>gh_flags = GTPU_FLAGS_VERSION_V1 T OR GTPU_FLAGS_GTP_PROTOCOL T,
       gh_message_type = GTPU_MSG_DATA_PDU T, gh_length = bb_n_bytes pdu, gh_teid = teid,
       gh_seq_number = None, gh_n_pdu = None, gh_next_ext_hdr_type = None\<rparr>;
     Some (case gtpu_write_header T header pdu of
             None \<Rightarrow> (g, [])
           | Some pdu \<Rightarrow> (g, [Send_To addr GTPU_PORT pdu, Gtpu_Pool_Deallocate pdu]))
   }"

text \<open>The response is 12 bytes long, whatever the header writer made of the buffer.\<close>

definition echo_response :: "gtpu_lib \<Rightarrow> u32 \<Rightarrow> u16 \<Rightarrow> u16 option \<Rightarrow> gtpu_call list" where
  "echo_response T addr port seq =
     (let header = \<lparr>gh_flags = GTPU_FLAGS_VERSION_V1 T OR GTPU_FLAGS_GTP_PROTOCOL T OR GTPU_FLAGS_SEQUENCE T,
            gh_message_type = GTPU_MSG_ECHO_RESPONSE T, gh_length = 4, gh_teid = 0,
            gh_seq_number = seq, gh_n_pdu = Some 0, gh_next_ext_hdr_type = Some 0\<rparr>;
          pdu = (case gtpu_write_header T header (buffer []) of None \<Rightarrow> buffer [] | Some pdu \<Rightarrow> pdu)
      in [Send_To addr port (pdu\<lparr>bb_n_bytes := 12\<rparr>), Gtpu_Pool_Deallocate pdu])"

section \<open>Receiving\<close>

text \<open>
  One round of the receiving thread: the value of \<open>recvfrom\<close> (negative on an error, which is only
  logged), the bytes in the buffer and the sender. The channel of a data PDU must be one of a data
  bearer.
\<close>

definition gtpu_rx ::
  "gtpu_lib \<Rightarrow> int \<Rightarrow> u8 list \<Rightarrow> u32 \<Rightarrow> u16 \<Rightarrow> gtpu \<Rightarrow> gtpu_call list" where
  "gtpu_rx T n msg addr port g =
     (case gtpu_read_header T \<lparr>bb_n_bytes = of_i32 n, bb_msg = msg\<rparr> of
        None \<Rightarrow> []
      | Some (header, pdu) \<Rightarrow>
          if gh_message_type header = GTPU_MSG_ECHO_REQUEST T
          then echo_response T addr port (gh_seq_number header)
          else if gh_message_type header = GTPU_MSG_DATA_PDU T then
            let (rnti, lcid) = teidin_to_rntilcid (gh_teid header) in
            if omap_get (gt_rnti_bearers g) rnti = None then []
            else if unat lcid < SRSENB_N_SRB \<or> SRSENB_N_RADIO_BEARERS \<le> unat lcid then []
            else [Pdcp_Write_Sdu rnti (ucast lcid) pdu]
          else [])"

text \<open>
  The multicast thread ignores whether the header could be read; what it receives goes to the
  channel it took from the counter when it started.
\<close>

definition mch_thread_start :: "gtpu \<Rightarrow> (u16 \<times> gtpu) option" where
  "mch_thread_start g =
     (let t = gt_mchthread g in
      if \<not> mh_initiated t then None
      else Some (word_of_int (mh_lcid_counter t),
                 g\<lparr>gt_mchthread := t\<lparr>mh_run_enable := True, mh_running := True,
                     mh_lcid_counter := mh_lcid_counter t + 1\<rparr>\<rparr>))"

definition mch_rx :: "gtpu_lib \<Rightarrow> mac_lib \<Rightarrow> u16 \<Rightarrow> int \<Rightarrow> u8 list \<Rightarrow> gtpu_call list" where
  "mch_rx T L lcid n msg =
     (let pdu = \<lparr>bb_n_bytes = of_i32 n, bb_msg = msg\<rparr>
      in [Pdcp_Write_Sdu (SRSLTE_MRNTI L) (ucast lcid)
            (case gtpu_read_header T pdu of None \<Rightarrow> pdu | Some (header, pdu) \<Rightarrow> pdu)])"

end
