(* ===== verification/Rrc_Types.thy ===== *)
theory Rrc_Types
  imports Pdcp Gtpu
begin

text \<open>
  The data of the RRC (\<open>upper/rrc.h\<close>): configuration, messages, the context of a user and the state of
  the entity. The ASN.1 codec, its tables of numbers and the key derivation are the library's and a
  parameter. An enumeration of the library is its number; a structure the code only copies is a
  \<open>blob\<close>. The members \<open>srbs\<close> and \<open>drbs\<close> of a user, which the code never uses, are left out.
\<close>

section \<open>Configuration\<close>

record rrc_cfg_sr =
  sr_period :: u32
  sr_dsr_max :: nat
  sr_nof_prb :: u32
  sr_sf_mapping :: "u32 list"
  sr_nof_subframes :: u32

datatype cqi_mode = CQI_MODE_PERIODIC | CQI_MODE_APERIODIC

record rrc_cfg_cqi =
  cq_sf_mapping :: "u32 list"
  cq_nof_subframes :: u32
  cq_nof_prb :: u32
  cq_period :: u32
  cq_simultaneousAckCQI :: bool
  cq_mode :: cqi_mode

text \<open>Of a bearer's configuration the code reads the logical channel group and whether PDCP numbers have 7 bits.\<close>

record rrc_cfg_qci =
  qc_configured :: bool
  qc_lc_cfg :: blob
  qc_log_chan_group :: int
  qc_pdcp_cfg :: blob
  qc_pdcp_sn_7_bits :: bool
  qc_rlc_cfg :: blob

definition MAX_NOF_QCI :: u32 where
  "MAX_NOF_QCI = 10"

record mac_main_cfg =
  mm_ulsch_cnfg :: blob
  mm_max_harq_tx :: nat
  mm_phr_cnfg :: blob
  mm_time_alignment_timer :: nat

record antenna_info =
  ai_tx_mode :: tx_mode
  ai_rest :: blob

definition antenna_info_zero :: antenna_info where
  "antenna_info_zero = \<lparr>ai_tx_mode = TM1, ai_rest = []\<rparr>"

text \<open>The system information: the members the code reads, and the rest.\<close>

record sib1 =
  s1_N_sched_info :: u32
  s1_sched_info :: "(nat \<times> nat list) list"
  s1_si_window_length :: nat
  s1_rest :: blob

record sib2 =
  s2_max_harq_msg3_tx :: u32
  s2_ra_resp_win_size :: nat
  s2_prach_freq_offset :: u32
  s2_default_paging_cycle :: nat
  s2_nB :: nat
  s2_delta_pucch_shift :: nat
  s2_n_cs_an :: u32
  s2_n_rb_cqi :: u32
  s2_n1_pucch_an :: u32
  s2_rest :: blob

datatype sib = Sib1 sib1 | Sib2 sib2 | Sib_Other nat blob

record rrc_cfg =
  rc_sibs :: "sib list"
  rc_mac_cnfg :: mac_main_cfg
  rc_pusch_cfg :: blob
  rc_antenna_info :: antenna_info
  rc_pdsch_cfg :: nat
  rc_sr_cfg :: rrc_cfg_sr
  rc_cqi_cfg :: rrc_cfg_cqi
  rc_qci_cfg :: "rrc_cfg_qci list"
  rc_cell :: srslte_cell
  rc_enable_mbsfn :: bool
  rc_inactivity_timeout_ms :: u32

text \<open>\<open>cfg.sibs[0].sib.sib1\<close> and \<open>cfg.sibs[1].sib.sib2\<close>: no value when the union holds something else.\<close>

definition cfg_sib1 :: "rrc_cfg \<Rightarrow> sib1 option" where
  "cfg_sib1 c = (case rd (rc_sibs c) 0 of Some (Sib1 s) \<Rightarrow> Some s | _ \<Rightarrow> None)"

definition cfg_sib2 :: "rrc_cfg \<Rightarrow> sib2 option" where
  "cfg_sib2 c = (case rd (rc_sibs c) 1 of Some (Sib2 s) \<Rightarrow> Some s | _ \<Rightarrow> None)"

text \<open>The MCCH message: allocation of subframes, services and their channels, data rate.\<close>

record mbms_session =
  ms_logicalchannelid :: u32
  ms_sessionid :: u8
  ms_mcc :: u16
  ms_mnc :: u16
  ms_serviceid :: u32

record rrc_mcch =
  mr_commonsf_allocperiod_rf :: nat
  mr_radio_fr_alloc_period_n :: nat
  mr_radio_fr_alloc_offset :: u32
  mr_subfr_alloc :: u32
  mr_mbms_sessioninfolist :: "mbms_session list"
  mr_datamcs :: u32
  mr_mch_schedulingperiod_rf :: nat
  mr_sf_alloc_end :: u32

section \<open>Messages\<close>

record sr_cnfg =
  sc_dsr_trans_max :: nat
  sc_sr_cnfg_idx :: u32
  sc_sr_pucch_resource_idx :: u32

datatype cqi_report_mode = RM30 | RM31

record cqi_periodic =
  cp_pmi_cnfg_idx :: u32
  cp_pucch_resource_idx :: u32
  cp_simult_ack_nack_and_cqi :: bool
  cp_ri_cnfg_idx :: "u32 option"

record cqi_report =
  cr_report_mode_aperiodic :: "cqi_report_mode option"
  cr_report_periodic :: "cqi_periodic option"
  cr_nom_pdsch_rs_epre_offset :: int

record ul_pwr_ctrl =
  pw_p0_ue_pusch :: int
  pw_delta_mcs_en :: bool
  pw_accumulation_en :: bool
  pw_p0_ue_pucch :: int
  pw_p_srs_offset :: u32

text \<open>An optional member of a message is \<open>None\<close> where its presence flag is not set.\<close>

record phy_cfg_ded =
  pd_pusch :: "blob option"
  pd_sched_request :: "sr_cnfg option"
  pd_antenna_info_default :: bool
  pd_antenna_info_present :: bool
  pd_antenna_info :: antenna_info
  pd_ul_pwr_ctrl :: "ul_pwr_ctrl option"
  pd_pdsch :: "nat option"
  pd_pucch_n1_an :: "u32 option"
  pd_cqi_report :: "cqi_report option"

definition phy_cfg_ded_zero :: phy_cfg_ded where
  "phy_cfg_ded_zero = \<lparr>pd_pusch = None, pd_sched_request = None, pd_antenna_info_default = False,
     pd_antenna_info_present = False, pd_antenna_info = antenna_info_zero, pd_ul_pwr_ctrl = None,
     pd_pdsch = None, pd_pucch_n1_an = None, pd_cqi_report = None\<rparr>"

record drb_to_add =
  dr_drb_id :: int
  dr_lc_id :: u32
  dr_eps_bearer_id :: u32
  dr_lc_cnfg :: blob
  dr_log_chan_group :: int
  dr_pdcp_cnfg :: blob
  dr_pdcp_sn_7_bits :: bool
  dr_rlc_cnfg :: blob

record mac_main_msg =
  mg_ulsch_cnfg :: blob
  mg_phr_cnfg :: blob
  mg_time_alignment_timer :: nat

text \<open>Signalling bearers are added with the default configuration and are given by their identity.\<close>

record rr_cfg =
  rg_srbs :: "u32 list"
  rg_drbs :: "drb_to_add list"
  rg_mac_main :: "mac_main_msg option"
  rg_phy_cnfg_ded :: "phy_cfg_ded option"

datatype dl_msg =
    Dl_Con_Setup u8 rr_cfg
  | Dl_Con_Reest u8 rr_cfg
  | Dl_Con_Reest_Rej
  | Dl_Con_Release u8
  | Dl_Con_Reconfig u8 rr_cfg "u8 list list"
  | Dl_Security_Mode_Command u8 u32 u32
  | Dl_Ue_Cap_Enquiry u8
  | Dl_Info_Transfer "u8 list"

record con_req =
  cx_s_tmsi :: "(u8 \<times> u32) option"
  cx_cause :: nat

datatype ul_ccch_msg = Con_Req con_req | Con_Reest_Req u16 | Ul_Ccch_Other

datatype ul_dcch_msg =
    Con_Setup_Complete "u8 list"
  | Ul_Info_Transfer "u8 list"
  | Con_Reconfig_Complete
  | Security_Mode_Complete
  | Security_Mode_Failure
  | Ue_Capability_Info "(bool \<times> blob) list"
  | Ul_Dcch_Other

datatype paging_id = Page_Imsi "u8 list" | Page_S_Tmsi u8 "u8 list"

datatype paging_record = Rec_Imsi "u8 list" | Rec_S_Tmsi u8 u32

text \<open>Requests of the S1AP. An item of a bearer list may come without a NAS message in the first list only.\<close>

record erab_item =
  ei_e_RAB_ID :: u8
  ei_qci :: u32
  ei_qos_rest :: blob
  ei_addr_n_bits :: u32
  ei_addr :: "u8 list"
  ei_gTP_TEID :: "u8 list"
  ei_nAS_PDU :: "u8 list option"

record ctxt_setup_req =
  ct_bitrates :: blob
  ct_security_capabilities :: blob
  ct_security_key_bits :: "u8 list"
  ct_erabs :: "erab_item list"

record erab_setup_req =
  es_bitrates :: "blob option"
  es_erabs :: "erab_item list"

section \<open>The library\<close>

record rrc_lib =
  delta_pucch_shift_num :: "nat \<Rightarrow> u32"
  DELTA_PUCCH_SHIFT_N_ITEMS :: nat
  si_periodicity_num :: "nat \<Rightarrow> u32"
  si_window_length_num :: "nat \<Rightarrow> u32"
  ra_response_window_size_num :: "nat \<Rightarrow> u32"
  default_paging_cycle_num :: "nat \<Rightarrow> u32"
  nb_num :: "nat \<Rightarrow> rat"
  max_harq_tx_num :: "nat \<Rightarrow> u32"
  RRC_MAX_SIB :: nat
  RRC_MAX_PAGE_REC :: nat
  RRC_MAX_NAS :: nat
  M_TMSI_OCTET_STRING_LEN :: nat
  pack_bcch_dlsch_msg :: "sib list \<Rightarrow> bool list"
  pack_pcch_msg :: "paging_record list \<Rightarrow> bool list"
  pack_dl_ccch_msg :: "dl_msg \<Rightarrow> bool list"
  pack_dl_dcch_msg :: "dl_msg \<Rightarrow> bool list"
  unpack_ul_ccch_msg :: "u8 list \<Rightarrow> ul_ccch_msg"
  unpack_ul_dcch_msg :: "u8 list \<Rightarrow> ul_dcch_msg"
  bit_pack_vector :: "bool list \<Rightarrow> u8 list"
  pack_security_key :: "u8 list \<Rightarrow> u8 list"
  bits_2_value :: "u8 list \<Rightarrow> u32 \<Rightarrow> u32"
  uint8_to_uint32 :: "u8 list \<Rightarrow> u32"
  uint32_to_uint8 :: "u32 \<Rightarrow> u8 list"
  generate_k_rrc :: "u8 list \<Rightarrow> u32 \<Rightarrow> u32 \<Rightarrow> u8 list \<times> u8 list"
  generate_k_up :: "u8 list \<Rightarrow> u32 \<Rightarrow> u32 \<Rightarrow> u8 list \<times> u8 list"
  CIPHERING_ALGORITHM_ID_EEA0 :: u32
  INTEGRITY_ALGORITHM_ID_128_EIA1 :: u32
  CAUSE_EUTRAN_GENERATED_REASON :: nat
  CAUSE_CONNECTION_WITH_UE_LOST :: nat
  CAUSE_USER_INACTIVITY :: nat

section \<open>State\<close>

datatype rrc_state =
    RRC_STATE_IDLE
  | RRC_STATE_WAIT_FOR_CON_SETUP_COMPLETE
  | RRC_STATE_WAIT_FOR_SECURITY_MODE_COMPLETE
  | RRC_STATE_WAIT_FOR_UE_CAP_INFO
  | RRC_STATE_WAIT_FOR_CON_RECONF_COMPLETE
  | RRC_STATE_REGISTERED
  | RRC_STATE_RELEASE_REQUEST

record erab =
  er_id :: u8
  er_qci :: u32
  er_qos_rest :: blob
  er_address :: "u32 \<times> u8 list"
  er_teid_out :: u32
  er_teid_in :: u32

text \<open>Times are in microseconds.\<close>

record rrc_ue =
  ux_rnti :: u16
  ux_parent :: bool
  ux_connect_notified :: bool
  ux_t_last_activity :: int
  ux_establishment_cause :: nat
  ux_has_tmsi :: bool
  ux_m_tmsi :: u32
  ux_mmec :: u8
  ux_rlf_cnt :: u32
  ux_transaction_id :: u8
  ux_state :: rrc_state
  ux_k_enb :: "u8 list"
  ux_k_rrc_enc :: "u8 list"
  ux_k_rrc_int :: "u8 list"
  ux_k_up_enc :: "u8 list"
  ux_k_up_int :: "u8 list"
  ux_cipher_algo :: u32
  ux_integ_algo :: u32
  ux_bitrates :: blob
  ux_security_capabilities :: blob
  ux_eutra_capabilities :: blob
  ux_erabs :: "(u8, erab) omap"
  ux_sr_sched_sf_idx :: nat
  ux_sr_sched_prb_idx :: nat
  ux_sr_allocated :: bool
  ux_sr_N_pucch :: u32
  ux_sr_I :: u32
  ux_cqi_pucch :: u32
  ux_cqi_idx :: u32
  ux_cqi_allocated :: bool
  ux_cqi_sched_sf_idx :: nat
  ux_cqi_sched_prb_idx :: nat
  ux_nas_pending :: bool
  ux_erab_info :: "u8 list"

text \<open>\<open>rr_bit_buf_paging\<close> has the bits of the last paging message; the queue has the oldest entry first.\<close>

record rrc =
  rr_users :: "(u16, rrc_ue) omap"
  rr_pending_paging :: "(u32, paging_id) omap"
  rr_sib_buffer :: "byte_buffer list"
  rr_cnotifier :: bool
  rr_bit_buf_paging :: "bool list"
  rr_rx_pdu_queue :: "(u16 \<times> u32 \<times> byte_buffer option) list"
  rr_running :: bool
  rr_sr_sched :: "u32 list list"
  rr_cqi_sched :: "u32 list list"
  rr_mcch :: rrc_mcch
  rr_cfg :: rrc_cfg
  rr_nof_si_messages :: u32
  rr_sib2 :: sib2

definition LCID_EXIT :: u32 where
  "LCID_EXIT = 0xffff0000"

definition LCID_REM_USER :: u32 where
  "LCID_REM_USER = 0xffff0001"

definition LCID_REL_USER :: u32 where
  "LCID_REL_USER = 0xffff0002"

definition LCID_RLF_USER :: u32 where
  "LCID_RLF_USER = 0xffff0003"

definition LCID_ACT_USER :: u32 where
  "LCID_ACT_USER = 0xffff0004"

section \<open>Calls into the other layers\<close>

datatype rrc_call =
    Rc_Rlc_Add_User u16
  | Rc_Rlc_Rem_User u16
  | Rc_Rlc_Clear_Buffer u16
  | Rc_Rlc_Add_Bearer u16 u32
  | Rc_Rlc_Add_Bearer_Cnfg u16 u32 blob
  | Rc_Rlc_Add_Bearer_Mrb u16 u32
  | Rc_Pdcp_Add_User u16
  | Rc_Pdcp_Rem_User u16
  | Rc_Pdcp_Add_Bearer u16 u32 pdcp_config
  | Rc_Pdcp_Config_Security u16 u32 "u8 list" "u8 list" u32 u32
  | Rc_Pdcp_Write_Sdu u16 u32 byte_buffer
  | Rc_Gtpu_Add_Bearer u16 u32 u32 u32
  | Rc_Gtpu_Rem_User u16
  | Rc_Mac_Cell_Cfg cell_cfg
  | Rc_Mac_Ue_Cfg u16 ue_cfg
  | Rc_Mac_Ue_Rem u16
  | Rc_Mac_Bearer_Ue_Cfg u16 u32 ue_bearer_cfg
  | Rc_Mac_Set_Dl_Ant_Info u16 antenna_info
  | Rc_Mac_Phy_Config_Enabled u16 bool
  | Rc_Mac_Write_Mcch sib2 sib rrc_mcch
  | Rc_Phy_Set_Config_Dedicated u16 phy_cfg_ded
  | Rc_Phy_Set_Conf_Dedicated_Ack u16 bool
  | Rc_Phy_Configure_Mbsfn sib2 sib rrc_mcch
  | Rc_S1ap_Initial_Ue u16 nat byte_buffer "(u32 \<times> u8) option"
  | Rc_S1ap_Write_Pdu u16 byte_buffer
  | Rc_S1ap_User_Release u16 nat
  | Rc_S1ap_Ue_Ctxt_Setup_Complete u16 "(u8 \<times> u8 list) list"
  | Rc_S1ap_Ue_Erab_Setup_Complete u16 "(u8 \<times> u8 list) list"
  | Rc_User_Connected u16
  | Rc_Pool_Deallocate byte_buffer

end
