(* ===== verification/Rrc_UE.thy ===== *)
theory Rrc_UE
  imports Rrc_Types
begin

text \<open>
  The user context of the RRC, class \<open>rrc::ue\<close> of \<open>upper/rrc.cc\<close>. An operation takes the context (and
  the entity where it uses it) and returns it with the calls it makes, in their order. Log output is
  left out. The end point identifier GTP-U returns for a bearer is the one of theory \<open>Gtpu\<close>.
\<close>

section \<open>Life of a user\<close>

text \<open>A new context; members the constructor does not set are zero here until they are written.\<close>

definition rrc_ue_new :: "int \<Rightarrow> rrc_ue" where
  "rrc_ue_new now = \<lparr>ux_rnti = 0, ux_parent = False, ux_connect_notified = False, ux_t_last_activity = now,
     ux_establishment_cause = 0, ux_has_tmsi = False, ux_m_tmsi = 0, ux_mmec = 0, ux_rlf_cnt = 0,
     ux_transaction_id = 0, ux_state = RRC_STATE_IDLE, ux_k_enb = [], ux_k_rrc_enc = [], ux_k_rrc_int = [],
     ux_k_up_enc = [], ux_k_up_int = [], ux_cipher_algo = 0, ux_integ_algo = 0, ux_bitrates = [],
     ux_security_capabilities = [], ux_eutra_capabilities = [], ux_erabs = [], ux_sr_sched_sf_idx = 0,
     ux_sr_sched_prb_idx = 0, ux_sr_allocated = False, ux_sr_N_pucch = 0, ux_sr_I = 0, ux_cqi_pucch = 0,
     ux_cqi_idx = 0, ux_cqi_allocated = False, ux_cqi_sched_sf_idx = 0, ux_cqi_sched_prb_idx = 0,
     ux_nas_pending = False, ux_erab_info = []\<rparr>"

definition ux_rl_failure :: "rrc_ue \<Rightarrow> u32 \<times> rrc_ue" where
  "ux_rl_failure u = (ux_rlf_cnt u + 1, u\<lparr>ux_rlf_cnt := ux_rlf_cnt u + 1\<rparr>)"

definition ux_set_activity :: "int \<Rightarrow> rrc_ue \<Rightarrow> rrc_ue" where
  "ux_set_activity now u = u\<lparr>ux_t_last_activity := now\<rparr>"

definition is_connected :: "rrc_ue \<Rightarrow> bool" where
  "is_connected u \<longleftrightarrow> ux_state u = RRC_STATE_REGISTERED"

definition is_idle :: "rrc_ue \<Rightarrow> bool" where
  "is_idle u \<longleftrightarrow> ux_state u = RRC_STATE_IDLE"

text \<open>The deadline of the state in microseconds; its parts are computed in 32 bits.\<close>

definition state_deadline :: "rrc \<Rightarrow> rrc_state \<Rightarrow> int" where
  "state_deadline r st =
     (let (s, us) = (case st of
           RRC_STATE_IDLE \<Rightarrow> (0, (s2_max_harq_msg3_tx (rr_sib2 r) + 1) * 8 * 1000)
         | RRC_STATE_WAIT_FOR_CON_SETUP_COMPLETE \<Rightarrow> (1, 0)
         | RRC_STATE_RELEASE_REQUEST \<Rightarrow> (4, 0)
         | _ \<Rightarrow> (rc_inactivity_timeout_ms (rr_cfg r) div 1000, (rc_inactivity_timeout_ms (rr_cfg r) mod 1000) * 1000))
      in uint s * 1000000 + uint (us :: u32))"

definition is_timeout :: "rrc \<Rightarrow> int \<Rightarrow> rrc_ue \<Rightarrow> bool \<times> rrc_ue" where
  "is_timeout r now u =
     (if \<not> ux_parent u then (False, u)
      else
        let elapsed = now - ux_t_last_activity u in
        if state_deadline r (ux_state u) < elapsed \<and> 0 < elapsed
        then (True, u\<lparr>ux_t_last_activity := now, ux_state := RRC_STATE_RELEASE_REQUEST\<rparr>)
        else (False, u))"

section \<open>Resources of the uplink control channel\<close>

text \<open>The slot with the fewest users, the first of several.\<close>

definition least_used :: "u32 list list \<Rightarrow> u32 \<Rightarrow> u32 \<Rightarrow> (nat \<times> nat) option" where
  "least_used grid nof_prb nof_subframes = do {
     (i_min, j_min, _) \<leftarrow> foldM (\<lambda>i s. foldM (\<lambda>j (i_min, j_min, min_users). do {
          n \<leftarrow> rd2 grid i j;
          Some (if n < min_users then (i, j, n) else (i_min, j_min, min_users))
        }) [0..<unat nof_subframes] s) [0..<unat nof_prb] (0, 0, 1000000);
     Some (i_min, j_min)
   }"

text \<open>Of the configuration: how many users the code means to put into one slot.\<close>

definition slot_max_users :: "rrc_lib \<Rightarrow> rrc \<Rightarrow> u32 option" where
  "slot_max_users B r =
     (let c = (if cl_cp (rc_cell (rr_cfg r)) = CP_NORM then 3 else 2);
          delta_pucch_shift = delta_pucch_shift_num B (s2_delta_pucch_shift (rr_sib2 r))
      in if delta_pucch_shift = 0 then None else Some (12 * c div delta_pucch_shift))"

definition slot_n_pucch :: "rrc \<Rightarrow> nat \<Rightarrow> u32 \<Rightarrow> u32 \<Rightarrow> u32" where
  "slot_n_pucch r i max_users n =
     (let n_pucch = of_nat i * max_users + n; n_cs_an = s2_n_cs_an (rr_sib2 r)
      in if n_cs_an \<noteq> 0 then n_pucch + n_cs_an else n_pucch)"

text \<open>The two results of a success are the indices the context then has; an error returns -1.\<close>

definition sr_allocate :: "rrc_lib \<Rightarrow> u32 \<Rightarrow> rrc \<Rightarrow> rrc_ue \<Rightarrow> (int \<times> rrc \<times> rrc_ue) option" where
  "sr_allocate B period r u = do {
     let cfg = rc_sr_cfg (rr_cfg r);
     max_users \<leftarrow> slot_max_users B r;
     (i, j) \<leftarrow> least_used (rr_sr_sched r) (sr_nof_prb cfg) (sr_nof_subframes cfg);
     n \<leftarrow> rd2 (rr_sr_sched r) i j;
     if max_users < n then Some (-1, r, u)
     else if period \<notin> {5, 10, 20, 40, 80} then Some (-1, r, u)
     else do {
       sf \<leftarrow> rd (sr_sf_mapping cfg) j;
       if sf < period then do {
         grid \<leftarrow> wr2 (rr_sr_sched r) i j (n + 1);
         Some (0, r\<lparr>rr_sr_sched := grid\<rparr>,
           u\<lparr>ux_sr_sched_prb_idx := i, ux_sr_sched_sf_idx := j, ux_sr_allocated := True,
             ux_sr_I := period - 5 + sf, ux_sr_N_pucch := slot_n_pucch r i max_users n\<rparr>)
       } else Some (-1, r, u)
     }
   }"

definition sr_free :: "rrc \<Rightarrow> rrc_ue \<Rightarrow> rrc option" where
  "sr_free r u =
     (if ux_sr_allocated u then do {
        n \<leftarrow> rd2 (rr_sr_sched r) (ux_sr_sched_prb_idx u) (ux_sr_sched_sf_idx u);
        if 0 < n then do {
          grid \<leftarrow> wr2 (rr_sr_sched r) (ux_sr_sched_prb_idx u) (ux_sr_sched_sf_idx u) (n - 1);
          Some (r\<lparr>rr_sr_sched := grid\<rparr>)
        } else Some r
      } else Some r)"

definition sr_get :: "rrc_ue \<Rightarrow> u32 \<times> u32" where
  "sr_get u = (ux_sr_I u, ux_sr_N_pucch u)"

definition cqi_period_valid :: "u32 \<Rightarrow> bool" where
  "cqi_period_valid period \<longleftrightarrow> period \<in> {2, 5, 10, 20, 40, 80, 160, 32, 64, 128}"

definition cqi_pmi_idx :: "u32 \<Rightarrow> u32 \<Rightarrow> u32" where
  "cqi_pmi_idx period sf =
     (if period \<noteq> 32 \<and> period \<noteq> 64 \<and> period \<noteq> 128
      then (if period > 2 then period - 3 + sf else sf)
      else if period = 32 then 318 + sf
      else if period = 64 then 350 + sf
      else 414 + sf)"

definition cqi_allocate :: "rrc_lib \<Rightarrow> u32 \<Rightarrow> rrc \<Rightarrow> rrc_ue \<Rightarrow> (int \<times> rrc \<times> rrc_ue) option" where
  "cqi_allocate B period r u = do {
     let cfg = rc_cqi_cfg (rr_cfg r);
     max_users \<leftarrow> slot_max_users B r;
     (i, j) \<leftarrow> least_used (rr_cqi_sched r) (cq_nof_prb cfg) (cq_nof_subframes cfg);
     n \<leftarrow> rd2 (rr_cqi_sched r) i j;
     if max_users < n then Some (-1, r, u)
     else if \<not> cqi_period_valid period then Some (-1, r, u)
     else do {
       sf \<leftarrow> rd (cq_sf_mapping cfg) j;
       if sf < period then do {
         grid \<leftarrow> wr2 (rr_cqi_sched r) i j (n + 1);
         Some (0, r\<lparr>rr_cqi_sched := grid\<rparr>,
           u\<lparr>ux_cqi_sched_prb_idx := i, ux_cqi_sched_sf_idx := j, ux_cqi_allocated := True,
             ux_cqi_idx := cqi_pmi_idx period sf, ux_cqi_pucch := slot_n_pucch r i max_users n\<rparr>)
       } else Some (-1, r, u)
     }
   }"

definition cqi_free :: "rrc \<Rightarrow> rrc_ue \<Rightarrow> rrc option" where
  "cqi_free r u =
     (if ux_cqi_allocated u then do {
        n \<leftarrow> rd2 (rr_cqi_sched r) (ux_cqi_sched_prb_idx u) (ux_cqi_sched_sf_idx u);
        if 0 < n then do {
          grid \<leftarrow> wr2 (rr_cqi_sched r) (ux_cqi_sched_prb_idx u) (ux_cqi_sched_sf_idx u) (n - 1);
          Some (r\<lparr>rr_cqi_sched := grid\<rparr>)
        } else Some r
      } else Some r)"

definition cqi_get :: "rrc_ue \<Rightarrow> u32 \<times> u32" where
  "cqi_get u = (ux_cqi_idx u, ux_cqi_pucch u)"

section \<open>Sending\<close>

text \<open>The length is computed in 32 bits from the number of bits.\<close>

definition dl_pdu :: "rrc_lib \<Rightarrow> bool list \<Rightarrow> byte_buffer" where
  "dl_pdu B bits = \<lparr>bb_n_bytes = 1 + (of_nat (length bits) - 1) div 8, bb_msg = bit_pack_vector B bits\<rparr>"

definition send_dl_ccch :: "rrc_lib \<Rightarrow> rrc_ue \<Rightarrow> dl_msg \<Rightarrow> rrc_call list" where
  "send_dl_ccch B u msg = [Rc_Pdcp_Write_Sdu (ux_rnti u) RB_ID_SRB0 (dl_pdu B (pack_dl_ccch_msg B msg))]"

definition send_dl_dcch :: "rrc_lib \<Rightarrow> rrc_ue \<Rightarrow> dl_msg \<Rightarrow> rrc_call list" where
  "send_dl_dcch B u msg = [Rc_Pdcp_Write_Sdu (ux_rnti u) RB_ID_SRB1 (dl_pdu B (pack_dl_dcch_msg B msg))]"

text \<open>\<open>(transaction_id++)%4\<close>\<close>

definition next_transaction :: "rrc_ue \<Rightarrow> u8 \<times> rrc_ue" where
  "next_transaction u = (ux_transaction_id u mod 4, u\<lparr>ux_transaction_id := ux_transaction_id u + 1\<rparr>)"

definition send_connection_reest_rej :: "rrc_lib \<Rightarrow> rrc_ue \<Rightarrow> rrc_call list" where
  "send_connection_reest_rej B u = send_dl_ccch B u Dl_Con_Reest_Rej"

definition send_connection_release :: "rrc_lib \<Rightarrow> rrc_ue \<Rightarrow> rrc_ue \<times> rrc_call list" where
  "send_connection_release B u = (let (t, u) = next_transaction u in (u, send_dl_dcch B u (Dl_Con_Release t)))"

definition send_security_mode_command :: "rrc_lib \<Rightarrow> rrc_ue \<Rightarrow> rrc_ue \<times> rrc_call list" where
  "send_security_mode_command B u =
     (let (t, u) = next_transaction u
      in (u, send_dl_dcch B u (Dl_Security_Mode_Command t (ux_cipher_algo u) (ux_integ_algo u))))"

definition send_ue_cap_enquiry :: "rrc_lib \<Rightarrow> rrc_ue \<Rightarrow> rrc_ue \<times> rrc_call list" where
  "send_ue_cap_enquiry B u = (let (t, u) = next_transaction u in (u, send_dl_dcch B u (Dl_Ue_Cap_Enquiry t)))"

section \<open>Connection setup\<close>

text \<open>What the setup sends about the physical layer before any resource of the control channel is allocated.\<close>

definition setup_phy_cfg :: "rrc \<Rightarrow> phy_cfg_ded" where
  "setup_phy_cfg r = phy_cfg_ded_zero\<lparr>pd_pusch := Some (rc_pusch_cfg (rr_cfg r)), pd_antenna_info_default := True\<rparr>"

text \<open>What the scheduler of the MAC is told about the user.\<close>

definition setup_sched_cfg :: "rrc_lib \<Rightarrow> rrc \<Rightarrow> rrc_ue \<Rightarrow> ue_cfg" where
  "setup_sched_cfg B r u =
     (let cfg = rr_cfg r; s2 = rr_sib2 r;
          both = bearer_cfg_zero\<lparr>ub_direction := BOTH\<rparr>
      in ue_cfg_zero\<lparr>
          uc_maxharq_tx := max_harq_tx_num B (mm_max_harq_tx (rc_mac_cnfg cfg)),
          uc_aperiodic_cqi_period := (if cq_mode (rc_cqi_cfg cfg) = CQI_MODE_APERIODIC then cq_period (rc_cqi_cfg cfg) else 0),
          uc_bearers := (uc_bearers ue_cfg_zero)(0 := both, 1 := both),
          uc_sr_I := ux_sr_I u, uc_sr_N_pucch := ux_sr_N_pucch u, uc_sr_enabled := True,
          uc_cqi_pucch := ux_cqi_pucch u, uc_cqi_idx := ux_cqi_idx u,
          uc_cqi_enabled := (cq_mode (rc_cqi_cfg cfg) = CQI_MODE_PERIODIC),
          uc_pucch_cfg := \<lparr>
            pc_delta_pucch_shift = delta_pucch_shift_num B (s2_delta_pucch_shift s2 mod DELTA_PUCCH_SHIFT_N_ITEMS B),
            pc_N_cs = s2_n_cs_an s2, pc_n_rb_2 = s2_n_rb_cqi s2, pc_n1_pucch_an = s2_n1_pucch_an s2\<rparr>\<rparr>)"

text \<open>
  The setup of a connection, or its reestablishment. If a resource of the control channel cannot be
  allocated nothing is sent and no layer is configured.
\<close>

definition setup_sr :: "rrc_lib \<Rightarrow> bool \<Rightarrow> rrc \<Rightarrow> rrc_ue \<Rightarrow> (int \<times> rrc \<times> rrc_ue) option" where
  "setup_sr B is_setup r u =
     (if is_setup then sr_allocate B (sr_period (rc_sr_cfg (rr_cfg r))) r u else Some (0, r, u))"

definition setup_cqi :: "rrc_lib \<Rightarrow> bool \<Rightarrow> rrc \<Rightarrow> rrc_ue \<Rightarrow> (int \<times> rrc \<times> rrc_ue) option" where
  "setup_cqi B is_setup r u =
     (if cq_mode (rc_cqi_cfg (rr_cfg r)) = CQI_MODE_APERIODIC then Some (0, r, u)
      else if is_setup then cqi_allocate B (cq_period (rc_cqi_cfg (rr_cfg r))) r u
      else Some (0, r, u))"

definition setup_cqi_report :: "rrc \<Rightarrow> rrc_ue \<Rightarrow> cqi_report" where
  "setup_cqi_report r u =
     (if cq_mode (rc_cqi_cfg (rr_cfg r)) = CQI_MODE_APERIODIC
      then \<lparr>cr_report_mode_aperiodic = Some RM30, cr_report_periodic = None, cr_nom_pdsch_rs_epre_offset = 0\<rparr>
      else \<lparr>cr_report_mode_aperiodic = None,
          cr_report_periodic = Some \<lparr>cp_pmi_cnfg_idx = ux_cqi_idx u, cp_pucch_resource_idx = ux_cqi_pucch u,
            cp_simult_ack_nack_and_cqi = False, cp_ri_cnfg_idx = None\<rparr>,
          cr_nom_pdsch_rs_epre_offset = 0\<rparr>)"

definition setup_phy_cfg_full :: "rrc \<Rightarrow> rrc_ue \<Rightarrow> phy_cfg_ded" where
  "setup_phy_cfg_full r u = (setup_phy_cfg r)\<lparr>
     pd_sched_request := Some \<lparr>sc_dsr_trans_max = sr_dsr_max (rc_sr_cfg (rr_cfg r)), sc_sr_cnfg_idx = ux_sr_I u,
       sc_sr_pucch_resource_idx = ux_sr_N_pucch u\<rparr>,
     pd_ul_pwr_ctrl := Some \<lparr>pw_p0_ue_pusch = 0, pw_delta_mcs_en = False, pw_accumulation_en = True,
       pw_p0_ue_pucch = 0, pw_p_srs_offset = 3\<rparr>,
     pd_pdsch := Some (rc_pdsch_cfg (rr_cfg r)), pd_pucch_n1_an := Some 0,
     pd_cqi_report := Some (setup_cqi_report r u)\<rparr>"

definition setup_rr_cfg :: "rrc \<Rightarrow> rrc_ue \<Rightarrow> rr_cfg" where
  "setup_rr_cfg r u = \<lparr>rg_srbs = [1], rg_drbs = [],
     rg_mac_main = Some \<lparr>mg_ulsch_cnfg = mm_ulsch_cnfg (rc_mac_cnfg (rr_cfg r)),
       mg_phr_cnfg = mm_phr_cnfg (rc_mac_cnfg (rr_cfg r)),
       mg_time_alignment_timer = mm_time_alignment_timer (rc_mac_cnfg (rr_cfg r))\<rparr>,
     rg_phy_cnfg_ded = Some (setup_phy_cfg_full r u)\<rparr>"

definition send_connection_setup ::
  "rrc_lib \<Rightarrow> 'p pdcp_lib \<Rightarrow> bool \<Rightarrow> rrc \<Rightarrow> rrc_ue \<Rightarrow> (rrc \<times> rrc_ue \<times> rrc_call list) option" where
  "send_connection_setup B P is_setup r u = do {
     let (t, u) = next_transaction u;
     (err, r, u) \<leftarrow> setup_sr B is_setup r u;
     if err \<noteq> 0 then Some (r, u, [])
     else do {
       (err, r, u) \<leftarrow> setup_cqi B is_setup r u;
       if err \<noteq> 0 then Some (r, u, [])
       else
         let rnti = ux_rnti u; phy_cfg = setup_phy_cfg_full r u; rr = setup_rr_cfg r u
         in Some (r, u,
             [Rc_Mac_Ue_Cfg rnti (setup_sched_cfg B r u),
              Rc_Rlc_Add_Bearer rnti 1,
              Rc_Pdcp_Add_Bearer rnti 1 ((pl_config_default P)\<lparr>pc_is_control := True, pc_downlink := True\<rparr>),
              Rc_Phy_Set_Config_Dedicated rnti phy_cfg,
              Rc_Phy_Set_Conf_Dedicated_Ack rnti False,
              Rc_Mac_Set_Dl_Ant_Info rnti (pd_antenna_info phy_cfg),
              Rc_Mac_Phy_Config_Enabled rnti False]
             @ send_dl_ccch B u (if is_setup then Dl_Con_Setup t rr else Dl_Con_Reest t rr))
     }
   }"

definition send_connection_reest ::
  "rrc_lib \<Rightarrow> 'p pdcp_lib \<Rightarrow> rrc \<Rightarrow> rrc_ue \<Rightarrow> (rrc \<times> rrc_ue \<times> rrc_call list) option" where
  "send_connection_reest B P r u = send_connection_setup B P False r u"

section \<open>Bearers\<close>

text \<open>\<open>erabs[id]\<close> adds a zero entry where the map has none.\<close>

definition erab_zero :: erab where
  "erab_zero = \<lparr>er_id = 0, er_qci = 0, er_qos_rest = [], er_address = (0, []), er_teid_out = 0, er_teid_in = 0\<rparr>"

definition erab_at :: "u8 \<Rightarrow> rrc_ue \<Rightarrow> erab" where
  "erab_at i u = (case omap_get (ux_erabs u) i of None \<Rightarrow> erab_zero | Some e \<Rightarrow> e)"

definition put_erab :: "u8 \<Rightarrow> erab \<Rightarrow> rrc_ue \<Rightarrow> rrc_ue" where
  "put_erab i e u = u\<lparr>ux_erabs := omap_set i e (ux_erabs u)\<rparr>"

text \<open>The channel of an E-RAB, an 8-bit number.\<close>

definition erab_lcid :: "u8 \<Rightarrow> u8" where
  "erab_lcid i = i - 2"

text \<open>Outside the channels of GTP-U its arrays would be left: no result.\<close>

definition setup_erab ::
  "rrc_lib \<Rightarrow> u8 \<Rightarrow> u32 \<times> blob \<Rightarrow> u32 \<times> u8 list \<Rightarrow> u32 \<Rightarrow> u8 list option \<Rightarrow> rrc_ue \<Rightarrow> (rrc_ue \<times> rrc_call list) option" where
  "setup_erab B i qos addr teid_out nas_pdu u =
     (let lcid = ucast (erab_lcid i) :: u32; addr_value = bits_2_value B (snd addr) (fst addr) in
      if SRSENB_N_RADIO_BEARERS \<le> unat lcid then None
      else
        let teid_in = rntilcid_to_teidin (ux_rnti u) (ucast lcid);
            u = put_erab i (\<lparr>er_id = i, er_qci = fst qos, er_qos_rest = snd qos, er_address = addr,
                  er_teid_out = teid_out, er_teid_in = teid_in\<rparr>) u
        in Some (case nas_pdu of
                   Some nas \<Rightarrow> u\<lparr>ux_nas_pending := True, ux_erab_info := nas\<rparr>
                 | None \<Rightarrow> u\<lparr>ux_nas_pending := False\<rparr>,
                 [Rc_Gtpu_Add_Bearer (ux_rnti u) lcid addr_value teid_out]))"

text \<open>Both lists stop at the first address of more than 32 bits; the bearers before it stay.\<close>

definition setup_erab_item :: "rrc_lib \<Rightarrow> erab_item \<Rightarrow> rrc_ue \<Rightarrow> (rrc_ue \<times> rrc_call list) option" where
  "setup_erab_item B e u =
     setup_erab B (ei_e_RAB_ID e) (ei_qci e, ei_qos_rest e) (ei_addr_n_bits e, ei_addr e)
       (uint8_to_uint32 B (ei_gTP_TEID e)) (ei_nAS_PDU e) u"

fun setup_erab_items :: "rrc_lib \<Rightarrow> erab_item list \<Rightarrow> rrc_ue \<Rightarrow> (bool \<times> rrc_ue \<times> rrc_call list) option" where
  "setup_erab_items B [] u = Some (True, u, [])"
| "setup_erab_items B (e # es) u =
     (if 32 < ei_addr_n_bits e then Some (False, u, [])
      else do {
        (u, cs) \<leftarrow> setup_erab_item B e u;
        (ok, u, ds) \<leftarrow> setup_erab_items B es u;
        Some (ok, u, cs @ ds)
      })"

definition setup_erabs_ctxt :: "rrc_lib \<Rightarrow> erab_item list \<Rightarrow> rrc_ue \<Rightarrow> (bool \<times> rrc_ue \<times> rrc_call list) option" where
  "setup_erabs_ctxt B es u = setup_erab_items B es u"

definition release_erabs :: "rrc_ue \<Rightarrow> bool \<times> rrc_ue" where
  "release_erabs u = (True, u\<lparr>ux_erabs := []\<rparr>)"

definition notify_s1ap_ue_ctxt_setup_complete :: "rrc_lib \<Rightarrow> rrc_ue \<Rightarrow> rrc_call list" where
  "notify_s1ap_ue_ctxt_setup_complete B u =
     [Rc_S1ap_Ue_Ctxt_Setup_Complete (ux_rnti u)
        (map (\<lambda>(k, e). (er_id e, uint32_to_uint8 B (er_teid_in e))) (ux_erabs u))]"

text \<open>\<open>erabs[id]\<close> of the response adds entries; here every identity was set up before.\<close>

definition notify_s1ap_ue_erab_setup_response :: "rrc_lib \<Rightarrow> erab_item list \<Rightarrow> rrc_ue \<Rightarrow> rrc_ue \<times> rrc_call list" where
  "notify_s1ap_ue_erab_setup_response B es u =
     (let u' = fold (\<lambda>e u. put_erab (ei_e_RAB_ID e) (erab_at (ei_e_RAB_ID e) u) u) es u
      in (u', [Rc_S1ap_Ue_Erab_Setup_Complete (ux_rnti u)
             (map (\<lambda>e. (ei_e_RAB_ID e, uint32_to_uint8 B (er_teid_in (erab_at (ei_e_RAB_ID e) u')))) es)]))"

text \<open>An invalid or unconfigured quality class is an error; looking it up may add an entry to the map.\<close>

definition get_drbid_config :: "rrc \<Rightarrow> int \<Rightarrow> rrc_ue \<Rightarrow> (drb_to_add option \<times> rrc_ue) option" where
  "get_drbid_config r drb_id u =
     (let lc_id = of_i32 (drb_id + 2) :: u32; erab_id = lc_id + 2;
          e = erab_at (ucast erab_id) u; u = put_erab (ucast erab_id) e u; qci = er_qci e in
      if MAX_NOF_QCI \<le> qci then Some (None, u)
      else do {
        q \<leftarrow> rd (rc_qci_cfg (rr_cfg r)) (unat qci);
        if \<not> qc_configured q then Some (None, u)
        else Some (Some \<lparr>dr_drb_id = drb_id, dr_lc_id = lc_id, dr_eps_bearer_id = erab_id, dr_lc_cnfg = qc_lc_cfg q,
               dr_log_chan_group = qc_log_chan_group q, dr_pdcp_cnfg = qc_pdcp_cfg q,
               dr_pdcp_sn_7_bits = qc_pdcp_sn_7_bits q, dr_rlc_cnfg = qc_rlc_cfg q\<rparr>, u)
      })"

section \<open>Reconfiguration\<close>

text \<open>
  After a C-RNTI element the connection is reconfigured. The PHY gets the configuration before the
  indices of the scheduling request are filled in: with zeros.
\<close>

definition upd_cqi_report :: "rrc \<Rightarrow> rrc_ue \<Rightarrow> cqi_report" where
  "upd_cqi_report r u =
     (let tm = ai_tx_mode (rc_antenna_info (rr_cfg r)) in
      if ux_cqi_allocated u
      then \<lparr>cr_report_mode_aperiodic = None,
          cr_report_periodic = Some \<lparr>cp_pmi_cnfg_idx = fst (cqi_get u), cp_pucch_resource_idx = snd (cqi_get u),
            cp_simult_ack_nack_and_cqi = cq_simultaneousAckCQI (rc_cqi_cfg (rr_cfg r)),
            cp_ri_cnfg_idx = (if tm = TM3 \<or> tm = TM4 then Some 483 else None)\<rparr>,
          cr_nom_pdsch_rs_epre_offset = 0\<rparr>
      else \<lparr>cr_report_mode_aperiodic = Some (if pd_antenna_info_present phy_cfg_ded_zero \<and> tm = TM4 then RM31 else RM30),
          cr_report_periodic = None, cr_nom_pdsch_rs_epre_offset = 0\<rparr>)"

definition send_connection_reconf_upd :: "rrc_lib \<Rightarrow> rrc \<Rightarrow> rrc_ue \<Rightarrow> rrc_ue \<times> rrc_call list" where
  "send_connection_reconf_upd B r u =
     (let (t, u) = next_transaction u;
          sr = \<lparr>sc_dsr_trans_max = sr_dsr_max (rc_sr_cfg (rr_cfg r)), sc_sr_cnfg_idx = 0, sc_sr_pucch_resource_idx = 0\<rparr>;
          phy_cfg = phy_cfg_ded_zero\<lparr>pd_sched_request := Some sr, pd_cqi_report := Some (upd_cqi_report r u)\<rparr>;
          (sr_I, sr_N_pucch) = sr_get u;
          phy_msg = phy_cfg\<lparr>pd_sched_request := Some (sr\<lparr>sc_sr_cnfg_idx := sr_I, sc_sr_pucch_resource_idx := sr_N_pucch\<rparr>)\<rparr>
      in (u\<lparr>ux_state := RRC_STATE_WAIT_FOR_CON_RECONF_COMPLETE\<rparr>,
          Rc_Phy_Set_Config_Dedicated (ux_rnti u) phy_cfg
          # send_dl_dcch B u (Dl_Con_Reconfig t
              \<lparr>rg_srbs = [], rg_drbs = [], rg_mac_main = None, rg_phy_cnfg_ded = Some phy_msg\<rparr> [])))"

definition reconf_antenna :: "rrc \<Rightarrow> phy_cfg_ded" where
  "reconf_antenna r =
     (if ai_tx_mode (rc_antenna_info (rr_cfg r)) \<noteq> TM1
      then phy_cfg_ded_zero\<lparr>pd_antenna_info := rc_antenna_info (rr_cfg r), pd_antenna_info_present := True,
             pd_antenna_info_default := False\<rparr>
      else phy_cfg_ded_zero)"

definition reconf_phy_cfg :: "rrc \<Rightarrow> rrc_ue \<Rightarrow> phy_cfg_ded" where
  "reconf_phy_cfg r u =
     (let p = reconf_antenna r; tm = ai_tx_mode (pd_antenna_info p); present = pd_antenna_info_present p in
      p\<lparr>pd_cqi_report := Some
        (if cq_mode (rc_cqi_cfg (rr_cfg r)) = CQI_MODE_APERIODIC
         then \<lparr>cr_report_mode_aperiodic = Some (if present \<and> tm = TM4 then RM31 else RM30),
             cr_report_periodic = None, cr_nom_pdsch_rs_epre_offset = 0\<rparr>
         else \<lparr>cr_report_mode_aperiodic = None,
             cr_report_periodic = Some \<lparr>cp_pmi_cnfg_idx = fst (cqi_get u), cp_pucch_resource_idx = snd (cqi_get u),
               cp_simult_ack_nack_and_cqi = cq_simultaneousAckCQI (rc_cqi_cfg (rr_cfg r)),
               cp_ri_cnfg_idx = (if present \<and> (tm = TM3 \<or> tm = TM4) then Some 483 else None)\<rparr>,
             cr_nom_pdsch_rs_epre_offset = 0\<rparr>)\<rparr>)"

text \<open>
  When the first data bearer has no configuration the PHY is already configured, but no message is
  sent and the buffer of the message that asked for it is not given back.
\<close>

definition send_connection_reconf ::
  "rrc_lib \<Rightarrow> 'p pdcp_lib \<Rightarrow> rrc \<Rightarrow> rrc_ue \<Rightarrow> (rrc_ue \<times> rrc_call list) option" where
  "send_connection_reconf B P r u = do {
     let (t, u) = next_transaction u;
     let rnti = ux_rnti u;
     let phy_cfg = reconf_phy_cfg r u;
     let cs = [Rc_Phy_Set_Config_Dedicated rnti phy_cfg, Rc_Phy_Set_Conf_Dedicated_Ack rnti False,
               Rc_Mac_Set_Dl_Ant_Info rnti (pd_antenna_info phy_cfg), Rc_Mac_Phy_Config_Enabled rnti False];
     (drb, u) \<leftarrow> get_drbid_config r 1 u;
     case drb of
       None \<Rightarrow> Some (put_erab 5 (erab_at 5 u) u, cs)
     | Some drb \<Rightarrow>
         let both = bearer_cfg_zero\<lparr>ub_direction := BOTH\<rparr>;
             pdcp = (pl_config_default P)\<lparr>pc_downlink := True, pc_is_control := True, pc_is_data := False\<rparr>;
             drb_pdcp = pdcp\<lparr>pc_is_control := False, pc_is_data := True\<rparr>;
             nas = (if ux_nas_pending u then [ux_erab_info u] else [])
         in Some (u\<lparr>ux_state := RRC_STATE_WAIT_FOR_CON_RECONF_COMPLETE\<rparr>,
              cs @
              [Rc_Mac_Bearer_Ue_Cfg rnti 2 (both\<lparr>ub_group := 0\<rparr>),
               Rc_Mac_Bearer_Ue_Cfg rnti 3 (both\<lparr>ub_group := dr_log_chan_group drb\<rparr>),
               Rc_Rlc_Add_Bearer rnti 2,
               Rc_Pdcp_Add_Bearer rnti 2 pdcp,
               Rc_Rlc_Add_Bearer_Cnfg rnti 3 (dr_rlc_cnfg drb),
               Rc_Pdcp_Add_Bearer rnti 3 (if dr_pdcp_sn_7_bits drb then drb_pdcp\<lparr>pc_sn_len := 7\<rparr> else drb_pdcp)]
              @ send_dl_dcch B u (Dl_Con_Reconfig t
                  \<lparr>rg_srbs = [2], rg_drbs = [drb], rg_mac_main = None, rg_phy_cnfg_ded = Some phy_cfg\<rparr> nas))
   }"

text \<open>
  Bearers added later. The message is not cleared: its count of NAS messages starts from what the
  stack holds, here the messages \<open>stale\<close>, and the group of the bearer is \<open>lcg\<close>. The result of the
  loop is the bearers of the message, or none when one of them has no configuration.
\<close>

fun new_bearer_items ::
  "rrc_lib \<Rightarrow> 'p pdcp_lib \<Rightarrow> rrc \<Rightarrow> int \<Rightarrow> erab_item list \<Rightarrow> drb_to_add list \<Rightarrow> u8 list list \<Rightarrow> rrc_ue \<Rightarrow>
   ((drb_to_add list \<times> u8 list list) option \<times> rrc_ue \<times> rrc_call list) option" where
  "new_bearer_items B P r lcg [] drbs nas u = Some (Some (drbs, nas), u, [])"
| "new_bearer_items B P r lcg (e # es) drbs nas u = do {
     let lcid = erab_lcid (ei_e_RAB_ID e);
     let rnti = ux_rnti u;
     (drb, u) \<leftarrow> get_drbid_config r (int (unat lcid) - 2) u;
     case drb of
       None \<Rightarrow> Some (None, put_erab (lcid + 4) (erab_at (lcid + 4) u) u, [])
     | Some drb \<Rightarrow>
         if RRC_MAX_NAS B \<le> length nas then None
         else do {
           (res, u, cs) \<leftarrow> new_bearer_items B P r lcg es (drbs @ [drb]) (nas @ [ux_erab_info u]) u;
           Some (res, u,
             [Rc_Mac_Bearer_Ue_Cfg rnti (ucast lcid) \<lparr>ub_direction = BOTH, ub_group = lcg\<rparr>,
              Rc_Rlc_Add_Bearer_Cnfg rnti (ucast lcid) (dr_rlc_cnfg drb),
              Rc_Pdcp_Add_Bearer rnti (ucast lcid) (pl_config_of P (dr_pdcp_cnfg drb))] @ cs)
         }
   }"

definition send_connection_reconf_new_bearer ::
  "rrc_lib \<Rightarrow> 'p pdcp_lib \<Rightarrow> rrc \<Rightarrow> u8 list list \<Rightarrow> int \<Rightarrow> erab_item list \<Rightarrow> rrc_ue \<Rightarrow> (rrc_ue \<times> rrc_call list) option" where
  "send_connection_reconf_new_bearer B P r stale lcg es u = do {
     let (t, u) = next_transaction u;
     (res, u, cs) \<leftarrow> new_bearer_items B P r lcg es [] stale u;
     Some (u, cs @ (case res of
         None \<Rightarrow> []
       | Some (drbs, nas) \<Rightarrow> send_dl_dcch B u (Dl_Con_Reconfig t
             \<lparr>rg_srbs = [], rg_drbs = drbs, rg_mac_main = None, rg_phy_cnfg_ded = None\<rparr> nas)))
   }"

definition setup_erabs ::
  "rrc_lib \<Rightarrow> 'p pdcp_lib \<Rightarrow> rrc \<Rightarrow> u8 list list \<Rightarrow> int \<Rightarrow> erab_item list \<Rightarrow> rrc_ue \<Rightarrow>
   (bool \<times> rrc_ue \<times> rrc_call list) option" where
  "setup_erabs B P r stale lcg es u = do {
     (ok, u, cs) \<leftarrow> setup_erab_items B es u;
     if \<not> ok then Some (False, u, cs)
     else do {
       let (u, ds) = notify_s1ap_ue_erab_setup_response B es u;
       (u, fs) \<leftarrow> send_connection_reconf_new_bearer B P r stale lcg es u;
       Some (True, u, cs @ ds @ fs)
     }
   }"

section \<open>What the S1AP sets\<close>

definition set_bitrates :: "blob \<Rightarrow> rrc_ue \<Rightarrow> rrc_ue" where
  "set_bitrates rates u = u\<lparr>ux_bitrates := rates\<rparr>"

definition set_security_capabilities :: "blob \<Rightarrow> rrc_ue \<Rightarrow> rrc_ue" where
  "set_security_capabilities caps u = u\<lparr>ux_security_capabilities := caps\<rparr>"

definition set_security_key :: "rrc_lib \<Rightarrow> u8 list \<Rightarrow> rrc_ue \<Rightarrow> rrc_ue \<times> rrc_call list" where
  "set_security_key B key u =
     (let c = CIPHERING_ALGORITHM_ID_EEA0 B; g = INTEGRITY_ALGORITHM_ID_128_EIA1 B;
          (rrc_enc, rrc_int) = generate_k_rrc B key c g; (up_enc, up_int) = generate_k_up B key c g
      in (u\<lparr>ux_k_enb := key, ux_cipher_algo := c, ux_integ_algo := g, ux_k_rrc_enc := rrc_enc,
            ux_k_rrc_int := rrc_int, ux_k_up_enc := up_enc, ux_k_up_int := up_int\<rparr>,
          [Rc_Pdcp_Config_Security (ux_rnti u) RB_ID_SRB1 rrc_enc rrc_int c g]))"

section \<open>Messages from the user\<close>

definition handle_rrc_con_req ::
  "rrc_lib \<Rightarrow> 'p pdcp_lib \<Rightarrow> int \<Rightarrow> con_req \<Rightarrow> rrc \<Rightarrow> rrc_ue \<Rightarrow> (rrc \<times> rrc_ue \<times> rrc_call list) option" where
  "handle_rrc_con_req B P now msg r u = do {
     let u = ux_set_activity now u;
     let u = (case cx_s_tmsi msg of
                Some (mmec, m_tmsi) \<Rightarrow> u\<lparr>ux_mmec := mmec, ux_m_tmsi := m_tmsi, ux_has_tmsi := True\<rparr>
              | None \<Rightarrow> u);
     (r, u, cs) \<leftarrow> send_connection_setup B P True r (u\<lparr>ux_establishment_cause := cx_cause msg\<rparr>);
     Some (r, u\<lparr>ux_state := RRC_STATE_WAIT_FOR_CON_SETUP_COMPLETE\<rparr>, cs)
   }"

text \<open>The NAS message goes on in the buffer the message came in.\<close>

definition handle_rrc_con_setup_complete :: "u8 list \<Rightarrow> rrc_ue \<Rightarrow> rrc_ue \<times> rrc_call list" where
  "handle_rrc_con_setup_complete nas u =
     (u\<lparr>ux_state := RRC_STATE_WAIT_FOR_CON_RECONF_COMPLETE\<rparr>,
      [Rc_Phy_Set_Conf_Dedicated_Ack (ux_rnti u) True, Rc_Mac_Phy_Config_Enabled (ux_rnti u) True,
       Rc_S1ap_Initial_Ue (ux_rnti u) (ux_establishment_cause u) (buffer nas)
         (if ux_has_tmsi u then Some (ux_m_tmsi u, ux_mmec u) else None)])"

definition handle_rrc_reconf_complete :: "rrc_ue \<Rightarrow> rrc_call list" where
  "handle_rrc_reconf_complete u =
     [Rc_Phy_Set_Conf_Dedicated_Ack (ux_rnti u) True, Rc_Mac_Phy_Config_Enabled (ux_rnti u) True]"

text \<open>Whatever entry is found, the first one is copied.\<close>

definition handle_ue_cap_info :: "(bool \<times> blob) list \<Rightarrow> rrc_ue \<Rightarrow> rrc_ue" where
  "handle_ue_cap_info caps u =
     fold (\<lambda>(is_eutra, _) u. if is_eutra then u\<lparr>ux_eutra_capabilities := snd (caps ! 0)\<rparr> else u) caps u"

definition ux_parse_ul_dcch ::
  "rrc_lib \<Rightarrow> 'p pdcp_lib \<Rightarrow> int \<Rightarrow> byte_buffer \<Rightarrow> rrc \<Rightarrow> rrc_ue \<Rightarrow> (rrc_ue \<times> rrc_call list) option" where
  "ux_parse_ul_dcch B P now pdu r u =
     (let u = (ux_set_activity now u)\<lparr>ux_transaction_id := 0\<rparr>; rnti = ux_rnti u in
      case unpack_ul_dcch_msg B (take (unat (bb_n_bytes pdu)) (bb_msg pdu)) of
        Con_Setup_Complete nas \<Rightarrow> Some (handle_rrc_con_setup_complete nas u)
      | Ul_Info_Transfer nas \<Rightarrow> Some (u, [Rc_S1ap_Write_Pdu rnti (buffer nas)])
      | Con_Reconfig_Complete \<Rightarrow> Some (u\<lparr>ux_state := RRC_STATE_REGISTERED\<rparr>, handle_rrc_reconf_complete u)
      | Security_Mode_Complete \<Rightarrow> do {
          (u', cs) \<leftarrow> send_connection_reconf B P r u;
          Some (u'\<lparr>ux_state := RRC_STATE_WAIT_FOR_CON_RECONF_COMPLETE\<rparr>,
                notify_s1ap_ue_ctxt_setup_complete B u @ cs)
        }
      | Security_Mode_Failure \<Rightarrow> Some (u, [])
      | Ue_Capability_Info caps \<Rightarrow> do {
          (u', cs) \<leftarrow> send_connection_reconf B P r (handle_ue_cap_info caps u);
          Some (u'\<lparr>ux_state := RRC_STATE_WAIT_FOR_CON_RECONF_COMPLETE\<rparr>, cs)
        }
      | Ul_Dcch_Other \<Rightarrow> Some (u, []))"

end
