(* ===== verification/Rrc.thy ===== *)
theory Rrc
  imports Rrc_UE Mac
begin

text \<open>
  The RRC entity (\<open>upper/rrc.cc\<close>): the calls of the MAC, the PDCP and the S1AP, paging, the system
  information, the thread that works off the queue of received PDUs and commands, and the thread that
  watches the activity of the users. Whether the S1AP knows a user is an argument (\<open>user_exists\<close>); its
  answer to a release request is only logged. The mutexes are left out: each operation is atomic.
\<close>

definition rrc_user :: "u16 \<Rightarrow> rrc \<Rightarrow> rrc_ue option" where
  "rrc_user rnti r = omap_get (rr_users r) rnti"

definition put_rrc_user :: "u16 \<Rightarrow> rrc_ue \<Rightarrow> rrc \<Rightarrow> rrc" where
  "put_rrc_user rnti u r = r\<lparr>rr_users := omap_set rnti u (rr_users r)\<rparr>"

definition rrc_push :: "u16 \<Rightarrow> u32 \<Rightarrow> byte_buffer option \<Rightarrow> rrc \<Rightarrow> rrc" where
  "rrc_push rnti lcid pdu r = r\<lparr>rr_rx_pdu_queue := rr_rx_pdu_queue r @ [(rnti, lcid, pdu)]\<rparr>"

section \<open>Commands that only go into the queue\<close>

definition rrc_rl_failure :: "u16 \<Rightarrow> rrc \<Rightarrow> rrc" where
  "rrc_rl_failure rnti r = rrc_push rnti LCID_RLF_USER None r"

definition set_activity_user :: "u16 \<Rightarrow> rrc \<Rightarrow> rrc" where
  "set_activity_user rnti r = rrc_push rnti LCID_ACT_USER None r"

definition rem_user_thread :: "u16 \<Rightarrow> rrc \<Rightarrow> rrc" where
  "rem_user_thread rnti r = rrc_push rnti LCID_REM_USER None r"

definition release_complete :: "u16 \<Rightarrow> rrc \<Rightarrow> rrc" where
  "release_complete rnti r = rrc_push rnti LCID_REL_USER None r"

definition rrc_write_pdu :: "u16 \<Rightarrow> u32 \<Rightarrow> byte_buffer \<Rightarrow> rrc \<Rightarrow> rrc" where
  "rrc_write_pdu rnti lcid pdu r = rrc_push rnti lcid (Some pdu) r"

section \<open>System information\<close>

text \<open>
  The messages of system information: SIB1 alone, then one message for each entry of the scheduling
  list, the first of which starts with SIB2. The loop builds one message more than is packed, from
  the entry after the last one of the list. \<open>sib_mapping_info\<close> names a SIB by its type, where 0 is SIB3.
\<close>

definition si_message :: "rrc_lib \<Rightarrow> rrc_cfg \<Rightarrow> sib1 \<Rightarrow> nat \<Rightarrow> sib list option" where
  "si_message B c s1 elem = do {
     first \<leftarrow> (if elem = 0 then do { s \<leftarrow> rd (rc_sibs c) 1; Some [s] } else Some []);
     (_, mapping) \<leftarrow> rd (s1_sched_info s1) elem;
     foldM (\<lambda>t sibs. do {
       s \<leftarrow> rd (rc_sibs c) (t + 2);
       if length sibs < RRC_MAX_SIB B then Some (sibs @ [s]) else None
     }) mapping first
   }"

definition generate_sibs :: "rrc_lib \<Rightarrow> rrc \<Rightarrow> (u32 \<times> rrc) option" where
  "generate_sibs B r = do {
     let c = rr_cfg r;
     s1 \<leftarrow> cfg_sib1 c;
     s2 \<leftarrow> cfg_sib2 c;
     let nof_messages = 1 + s1_N_sched_info s1;
     msgs \<leftarrow> foldM (\<lambda>elem msgs. do { m \<leftarrow> si_message B c s1 elem; Some (msgs @ [m]) })
       [0..<unat nof_messages] [[Sib1 s1]];
     sib_buffer \<leftarrow> foldM (\<lambda>i b. wr b i (let bits = pack_bcch_dlsch_msg B (msgs ! i) in
         \<lparr>bb_n_bytes = (of_nat (length bits) - 1) div 8 + 1, bb_msg = bit_pack_vector B bits\<rparr>))
       [0..<unat nof_messages] (rr_sib_buffer r);
     Some (nof_messages, r\<lparr>rr_sib2 := (if nof_messages = 0 then rr_sib2 r else s2), rr_sib_buffer := sib_buffer\<rparr>)
   }"

text \<open>What the scheduler of the MAC is told about the cell.\<close>

definition si_cfg :: "rrc_lib \<Rightarrow> sib1 \<Rightarrow> byte_buffer list \<Rightarrow> nat \<Rightarrow> cell_sib option" where
  "si_cfg B s1 bufs i = do {
     b \<leftarrow> rd bufs i;
     period \<leftarrow> (if i = 0 then Some 8 else do {
       (p, _) \<leftarrow> rd (s1_sched_info s1) (i - 1);
       Some (si_periodicity_num B p)
     });
     Some \<lparr>sib_len = bb_n_bytes b, sib_period_rf = period\<rparr>
   }"

definition config_mac :: "rrc_lib \<Rightarrow> rrc \<Rightarrow> rrc_call list option" where
  "config_mac B r = do {
     let c = rr_cfg r;
     s1 \<leftarrow> cfg_sib1 c;
     s2 \<leftarrow> cfg_sib2 c;
     sibs \<leftarrow> foldM (\<lambda>i sibs. do { s \<leftarrow> si_cfg B s1 (rr_sib_buffer r) i; Some (sibs(i := s)) })
       [0..<unat (rr_nof_si_messages r)] (cc_sibs cell_cfg_zero);
     Some [Rc_Mac_Cell_Cfg (cell_cfg_zero\<lparr>cc_cell := rc_cell c, cc_sibs := sibs,
       cc_si_window_ms := si_window_length_num B (s1_si_window_length s1),
       cc_prach_freq_offset := s2_prach_freq_offset s2,
       cc_prach_rar_window := ra_response_window_size_num B (s2_ra_resp_win_size s2),
       cc_nrb_pucch := uint (max (sr_nof_prb (rc_sr_cfg c)) (cq_nof_prb (rc_cqi_cfg c))),
       cc_maxharq_msg3tx := s2_max_harq_msg3_tx s2\<rparr>)]
   }"

definition mbsfn_mcch :: rrc_mcch where
  "mbsfn_mcch = \<lparr>mr_commonsf_allocperiod_rf = 64, mr_radio_fr_alloc_period_n = 1, mr_radio_fr_alloc_offset = 0,
     mr_subfr_alloc = 32 + 31,
     mr_mbms_sessioninfolist = [\<lparr>ms_logicalchannelid = 1, ms_sessionid = 0, ms_mcc = 0, ms_mnc = 3, ms_serviceid = 0\<rparr>],
     mr_datamcs = 10, mr_mch_schedulingperiod_rf = 64, mr_sf_alloc_end = 64 * 6\<rparr>"

definition configure_mbsfn_sibs :: "sib2 \<Rightarrow> sib \<Rightarrow> rrc \<Rightarrow> rrc \<times> rrc_call list" where
  "configure_mbsfn_sibs s2 s13 r =
     (r\<lparr>rr_mcch := mbsfn_mcch\<rparr>,
      [Rc_Phy_Configure_Mbsfn s2 s13 mbsfn_mcch, Rc_Mac_Write_Mcch s2 s13 mbsfn_mcch])"

text \<open>The twelfth entry is the one for SIB13 when it has that type.\<close>

definition is_sib13 :: "sib \<Rightarrow> bool" where
  "is_sib13 s = (case s of Sib_Other n _ \<Rightarrow> n = 13 | _ \<Rightarrow> False)"

definition rrc_init :: "rrc_lib \<Rightarrow> rrc_cfg \<Rightarrow> rrc \<Rightarrow> (rrc \<times> rrc_call list) option" where
  "rrc_init B c r = do {
     let r = r\<lparr>rr_cnotifier := False, rr_running := False, rr_cfg := c\<rparr>;
     s13 \<leftarrow> rd (rc_sibs c) 12;
     (r, cs) \<leftarrow> (if is_sib13 s13 \<and> rc_enable_mbsfn c
                 then do { s2 \<leftarrow> cfg_sib2 c; Some (configure_mbsfn_sibs s2 s13 r) }
                 else Some (r, []));
     (n, r) \<leftarrow> generate_sibs B r;
     let r = r\<lparr>rr_nof_si_messages := n\<rparr>;
     ds \<leftarrow> config_mac B r;
     Some (r\<lparr>rr_sr_sched := replicate 100 (replicate 80 0)\<rparr>, cs @ ds)
   }"

definition rrc_stop :: "rrc \<Rightarrow> rrc" where
  "rrc_stop r =
     (let r = (if rr_running r then rrc_push 0 LCID_EXIT None (r\<lparr>rr_running := False\<rparr>) else r)
      in r\<lparr>rr_users := []\<rparr>)"

definition set_connect_notifer :: "bool \<Rightarrow> rrc \<Rightarrow> rrc" where
  "set_connect_notifer b r = r\<lparr>rr_cnotifier := b\<rparr>"

text \<open>\<open>read_pdu_bcch_dlsch\<close> copies the bytes the length of the buffer counts.\<close>

definition read_pdu_bcch_dlsch :: "rrc_lib \<Rightarrow> u32 \<Rightarrow> rrc \<Rightarrow> u8 list" where
  "read_pdu_bcch_dlsch B sib_index r =
     (if unat sib_index < RRC_MAX_SIB B \<and> unat sib_index < length (rr_sib_buffer r)
      then take (unat (bb_n_bytes (rr_sib_buffer r ! unat sib_index))) (bb_msg (rr_sib_buffer r ! unat sib_index))
      else [])"

definition rrc_get_metrics :: "mac_lib \<Rightarrow> rrc \<Rightarrow> rrc_state list option" where
  "rrc_get_metrics L r =
     (if rr_running r
      then Some (take ENB_METRICS_MAX_USERS
                  (map (\<lambda>(k, u). ux_state u) (filter (\<lambda>(k, u). k \<noteq> SRSLTE_MRNTI L) (rr_users r))))
      else None)"

definition get_nof_users :: "rrc \<Rightarrow> u32" where
  "get_nof_users r = of_nat (length (rr_users r))"

section \<open>Users\<close>

definition mbms_bearers :: "mac_lib \<Rightarrow> 'p pdcp_lib \<Rightarrow> rrc_mcch \<Rightarrow> rrc_call list" where
  "mbms_bearers L P mcch = concat (map (\<lambda>s.
     [Rc_Rlc_Add_Bearer_Mrb (SRSLTE_MRNTI L) (ms_logicalchannelid s),
      Rc_Pdcp_Add_Bearer (SRSLTE_MRNTI L) (ms_logicalchannelid s)
        ((pl_config_default P)\<lparr>pc_is_control := False, pc_is_data := True, pc_downlink := True\<rparr>),
      Rc_Gtpu_Add_Bearer (SRSLTE_MRNTI L) (ms_logicalchannelid s) 1 1]) (mr_mbms_sessioninfolist mcch))"

definition rrc_add_user :: "mac_lib \<Rightarrow> 'p pdcp_lib \<Rightarrow> int \<Rightarrow> u16 \<Rightarrow> rrc \<Rightarrow> rrc \<times> rrc_call list" where
  "rrc_add_user L P now rnti r =
     (let (r, cs) = (case rrc_user rnti r of
           None \<Rightarrow> (put_rrc_user rnti ((rrc_ue_new now)\<lparr>ux_parent := True, ux_rnti := rnti\<rparr>) r,
                    [Rc_Rlc_Add_User rnti, Rc_Pdcp_Add_User rnti])
         | Some _ \<Rightarrow> (r, []))
      in (r, cs @ (if rnti = SRSLTE_MRNTI L then mbms_bearers L P (rr_mcch r) else [])))"

definition upd_user :: "rrc_lib \<Rightarrow> u16 \<Rightarrow> u16 \<Rightarrow> rrc \<Rightarrow> rrc \<times> rrc_call list" where
  "upd_user B new_rnti old_rnti r =
     (let r = rem_user_thread new_rnti r in
      case rrc_user old_rnti r of
        None \<Rightarrow> (r, [])
      | Some u \<Rightarrow>
          let (u, cs) = (if is_connected u then send_connection_reconf_upd B r u else send_connection_release B u)
          in (put_rrc_user old_rnti u r, cs))"

definition rem_user :: "u16 \<Rightarrow> rrc \<Rightarrow> (rrc \<times> rrc_call list) option" where
  "rem_user rnti r =
     (case rrc_user rnti r of
        None \<Rightarrow> Some (r, [])
      | Some u \<Rightarrow> do {
          r \<leftarrow> sr_free r u;
          r \<leftarrow> cqi_free r u;
          Some (r\<lparr>rr_users := omap_del rnti (rr_users r)\<rparr>,
            [Rc_Mac_Ue_Rem rnti, Rc_Gtpu_Rem_User rnti, Rc_Rlc_Rem_User rnti, Rc_Pdcp_Rem_User rnti])
        })"

section \<open>Calls of the S1AP\<close>

text \<open>The SDU for an unknown user is not given back to the pool.\<close>

definition write_dl_info :: "rrc_lib \<Rightarrow> u16 \<Rightarrow> byte_buffer \<Rightarrow> rrc \<Rightarrow> rrc_call list" where
  "write_dl_info B rnti sdu r =
     (case rrc_user rnti r of
        None \<Rightarrow> []
      | Some u \<Rightarrow> send_dl_dcch B u (Dl_Info_Transfer (take (unat (bb_n_bytes sdu)) (bb_msg sdu))))"

definition setup_ue_ctxt ::
  "rrc_lib \<Rightarrow> u16 \<Rightarrow> ctxt_setup_req \<Rightarrow> rrc \<Rightarrow> (bool \<times> rrc \<times> rrc_call list) option" where
  "setup_ue_ctxt B rnti msg r =
     (case rrc_user rnti r of
        None \<Rightarrow> Some (False, r, [])
      | Some u \<Rightarrow> do {
          let u = set_security_capabilities (ct_security_capabilities msg) (set_bitrates (ct_bitrates msg) u);
          let (u, cs) = set_security_key B (pack_security_key B (ct_security_key_bits msg)) u;
          let (u, ds) = send_security_mode_command B u;
          (_, u, es) \<leftarrow> setup_erabs_ctxt B (ct_erabs msg) u;
          Some (True, put_rrc_user rnti u r, cs @ ds @ es)
        })"

definition setup_ue_erabs ::
  "rrc_lib \<Rightarrow> 'p pdcp_lib \<Rightarrow> u8 list list \<Rightarrow> int \<Rightarrow> u16 \<Rightarrow> erab_setup_req \<Rightarrow> rrc \<Rightarrow>
   (bool \<times> rrc \<times> rrc_call list) option" where
  "setup_ue_erabs B P stale lcg rnti msg r =
     (case rrc_user rnti r of
        None \<Rightarrow> Some (False, r, [])
      | Some u \<Rightarrow> do {
          let u = (case es_bitrates msg of Some b \<Rightarrow> set_bitrates b u | None \<Rightarrow> u);
          (_, u, cs) \<leftarrow> setup_erabs B P r stale lcg (es_erabs msg) u;
          Some (True, put_rrc_user rnti u r, cs)
        })"

text \<open>The argument has 32 bits; the key of the map takes 16 of them.\<close>

definition rrc_release_erabs :: "u32 \<Rightarrow> rrc \<Rightarrow> bool \<times> rrc" where
  "rrc_release_erabs rnti r =
     (case rrc_user (ucast rnti) r of
        None \<Rightarrow> (False, r)
      | Some u \<Rightarrow> let (ret, u) = release_erabs u in (ret, put_rrc_user (ucast rnti) u r))"

section \<open>Paging\<close>

definition add_paging_id :: "u32 \<Rightarrow> paging_id \<Rightarrow> rrc \<Rightarrow> rrc" where
  "add_paging_id ueid UEPagingID r =
     (if omap_get (rr_pending_paging r) ueid = None
      then r\<lparr>rr_pending_paging := omap_set ueid UEPagingID (rr_pending_paging r)\<rparr> else r)"

definition sf_pattern :: "int list list" where
  "sf_pattern = [[9, 4, -1, 0], [-1, 9, -1, 4], [-1, -1, -1, 5], [-1, -1, -1, 9]]"

text \<open>\<open>T\<close>, \<open>N\<close> and \<open>Ns\<close> of the cell; \<open>nb_num\<close> is a float that is a power of two.\<close>

definition paging_cfg :: "rrc_lib \<Rightarrow> sib2 \<Rightarrow> (u32 \<times> u32 \<times> u32) option" where
  "paging_cfg B s2 =
     (let T = default_paging_cycle_num B (s2_default_paging_cycle s2);
          Nb = word_of_int \<lfloor>of_int (uint T) * nb_num B (s2_nB s2)\<rfloor> :: u32
      in if T = 0 then None else Some (T, min T Nb, if 1 < Nb div T then Nb div T else 1))"

text \<open>Whether the occasion of a user is the subframe \<open>tti\<close>.\<close>

definition paging_due :: "u32 \<Rightarrow> u32 \<Rightarrow> u32 \<Rightarrow> u32 \<Rightarrow> u32 \<Rightarrow> bool option" where
  "paging_due T N Ns tti ueid =
     (if N = 0 then None
      else
        let i_s = (ueid div N) mod Ns; sfn = tti div 10 in
        Some (sfn mod T = (T div N) * (ueid mod N) \<and>
          (let sf_idx = sf_pattern ! unat (i_s mod 4) ! unat ((Ns - 1) mod 4)
           in 0 \<le> sf_idx \<and> of_i32 sf_idx = tti mod 10)))"

definition paging_record_of :: "rrc_lib \<Rightarrow> paging_id \<Rightarrow> paging_record" where
  "paging_record_of B p =
     (case p of
        Page_Imsi imsi \<Rightarrow> Rec_Imsi imsi
      | Page_S_Tmsi mmec buf \<Rightarrow>
          Rec_S_Tmsi mmec (fold (\<lambda>i m. m OR push_bit (8 * (M_TMSI_OCTET_STRING_LEN B - i - 1)) (ucast (buf ! i)))
            [0..<M_TMSI_OCTET_STRING_LEN B] 0))"

text \<open>
  The loop goes through the pending users in the order of their identities until the message is full.
  What it removes is the identity modulo 1024.
\<close>

fun paging_loop ::
  "rrc_lib \<Rightarrow> u32 \<Rightarrow> u32 \<Rightarrow> u32 \<Rightarrow> u32 \<Rightarrow> (u32 \<times> paging_id) list \<Rightarrow> paging_record list \<Rightarrow> u32 list \<Rightarrow>
   (paging_record list \<times> u32 list) option" where
  "paging_loop B T N Ns tti [] recs removed = Some (recs, removed)"
| "paging_loop B T N Ns tti ((k, p) # ps) recs removed =
     (if length recs < RRC_MAX_PAGE_REC B then do {
        due \<leftarrow> paging_due T N Ns tti (k mod 1024);
        if due then paging_loop B T N Ns tti ps (recs @ [paging_record_of B p]) (removed @ [k mod 1024])
        else paging_loop B T N Ns tti ps recs removed
      } else Some (recs, removed))"

definition is_paging_opportunity :: "rrc_lib \<Rightarrow> u32 \<Rightarrow> rrc \<Rightarrow> (u32 option \<times> rrc) option" where
  "is_paging_opportunity B tti r =
     (if rr_pending_paging r = [] then Some (None, r)
      else do {
        s2 \<leftarrow> cfg_sib2 (rr_cfg r);
        (T, N, Ns) \<leftarrow> paging_cfg B s2;
        (recs, removed) \<leftarrow> paging_loop B T N Ns tti (rr_pending_paging r) [] [];
        let r = r\<lparr>rr_pending_paging := fold omap_del removed (rr_pending_paging r)\<rparr>;
        if recs \<noteq> [] then
          let bits = pack_pcch_msg B recs
          in Some (Some ((of_nat (length bits) - 1) div 8 + 1), r\<lparr>rr_bit_buf_paging := bits\<rparr>)
        else Some (None, r)
      })"

definition read_pdu_pcch :: "rrc_lib \<Rightarrow> u32 \<Rightarrow> rrc \<Rightarrow> u8 list option" where
  "read_pdu_pcch B buffer_size r =
     (if (of_nat (length (rr_bit_buf_paging r)) - 1) div 8 + 1 \<le> buffer_size
      then Some (bit_pack_vector B (rr_bit_buf_paging r)) else None)"

section \<open>The thread of the RRC\<close>

text \<open>
  A request for reestablishment of an unknown user would add a context without parent, which the
  rejection dereferences: no result.
\<close>

definition parse_ul_ccch ::
  "rrc_lib \<Rightarrow> 'p pdcp_lib \<Rightarrow> int \<Rightarrow> u16 \<Rightarrow> byte_buffer option \<Rightarrow> rrc \<Rightarrow> (rrc \<times> rrc_call list) option" where
  "parse_ul_ccch B P now rnti pdu r =
     (case pdu of
        None \<Rightarrow> Some (r, [])
      | Some pdu \<Rightarrow> do {
          (r, cs) \<leftarrow>
            (case unpack_ul_ccch_msg B (take (unat (bb_n_bytes pdu)) (bb_msg pdu)) of
               Con_Req msg \<Rightarrow>
                 (case rrc_user rnti r of
                    None \<Rightarrow> Some (r, [])
                  | Some u \<Rightarrow> do {
                      (r, u, cs) \<leftarrow> handle_rrc_con_req B P now msg r u;
                      Some (put_rrc_user rnti u r, cs)
                    })
             | Con_Reest_Req old_rnti \<Rightarrow>
                 (case rrc_user rnti r of
                    None \<Rightarrow> None
                  | Some u \<Rightarrow>
                      if is_idle u
                      then Some (rem_user_thread rnti r,
                        send_connection_reest_rej B u @
                        (if rrc_user old_rnti r \<noteq> None
                         then [Rc_S1ap_User_Release old_rnti (CAUSE_EUTRAN_GENERATED_REASON B)] else []))
                      else Some (r, []))
             | Ul_Ccch_Other \<Rightarrow> Some (r, []));
          Some (r, cs @ [Rc_Pool_Deallocate pdu])
        })"

definition parse_ul_dcch ::
  "rrc_lib \<Rightarrow> 'p pdcp_lib \<Rightarrow> int \<Rightarrow> u16 \<Rightarrow> byte_buffer option \<Rightarrow> rrc \<Rightarrow> (rrc \<times> rrc_call list) option" where
  "parse_ul_dcch B P now rnti pdu r =
     (case (pdu, rrc_user rnti r) of
        (Some pdu, Some u) \<Rightarrow> do {
          (u, cs) \<leftarrow> ux_parse_ul_dcch B P now pdu r u;
          Some (put_rrc_user rnti u r, cs)
        }
      | _ \<Rightarrow> Some (r, []))"

definition process_rl_failure :: "rrc_lib \<Rightarrow> (u16 \<Rightarrow> bool) \<Rightarrow> u16 \<Rightarrow> rrc \<Rightarrow> rrc \<times> rrc_call list" where
  "process_rl_failure B user_exists rnti r =
     (case rrc_user rnti r of
        None \<Rightarrow> (r, [])
      | Some u \<Rightarrow>
          let (n_rfl, u) = ux_rl_failure u; r = put_rrc_user rnti u r in
          if n_rfl = 1 then
            if user_exists rnti then (r, [Rc_S1ap_User_Release rnti (CAUSE_CONNECTION_WITH_UE_LOST B)])
            else (rem_user_thread rnti r, [])
          else (r, []))"

definition process_release_complete :: "rrc_lib \<Rightarrow> u16 \<Rightarrow> rrc \<Rightarrow> rrc \<times> rrc_call list" where
  "process_release_complete B rnti r =
     (case rrc_user rnti r of
        None \<Rightarrow> (r, [])
      | Some u \<Rightarrow>
          let (r, cs) = (if \<not> is_idle u
                         then let (u, cs) = send_connection_release B u
                              in (put_rrc_user rnti u r, Rc_Rlc_Clear_Buffer rnti # cs)
                         else (r, []))
          in (rem_user_thread rnti r, cs))"

text \<open>One entry of the queue; the queue holds what comes after it.\<close>

definition rrc_handle ::
  "rrc_lib \<Rightarrow> 'p pdcp_lib \<Rightarrow> (u16 \<Rightarrow> bool) \<Rightarrow> int \<Rightarrow> u16 \<times> u32 \<times> byte_buffer option \<Rightarrow> rrc \<Rightarrow>
   (rrc \<times> rrc_call list) option" where
  "rrc_handle B P user_exists now p r =
     (let (rnti, lcid, pdu) = p in
      case rrc_user rnti r of
        None \<Rightarrow> Some (r, [])
      | Some u \<Rightarrow>
          if lcid = RB_ID_SRB0 then parse_ul_ccch B P now rnti pdu r
          else if lcid = RB_ID_SRB1 \<or> lcid = RB_ID_SRB2 then parse_ul_dcch B P now rnti pdu r
          else if lcid = LCID_REM_USER then rem_user rnti r
          else if lcid = LCID_REL_USER then Some (process_release_complete B rnti r)
          else if lcid = LCID_RLF_USER then Some (process_rl_failure B user_exists rnti r)
          else if lcid = LCID_ACT_USER then Some (put_rrc_user rnti (ux_set_activity now u) r, [])
          else Some (r, []))"

definition rrc_run_step ::
  "rrc_lib \<Rightarrow> 'p pdcp_lib \<Rightarrow> (u16 \<Rightarrow> bool) \<Rightarrow> int \<Rightarrow> rrc \<Rightarrow> (rrc \<times> rrc_call list) option" where
  "rrc_run_step B P user_exists now r =
     (case rr_rx_pdu_queue r of
        [] \<Rightarrow> Some (r, [])
      | p # q \<Rightarrow> rrc_handle B P user_exists now p (r\<lparr>rr_rx_pdu_queue := q\<rparr>))"

section \<open>The activity monitor\<close>

text \<open>One round: the walk stops at the first user that timed out (and has a nonzero RNTI).\<close>

fun act_scan :: "mac_lib \<Rightarrow> int \<Rightarrow> u16 list \<Rightarrow> rrc \<Rightarrow> u16 \<times> rrc \<times> rrc_call list" where
  "act_scan L now [] r = (0, r, [])"
| "act_scan L now (rnti # rntis) r =
     (case rrc_user rnti r of
        None \<Rightarrow> act_scan L now rntis r
      | Some u \<Rightarrow>
          if rnti = SRSLTE_MRNTI L then act_scan L now rntis r
          else
            let (u, cs) = (if rr_cnotifier r \<and> is_connected u \<and> \<not> ux_connect_notified u
                           then (u\<lparr>ux_connect_notified := True\<rparr>, [Rc_User_Connected rnti]) else (u, []));
                (timeout, u) = is_timeout r now u;
                r = put_rrc_user rnti u r
            in if timeout \<and> rnti \<noteq> 0 then (rnti, r, cs)
               else let (rem, r, ds) = act_scan L now rntis r in (rem, r, cs @ ds))"

definition act_monitor_step ::
  "rrc_lib \<Rightarrow> mac_lib \<Rightarrow> (u16 \<Rightarrow> bool) \<Rightarrow> int \<Rightarrow> rrc \<Rightarrow> rrc \<times> rrc_call list" where
  "act_monitor_step B L user_exists now r =
     (let (rem_rnti, r, cs) = act_scan L now (map fst (rr_users r)) r in
      if rem_rnti = 0 then (r, cs)
      else if user_exists rem_rnti then (r, cs @ [Rc_S1ap_User_Release rem_rnti (CAUSE_USER_INACTIVITY B)])
      else if rem_rnti \<noteq> SRSLTE_MRNTI L then (rem_user_thread rem_rnti r, cs)
      else (r, cs))"

end
