(* ===== verification/Rrc_Slots.thy ===== *)
theory Rrc_Slots
  imports Rrc
begin

text \<open>
  The resources of the uplink control channel the RRC hands out: which slot is taken, that the first
  users get different resources, and two ways in which later users get the same.
\<close>

section \<open>The least used slot\<close>

lemma foldM_some: "(\<And>x s. x \<in> set xs \<Longrightarrow> f x s = Some (g x s)) \<Longrightarrow> foldM f xs s = Some (fold g xs s)"
  by (induction xs arbitrary: s) simp_all

lemma foldM_product:
  "foldM (\<lambda>i. foldM (f i) ys) xs s = foldM (\<lambda>(i, j). f i j) (List.product xs ys) s"
proof (induction xs arbitrary: s)
  case (Cons i xs)
  have "foldM (f i) ys = foldM (\<lambda>(i, j). f i j) (map (Pair i) ys)"
  proof (induction ys)
    case (Cons y ys)
    show ?case by (rule ext) (simp add: Cons.IH)
  qed simp
  moreover have "foldM (\<lambda>i. foldM (f i) ys) xs = foldM (\<lambda>(i, j). f i j) (List.product xs ys)"
    by (rule ext) (rule Cons.IH)
  ultimately show ?case by (simp add: foldM_append)
qed simp

lemma unat_inc: "unat n < 1000 \<Longrightarrow> unat (n + 1) = Suc (unat n)" for n :: u32
  by (simp add: unat_word_ariths)

lemma u32_of_nat_inj: "(of_nat x :: u32) = of_nat y \<Longrightarrow> x < 2 ^ 32 \<Longrightarrow> y < 2 ^ 32 \<Longrightarrow> x = y"
  by (simp add: word_of_nat_eq_iff take_bit_nat_eq_self)

definition pick_less :: "('x \<Rightarrow> 'v::linorder) \<Rightarrow> 'x \<Rightarrow> 'x \<times> 'v \<Rightarrow> 'x \<times> 'v" where
  "pick_less v x s = (if v x < snd s then (x, v x) else s)"

lemma fold_pick_less:
  "fold (pick_less v) xs (b, m) = (b', m') \<Longrightarrow>
   m' \<le> m \<and> (\<forall>x \<in> set xs. m' \<le> v x) \<and> ((b', m') = (b, m) \<or> b' \<in> set xs \<and> m' = v b')"
proof (induction xs arbitrary: b m)
  case (Cons x xs)
  show ?case
  proof (cases "v x < m")
    case True
    then show ?thesis using Cons.IH[of x "v x"] Cons.prems by (auto simp: pick_less_def)
  next
    case False
    then show ?thesis using Cons.IH[of b m] Cons.prems by (auto simp: pick_less_def)
  qed
qed auto

lemma fold_pick_less_first:
  assumes "v x < m" "\<And>y. y \<in> set xs \<Longrightarrow> v x \<le> v y"
  shows "fold (pick_less v) (x # xs) (b, m) = (x, v x)"
proof -
  have "fold (pick_less v) ys (x, v x) = (x, v x)" if "\<forall>y \<in> set ys. v x \<le> v y" for ys
    using that by (induction ys) (auto simp: pick_less_def)
  then show ?thesis using assms by (simp add: pick_less_def)
qed

definition grid_ok :: "u32 list list \<Rightarrow> bool" where
  "grid_ok g \<longleftrightarrow> length g = 100 \<and> (\<forall>row \<in> set g. length row = 80)"

lemma grid_row: "grid_ok g \<Longrightarrow> i < 100 \<Longrightarrow> length (g ! i) = 80"
  by (simp add: grid_ok_def)

lemma grid_rd [simp]: "grid_ok g \<Longrightarrow> i < 100 \<Longrightarrow> j < 80 \<Longrightarrow> rd2 g i j = Some (g ! i ! j)"
  by (simp add: grid_row grid_ok_def)

lemma grid_wr [simp]: "grid_ok g \<Longrightarrow> i < 100 \<Longrightarrow> j < 80 \<Longrightarrow> wr2 g i j v = Some (g[i := (g ! i)[j := v]])"
  by (simp add: grid_row grid_ok_def)

lemma grid_upd: "grid_ok g \<Longrightarrow> i < 100 \<Longrightarrow> grid_ok (g[i := (g ! i)[j := v]])"
  by (auto simp: grid_ok_def dest!: subsetD[OF set_update_subset_insert])

lemma grid_upd_at:
  "grid_ok g \<Longrightarrow> i < 100 \<Longrightarrow> j < 80 \<Longrightarrow>
   (g[i := (g ! i)[j := v]]) ! a ! b = (if a = i \<and> b = j then v else g ! a ! b)"
  by (auto simp: grid_ok_def nth_list_update)

lemma grid_zero: "grid_ok (replicate 100 (replicate 80 0))"
  by (simp add: grid_ok_def)

definition slots :: "u32 \<Rightarrow> u32 \<Rightarrow> (nat \<times> nat) list" where
  "slots p s = List.product [0..<unat p] [0..<unat s]"

lemma set_slots: "set (slots p s) = {0..<unat p} \<times> {0..<unat s}"
  by (simp add: slots_def)

lemma least_used_fold:
  assumes "grid_ok g" "unat p \<le> 100" "unat s \<le> 80"
  shows "least_used g p s = Some (fst (fold (pick_less (\<lambda>(i, j). g ! i ! j)) (slots p s) ((0, 0), 1000000)))"
proof -
  let ?v = "\<lambda>(i, j). g ! i ! j"
  have *: "foldM (\<lambda>(i, j) (i_min, j_min, m). do { n \<leftarrow> rd2 g i j; Some (if n < m then (i, j, n) else (i_min, j_min, m)) }) xs (a, b, m)
      = map_option (\<lambda>((a, b), m). (a, b, m)) (Some (fold (pick_less ?v) xs ((a, b), m)))"
    if "set xs \<subseteq> {0..<100} \<times> {0..<80}" for xs a b m
    using that assms(1)
  proof (induction xs arbitrary: a b m)
    case (Cons x xs)
    then show ?case by (cases x) (simp add: pick_less_def)
  qed simp
  have "set (slots p s) \<subseteq> {0..<100} \<times> {0..<80}" using assms(2,3) by (auto simp: set_slots)
  from *[OF this] show ?thesis
    by (simp add: least_used_def foldM_product slots_def[symmetric] case_prod_beta)
qed

lemma least_used_in:
  assumes "grid_ok g" "unat p \<le> 100" "unat s \<le> 80"
  obtains i j where "least_used g p s = Some (i, j)" "i < 100" "j < 80"
proof -
  obtain b' m' where f: "fold (pick_less (\<lambda>(i, j). g ! i ! j)) (slots p s) ((0, 0), 1000000) = (b', m')" by (metis surj_pair)
  from fold_pick_less[OF f] have "b' = (0, 0) \<or> b' \<in> set (slots p s)" by auto
  then have "fst b' < 100 \<and> snd b' < 80" using assms(2,3) by (auto simp: set_slots)
  then show ?thesis using that[of "fst b'" "snd b'"] least_used_fold[OF assms] f by simp
qed

lemma least_used_min:
  assumes "grid_ok g" "unat p \<le> 100" "unat s \<le> 80" "a < unat p" "b < unat s" "g ! a ! b < 1000000"
  obtains i j where "least_used g p s = Some (i, j)" "i < unat p" "j < unat s"
    "\<And>i' j'. i' < unat p \<Longrightarrow> j' < unat s \<Longrightarrow> g ! i ! j \<le> g ! i' ! j'"
proof -
  obtain b' m' where f: "fold (pick_less (\<lambda>(i, j). g ! i ! j)) (slots p s) ((0, 0), 1000000) = (b', m')" by (metis surj_pair)
  note F = fold_pick_less[OF f]
  have all: "\<forall>i' < unat p. \<forall>j' < unat s. m' \<le> g ! i' ! j'" using F by (force simp: set_slots)
  then have "m' \<noteq> 1000000" using assms(4-6) by (meson linorder_not_le)
  then have "b' \<in> set (slots p s) \<and> m' = (case b' of (i, j) \<Rightarrow> g ! i ! j)" using F by auto
  then show ?thesis
    using that[of "fst b'" "snd b'"] least_used_fold[OF assms(1-3)] f all
    by (auto simp: set_slots split: prod.splits)
qed

lemma slots_Cons: "0 < unat p \<Longrightarrow> 0 < unat s \<Longrightarrow> \<exists>xs. slots p s = (0, 0) # xs"
  by (simp add: slots_def upt_conv_Cons)

lemma least_used_first:
  assumes "grid_ok g" "unat p \<le> 100" "unat s \<le> 80" "0 < unat p" "0 < unat s" "c < 1000000"
    and "\<And>i j. i < unat p \<Longrightarrow> j < unat s \<Longrightarrow> g ! i ! j = c"
  shows "least_used g p s = Some (0, 0)"
proof -
  obtain xs where xs: "slots p s = (0, 0) # xs" using slots_Cons[OF assms(4,5)] by blast
  have "\<forall>y \<in> set (slots p s). (case y of (i, j) \<Rightarrow> g ! i ! j) = c" using assms(7) by (auto simp: set_slots)
  then have "\<forall>y \<in> set xs. (case y of (i, j) \<Rightarrow> g ! i ! j) = c" "g ! 0 ! 0 = c" by (auto simp: xs)
  then have "fold (pick_less (\<lambda>(i, j). g ! i ! j)) ((0, 0) # xs) ((0, 0), 1000000) = ((0, 0), g ! 0 ! 0)"
    using assms(6) fold_pick_less_first[of "\<lambda>(i, j). g ! i ! j" "(0, 0)" 1000000 xs "(0, 0)"] by force
  then show ?thesis by (simp add: least_used_fold[OF assms(1-3)] xs)
qed

section \<open>Scheduling request resources\<close>

definition sr_cfg_ok :: "rrc_lib \<Rightarrow> rrc \<Rightarrow> bool" where
  "sr_cfg_ok B r \<longleftrightarrow>
     (let c = rc_sr_cfg (rr_cfg r) in
      unat (sr_nof_prb c) \<in> {1..100} \<and> unat (sr_nof_subframes c) \<in> {1..80} \<and> length (sr_sf_mapping c) = 80 \<and>
      sr_period c \<in> {5, 10, 20, 40, 80} \<and> (\<forall>j < unat (sr_nof_subframes c). sr_sf_mapping c ! j < sr_period c) \<and>
      delta_pucch_shift_num B (s2_delta_pucch_shift (rr_sib2 r)) \<noteq> 0)"

definition max_of :: "rrc_lib \<Rightarrow> rrc \<Rightarrow> u32" where
  "max_of B r = the (slot_max_users B r)"

lemma slot_max:
  assumes "delta_pucch_shift_num B (s2_delta_pucch_shift (rr_sib2 r)) \<noteq> 0"
  shows "slot_max_users B r = Some (max_of B r)" "max_of B r \<le> 36"
proof -
  have "(36 :: u32) div d \<le> 36" "(24 :: u32) div d \<le> 36" for d
    by (simp_all add: word_le_nat_alt unat_div div_le_dividend order_trans[OF div_le_dividend])
  then show "slot_max_users B r = Some (max_of B r)" "max_of B r \<le> 36"
    using assms by (simp_all add: max_of_def slot_max_users_def Let_def)
qed

lemma slot_max_users: "sr_cfg_ok B r \<Longrightarrow> slot_max_users B r = Some (max_of B r)"
  by (rule slot_max(1)) (simp add: sr_cfg_ok_def Let_def)

lemma max_of_le: "sr_cfg_ok B r \<Longrightarrow> max_of B r \<le> 36"
  by (rule slot_max(2)) (simp add: sr_cfg_ok_def Let_def)

text \<open>The pair of indices that belongs to the \<open>n\<close>-th user of a slot.\<close>

definition sr_pair :: "rrc_lib \<Rightarrow> rrc \<Rightarrow> nat \<times> nat \<times> nat \<Rightarrow> u32 \<times> u32" where
  "sr_pair B r k = (case k of (i, j, n) \<Rightarrow>
     (sr_period (rc_sr_cfg (rr_cfg r)) - 5 + sr_sf_mapping (rc_sr_cfg (rr_cfg r)) ! j,
      slot_n_pucch r i (max_of B r) (of_nat n)))"

lemma sr_allocate_at:
  assumes "sr_cfg_ok B r" "grid_ok (rr_sr_sched r)" "i < 100" "j < unat (sr_nof_subframes (rc_sr_cfg (rr_cfg r)))"
    and "least_used (rr_sr_sched r) (sr_nof_prb (rc_sr_cfg (rr_cfg r))) (sr_nof_subframes (rc_sr_cfg (rr_cfg r))) = Some (i, j)"
    and "rr_sr_sched r ! i ! j \<le> max_of B r"
  obtains u' where "sr_allocate B (sr_period (rc_sr_cfg (rr_cfg r))) r u =
      Some (0, r\<lparr>rr_sr_sched := (rr_sr_sched r)[i := (rr_sr_sched r ! i)[j := rr_sr_sched r ! i ! j + 1]]\<rparr>, u')"
    "sr_get u' = sr_pair B r (i, j, unat (rr_sr_sched r ! i ! j))"
    "ux_sr_allocated u'" "ux_sr_sched_prb_idx u' = i" "ux_sr_sched_sf_idx u' = j"
proof -
  have j: "j < 80" using assms(1,4) by (simp add: sr_cfg_ok_def Let_def)
  have sf: "rd (sr_sf_mapping (rc_sr_cfg (rr_cfg r))) j = Some (sr_sf_mapping (rc_sr_cfg (rr_cfg r)) ! j)"
    "sr_sf_mapping (rc_sr_cfg (rr_cfg r)) ! j < sr_period (rc_sr_cfg (rr_cfg r))"
    "(sr_period (rc_sr_cfg (rr_cfg r)) \<notin> {5, 10, 20, 40, 80}) = False"
    using assms(1,4) j by (simp_all add: sr_cfg_ok_def Let_def)
  have m: "\<not> max_of B r < rr_sr_sched r ! i ! j" using assms(6) by simp
  show ?thesis
    using that assms(2,3,5) j sf m slot_max_users[OF assms(1)]
    by (simp add: sr_allocate_def sr_get_def sr_pair_def Let_def del: insert_iff)
qed

text \<open>The configuration does not change.\<close>

lemma sr_cfg_ok_grid [simp]: "sr_cfg_ok B (r\<lparr>rr_sr_sched := g\<rparr>) = sr_cfg_ok B r"
  by (simp add: sr_cfg_ok_def)

lemma max_of_grid [simp]: "max_of B (r\<lparr>rr_sr_sched := g\<rparr>) = max_of B r"
  by (simp add: max_of_def slot_max_users_def)

lemma sr_pair_grid [simp]: "sr_pair B (r\<lparr>rr_sr_sched := g\<rparr>) = sr_pair B r"
  by (simp add: sr_pair_def fun_eq_iff slot_n_pucch_def)

text \<open>Several users, one after the other, each with the error code of its allocation.\<close>

fun sr_allocs :: "rrc_lib \<Rightarrow> rrc \<Rightarrow> rrc_ue list \<Rightarrow> (int \<times> rrc_ue) list option" where
  "sr_allocs B r [] = Some []"
| "sr_allocs B r (u # us) = do {
     (err, r, u) \<leftarrow> sr_allocate B (sr_period (rc_sr_cfg (rr_cfg r))) r u;
     rest \<leftarrow> sr_allocs B r us;
     Some ((err, u) # rest)
   }"

definition sr_P :: "rrc \<Rightarrow> nat" where
  "sr_P r = unat (sr_nof_prb (rc_sr_cfg (rr_cfg r)))"

definition sr_S :: "rrc \<Rightarrow> nat" where
  "sr_S r = unat (sr_nof_subframes (rc_sr_cfg (rr_cfg r)))"

lemma sr_PS_grid [simp]: "sr_P (r\<lparr>rr_sr_sched := g\<rparr>) = sr_P r" "sr_S (r\<lparr>rr_sr_sched := g\<rparr>) = sr_S r"
  by (simp_all add: sr_P_def sr_S_def)

definition grid_total :: "nat \<Rightarrow> nat \<Rightarrow> u32 list list \<Rightarrow> nat" where
  "grid_total p s g = (\<Sum>i < p. \<Sum>j < s. unat (g ! i ! j))"

lemma grid_total_upd:
  assumes "grid_ok g" "p \<le> 100" "s \<le> 80" "i < p" "j < s" "unat (g ! i ! j) < 1000"
  shows "grid_total p s (g[i := (g ! i)[j := g ! i ! j + 1]]) = Suc (grid_total p s g)"
proof -
  let ?g = "g[i := (g ! i)[j := g ! i ! j + 1]]"
  have u: "unat (g ! i ! j + 1) = Suc (unat (g ! i ! j))"
    using assms(6) by (rule unat_inc)
  have at: "unat (?g ! a ! b) = unat (g ! a ! b) + (if a = i \<and> b = j then 1 else 0)" if "a < 100" "b < 80" for a b
    using grid_upd_at[OF assms(1), of i j] assms(2-5) u by auto
  have "grid_total p s ?g = (\<Sum>a < p. \<Sum>b < s. unat (g ! a ! b) + (if a = i \<and> b = j then 1 else 0))"
    unfolding grid_total_def using assms(2,3) at by (intro sum.cong refl) simp
  also have "\<dots> = grid_total p s g + (\<Sum>a < p. \<Sum>b < s. if a = i \<and> b = j then 1 else 0)"
    by (simp add: grid_total_def sum.distrib)
  also have "(\<Sum>a < p. \<Sum>b < s. if a = i \<and> b = j then 1 else (0 :: nat)) = (\<Sum>a < p. if a = i then 1 else 0)"
    using assms(5) by (intro sum.cong refl) (auto simp: sum.delta)
  also have "\<dots> = 1" using assms(4) by (simp add: sum.delta)
  finally show ?thesis by simp
qed

lemma grid_total_room:
  assumes "grid_total p s g < p * s * m"
  obtains i j where "i < p" "j < s" "unat (g ! i ! j) < m"
proof -
  have "\<exists>i < p. \<exists>j < s. unat (g ! i ! j) < m"
  proof (rule ccontr)
    assume "\<not> ?thesis"
    then have "\<forall>i < p. \<forall>j < s. m \<le> unat (g ! i ! j)" by force
    then have "(\<Sum>i < p. \<Sum>j < s. m) \<le> grid_total p s g"
      unfolding grid_total_def by (intro sum_mono) auto
    then show False using assms by simp
  qed
  then show ?thesis using that by blast
qed

text \<open>
  The keys of the users: slot and number in the slot. As long as there is room, users that come one
  after the other get different keys, none of which was given before.
\<close>

definition sr_room :: "rrc_lib \<Rightarrow> rrc \<Rightarrow> nat" where
  "sr_room B r = sr_P r * sr_S r * unat (max_of B r)"

definition sr_key_ok :: "rrc_lib \<Rightarrow> rrc \<Rightarrow> nat \<times> nat \<times> nat \<Rightarrow> bool" where
  "sr_key_ok B r k = (case k of (i, j, n) \<Rightarrow>
     i < sr_P r \<and> j < sr_S r \<and> n < unat (max_of B r) \<and> unat (rr_sr_sched r ! i ! j) \<le> n)"

lemma sr_allocs_keys:
  assumes "sr_cfg_ok B r" "grid_ok (rr_sr_sched r)"
    and "\<forall>i < sr_P r. \<forall>j < sr_S r. rr_sr_sched r ! i ! j \<le> max_of B r"
    and "grid_total (sr_P r) (sr_S r) (rr_sr_sched r) + length us \<le> sr_room B r"
  shows "\<exists>res keys. sr_allocs B r us = Some res \<and> (\<forall>x \<in> set res. fst x = 0) \<and> distinct keys \<and>
    (\<forall>k \<in> set keys. sr_key_ok B r k) \<and> map (\<lambda>x. sr_get (snd x)) res = map (sr_pair B r) keys"
  using assms
proof (induction us arbitrary: r)
  case (Cons u us)
  let ?g = "rr_sr_sched r" and ?m = "max_of B r"
  have b: "sr_P r \<le> 100" "sr_S r \<le> 80" using Cons.prems(1) by (simp_all add: sr_cfg_ok_def sr_P_def sr_S_def Let_def)
  have m: "unat ?m \<le> 36" using max_of_le[OF Cons.prems(1)] by (simp add: word_le_nat_alt)
  obtain a c where a: "a < sr_P r" "c < sr_S r" "unat (?g ! a ! c) < unat ?m"
    using grid_total_room[of "sr_P r" "sr_S r" ?g "unat ?m"] Cons.prems(4) by (auto simp: sr_room_def)
  then have small: "?g ! a ! c < 1000000" using m by (simp add: word_less_nat_alt)
  obtain i j where ij: "least_used ?g (sr_nof_prb (rc_sr_cfg (rr_cfg r))) (sr_nof_subframes (rc_sr_cfg (rr_cfg r))) = Some (i, j)"
      "i < sr_P r" "j < sr_S r" "?g ! i ! j \<le> ?g ! a ! c"
    using least_used_min[OF Cons.prems(2), of "sr_nof_prb (rc_sr_cfg (rr_cfg r))" "sr_nof_subframes (rc_sr_cfg (rr_cfg r))" a c]
      a small b unfolding sr_P_def sr_S_def by metis
  have n: "unat (?g ! i ! j) < unat ?m" using ij(4) a(3) by (simp add: word_le_nat_alt)
  let ?g' = "?g[i := (?g ! i)[j := ?g ! i ! j + 1]]"
  let ?r' = "r\<lparr>rr_sr_sched := ?g'\<rparr>"
  obtain u' where u': "sr_allocate B (sr_period (rc_sr_cfg (rr_cfg r))) r u = Some (0, ?r', u')"
      "sr_get u' = sr_pair B r (i, j, unat (?g ! i ! j))"
  proof (rule sr_allocate_at[OF Cons.prems(1,2), of i j u])
    show "i < 100" "j < unat (sr_nof_subframes (rc_sr_cfg (rr_cfg r)))" using ij b by (simp_all add: sr_S_def)
    show "?g ! i ! j \<le> ?m" using n by (simp add: word_le_nat_alt)
  qed (use ij in blast)+
  have at: "?g' ! x ! y = (if x = i \<and> y = j then ?g ! i ! j + 1 else ?g ! x ! y)" if "x < sr_P r" "y < sr_S r" for x y
    using grid_upd_at[OF Cons.prems(2)] ij b that by simp
  have suc: "unat (?g ! i ! j + 1) = Suc (unat (?g ! i ! j))" using n m by (intro unat_inc) simp
  have "\<forall>x < sr_P ?r'. \<forall>y < sr_S ?r'. rr_sr_sched ?r' ! x ! y \<le> max_of B ?r'"
    using Cons.prems(3) at suc n by (auto simp: word_le_nat_alt)
  moreover have "grid_total (sr_P ?r') (sr_S ?r') (rr_sr_sched ?r') + length us \<le> sr_room B ?r'"
    using grid_total_upd[OF Cons.prems(2) b ij(2,3)] Cons.prems(4) n m by (simp add: sr_room_def)
  ultimately obtain res keys where rest: "sr_allocs B ?r' us = Some res" "\<forall>x \<in> set res. fst x = 0" "distinct keys"
      "\<forall>k \<in> set keys. sr_key_ok B ?r' k" "map (\<lambda>x. sr_get (snd x)) res = map (sr_pair B ?r') keys"
    using Cons.IH[of ?r'] Cons.prems(1,2) grid_upd[OF Cons.prems(2)] ij b by auto
  let ?k = "(i, j, unat (?g ! i ! j))"
  have later: "sr_key_ok B r k \<and> k \<noteq> ?k" if "sr_key_ok B ?r' k" for k
    using that at suc ij by (auto simp: sr_key_ok_def split: prod.splits if_splits)
  have k: "sr_key_ok B r ?k" using ij n by (simp add: sr_key_ok_def)
  have fresh: "?k \<notin> set keys" "\<forall>k \<in> set keys. sr_key_ok B r k" using rest(4) later by blast+
  show ?case
    by (rule exI[of _ "(0, u') # res"], rule exI[of _ "?k # keys"]) (use u' rest k fresh in simp)
qed simp

text \<open>Different keys mean different resources when the subframes of the configuration are.\<close>

definition sr_sf_distinct :: "rrc \<Rightarrow> bool" where
  "sr_sf_distinct r \<longleftrightarrow> distinct (take (sr_S r) (sr_sf_mapping (rc_sr_cfg (rr_cfg r))))"

lemma slot_n_pucch_inj:
  assumes "sr_cfg_ok B r" "i < 100" "i' < 100" "n < unat (max_of B r)" "n' < unat (max_of B r)"
    and "slot_n_pucch r i (max_of B r) (of_nat n) = slot_n_pucch r i' (max_of B r) (of_nat n')"
  shows "i = i' \<and> n = n'"
proof -
  let ?m = "unat (max_of B r)"
  have m: "?m \<le> 36" using max_of_le[OF assms(1)] by (simp add: word_le_nat_alt)
  have "of_nat i * max_of B r + of_nat n = of_nat i' * max_of B r + of_nat n'"
    using assms(6) by (simp add: slot_n_pucch_def Let_def split: if_splits)
  then have "(of_nat (i * ?m + n) :: u32) = of_nat (i' * ?m + n')" by simp
  moreover have "i * ?m + n < 2 ^ 32" "i' * ?m + n' < 2 ^ 32"
    using mult_mono[of i 100 ?m 36] mult_mono[of i' 100 ?m 36] m assms(2-5) by simp_all
  ultimately have e: "i * ?m + n = i' * ?m + n'"
    by (rule u32_of_nat_inj)
  then have "(i * ?m + n) div ?m = (i' * ?m + n') div ?m" by simp
  then have "i = i'" using assms(4,5) by simp
  then show ?thesis using e by simp
qed

lemma sr_pair_inj:
  assumes "sr_cfg_ok B r" "sr_sf_distinct r"
  shows "inj_on (sr_pair B r) {k. sr_key_ok B r k}"
proof (rule inj_onI, unfold mem_Collect_eq)
  fix k k'
  assume "sr_key_ok B r k" "sr_key_ok B r k'" "sr_pair B r k = sr_pair B r k'"
  moreover obtain i j n i' j' n' where e: "k = (i, j, n)" "k' = (i', j', n')" by (metis surj_pair)
  ultimately have k: "sr_key_ok B r (i, j, n)" "sr_key_ok B r (i', j', n')" "sr_pair B r (i, j, n) = sr_pair B r (i', j', n')"
    by simp_all
  have b: "sr_P r \<le> 100" "sr_S r \<le> length (sr_sf_mapping (rc_sr_cfg (rr_cfg r)))"
    using assms(1) by (simp_all add: sr_cfg_ok_def sr_P_def sr_S_def Let_def)
  have "sr_sf_mapping (rc_sr_cfg (rr_cfg r)) ! j = sr_sf_mapping (rc_sr_cfg (rr_cfg r)) ! j'"
    using k(3) by (simp add: sr_pair_def)
  then have "j = j'"
    using assms(2) k(1,2) b(2) nth_eq_iff_index_eq[of "take (sr_S r) (sr_sf_mapping (rc_sr_cfg (rr_cfg r)))" j j']
    by (simp add: sr_sf_distinct_def sr_key_ok_def)
  moreover have "i = i' \<and> n = n'"
    using slot_n_pucch_inj[OF assms(1), of i i' n n'] k b(1) by (simp add: sr_pair_def sr_key_ok_def)
  ultimately show "k = k'" by (simp add: e)
qed

definition sr_grid_empty :: "rrc \<Rightarrow> bool" where
  "sr_grid_empty r \<longleftrightarrow> rr_sr_sched r = replicate 100 (replicate 80 0)"

lemma sr_allocs_empty:
  assumes "sr_cfg_ok B r" "sr_grid_empty r" "length us \<le> sr_room B r"
  shows "\<exists>res keys. sr_allocs B r us = Some res \<and> (\<forall>x \<in> set res. fst x = 0) \<and> distinct keys \<and>
    (\<forall>k \<in> set keys. sr_key_ok B r k) \<and> map (\<lambda>x. sr_get (snd x)) res = map (sr_pair B r) keys"
proof (rule sr_allocs_keys[OF assms(1)])
  have b: "sr_P r \<le> 100" "sr_S r \<le> 80" using assms(1) by (simp_all add: sr_cfg_ok_def sr_P_def sr_S_def Let_def)
  have z: "rr_sr_sched r ! i ! j = 0" if "i < sr_P r" "j < sr_S r" for i j
    using assms(2) that b by (simp add: sr_grid_empty_def)
  show "grid_ok (rr_sr_sched r)" using assms(2) grid_zero by (simp add: sr_grid_empty_def)
  show "\<forall>i < sr_P r. \<forall>j < sr_S r. rr_sr_sched r ! i ! j \<le> max_of B r" using z by simp
  show "grid_total (sr_P r) (sr_S r) (rr_sr_sched r) + length us \<le> sr_room B r"
    using z assms(3) by (simp add: grid_total_def)
qed

text \<open>C21: the first users, as many as the slots of the configuration hold together, all get a scheduling
  request resource, and no two of them the same.\<close>

theorem sr_resources_distinct:
  assumes "sr_cfg_ok B r" "sr_sf_distinct r" "sr_grid_empty r" "length us \<le> sr_room B r"
  shows "\<exists>res. sr_allocs B r us = Some res \<and> (\<forall>x \<in> set res. fst x = 0) \<and>
    distinct (map (\<lambda>x. sr_get (snd x)) res)"
proof -
  obtain res keys where r: "sr_allocs B r us = Some res" "\<forall>x \<in> set res. fst x = 0" "distinct keys"
      "\<forall>k \<in> set keys. sr_key_ok B r k" "map (\<lambda>x. sr_get (snd x)) res = map (sr_pair B r) keys"
    using sr_allocs_empty[OF assms(1,3,4)] by blast
  have "inj_on (sr_pair B r) (set keys)"
    using inj_on_subset[OF sr_pair_inj[OF assms(1,2)]] r(4) by blast
  then have "distinct (map (sr_pair B r) keys)" using r(3) by (simp add: distinct_map)
  then show ?thesis using r(1,2,5) by metis
qed

section \<open>Later users\<close>

lemma sr_allocate_success:
  assumes "sr_allocate B period r u = Some (0, r', u')"
  obtains M i j n sf where "slot_max_users B r = Some M"
    "least_used (rr_sr_sched r) (sr_nof_prb (rc_sr_cfg (rr_cfg r))) (sr_nof_subframes (rc_sr_cfg (rr_cfg r))) = Some (i, j)"
    "rd2 (rr_sr_sched r) i j = Some n" "n \<le> M" "rd (sr_sf_mapping (rc_sr_cfg (rr_cfg r))) j = Some sf"
    "\<exists>g. wr2 (rr_sr_sched r) i j (n + 1) = Some g \<and> r' = r\<lparr>rr_sr_sched := g\<rparr>"
    "u' = u\<lparr>ux_sr_sched_prb_idx := i, ux_sr_sched_sf_idx := j, ux_sr_allocated := True,
       ux_sr_I := period - 5 + sf, ux_sr_N_pucch := slot_n_pucch r i M n\<rparr>"
proof -
  let ?c = "rc_sr_cfg (rr_cfg r)"
  obtain M where M: "slot_max_users B r = Some M"
    using assms by (cases "slot_max_users B r") (simp_all add: sr_allocate_def Let_def)
  obtain x where x: "least_used (rr_sr_sched r) (sr_nof_prb ?c) (sr_nof_subframes ?c) = Some x"
    using assms M by (cases "least_used (rr_sr_sched r) (sr_nof_prb ?c) (sr_nof_subframes ?c)") (simp_all add: sr_allocate_def Let_def)
  obtain i j where ij: "x = (i, j)" by (cases x)
  obtain n where n: "rd2 (rr_sr_sched r) i j = Some n"
    using assms M x ij by (cases "rd2 (rr_sr_sched r) i j") (simp_all add: sr_allocate_def Let_def)
  note a = M x[unfolded ij] n
  have m: "\<not> M < n" "period \<in> {5, 10, 20, 40, 80}" using assms by (simp_all add: sr_allocate_def a Let_def split: if_splits)
  obtain sf g where s: "rd (sr_sf_mapping ?c) j = Some sf" "sf < period" "wr2 (rr_sr_sched r) i j (n + 1) = Some g"
    using assms m by (auto simp: sr_allocate_def a Let_def bind_eq_Some_conv simp del: insert_iff split: if_splits)
  show ?thesis using assms m by (intro that[OF a _ s(1)]) (simp_all add: sr_allocate_def a s Let_def del: insert_iff)
qed

text \<open>C38: the test for room lets one user too many into every slot: when all slots are full one more user
  is admitted, and it gets the resource of the user that came first in the next block of the band.\<close>

theorem sr_overflow_collides:
  assumes ok: "sr_cfg_ok B r" "grid_ok (rr_sr_sched r)" "1 < sr_P r"
    and full: "\<forall>i < sr_P r. \<forall>j < sr_S r. rr_sr_sched r ! i ! j = max_of B r"
    and first: "sr_allocate B (sr_period (rc_sr_cfg (rr_cfg r0))) r0 v = Some (0, r1, v')" "rr_cfg r0 = rr_cfg r"
      "rr_sib2 r0 = rr_sib2 r" "ux_sr_sched_prb_idx v' = 1" "ux_sr_sched_sf_idx v' = 0" "rr_sr_sched r0 ! 1 ! 0 = 0"
  shows "\<exists>r' u'. sr_allocate B (sr_period (rc_sr_cfg (rr_cfg r))) r u = Some (0, r', u') \<and> sr_get u' = sr_get v'"
proof -
  have b: "sr_P r \<le> 100" "sr_S r \<le> 80" "0 < sr_S r" "0 < sr_P r"
    using ok(1,3) by (simp_all add: sr_cfg_ok_def sr_P_def sr_S_def Let_def)
  have small: "max_of B r < 1000000" using max_of_le[OF ok(1)] by (simp add: word_le_nat_alt word_less_nat_alt)
  have l: "least_used (rr_sr_sched r) (sr_nof_prb (rc_sr_cfg (rr_cfg r))) (sr_nof_subframes (rc_sr_cfg (rr_cfg r))) = Some (0, 0)"
    using least_used_first[OF ok(2) _ _ _ _ small] b full unfolding sr_P_def sr_S_def by blast
  obtain u' where u': "sr_allocate B (sr_period (rc_sr_cfg (rr_cfg r))) r u =
      Some (0, r\<lparr>rr_sr_sched := (rr_sr_sched r)[0 := (rr_sr_sched r ! 0)[0 := rr_sr_sched r ! 0 ! 0 + 1]]\<rparr>, u')"
      "sr_get u' = sr_pair B r (0, 0, unat (rr_sr_sched r ! 0 ! 0))"
  proof (rule sr_allocate_at[OF ok(1,2), of 0 0 u])
    show "0 < unat (sr_nof_subframes (rc_sr_cfg (rr_cfg r)))" using b(3) by (simp add: sr_S_def)
    show "rr_sr_sched r ! 0 ! 0 \<le> max_of B r" using full b by simp
  qed (use l in auto)
  have "sr_get v' = sr_pair B r (1, 0, 0)"
  proof (rule sr_allocate_success[OF first(1)])
    fix M i j n sf
    assume a: "slot_max_users B r0 = Some M" "rd2 (rr_sr_sched r0) i j = Some n"
      "rd (sr_sf_mapping (rc_sr_cfg (rr_cfg r0))) j = Some sf"
      "v' = v\<lparr>ux_sr_sched_prb_idx := i, ux_sr_sched_sf_idx := j, ux_sr_allocated := True,
         ux_sr_I := sr_period (rc_sr_cfg (rr_cfg r0)) - 5 + sf, ux_sr_N_pucch := slot_n_pucch r0 i M n\<rparr>"
    have e: "i = 1" "j = 0" using a(4) first(4,5) by simp_all
    moreover have "M = max_of B r" using a(1) first(2,3) by (simp add: max_of_def slot_max_users_def)
    moreover have "n = 0" using a(2) e first(6) by (auto simp: rd2_def bind_eq_Some_conv dest!: rd_SomeD)
    ultimately show ?thesis
      using a(3,4) first(2,3) by (auto simp: sr_get_def sr_pair_def slot_n_pucch_def dest!: rd_SomeD)
  qed
  moreover have "sr_pair B r (0, 0, unat (rr_sr_sched r ! 0 ! 0)) = sr_pair B r (1, 0, 0)"
    using full b by (simp add: sr_pair_def slot_n_pucch_def)
  ultimately show ?thesis using u' by auto
qed

text \<open>the number of a user in its slot is the count of its users, so after one of them leaves, the next
  user of the slot gets the resource of the one that came last, who still uses it.\<close>

theorem sr_reuse_collides:
  assumes "sr_allocate B p r u2 = Some (0, r2, u2')"
    and "ux_sr_allocated u1" "ux_sr_sched_prb_idx u1 = ux_sr_sched_prb_idx u2'"
      "ux_sr_sched_sf_idx u1 = ux_sr_sched_sf_idx u2'"
    and "sr_free r2 u1 = Some r1"
    and "rd2 (rr_sr_sched r2) (ux_sr_sched_prb_idx u1) (ux_sr_sched_sf_idx u1) \<noteq> Some 0"
    and "sr_allocate B p r1 u3 = Some (0, r3, u3')"
      "ux_sr_sched_prb_idx u3' = ux_sr_sched_prb_idx u2'" "ux_sr_sched_sf_idx u3' = ux_sr_sched_sf_idx u2'"
  shows "sr_get u3' = sr_get u2'"
proof (rule sr_allocate_success[OF assms(1)], rule sr_allocate_success[OF assms(7)], elim exE conjE)
  fix M i j n sf M' i' j' n' sf' g g'
  assume a: "slot_max_users B r = Some M" "rd2 (rr_sr_sched r) i j = Some n"
      "rd (sr_sf_mapping (rc_sr_cfg (rr_cfg r))) j = Some sf"
      "wr2 (rr_sr_sched r) i j (n + 1) = Some g" "r2 = r\<lparr>rr_sr_sched := g\<rparr>"
      "u2' = u2\<lparr>ux_sr_sched_prb_idx := i, ux_sr_sched_sf_idx := j, ux_sr_allocated := True,
         ux_sr_I := p - 5 + sf, ux_sr_N_pucch := slot_n_pucch r i M n\<rparr>"
    and c: "slot_max_users B r1 = Some M'" "rd2 (rr_sr_sched r1) i' j' = Some n'"
      "rd (sr_sf_mapping (rc_sr_cfg (rr_cfg r1))) j' = Some sf'"
      "u3' = u3\<lparr>ux_sr_sched_prb_idx := i', ux_sr_sched_sf_idx := j', ux_sr_allocated := True,
         ux_sr_I := p - 5 + sf', ux_sr_N_pucch := slot_n_pucch r1 i' M' n'\<rparr>"
  have e: "i' = i" "j' = j" using assms(8,9) a(6) c(4) by simp_all
  have g: "rd2 g i j = Some (n + 1)"
    using a(4) by (auto simp: wr2_def rd2_def bind_eq_Some_conv dest!: wr_SomeD rd_SomeD)
  obtain h where h: "wr2 g i j (n + 1 - 1) = Some h" "r1 = r2\<lparr>rr_sr_sched := h\<rparr>"
    using assms(2-6) a(5,6) g by (auto simp: sr_free_def bind_eq_Some_conv word_gt_0 split: if_splits)
  have "rd2 h i j = Some n" using h(1) by (auto simp: wr2_def rd2_def bind_eq_Some_conv dest!: wr_SomeD rd_SomeD)
  then have "n' = n" using c(2) h(2) e by simp
  moreover have "M' = M" "sf' = sf" using a(1,3,5) c(1,3) h(2) e by (simp_all add: slot_max_users_def)
  ultimately show ?thesis
    using a(5,6) c(4) h(2) e by (simp add: sr_get_def slot_n_pucch_def)
qed

section \<open>A configuration\<close>

text \<open>A small cell; the shift of the control channel decides how many users a slot holds.\<close>

definition demo_rrc_lib :: "u32 \<Rightarrow> rrc_lib" where
  "demo_rrc_lib d = \<lparr>delta_pucch_shift_num = (\<lambda>_. d), DELTA_PUCCH_SHIFT_N_ITEMS = 3, si_periodicity_num = (\<lambda>_. 16),
     si_window_length_num = (\<lambda>_. 20), ra_response_window_size_num = (\<lambda>_. 10), default_paging_cycle_num = (\<lambda>_. 32),
     nb_num = (\<lambda>_. 1), max_harq_tx_num = (\<lambda>_. 5), RRC_MAX_SIB = 14, RRC_MAX_PAGE_REC = 16, RRC_MAX_NAS = 11,
     M_TMSI_OCTET_STRING_LEN = 4, pack_bcch_dlsch_msg = (\<lambda>sibs. replicate (8 * length sibs) True),
     pack_pcch_msg = (\<lambda>recs. replicate (8 * length recs) True), pack_dl_ccch_msg = (\<lambda>_. replicate 8 True),
     pack_dl_dcch_msg = (\<lambda>_. replicate 8 False), unpack_ul_ccch_msg = (\<lambda>_. Con_Req \<lparr>cx_s_tmsi = None, cx_cause = 3\<rparr>),
     unpack_ul_dcch_msg = (\<lambda>b. if b = [1] then Con_Setup_Complete [7] else if b = [2] then Security_Mode_Complete
       else if b = [3] then Con_Reconfig_Complete else Ul_Info_Transfer b),
     bit_pack_vector = (\<lambda>bits. replicate ((length bits + 7) div 8) 0), pack_security_key = (\<lambda>b. take 32 b),
     bits_2_value = (\<lambda>b n. of_nat (length b)), uint8_to_uint32 = (\<lambda>b. fold (\<lambda>x v. v * 256 + ucast x) b 0),
     uint32_to_uint8 = (\<lambda>w. [ucast (drop_bit 24 w), ucast (drop_bit 16 w), ucast (drop_bit 8 w), ucast w]),
     generate_k_rrc = (\<lambda>k _ _. (k, k)), generate_k_up = (\<lambda>k _ _. (k, k)), CIPHERING_ALGORITHM_ID_EEA0 = 0,
     INTEGRITY_ALGORITHM_ID_128_EIA1 = 1, CAUSE_EUTRAN_GENERATED_REASON = 1, CAUSE_CONNECTION_WITH_UE_LOST = 2,
     CAUSE_USER_INACTIVITY = 3\<rparr>"

definition demo_sib1 :: sib1 where
  "demo_sib1 = \<lparr>s1_N_sched_info = 1, s1_sched_info = replicate 14 (0, []), s1_si_window_length = 0, s1_rest = []\<rparr>"

definition demo_sib2 :: sib2 where
  "demo_sib2 = \<lparr>s2_max_harq_msg3_tx = 4, s2_ra_resp_win_size = 0, s2_prach_freq_offset = 2, s2_default_paging_cycle = 0,
     s2_nB = 0, s2_delta_pucch_shift = 0, s2_n_cs_an = 0, s2_n_rb_cqi = 2, s2_n1_pucch_an = 12, s2_rest = []\<rparr>"

definition demo_rrc_cfg :: rrc_cfg where
  "demo_rrc_cfg = \<lparr>rc_sibs = Sib1 demo_sib1 # Sib2 demo_sib2 # map (\<lambda>i. Sib_Other i []) [3..<15],
     rc_mac_cnfg = \<lparr>mm_ulsch_cnfg = [], mm_max_harq_tx = 0, mm_phr_cnfg = [], mm_time_alignment_timer = 0\<rparr>,
     rc_pusch_cfg = [], rc_antenna_info = antenna_info_zero, rc_pdsch_cfg = 0,
     rc_sr_cfg = \<lparr>sr_period = 20, sr_dsr_max = 0, sr_nof_prb = 2, sr_sf_mapping = replicate 80 0, sr_nof_subframes = 1\<rparr>,
     rc_cqi_cfg = \<lparr>cq_sf_mapping = replicate 80 0, cq_nof_subframes = 1, cq_nof_prb = 2, cq_period = 40,
       cq_simultaneousAckCQI = True, cq_mode = CQI_MODE_PERIODIC\<rparr>,
     rc_qci_cfg = replicate 10 \<lparr>qc_configured = True, qc_lc_cfg = [], qc_log_chan_group = 2, qc_pdcp_cfg = [],
       qc_pdcp_sn_7_bits = False, qc_rlc_cfg = []\<rparr>,
     rc_cell = \<lparr>cl_nof_prb = 25, cl_nof_ports = 1, cl_id = 1, cl_cp = CP_NORM\<rparr>, rc_enable_mbsfn = False,
     rc_inactivity_timeout_ms = 30000\<rparr>"

definition demo_rrc :: rrc where
  "demo_rrc = \<lparr>rr_users = [], rr_pending_paging = [], rr_sib_buffer = replicate 14 (buffer []), rr_cnotifier = False,
     rr_bit_buf_paging = [], rr_rx_pdu_queue = [], rr_running = True, rr_sr_sched = replicate 100 (replicate 80 0),
     rr_cqi_sched = replicate 100 (replicate 80 0), rr_mcch = mbsfn_mcch, rr_cfg = demo_rrc_cfg,
     rr_nof_si_messages = 2, rr_sib2 = demo_sib2\<rparr>"

lemma demo_sr_cfg [simp]: "d \<noteq> 0 \<Longrightarrow> sr_cfg_ok (demo_rrc_lib d) demo_rrc"
  by (simp add: sr_cfg_ok_def demo_rrc_def demo_rrc_cfg_def demo_rrc_lib_def)

lemma demo_sr_room: "sr_room (demo_rrc_lib 18) (demo_rrc\<lparr>rr_sr_sched := g\<rparr>) = 4" "max_of (demo_rrc_lib 36) (demo_rrc\<lparr>rr_sr_sched := g\<rparr>) = 1"
  by (simp_all add: sr_room_def sr_P_def sr_S_def max_of_def slot_max_users_def demo_rrc_def demo_rrc_cfg_def demo_rrc_lib_def)

lemma demo_rrc_empty [simp]: "demo_rrc\<lparr>rr_sr_sched := replicate 100 (replicate 80 0)\<rparr> = demo_rrc"
  by (simp add: demo_rrc_def)

theorem sr_resources_distinct_witness:
  "\<exists>res. sr_allocs (demo_rrc_lib 18) demo_rrc [rrc_ue_new 0, rrc_ue_new 1, rrc_ue_new 2, rrc_ue_new 3] = Some res \<and>
     distinct (map (\<lambda>x. sr_get (snd x)) res)"
proof -
  have "sr_sf_distinct demo_rrc" "sr_grid_empty demo_rrc"
    by (simp_all add: sr_sf_distinct_def sr_S_def sr_grid_empty_def demo_rrc_def demo_rrc_cfg_def)
  moreover have "sr_cfg_ok (demo_rrc_lib 18) demo_rrc" "sr_room (demo_rrc_lib 18) demo_rrc = 4"
    using demo_sr_room(1)[of "replicate 100 (replicate 80 0)"] by simp_all
  ultimately have "\<exists>res. sr_allocs (demo_rrc_lib 18) demo_rrc [rrc_ue_new 0, rrc_ue_new 1, rrc_ue_new 2, rrc_ue_new 3] = Some res \<and>
      (\<forall>x \<in> set res. fst x = 0) \<and> distinct (map (\<lambda>x. sr_get (snd x)) res)"
    by (intro sr_resources_distinct) simp_all
  then show ?thesis by blast
qed

lemma demo_least:
  assumes "grid_ok g" "g ! 0 ! 0 < 1000000"
  shows "least_used g 2 1 = Some (if g ! 1 ! 0 < g ! 0 ! 0 then (1, 0) else (0, 0))"
proof -
  have "slots 2 1 = [(0, 0), (1, 0)]" by code_simp
  then show ?thesis using assms by (simp add: least_used_fold pick_less_def)
qed

lemma demo_cfg_sel [simp]:
  "sr_nof_prb (rc_sr_cfg (rr_cfg demo_rrc)) = 2" "sr_nof_subframes (rc_sr_cfg (rr_cfg demo_rrc)) = 1"
  "sr_period (rc_sr_cfg (rr_cfg demo_rrc)) = 20"
  by (simp_all add: demo_rrc_def demo_rrc_cfg_def)

lemma demo_alloc:
  assumes "d \<noteq> 0" "grid_ok g" "g ! 0 ! 0 < 1000000" "i = (if g ! 1 ! 0 < g ! 0 ! 0 then 1 else 0)"
    "g ! i ! 0 \<le> max_of (demo_rrc_lib d) demo_rrc"
  obtains u' where "sr_allocate (demo_rrc_lib d) 20 (demo_rrc\<lparr>rr_sr_sched := g\<rparr>) u =
      Some (0, demo_rrc\<lparr>rr_sr_sched := g[i := (g ! i)[0 := g ! i ! 0 + 1]]\<rparr>, u')"
    "ux_sr_allocated u'" "ux_sr_sched_prb_idx u' = i" "ux_sr_sched_sf_idx u' = 0"
proof (rule sr_allocate_at[of "demo_rrc_lib d" "demo_rrc\<lparr>rr_sr_sched := g\<rparr>" i 0 u])
  show "sr_cfg_ok (demo_rrc_lib d) (demo_rrc\<lparr>rr_sr_sched := g\<rparr>)" using assms(1) by simp
qed (use assms that demo_least[OF assms(2,3)] in \<open>auto split: if_splits\<close>)

lemma demo_max: "max_of (demo_rrc_lib 36) demo_rrc = 1" "max_of (demo_rrc_lib 18) demo_rrc = 2"
  by (simp_all add: max_of_def slot_max_users_def demo_rrc_def demo_rrc_cfg_def demo_rrc_lib_def)

theorem sr_overflow_collides_witness:
  "\<exists>r' u' v'. sr_allocate (demo_rrc_lib 36) 20 (demo_rrc\<lparr>rr_sr_sched := replicate 100 (replicate 80 1)\<rparr>) (rrc_ue_new 5) =
     Some (0, r', u') \<and> sr_get u' = sr_get v' \<and> ux_sr_sched_prb_idx v' = 1"
proof -
  let ?full = "replicate 100 (replicate 80 1) :: u32 list list"
  let ?g = "(replicate 100 (replicate 80 0))[0 := replicate 80 1] :: u32 list list"
  have g: "grid_ok ?full" "grid_ok ?g" by (auto simp: grid_ok_def set_conv_nth nth_list_update)
  obtain v' where v': "sr_allocate (demo_rrc_lib 36) 20 (demo_rrc\<lparr>rr_sr_sched := ?g\<rparr>) (rrc_ue_new 0) =
      Some (0, demo_rrc\<lparr>rr_sr_sched := ?g[1 := (?g ! 1)[0 := ?g ! 1 ! 0 + 1]]\<rparr>, v')"
      "ux_sr_sched_prb_idx v' = 1" "ux_sr_sched_sf_idx v' = 0"
    by (rule demo_alloc[of 36 ?g 1 "rrc_ue_new 0"]) (use g demo_max in simp_all)
  have "\<exists>r' u'. sr_allocate (demo_rrc_lib 36) (sr_period (rc_sr_cfg (rr_cfg (demo_rrc\<lparr>rr_sr_sched := ?full\<rparr>))))
      (demo_rrc\<lparr>rr_sr_sched := ?full\<rparr>) (rrc_ue_new 5) = Some (0, r', u') \<and> sr_get u' = sr_get v'"
    by (rule sr_overflow_collides[where ?r0.0 = "demo_rrc\<lparr>rr_sr_sched := ?g\<rparr>" and v = "rrc_ue_new 0"])
      (use g v' demo_max in \<open>simp_all add: sr_P_def sr_S_def demo_sr_room\<close>)
  then show ?thesis using v'(2) by auto
qed

theorem sr_reuse_collides_witness:
  "\<exists>u2' u3' r1 r3. sr_allocate (demo_rrc_lib 18) 20 r1 (rrc_ue_new 3) = Some (0, r3, u3') \<and> sr_get u3' = sr_get u2'"
proof -
  let ?g = "(replicate 100 (replicate 80 0))[0 := replicate 80 1, 1 := replicate 80 2] :: u32 list list"
  let ?g2 = "?g[0 := (?g ! 0)[0 := ?g ! 0 ! 0 + 1]]"
  let ?g1 = "?g2[0 := (?g2 ! 0)[0 := 1]]"
  let ?u1 = "(rrc_ue_new 0)\<lparr>ux_sr_allocated := True\<rparr>"
  have g: "grid_ok ?g" by (auto simp: grid_ok_def set_conv_nth nth_list_update)
  have g2: "grid_ok ?g2" "grid_ok ?g1" by (auto simp: grid_ok_def set_conv_nth nth_list_update)
  obtain u2' where u2': "sr_allocate (demo_rrc_lib 18) 20 (demo_rrc\<lparr>rr_sr_sched := ?g\<rparr>) (rrc_ue_new 2) =
      Some (0, demo_rrc\<lparr>rr_sr_sched := ?g2\<rparr>, u2')" "ux_sr_sched_prb_idx u2' = 0" "ux_sr_sched_sf_idx u2' = 0"
    by (rule demo_alloc[of 18 ?g 0 "rrc_ue_new 2"]) (use g demo_max in simp_all)
  obtain u3' where u3': "sr_allocate (demo_rrc_lib 18) 20 (demo_rrc\<lparr>rr_sr_sched := ?g1\<rparr>) (rrc_ue_new 3) =
      Some (0, demo_rrc\<lparr>rr_sr_sched := ?g1[0 := (?g1 ! 0)[0 := ?g1 ! 0 ! 0 + 1]]\<rparr>, u3')"
      "ux_sr_sched_prb_idx u3' = 0" "ux_sr_sched_sf_idx u3' = 0"
    by (rule demo_alloc[of 18 ?g1 0 "rrc_ue_new 3"]) (use g2 demo_max in simp_all)
  have "sr_free (demo_rrc\<lparr>rr_sr_sched := ?g2\<rparr>) ?u1 = Some (demo_rrc\<lparr>rr_sr_sched := ?g1\<rparr>)"
    using g2 by (simp add: sr_free_def rrc_ue_new_def)
  then have "sr_get u3' = sr_get u2'"
    using sr_reuse_collides[OF u2'(1) _ _ _ _ _ u3'(1), of ?u1] u2' u3' g2
    by (simp add: rrc_ue_new_def)
  then show ?thesis using u3'(1) by blast
qed

end
