(* ===== verification/Rrc_Wf.thy ===== *)
theory Rrc_Wf
  imports Rrc_Slots
begin

text \<open>
  Every operation of the RRC returns on well-formed states and keeps them well formed, and the
  counters of the control channel never fall below the users that hold a resource.
\<close>

section \<open>Well-formed states\<close>

definition rrc_cfg_ok :: "rrc_lib \<Rightarrow> rrc \<Rightarrow> bool" where
  "rrc_cfg_ok B r \<longleftrightarrow>
     (let c = rr_cfg r; sr = rc_sr_cfg c; cq = rc_cqi_cfg c in
      unat (sr_nof_prb sr) \<le> 100 \<and> unat (sr_nof_subframes sr) \<le> 80 \<and> length (sr_sf_mapping sr) = 80 \<and>
      unat (cq_nof_prb cq) \<le> 100 \<and> unat (cq_nof_subframes cq) \<le> 80 \<and> length (cq_sf_mapping cq) = 80 \<and>
      length (rc_qci_cfg c) = 10 \<and> delta_pucch_shift_num B (s2_delta_pucch_shift (rr_sib2 r)) \<noteq> 0 \<and>
      (\<exists>s2 T N Ns. cfg_sib2 c = Some s2 \<and> paging_cfg B s2 = Some (T, N, Ns) \<and> N \<noteq> 0))"

definition sr_held :: "rrc_ue \<Rightarrow> (nat \<times> nat) option" where
  "sr_held u = (if ux_sr_allocated u then Some (ux_sr_sched_prb_idx u, ux_sr_sched_sf_idx u) else None)"

definition cqi_held :: "rrc_ue \<Rightarrow> (nat \<times> nat) option" where
  "cqi_held u = (if ux_cqi_allocated u then Some (ux_cqi_sched_prb_idx u, ux_cqi_sched_sf_idx u) else None)"

definition slot_ok :: "(nat \<times> nat) option \<Rightarrow> bool" where
  "slot_ok h \<longleftrightarrow> (case h of None \<Rightarrow> True | Some (i, j) \<Rightarrow> i < 100 \<and> j < 80)"

definition ue_ok :: "u16 \<Rightarrow> rrc_ue \<Rightarrow> bool" where
  "ue_ok k u \<longleftrightarrow> ux_rnti u = k \<and> ux_parent u \<and> slot_ok (sr_held u) \<and> slot_ok (cqi_held u)"

text \<open>The users that hold a slot.\<close>

definition holders :: "(rrc_ue \<Rightarrow> (nat \<times> nat) option) \<Rightarrow> rrc \<Rightarrow> nat \<times> nat \<Rightarrow> u16 set" where
  "holders held r s = {k. \<exists>u. rrc_user k r = Some u \<and> held u = Some s}"

text \<open>The counter of a slot may exceed the number of users the code means to put into it by one.\<close>

definition slot_limit :: "rrc_lib \<Rightarrow> rrc \<Rightarrow> nat" where
  "slot_limit B r = Suc (unat (max_of B r))"

definition accounted :: "nat \<Rightarrow> (rrc_ue \<Rightarrow> (nat \<times> nat) option) \<Rightarrow> u32 list list \<Rightarrow> rrc \<Rightarrow> bool" where
  "accounted M held g r \<longleftrightarrow> grid_ok g \<and>
     (\<forall>i < 100. \<forall>j < 80. card (holders held r (i, j)) \<le> unat (g ! i ! j) \<and> unat (g ! i ! j) \<le> M)"

definition rrc_wf :: "rrc_lib \<Rightarrow> rrc \<Rightarrow> bool" where
  "rrc_wf B r \<longleftrightarrow> rrc_cfg_ok B r \<and> (\<forall>k u. rrc_user k r = Some u \<longrightarrow> ue_ok k u) \<and>
     accounted (slot_limit B r) sr_held (rr_sr_sched r) r \<and> accounted (slot_limit B r) cqi_held (rr_cqi_sched r) r"

lemma wf_user: "rrc_wf B r \<Longrightarrow> rrc_user k r = Some u \<Longrightarrow> ue_ok k u"
  by (simp add: rrc_wf_def)

lemma finite_holders [simp]: "finite (holders held r s)"
  by (rule finite_subset[OF subset_UNIV]) simp

lemma rrc_user_put [simp]: "rrc_user k (put_rrc_user k' u r) = (if k = k' then Some u else rrc_user k r)"
  by (simp add: rrc_user_def put_rrc_user_def om.look_put)

text \<open>What does not matter for it.\<close>

lemma rrc_user_upd [simp]:
  "rrc_user k (r\<lparr>rr_rx_pdu_queue := q\<rparr>) = rrc_user k r" "rrc_user k (r\<lparr>rr_pending_paging := p\<rparr>) = rrc_user k r"
  "rrc_user k (r\<lparr>rr_bit_buf_paging := b\<rparr>) = rrc_user k r" "rrc_user k (r\<lparr>rr_sr_sched := g\<rparr>) = rrc_user k r"
  "rrc_user k (r\<lparr>rr_cqi_sched := g\<rparr>) = rrc_user k r"
  by (simp_all add: rrc_user_def)

lemma slot_limit_cong: "rr_cfg r = rr_cfg r' \<Longrightarrow> rr_sib2 r = rr_sib2 r' \<Longrightarrow> slot_limit B r = slot_limit B r'"
  by (simp add: slot_limit_def max_of_def slot_max_users_def)

lemma slot_limit_upd [simp]:
  "slot_limit B (put_rrc_user k u r) = slot_limit B r" "slot_limit B (r\<lparr>rr_sr_sched := g\<rparr>) = slot_limit B r"
  "slot_limit B (r\<lparr>rr_cqi_sched := g\<rparr>) = slot_limit B r" "slot_limit B (r\<lparr>rr_users := us\<rparr>) = slot_limit B r"
  by (rule slot_limit_cong; simp add: put_rrc_user_def)+

lemma slot_limit_le: "delta_pucch_shift_num B (s2_delta_pucch_shift (rr_sib2 r)) \<noteq> 0 \<Longrightarrow> slot_limit B r \<le> 37"
  using slot_max(2)[of B r] by (simp add: slot_limit_def word_le_nat_alt)

lemma holders_cong: "(\<And>k. rrc_user k r = rrc_user k r') \<Longrightarrow> holders held r = holders held r'"
  by (simp add: holders_def fun_eq_iff)

lemma accounted_cong: "(\<And>k. rrc_user k r = rrc_user k r') \<Longrightarrow> accounted M held g r = accounted M held g r'"
  using holders_cong[of r r' held] by (simp add: accounted_def)

lemma wf_cong:
  assumes "\<And>k. rrc_user k r = rrc_user k r'" "rr_cfg r = rr_cfg r'" "rr_sib2 r = rr_sib2 r'"
    "rr_sr_sched r = rr_sr_sched r'" "rr_cqi_sched r = rr_cqi_sched r'"
  shows "rrc_wf B r = rrc_wf B r'"
  using assms accounted_cong[of r r'] slot_limit_cong[OF assms(2,3)] by (simp add: rrc_wf_def rrc_cfg_ok_def)

lemma wf_other [simp]:
  "rrc_wf B (r\<lparr>rr_rx_pdu_queue := q\<rparr>) = rrc_wf B r" "rrc_wf B (r\<lparr>rr_pending_paging := p\<rparr>) = rrc_wf B r"
  "rrc_wf B (r\<lparr>rr_bit_buf_paging := b\<rparr>) = rrc_wf B r"
  by (rule wf_cong; simp)+

lemma wf_push [simp]: "rrc_wf B (rrc_push k l p r) = rrc_wf B r" "rrc_wf B (rem_user_thread k r) = rrc_wf B r"
  "rrc_wf B (rrc_rl_failure k r) = rrc_wf B r" "rrc_wf B (set_activity_user k r) = rrc_wf B r"
  "rrc_wf B (release_complete k r) = rrc_wf B r" "rrc_wf B (rrc_write_pdu k l pdu r) = rrc_wf B r"
  by (simp_all add: rrc_push_def rem_user_thread_def rrc_rl_failure_def set_activity_user_def release_complete_def
      rrc_write_pdu_def)

section \<open>Replacing a user\<close>

text \<open>The part of a user the invariant is about.\<close>

definition ue_keeps :: "rrc_ue \<Rightarrow> rrc_ue \<Rightarrow> bool" where
  "ue_keeps u u' \<longleftrightarrow> ux_rnti u' = ux_rnti u \<and> ux_parent u' = ux_parent u \<and> sr_held u' = sr_held u \<and> cqi_held u' = cqi_held u"

named_theorems keeps

lemma ue_keeps_refl [simp]: "ue_keeps u u"
  by (simp add: ue_keeps_def)

lemma ue_keeps_trans [trans]: "ue_keeps u v \<Longrightarrow> ue_keeps v w \<Longrightarrow> ue_keeps u w"
  by (simp add: ue_keeps_def)

lemma keeps_rnti: "ue_keeps u u' \<Longrightarrow> ux_rnti u' = ux_rnti u"
  by (simp add: ue_keeps_def)

lemma keeps_ok: "ue_keeps u u' \<Longrightarrow> ue_ok k u \<Longrightarrow> ue_ok k u'"
  by (simp add: ue_keeps_def ue_ok_def)

lemma keeps_upd [keeps]:
  "ue_keeps u (u\<lparr>ux_state := x1\<rparr>)" "ue_keeps u (u\<lparr>ux_t_last_activity := x2\<rparr>)" "ue_keeps u (u\<lparr>ux_transaction_id := x3\<rparr>)"
  "ue_keeps u (u\<lparr>ux_erabs := x4\<rparr>)" "ue_keeps u (u\<lparr>ux_nas_pending := x5\<rparr>)" "ue_keeps u (u\<lparr>ux_erab_info := x6\<rparr>)"
  "ue_keeps u (u\<lparr>ux_bitrates := x7\<rparr>)" "ue_keeps u (u\<lparr>ux_security_capabilities := x8\<rparr>)" "ue_keeps u (u\<lparr>ux_rlf_cnt := x9\<rparr>)"
  "ue_keeps u (u\<lparr>ux_eutra_capabilities := x10\<rparr>)" "ue_keeps u (u\<lparr>ux_connect_notified := x11\<rparr>)"
  "ue_keeps u (u\<lparr>ux_establishment_cause := x12\<rparr>)"
  "ue_keeps u (u\<lparr>ux_mmec := x13, ux_m_tmsi := x14, ux_has_tmsi := x15\<rparr>)"
  "ue_keeps u (u\<lparr>ux_k_enb := y1, ux_cipher_algo := y2, ux_integ_algo := y3, ux_k_rrc_enc := y4,
            ux_k_rrc_int := y5, ux_k_up_enc := y6, ux_k_up_int := y7\<rparr>)"
  by (simp_all add: ue_keeps_def sr_held_def cqi_held_def)

lemma holders_put: "holders held (put_rrc_user k u r) s \<subseteq> insert k (holders held r s)"
  by (auto simp: holders_def split: if_splits)

lemma holders_keep:
  assumes "rrc_user k r = Some u" "held u' = held u"
  shows "holders held (put_rrc_user k u' r) s = holders held r s"
  using assms by (auto simp: holders_def split: if_splits)

lemma put_sel [simp]: "rr_sr_sched (put_rrc_user k u r) = rr_sr_sched r" "rr_cqi_sched (put_rrc_user k u r) = rr_cqi_sched r"
  "rr_cfg (put_rrc_user k u r) = rr_cfg r" "rr_sib2 (put_rrc_user k u r) = rr_sib2 r"
  by (simp_all add: put_rrc_user_def)

lemma cfg_ok_put [simp]: "rrc_cfg_ok B (put_rrc_user k u r) = rrc_cfg_ok B r"
  by (simp add: rrc_cfg_ok_def)

lemma wf_put_keeps:
  assumes "rrc_wf B r" "rrc_user k r = Some u" "ue_keeps u u'"
  shows "rrc_wf B (put_rrc_user k u' r)"
proof -
  have "holders sr_held (put_rrc_user k u' r) s = holders sr_held r s"
    "holders cqi_held (put_rrc_user k u' r) s = holders cqi_held r s" for s
    using assms(2,3) by (simp_all add: holders_keep ue_keeps_def)
  then show ?thesis
    using assms keeps_ok[OF assms(3)] by (simp add: rrc_wf_def accounted_def)
qed

section \<open>The operations of a user\<close>

lemma keeps_ops [keeps]:
  "ue_keeps u (snd (next_transaction u))" "ue_keeps u (ux_set_activity now u)" "ue_keeps u (snd (ux_rl_failure u))"
  "ue_keeps u (snd (is_timeout r now u))" "ue_keeps u (put_erab i e u)" "ue_keeps u (snd (release_erabs u))"
  "ue_keeps u (set_bitrates b u)" "ue_keeps u (set_security_capabilities b u)" "ue_keeps u (fst (set_security_key B key u))"
  by (simp_all add: next_transaction_def ux_set_activity_def ux_rl_failure_def is_timeout_def put_erab_def release_erabs_def
      set_bitrates_def set_security_capabilities_def set_security_key_def keeps case_prod_beta Let_def
      ue_keeps_def sr_held_def cqi_held_def)

lemma keeps_send [keeps]:
  "ue_keeps u (fst (send_connection_release B u))" "ue_keeps u (fst (send_security_mode_command B u))"
  "ue_keeps u (fst (send_connection_reconf_upd B r u))"
  by (simp_all add: send_connection_release_def send_security_mode_command_def send_connection_reconf_upd_def
      case_prod_beta Let_def keeps ue_keeps_trans[OF _ keeps_upd(1)])

lemma keeps_cap_info [keeps]: "ue_keeps u (handle_ue_cap_info caps u)"
proof -
  have "ue_keeps v (fold (\<lambda>(is_eutra, _) u. if is_eutra then u\<lparr>ux_eutra_capabilities := c\<rparr> else u) xs v)" for v xs and c :: blob
  proof (induction xs arbitrary: v)
    case (Cons x xs)
    show ?case
      by (cases x) (use Cons ue_keeps_trans[OF keeps_upd(10) Cons] in simp)
  qed simp
  then show ?thesis by (simp add: handle_ue_cap_info_def)
qed

lemma get_drbid_total:
  assumes "rrc_cfg_ok B r"
  shows "\<exists>drb u'. get_drbid_config r d u = Some (drb, u') \<and> ue_keeps u u'"
proof -
  have "length (rc_qci_cfg (rr_cfg r)) = 10" using assms by (simp add: rrc_cfg_ok_def Let_def)
  then show ?thesis
    by (auto simp: get_drbid_config_def Let_def keeps MAX_NOF_QCI_def linorder_not_le word_less_nat_alt)
qed

lemma reconf_total:
  assumes "rrc_cfg_ok B r"
  shows "\<exists>u' cs. send_connection_reconf B P r u = Some (u', cs) \<and> ue_keeps u u'"
proof -
  obtain drb v where v: "get_drbid_config r 1 (snd (next_transaction u)) = Some (drb, v)" "ue_keeps (snd (next_transaction u)) v"
    using get_drbid_total[OF assms] by blast
  have k: "ue_keeps u v" using keeps_ops(1) v(2) by (rule ue_keeps_trans)
  show ?thesis
    using v k by (cases drb) (auto simp: send_connection_reconf_def case_prod_beta Let_def keeps intro: ue_keeps_trans[OF k])
qed

text \<open>The E-RABs whose channels GTP-U has room for.\<close>

definition erab_ids_ok :: "erab_item list \<Rightarrow> bool" where
  "erab_ids_ok es \<longleftrightarrow> (\<forall>e \<in> set es. unat (erab_lcid (ei_e_RAB_ID e)) < SRSENB_N_RADIO_BEARERS)"

lemma unat_ucast_u8: "unat (ucast x :: u32) = unat x" for x :: u8
  by (simp add: unsigned_ucast_eq unsigned_take_bit_eq take_bit_nat_eq_self order_less_trans[OF unsigned_less])

lemma setup_erab_total:
  assumes "unat (erab_lcid i) < SRSENB_N_RADIO_BEARERS"
  shows "\<exists>u' cs. setup_erab B i qos addr teid nas u = Some (u', cs) \<and> ue_keeps u u'"
  using assms
  by (auto simp: setup_erab_def Let_def unat_ucast_u8 put_erab_def linorder_not_le ue_keeps_def sr_held_def cqi_held_def
      split: option.splits)

lemma erab_items_total:
  "erab_ids_ok es \<Longrightarrow> \<exists>ok u' cs. setup_erab_items B es u = Some (ok, u', cs) \<and> ue_keeps u u'"
proof (induction es arbitrary: u)
  case (Cons e es)
  obtain v cs where v: "setup_erab_item B e u = Some (v, cs)" "ue_keeps u v"
    using setup_erab_total[of "ei_e_RAB_ID e"] Cons.prems by (force simp: setup_erab_item_def erab_ids_ok_def)
  obtain ok w ds where "setup_erab_items B es v = Some (ok, w, ds)" "ue_keeps v w"
    using Cons by (force simp: erab_ids_ok_def)
  then show ?case using v by (auto intro: ue_keeps_trans)
qed auto

lemma new_bearer_total:
  assumes "rrc_cfg_ok B r" "length nas + length es \<le> RRC_MAX_NAS B"
  shows "\<exists>res u' cs. new_bearer_items B P r lcg es drbs nas u = Some (res, u', cs) \<and> ue_keeps u u'"
  using assms(2)
proof (induction es arbitrary: drbs nas u)
  case (Cons e es)
  let ?l = "erab_lcid (ei_e_RAB_ID e)"
  obtain drb v where v: "get_drbid_config r (int (unat ?l) - 2) u = Some (drb, v)" "ue_keeps u v"
    using get_drbid_total[OF assms(1)] by blast
  show ?case
  proof (cases drb)
    case None
    then show ?thesis
      using v ue_keeps_trans[OF v(2) keeps_ops(5)] by (simp add: Let_def)
  next
    case (Some d)
    obtain res w cs where "new_bearer_items B P r lcg es (drbs @ [d]) (nas @ [ux_erab_info v]) v = Some (res, w, cs)" "ue_keeps v w"
      using Cons.IH[of "nas @ [ux_erab_info v]"] Cons.prems by force
    then show ?thesis using v Some Cons.prems by (auto simp: Let_def intro: ue_keeps_trans)
  qed
qed simp

lemma keeps_notify: "ue_keeps u (fst (notify_s1ap_ue_erab_setup_response B es u))"
proof -
  have "ue_keeps v (fold (\<lambda>e u. put_erab (ei_e_RAB_ID e) (erab_at (ei_e_RAB_ID e) u) u) xs v)" for v xs
  proof (induction xs arbitrary: v)
    case (Cons x xs)
    show ?case using ue_keeps_trans[OF keeps_ops(5) Cons] by simp
  qed simp
  then show ?thesis by (simp add: notify_s1ap_ue_erab_setup_response_def Let_def)
qed

lemma setup_erabs_total:
  assumes "rrc_cfg_ok B r" "erab_ids_ok es" "length stale + length es \<le> RRC_MAX_NAS B"
  shows "\<exists>ok u' cs. setup_erabs B P r stale lcg es u = Some (ok, u', cs) \<and> ue_keeps u u'"
proof -
  obtain ok v cs where v: "setup_erab_items B es u = Some (ok, v, cs)" "ue_keeps u v"
    using erab_items_total[OF assms(2)] by blast
  let ?w = "fst (notify_s1ap_ue_erab_setup_response B es v)"
  obtain res x ds where x: "new_bearer_items B P r lcg es [] stale (snd (next_transaction ?w)) = Some (res, x, ds)"
      "ue_keeps (snd (next_transaction ?w)) x"
    using new_bearer_total[OF assms(1), of stale es] assms(3) by blast
  have k: "ue_keeps u x"
    using v(2) keeps_notify[of v B es] keeps_ops(1)[of ?w] x(2) by (blast intro: ue_keeps_trans)
  have "send_connection_reconf_new_bearer B P r stale lcg es ?w \<noteq> None"
    "\<And>y fs. send_connection_reconf_new_bearer B P r stale lcg es ?w = Some (y, fs) \<Longrightarrow> y = x"
    using x(1) by (auto simp: send_connection_reconf_new_bearer_def case_prod_beta Let_def)
  then obtain fs where "send_connection_reconf_new_bearer B P r stale lcg es ?w = Some (x, fs)" by (metis not_Some_eq surj_pair)
  then show ?thesis using v k by (auto simp: setup_erabs_def case_prod_beta)
qed

lemma parse_dcch_total:
  assumes "rrc_cfg_ok B r"
  shows "\<exists>u' cs. ux_parse_ul_dcch B P now pdu r u = Some (u', cs) \<and> ue_keeps u u'"
proof -
  let ?v = "(ux_set_activity now u)\<lparr>ux_transaction_id := 0\<rparr>"
  have v: "ue_keeps u ?v" by (rule ue_keeps_trans[OF keeps_ops(2) keeps_upd(3)])
  have reconf: "\<exists>u' cs. send_connection_reconf B P r w = Some (u', cs) \<and> ue_keeps u (u'\<lparr>ux_state := st\<rparr>)"
    if "ue_keeps u w" for w st
    using reconf_total[OF assms, of P w] that by (blast intro: ue_keeps_trans keeps_upd(1))
  show ?thesis
  proof (cases "unpack_ul_dcch_msg B (take (unat (bb_n_bytes pdu)) (bb_msg pdu))")
    case (Ue_Capability_Info caps)
    obtain w cs where "send_connection_reconf B P r (handle_ue_cap_info caps ?v) = Some (w, cs)"
        "ue_keeps u (w\<lparr>ux_state := RRC_STATE_WAIT_FOR_CON_RECONF_COMPLETE\<rparr>)"
      using reconf[OF ue_keeps_trans[OF v keeps_cap_info[of ?v caps]]] by blast
    then show ?thesis using Ue_Capability_Info by (simp add: ux_parse_ul_dcch_def Let_def)
  next
    case Security_Mode_Complete
    obtain w cs where "send_connection_reconf B P r ?v = Some (w, cs)"
        "ue_keeps u (w\<lparr>ux_state := RRC_STATE_WAIT_FOR_CON_RECONF_COMPLETE\<rparr>)"
      using reconf[OF v] by blast
    then show ?thesis using Security_Mode_Complete by (simp add: ux_parse_ul_dcch_def Let_def)
  qed (use v ue_keeps_trans[OF v keeps_upd(1)] in \<open>auto simp: ux_parse_ul_dcch_def Let_def handle_rrc_con_setup_complete_def\<close>)
qed

section \<open>Taking and giving back resources\<close>

lemma accounted_take:
  assumes "accounted M held g r" "\<And>k. rrc_user k r' = (if k = k0 then Some u' else rrc_user k r)" "held u' = Some (i, j)"
    "i < 100" "j < 80" "unat (g ! i ! j) < M" "M \<le> 37"
  shows "accounted M held (g[i := (g ! i)[j := g ! i ! j + 1]]) r'"
proof -
  let ?g = "g[i := (g ! i)[j := g ! i ! j + 1]]"
  have g: "grid_ok g" using assms(1) by (simp add: accounted_def)
  have sub: "holders held r' s \<subseteq> (if s = (i, j) then insert k0 (holders held r s) else holders held r s)" for s
    using assms(2,3) by (auto simp: holders_def split: if_splits)
  have "card (holders held r' (a, b)) \<le> unat (?g ! a ! b) \<and> unat (?g ! a ! b) \<le> M" if ab: "a < 100" "b < 80" for a b
  proof -
    have old: "card (holders held r (a, b)) \<le> unat (g ! a ! b) \<and> unat (g ! a ! b) \<le> M"
      using assms(1) ab by (simp add: accounted_def)
    show ?thesis
    proof (cases "a = i \<and> b = j")
      case True
      have "card (holders held r' (a, b)) \<le> card (insert k0 (holders held r (a, b)))"
        by (rule card_mono) (use sub[of "(a, b)"] True in simp_all)
      also have "\<dots> \<le> Suc (card (holders held r (a, b)))" by (rule card_insert_le_m1) (simp_all add: card_insert_if)
      finally show ?thesis
        using old True assms(4-7) grid_upd_at[OF g, of i j "g ! i ! j + 1"] by (simp add: unat_inc)
    next
      case False
      have "card (holders held r' (a, b)) \<le> card (holders held r (a, b))"
        by (rule card_mono) (use sub[of "(a, b)"] False in auto)
      moreover have "?g ! a ! b = g ! a ! b"
        using grid_upd_at[OF g assms(4,5), of _ a b] False by auto
      ultimately show ?thesis using old by simp
    qed
  qed
  then show ?thesis using grid_upd[OF g assms(4)] by (simp add: accounted_def)
qed

lemma accounted_mono:
  assumes "accounted M held g r" "\<And>s. holders held r' s \<subseteq> holders held r s"
  shows "accounted M held g r'"
  using assms(1) card_mono[OF finite_holders assms(2)] by (simp add: accounted_def) (meson order_trans)

lemma accounted_same:
  assumes "accounted M held g r" "\<And>k. rrc_user k r' = (if k = k0 then Some u' else rrc_user k r)"
    "rrc_user k0 r = Some u" "held u' = held u"
  shows "accounted M held g r'"
  by (rule accounted_mono[OF assms(1)]) (use assms(2-4) in \<open>auto simp: holders_def split: if_splits\<close>)

text \<open>A state together with the new value of one of its users.\<close>

definition wf_with :: "rrc_lib \<Rightarrow> u16 \<Rightarrow> rrc \<Rightarrow> rrc_ue \<Rightarrow> bool" where
  "wf_with B k r u \<longleftrightarrow> rrc_wf B (put_rrc_user k u r)"

lemma wf_withI: "rrc_wf B r \<Longrightarrow> rrc_user k r = Some u \<Longrightarrow> wf_with B k r u"
  using wf_put_keeps[of B r k u u] by (simp add: wf_with_def)

lemma wf_with_keeps: "wf_with B k r u \<Longrightarrow> ue_keeps u u' \<Longrightarrow> wf_with B k r u'"
proof -
  assume a: "wf_with B k r u" "ue_keeps u u'"
  have "rrc_wf B (put_rrc_user k u' (put_rrc_user k u r))"
    using a by - (rule wf_put_keeps[of B "put_rrc_user k u r" k u]; simp add: wf_with_def)
  moreover have "rrc_wf B (put_rrc_user k u' (put_rrc_user k u r)) = rrc_wf B (put_rrc_user k u' r)"
    by (rule wf_cong) simp_all
  ultimately show ?thesis by (simp add: wf_with_def)
qed

lemma wf_with_cfg: "wf_with B k r u \<Longrightarrow> rrc_cfg_ok B r"
  by (simp add: wf_with_def rrc_wf_def)

lemma wf_with_ue: "wf_with B k r u \<Longrightarrow> ue_ok k u"
  by (simp add: wf_with_def rrc_wf_def)

lemma wf_with_grid: "wf_with B k r u \<Longrightarrow> grid_ok (rr_sr_sched r) \<and> grid_ok (rr_cqi_sched r)"
  by (simp add: wf_with_def rrc_wf_def accounted_def)

lemma cfg_ok_grids [simp]: "rrc_cfg_ok B (r\<lparr>rr_sr_sched := g\<rparr>) = rrc_cfg_ok B r" "rrc_cfg_ok B (r\<lparr>rr_cqi_sched := g\<rparr>) = rrc_cfg_ok B r"
  by (simp_all add: rrc_cfg_ok_def)

lemma cfg_delta: "rrc_cfg_ok B r \<Longrightarrow> delta_pucch_shift_num B (s2_delta_pucch_shift (rr_sib2 r)) \<noteq> 0"
  by (simp add: rrc_cfg_ok_def Let_def)

lemma sr_allocate_total:
  assumes "wf_with B k r u"
  shows "\<exists>e r' u'. sr_allocate B p r u = Some (e, r', u') \<and> wf_with B k r' u'"
proof -
  let ?g = "rr_sr_sched r" and ?c = "rc_sr_cfg (rr_cfg r)"
  have cfg: "unat (sr_nof_prb ?c) \<le> 100" "unat (sr_nof_subframes ?c) \<le> 80" "length (sr_sf_mapping ?c) = 80"
    using wf_with_cfg[OF assms] by (simp_all add: rrc_cfg_ok_def Let_def)
  have g: "grid_ok ?g" using wf_with_grid[OF assms] by simp
  obtain i j where ij: "least_used ?g (sr_nof_prb ?c) (sr_nof_subframes ?c) = Some (i, j)" "i < 100" "j < 80"
    using least_used_in[OF g cfg(1,2)] by blast
  note M = slot_max[OF cfg_delta[OF wf_with_cfg[OF assms]]]
  have take: "wf_with B k (r\<lparr>rr_sr_sched := ?g[i := (?g ! i)[j := ?g ! i ! j + 1]]\<rparr>) u'"
    if n: "?g ! i ! j \<le> max_of B r" and u': "ux_rnti u' = ux_rnti u" "ux_parent u' = ux_parent u" "sr_held u' = Some (i, j)"
      "cqi_held u' = cqi_held u" for u'
  proof -
    have w: "rrc_wf B (put_rrc_user k u r)" using assms by (simp add: wf_with_def)
    have w1: "accounted (slot_limit B r) sr_held ?g (put_rrc_user k u r)" and w2: "accounted (slot_limit B r) cqi_held (rr_cqi_sched r) (put_rrc_user k u r)"
      using w by (simp_all add: rrc_wf_def)
    have lim: "unat (?g ! i ! j) < slot_limit B r" "slot_limit B r \<le> 37"
      using n slot_limit_le[OF cfg_delta[OF wf_with_cfg[OF assms]]] by (simp_all add: slot_limit_def word_le_nat_alt)
    then have "accounted (slot_limit B r) sr_held (?g[i := (?g ! i)[j := ?g ! i ! j + 1]]) (put_rrc_user k u' r)"
      by (intro accounted_take[where ?k0.0 = k, OF w1 _ u'(3) ij(2,3) lim]) simp_all
    moreover have "accounted (slot_limit B r) cqi_held (rr_cqi_sched r) (put_rrc_user k u' r)"
      by (rule accounted_same[where ?k0.0 = k, OF w2 _ _ u'(4)]) simp_all
    moreover have "ue_ok k u'" using wf_with_ue[OF assms] u' ij by (simp add: ue_ok_def slot_ok_def)
    ultimately show ?thesis
      using w accounted_cong[of "put_rrc_user k u' (r\<lparr>rr_sr_sched := ?g[i := (?g ! i)[j := ?g ! i ! j + 1]]\<rparr>)" "put_rrc_user k u' r"]
      by (auto simp: wf_with_def rrc_wf_def split: if_splits)
  qed
  let ?r = "r\<lparr>rr_sr_sched := ?g[i := (?g ! i)[j := ?g ! i ! j + 1]]\<rparr>"
  let ?u = "u\<lparr>ux_sr_sched_prb_idx := i, ux_sr_sched_sf_idx := j, ux_sr_allocated := True, ux_sr_I := p - 5 + sr_sf_mapping ?c ! j,
    ux_sr_N_pucch := slot_n_pucch r i (max_of B r) (?g ! i ! j)\<rparr>"
  have eq: "sr_allocate B p r u = (if max_of B r < ?g ! i ! j then Some (-1, r, u)
      else if p \<notin> {5, 10, 20, 40, 80} then Some (-1, r, u)
      else if sr_sf_mapping ?c ! j < p then Some (0, ?r, ?u) else Some (-1, r, u))"
    using ij M(1) g cfg(3) by (simp add: sr_allocate_def Let_def del: insert_iff)
  have "wf_with B k ?r ?u" if "\<not> max_of B r < ?g ! i ! j"
    using that by (intro take) (simp_all add: sr_held_def cqi_held_def)
  then show ?thesis using assms unfolding eq by (simp del: insert_iff)
qed

lemma cqi_allocate_total:
  assumes "wf_with B k r u"
  shows "\<exists>e r' u'. cqi_allocate B p r u = Some (e, r', u') \<and> wf_with B k r' u'"
proof -
  let ?g = "rr_cqi_sched r" and ?c = "rc_cqi_cfg (rr_cfg r)"
  have cfg: "unat (cq_nof_prb ?c) \<le> 100" "unat (cq_nof_subframes ?c) \<le> 80" "length (cq_sf_mapping ?c) = 80"
    using wf_with_cfg[OF assms] by (simp_all add: rrc_cfg_ok_def Let_def)
  have g: "grid_ok ?g" using wf_with_grid[OF assms] by simp
  obtain i j where ij: "least_used ?g (cq_nof_prb ?c) (cq_nof_subframes ?c) = Some (i, j)" "i < 100" "j < 80"
    using least_used_in[OF g cfg(1,2)] by blast
  note M = slot_max[OF cfg_delta[OF wf_with_cfg[OF assms]]]
  have take: "wf_with B k (r\<lparr>rr_cqi_sched := ?g[i := (?g ! i)[j := ?g ! i ! j + 1]]\<rparr>) u'"
    if n: "?g ! i ! j \<le> max_of B r" and u': "ux_rnti u' = ux_rnti u" "ux_parent u' = ux_parent u" "cqi_held u' = Some (i, j)"
      "sr_held u' = sr_held u" for u'
  proof -
    have w: "rrc_wf B (put_rrc_user k u r)" using assms by (simp add: wf_with_def)
    have w1: "accounted (slot_limit B r) cqi_held ?g (put_rrc_user k u r)" and w2: "accounted (slot_limit B r) sr_held (rr_sr_sched r) (put_rrc_user k u r)"
      using w by (simp_all add: rrc_wf_def)
    have lim: "unat (?g ! i ! j) < slot_limit B r" "slot_limit B r \<le> 37"
      using n slot_limit_le[OF cfg_delta[OF wf_with_cfg[OF assms]]] by (simp_all add: slot_limit_def word_le_nat_alt)
    then have "accounted (slot_limit B r) cqi_held (?g[i := (?g ! i)[j := ?g ! i ! j + 1]]) (put_rrc_user k u' r)"
      by (intro accounted_take[where ?k0.0 = k, OF w1 _ u'(3) ij(2,3) lim]) simp_all
    moreover have "accounted (slot_limit B r) sr_held (rr_sr_sched r) (put_rrc_user k u' r)"
      by (rule accounted_same[where ?k0.0 = k, OF w2 _ _ u'(4)]) simp_all
    moreover have "ue_ok k u'" using wf_with_ue[OF assms] u' ij by (simp add: ue_ok_def slot_ok_def)
    ultimately show ?thesis
      using w accounted_cong[of "put_rrc_user k u' (r\<lparr>rr_cqi_sched := ?g[i := (?g ! i)[j := ?g ! i ! j + 1]]\<rparr>)" "put_rrc_user k u' r"]
      by (auto simp: wf_with_def rrc_wf_def split: if_splits)
  qed
  let ?r = "r\<lparr>rr_cqi_sched := ?g[i := (?g ! i)[j := ?g ! i ! j + 1]]\<rparr>"
  let ?u = "u\<lparr>ux_cqi_sched_prb_idx := i, ux_cqi_sched_sf_idx := j, ux_cqi_allocated := True, ux_cqi_idx := cqi_pmi_idx p (cq_sf_mapping ?c ! j),
    ux_cqi_pucch := slot_n_pucch r i (max_of B r) (?g ! i ! j)\<rparr>"
  have eq: "cqi_allocate B p r u = (if max_of B r < ?g ! i ! j then Some (-1, r, u)
      else if \<not> cqi_period_valid p then Some (-1, r, u)
      else if cq_sf_mapping ?c ! j < p then Some (0, ?r, ?u) else Some (-1, r, u))"
    using ij M(1) g cfg(3) by (simp add: cqi_allocate_def Let_def del: insert_iff)
  have "wf_with B k ?r ?u" if "\<not> max_of B r < ?g ! i ! j"
    using that by (intro take) (simp_all add: sr_held_def cqi_held_def)
  then show ?thesis using assms unfolding eq by (simp del: insert_iff)
qed

lemma setup_total:
  assumes "wf_with B k r u"
  shows "\<exists>r' u' cs. send_connection_setup B P is_setup r u = Some (r', u', cs) \<and> wf_with B k r' u'"
proof -
  let ?u = "snd (next_transaction u)"
  have w: "wf_with B k r ?u" using assms keeps_ops(1) by (rule wf_with_keeps)
  obtain e r1 u1 where s1: "setup_sr B is_setup r ?u = Some (e, r1, u1)" "wf_with B k r1 u1"
    using sr_allocate_total[OF w, of "sr_period (rc_sr_cfg (rr_cfg r))"] w by (cases is_setup) (auto simp: setup_sr_def)
  obtain e' r2 u2 where s2: "setup_cqi B is_setup r1 u1 = Some (e', r2, u2)" "wf_with B k r2 u2"
    using cqi_allocate_total[OF s1(2), of "cq_period (rc_cqi_cfg (rr_cfg r1))"] s1(2)
    by (cases "cq_mode (rc_cqi_cfg (rr_cfg r1)) = CQI_MODE_APERIODIC"; cases is_setup) (auto simp: setup_cqi_def)
  show ?thesis
    using s1 s2 by (cases "e = 0"; cases "e' = 0") (simp_all add: send_connection_setup_def case_prod_beta Let_def)
qed

lemma con_req_total:
  assumes "wf_with B k r u"
  shows "\<exists>r' u' cs. handle_rrc_con_req B P now msg r u = Some (r', u', cs) \<and> wf_with B k r' u'"
proof -
  let ?v = "case cx_s_tmsi msg of Some (mmec, m_tmsi) \<Rightarrow>
      (ux_set_activity now u)\<lparr>ux_mmec := mmec, ux_m_tmsi := m_tmsi, ux_has_tmsi := True\<rparr> | None \<Rightarrow> ux_set_activity now u"
  have "ue_keeps (ux_set_activity now u) ?v" by (auto split: option.splits simp: keeps)
  then have "wf_with B k r (?v\<lparr>ux_establishment_cause := cx_cause msg\<rparr>)"
    using wf_with_keeps[OF assms ue_keeps_trans[OF ue_keeps_trans[OF keeps_ops(2)] keeps_upd(12)]] by blast
  then obtain r' u' cs where "send_connection_setup B P True r (?v\<lparr>ux_establishment_cause := cx_cause msg\<rparr>) = Some (r', u', cs)"
      "wf_with B k r' u'" using setup_total by blast
  then show ?thesis
    using wf_with_keeps[OF _ keeps_upd(1)] by (fastforce simp: handle_rrc_con_req_def Let_def)
qed

lemma free_accounted:
  assumes "accounted M held g r" "\<And>k'. rrc_user k' r' = (if k' = k then None else rrc_user k' r)" "rrc_user k r = Some u"
  shows "held u = None \<Longrightarrow> accounted M held g r'"
    and "held u = Some (i, j) \<Longrightarrow> i < 100 \<Longrightarrow> j < 80 \<Longrightarrow>
      0 < g ! i ! j \<and> accounted M held (g[i := (g ! i)[j := g ! i ! j - 1]]) r'"
proof -
  have sub: "holders held r' s \<subseteq> holders held r s" for s
    using assms(2) by (auto simp: holders_def split: if_splits)
  then show "accounted M held g r'" using accounted_mono[OF assms(1)] by blast
  assume h: "held u = Some (i, j)" "i < 100" "j < 80"
  have g: "grid_ok g" using assms(1) by (simp add: accounted_def)
  have k: "k \<in> holders held r (i, j)" "k \<notin> holders held r' (i, j)" using assms(2,3) h(1) by (simp_all add: holders_def)
  have "card (holders held r' (i, j)) < card (holders held r (i, j))"
    by (rule psubset_card_mono) (use sub k in auto)
  moreover have "card (holders held r (i, j)) \<le> unat (g ! i ! j)" using assms(1) h(2,3) by (simp add: accounted_def)
  ultimately have c: "card (holders held r' (i, j)) < unat (g ! i ! j)" by simp
  then have p: "0 < g ! i ! j" by (simp add: word_less_nat_alt)
  have d: "unat (g ! i ! j - 1) = unat (g ! i ! j) - 1" using p by (simp add: unat_minus_one word_gt_0)
  let ?g = "g[i := (g ! i)[j := g ! i ! j - 1]]"
  have "card (holders held r' (a, b)) \<le> unat (?g ! a ! b) \<and> unat (?g ! a ! b) \<le> M" if "a < 100" "b < 80" for a b
  proof -
    have "card (holders held r' (a, b)) \<le> card (holders held r (a, b))" by (rule card_mono) (use sub in simp_all)
    moreover have "card (holders held r (a, b)) \<le> unat (g ! a ! b) \<and> unat (g ! a ! b) \<le> M"
      using assms(1) that by (simp add: accounted_def)
    ultimately show ?thesis using c d grid_upd_at[OF g h(2,3), of _ a b] by auto
  qed
  then show "0 < g ! i ! j \<and> accounted M held ?g r'" using p grid_upd[OF g h(2)] by (simp add: accounted_def)
qed

lemma rrc_user_del [simp]: "rrc_user k (r\<lparr>rr_users := omap_del k' (rr_users r)\<rparr>) = (if k = k' then None else rrc_user k r)"
  by (simp add: rrc_user_def om.look_del)

lemma rem_user_total:
  assumes "rrc_wf B r"
  shows "\<exists>r' cs. rem_user rnti r = Some (r', cs) \<and> rrc_wf B r'"
proof (cases "rrc_user rnti r")
  case (Some u)
  let ?d = "r\<lparr>rr_users := omap_del rnti (rr_users r)\<rparr>"
  have ok: "slot_ok (sr_held u)" "slot_ok (cqi_held u)" using wf_user[OF assms Some] by (simp_all add: ue_ok_def)
  have acc: "accounted (slot_limit B r) sr_held (rr_sr_sched r) r" "accounted (slot_limit B r) cqi_held (rr_cqi_sched r) r" using assms by (simp_all add: rrc_wf_def)
  then have g: "grid_ok (rr_sr_sched r)" "grid_ok (rr_cqi_sched r)" by (simp_all add: accounted_def)
  note free = free_accounted[where k = rnti and r' = ?d, OF _ _ Some]
  have "\<exists>g1. sr_free r u = Some (r\<lparr>rr_sr_sched := g1\<rparr>) \<and> accounted (slot_limit B r) sr_held g1 ?d"
  proof (cases "ux_sr_allocated u")
    case False
    then show ?thesis using free(1)[OF acc(1)] by (intro exI[of _ "rr_sr_sched r"]) (simp add: sr_free_def sr_held_def)
  next
    case True
    then show ?thesis
      using free(2)[OF acc(1), of "ux_sr_sched_prb_idx u" "ux_sr_sched_sf_idx u"] ok(1) g(1)
      by (intro exI[of _ "(rr_sr_sched r)[ux_sr_sched_prb_idx u := (rr_sr_sched r ! ux_sr_sched_prb_idx u)[ux_sr_sched_sf_idx u := rr_sr_sched r ! ux_sr_sched_prb_idx u ! ux_sr_sched_sf_idx u - 1]]"])
        (simp add: sr_free_def sr_held_def slot_ok_def)
  qed
  then obtain g1 where g1: "sr_free r u = Some (r\<lparr>rr_sr_sched := g1\<rparr>)" "accounted (slot_limit B r) sr_held g1 ?d" by blast
  have "\<exists>g2. cqi_free (r\<lparr>rr_sr_sched := g1\<rparr>) u = Some (r\<lparr>rr_sr_sched := g1, rr_cqi_sched := g2\<rparr>) \<and> accounted (slot_limit B r) cqi_held g2 ?d"
  proof (cases "ux_cqi_allocated u")
    case False
    then show ?thesis using free(1)[OF acc(2)] by (intro exI[of _ "rr_cqi_sched r"]) (simp add: cqi_free_def cqi_held_def)
  next
    case True
    then show ?thesis
      using free(2)[OF acc(2), of "ux_cqi_sched_prb_idx u" "ux_cqi_sched_sf_idx u"] ok(2) g(2)
      by (intro exI[of _ "(rr_cqi_sched r)[ux_cqi_sched_prb_idx u := (rr_cqi_sched r ! ux_cqi_sched_prb_idx u)[ux_cqi_sched_sf_idx u := rr_cqi_sched r ! ux_cqi_sched_prb_idx u ! ux_cqi_sched_sf_idx u - 1]]"])
        (simp add: cqi_free_def cqi_held_def slot_ok_def)
  qed
  then obtain g2 where g2: "cqi_free (r\<lparr>rr_sr_sched := g1\<rparr>) u = Some (r\<lparr>rr_sr_sched := g1, rr_cqi_sched := g2\<rparr>)"
      "accounted (slot_limit B r) cqi_held g2 ?d" by blast
  let ?r = "r\<lparr>rr_sr_sched := g1, rr_cqi_sched := g2, rr_users := omap_del rnti (rr_users r)\<rparr>"
  have users: "rrc_user k ?r = rrc_user k ?d" for k by (simp add: rrc_user_def)
  have "rrc_wf B ?r"
    using assms g1(2) g2(2) accounted_cong[of ?r ?d, OF users]
    by (auto simp: rrc_wf_def rrc_cfg_ok_def users split: if_splits)
  then show ?thesis using Some g1(1) g2(1) by (simp add: rem_user_def)
qed (use assms in \<open>simp add: rem_user_def\<close>)

section \<open>All operations\<close>

datatype rrc_op =
    Ro_Add_User u16
  | Ro_Upd_User u16 u16
  | Ro_Rl_Failure u16
  | Ro_Activity u16
  | Ro_Release_Complete u16
  | Ro_Write_Pdu u16 u32 byte_buffer
  | Ro_Dl_Info u16 byte_buffer
  | Ro_Setup_Ctxt u16 ctxt_setup_req
  | Ro_Setup_Erabs u16 "u8 list list" int erab_setup_req
  | Ro_Release_Erabs u32
  | Ro_Add_Paging u32 paging_id
  | Ro_Paging_Tti u32
  | Ro_Thread "u16 \<Rightarrow> bool"
  | Ro_Monitor "u16 \<Rightarrow> bool"

definition rrc_run_op ::
  "rrc_lib \<Rightarrow> mac_lib \<Rightarrow> 'p pdcp_lib \<Rightarrow> int \<Rightarrow> rrc_op \<Rightarrow> rrc \<Rightarrow> (rrc \<times> rrc_call list) option" where
  "rrc_run_op B L P now op r =
     (case op of
        Ro_Add_User k \<Rightarrow> Some (rrc_add_user L P now k r)
      | Ro_Upd_User k old \<Rightarrow> Some (upd_user B k old r)
      | Ro_Rl_Failure k \<Rightarrow> Some (rrc_rl_failure k r, [])
      | Ro_Activity k \<Rightarrow> Some (set_activity_user k r, [])
      | Ro_Release_Complete k \<Rightarrow> Some (release_complete k r, [])
      | Ro_Write_Pdu k lcid pdu \<Rightarrow> Some (rrc_write_pdu k lcid pdu r, [])
      | Ro_Dl_Info k sdu \<Rightarrow> Some (r, write_dl_info B k sdu r)
      | Ro_Setup_Ctxt k msg \<Rightarrow> map_option snd (setup_ue_ctxt B k msg r)
      | Ro_Setup_Erabs k stale lcg msg \<Rightarrow> map_option snd (setup_ue_erabs B P stale lcg k msg r)
      | Ro_Release_Erabs k \<Rightarrow> Some (snd (rrc_release_erabs k r), [])
      | Ro_Add_Paging i p \<Rightarrow> Some (add_paging_id i p r, [])
      | Ro_Paging_Tti tti \<Rightarrow> map_option (\<lambda>(_, r). (r, [])) (is_paging_opportunity B tti r)
      | Ro_Thread ex \<Rightarrow> rrc_run_step B P ex now r
      | Ro_Monitor ex \<Rightarrow> Some (act_monitor_step B L ex now r))"

text \<open>What the MME may ask for.\<close>

definition rrc_op_ok :: "rrc_lib \<Rightarrow> rrc_op \<Rightarrow> bool" where
  "rrc_op_ok B op \<longleftrightarrow>
     (case op of
        Ro_Setup_Ctxt k msg \<Rightarrow> erab_ids_ok (ct_erabs msg)
      | Ro_Setup_Erabs k stale lcg msg \<Rightarrow>
          erab_ids_ok (es_erabs msg) \<and> length stale + length (es_erabs msg) \<le> RRC_MAX_NAS B
      | _ \<Rightarrow> True)"

lemma wf_put_with: "rrc_wf B (put_rrc_user k u r) = wf_with B k r u"
  by (simp add: wf_with_def)

lemma add_user_wf:
  assumes "rrc_wf B r"
  shows "rrc_wf B (fst (rrc_add_user L P now k r))"
proof (cases "rrc_user k r")
  case None
  let ?u = "(rrc_ue_new now)\<lparr>ux_parent := True, ux_rnti := k\<rparr>"
  have h: "sr_held ?u = None" "cqi_held ?u = None" by (simp_all add: sr_held_def cqi_held_def rrc_ue_new_def)
  have "holders held (put_rrc_user k ?u r) s \<subseteq> holders held r s" if "held ?u = None" for held s
    using that by (auto simp: holders_def split: if_splits)
  then have "accounted (slot_limit B r) sr_held (rr_sr_sched r) (put_rrc_user k ?u r)" "accounted (slot_limit B r) cqi_held (rr_cqi_sched r) (put_rrc_user k ?u r)"
    using assms h accounted_mono by (metis rrc_wf_def)+
  moreover have "ue_ok k ?u" using h by (simp add: ue_ok_def slot_ok_def)
  ultimately have "rrc_wf B (put_rrc_user k ?u r)" using assms by (simp add: rrc_wf_def)
  then show ?thesis using None by (simp add: rrc_add_user_def)
qed (use assms in \<open>simp add: rrc_add_user_def\<close>)

lemma paging_due_total: "N \<noteq> 0 \<Longrightarrow> paging_due T N Ns tti k \<noteq> None"
  by (simp add: paging_due_def Let_def)

lemma paging_loop_total: "N \<noteq> 0 \<Longrightarrow> paging_loop B T N Ns tti ps recs removed \<noteq> None"
proof (induction ps arbitrary: recs removed)
  case (Cons x ps)
  show ?case
  proof (cases x)
    case (Pair k p)
    then show ?thesis using Cons paging_due_total[OF Cons.prems, of T Ns tti "k mod 1024"] by auto
  qed
qed simp

lemma paging_total:
  assumes "rrc_wf B r"
  shows "\<exists>len r'. is_paging_opportunity B tti r = Some (len, r') \<and> rrc_wf B r'"
proof -
  obtain s2 T N Ns where c: "cfg_sib2 (rr_cfg r) = Some s2" "paging_cfg B s2 = Some (T, N, Ns)" "N \<noteq> 0"
    using assms by (auto simp: rrc_wf_def rrc_cfg_ok_def Let_def)
  obtain recs removed where "paging_loop B T N Ns tti (rr_pending_paging r) [] [] = Some (recs, removed)"
    using paging_loop_total[OF c(3)] by (metis not_Some_eq surj_pair)
  then show ?thesis
    using c assms by (cases "rr_pending_paging r = []"; cases "recs = []") (simp_all add: is_paging_opportunity_def Let_def)
qed

lemma act_scan_wf: "rrc_wf B r \<Longrightarrow> act_scan L now ks r = (rem, r', cs) \<Longrightarrow> rrc_wf B r'"
proof (induction ks arbitrary: r cs)
  case (Cons k ks)
  show ?case
  proof (cases "rrc_user k r")
    case (Some u)
    let ?v = "if rr_cnotifier r \<and> is_connected u \<and> \<not> ux_connect_notified u then u\<lparr>ux_connect_notified := True\<rparr> else u"
    let ?w = "snd (is_timeout r now ?v)"
    have "ue_keeps u ?v" by (simp add: keeps)
    then have "ue_keeps u ?w" using keeps_ops(4) by (rule ue_keeps_trans)
    then have "rrc_wf B (put_rrc_user k ?w r)" using Cons.prems(1) Some by (intro wf_put_keeps)
    then show ?thesis
      using Cons.IH[of r] Cons.IH[of "put_rrc_user k ?w r"] Cons.prems Some
      by (auto simp: case_prod_beta Let_def prod_eq_iff split: if_splits)
  qed (use Cons in simp)
qed simp

end
