(* ===== verification/Rlc.thy ===== *)
theory Rlc
  imports Upper_Types
begin

text \<open>
  The RLC layer of the base station (\<open>upper/rlc.h\<close>, \<open>upper/rlc.cc\<close>): a table with one RLC entity of
  the srsLTE library for each user. The entity is a parameter: a state \<open>'e\<close> and the functions of
  the class \<open>srslte::rlc\<close> the code calls. What an entity hands up while it runs, by calling its
  \<open>user_interface\<close>, is in the result of its functions. The read-write lock is left out.
\<close>

section \<open>The RLC entity of the library\<close>

datatype rlc_up = Up_Pdu u32 byte_buffer | Up_Max_Retx | Up_Bcch_Bch byte_buffer | Up_Bcch_Dlsch byte_buffer | Up_Pcch byte_buffer

record 'e rlc_lib =
  rl_n_radio_bearers :: nat
  rl_init :: 'e
  rl_empty_queue :: "'e \<Rightarrow> 'e"
  rl_add_bearer :: "u32 \<Rightarrow> 'e \<Rightarrow> 'e"
  rl_add_bearer_cnfg :: "u32 \<Rightarrow> blob \<Rightarrow> 'e \<Rightarrow> 'e"
  rl_add_bearer_mrb :: "u32 \<Rightarrow> 'e \<Rightarrow> 'e"
  rl_read_pdu :: "u32 \<Rightarrow> u32 \<Rightarrow> 'e \<Rightarrow> (int \<times> u8 list) \<times> rlc_up list \<times> 'e"
  rl_read_pdu_mch :: "u32 \<Rightarrow> u32 \<Rightarrow> 'e \<Rightarrow> (int \<times> u8 list) \<times> rlc_up list \<times> 'e"
  rl_write_pdu :: "u32 \<Rightarrow> u8 list \<Rightarrow> 'e \<Rightarrow> rlc_up list \<times> 'e"
  rl_write_sdu :: "u32 \<Rightarrow> byte_buffer \<Rightarrow> 'e \<Rightarrow> 'e"
  rl_write_sdu_mch :: "u32 \<Rightarrow> byte_buffer \<Rightarrow> 'e \<Rightarrow> 'e"
  rl_get_total_buffer_state :: "u32 \<Rightarrow> 'e \<Rightarrow> u32"
  rl_get_total_mch_buffer_state :: "u32 \<Rightarrow> 'e \<Rightarrow> u32"
  rl_rb_is_um :: "u32 \<Rightarrow> 'e \<Rightarrow> bool"

section \<open>State\<close>

record 'e rlc_user =
  ru_rnti :: u16
  ru_rlc :: 'e

type_synonym 'e rlc = "(u16, 'e rlc_user) omap"

text \<open>The calls RLC makes into the MAC, the PDCP, the RRC and the pool of buffers.\<close>

datatype rlc_call =
    Mac_Rlc_Buffer_State u16 u32 u32 u32
  | Pdcp_Write_Pdu u16 u32 byte_buffer
  | Rrc_Max_Retx_Attempted u16
  | Rlc_Pool_Deallocate byte_buffer

definition rlc_users :: "'e rlc \<Rightarrow> u16 set" where
  "rlc_users s = {k. omap_get s k \<noteq> None}"

section \<open>What a user hands up\<close>

text \<open>Broadcast and paging PDUs of a user are only reported on the console.\<close>

definition ui_write_pdu :: "'e rlc_user \<Rightarrow> u32 \<Rightarrow> byte_buffer \<Rightarrow> rlc_call list" where
  "ui_write_pdu u lcid sdu = [Pdcp_Write_Pdu (ru_rnti u) lcid sdu]"

definition ui_max_retx_attempted :: "'e rlc_user \<Rightarrow> rlc_call list" where
  "ui_max_retx_attempted u = [Rrc_Max_Retx_Attempted (ru_rnti u)]"

definition rlc_upcalls :: "'e rlc_user \<Rightarrow> rlc_up list \<Rightarrow> rlc_call list" where
  "rlc_upcalls u ups = concat (map (\<lambda>e. case e of
       Up_Pdu lcid sdu \<Rightarrow> ui_write_pdu u lcid sdu
     | Up_Max_Retx \<Rightarrow> ui_max_retx_attempted u
     | _ \<Rightarrow> []) ups)"

section \<open>Users\<close>

definition rlc_add_user :: "'e rlc_lib \<Rightarrow> u16 \<Rightarrow> 'e rlc \<Rightarrow> 'e rlc" where
  "rlc_add_user R rnti s =
     (if omap_get s rnti = None then omap_set rnti \<lparr>ru_rnti = rnti, ru_rlc = rl_init R\<rparr> s else s)"

definition rlc_rem_user :: "u16 \<Rightarrow> 'e rlc \<Rightarrow> 'e rlc" where
  "rlc_rem_user rnti s = (if omap_get s rnti \<noteq> None then omap_del rnti s else s)"

definition rlc_stop :: "'e rlc \<Rightarrow> 'e rlc" where
  "rlc_stop s = []"

definition on_rlc :: "u16 \<Rightarrow> ('e \<Rightarrow> 'e) \<Rightarrow> 'e rlc \<Rightarrow> 'e rlc" where
  "on_rlc rnti f s =
     (case omap_get s rnti of None \<Rightarrow> s | Some u \<Rightarrow> omap_set rnti (u\<lparr>ru_rlc := f (ru_rlc u)\<rparr>) s)"

definition rlc_clear_buffer :: "'e rlc_lib \<Rightarrow> u16 \<Rightarrow> 'e rlc \<Rightarrow> 'e rlc \<times> rlc_call list" where
  "rlc_clear_buffer R rnti s =
     (case omap_get s rnti of
        None \<Rightarrow> (s, [])
      | Some u \<Rightarrow> (on_rlc rnti (rl_empty_queue R) s,
          map (\<lambda>i. Mac_Rlc_Buffer_State rnti (of_nat i) 0 0) [0..<rl_n_radio_bearers R]))"

definition rlc_add_bearer :: "'e rlc_lib \<Rightarrow> u16 \<Rightarrow> u32 \<Rightarrow> 'e rlc \<Rightarrow> 'e rlc" where
  "rlc_add_bearer R rnti lcid s = on_rlc rnti (rl_add_bearer R lcid) s"

definition rlc_add_bearer_cnfg :: "'e rlc_lib \<Rightarrow> u16 \<Rightarrow> u32 \<Rightarrow> blob \<Rightarrow> 'e rlc \<Rightarrow> 'e rlc" where
  "rlc_add_bearer_cnfg R rnti lcid cnfg s = on_rlc rnti (rl_add_bearer_cnfg R lcid cnfg) s"

definition rlc_add_bearer_mrb :: "'e rlc_lib \<Rightarrow> u16 \<Rightarrow> u32 \<Rightarrow> 'e rlc \<Rightarrow> 'e rlc" where
  "rlc_add_bearer_mrb R rnti lcid s = on_rlc rnti (rl_add_bearer_mrb R lcid) s"

section \<open>Data\<close>

text \<open>
  After every PDU read or written and every SDU written the MAC is told the state of the queue:
  the scheduler does not poll it.
\<close>

definition rlc_read_pdu ::
  "'e rlc_lib \<Rightarrow> mac_lib \<Rightarrow> u16 \<Rightarrow> u32 \<Rightarrow> u32 \<Rightarrow> 'e rlc \<Rightarrow> (int \<times> u8 list) \<times> 'e rlc \<times> rlc_call list" where
  "rlc_read_pdu R L rnti lcid nof_bytes s =
     (case omap_get s rnti of
        None \<Rightarrow> ((-1, []), s, [])
      | Some u \<Rightarrow>
          let (ret, ups, e) = (if rnti \<noteq> SRSLTE_MRNTI L then rl_read_pdu R lcid nof_bytes (ru_rlc u)
                               else rl_read_pdu_mch R lcid nof_bytes (ru_rlc u));
              tx_queue = (if rnti \<noteq> SRSLTE_MRNTI L then rl_get_total_buffer_state R lcid e
                          else rl_get_total_mch_buffer_state R lcid e)
          in (ret, omap_set rnti (u\<lparr>ru_rlc := e\<rparr>) s,
              rlc_upcalls u ups @ [Mac_Rlc_Buffer_State rnti lcid tx_queue 0]))"

definition rlc_write_pdu ::
  "'e rlc_lib \<Rightarrow> u16 \<Rightarrow> u32 \<Rightarrow> u8 list \<Rightarrow> 'e rlc \<Rightarrow> 'e rlc \<times> rlc_call list" where
  "rlc_write_pdu R rnti lcid payload s =
     (case omap_get s rnti of
        None \<Rightarrow> (s, [])
      | Some u \<Rightarrow>
          let (ups, e) = rl_write_pdu R lcid payload (ru_rlc u)
          in (omap_set rnti (u\<lparr>ru_rlc := e\<rparr>) s,
              rlc_upcalls u ups @ [Mac_Rlc_Buffer_State rnti lcid (rl_get_total_buffer_state R lcid e) 0]))"

definition rlc_write_sdu ::
  "'e rlc_lib \<Rightarrow> mac_lib \<Rightarrow> u16 \<Rightarrow> u32 \<Rightarrow> byte_buffer \<Rightarrow> 'e rlc \<Rightarrow> 'e rlc \<times> rlc_call list" where
  "rlc_write_sdu R L rnti lcid sdu s =
     (case omap_get s rnti of
        None \<Rightarrow> (s, [Rlc_Pool_Deallocate sdu])
      | Some u \<Rightarrow>
          let e = (if rnti \<noteq> SRSLTE_MRNTI L then rl_write_sdu R lcid sdu (ru_rlc u)
                   else rl_write_sdu_mch R lcid sdu (ru_rlc u));
              tx_queue = (if rnti \<noteq> SRSLTE_MRNTI L then rl_get_total_buffer_state R lcid e
                          else rl_get_total_mch_buffer_state R lcid e)
          in (omap_set rnti (u\<lparr>ru_rlc := e\<rparr>) s, [Mac_Rlc_Buffer_State rnti lcid tx_queue 0]))"

definition rlc_rb_is_um :: "'e rlc_lib \<Rightarrow> u16 \<Rightarrow> u32 \<Rightarrow> 'e rlc \<Rightarrow> bool" where
  "rlc_rb_is_um R rnti lcid s =
     (case omap_get s rnti of None \<Rightarrow> False | Some u \<Rightarrow> rl_rb_is_um R lcid (ru_rlc u))"

section \<open>The table keeps the contract\<close>

lemma rlc_users_add: "rlc_users (rlc_add_user R k s) = insert k (rlc_users s)"
  by (auto simp: rlc_users_def rlc_add_user_def om.look_put)

lemma rlc_users_rem: "rlc_users (rlc_rem_user k s) = rlc_users s - {k}"
  by (auto simp: rlc_users_def rlc_rem_user_def om.look_del)

interpretation rlc_tbl: user_table rlc_users "rlc_add_user R" rlc_rem_user for R :: "'e rlc_lib"
  by unfold_locales (simp_all add: rlc_users_add rlc_users_rem)

lemma rlc_users_on_rlc [simp]: "rlc_users (on_rlc k f s) = rlc_users s"
  by (auto simp: rlc_users_def on_rlc_def om.look_put split: option.splits)

text \<open>The identity a user hands up is its key in every table the layer builds.\<close>

definition rlc_own :: "'e rlc \<Rightarrow> bool" where
  "rlc_own s \<longleftrightarrow> (\<forall>k u. omap_get s k = Some u \<longrightarrow> ru_rnti u = k)"

lemma rlc_own_put: "rlc_own s \<Longrightarrow> ru_rnti u = k \<Longrightarrow> rlc_own (omap_set k u s)"
  by (simp add: rlc_own_def om.look_put)

lemma rlc_own_add: "rlc_own s \<Longrightarrow> rlc_own (rlc_add_user R k s)"
  by (simp add: rlc_add_user_def rlc_own_put)

lemma rlc_own_rem: "rlc_own s \<Longrightarrow> rlc_own (rlc_rem_user k s)"
  by (simp add: rlc_rem_user_def rlc_own_def om.look_del)

lemma rlc_own_on_rlc: "rlc_own s \<Longrightarrow> rlc_own (on_rlc k f s)"
  by (auto simp: on_rlc_def rlc_own_def om.look_put split: option.splits)

end
