(* ===== verification/Gtpu_Props.thy ===== *)
theory Gtpu_Props
  imports Gtpu
begin

text \<open>
  The properties of GTP-U: tunnel end point identifiers, the map of bearers as a refinement of a
  table of tunnels, and where received and sent packets go.
\<close>

section \<open>Identifiers\<close>

lemma low16: "ucast (w AND 0xFFFF) = (ucast w :: u16)" for w :: u32
proof -
  have m: "(0xFFFF :: u32) = mask 16" by (simp add: mask_eq_exp_minus_1)
  show ?thesis unfolding m take_bit_eq_mask[symmetric] by (rule bit_word_eqI) (auto simp: bit_simps)
qed

lemma unat_small16: "unat w < 65536 \<Longrightarrow> unat (ucast w :: u16) = unat w" for w :: u32
  by (simp add: unsigned_ucast_eq unsigned_take_bit_eq take_bit_nat_eq_self)

lemma low16_ucast: "ucast (ucast w :: u32) = w" for w :: u16
  by (rule bit_word_eqI) (auto simp: bit_simps)

lemma teid_parts: "teidin_to_rntilcid (rntilcid_to_teidin rnti lcid) = (rnti, lcid)"
proof -
  have "ucast (drop_bit 16 (push_bit 16 (ucast rnti) OR ucast lcid :: u32)) = rnti"
    by (rule bit_word_eqI) (auto simp: bit_simps dest: bit_imp_le_length)
  moreover have "ucast (push_bit 16 (ucast rnti) OR ucast lcid :: u32) = lcid"
    by (rule bit_word_eqI) (auto simp: bit_simps)
  ultimately show ?thesis by (simp add: teidin_to_rntilcid_def rntilcid_to_teidin_def low16)
qed

lemma teid_whole: "case_prod rntilcid_to_teidin (teidin_to_rntilcid teid) = teid"
proof -
  have "push_bit 16 (ucast (ucast (drop_bit 16 teid) :: u16)) OR ucast (ucast teid :: u16) = teid"
    by (rule bit_word_eqI) (auto simp: bit_simps dest: bit_imp_le_length)
  then show ?thesis by (simp add: teidin_to_rntilcid_def rntilcid_to_teidin_def low16)
qed

text \<open>the identifier of an incoming tunnel and the pair of RNTI and channel it is made from
  determine each other, over the full range of both.\<close>

theorem teid_roundtrip:
  "teidin_to_rntilcid (rntilcid_to_teidin rnti lcid) = (rnti, lcid) \<and>
   case_prod rntilcid_to_teidin (teidin_to_rntilcid teid) = teid"
  by (simp add: teid_parts teid_whole)

lemma teid_zero: "rntilcid_to_teidin rnti lcid = 0 \<longleftrightarrow> rnti = 0 \<and> lcid = 0"
proof
  assume "rntilcid_to_teidin rnti lcid = 0"
  moreover have "teidin_to_rntilcid 0 = (0, 0)" by (simp add: teidin_to_rntilcid_def)
  ultimately show "rnti = 0 \<and> lcid = 0" using teid_parts[of rnti lcid] by simp
qed (simp add: rntilcid_to_teidin_def)

section \<open>A table of tunnels\<close>

datatype gtpu_op =
    Op_Add_Bearer u16 u32 u32 u32
  | Op_Rem_Bearer u16 u32
  | Op_Rem_User u16
  | Op_Write_Pdu u16 u32 byte_buffer

definition gtpu_run_op :: "gtpu_lib \<Rightarrow> gtpu_op \<Rightarrow> gtpu \<Rightarrow> gtpu option" where
  "gtpu_run_op T op g =
     (case op of
        Op_Add_Bearer rnti lcid addr teid_out \<Rightarrow> map_option snd (gtpu_add_bearer rnti lcid addr teid_out g)
      | Op_Rem_Bearer rnti lcid \<Rightarrow> gtpu_rem_bearer rnti lcid g
      | Op_Rem_User rnti \<Rightarrow> Some (gtpu_rem_user rnti g)
      | Op_Write_Pdu rnti lcid pdu \<Rightarrow> map_option fst (gtpu_write_pdu T rnti lcid pdu g))"

definition bearer_map_wf :: "bearer_map \<Rightarrow> bool" where
  "bearer_map_wf m \<longleftrightarrow> length (bm_teids_in m) = SRSENB_N_RADIO_BEARERS \<and>
     length (bm_teids_out m) = SRSENB_N_RADIO_BEARERS \<and> length (bm_spgw_addrs m) = SRSENB_N_RADIO_BEARERS"

definition gtpu_wf :: "gtpu \<Rightarrow> bool" where
  "gtpu_wf g \<longleftrightarrow> (\<forall>k m. omap_get (gt_rnti_bearers g) k = Some m \<longrightarrow> bearer_map_wf m)"

text \<open>The abstract table: the outgoing identifier and address of every tunnel that is set up.\<close>

type_synonym tunnel_table = "u16 \<times> nat \<Rightarrow> (u32 \<times> u32) option"

definition map_tunnel :: "bearer_map \<Rightarrow> nat \<Rightarrow> (u32 \<times> u32) option" where
  "map_tunnel m lc = (if lc < SRSENB_N_RADIO_BEARERS \<and> bm_teids_in m ! lc \<noteq> 0
     then Some (bm_teids_out m ! lc, bm_spgw_addrs m ! lc) else None)"

definition tunnels :: "gtpu \<Rightarrow> tunnel_table" where
  "tunnels g = (\<lambda>(rnti, lc). Option.bind (omap_get (gt_rnti_bearers g) rnti) (\<lambda>m. map_tunnel m lc))"

fun tunnel_op :: "gtpu_op \<Rightarrow> tunnel_table \<Rightarrow> tunnel_table" where
  "tunnel_op (Op_Add_Bearer rnti lcid addr teid_out) t = t((rnti, unat lcid) \<mapsto> (teid_out, addr))"
| "tunnel_op (Op_Rem_Bearer rnti lcid) t = t((rnti, unat lcid) := None)"
| "tunnel_op (Op_Rem_User rnti) t = (\<lambda>(k, lc). if k = rnti then None else t (k, lc))"
| "tunnel_op (Op_Write_Pdu rnti lcid pdu) t = t"

text \<open>A tunnel of user 0 on channel 0 would have the identifier that marks a free place.\<close>

definition op_ok :: "gtpu_op \<Rightarrow> bool" where
  "op_ok op = (case op of Op_Add_Bearer rnti lcid _ _ \<Rightarrow> rnti \<noteq> 0 \<or> lcid \<noteq> 0 | _ \<Rightarrow> True)"

lemma bearers_wf: "gtpu_wf g \<Longrightarrow> bearer_map_wf (bearers rnti g)"
  by (auto simp: gtpu_wf_def bearers_def bearer_map_wf_def bearer_map_zero_def split: option.splits)

lemma bearers_tunnels: "map_tunnel (bearers rnti g) lc = tunnels g (rnti, lc)"
  by (auto simp: tunnels_def bearers_def bearer_map_zero_def map_tunnel_def split: option.splits)

lemma put_bearers_wf: "gtpu_wf g \<Longrightarrow> bearer_map_wf m \<Longrightarrow> gtpu_wf (put_bearers rnti m g)"
  by (auto simp: gtpu_wf_def put_bearers_def om.look_put)

lemma put_bearers_tunnels:
  "tunnels (put_bearers rnti m g) = (\<lambda>(k, lc). if k = rnti then map_tunnel m lc else tunnels g (k, lc))"
  by (auto simp: tunnels_def put_bearers_def om.look_put fun_eq_iff)

lemma small_lcid: "unat lcid < SRSENB_N_RADIO_BEARERS \<Longrightarrow> ucast (ucast lcid :: u16) = lcid" for lcid :: u32
  by (rule word_unat_eq_iff[THEN iffD2])
    (simp add: unsigned_ucast_eq unsigned_take_bit_eq take_bit_nat_eq_self SRSENB_N_RADIO_BEARERS_def)

lemma add_bearer_refines:
  assumes wf: "gtpu_wf g" and nz: "rnti \<noteq> 0 \<or> lcid \<noteq> 0"
    and run: "gtpu_add_bearer rnti lcid addr teid_out g = Some (teid_in, g')"
  shows "gtpu_wf g' \<and> tunnels g' = (tunnels g)((rnti, unat lcid) \<mapsto> (teid_out, addr)) \<and>
    teid_in = rntilcid_to_teidin rnti (ucast lcid) \<and> unat lcid < SRSENB_N_RADIO_BEARERS"
proof -
  let ?m = "bearers rnti g" and ?t = "rntilcid_to_teidin rnti (ucast lcid)"
  let ?m' = "\<lparr>bm_teids_in = (bm_teids_in ?m)[unat lcid := ?t], bm_teids_out = (bm_teids_out ?m)[unat lcid := teid_out],
    bm_spgw_addrs = (bm_spgw_addrs ?m)[unat lcid := addr]\<rparr>"
  have m: "bearer_map_wf ?m" using wf by (rule bearers_wf)
  have r: "unat lcid < SRSENB_N_RADIO_BEARERS" "teid_in = ?t" "g' = put_bearers rnti ?m' g"
    using run m by (auto simp: gtpu_add_bearer_def Let_def bind_eq_Some_conv bearer_map_wf_def dest!: wr_SomeD)
  have "?t \<noteq> 0"
  proof
    assume "?t = 0"
    then have "rnti = 0" "ucast lcid = (0 :: u16)" by (simp_all add: teid_zero)
    then have "lcid = 0" using small_lcid[OF r(1)] by simp
    then show False using nz \<open>rnti = 0\<close> by simp
  qed
  then have "map_tunnel ?m' lc = (if lc = unat lcid then Some (teid_out, addr) else map_tunnel ?m lc)" for lc
    using r(1) m by (simp add: map_tunnel_def bearer_map_wf_def nth_list_update)
  then have "tunnels g' = (tunnels g)((rnti, unat lcid) \<mapsto> (teid_out, addr))"
    unfolding r(3) put_bearers_tunnels by (auto simp: fun_eq_iff bearers_tunnels)
  moreover have "gtpu_wf g'"
    unfolding r(3) using wf m by (intro put_bearers_wf) (simp_all add: bearer_map_wf_def)
  ultimately show ?thesis using r(1,2) by simp
qed

lemma used_loop:
  assumes "n \<le> length ts"
  shows "foldM (\<lambda>i used. do { t \<leftarrow> rd ts i; Some (used \<or> t \<noteq> 0) }) [0..<n] False = Some (\<exists>i < n. ts ! i \<noteq> (0 :: u32))"
  using assms
proof (induction n)
  case (Suc n)
  then show ?case by (auto simp: foldM_append less_Suc_eq)
qed simp

lemma rem_bearer_refines:
  assumes wf: "gtpu_wf g" and run: "gtpu_rem_bearer rnti lcid g = Some g'"
  shows "gtpu_wf g' \<and> tunnels g' = (tunnels g)((rnti, unat lcid) := None)"
proof -
  let ?m = "bearers rnti g"
  let ?m' = "?m\<lparr>bm_teids_in := (bm_teids_in ?m)[unat lcid := 0], bm_teids_out := (bm_teids_out ?m)[unat lcid := 0]\<rparr>"
  let ?g = "put_bearers rnti ?m' g"
  have m: "bearer_map_wf ?m" using wf by (rule bearers_wf)
  have lc: "unat lcid < SRSENB_N_RADIO_BEARERS"
    using run m by (auto simp: gtpu_rem_bearer_def Let_def bind_eq_Some_conv bearer_map_wf_def dest!: wr_SomeD)
  have mt: "map_tunnel ?m' = (map_tunnel ?m)(unat lcid := None)"
    using m lc by (auto simp: map_tunnel_def bearer_map_wf_def nth_list_update fun_eq_iff)
  then have t: "tunnels ?g = (tunnels g)((rnti, unat lcid) := None)"
    unfolding put_bearers_tunnels by (auto simp: fun_eq_iff bearers_tunnels)
  have w: "gtpu_wf ?g" using wf m by (intro put_bearers_wf) (simp_all add: bearer_map_wf_def)
  define used where "used = (\<exists>i < SRSENB_N_RADIO_BEARERS. bm_teids_in ?m' ! i \<noteq> 0)"
  have "g' = (if \<not> used then ?g\<lparr>gt_rnti_bearers := omap_del rnti (gt_rnti_bearers ?g)\<rparr> else ?g)"
    using run m lc used_loop[of SRSENB_N_RADIO_BEARERS "bm_teids_in ?m'"]
    by (simp add: gtpu_rem_bearer_def Let_def bearer_map_wf_def used_def)
  moreover have "tunnels (?g\<lparr>gt_rnti_bearers := omap_del rnti (gt_rnti_bearers ?g)\<rparr>) = tunnels ?g" if "\<not> used"
  proof -
    have "map_tunnel ?m' lc = None" for lc using that by (simp add: used_def map_tunnel_def)
    then show ?thesis by (auto simp: tunnels_def put_bearers_def om.look_put om.look_del fun_eq_iff)
  qed
  moreover have "gtpu_wf (?g\<lparr>gt_rnti_bearers := omap_del rnti (gt_rnti_bearers ?g)\<rparr>)"
    using w by (auto simp: gtpu_wf_def om.look_del)
  ultimately show ?thesis using t w by simp
qed

lemma rem_user_refines:
  "gtpu_wf g \<Longrightarrow> gtpu_wf (gtpu_rem_user rnti g) \<and>
     tunnels (gtpu_rem_user rnti g) = (\<lambda>(k, lc). if k = rnti then None else tunnels g (k, lc))"
  by (auto simp: gtpu_wf_def gtpu_rem_user_def tunnels_def om.look_del fun_eq_iff)

lemma write_pdu_refines:
  assumes "gtpu_wf g" and "gtpu_write_pdu T rnti lcid pdu g = Some (g', cs)"
  shows "gtpu_wf g' \<and> tunnels g' = tunnels g"
proof -
  have "g' = put_bearers rnti (bearers rnti g) g"
    using assms(2) by (auto simp: gtpu_write_pdu_def Let_def bind_eq_Some_conv split: option.splits)
  then show ?thesis
    using assms(1) by (auto simp: put_bearers_wf bearers_wf put_bearers_tunnels fun_eq_iff bearers_tunnels)
qed

lemma run_op_refines:
  assumes "gtpu_wf g" and "op_ok op" and "gtpu_run_op T op g = Some g'"
  shows "gtpu_wf g' \<and> tunnels g' = tunnel_op op (tunnels g)"
proof (cases op)
  case (Op_Add_Bearer rnti lcid addr teid_out)
  then show ?thesis using assms add_bearer_refines[of g rnti lcid addr teid_out]
    by (auto simp: gtpu_run_op_def op_ok_def)
next
  case (Op_Rem_Bearer rnti lcid)
  then show ?thesis using assms by (simp add: gtpu_run_op_def rem_bearer_refines)
next
  case (Op_Rem_User rnti)
  then have "g' = gtpu_rem_user rnti g" using assms(3) by (simp add: gtpu_run_op_def)
  then show ?thesis using Op_Rem_User rem_user_refines[OF assms(1), of rnti] by simp
next
  case (Op_Write_Pdu rnti lcid pdu)
  then show ?thesis using assms write_pdu_refines[of g T rnti lcid pdu]
    by (auto simp: gtpu_run_op_def)
qed

lemma run_ops_refines:
  assumes "gtpu_wf g" and "\<forall>op \<in> set ops. op_ok op" and "foldM (gtpu_run_op T) ops g = Some g'"
  shows "gtpu_wf g' \<and> tunnels g' = fold tunnel_op ops (tunnels g)"
  using assms
proof (induction ops arbitrary: g)
  case (Cons op ops)
  then obtain h where h: "gtpu_run_op T op g = Some h" "foldM (gtpu_run_op T) ops h = Some g'"
    by (auto simp: bind_eq_Some_conv)
  have "gtpu_wf h \<and> tunnels h = tunnel_op op (tunnels g)"
    using run_op_refines[OF Cons.prems(1) _ h(1)] Cons.prems(2) by simp
  then show ?case using Cons.IH[of h] Cons.prems(2) h(2) by simp
qed simp

text \<open>C15: the map of bearers refines a plain table of tunnels: over any sequence of additions,
  removals of bearers and of users, and sent packets, it holds exactly the tunnels such a table
  holds, with their outgoing identifiers and gateway addresses.\<close>

theorem gtpu_refines_tunnel_table:
  assumes "gtpu_wf g" and "\<forall>op \<in> set ops. op_ok op" and "foldM (gtpu_run_op T) ops g = Some g'"
  shows "tunnels g' = fold tunnel_op ops (tunnels g)"
  using run_ops_refines[OF assms] by simp

definition gtpu_new :: gtpu where
  "gtpu_new = \<lparr>gt_running = False, gt_run_enable = False, gt_enable_mbsfn = False, gt_fd = 0, gt_rnti_bearers = [],
     gt_mchthread = \<lparr>mh_initiated = False, mh_running = False, mh_run_enable = False, mh_m1u_sd = 0, mh_lcid_counter = 0\<rparr>\<rparr>"

definition demo_header :: gtpu_header where
  "demo_header = \<lparr>gh_flags = 0x30, gh_message_type = 255, gh_length = 2,
     gh_teid = rntilcid_to_teidin 70 3, gh_seq_number = None, gh_n_pdu = None, gh_next_ext_hdr_type = None\<rparr>"

definition demo_gtpu_lib :: gtpu_lib where
  "demo_gtpu_lib = \<lparr>GTPU_FLAGS_VERSION_V1 = 0x20, GTPU_FLAGS_GTP_PROTOCOL = 0x10, GTPU_FLAGS_SEQUENCE = 0x02,
     GTPU_MSG_ECHO_REQUEST = 1, GTPU_MSG_ECHO_RESPONSE = 2, GTPU_MSG_DATA_PDU = 255,
     gtpu_write_header = (\<lambda>h b. Some b),
     gtpu_read_header = (\<lambda>b. Some (demo_header, b))\<rparr>"

lemma gtpu_new_wf: "gtpu_wf gtpu_new"
  by (simp add: gtpu_wf_def gtpu_new_def)

lemma gtpu_new_tunnels: "tunnels gtpu_new = Map.empty"
  by (simp add: tunnels_def gtpu_new_def fun_eq_iff)

theorem gtpu_refines_tunnel_table_witness:
  "\<exists>g'. foldM (gtpu_run_op demo_gtpu_lib)
       [Op_Add_Bearer 70 3 9 17, Op_Add_Bearer 70 4 9 18, Op_Rem_Bearer 70 3, Op_Write_Pdu 71 3 (buffer [1])] gtpu_new = Some g' \<and>
     tunnels g' (70, 4) = Some (18, 9) \<and> tunnels g' (70, 3) = None"
proof -
  let ?ops = "[Op_Add_Bearer 70 3 9 17, Op_Add_Bearer 70 4 9 18, Op_Rem_Bearer 70 3, Op_Write_Pdu 71 3 (buffer [1])]"
  have "foldM (gtpu_run_op demo_gtpu_lib) ?ops gtpu_new \<noteq> None" by code_simp
  then obtain g' where g: "foldM (gtpu_run_op demo_gtpu_lib) ?ops gtpu_new = Some g'" by blast
  from gtpu_refines_tunnel_table[OF gtpu_new_wf _ g] have "tunnels g' = fold tunnel_op ?ops Map.empty"
    by (simp add: op_ok_def gtpu_new_tunnels)
  then show ?thesis using g by simp
qed

section \<open>Received packets\<close>

text \<open>a data packet with the identifier \<open>add_bearer\<close> handed out goes to the PDCP under the RNTI
  and channel of that bearer, whatever else happened, as long as neither the bearer nor its user
  was removed since.\<close>

theorem tunnel_delivers_to_bearer:
  assumes wf: "gtpu_wf g" and nz: "rnti \<noteq> 0"
    and add: "gtpu_add_bearer rnti lcid addr teid_out g = Some (teid_in, g1)"
    and ops: "\<forall>op \<in> set ops. op_ok op \<and> op \<noteq> Op_Rem_User rnti \<and> op \<noteq> Op_Rem_Bearer rnti lcid"
    and run: "foldM (gtpu_run_op T) ops g1 = Some g2"
    and drb: "SRSENB_N_SRB \<le> unat lcid"
    and hdr: "gtpu_read_header T \<lparr>bb_n_bytes = of_i32 n, bb_msg = msg\<rparr> = Some (h, pdu)"
      "gh_message_type h = GTPU_MSG_DATA_PDU T" "GTPU_MSG_DATA_PDU T \<noteq> GTPU_MSG_ECHO_REQUEST T" "gh_teid h = teid_in"
  shows "gtpu_rx T n msg client port g2 = [Pdcp_Write_Sdu rnti lcid pdu]"
proof -
  have a: "gtpu_wf g1" "tunnels g1 (rnti, unat lcid) \<noteq> None" "teid_in = rntilcid_to_teidin rnti (ucast lcid)"
    "unat lcid < SRSENB_N_RADIO_BEARERS"
    using add_bearer_refines[OF wf _ add] nz by simp_all
  have keep: "fold tunnel_op ops t (rnti, unat lcid) \<noteq> None"
    if "t (rnti, unat lcid) \<noteq> None" "\<forall>op \<in> set ops. op \<noteq> Op_Rem_User rnti \<and> op \<noteq> Op_Rem_Bearer rnti lcid" for t ops
    using that
  proof (induction ops arbitrary: t)
    case (Cons op ops)
    have "op \<noteq> Op_Rem_Bearer rnti lcid" "op \<noteq> Op_Rem_User rnti" using Cons.prems(2) by auto
    then have "tunnel_op op t (rnti, unat lcid) \<noteq> None"
      using Cons.prems(1) by (cases op) (auto simp: word_unat_eq_iff)
    then show ?case using Cons by simp
  qed simp
  have "tunnels g2 = fold tunnel_op ops (tunnels g1)"
    using run_ops_refines[OF a(1) _ run] ops by blast
  then have "tunnels g2 (rnti, unat lcid) \<noteq> None" using keep[of "tunnels g1" ops] a(2) ops by simp
  then have "omap_get (gt_rnti_bearers g2) rnti \<noteq> None"
    by (cases "omap_get (gt_rnti_bearers g2) rnti") (simp_all add: tunnels_def)
  moreover have "unat (ucast lcid :: u16) = unat lcid"
    using a(4) by (intro unat_small16) (simp add: SRSENB_N_RADIO_BEARERS_def)
  ultimately show ?thesis
    using hdr drb a(3,4) small_lcid[OF a(4)] by (simp add: gtpu_rx_def teid_parts)
qed

theorem tunnel_delivers_to_bearer_witness:
  "\<exists>g1 g2. gtpu_add_bearer 70 3 9 17 gtpu_new = Some (rntilcid_to_teidin 70 3, g1) \<and>
     foldM (gtpu_run_op demo_gtpu_lib) [Op_Add_Bearer 71 3 9 18, Op_Rem_User 71] g1 = Some g2 \<and>
     gtpu_rx demo_gtpu_lib 2 [5, 6] 9 2152 g2 = [Pdcp_Write_Sdu 70 3 (buffer [5, 6])]"
proof -
  let ?ops = "[Op_Add_Bearer 71 3 9 18, Op_Rem_User 71]"
  have "Option.bind (gtpu_add_bearer 70 3 9 17 gtpu_new)
      (\<lambda>(t, g1). if t = rntilcid_to_teidin 70 3 then foldM (gtpu_run_op demo_gtpu_lib) ?ops g1 else None) \<noteq> None"
    by code_simp
  then obtain g1 g2 where g: "gtpu_add_bearer 70 3 9 17 gtpu_new = Some (rntilcid_to_teidin 70 3, g1)"
    "foldM (gtpu_run_op demo_gtpu_lib) ?ops g1 = Some g2"
    by (auto split: bind_splits prod.splits if_splits)
  have "gtpu_rx demo_gtpu_lib 2 [5, 6] 9 2152 g2 = [Pdcp_Write_Sdu 70 3 (buffer [5, 6])]"
    by (rule tunnel_delivers_to_bearer[where h = demo_header, OF gtpu_new_wf _ g(1) _ g(2)])
      (simp_all add: op_ok_def SRSENB_N_SRB_def demo_gtpu_lib_def demo_header_def buffer_def)
  then show ?thesis using g by blast
qed

text \<open>after a user is removed its packets are dropped, but one uplink packet that arrives late is
  enough to bring back an entry for it: the packet itself leaves with identifier and address zero, and
  packets of the network for that user are accepted again.\<close>

theorem late_uplink_revives_user:
  assumes "gtpu_write_header T \<lparr>gh_flags = GTPU_FLAGS_VERSION_V1 T OR GTPU_FLAGS_GTP_PROTOCOL T,
       gh_message_type = GTPU_MSG_DATA_PDU T, gh_length = bb_n_bytes up, gh_teid = 0,
       gh_seq_number = None, gh_n_pdu = None, gh_next_ext_hdr_type = None\<rparr> up = Some out"
    and "unat lcid < SRSENB_N_RADIO_BEARERS" and "SRSENB_N_SRB \<le> unat lcid"
    and "gtpu_read_header T \<lparr>bb_n_bytes = of_i32 n, bb_msg = msg\<rparr> = Some (h, pdu)"
    and "gh_message_type h = GTPU_MSG_DATA_PDU T" and "GTPU_MSG_DATA_PDU T \<noteq> GTPU_MSG_ECHO_REQUEST T"
    and "gh_teid h = rntilcid_to_teidin rnti (ucast lcid)"
  shows "gtpu_rx T n msg client port (gtpu_rem_user rnti g) = [] \<and>
    (\<exists>g'. gtpu_write_pdu T rnti lcid up (gtpu_rem_user rnti g) =
         Some (g', [Send_To 0 GTPU_PORT out, Gtpu_Pool_Deallocate out]) \<and>
       gtpu_rx T n msg client port g' = [Pdcp_Write_Sdu rnti lcid pdu])"
proof -
  let ?g = "gtpu_rem_user rnti g"
  have lc: "unat (ucast lcid :: u16) = unat lcid"
    using assms(2) by (intro unat_small16) (simp add: SRSENB_N_RADIO_BEARERS_def)
  have b: "bearers rnti ?g = bearer_map_zero" by (simp add: bearers_def gtpu_rem_user_def om.look_del)
  have "gtpu_write_pdu T rnti lcid up ?g =
      Some (put_bearers rnti bearer_map_zero ?g, [Send_To 0 GTPU_PORT out, Gtpu_Pool_Deallocate out])"
    using assms(1,2) by (simp add: gtpu_write_pdu_def b bearer_map_zero_def)
  moreover have "gtpu_rx T n msg client port (put_bearers rnti bearer_map_zero ?g) = [Pdcp_Write_Sdu rnti lcid pdu]"
    using assms(2-) lc small_lcid[OF assms(2)] by (simp add: gtpu_rx_def teid_parts put_bearers_def om.look_put)
  moreover have "gtpu_rx T n msg client port ?g = []"
    using assms(4-) by (simp add: gtpu_rx_def teid_parts gtpu_rem_user_def om.look_del)
  ultimately show ?thesis by blast
qed

theorem late_uplink_revives_user_witness:
  "\<exists>g'. gtpu_write_pdu demo_gtpu_lib 70 3 (buffer [1]) (gtpu_rem_user 70 gtpu_new) =
       Some (g', [Send_To 0 GTPU_PORT (buffer [1]), Gtpu_Pool_Deallocate (buffer [1])]) \<and>
     gtpu_rx demo_gtpu_lib 1 [5] 9 2152 g' = [Pdcp_Write_Sdu 70 3 (buffer [5])]"
  using late_uplink_revives_user[of demo_gtpu_lib "buffer [1]" "buffer [1]" 3 1 "[5]" demo_header "buffer [5]" 70 9 2152 gtpu_new]
  by (simp add: demo_gtpu_lib_def demo_header_def SRSENB_N_RADIO_BEARERS_def SRSENB_N_SRB_def buffer_def)

end
