(* ===== verification/User_Plane.thy ===== *)
theory User_Plane
  imports Rlc Pdcp Gtpu_Props Mac Mac_UE_Props
begin

text \<open>
  The user plane as the layers compose it: a call a layer makes is run on the model of the layer it
  goes to, in the order of the calls. Downlink packets go from GTP-U through PDCP and RLC, which
  reports its queue to the MAC; uplink SDUs the MAC hands to RLC go through PDCP to GTP-U or into
  the queue of the RRC.
\<close>

record ('e, 'p) stack =
  sk_mac :: mac
  sk_rlc :: "'e rlc"
  sk_pdcp :: "'p pdcp"
  sk_gtpu :: gtpu
  sk_rrc_queue :: "(u16 \<times> u32 \<times> byte_buffer) list"
  sk_sent :: "(u32 \<times> u16 \<times> byte_buffer) list"

text \<open>The library and the parameters of the layers.\<close>

record ('e, 'p) stack_lib =
  sl_srslte :: srslte
  sl_mac :: mac_lib
  sl_rlc :: "'e rlc_lib"
  sl_pdcp :: "'p pdcp_lib"
  sl_gtpu :: gtpu_lib

definition sk_rb_is_um :: "('e, 'p) stack_lib \<Rightarrow> ('e, 'p) stack \<Rightarrow> u16 \<Rightarrow> u32 \<Rightarrow> bool" where
  "sk_rb_is_um B st rnti lcid = rlc_rb_is_um (sl_rlc B) rnti lcid (sk_rlc st)"

text \<open>RLC and PDCP hold the same users when they see the same additions and removals.\<close>

interpretation rlc_pdcp: two_tables rlc_users "rlc_add_user R" rlc_rem_user pdcp_users "pdcp_add_user P" pdcp_rem_user
  for R :: "'e rlc_lib" and P :: "'p pdcp_lib"
  by unfold_locales

section \<open>Down to the MAC\<close>

definition sk_buffer_state ::
  "('e, 'p) stack_lib \<Rightarrow> u16 \<Rightarrow> u32 \<Rightarrow> u32 \<Rightarrow> u32 \<Rightarrow> ('e, 'p) stack \<Rightarrow> ('e, 'p) stack option" where
  "sk_buffer_state B rnti lcid tx retx st = do {
     (_, m) \<leftarrow> mac_rlc_buffer_state (sl_srslte B) (sl_mac B) rnti lcid tx retx (sk_mac st);
     Some (st\<lparr>sk_mac := m\<rparr>)
   }"

text \<open>An SDU written to RLC leads to a report of the queue or to nothing.\<close>

definition sk_rlc_report :: "('e, 'p) stack_lib \<Rightarrow> rlc_call \<Rightarrow> ('e, 'p) stack \<Rightarrow> ('e, 'p) stack option" where
  "sk_rlc_report B c st =
     (case c of Mac_Rlc_Buffer_State rnti lcid tx retx \<Rightarrow> sk_buffer_state B rnti lcid tx retx st | _ \<Rightarrow> Some st)"

definition sk_rlc_write_sdu ::
  "('e, 'p) stack_lib \<Rightarrow> u16 \<Rightarrow> u32 \<Rightarrow> byte_buffer \<Rightarrow> ('e, 'p) stack \<Rightarrow> ('e, 'p) stack option" where
  "sk_rlc_write_sdu B rnti lcid sdu st =
     (let (s, cs) = rlc_write_sdu (sl_rlc B) (sl_mac B) rnti lcid sdu (sk_rlc st)
      in foldM (sk_rlc_report B) cs (st\<lparr>sk_rlc := s\<rparr>))"

section \<open>Up to GTP-U and RRC\<close>

definition sk_gtpu_write_pdu ::
  "('e, 'p) stack_lib \<Rightarrow> u16 \<Rightarrow> u32 \<Rightarrow> byte_buffer \<Rightarrow> ('e, 'p) stack \<Rightarrow> ('e, 'p) stack option" where
  "sk_gtpu_write_pdu B rnti lcid pdu st = do {
     (g, cs) \<leftarrow> gtpu_write_pdu (sl_gtpu B) rnti lcid pdu (sk_gtpu st);
     Some (st\<lparr>sk_gtpu := g,
       sk_sent := sk_sent st @ concat (map (\<lambda>c. case c of Send_To addr port d \<Rightarrow> [(addr, port, d)] | _ \<Rightarrow> []) cs)\<rparr>)
   }"

definition sk_pdcp_call :: "('e, 'p) stack_lib \<Rightarrow> pdcp_call \<Rightarrow> ('e, 'p) stack \<Rightarrow> ('e, 'p) stack option" where
  "sk_pdcp_call B c st =
     (case c of
        Rlc_Write_Sdu rnti lcid sdu \<Rightarrow> sk_rlc_write_sdu B rnti lcid sdu st
      | Gtpu_Write_Pdu rnti lcid pdu \<Rightarrow> sk_gtpu_write_pdu B rnti lcid pdu st
      | Rrc_Write_Pdu rnti lcid pdu \<Rightarrow> Some (st\<lparr>sk_rrc_queue := sk_rrc_queue st @ [(rnti, lcid, pdu)]\<rparr>)
      | Pdcp_Pool_Deallocate _ \<Rightarrow> Some st)"

definition sk_pdcp_write_sdu ::
  "('e, 'p) stack_lib \<Rightarrow> u16 \<Rightarrow> u32 \<Rightarrow> byte_buffer \<Rightarrow> ('e, 'p) stack \<Rightarrow> ('e, 'p) stack option" where
  "sk_pdcp_write_sdu B rnti lcid sdu st =
     (let (s, cs) = pdcp_write_sdu (sl_pdcp B) (sl_mac B) (sk_rb_is_um B st) rnti lcid sdu (sk_pdcp st)
      in foldM (sk_pdcp_call B) cs (st\<lparr>sk_pdcp := s\<rparr>))"

definition sk_pdcp_write_pdu ::
  "('e, 'p) stack_lib \<Rightarrow> u16 \<Rightarrow> u32 \<Rightarrow> byte_buffer \<Rightarrow> ('e, 'p) stack \<Rightarrow> ('e, 'p) stack option" where
  "sk_pdcp_write_pdu B rnti lcid sdu st =
     (let (s, cs) = pdcp_write_pdu (sl_pdcp B) (sk_rb_is_um B st) rnti lcid sdu (sk_pdcp st)
      in foldM (sk_pdcp_call B) cs (st\<lparr>sk_pdcp := s\<rparr>))"

text \<open>\<open>rrc::max_retx_attempted\<close> is empty.\<close>

definition sk_rlc_call :: "('e, 'p) stack_lib \<Rightarrow> rlc_call \<Rightarrow> ('e, 'p) stack \<Rightarrow> ('e, 'p) stack option" where
  "sk_rlc_call B c st =
     (case c of
        Mac_Rlc_Buffer_State rnti lcid tx retx \<Rightarrow> sk_buffer_state B rnti lcid tx retx st
      | Pdcp_Write_Pdu rnti lcid sdu \<Rightarrow> sk_pdcp_write_pdu B rnti lcid sdu st
      | _ \<Rightarrow> Some st)"

text \<open>What the call \<open>Rlc_Write\<close> of the MAC leads to.\<close>

definition sk_rlc_write_pdu ::
  "('e, 'p) stack_lib \<Rightarrow> u16 \<Rightarrow> u32 \<Rightarrow> u8 list \<Rightarrow> ('e, 'p) stack \<Rightarrow> ('e, 'p) stack option" where
  "sk_rlc_write_pdu B rnti lcid payload st =
     (let (s, cs) = rlc_write_pdu (sl_rlc B) rnti lcid payload (sk_rlc st)
      in foldM (sk_rlc_call B) cs (st\<lparr>sk_rlc := s\<rparr>))"

section \<open>A datagram of the gateway\<close>

definition sk_gtpu_rx ::
  "('e, 'p) stack_lib \<Rightarrow> int \<Rightarrow> u8 list \<Rightarrow> u32 \<Rightarrow> u16 \<Rightarrow> ('e, 'p) stack \<Rightarrow> ('e, 'p) stack option" where
  "sk_gtpu_rx B n msg addr port st =
     foldM (\<lambda>c st. case c of
         Pdcp_Write_Sdu rnti lcid pdu \<Rightarrow> sk_pdcp_write_sdu B rnti lcid pdu st
       | Send_To addr port d \<Rightarrow> Some (st\<lparr>sk_sent := sk_sent st @ [(addr, port, d)]\<rparr>)
       | _ \<Rightarrow> Some st)
     (gtpu_rx (sl_gtpu B) n msg addr port (sk_gtpu st)) st"

section \<open>Downlink\<close>

text \<open>The backlog of a bearer in the scheduler, as RLC reported it.\<close>

definition sched_backlog :: "u16 \<Rightarrow> u32 \<Rightarrow> mac \<Rightarrow> (int \<times> int) option" where
  "sched_backlog rnti lcid m =
     map_option (\<lambda>u. (lc_buf_tx (su_lch u (unat lcid)), lc_buf_retx (su_lch u (unat lcid))))
       (omap_get (sc_ue_db (ma_scheduler m)) rnti)"

lemma small_byte: "unat lcid < SRSENB_N_RADIO_BEARERS \<Longrightarrow> unat (ucast lcid :: u8) = unat lcid" for lcid :: u32
  by (simp add: unsigned_ucast_eq unsigned_take_bit_eq take_bit_nat_eq_self SRSENB_N_RADIO_BEARERS_def)

lemma buffer_state_reaches:
  assumes "rnti \<noteq> SRSLTE_MRNTI (sl_mac B)" and "user rnti (sk_mac st) \<noteq> None"
    and "omap_get (sc_ue_db (ma_scheduler (sk_mac st))) rnti \<noteq> None"
    and "unat lcid < SRSENB_N_RADIO_BEARERS" and "unat lcid < MAX_LC (sl_srslte B)"
  shows "\<exists>m. sk_buffer_state B rnti lcid tx retx st = Some (st\<lparr>sk_mac := m\<rparr>) \<and>
    sched_backlog rnti lcid m = Some (i32 tx, i32 retx)"
proof -
  obtain u v where u: "user rnti (sk_mac st) = Some v" "omap_get (sc_ue_db (ma_scheduler (sk_mac st))) rnti = Some u"
    using assms(2,3) by blast
  let ?m = "(sk_mac st)\<lparr>ma_scheduler :=
    snd (dl_rlc_buffer_state (sl_srslte B) rnti lcid tx retx (ma_scheduler (sk_mac st)))\<rparr>"
  have "sk_buffer_state B rnti lcid tx retx st = Some (st\<lparr>sk_mac := ?m\<rparr>)"
    using u assms(1) by (simp add: sk_buffer_state_def mac_rlc_buffer_state_def case_prod_beta)
  moreover have "sched_backlog rnti lcid ?m = Some (i32 tx, i32 retx)"
    using u assms(4,5)
    by (simp add: dl_rlc_buffer_state_def on_ue_def dl_buffer_state_def small_byte sched_backlog_def om.look_put upd_lch_def)
  ultimately show ?thesis by blast
qed

lemma rlc_write_sdu_reaches:
  assumes "rnti \<noteq> SRSLTE_MRNTI (sl_mac B)" and "user rnti (sk_mac st) \<noteq> None"
    and "omap_get (sc_ue_db (ma_scheduler (sk_mac st))) rnti \<noteq> None"
    and "unat lcid < SRSENB_N_RADIO_BEARERS" and "unat lcid < MAX_LC (sl_srslte B)"
    and "omap_get (sk_rlc st) rnti = Some ru"
  shows "\<exists>m. sk_rlc_write_sdu B rnti lcid sdu st =
      Some (st\<lparr>sk_rlc := omap_set rnti (ru\<lparr>ru_rlc := rl_write_sdu (sl_rlc B) lcid sdu (ru_rlc ru)\<rparr>) (sk_rlc st),
        sk_mac := m\<rparr>) \<and>
    sched_backlog rnti lcid m =
      Some (i32 (rl_get_total_buffer_state (sl_rlc B) lcid (rl_write_sdu (sl_rlc B) lcid sdu (ru_rlc ru))), 0)"
proof -
  let ?e = "rl_write_sdu (sl_rlc B) lcid sdu (ru_rlc ru)"
  let ?st = "st\<lparr>sk_rlc := omap_set rnti (ru\<lparr>ru_rlc := ?e\<rparr>) (sk_rlc st)\<rparr>"
  obtain m where "sk_buffer_state B rnti lcid (rl_get_total_buffer_state (sl_rlc B) lcid ?e) 0 ?st = Some (?st\<lparr>sk_mac := m\<rparr>)"
    "sched_backlog rnti lcid m = Some (i32 (rl_get_total_buffer_state (sl_rlc B) lcid ?e), i32 0)"
    using buffer_state_reaches[of rnti B ?st lcid "rl_get_total_buffer_state (sl_rlc B) lcid ?e" 0] assms by auto
  moreover have "sk_rlc_write_sdu B rnti lcid sdu st =
      sk_buffer_state B rnti lcid (rl_get_total_buffer_state (sl_rlc B) lcid ?e) 0 ?st"
    using assms(1,6) by (simp add: sk_rlc_write_sdu_def rlc_write_sdu_def sk_rlc_report_def Let_def)
  ultimately show ?thesis by auto
qed

text \<open>C16: a packet of the gateway that carries the identifier of a data bearer ends in the RLC queue of
  that user and bearer, and the scheduler of the MAC then has exactly the backlog this queue reports:
  no packet waits unknown to the scheduler.\<close>

theorem downlink_packet_reaches_scheduler:
  assumes hdr: "gtpu_read_header (sl_gtpu B) \<lparr>bb_n_bytes = of_i32 n, bb_msg = msg\<rparr> = Some (h, pdu)"
      "gh_message_type h = GTPU_MSG_DATA_PDU (sl_gtpu B)"
      "GTPU_MSG_DATA_PDU (sl_gtpu B) \<noteq> GTPU_MSG_ECHO_REQUEST (sl_gtpu B)"
      "gh_teid h = rntilcid_to_teidin rnti (ucast lcid)"
    and bearer: "SRSENB_N_SRB \<le> unat lcid" "unat lcid < SRSENB_N_RADIO_BEARERS" "unat lcid < MAX_LC (sl_srslte B)"
    and known: "omap_get (gt_rnti_bearers (sk_gtpu st)) rnti \<noteq> None" "user rnti (sk_mac st) \<noteq> None"
      "omap_get (sc_ue_db (ma_scheduler (sk_mac st))) rnti \<noteq> None"
      "omap_get (sk_pdcp st) rnti = Some pu" "pu_rlc_itf pu = rnti" "omap_get (sk_rlc st) rnti = Some ru"
    and unicast: "rnti \<noteq> SRSLTE_MRNTI (sl_mac B)"
    and pdcp: "pl_write_sdu (sl_pdcp B) (itf_rlc_rb_is_um (sk_rb_is_um B st) pu) lcid pdu (pu_pdcp pu) =
        ([Out_Rlc_Write_Sdu lcid sdu], p)"
  shows "\<exists>st' ru'. sk_gtpu_rx B n msg client port st = Some st' \<and> omap_get (sk_rlc st') rnti = Some ru' \<and>
    ru_rlc ru' = rl_write_sdu (sl_rlc B) lcid sdu (ru_rlc ru) \<and>
    sched_backlog rnti lcid (sk_mac st') = Some (i32 (rl_get_total_buffer_state (sl_rlc B) lcid (ru_rlc ru')), 0)"
proof -
  have lc: "unat (ucast lcid :: u16) = unat lcid" "ucast (ucast lcid :: u16) = lcid"
    using bearer(2) small_lcid[of lcid] unat_small16[of lcid] by (simp_all add: SRSENB_N_RADIO_BEARERS_def)
  have rx: "gtpu_rx (sl_gtpu B) n msg client port (sk_gtpu st) = [Pdcp_Write_Sdu rnti lcid pdu]"
    using hdr bearer(1,2) known(1) lc by (simp add: gtpu_rx_def teid_parts)
  let ?st = "st\<lparr>sk_pdcp := omap_set rnti (pu\<lparr>pu_pdcp := p\<rparr>) (sk_pdcp st)\<rparr>"
  have "sk_pdcp_write_sdu B rnti lcid pdu st = sk_rlc_write_sdu B rnti lcid sdu ?st"
    using known(4,5) unicast pdcp
    by (simp add: sk_pdcp_write_sdu_def pdcp_write_sdu_def pdcp_outs_def itf_rlc_write_sdu_def sk_pdcp_call_def)
  moreover obtain m where "sk_rlc_write_sdu B rnti lcid sdu ?st =
      Some (?st\<lparr>sk_rlc := omap_set rnti (ru\<lparr>ru_rlc := rl_write_sdu (sl_rlc B) lcid sdu (ru_rlc ru)\<rparr>) (sk_rlc ?st),
        sk_mac := m\<rparr>)"
    "sched_backlog rnti lcid m =
      Some (i32 (rl_get_total_buffer_state (sl_rlc B) lcid (rl_write_sdu (sl_rlc B) lcid sdu (ru_rlc ru))), 0)"
    using rlc_write_sdu_reaches[of rnti B ?st lcid ru sdu] unicast known bearer by auto
  ultimately show ?thesis by (simp add: sk_gtpu_rx_def rx om.look_put)
qed

definition demo_rlc_lib :: "nat rlc_lib" where
  "demo_rlc_lib = \<lparr>rl_n_radio_bearers = 11, rl_init = 0, rl_empty_queue = (\<lambda>_. 0), rl_add_bearer = (\<lambda>_ e. e),
     rl_add_bearer_cnfg = (\<lambda>_ _ e. e), rl_add_bearer_mrb = (\<lambda>_ e. e),
     rl_read_pdu = (\<lambda>_ n e. ((int (min (unat n) e), []), [], e - unat n)),
     rl_read_pdu_mch = (\<lambda>_ n e. ((int (min (unat n) e), []), [], e - unat n)),
     rl_write_pdu = (\<lambda>lcid payload e. ([Up_Pdu lcid (buffer payload)], e)),
     rl_write_sdu = (\<lambda>_ sdu e. e + length (bb_msg sdu)), rl_write_sdu_mch = (\<lambda>_ sdu e. e + length (bb_msg sdu)),
     rl_get_total_buffer_state = (\<lambda>_ e. of_nat e), rl_get_total_mch_buffer_state = (\<lambda>_ e. of_nat e),
     rl_rb_is_um = (\<lambda>_ _. False)\<rparr>"

definition demo_pdcp_lib :: "unit pdcp_lib" where
  "demo_pdcp_lib = \<lparr>pl_config_default = \<lparr>pc_is_control = False, pc_is_data = False, pc_downlink = True, pc_sn_len = 12\<rparr>,
     pl_config_of = (\<lambda>_. \<lparr>pc_is_control = False, pc_is_data = True, pc_downlink = True, pc_sn_len = 12\<rparr>),
     pl_init = (), pl_add_bearer = (\<lambda>_ _ _ p. p), pl_add_bearer_mrb = (\<lambda>_ _ _ p. p), pl_reset = (\<lambda>p. p),
     pl_config_security = (\<lambda>_ _ _ _ _ p. p), pl_enable_integrity = (\<lambda>_ p. p), pl_enable_encryption = (\<lambda>_ p. p),
     pl_write_pdu = (\<lambda>_ lcid b p. ([Out_Gtpu_Write_Pdu lcid b], p)),
     pl_write_sdu = (\<lambda>_ lcid b p. ([Out_Rlc_Write_Sdu lcid b], p)),
     pl_write_sdu_mch = (\<lambda>_ lcid b p. ([Out_Rlc_Write_Sdu lcid b], p))\<rparr>"

definition demo_stack_lib :: "(nat, unit) stack_lib" where
  "demo_stack_lib = \<lparr>sl_srslte = demo_lib, sl_mac = demo_mac_lib, sl_rlc = demo_rlc_lib, sl_pdcp = demo_pdcp_lib,
     sl_gtpu = demo_gtpu_lib\<rparr>"

text \<open>User 70 is known to every layer and has a tunnel on channel 3.\<close>

definition demo_stack :: "(nat, unit) stack" where
  "demo_stack = \<lparr>sk_mac = mac_new\<lparr>ma_ue_db := [(70, demo_mac_ue)], ma_scheduler := demo_known\<rparr>,
     sk_rlc = rlc_add_user demo_rlc_lib 70 [], sk_pdcp = pdcp_add_user demo_pdcp_lib 70 [],
     sk_gtpu = put_bearers 70 \<lparr>bm_teids_in = (replicate 11 0)[3 := 0x460003], bm_teids_out = (replicate 11 0)[3 := 17],
       bm_spgw_addrs = (replicate 11 0)[3 := 9]\<rparr> gtpu_new, sk_rrc_queue = [], sk_sent = []\<rparr>"

lemma demo_stack_known:
  "user 70 (sk_mac demo_stack) = Some demo_mac_ue"
  "omap_get (sc_ue_db (ma_scheduler (sk_mac demo_stack))) 70 = Some (sched_ue_new demo_lib)"
  "omap_get (sk_rlc demo_stack) 70 = Some \<lparr>ru_rnti = 70, ru_rlc = 0\<rparr>"
  "omap_get (sk_pdcp demo_stack) 70 = Some \<lparr>pu_rlc_itf = 70, pu_gtpu_itf = 70, pu_rrc_itf = 70, pu_pdcp = ()\<rparr>"
  "omap_get (gt_rnti_bearers (sk_gtpu demo_stack)) 70 \<noteq> None"
  by (simp_all add: demo_stack_def user_def demo_known_def rlc_add_user_def pdcp_add_user_def demo_rlc_lib_def
      demo_pdcp_lib_def put_bearers_def om.look_put)

lemma demo_stack_rlc [simp]: "sl_rlc demo_stack_lib = demo_rlc_lib"
  by (simp add: demo_stack_lib_def)

theorem downlink_packet_reaches_scheduler_witness:
  "\<exists>st'. sk_gtpu_rx demo_stack_lib 2 [5, 6] 9 2152 demo_stack = Some st' \<and>
     sched_backlog 70 3 (sk_mac st') = Some (2, 0)"
proof -
  have "\<exists>st' ru'. sk_gtpu_rx demo_stack_lib 2 [5, 6] 9 2152 demo_stack = Some st' \<and> omap_get (sk_rlc st') 70 = Some ru' \<and>
      ru_rlc ru' = rl_write_sdu (sl_rlc demo_stack_lib) 3 (buffer [5, 6]) (ru_rlc \<lparr>ru_rnti = 70, ru_rlc = 0\<rparr>) \<and>
      sched_backlog 70 3 (sk_mac st') = Some (i32 (rl_get_total_buffer_state (sl_rlc demo_stack_lib) 3 (ru_rlc ru')), 0)"
    by (rule downlink_packet_reaches_scheduler[where h = demo_header and pdu = "buffer [5, 6]" and p = "()",
          OF _ _ _ _ _ _ _ _ _ _ demo_stack_known(4) _ demo_stack_known(3)])
      (simp_all add: demo_stack_known demo_mac_max_lc demo_stack_lib_def demo_gtpu_lib_def demo_header_def buffer_def
        demo_mac_lib_def demo_pdcp_lib_def SRSENB_N_SRB_def SRSENB_N_RADIO_BEARERS_def)
  then show ?thesis by (elim exE conjE) (simp add: demo_rlc_lib_def buffer_def)
qed

section \<open>Uplink\<close>

text \<open>C17: data of a bearer that the RLC reassembles out of a received SDU and the PDCP accepts leaves
  for the gateway of that bearer with the identifier the gateway gave, and the scheduler is told the
  state of the queue afterwards.\<close>

theorem uplink_data_leaves_for_gateway:
  assumes bearer: "unat lcid < SRSENB_N_RADIO_BEARERS" "unat lcid < MAX_LC (sl_srslte B)"
    and known: "user rnti (sk_mac st) \<noteq> None" "omap_get (sc_ue_db (ma_scheduler (sk_mac st))) rnti \<noteq> None"
      "omap_get (sk_pdcp st) rnti = Some pu" "pu_gtpu_itf pu = rnti"
      "omap_get (sk_rlc st) rnti = Some ru" "ru_rnti ru = rnti"
    and unicast: "rnti \<noteq> SRSLTE_MRNTI (sl_mac B)"
    and tunnel: "gtpu_wf (sk_gtpu st)" "tunnels (sk_gtpu st) (rnti, unat lcid) = Some (teid_out, addr)"
    and rlc: "rl_write_pdu (sl_rlc B) lcid payload (ru_rlc ru) = ([Up_Pdu lcid sdu], e)"
    and pdcp: "\<And>um. pl_write_pdu (sl_pdcp B) um lcid sdu (pu_pdcp pu) = ([Out_Gtpu_Write_Pdu lcid pdu], p)"
    and header: "gtpu_write_header (sl_gtpu B) \<lparr>gh_flags = GTPU_FLAGS_VERSION_V1 (sl_gtpu B) OR GTPU_FLAGS_GTP_PROTOCOL (sl_gtpu B),
        gh_message_type = GTPU_MSG_DATA_PDU (sl_gtpu B), gh_length = bb_n_bytes pdu, gh_teid = teid_out,
        gh_seq_number = None, gh_n_pdu = None, gh_next_ext_hdr_type = None\<rparr> pdu = Some out"
  shows "\<exists>st'. sk_rlc_write_pdu B rnti lcid payload st = Some st' \<and>
    sk_sent st' = sk_sent st @ [(addr, GTPU_PORT, out)] \<and>
    sched_backlog rnti lcid (sk_mac st') = Some (i32 (rl_get_total_buffer_state (sl_rlc B) lcid e), 0)"
proof -
  let ?g = "sk_gtpu st" and ?m = "bearers rnti (sk_gtpu st)"
  have m: "bearer_map_wf ?m" using tunnel(1) by (rule bearers_wf)
  have "map_tunnel ?m (unat lcid) = Some (teid_out, addr)" using tunnel(2) by (simp add: bearers_tunnels)
  then have "bm_teids_out ?m ! unat lcid = teid_out" "bm_spgw_addrs ?m ! unat lcid = addr"
    by (auto simp: map_tunnel_def split: if_splits)
  then have w: "gtpu_write_pdu (sl_gtpu B) rnti lcid pdu ?g =
      Some (put_bearers rnti ?m ?g, [Send_To addr GTPU_PORT out, Gtpu_Pool_Deallocate out])"
    using m bearer(1) header by (simp add: gtpu_write_pdu_def bearer_map_wf_def)
  let ?st1 = "st\<lparr>sk_rlc := omap_set rnti (ru\<lparr>ru_rlc := e\<rparr>) (sk_rlc st)\<rparr>"
  let ?st2 = "?st1\<lparr>sk_pdcp := omap_set rnti (pu\<lparr>pu_pdcp := p\<rparr>) (sk_pdcp st), sk_gtpu := put_bearers rnti ?m ?g,
    sk_sent := sk_sent st @ [(addr, GTPU_PORT, out)]\<rparr>"
  have "sk_pdcp_write_pdu B rnti lcid sdu ?st1 = Some ?st2"
    using known(3,4) pdcp w
    by (simp add: sk_pdcp_write_pdu_def pdcp_write_pdu_def pdcp_outs_def itf_gtpu_write_pdu_def sk_pdcp_call_def
        sk_gtpu_write_pdu_def)
  moreover obtain m' where
    "sk_buffer_state B rnti lcid (rl_get_total_buffer_state (sl_rlc B) lcid e) 0 ?st2 = Some (?st2\<lparr>sk_mac := m'\<rparr>)"
    "sched_backlog rnti lcid m' = Some (i32 (rl_get_total_buffer_state (sl_rlc B) lcid e), i32 0)"
    using buffer_state_reaches[of rnti B ?st2 lcid "rl_get_total_buffer_state (sl_rlc B) lcid e" 0]
      unicast known bearer by auto
  ultimately show ?thesis
    using known(5,6) rlc
    by (simp add: sk_rlc_write_pdu_def rlc_write_pdu_def rlc_upcalls_def ui_write_pdu_def sk_rlc_call_def)
qed

theorem uplink_data_leaves_for_gateway_witness:
  "\<exists>st'. sk_rlc_write_pdu demo_stack_lib 70 3 [1, 2] demo_stack = Some st' \<and>
     sk_sent st' = [(9, 2152, buffer [1, 2])]"
proof -
  have t: "tunnels (sk_gtpu demo_stack) (70, unat (3 :: u32)) = Some (17, 9)" "gtpu_wf (sk_gtpu demo_stack)"
    by (simp_all add: demo_stack_def put_bearers_tunnels map_tunnel_def SRSENB_N_RADIO_BEARERS_def put_bearers_wf
        gtpu_new_wf bearer_map_wf_def)
  have "\<exists>st'. sk_rlc_write_pdu demo_stack_lib 70 3 [1, 2] demo_stack = Some st' \<and>
      sk_sent st' = sk_sent demo_stack @ [(9, GTPU_PORT, buffer [1, 2])] \<and>
      sched_backlog 70 3 (sk_mac st') = Some (i32 (rl_get_total_buffer_state (sl_rlc demo_stack_lib) 3 0), 0)"
    by (rule uplink_data_leaves_for_gateway[where sdu = "buffer [1, 2]" and pdu = "buffer [1, 2]" and p = "()",
          OF _ _ _ _ demo_stack_known(4) _ demo_stack_known(3) _ _ t(2,1)])
      (simp_all add: demo_stack_known demo_mac_max_lc demo_stack_lib_def demo_gtpu_lib_def demo_rlc_lib_def
        demo_mac_lib_def demo_pdcp_lib_def SRSENB_N_RADIO_BEARERS_def)
  then show ?thesis by (auto simp: demo_stack_def GTPU_PORT_def)
qed

end
