(* ===== verification/Rrc_Calls.thy ===== *)
theory Rrc_Calls
  imports Rrc_Wf User_Plane
begin

text \<open>
  The calls of the RRC that change the tables of users of RLC and PDCP. All others leave them alone;
  here it is shown operation by operation which the RRC makes.
\<close>

section \<open>Table operations among the calls\<close>

fun rlc_op :: "rrc_call \<Rightarrow> table_op list" where
  "rlc_op (Rc_Rlc_Add_User k) = [Add_User k]"
| "rlc_op (Rc_Rlc_Rem_User k) = [Rem_User k]"
| "rlc_op _ = []"

fun pdcp_op :: "rrc_call \<Rightarrow> table_op list" where
  "pdcp_op (Rc_Pdcp_Add_User k) = [Add_User k]"
| "pdcp_op (Rc_Pdcp_Rem_User k) = [Rem_User k]"
| "pdcp_op _ = []"

definition rlc_ops :: "rrc_call list \<Rightarrow> table_op list" where
  "rlc_ops cs = concat (map rlc_op cs)"

definition pdcp_ops :: "rrc_call list \<Rightarrow> table_op list" where
  "pdcp_ops cs = concat (map pdcp_op cs)"

definition silent :: "rrc_call list \<Rightarrow> bool" where
  "silent cs \<longleftrightarrow> (\<forall>c \<in> set cs. rlc_op c = [] \<and> pdcp_op c = [])"

lemma silent_simps [simp]:
  "silent []" "silent (c # cs) \<longleftrightarrow> rlc_op c = [] \<and> pdcp_op c = [] \<and> silent cs" "silent (cs @ ds) \<longleftrightarrow> silent cs \<and> silent ds"
  by (auto simp: silent_def)

lemma ops_simps [simp]:
  "rlc_ops [] = []" "rlc_ops (c # cs) = rlc_op c @ rlc_ops cs" "rlc_ops (cs @ ds) = rlc_ops cs @ rlc_ops ds"
  "pdcp_ops [] = []" "pdcp_ops (c # cs) = pdcp_op c @ pdcp_ops cs" "pdcp_ops (cs @ ds) = pdcp_ops cs @ pdcp_ops ds"
  by (simp_all add: rlc_ops_def pdcp_ops_def)

lemma silent_ops: "silent cs \<Longrightarrow> rlc_ops cs = [] \<and> pdcp_ops cs = []"
  by (induction cs) simp_all

section \<open>Silent operations\<close>

lemma silent_send [simp]:
  "silent (send_dl_ccch B u m)" "silent (send_dl_dcch B u m)" "silent (send_connection_reest_rej B u)"
  "silent (snd (send_connection_release B u))" "silent (snd (send_security_mode_command B u))"
  "silent (snd (send_connection_reconf_upd B r u))" "silent (snd (set_security_key B key u))"
  "silent (notify_s1ap_ue_ctxt_setup_complete B u)" "silent (snd (notify_s1ap_ue_erab_setup_response B es u))"
  "silent (handle_rrc_reconf_complete u)" "silent (snd (handle_rrc_con_setup_complete nas u))"
  by (simp_all add: send_dl_ccch_def send_dl_dcch_def send_connection_reest_rej_def send_connection_release_def
      send_security_mode_command_def send_connection_reconf_upd_def set_security_key_def notify_s1ap_ue_ctxt_setup_complete_def
      notify_s1ap_ue_erab_setup_response_def handle_rrc_reconf_complete_def handle_rrc_con_setup_complete_def
      case_prod_beta Let_def)

lemma pred_bindI: "(\<And>x. m = Some x \<Longrightarrow> pred_option Q (f x)) \<Longrightarrow> pred_option Q (m \<bind> f)"
  by (cases m) simp_all

lemma silent_setup: "send_connection_setup B P b r u = Some (r', u', cs) \<Longrightarrow> silent cs"
proof -
  have "pred_option (\<lambda>x. silent (snd (snd x))) (send_connection_setup B P b r u)"
    unfolding send_connection_setup_def case_prod_beta Let_def
    by (intro pred_bindI, simp, intro impI pred_bindI, simp)
  then show "send_connection_setup B P b r u = Some (r', u', cs) \<Longrightarrow> silent cs" by simp
qed

lemma silent_con_req: "handle_rrc_con_req B P now msg r u = Some (r', u', cs) \<Longrightarrow> silent cs"
  by (auto simp: handle_rrc_con_req_def Let_def bind_eq_Some_conv dest: silent_setup)

lemma silent_reconf: "send_connection_reconf B P r u = Some (u', cs) \<Longrightarrow> silent cs"
proof -
  have "pred_option (\<lambda>x. silent (snd x)) (send_connection_reconf B P r u)"
    unfolding send_connection_reconf_def case_prod_beta Let_def
    by (intro pred_bindI) (simp split: option.split)
  then show "send_connection_reconf B P r u = Some (u', cs) \<Longrightarrow> silent cs" by simp
qed

lemma silent_erab_items: "setup_erab_items B es u = Some (ok, u', cs) \<Longrightarrow> silent cs"
proof (induction es arbitrary: u ok u' cs)
  case (Cons e es)
  have "setup_erab_item B e u = Some (v, ds) \<Longrightarrow> silent ds" for v ds
    by (auto simp: setup_erab_item_def setup_erab_def Let_def split: if_splits option.splits)
  then show ?case using Cons by (auto simp: bind_eq_Some_conv split: if_splits)
qed simp

lemma silent_new_bearer: "new_bearer_items B P r lcg es drbs nas u = Some (res, u', cs) \<Longrightarrow> silent cs"
proof (induction es arbitrary: drbs nas u res u' cs)
  case (Cons e es)
  then show ?case
    by (auto simp: Let_def bind_eq_Some_conv case_prod_beta split: if_splits option.splits)
qed simp

lemma silent_setup_erabs: "setup_erabs B P r stale lcg es u = Some (ok, u', cs) \<Longrightarrow> silent cs"
proof -
  have nb: "send_connection_reconf_new_bearer B P r stale lcg es v = Some (w, ds) \<Longrightarrow> silent ds" for v w ds
    using silent_new_bearer
    by (fastforce simp: send_connection_reconf_new_bearer_def case_prod_beta Let_def bind_eq_Some_conv split: option.splits)
  show "setup_erabs B P r stale lcg es u = Some (ok, u', cs) \<Longrightarrow> silent cs"
    by (auto simp: setup_erabs_def case_prod_beta Let_def bind_eq_Some_conv dest!: silent_erab_items nb split: if_splits)
qed

lemma silent_dcch: "ux_parse_ul_dcch B P now pdu r u = Some (u', cs) \<Longrightarrow> silent cs"
proof -
  have "pred_option (\<lambda>x. silent (snd x)) (ux_parse_ul_dcch B P now pdu r u)"
    unfolding ux_parse_ul_dcch_def Let_def
    by (cases "unpack_ul_dcch_msg B (take (unat (bb_n_bytes pdu)) (bb_msg pdu))")
      (auto intro!: pred_bindI dest: silent_reconf)
  then show "ux_parse_ul_dcch B P now pdu r u = Some (u', cs) \<Longrightarrow> silent cs" by simp
qed

lemma silent_ctxt: "setup_ue_ctxt B k msg r = Some (b, r', cs) \<Longrightarrow> silent cs"
  by (auto simp: setup_ue_ctxt_def setup_erabs_ctxt_def case_prod_beta Let_def bind_eq_Some_conv
      dest: silent_erab_items split: option.splits)

lemma silent_ue_erabs: "setup_ue_erabs B P stale lcg k msg r = Some (b, r', cs) \<Longrightarrow> silent cs"
  by (auto simp: setup_ue_erabs_def Let_def bind_eq_Some_conv dest: silent_setup_erabs split: option.splits)

lemma silent_upd_user: "silent (snd (upd_user B k old r))"
  by (simp add: upd_user_def case_prod_beta Let_def split: option.split)

lemma silent_dl_info: "silent (write_dl_info B k sdu r)"
  by (simp add: write_dl_info_def split: option.split)

lemma silent_scan: "act_scan L now ks r = (rem, r', cs) \<Longrightarrow> silent cs"
proof (induction ks arbitrary: r r' cs)
  case (Cons k ks)
  then show ?case
    by (auto simp: case_prod_beta Let_def prod_eq_iff split: option.splits if_splits)
qed simp

lemma silent_monitor: "silent (snd (act_monitor_step B L ex now r))"
  using silent_scan[of L now "map fst (rr_users r)" r] by (auto simp: act_monitor_step_def split: prod.split)

lemma silent_mbms: "silent (mbms_bearers L P m)"
  by (auto simp: mbms_bearers_def silent_def)

end
