(* ===== verification/Rrc_Inv.thy ===== *)
theory Rrc_Inv
  imports Rrc_Calls
begin

text \<open>
  The RRC as a whole: every operation returns on a well-formed state and keeps it well formed, the
  queue of the thread drains, and a released user is removed from every layer.
\<close>

section \<open>The thread\<close>

lemma ccch_wf:
  assumes "rrc_wf B r" "rrc_user k r = Some u"
  shows "\<exists>r' cs. parse_ul_ccch B P now k pdu r = Some (r', cs) \<and> rrc_wf B r'"
proof (cases pdu)
  case (Some b)
  have w: "wf_with B k r u" using assms by (rule wf_withI)
  show ?thesis
  proof (cases "unpack_ul_ccch_msg B (take (unat (bb_n_bytes b)) (bb_msg b))")
    case (Con_Req msg)
    obtain r' u' cs where "handle_rrc_con_req B P now msg r u = Some (r', u', cs)" "wf_with B k r' u'"
      using con_req_total[OF w] by blast
    then show ?thesis using Some Con_Req assms(2) by (simp add: parse_ul_ccch_def wf_with_def)
  qed (use Some assms in \<open>simp_all add: parse_ul_ccch_def\<close>)
qed (use assms in \<open>simp add: parse_ul_ccch_def\<close>)

lemma dcch_wf:
  assumes "rrc_wf B r" "rrc_user k r = Some u"
  shows "\<exists>r' cs. parse_ul_dcch B P now k pdu r = Some (r', cs) \<and> rrc_wf B r'"
proof (cases pdu)
  case (Some b)
  obtain u' cs where u': "ux_parse_ul_dcch B P now b r u = Some (u', cs)" "ue_keeps u u'"
    using parse_dcch_total assms(1) unfolding rrc_wf_def by blast
  have "rrc_wf B (put_rrc_user k u' r)" using assms u'(2) by (rule wf_put_keeps)
  then show ?thesis using Some u'(1) assms(2) by (simp add: parse_ul_dcch_def)
qed (use assms in \<open>simp add: parse_ul_dcch_def\<close>)

lemma release_wf: "rrc_wf B r \<Longrightarrow> rrc_wf B (fst (process_release_complete B k r))"
  by (auto simp: process_release_complete_def case_prod_beta Let_def keeps wf_put_keeps split: option.splits)

lemma rlf_wf: "rrc_wf B r \<Longrightarrow> rrc_wf B (fst (process_rl_failure B ex k r))"
  by (auto simp: process_rl_failure_def case_prod_beta Let_def keeps wf_put_keeps split: option.splits)

lemma handle_wf:
  assumes "rrc_wf B r"
  shows "\<exists>r' cs. rrc_handle B P ex now p r = Some (r', cs) \<and> rrc_wf B r'"
proof -
  obtain k lcid pdu where p: "p = (k, lcid, pdu)" by (metis surj_pair)
  show ?thesis
  proof (cases "rrc_user k r")
    case (Some u)
    have act: "rrc_wf B (put_rrc_user k (ux_set_activity now u) r)"
      using assms Some keeps_ops(2) by (rule wf_put_keeps)
    obtain r1 c1 r2 c2 r3 c3 where
      t: "parse_ul_ccch B P now k pdu r = Some (r1, c1)" "rrc_wf B r1"
      "parse_ul_dcch B P now k pdu r = Some (r2, c2)" "rrc_wf B r2" "rem_user k r = Some (r3, c3)" "rrc_wf B r3"
      using ccch_wf[OF assms Some, of P now pdu] dcch_wf[OF assms Some, of P now pdu] rem_user_total[OF assms, of k] by blast
    obtain r4 c4 r5 c5 where
      d: "process_release_complete B k r = (r4, c4)" "rrc_wf B r4" "process_rl_failure B ex k r = (r5, c5)" "rrc_wf B r5"
      using release_wf[OF assms] rlf_wf[OF assms] by (metis fst_conv surj_pair)
    show ?thesis using p Some t d act assms by (simp add: rrc_handle_def)
  qed (use p assms in \<open>simp add: rrc_handle_def\<close>)
qed

lemma run_step_wf:
  assumes "rrc_wf B r"
  shows "\<exists>r' cs. rrc_run_step B P ex now r = Some (r', cs) \<and> rrc_wf B r'"
proof (cases "rr_rx_pdu_queue r")
  case (Cons p q)
  have "rrc_wf B (r\<lparr>rr_rx_pdu_queue := q\<rparr>)" using assms by simp
  from handle_wf[OF this] show ?thesis using Cons by (simp add: rrc_run_step_def)
qed (use assms in \<open>simp add: rrc_run_step_def\<close>)

section \<open>The other operations\<close>

lemma upd_user_wf: "rrc_wf B r \<Longrightarrow> rrc_wf B (fst (upd_user B k old r))"
proof -
  assume w: "rrc_wf B r"
  let ?r = "rem_user_thread k r"
  have w': "rrc_wf B ?r" using w by simp
  show ?thesis
  proof (cases "rrc_user old ?r")
    case (Some u)
    have "rrc_wf B (put_rrc_user old (fst (send_connection_reconf_upd B ?r u)) ?r)"
      "rrc_wf B (put_rrc_user old (fst (send_connection_release B u)) ?r)"
      using w' Some by (simp_all add: wf_put_keeps keeps)
    then show ?thesis using Some by (simp add: upd_user_def case_prod_beta Let_def)
  qed (use w in \<open>simp add: upd_user_def Let_def\<close>)
qed

lemma setup_ctxt_wf:
  assumes "rrc_wf B r" "erab_ids_ok (ct_erabs msg)"
  shows "\<exists>r' cs. setup_ue_ctxt B k msg r = Some (rrc_user k r \<noteq> None, r', cs) \<and> rrc_wf B r'"
proof (cases "rrc_user k r")
  case (Some u)
  let ?u1 = "set_security_capabilities (ct_security_capabilities msg) (set_bitrates (ct_bitrates msg) u)"
  let ?u2 = "fst (set_security_key B (pack_security_key B (ct_security_key_bits msg)) ?u1)"
  let ?u3 = "fst (send_security_mode_command B ?u2)"
  have k3: "ue_keeps u ?u3"
    by (rule ue_keeps_trans[OF keeps_ops(7)], rule ue_keeps_trans[OF keeps_ops(8)], rule ue_keeps_trans[OF keeps_ops(9)], rule keeps_send(2))
  obtain ok v cs where v: "setup_erab_items B (ct_erabs msg) ?u3 = Some (ok, v, cs)" "ue_keeps ?u3 v"
    using erab_items_total[OF assms(2)] by blast
  have "rrc_wf B (put_rrc_user k v r)" using assms(1) Some ue_keeps_trans[OF k3 v(2)] by (rule wf_put_keeps)
  then show ?thesis using Some v(1) by (simp add: setup_ue_ctxt_def setup_erabs_ctxt_def case_prod_beta Let_def)
qed (use assms in \<open>simp add: setup_ue_ctxt_def\<close>)

lemma setup_erabs_wf:
  assumes "rrc_wf B r" "erab_ids_ok (es_erabs msg)" "length stale + length (es_erabs msg) \<le> RRC_MAX_NAS B"
  shows "\<exists>r' cs. setup_ue_erabs B P stale lcg k msg r = Some (rrc_user k r \<noteq> None, r', cs) \<and> rrc_wf B r'"
proof (cases "rrc_user k r")
  case (Some u)
  let ?u = "case es_bitrates msg of Some b \<Rightarrow> set_bitrates b u | None \<Rightarrow> u"
  have k: "ue_keeps u ?u" by (simp add: keeps split: option.split)
  have c: "rrc_cfg_ok B r" using assms(1) by (simp add: rrc_wf_def)
  obtain ok v cs where v: "setup_erabs B P r stale lcg (es_erabs msg) ?u = Some (ok, v, cs)" "ue_keeps ?u v"
    using setup_erabs_total[OF c assms(2,3)] by blast
  have "rrc_wf B (put_rrc_user k v r)" using assms(1) Some ue_keeps_trans[OF k v(2)] by (rule wf_put_keeps)
  then show ?thesis using Some v(1) by (simp add: setup_ue_erabs_def Let_def)
qed (use assms in \<open>simp add: setup_ue_erabs_def\<close>)

lemma release_erabs_wf: "rrc_wf B r \<Longrightarrow> rrc_wf B (snd (rrc_release_erabs k r))"
  by (cases "rrc_user (ucast k) r") (simp_all add: rrc_release_erabs_def case_prod_beta Let_def keeps wf_put_keeps)

lemma monitor_wf:
  assumes "rrc_wf B r"
  shows "rrc_wf B (fst (act_monitor_step B L ex now r))"
proof -
  obtain rem r' cs where s: "act_scan L now (map fst (rr_users r)) r = (rem, r', cs)" by (metis surj_pair)
  have "rrc_wf B r'" using assms s by (rule act_scan_wf)
  then show ?thesis using s by (simp add: act_monitor_step_def)
qed

lemma op_wf:
  assumes "rrc_wf B r" "rrc_op_ok B op"
  shows "\<exists>r' cs. rrc_run_op B L P now op r = Some (r', cs) \<and> rrc_wf B r'"
proof (cases op)
  case (Ro_Add_User k)
  then show ?thesis using add_user_wf[OF assms(1), of L P now k] by (simp add: rrc_run_op_def) (metis prod.collapse)
next
  case (Ro_Upd_User k old)
  then show ?thesis using upd_user_wf[OF assms(1), of k old] by (simp add: rrc_run_op_def) (metis prod.collapse)
next
  case (Ro_Setup_Ctxt k msg)
  then show ?thesis using setup_ctxt_wf[OF assms(1), of msg k] assms(2) by (auto simp: rrc_run_op_def rrc_op_ok_def)
next
  case (Ro_Setup_Erabs k stale lcg msg)
  then show ?thesis using setup_erabs_wf[OF assms(1), of msg stale P lcg k] assms(2) by (auto simp: rrc_run_op_def rrc_op_ok_def)
next
  case (Ro_Paging_Tti tti)
  then show ?thesis using paging_total[OF assms(1), of tti] by (auto simp: rrc_run_op_def)
next
  case (Ro_Thread ex)
  then show ?thesis using run_step_wf[OF assms(1)] by (simp add: rrc_run_op_def)
next
  case (Ro_Monitor ex)
  then show ?thesis using monitor_wf[OF assms(1), of L ex now] by (simp add: rrc_run_op_def) (metis prod.collapse)
next
  case (Ro_Release_Erabs k)
  then show ?thesis using release_erabs_wf[OF assms(1), of k] by (simp add: rrc_run_op_def)
next
  case (Ro_Add_Paging i p)
  then show ?thesis using assms(1) by (simp add: rrc_run_op_def add_paging_id_def)
qed (use assms(1) in \<open>simp_all add: rrc_run_op_def\<close>)

section \<open>Sequences of operations\<close>

fun rrc_run_ops ::
  "rrc_lib \<Rightarrow> mac_lib \<Rightarrow> 'p pdcp_lib \<Rightarrow> (int \<times> rrc_op) list \<Rightarrow> rrc \<Rightarrow> (rrc \<times> rrc_call list) option" where
  "rrc_run_ops B L P [] r = Some (r, [])"
| "rrc_run_ops B L P ((now, op) # ops) r = do {
     (r, cs) \<leftarrow> rrc_run_op B L P now op r;
     (r, ds) \<leftarrow> rrc_run_ops B L P ops r;
     Some (r, cs @ ds)
   }"

lemma ops_wf:
  assumes "rrc_wf B r" "\<forall>x \<in> set ops. rrc_op_ok B (snd x)"
  shows "\<exists>r' cs. rrc_run_ops B L P ops r = Some (r', cs) \<and> rrc_wf B r'"
  using assms
proof (induction ops arbitrary: r)
  case (Cons x ops)
  obtain now op where x: "x = (now, op)" by (metis surj_pair)
  obtain r1 cs where r1: "rrc_run_op B L P now op r = Some (r1, cs)" "rrc_wf B r1"
    using op_wf[OF Cons.prems(1)] Cons.prems(2) x by (metis list.set_intros(1) snd_conv)
  obtain r2 ds where "rrc_run_ops B L P ops r1 = Some (r2, ds)" "rrc_wf B r2"
    using Cons.IH[OF r1(2)] Cons.prems(2) by auto
  then show ?case using x r1 by simp
qed simp

section \<open>The queue drains\<close>

text \<open>Rounds of the thread, each with its own time and its own answers of the S1AP.\<close>

fun rrc_thread ::
  "rrc_lib \<Rightarrow> 'p pdcp_lib \<Rightarrow> ((u16 \<Rightarrow> bool) \<times> int) list \<Rightarrow> rrc \<Rightarrow> (rrc \<times> rrc_call list) option" where
  "rrc_thread B P [] r = Some (r, [])"
| "rrc_thread B P ((ex, now) # es) r = do {
     (r, cs) \<leftarrow> rrc_run_step B P ex now r;
     (r, ds) \<leftarrow> rrc_thread B P es r;
     Some (r, cs @ ds)
   }"

text \<open>
  An entry costs one round, and two when its handling may push the removal of a user.
\<close>

definition entry_cost :: "u16 \<times> u32 \<times> byte_buffer option \<Rightarrow> nat" where
  "entry_cost p = (if fst (snd p) = LCID_REM_USER then 1 else 2)"

lemma entry_cost_pos [simp]: "entry_cost p \<noteq> 0"
  by (simp add: entry_cost_def)

definition queue_cost :: "rrc \<Rightarrow> nat" where
  "queue_cost r = sum_list (map entry_cost (rr_rx_pdu_queue r))"

definition removal_pending :: "u16 \<Rightarrow> rrc \<Rightarrow> bool" where
  "removal_pending k r \<longleftrightarrow>
     (\<exists>lcid pdu. (k, lcid, pdu) \<in> set (rr_rx_pdu_queue r) \<and> (lcid = LCID_REM_USER \<or> lcid = LCID_REL_USER))"

definition removal_calls :: "u16 \<Rightarrow> rrc_call list" where
  "removal_calls k = [Rc_Mac_Ue_Rem k, Rc_Gtpu_Rem_User k, Rc_Rlc_Rem_User k, Rc_Pdcp_Rem_User k]"

text \<open>What handling one entry does to the queue and to the set of users.\<close>

definition handled :: "u16 \<times> u32 \<times> byte_buffer option \<Rightarrow> rrc \<Rightarrow> rrc \<Rightarrow> rrc_call list \<Rightarrow> bool" where
  "handled p r r' cs \<longleftrightarrow>
     (rr_rx_pdu_queue r' = rr_rx_pdu_queue r \<or>
      fst (snd p) \<noteq> LCID_REM_USER \<and> rr_rx_pdu_queue r' = rr_rx_pdu_queue r @ [(fst p, LCID_REM_USER, None)]) \<and>
     (\<forall>k. rrc_user k r' = None \<longleftrightarrow> rrc_user k r = None \<or> fst (snd p) = LCID_REM_USER \<and> k = fst p) \<and>
     (if fst (snd p) = LCID_REM_USER \<and> rrc_user (fst p) r \<noteq> None then cs = removal_calls (fst p) else silent cs) \<and>
     (fst (snd p) = LCID_REL_USER \<longrightarrow> rrc_user (fst p) r \<noteq> None \<longrightarrow>
        rr_rx_pdu_queue r' = rr_rx_pdu_queue r @ [(fst p, LCID_REM_USER, None)])"

lemma handled_gone:
  assumes "handled p r r' cs" "rrc_user k r \<noteq> None" "rrc_user k r' = None"
  shows "cs = removal_calls k"
  using assms by (auto simp: handled_def)

lemma queue_sel [simp]:
  "rr_rx_pdu_queue (put_rrc_user k u r) = rr_rx_pdu_queue r"
  "rr_rx_pdu_queue (rem_user_thread k r) = rr_rx_pdu_queue r @ [(k, LCID_REM_USER, None)]"
  "rrc_user k (rem_user_thread k' r) = rrc_user k r"
  by (simp_all add: put_rrc_user_def rem_user_thread_def rrc_push_def)

lemma lcids_distinct [simp]:
  "LCID_REM_USER \<noteq> RB_ID_SRB0" "LCID_REM_USER \<noteq> RB_ID_SRB1" "LCID_REM_USER \<noteq> RB_ID_SRB2"
  "LCID_REL_USER \<noteq> RB_ID_SRB0" "LCID_REL_USER \<noteq> RB_ID_SRB1" "LCID_REL_USER \<noteq> RB_ID_SRB2"
  "LCID_REM_USER \<noteq> LCID_REL_USER" "LCID_REL_USER \<noteq> LCID_REM_USER"
  by (simp_all add: LCID_REM_USER_def LCID_REL_USER_def)

text \<open>Setting up a connection changes the counters and the user only.\<close>

definition grids_only :: "rrc \<Rightarrow> rrc \<Rightarrow> bool" where
  "grids_only r r' \<longleftrightarrow> rr_users r' = rr_users r \<and> rr_rx_pdu_queue r' = rr_rx_pdu_queue r"

lemma grids_only_sr:
  assumes "sr_allocate B p r u = Some (e, r', u')"
  shows "grids_only r r'"
proof -
  have "pred_option (\<lambda>x. grids_only r (fst (snd x))) (sr_allocate B p r u)"
    by (auto intro!: pred_bindI simp: sr_allocate_def Let_def grids_only_def simp del: insert_iff split: prod.splits)
  then show ?thesis using assms by simp
qed

lemma grids_only_cqi:
  assumes "cqi_allocate B p r u = Some (e, r', u')"
  shows "grids_only r r'"
proof -
  have "pred_option (\<lambda>x. grids_only r (fst (snd x))) (cqi_allocate B p r u)"
    by (auto intro!: pred_bindI simp: cqi_allocate_def Let_def grids_only_def split: prod.splits)
  then show ?thesis using assms by simp
qed

lemma grids_only_setup:
  assumes "send_connection_setup B P b r u = Some (r', u', cs)"
  shows "grids_only r r'"
proof -
  obtain e r1 u1 where s: "setup_sr B b r (snd (next_transaction u)) = Some (e, r1, u1)"
    using assms by (auto simp: send_connection_setup_def case_prod_beta Let_def bind_eq_Some_conv)
  have g1: "grids_only r r1" using s grids_only_sr by (fastforce simp: setup_sr_def grids_only_def split: if_splits)
  show ?thesis
  proof (cases "e = 0")
    case True
    then obtain e' r2 u2 where c: "setup_cqi B b r1 u1 = Some (e', r2, u2)" "r' = r2"
      using assms s by (auto simp: send_connection_setup_def case_prod_beta Let_def bind_eq_Some_conv split: if_splits)
    have "grids_only r1 r2" using c(1) grids_only_cqi by (fastforce simp: setup_cqi_def grids_only_def split: if_splits)
    then show ?thesis using g1 c(2) by (simp add: grids_only_def)
  next
    case False
    then show ?thesis using assms s g1 by (simp add: send_connection_setup_def case_prod_beta Let_def)
  qed
qed

lemma grids_only_con_req:
  assumes "handle_rrc_con_req B P now msg r u = Some (r', u', cs)"
  shows "grids_only r r'"
  using assms grids_only_setup by (fastforce simp: handle_rrc_con_req_def Let_def bind_eq_Some_conv)

lemma handled_put:
  assumes "rr_rx_pdu_queue r' = rr_rx_pdu_queue r" "\<And>k. rrc_user k r' = (if k = fst p then Some u' else rrc_user k r)"
    "rrc_user (fst p) r \<noteq> None" "fst (snd p) \<noteq> LCID_REM_USER" "fst (snd p) \<noteq> LCID_REL_USER" "silent cs"
  shows "handled p r r' cs"
  using assms by (auto simp: handled_def)

lemma handled_same:
  assumes "fst (snd p) \<noteq> LCID_REM_USER" "fst (snd p) \<noteq> LCID_REL_USER \<or> rrc_user (fst p) r = None" "silent cs"
  shows "handled p r r cs"
  using assms by (auto simp: handled_def)

lemma handled_push:
  assumes "rr_rx_pdu_queue r' = rr_rx_pdu_queue r @ [(fst p, LCID_REM_USER, None)]"
    "\<And>k. rrc_user k r' = None \<longleftrightarrow> rrc_user k r = None" "fst (snd p) \<noteq> LCID_REM_USER" "silent cs"
  shows "handled p r r' cs"
  using assms by (auto simp: handled_def)

lemma ccch_handled:
  assumes "parse_ul_ccch B P now k pdu r = Some (r', cs)" "rrc_user k r = Some u" "lcid \<noteq> LCID_REM_USER" "lcid \<noteq> LCID_REL_USER"
  shows "handled (k, lcid, pdu) r r' cs"
proof (cases pdu)
  case None
  then show ?thesis using assms by (auto simp: parse_ul_ccch_def intro: handled_same)
next
  case (Some b)
  show ?thesis
  proof (cases "unpack_ul_ccch_msg B (take (unat (bb_n_bytes b)) (bb_msg b))")
    case (Con_Req msg)
    obtain x where x: "handle_rrc_con_req B P now msg r u = Some x"
      using assms(1,2) Some Con_Req by (cases "handle_rrc_con_req B P now msg r u") (simp_all add: parse_ul_ccch_def)
    obtain r1 u1 ds where h0: "x = (r1, u1, ds)" by (metis surj_pair)
    then have h: "handle_rrc_con_req B P now msg r u = Some (r1, u1, ds)" "r' = put_rrc_user k u1 r1"
        "cs = ds @ [Rc_Pool_Deallocate b]"
      using assms(1,2) Some Con_Req x by (simp_all add: parse_ul_ccch_def)
    have "rr_rx_pdu_queue r1 = rr_rx_pdu_queue r" "rrc_user j r1 = rrc_user j r" for j
      using grids_only_con_req[OF h(1)] by (simp_all add: grids_only_def rrc_user_def)
    then show ?thesis using h(2,3) assms silent_con_req[OF h(1)] by (intro handled_put[where u' = u1]) simp_all
  next
    case (Con_Reest_Req old)
    show ?thesis
    proof (cases "is_idle u")
      case True
      then have "r' = rem_user_thread k r" "silent cs"
        using assms(1,2) Some Con_Reest_Req by (auto simp: parse_ul_ccch_def)
      then show ?thesis using assms by (intro handled_push) simp_all
    next
      case False
      then have "r' = r" "silent cs" using assms(1,2) Some Con_Reest_Req by (auto simp: parse_ul_ccch_def)
      then show ?thesis using assms by (simp add: handled_same)
    qed
  next
    case Ul_Ccch_Other
    then show ?thesis using assms Some by (auto simp: parse_ul_ccch_def intro: handled_same)
  qed
qed

lemma dcch_handled:
  assumes "parse_ul_dcch B P now k pdu r = Some (r', cs)" "rrc_user k r = Some u" "lcid \<noteq> LCID_REM_USER" "lcid \<noteq> LCID_REL_USER"
  shows "handled (k, lcid, pdu) r r' cs"
proof (cases pdu)
  case None
  then show ?thesis using assms by (auto simp: parse_ul_dcch_def intro: handled_same)
next
  case (Some b)
  then obtain u' where "ux_parse_ul_dcch B P now b r u = Some (u', cs)" "r' = put_rrc_user k u' r"
    using assms(1,2) by (auto simp: parse_ul_dcch_def bind_eq_Some_conv)
  then show ?thesis using assms silent_dcch by (intro handled_put[where u' = u']) simp_all
qed

lemma rem_handled:
  assumes "rem_user k r = Some (r', cs)" "rrc_user k r = Some u"
  shows "handled (k, LCID_REM_USER, pdu) r r' cs"
proof -
  obtain r1 r2 where f: "sr_free r u = Some r1" "cqi_free r1 u = Some r2" "r' = r2\<lparr>rr_users := omap_del k (rr_users r2)\<rparr>"
      "cs = removal_calls k"
    using assms by (auto simp: rem_user_def removal_calls_def bind_eq_Some_conv)
  have "grids_only r r1" using f(1) by (auto simp: sr_free_def grids_only_def bind_eq_Some_conv split: if_splits)
  moreover have "grids_only r1 r2" using f(2) by (auto simp: cqi_free_def grids_only_def bind_eq_Some_conv split: if_splits)
  ultimately have "rr_rx_pdu_queue r2 = rr_rx_pdu_queue r" "rrc_user j r2 = rrc_user j r" for j
    by (simp_all add: grids_only_def rrc_user_def)
  then show ?thesis using f(3,4) assms(2) by (auto simp: handled_def)
qed

lemma handle_handled:
  assumes "rrc_handle B P ex now p r = Some (r', cs)"
  shows "handled p r r' cs"
proof -
  obtain k lcid pdu where p: "p = (k, lcid, pdu)" by (metis surj_pair)
  show ?thesis
  proof (cases "rrc_user k r")
    case None
    then show ?thesis using assms p by (auto simp: rrc_handle_def handled_def)
  next
    case (Some u)
    note h = assms[unfolded p rrc_handle_def, simplified, unfolded Some, simplified]
    show ?thesis
    proof (cases "lcid = LCID_REM_USER \<or> lcid = LCID_REL_USER")
      case True
      show ?thesis
      proof (cases "lcid = LCID_REM_USER")
        case True
        then show ?thesis using h p Some rem_handled by (simp add: LCID_REM_USER_def) 
      next
        case False
        then have "process_release_complete B k r = (r', cs)" using True h by (simp add: LCID_REM_USER_def LCID_REL_USER_def)
        then show ?thesis using False p True Some
          by (intro handled_push) (auto simp: process_release_complete_def case_prod_beta Let_def split: if_splits)
      qed
    next
      case False
      then consider "parse_ul_ccch B P now k pdu r = Some (r', cs)" | "parse_ul_dcch B P now k pdu r = Some (r', cs)"
        | "process_rl_failure B ex k r = (r', cs)" | "r' = put_rrc_user k (ux_set_activity now u) r" "cs = []" | "r' = r" "cs = []"
        using h that by (cases "lcid = 0"; cases "lcid = 1 \<or> lcid = 2"; cases "lcid = LCID_RLF_USER"; cases "lcid = LCID_ACT_USER") simp_all
      then show ?thesis
      proof cases
        case 3
        then consider u' where "r' = put_rrc_user k u' r" "silent cs"
          | u' where "r' = rem_user_thread k (put_rrc_user k u' r)" "silent cs"
          using Some by (auto simp: process_rl_failure_def case_prod_beta Let_def split: if_splits)
        then show ?thesis
        proof cases
          case 1
          then show ?thesis using p False Some by (intro handled_put[where u' = u']) simp_all
        next
          case 2
          then show ?thesis using p False Some by (intro handled_push) simp_all
        qed
      next
        case 4
        then show ?thesis using p False Some by (intro handled_put[where u' = "ux_set_activity now u"]) simp_all
      qed (use p False Some ccch_handled dcch_handled handled_same in \<open>auto\<close>)
    qed
  qed
qed

text \<open>One round of the thread.\<close>

lemma step_empty: "rr_rx_pdu_queue r = [] \<Longrightarrow> rrc_run_step B P ex now r = Some (r, [])"
  by (simp add: rrc_run_step_def)

lemma step_cost:
  assumes "rrc_run_step B P ex now r = Some (r', cs)" "rr_rx_pdu_queue r \<noteq> []"
  shows "queue_cost r' < queue_cost r"
proof -
  obtain p q where q: "rr_rx_pdu_queue r = p # q" using assms(2) by (cases "rr_rx_pdu_queue r") simp_all
  have "handled p (r\<lparr>rr_rx_pdu_queue := q\<rparr>) r' cs" using assms(1) q handle_handled by (simp add: rrc_run_step_def)
  then show ?thesis using q by (auto simp: handled_def queue_cost_def entry_cost_def)
qed

lemma step_pending:
  assumes "rrc_run_step B P ex now r = Some (r', cs)"
    and "rrc_user k r = None \<or> removal_pending k r"
  shows "rrc_user k r' = None \<or> removal_pending k r'"
    and "rrc_user k r \<noteq> None \<Longrightarrow> rrc_user k r' = None \<Longrightarrow> set (removal_calls k) \<subseteq> set cs"
proof -
  have "(rrc_user k r' = None \<or> removal_pending k r') \<and>
    (rrc_user k r \<noteq> None \<longrightarrow> rrc_user k r' = None \<longrightarrow> set (removal_calls k) \<subseteq> set cs)"
  proof (cases "rr_rx_pdu_queue r")
    case Nil
    then show ?thesis using assms step_empty[OF Nil, of B P ex now] by auto
  next
    case (Cons p q)
    let ?r = "r\<lparr>rr_rx_pdu_queue := q\<rparr>"
    have h: "handled p ?r r' cs" using assms(1) Cons handle_handled by (simp add: rrc_run_step_def)
    have sub: "set q \<subseteq> set (rr_rx_pdu_queue r')" using h by (auto simp: handled_def)
    have "rrc_user k r' = None \<or> removal_pending k r'"
    proof (cases "rrc_user k r = None")
      case False
      then obtain lcid pdu where e: "(k, lcid, pdu) \<in> set (p # q)" "lcid = LCID_REM_USER \<or> lcid = LCID_REL_USER"
        using assms(2) Cons by (auto simp: removal_pending_def)
      show ?thesis
      proof (cases "(k, lcid, pdu) \<in> set q")
        case True
        then show ?thesis using sub e(2) by (auto simp: removal_pending_def)
      next
        case F: False
        then have p: "p = (k, lcid, pdu)" using e(1) by simp
        show ?thesis
        proof (cases "lcid = LCID_REM_USER")
          case True
          then show ?thesis using h p by (simp add: handled_def)
        next
          case L: False
          then have "rr_rx_pdu_queue r' = q @ [(k, LCID_REM_USER, None)]" using h p e(2) False by (simp add: handled_def)
          then show ?thesis by (auto simp: removal_pending_def)
        qed
      qed
    qed (use h in \<open>simp add: handled_def\<close>)
    then show ?thesis using handled_gone[OF h, of k] by simp
  qed
  then show "rrc_user k r' = None \<or> removal_pending k r'"
    "rrc_user k r \<noteq> None \<Longrightarrow> rrc_user k r' = None \<Longrightarrow> set (removal_calls k) \<subseteq> set cs" by blast+
qed

lemma thread_total:
  "rrc_wf B r \<Longrightarrow> \<exists>r' cs. rrc_thread B P es r = Some (r', cs) \<and> rrc_wf B r'"
proof (induction es arbitrary: r)
  case (Cons e es)
  obtain ex now where e: "e = (ex, now)" by (metis surj_pair)
  obtain r1 cs where r1: "rrc_run_step B P ex now r = Some (r1, cs)" "rrc_wf B r1"
    using run_step_wf[OF Cons.prems] by blast
  obtain r2 ds where "rrc_thread B P es r1 = Some (r2, ds)" "rrc_wf B r2" using Cons.IH[OF r1(2)] by blast
  then show ?case using e r1 by simp
qed simp

lemma thread_drains:
  "rrc_thread B P es r = Some (r', cs) \<Longrightarrow> queue_cost r \<le> length es \<Longrightarrow> rr_rx_pdu_queue r' = []"
proof (induction es arbitrary: r cs)
  case Nil
  have "queue_cost r = 0" "r' = r" using Nil by simp_all
  then show ?case by (cases "rr_rx_pdu_queue r") (simp_all add: queue_cost_def)
next
  case (Cons e es)
  obtain ex now where e: "e = (ex, now)" by (metis surj_pair)
  obtain r1 cs1 cs2 where r1: "rrc_run_step B P ex now r = Some (r1, cs1)" "rrc_thread B P es r1 = Some (r', cs2)"
    using Cons.prems(1) e by (auto simp: bind_eq_Some_conv)
  have "queue_cost r1 \<le> length es"
  proof (cases "rr_rx_pdu_queue r = []")
    case True
    then show ?thesis using r1(1) step_empty[OF True, of B P ex now] by (simp add: queue_cost_def)
  next
    case False
    then show ?thesis using step_cost[OF r1(1) False] Cons.prems(2) by simp
  qed
  then show ?case using Cons.IH[OF r1(2)] by simp
qed

lemma thread_removes:
  assumes "rrc_thread B P es r = Some (r', cs)" "rrc_user k r = None \<or> removal_pending k r"
  shows "(rrc_user k r' = None \<or> removal_pending k r') \<and>
    (rrc_user k r \<noteq> None \<longrightarrow> rrc_user k r' = None \<longrightarrow> set (removal_calls k) \<subseteq> set cs)"
  using assms
proof (induction es arbitrary: r cs)
  case (Cons e es)
  obtain ex now where e: "e = (ex, now)" by (metis surj_pair)
  obtain r1 cs1 cs2 where r1: "rrc_run_step B P ex now r = Some (r1, cs1)" "rrc_thread B P es r1 = Some (r', cs2)"
      "cs = cs1 @ cs2"
    using Cons.prems(1) e by (auto simp: bind_eq_Some_conv)
  note s = step_pending[OF r1(1) Cons.prems(2)]
  show ?case using Cons.IH[OF r1(2) s(1)] s(2) r1(3) by (cases "rrc_user k r1") auto
qed auto

section \<open>Properties\<close>

text \<open>The bearers that are set up: both lists stop at the first address of more than 32 bits.\<close>

definition reached_erabs :: "erab_item list \<Rightarrow> erab_item list" where
  "reached_erabs es = takeWhile (\<lambda>e. ei_addr_n_bits e \<le> 32) es"

lemma erab_item_none:
  "setup_erab_item B e u = None \<longleftrightarrow> \<not> unat (erab_lcid (ei_e_RAB_ID e)) < SRSENB_N_RADIO_BEARERS"
  by (simp add: setup_erab_item_def setup_erab_def Let_def unat_ucast_u8)

lemma erab_items_none: "setup_erab_items B es u = None \<longleftrightarrow> \<not> erab_ids_ok (reached_erabs es)"
proof (induction es arbitrary: u)
  case Nil
  then show ?case by (simp add: erab_ids_ok_def reached_erabs_def)
next
  case (Cons e es)
  show ?case
  proof (cases "setup_erab_item B e u")
    case None
    then show ?thesis using erab_item_none[of B e u] by (auto simp: erab_ids_ok_def reached_erabs_def not_less)
  next
    case (Some x)
    moreover have "unat (erab_lcid (ei_e_RAB_ID e)) < SRSENB_N_RADIO_BEARERS"
      using Some erab_item_none[of B e u] by simp
    moreover have "setup_erab_items B es (fst x) = None \<longleftrightarrow> \<not> erab_ids_ok (reached_erabs es)" by (rule Cons.IH)
    ultimately show ?thesis
      by (cases x; cases "setup_erab_items B es (fst x)") (auto simp: erab_ids_ok_def reached_erabs_def not_less)
  qed
qed

lemma setup_ctxt_none:
  "setup_ue_ctxt B k msg r = None \<longleftrightarrow> rrc_user k r \<noteq> None \<and> \<not> erab_ids_ok (reached_erabs (ct_erabs msg))"
proof (cases "rrc_user k r")
  case (Some u)
  let ?u3 = "fst (send_security_mode_command B (fst (set_security_key B (pack_security_key B (ct_security_key_bits msg))
      (set_security_capabilities (ct_security_capabilities msg) (set_bitrates (ct_bitrates msg) u)))))"
  have "setup_ue_ctxt B k msg r = None \<longleftrightarrow> setup_erab_items B (ct_erabs msg) ?u3 = None"
    using Some by (cases "setup_erab_items B (ct_erabs msg) ?u3")
      (auto simp: setup_ue_ctxt_def setup_erabs_ctxt_def case_prod_beta Let_def)
  then show ?thesis using Some erab_items_none by simp
qed (simp add: setup_ue_ctxt_def)

lemma setup_erabs_none:
  "rrc_user k r \<noteq> None \<Longrightarrow> \<not> erab_ids_ok (reached_erabs (es_erabs msg)) \<Longrightarrow> setup_ue_erabs B P stale lcg k msg r = None"
  using erab_items_none[of B "es_erabs msg"] by (auto simp: setup_ue_erabs_def setup_erabs_def Let_def)



text \<open>C10: Once a release has been requested, the thread removes the user: after at most two rounds for
  each entry of the queue the queue is empty, the user is gone, and the MAC, the GTP-U, the RLC and the
  PDCP have been told to remove it, whatever else the queue held and whatever the S1AP answers.\<close>

theorem released_user_is_removed:
  assumes "rrc_wf B r" "2 * Suc (length (rr_rx_pdu_queue r)) \<le> length es"
  shows "\<exists>r' cs. rrc_thread B P es (release_complete k r) = Some (r', cs) \<and> rr_rx_pdu_queue r' = [] \<and>
    rrc_user k r' = None \<and> (rrc_user k r \<noteq> None \<longrightarrow> set (removal_calls k) \<subseteq> set cs)"
proof -
  let ?r = "release_complete k r"
  have q: "rr_rx_pdu_queue ?r = rr_rx_pdu_queue r @ [(k, LCID_REL_USER, None)]" "rrc_user k ?r = rrc_user k r"
    by (simp_all add: release_complete_def rrc_push_def)
  have p: "removal_pending k ?r" using q(1) by (auto simp: removal_pending_def)
  obtain r' cs where t: "rrc_thread B P es ?r = Some (r', cs)" using thread_total[of B ?r P es] assms(1) by auto
  have "sum_list (map entry_cost xs) \<le> 2 * length xs" for xs by (induction xs) (simp_all add: entry_cost_def)
  from this[of "rr_rx_pdu_queue ?r"] have "queue_cost ?r \<le> length es" using q(1) assms(2) by (simp add: queue_cost_def)
  then have e: "rr_rx_pdu_queue r' = []" using thread_drains[OF t] by simp
  then show ?thesis using t q(2) thread_removes[OF t disjI2[OF p]] by (simp add: removal_pending_def)
qed

section \<open>Witnesses\<close>

lemma demo_rrc_wf: "rrc_wf (demo_rrc_lib 18) demo_rrc"
  by (simp add: rrc_wf_def rrc_cfg_ok_def accounted_def grid_ok_def holders_def rrc_user_def demo_rrc_def demo_rrc_cfg_def
      demo_rrc_lib_def paging_cfg_def cfg_sib2_def demo_sib2_def)

definition demo_ops :: "(int \<times> rrc_op) list" where
  "demo_ops = [(0, Ro_Add_User 70), (1, Ro_Write_Pdu 70 0 (buffer [9])), (2, Ro_Thread (\<lambda>_. False)),
     (3, Ro_Write_Pdu 70 1 (buffer [1])), (4, Ro_Thread (\<lambda>_. True)), (5, Ro_Monitor (\<lambda>_. True))]"

lemma demo_ops_ok: "\<forall>x \<in> set demo_ops. rrc_op_ok (demo_rrc_lib 18) (snd x)"
  by (simp add: demo_ops_def rrc_op_ok_def)



theorem released_user_is_removed_witness:
  "\<exists>r' cs. rrc_thread (demo_rrc_lib 18) demo_pdcp_lib (replicate 2 (\<lambda>_. True, 0)) (release_complete 70 (fst (rrc_add_user demo_mac_lib demo_pdcp_lib 0 70 demo_rrc))) = Some (r', cs) \<and>
     rrc_user 70 r' = None \<and> Rc_Mac_Ue_Rem 70 \<in> set cs"
proof -
  let ?r = "fst (rrc_add_user demo_mac_lib demo_pdcp_lib 0 70 demo_rrc)"
  have "rrc_wf (demo_rrc_lib 18) ?r" using demo_rrc_wf by (rule add_user_wf)
  moreover have "rr_rx_pdu_queue ?r = []" "rrc_user 70 ?r \<noteq> None"
    by (simp_all add: rrc_add_user_def Let_def rrc_user_def put_rrc_user_def om.look_put demo_rrc_def)
  ultimately obtain r' cs where "rrc_thread (demo_rrc_lib 18) demo_pdcp_lib (replicate 2 (\<lambda>_. True, 0)) (release_complete 70 ?r) = Some (r', cs)"
      "rrc_user 70 r' = None" "set (removal_calls 70) \<subseteq> set cs"
    using released_user_is_removed[of "demo_rrc_lib 18" ?r "replicate 2 (\<lambda>_. True, 0)" demo_pdcp_lib 70] by auto
  then show ?thesis by (auto simp: removal_calls_def)
qed

end
