(* ===== verification/Rrc_Tables.thy ===== *)
theory Rrc_Tables
  imports Rrc_Inv
begin

text \<open>
  RRC, RLC and PDCP each keep a table of users. The RRC alone adds and removes users; here its calls
  are run on the models of the other two layers, and all three hold the same users in every reachable
  state. The table of the RLC and of the PDCP are interpretations of \<open>user_table\<close>.
\<close>

section \<open>The calls of the RRC on RLC and PDCP\<close>

definition rlc_exec :: "'e rlc_lib \<Rightarrow> rrc_call \<Rightarrow> 'e rlc \<Rightarrow> 'e rlc" where
  "rlc_exec R c s =
     (case c of
        Rc_Rlc_Add_User k \<Rightarrow> rlc_add_user R k s
      | Rc_Rlc_Rem_User k \<Rightarrow> rlc_rem_user k s
      | Rc_Rlc_Clear_Buffer k \<Rightarrow> fst (rlc_clear_buffer R k s)
      | Rc_Rlc_Add_Bearer k lcid \<Rightarrow> rlc_add_bearer R k lcid s
      | Rc_Rlc_Add_Bearer_Cnfg k lcid cnfg \<Rightarrow> rlc_add_bearer_cnfg R k lcid cnfg s
      | Rc_Rlc_Add_Bearer_Mrb k lcid \<Rightarrow> rlc_add_bearer_mrb R k lcid s
      | _ \<Rightarrow> s)"

definition pdcp_exec :: "'p pdcp_lib \<Rightarrow> mac_lib \<Rightarrow> (u16 \<Rightarrow> u32 \<Rightarrow> bool) \<Rightarrow> rrc_call \<Rightarrow> 'p pdcp \<Rightarrow> 'p pdcp" where
  "pdcp_exec P L um c s =
     (case c of
        Rc_Pdcp_Add_User k \<Rightarrow> pdcp_add_user P k s
      | Rc_Pdcp_Rem_User k \<Rightarrow> pdcp_rem_user k s
      | Rc_Pdcp_Add_Bearer k lcid cfg \<Rightarrow> pdcp_add_bearer P L um k lcid cfg s
      | Rc_Pdcp_Config_Security k lcid ke ki c g \<Rightarrow> pdcp_config_security P k lcid ke ki c g s
      | Rc_Pdcp_Write_Sdu k lcid sdu \<Rightarrow> fst (pdcp_write_sdu P L um k lcid sdu s)
      | _ \<Rightarrow> s)"

lemma pdcp_users_on [simp]: "pdcp_users (on_pdcp k f s) = pdcp_users s"
  by (auto simp: pdcp_users_def on_pdcp_def om.look_put split: option.splits)

lemma pdcp_users_write_sdu: "pdcp_users (fst (pdcp_write_sdu P L um k lcid sdu s)) = pdcp_users s"
  by (auto simp: pdcp_users_def pdcp_write_sdu_def om.look_put Let_def split: option.splits prod.splits)

text \<open>Only the table operations among the calls change the users of a table.\<close>

lemma rlc_exec_users: "rlc_users (rlc_exec R c s) = rlc_users (rlc_tbl.run_ops R (rlc_op c) s)"
proof -
  have "rlc_users (fst (rlc_clear_buffer R k s)) = rlc_users s" for k
    by (simp add: rlc_clear_buffer_def split: option.split)
  then show ?thesis
    by (cases c) (simp_all add: rlc_exec_def rlc_tbl.run_ops_def rlc_tbl.run_op_def rlc_add_bearer_def
        rlc_add_bearer_cnfg_def rlc_add_bearer_mrb_def)
qed

lemma pdcp_exec_users: "pdcp_users (pdcp_exec P L um c s) = pdcp_users (pdcp_tbl.run_ops P (pdcp_op c) s)"
  by (cases c) (simp_all add: pdcp_exec_def pdcp_tbl.run_ops_def pdcp_tbl.run_op_def pdcp_add_bearer_def
      pdcp_config_security_def pdcp_users_write_sdu)

text \<open>A set of users under table operations.\<close>

definition set_op :: "table_op \<Rightarrow> u16 set \<Rightarrow> u16 set" where
  "set_op op A = (case op of Add_User k \<Rightarrow> insert k A | Rem_User k \<Rightarrow> A - {k})"

lemma set_op_fun: "(\<lambda>op A. case op of Add_User k \<Rightarrow> insert k A | Rem_User k \<Rightarrow> A - {k}) = set_op"
  by (simp add: set_op_def fun_eq_iff)

lemma rlc_exec_all: "rlc_users (fold (rlc_exec R) cs s) = fold set_op (rlc_ops cs) (rlc_users s)"
proof (induction cs arbitrary: s)
  case (Cons c cs)
  have "rlc_users (rlc_exec R c s) = fold set_op (rlc_op c) (rlc_users s)"
    by (simp add: rlc_exec_users rlc_tbl.users_run_ops set_op_fun)
  then show ?case using Cons by simp
qed simp

lemma pdcp_exec_all: "pdcp_users (fold (pdcp_exec P L um) cs s) = fold set_op (pdcp_ops cs) (pdcp_users s)"
proof (induction cs arbitrary: s)
  case (Cons c cs)
  have "pdcp_users (pdcp_exec P L um c s) = fold set_op (pdcp_op c) (pdcp_users s)"
    by (simp add: pdcp_exec_users pdcp_tbl.users_run_ops set_op_fun)
  then show ?case using Cons by simp
qed simp

section \<open>The users of the RRC follow its calls\<close>

definition rrc_users :: "rrc \<Rightarrow> u16 set" where
  "rrc_users r = {k. rrc_user k r \<noteq> None}"

definition follows :: "rrc \<Rightarrow> rrc \<Rightarrow> rrc_call list \<Rightarrow> bool" where
  "follows r r' cs \<longleftrightarrow> pdcp_ops cs = rlc_ops cs \<and> rrc_users r' = fold set_op (rlc_ops cs) (rrc_users r)"

lemma follows_silent:
  assumes "silent cs" "\<And>k. rrc_user k r' = None \<longleftrightarrow> rrc_user k r = None"
  shows "follows r r' cs"
  using assms silent_ops by (simp add: follows_def rrc_users_def)

lemma follows_trans:
  assumes "follows r r1 cs" "follows r1 r2 ds"
  shows "follows r r2 (cs @ ds)"
  using assms by (simp add: follows_def)

lemma follows_put:
  assumes "silent cs" "rrc_user k r \<noteq> None"
  shows "follows r (put_rrc_user k u r) cs"
  using assms by (intro follows_silent) auto

lemma follows_handled:
  assumes "handled p r r' cs"
  shows "follows r r' cs"
proof (cases "fst (snd p) = LCID_REM_USER \<and> rrc_user (fst p) r \<noteq> None")
  case True
  then have "cs = removal_calls (fst p)" "\<And>k. rrc_user k r' = None \<longleftrightarrow> rrc_user k r = None \<or> k = fst p"
    using assms by (auto simp: handled_def)
  then show ?thesis by (auto simp: follows_def rrc_users_def removal_calls_def set_op_def)
next
  case False
  then have "silent cs" "\<And>k. rrc_user k r' = None \<longleftrightarrow> rrc_user k r = None"
    using assms by (auto simp: handled_def split: if_splits)
  then show ?thesis by (rule follows_silent)
qed

lemma follows_add: "follows r (fst (rrc_add_user L P now k r)) (snd (rrc_add_user L P now k r))"
proof (cases "rrc_user k r")
  case None
  have m: "pdcp_ops (if b then mbms_bearers L P m else []) = []" "rlc_ops (if b then mbms_bearers L P m else []) = []" for b m
    using silent_ops[OF silent_mbms[of L P m]] by simp_all
  show ?thesis using None by (auto simp: follows_def rrc_add_user_def m set_op_def rrc_users_def)
next
  case (Some u)
  then show ?thesis by (intro follows_silent) (simp_all add: rrc_add_user_def silent_mbms)
qed

lemma scan_users: "act_scan L now ks r = (rem, r', cs) \<Longrightarrow> rrc_user k r' = None \<longleftrightarrow> rrc_user k r = None"
proof (induction ks arbitrary: r cs)
  case (Cons j ks)
  show ?case
  proof (cases "rrc_user j r")
    case (Some u)
    then show ?thesis
      using Cons.IH[of r] Cons.IH[of "put_rrc_user j _ r"] Cons.prems
      by (auto simp: case_prod_beta Let_def prod_eq_iff split: if_splits)
  qed (use Cons in simp)
qed simp

lemma follows_monitor: "follows r (fst (act_monitor_step B L ex now r)) (snd (act_monitor_step B L ex now r))"
proof (intro follows_silent silent_monitor)
  fix k
  obtain rem r' cs where s: "act_scan L now (map fst (rr_users r)) r = (rem, r', cs)" by (metis surj_pair)
  show "rrc_user k (fst (act_monitor_step B L ex now r)) = None \<longleftrightarrow> rrc_user k r = None"
    using scan_users[OF s] s by (simp add: act_monitor_step_def)
qed

lemma user_push [simp]: "rrc_user k (rrc_push j l p r) = rrc_user k r"
  by (simp add: rrc_push_def)

lemma op_follows:
  assumes "rrc_run_op B L P now op r = Some (r', cs)"
  shows "follows r r' cs"
proof (cases op)
  case (Ro_Add_User k)
  then show ?thesis using assms follows_add[of r L P now k] by (simp add: rrc_run_op_def)
next
  case (Ro_Upd_User k old)
  have u: "(rrc_user j (fst (upd_user B k old r)) = None) = (rrc_user j r = None)" for j
    by (simp add: upd_user_def case_prod_beta Let_def split: option.split)
  have "follows r (fst (upd_user B k old r)) (snd (upd_user B k old r))" by (intro follows_silent silent_upd_user u)
  then show ?thesis using assms Ro_Upd_User by (simp add: rrc_run_op_def)
next
  case (Ro_Dl_Info k sdu)
  then have "r' = r" "cs = write_dl_info B k sdu r" using assms by (auto simp: rrc_run_op_def)
  then show ?thesis by (simp add: follows_silent silent_dl_info)
next
  case (Ro_Setup_Ctxt k msg)
  then obtain b where s: "setup_ue_ctxt B k msg r = Some (b, r', cs)" using assms by (auto simp: rrc_run_op_def)
  have "rrc_user j r' = None \<longleftrightarrow> rrc_user j r = None" for j
    using s by (auto simp: setup_ue_ctxt_def case_prod_beta Let_def bind_eq_Some_conv split: option.splits if_splits)
  then show ?thesis by (rule follows_silent[OF silent_ctxt[OF s]])
next
  case (Ro_Setup_Erabs k stale lcg msg)
  then obtain b where s: "setup_ue_erabs B P stale lcg k msg r = Some (b, r', cs)" using assms by (auto simp: rrc_run_op_def)
  have "rrc_user j r' = None \<longleftrightarrow> rrc_user j r = None" for j
    using s by (auto simp: setup_ue_erabs_def Let_def bind_eq_Some_conv split: option.splits if_splits)
  then show ?thesis by (rule follows_silent[OF silent_ue_erabs[OF s]])
next
  case (Ro_Paging_Tti tti)
  then obtain x where "is_paging_opportunity B tti r = Some (x, r')" "cs = []" using assms by (auto simp: rrc_run_op_def)
  moreover have "rrc_user j r' = rrc_user j r" if "is_paging_opportunity B tti r = Some (x, r')" for j
    using that by (auto simp: is_paging_opportunity_def case_prod_beta Let_def bind_eq_Some_conv split: if_splits)
  ultimately show ?thesis by (intro follows_silent) simp_all
next
  case (Ro_Thread ex)
  then have s: "rrc_run_step B P ex now r = Some (r', cs)" using assms by (simp add: rrc_run_op_def)
  show ?thesis
  proof (cases "rr_rx_pdu_queue r")
    case Nil
    then show ?thesis using s step_empty[OF Nil, of B P ex now] by (simp add: follows_silent)
  next
    case (Cons p q)
    then have "follows (r\<lparr>rr_rx_pdu_queue := q\<rparr>) r' cs" using s handle_handled by (intro follows_handled[of p]) (simp add: rrc_run_step_def)
    then show ?thesis by (simp add: follows_def rrc_users_def)
  qed
next
  case (Ro_Monitor ex)
  then show ?thesis using assms follows_monitor[of r B L ex now] by (simp add: rrc_run_op_def)
next
  case (Ro_Release_Erabs k)
  have "(rrc_user j (snd (rrc_release_erabs k r)) = None) = (rrc_user j r = None)" for j
    by (simp add: rrc_release_erabs_def case_prod_beta Let_def split: option.split)
  then show ?thesis using assms Ro_Release_Erabs by (auto simp: rrc_run_op_def intro: follows_silent)
qed (use assms in \<open>auto simp: rrc_run_op_def rrc_rl_failure_def set_activity_user_def release_complete_def
    rrc_write_pdu_def add_paging_id_def intro!: follows_silent split: if_splits\<close>)

lemma ops_follow: "rrc_run_ops B L P ops r = Some (r', cs) \<Longrightarrow> follows r r' cs"
proof (induction ops arbitrary: r cs)
  case Nil
  then show ?case by (simp add: follows_silent)
next
  case (Cons x ops)
  obtain now op where x: "x = (now, op)" by (metis surj_pair)
  obtain r1 cs1 cs2 where "rrc_run_op B L P now op r = Some (r1, cs1)" "rrc_run_ops B L P ops r1 = Some (r', cs2)" "cs = cs1 @ cs2"
    using Cons.prems x by (auto simp: bind_eq_Some_conv)
  then show ?case using op_follows Cons.IH follows_trans by blast
qed

section \<open>Property\<close>

text \<open>C11: RRC, RLC and PDCP hold the same users after every sequence of operations of the RRC whose calls are
  run on the other two: a user the MAC announced is known to all three layers or, once removed, to none.\<close>

theorem upper_users_agree:
  assumes "rrc_wf B r" "\<forall>x \<in> set ops. rrc_op_ok B (snd x)"
    "rlc_users s = rrc_users r" "pdcp_users p = rrc_users r"
  shows "\<exists>r' cs. rrc_run_ops B L P ops r = Some (r', cs) \<and>
    rlc_users (fold (rlc_exec R) cs s) = rrc_users r' \<and> pdcp_users (fold (pdcp_exec P L um) cs p) = rrc_users r'"
proof -
  obtain r' cs where r: "rrc_run_ops B L P ops r = Some (r', cs)" using ops_wf[OF assms(1,2)] by blast
  then have "follows r r' cs" by (rule ops_follow)
  then show ?thesis using r assms(3,4) rlc_exec_all pdcp_exec_all by (metis follows_def)
qed

theorem upper_users_agree_witness:
  "\<exists>r' cs. rrc_run_ops (demo_rrc_lib 18) demo_mac_lib demo_pdcp_lib demo_ops demo_rrc = Some (r', cs) \<and>
     rlc_users (fold (rlc_exec demo_rlc_lib) cs []) = rrc_users r' \<and>
     pdcp_users (fold (pdcp_exec demo_pdcp_lib demo_mac_lib (\<lambda>_ _. False)) cs []) = rrc_users r'"
proof (rule upper_users_agree[OF demo_rrc_wf demo_ops_ok])
  show "rlc_users [] = rrc_users demo_rrc" "pdcp_users [] = rrc_users demo_rrc"
    by (simp_all add: rlc_users_def pdcp_users_def rrc_users_def rrc_user_def demo_rrc_def)
qed

end
