(* ===== verification/S1ap.thy ===== *)
theory S1ap
  imports Rrc_Types
begin

text \<open>
  The S1AP layer (\<open>upper/s1ap.h\<close>, \<open>upper/s1ap.cc\<close>): the user contexts on the interface to the MME. Its
  codec is the library's: a received PDU is the decoded message, a sent one the message before it is
  packed. Results of system calls are arguments, the waits between attempts to connect are left out,
  and so is the text of the cause of a failure, which is only logged. A buffer is there when it is
  asked for.
\<close>

section \<open>Messages\<close>

record s1ap_args =
  ag_enb_id :: u32
  ag_cell_id :: u8
  ag_tac :: u16
  ag_mcc :: u16
  ag_mnc :: u16
  ag_gtp_bind_addr :: "u8 list"
  ag_enb_name :: string

record s1ap_tai =
  ti_pLMNidentity :: "u8 list"
  ti_tAC :: "u8 list"

record s1ap_cgi =
  cg_pLMNidentity :: "u8 list"
  cg_cell_ID :: "u8 list"

text \<open>
  The messages to the MME. The bearers of a setup response are given with the address GTP-U is bound
  to, as the layer fills it in.
\<close>

datatype s1ap_msg =
    S1_Setup_Request "u8 list" "u8 list" string "u8 list"
  | Initial_Ue_Message u32 "u8 list" nat "(u8 list \<times> u8) option" s1ap_tai s1ap_cgi
  | Uplink_Nas_Transport u32 u32 "u8 list" s1ap_tai s1ap_cgi
  | Ue_Context_Release_Request u32 u32 nat
  | Ue_Context_Release_Complete u32 u32
  | Initial_Context_Setup_Response u32 u32 "(u8 \<times> u8 list \<times> u8 list) list"
  | Initial_Context_Setup_Failure u32 u32
  | E_Rab_Setup_Response u32 u32 "(u8 \<times> u8 list \<times> u8 list) list"

text \<open>The messages of the MME.\<close>

datatype ue_s1ap_ids = Id_Pair u32 u32 | Id_Mme u32

datatype initiating_msg =
    Downlink_Nas_Transport u32 u32 "u8 list"
  | Initial_Context_Setup_Request u32 u32 ctxt_setup_req
  | Ue_Context_Release_Command ue_s1ap_ids
  | Paging "u8 list" paging_id
  | E_Rab_Setup_Request u32 u32 erab_setup_req
  | Initiating_Other

datatype s1ap_rx_pdu =
    Initiating_Message initiating_msg
  | Successful_Outcome "blob option"
  | Unsuccessful_Outcome
  | Pdu_Other

text \<open>\<open>Successful_Outcome\<close> has the response to the setup, or none for another message.\<close>

record s1ap_lib =
  mccmnc_to_plmn :: "u16 \<Rightarrow> u16 \<Rightarrow> u32"
  liblte_unpack :: "u8 list \<Rightarrow> u8 list"
  MACROENB_ID_BIT_STRING_LEN :: nat
  unpack_s1ap_pdu :: "byte_buffer \<Rightarrow> s1ap_rx_pdu option"
  bit_pack :: "u8 list \<Rightarrow> nat \<Rightarrow> u32"
  s1ap_uint32_to_uint8 :: "u32 \<Rightarrow> u8 list"

section \<open>State\<close>

record ue_ctxt =
  xt_rnti :: u32
  xt_eNB_UE_S1AP_ID :: u32
  xt_MME_UE_S1AP_ID :: u32
  xt_release_requested :: bool
  xt_stream_id :: u16

record s1ap =
  sx_args :: s1ap_args
  sx_mme_connected :: bool
  sx_running :: bool
  sx_socket_fd :: int
  sx_next_eNB_UE_S1AP_ID :: u32
  sx_next_ue_stream_id :: u16
  sx_tai :: s1ap_tai
  sx_eutran_cgi :: s1ap_cgi
  sx_s1setupresponse :: blob
  sx_ue_ctxt_map :: "(u16, ue_ctxt) omap"
  sx_enbid_to_rnti_map :: "(u32, u16) omap"

datatype s1ap_call =
    Sctp_Send u16 s1ap_msg
  | Sx_Rrc_Write_Dl_Info u16 byte_buffer
  | Sx_Rrc_Setup_Ue_Ctxt u16 ctxt_setup_req
  | Sx_Rrc_Setup_Ue_Erabs u16 erab_setup_req
  | Sx_Rrc_Release_Erabs u16
  | Sx_Rrc_Release_Complete u16
  | Sx_Rrc_Add_Paging_Id u32 paging_id

definition NONUE_STREAM_ID :: u16 where
  "NONUE_STREAM_ID = 0"

text \<open>\<open>ue_ctxt_map[rnti]\<close> adds a zero entry where the map has none.\<close>

definition ue_ctxt_zero :: ue_ctxt where
  "ue_ctxt_zero = \<lparr>xt_rnti = 0, xt_eNB_UE_S1AP_ID = 0, xt_MME_UE_S1AP_ID = 0, xt_release_requested = False,
     xt_stream_id = 0\<rparr>"

definition ue_ctxt_at :: "u16 \<Rightarrow> s1ap \<Rightarrow> ue_ctxt" where
  "ue_ctxt_at rnti s = (case omap_get (sx_ue_ctxt_map s) rnti of None \<Rightarrow> ue_ctxt_zero | Some c \<Rightarrow> c)"

definition put_ctxt :: "u16 \<Rightarrow> ue_ctxt \<Rightarrow> s1ap \<Rightarrow> s1ap" where
  "put_ctxt rnti c s = s\<lparr>sx_ue_ctxt_map := omap_set rnti c (sx_ue_ctxt_map s)\<rparr>"

definition touch_ctxt :: "u16 \<Rightarrow> s1ap \<Rightarrow> s1ap" where
  "touch_ctxt rnti s = put_ctxt rnti (ue_ctxt_at rnti s) s"

definition user_exists :: "u16 \<Rightarrow> s1ap \<Rightarrow> bool" where
  "user_exists rnti s \<longleftrightarrow> omap_get (sx_ue_ctxt_map s) rnti \<noteq> None"

section \<open>Start, stop and the connection\<close>

text \<open>The bytes of a number in network order.\<close>

definition be_bytes :: "u32 \<Rightarrow> u8 list" where
  "be_bytes w = [ucast (drop_bit 24 w), ucast (drop_bit 16 w), ucast (drop_bit 8 w), ucast w]"

definition be_bytes16 :: "u16 \<Rightarrow> u8 list" where
  "be_bytes16 w = [ucast (drop_bit 8 w), ucast w]"

definition plmn_bytes :: "s1ap_lib \<Rightarrow> s1ap_args \<Rightarrow> u8 list" where
  "plmn_bytes X a = drop 1 (be_bytes (mccmnc_to_plmn X (ag_mcc a) (ag_mnc a)))"

text \<open>The last bits of the identity of the base station.\<close>

definition enb_id_bits :: "s1ap_lib \<Rightarrow> s1ap_args \<Rightarrow> u8 list" where
  "enb_id_bits X a =
     take (MACROENB_ID_BIT_STRING_LEN X)
       (drop (32 - MACROENB_ID_BIT_STRING_LEN X) (liblte_unpack X (be_bytes (ag_enb_id a))))"

definition build_tai_cgi :: "s1ap_lib \<Rightarrow> s1ap \<Rightarrow> s1ap" where
  "build_tai_cgi X s =
     (let a = sx_args s in
      s\<lparr>sx_tai := \<lparr>ti_pLMNidentity = plmn_bytes X a, ti_tAC = be_bytes16 (ag_tac a)\<rparr>,
        sx_eutran_cgi := \<lparr>cg_pLMNidentity = plmn_bytes X a,
          cg_cell_ID = enb_id_bits X a @ take 8 (liblte_unpack X [ag_cell_id a])\<rparr>\<rparr>)"

definition s1ap_init :: "s1ap_lib \<Rightarrow> s1ap_args \<Rightarrow> s1ap \<Rightarrow> bool \<times> s1ap" where
  "s1ap_init X a s = (True, build_tai_cgi X (s\<lparr>sx_args := a, sx_mme_connected := False, sx_running := False,
     sx_next_eNB_UE_S1AP_ID := 1, sx_next_ue_stream_id := 1\<rparr>))"

definition s1ap_stop :: "s1ap \<Rightarrow> s1ap" where
  "s1ap_stop s = (if sx_running s then s\<lparr>sx_running := False\<rparr> else s)"

datatype s1ap_status = S1AP_ATTACHING | S1AP_READY | S1AP_ERROR

definition s1ap_get_metrics :: "s1ap \<Rightarrow> s1ap_status" where
  "s1ap_get_metrics s =
     (if \<not> sx_running s then S1AP_ERROR else if sx_mme_connected s then S1AP_READY else S1AP_ATTACHING)"

definition connect_mme :: "int \<Rightarrow> bool \<Rightarrow> bool \<Rightarrow> bool \<Rightarrow> s1ap \<Rightarrow> bool \<times> s1ap" where
  "connect_mme sd bind_addr_ok mme_addr_ok conn_ok s =
     (let s = s\<lparr>sx_socket_fd := sd\<rparr> in
      if sd = -1 then (False, s)
      else if \<not> bind_addr_ok then (False, s)
      else if \<not> mme_addr_ok then (False, s)
      else (conn_ok, s))"

text \<open>A name of 150 or more characters is cut, in the configuration as well.\<close>

definition setup_s1 :: "s1ap_lib \<Rightarrow> bool \<Rightarrow> s1ap \<Rightarrow> bool \<times> s1ap \<times> s1ap_call list" where
  "setup_s1 X sent s =
     (let a = sx_args s;
          a = (if 150 \<le> length (ag_enb_name a) then a\<lparr>ag_enb_name := take 149 (ag_enb_name a)\<rparr> else a)
      in (sent, s\<lparr>sx_args := a\<rparr>,
          [Sctp_Send NONUE_STREAM_ID (S1_Setup_Request (plmn_bytes X a) (enb_id_bits X a) (ag_enb_name a)
             (be_bytes16 (ag_tac a)))]))"

section \<open>Messages to the MME\<close>

text \<open>Nothing is sent while the MME is not connected; \<open>sent\<close> is the success of \<open>sctp_sendmsg\<close>.\<close>

definition send_initialuemessage ::
  "s1ap_lib \<Rightarrow> bool \<Rightarrow> u16 \<Rightarrow> nat \<Rightarrow> byte_buffer \<Rightarrow> (u32 \<times> u8) option \<Rightarrow> s1ap \<Rightarrow> bool \<times> s1ap \<times> s1ap_call list" where
  "send_initialuemessage X sent rnti cause pdu tmsi s =
     (if \<not> sx_mme_connected s then (False, s, [])
      else
        let c = ue_ctxt_at rnti s;
            s_tmsi = map_option (\<lambda>(m_tmsi, mmec). (s1ap_uint32_to_uint8 X m_tmsi, mmec)) tmsi
        in (sent, touch_ctxt rnti s,
            [Sctp_Send (xt_stream_id c) (Initial_Ue_Message (xt_eNB_UE_S1AP_ID c)
               (take (unat (bb_n_bytes pdu)) (bb_msg pdu)) cause s_tmsi (sx_tai s) (sx_eutran_cgi s))]))"

definition send_ulnastransport :: "bool \<Rightarrow> u16 \<Rightarrow> byte_buffer \<Rightarrow> s1ap \<Rightarrow> bool \<times> s1ap \<times> s1ap_call list" where
  "send_ulnastransport sent rnti pdu s =
     (if \<not> sx_mme_connected s then (False, s, [])
      else
        let c = ue_ctxt_at rnti s
        in (sent, touch_ctxt rnti s,
            [Sctp_Send (xt_stream_id c) (Uplink_Nas_Transport (xt_MME_UE_S1AP_ID c) (xt_eNB_UE_S1AP_ID c)
               (take (unat (bb_n_bytes pdu)) (bb_msg pdu)) (sx_tai s) (sx_eutran_cgi s))]))"

definition send_uectxtreleaserequest :: "bool \<Rightarrow> u16 \<Rightarrow> nat \<Rightarrow> s1ap \<Rightarrow> bool \<times> s1ap \<times> s1ap_call list" where
  "send_uectxtreleaserequest sent rnti cause s =
     (if \<not> sx_mme_connected s then (False, s, [])
      else
        let c = ue_ctxt_at rnti s
        in (sent, touch_ctxt rnti s,
            [Sctp_Send (xt_stream_id c) (Ue_Context_Release_Request (xt_MME_UE_S1AP_ID c) (xt_eNB_UE_S1AP_ID c) cause)]))"

definition send_uectxtreleasecomplete :: "bool \<Rightarrow> u16 \<Rightarrow> u32 \<Rightarrow> u32 \<Rightarrow> s1ap \<Rightarrow> bool \<times> s1ap \<times> s1ap_call list" where
  "send_uectxtreleasecomplete sent rnti mme_ue_id enb_ue_id s =
     (if \<not> sx_mme_connected s then (False, s, [])
      else (sent, touch_ctxt rnti s,
            [Sctp_Send (xt_stream_id (ue_ctxt_at rnti s)) (Ue_Context_Release_Complete mme_ue_id enb_ue_id)]))"

text \<open>The address of GTP-U goes into every bearer of a response.\<close>

definition with_bind_addr :: "s1ap_lib \<Rightarrow> s1ap \<Rightarrow> (u8 \<times> u8 list) list \<Rightarrow> (u8 \<times> u8 list \<times> u8 list) list" where
  "with_bind_addr X s res = map (\<lambda>(i, teid). (i, teid, liblte_unpack X (ag_gtp_bind_addr (sx_args s)))) res"

definition send_initial_ctxt_setup_response ::
  "s1ap_lib \<Rightarrow> bool \<Rightarrow> u16 \<Rightarrow> (u8 \<times> u8 list) list \<Rightarrow> s1ap \<Rightarrow> bool \<times> s1ap \<times> s1ap_call list" where
  "send_initial_ctxt_setup_response X sent rnti res s =
     (if \<not> sx_mme_connected s then (False, s, [])
      else
        let c = ue_ctxt_at rnti s
        in (sent, touch_ctxt rnti s,
            [Sctp_Send (xt_stream_id c) (Initial_Context_Setup_Response (xt_MME_UE_S1AP_ID c) (xt_eNB_UE_S1AP_ID c)
               (with_bind_addr X s res))]))"

definition send_erab_setup_response ::
  "s1ap_lib \<Rightarrow> bool \<Rightarrow> u16 \<Rightarrow> (u8 \<times> u8 list) list \<Rightarrow> s1ap \<Rightarrow> bool \<times> s1ap \<times> s1ap_call list" where
  "send_erab_setup_response X sent rnti res s =
     (if \<not> sx_mme_connected s then (False, s, [])
      else
        let c = ue_ctxt_at rnti s
        in (sent, touch_ctxt rnti s,
            [Sctp_Send (xt_stream_id c) (E_Rab_Setup_Response (xt_MME_UE_S1AP_ID c) (xt_eNB_UE_S1AP_ID c)
               (with_bind_addr X s res))]))"

definition send_initial_ctxt_setup_failure :: "bool \<Rightarrow> u16 \<Rightarrow> s1ap \<Rightarrow> bool \<times> s1ap \<times> s1ap_call list" where
  "send_initial_ctxt_setup_failure sent rnti s =
     (if \<not> sx_mme_connected s then (False, s, [])
      else
        let c = ue_ctxt_at rnti s
        in (sent, touch_ctxt rnti s,
            [Sctp_Send (xt_stream_id c) (Initial_Context_Setup_Failure (xt_MME_UE_S1AP_ID c) (xt_eNB_UE_S1AP_ID c))]))"

section \<open>Calls of the RRC\<close>

text \<open>The member \<open>rnti\<close> of the new context is not set.\<close>

definition initial_ue ::
  "s1ap_lib \<Rightarrow> bool \<Rightarrow> u16 \<Rightarrow> nat \<Rightarrow> byte_buffer \<Rightarrow> (u32 \<times> u8) option \<Rightarrow> s1ap \<Rightarrow> s1ap \<times> s1ap_call list" where
  "initial_ue X sent rnti cause pdu tmsi s =
     (let i = sx_next_eNB_UE_S1AP_ID s;
          s = put_ctxt rnti ((ue_ctxt_at rnti s)\<lparr>xt_eNB_UE_S1AP_ID := i, xt_stream_id := 1, xt_release_requested := False\<rparr>)
                (s\<lparr>sx_next_eNB_UE_S1AP_ID := i + 1\<rparr>);
          s = s\<lparr>sx_enbid_to_rnti_map := omap_set i rnti (sx_enbid_to_rnti_map s)\<rparr>
      in snd (send_initialuemessage X sent rnti cause pdu tmsi s))"

definition s1ap_write_pdu :: "bool \<Rightarrow> u16 \<Rightarrow> byte_buffer \<Rightarrow> s1ap \<Rightarrow> s1ap \<times> s1ap_call list" where
  "s1ap_write_pdu sent rnti pdu s =
     (if user_exists rnti s then snd (send_ulnastransport sent rnti pdu s) else (s, []))"

text \<open>
  A second request for a user the MME has not released drops its context, but not the way from its
  identity to the RNTI.
\<close>

definition user_release :: "bool \<Rightarrow> u16 \<Rightarrow> nat \<Rightarrow> s1ap \<Rightarrow> bool \<times> s1ap \<times> s1ap_call list" where
  "user_release sent rnti cause s =
     (if \<not> user_exists rnti s then (False, s, [])
      else
        let c = ue_ctxt_at rnti s in
        if xt_release_requested c
        then (False, s\<lparr>sx_ue_ctxt_map := omap_del rnti (sx_ue_ctxt_map s)\<rparr>, [Sx_Rrc_Release_Complete rnti])
        else send_uectxtreleaserequest sent rnti cause (put_ctxt rnti (c\<lparr>xt_release_requested := True\<rparr>) s))"

definition ue_ctxt_setup_complete ::
  "s1ap_lib \<Rightarrow> bool \<Rightarrow> u16 \<Rightarrow> (u8 \<times> u8 list) list \<Rightarrow> s1ap \<Rightarrow> s1ap \<times> s1ap_call list" where
  "ue_ctxt_setup_complete X sent rnti res s =
     snd (if res \<noteq> [] then send_initial_ctxt_setup_response X sent rnti res s
          else send_initial_ctxt_setup_failure sent rnti s)"

definition ue_erab_setup_complete ::
  "s1ap_lib \<Rightarrow> bool \<Rightarrow> u16 \<Rightarrow> (u8 \<times> u8 list) list \<Rightarrow> s1ap \<Rightarrow> s1ap \<times> s1ap_call list" where
  "ue_erab_setup_complete X sent rnti res s = snd (send_erab_setup_response X sent rnti res s)"

section \<open>Messages of the MME\<close>

definition handle_s1setupresponse :: "blob \<Rightarrow> s1ap \<Rightarrow> bool \<times> s1ap" where
  "handle_s1setupresponse res s = (True, s\<lparr>sx_s1setupresponse := res, sx_mme_connected := True\<rparr>)"

definition handle_dlnastransport :: "u32 \<Rightarrow> u32 \<Rightarrow> u8 list \<Rightarrow> s1ap \<Rightarrow> bool \<times> s1ap \<times> s1ap_call list" where
  "handle_dlnastransport mme_id enb_id nas s =
     (case omap_get (sx_enbid_to_rnti_map s) enb_id of
        None \<Rightarrow> (False, s, [])
      | Some rnti \<Rightarrow>
          (True, put_ctxt rnti ((ue_ctxt_at rnti s)\<lparr>xt_MME_UE_S1AP_ID := mme_id\<rparr>) s,
           [Sx_Rrc_Write_Dl_Info rnti (buffer nas)]))"

text \<open>The identity of the MME is taken over when it changed; \<open>rrc_ok\<close> is the answer of the RRC.\<close>

definition take_mme_id :: "u16 \<Rightarrow> u32 \<Rightarrow> s1ap \<Rightarrow> s1ap" where
  "take_mme_id rnti mme_id s =
     (let c = ue_ctxt_at rnti s in
      put_ctxt rnti (if mme_id \<noteq> xt_MME_UE_S1AP_ID c then c\<lparr>xt_MME_UE_S1AP_ID := mme_id\<rparr> else c) s)"

definition handle_initialctxtsetuprequest ::
  "bool \<Rightarrow> u32 \<Rightarrow> u32 \<Rightarrow> ctxt_setup_req \<Rightarrow> s1ap \<Rightarrow> bool \<times> s1ap \<times> s1ap_call list" where
  "handle_initialctxtsetuprequest rrc_ok mme_id enb_id msg s =
     (case omap_get (sx_enbid_to_rnti_map s) enb_id of
        None \<Rightarrow> (False, s, [])
      | Some rnti \<Rightarrow> (rrc_ok, take_mme_id rnti mme_id s, [Sx_Rrc_Setup_Ue_Ctxt rnti msg]))"

definition handle_paging :: "s1ap_lib \<Rightarrow> u8 list \<Rightarrow> paging_id \<Rightarrow> bool \<times> s1ap_call list" where
  "handle_paging X index_value paging_id = (True, [Sx_Rrc_Add_Paging_Id (bit_pack X index_value 10) paging_id])"

definition handle_erabsetuprequest ::
  "bool \<Rightarrow> u32 \<Rightarrow> u32 \<Rightarrow> erab_setup_req \<Rightarrow> s1ap \<Rightarrow> bool \<times> s1ap \<times> s1ap_call list" where
  "handle_erabsetuprequest rrc_ok mme_id enb_id msg s =
     (case omap_get (sx_enbid_to_rnti_map s) enb_id of
        None \<Rightarrow> (False, s, [])
      | Some rnti \<Rightarrow> (rrc_ok, take_mme_id rnti mme_id s, [Sx_Rrc_Setup_Ue_Erabs rnti msg]))"

text \<open>The first context with the identity, in the order of the RNTIs: its member \<open>rnti\<close>, not its key.\<close>

fun find_mme_ue_id :: "u32 \<Rightarrow> (u16 \<times> ue_ctxt) list \<Rightarrow> (u16 \<times> u32) option" where
  "find_mme_ue_id mme_ue_id [] = None"
| "find_mme_ue_id mme_ue_id ((k, c) # m) =
     (if xt_MME_UE_S1AP_ID c = mme_ue_id then Some (ucast (xt_rnti c), xt_eNB_UE_S1AP_ID c)
      else find_mme_ue_id mme_ue_id m)"

definition release_target :: "ue_s1ap_ids \<Rightarrow> s1ap \<Rightarrow> (u16 \<times> u32) option" where
  "release_target ids s =
     (case ids of
        Id_Pair mme_id enb_id \<Rightarrow> map_option (\<lambda>rnti. (rnti, enb_id)) (omap_get (sx_enbid_to_rnti_map s) enb_id)
      | Id_Mme mme_id \<Rightarrow> find_mme_ue_id mme_id (sx_ue_ctxt_map s))"

definition handle_uectxtreleasecommand :: "bool \<Rightarrow> ue_s1ap_ids \<Rightarrow> s1ap \<Rightarrow> bool \<times> s1ap \<times> s1ap_call list" where
  "handle_uectxtreleasecommand sent ids s =
     (case release_target ids s of
        None \<Rightarrow> (False, s, [])
      | Some (rnti, enb_id) \<Rightarrow>
          let s = s\<lparr>sx_enbid_to_rnti_map := omap_del enb_id (sx_enbid_to_rnti_map s)\<rparr> in
          if \<not> user_exists rnti s then (False, s, [])
          else
            let c = ue_ctxt_at rnti s;
                (_, s, cs) = send_uectxtreleasecomplete sent rnti (xt_MME_UE_S1AP_ID c) (xt_eNB_UE_S1AP_ID c) s
            in (True, s\<lparr>sx_ue_ctxt_map := omap_del rnti (sx_ue_ctxt_map s)\<rparr>,
                Sx_Rrc_Release_Erabs rnti # cs @ [Sx_Rrc_Release_Complete rnti]))"

definition handle_initiatingmessage ::
  "s1ap_lib \<Rightarrow> bool \<Rightarrow> bool \<Rightarrow> initiating_msg \<Rightarrow> s1ap \<Rightarrow> bool \<times> s1ap \<times> s1ap_call list" where
  "handle_initiatingmessage X sent rrc_ok msg s =
     (case msg of
        Downlink_Nas_Transport mme_id enb_id nas \<Rightarrow> handle_dlnastransport mme_id enb_id nas s
      | Initial_Context_Setup_Request mme_id enb_id req \<Rightarrow> handle_initialctxtsetuprequest rrc_ok mme_id enb_id req s
      | Ue_Context_Release_Command ids \<Rightarrow> handle_uectxtreleasecommand sent ids s
      | Paging index_value paging_id \<Rightarrow> let (ret, cs) = handle_paging X index_value paging_id in (ret, s, cs)
      | E_Rab_Setup_Request mme_id enb_id req \<Rightarrow> handle_erabsetuprequest rrc_ok mme_id enb_id req s
      | Initiating_Other \<Rightarrow> (True, s, []))"

definition handle_successfuloutcome :: "blob option \<Rightarrow> s1ap \<Rightarrow> bool \<times> s1ap" where
  "handle_successfuloutcome msg s =
     (case msg of Some res \<Rightarrow> handle_s1setupresponse res s | None \<Rightarrow> (True, s))"

definition handle_s1ap_rx_pdu ::
  "s1ap_lib \<Rightarrow> bool \<Rightarrow> bool \<Rightarrow> byte_buffer \<Rightarrow> s1ap \<Rightarrow> bool \<times> s1ap \<times> s1ap_call list" where
  "handle_s1ap_rx_pdu X sent rrc_ok pdu s =
     (case unpack_s1ap_pdu X pdu of
        None \<Rightarrow> (False, s, [])
      | Some (Initiating_Message msg) \<Rightarrow> handle_initiatingmessage X sent rrc_ok msg s
      | Some (Successful_Outcome msg) \<Rightarrow> let (ret, s) = handle_successfuloutcome msg s in (ret, s, [])
      | Some Unsuccessful_Outcome \<Rightarrow> (True, s, [])
      | Some Pdu_Other \<Rightarrow> (False, s, []))"

text \<open>
  The start of the receiving thread once the MME is connected, and one round of it. The length is
  unsigned, so only the value zero of \<open>recv\<close> is taken for a lost connection; after the connection is
  made again the empty buffer is handled like a message.
\<close>

definition s1ap_thread_start :: "s1ap_lib \<Rightarrow> bool \<Rightarrow> s1ap \<Rightarrow> s1ap \<times> s1ap_call list" where
  "s1ap_thread_start X sent s =
     (let (ok, s, cs) = setup_s1 X sent (s\<lparr>sx_running := True\<rparr>)
      in (if ok then s else s\<lparr>sx_running := False\<rparr>, cs))"

definition s1ap_rx_round ::
  "s1ap_lib \<Rightarrow> bool \<Rightarrow> bool \<Rightarrow> int \<Rightarrow> u8 list \<Rightarrow> s1ap \<Rightarrow> s1ap \<times> s1ap_call list" where
  "s1ap_rx_round X sent rrc_ok n msg s =
     (let pdu = \<lparr>bb_n_bytes = of_i32 n, bb_msg = msg\<rparr>;
          (ok, s, cs) = (if bb_n_bytes pdu = 0 then setup_s1 X sent (s\<lparr>sx_mme_connected := False\<rparr>) else (True, s, []))
      in if \<not> ok then (s\<lparr>sx_running := False\<rparr>, cs)
         else let (_, s, ds) = handle_s1ap_rx_pdu X sent rrc_ok pdu s in (s, cs @ ds))"

end
