(* ===== verification/S1ap_Props.thy ===== *)
theory S1ap_Props
  imports S1ap
begin

text \<open>
  The S1AP identities of the users: they are unique, the messages of the MME reach the user they are
  meant for, and what the two ways a user is released leave behind.
\<close>

section \<open>Operations\<close>

datatype s1ap_op =
    So_Initial_Ue u16 nat byte_buffer "(u32 \<times> u8) option"
  | So_Write_Pdu u16 byte_buffer
  | So_User_Release u16 nat
  | So_Ctxt_Complete u16 "(u8 \<times> u8 list) list"
  | So_Erab_Complete u16 "(u8 \<times> u8 list) list"
  | So_Rx int "u8 list"

text \<open>The first flag is the success of sending, the second the answer of the RRC.\<close>

definition s1ap_run_op :: "s1ap_lib \<Rightarrow> bool \<times> bool \<times> s1ap_op \<Rightarrow> s1ap \<Rightarrow> s1ap \<times> s1ap_call list" where
  "s1ap_run_op X x s =
     (let (sent, rrc_ok, op) = x in
      case op of
        So_Initial_Ue k cause pdu tmsi \<Rightarrow> initial_ue X sent k cause pdu tmsi s
      | So_Write_Pdu k pdu \<Rightarrow> s1ap_write_pdu sent k pdu s
      | So_User_Release k cause \<Rightarrow> snd (user_release sent k cause s)
      | So_Ctxt_Complete k res \<Rightarrow> ue_ctxt_setup_complete X sent k res s
      | So_Erab_Complete k res \<Rightarrow> ue_erab_setup_complete X sent k res s
      | So_Rx n msg \<Rightarrow> s1ap_rx_round X sent rrc_ok n msg s)"

fun s1ap_run_ops :: "s1ap_lib \<Rightarrow> (bool \<times> bool \<times> s1ap_op) list \<Rightarrow> s1ap \<Rightarrow> s1ap \<times> s1ap_call list" where
  "s1ap_run_ops X [] s = (s, [])"
| "s1ap_run_ops X (x # xs) s =
     (let (s, cs) = s1ap_run_op X x s; (s, ds) = s1ap_run_ops X xs s in (s, cs @ ds))"

definition is_initial :: "bool \<times> bool \<times> s1ap_op \<Rightarrow> bool" where
  "is_initial x = (case snd (snd x) of So_Initial_Ue k cause pdu tmsi \<Rightarrow> True | _ \<Rightarrow> False)"

definition initials :: "(bool \<times> bool \<times> s1ap_op) list \<Rightarrow> nat" where
  "initials xs = length (filter is_initial xs)"

section \<open>The maps\<close>

definition ctxt :: "s1ap \<Rightarrow> u16 \<Rightarrow> ue_ctxt option" where
  "ctxt s k = omap_get (sx_ue_ctxt_map s) k"

definition rnti_of :: "s1ap \<Rightarrow> u32 \<Rightarrow> u16 option" where
  "rnti_of s i = omap_get (sx_enbid_to_rnti_map s) i"

lemma ctxt_sel [simp]:
  "ctxt (s\<lparr>sx_mme_connected := b\<rparr>) = ctxt s" "ctxt (s\<lparr>sx_running := b\<rparr>) = ctxt s" "ctxt (s\<lparr>sx_args := a\<rparr>) = ctxt s"
  "ctxt (s\<lparr>sx_s1setupresponse := x\<rparr>) = ctxt s" "ctxt (s\<lparr>sx_next_eNB_UE_S1AP_ID := i\<rparr>) = ctxt s"
  "ctxt (s\<lparr>sx_enbid_to_rnti_map := m\<rparr>) = ctxt s"
  "rnti_of (s\<lparr>sx_mme_connected := b\<rparr>) = rnti_of s" "rnti_of (s\<lparr>sx_running := b\<rparr>) = rnti_of s"
  "rnti_of (s\<lparr>sx_args := a\<rparr>) = rnti_of s" "rnti_of (s\<lparr>sx_s1setupresponse := x\<rparr>) = rnti_of s"
  "rnti_of (s\<lparr>sx_next_eNB_UE_S1AP_ID := i\<rparr>) = rnti_of s" "rnti_of (s\<lparr>sx_ue_ctxt_map := n\<rparr>) = rnti_of s"
  by (simp_all add: ctxt_def rnti_of_def fun_eq_iff)

lemma map_put [simp]: "ctxt (put_ctxt k c s) = (ctxt s)(k \<mapsto> c)" "rnti_of (put_ctxt k c s) = rnti_of s"
  "sx_next_eNB_UE_S1AP_ID (put_ctxt k c s) = sx_next_eNB_UE_S1AP_ID s" "sx_mme_connected (put_ctxt k c s) = sx_mme_connected s"
  "sx_tai (put_ctxt k c s) = sx_tai s" "sx_eutran_cgi (put_ctxt k c s) = sx_eutran_cgi s"
  by (simp_all add: ctxt_def rnti_of_def put_ctxt_def om.look_put fun_eq_iff)

lemma map_del [simp]: "ctxt (s\<lparr>sx_ue_ctxt_map := omap_del k (sx_ue_ctxt_map s)\<rparr>) = (ctxt s)(k := None)"
  "rnti_of (s\<lparr>sx_enbid_to_rnti_map := omap_del i (sx_enbid_to_rnti_map s)\<rparr>) = (rnti_of s)(i := None)"
  "rnti_of (s\<lparr>sx_enbid_to_rnti_map := omap_set i k (sx_enbid_to_rnti_map s)\<rparr>) = (rnti_of s)(i \<mapsto> k)"
  by (simp_all add: ctxt_def rnti_of_def om.look_del om.look_put fun_eq_iff)

lemma ctxt_at: "ue_ctxt_at k s = (case ctxt s k of None \<Rightarrow> ue_ctxt_zero | Some c \<Rightarrow> c)"
  by (simp add: ue_ctxt_at_def ctxt_def)

lemma exists_ctxt: "user_exists k s \<longleftrightarrow> ctxt s k \<noteq> None"
  by (simp add: user_exists_def ctxt_def)

section \<open>Identities\<close>

text \<open>The identity and the stream of a user; zero for a user without a context.\<close>

definition view :: "s1ap \<Rightarrow> u16 \<Rightarrow> u32 \<times> u16" where
  "view s k = (case ctxt s k of None \<Rightarrow> (0, 0) | Some c \<Rightarrow> (xt_eNB_UE_S1AP_ID c, xt_stream_id c))"

definition no_rntis :: "s1ap \<Rightarrow> bool" where
  "no_rntis s \<longleftrightarrow> (\<forall>p \<in> set (sx_ue_ctxt_map s). xt_rnti (snd p) = 0)"

lemma no_rntis_at: "no_rntis s \<Longrightarrow> xt_rnti (ue_ctxt_at k s) = 0"
  using map_of_SomeD by (fastforce simp: no_rntis_def ue_ctxt_at_def ue_ctxt_zero_def split: option.splits)

lemma no_rntis_put: "no_rntis s \<Longrightarrow> xt_rnti c = 0 \<Longrightarrow> no_rntis (put_ctxt k c s)"
  using set_omap_set_sub[of k c "sx_ue_ctxt_map s"] by (auto simp: no_rntis_def put_ctxt_def)

lemma no_rntis_del: "no_rntis s \<Longrightarrow> no_rntis (s\<lparr>sx_ue_ctxt_map := omap_del k (sx_ue_ctxt_map s)\<rparr>)"
  by (simp add: no_rntis_def omap_del_def)

lemma no_rntis_upd [simp]: "no_rntis (s\<lparr>sx_enbid_to_rnti_map := m\<rparr>) = no_rntis s"
  "no_rntis (s\<lparr>sx_next_eNB_UE_S1AP_ID := i\<rparr>) = no_rntis s"
  by (simp_all add: no_rntis_def)

text \<open>
  The invariant: an identity in use was given out, no other user has it, and it is mapped to its user
  or not at all. The member \<open>rnti\<close> stays zero.
\<close>

definition ids_ok :: "s1ap \<Rightarrow> bool" where
  "ids_ok s \<longleftrightarrow> no_rntis s \<and>
     (\<forall>k. fst (view s k) \<noteq> 0 \<longrightarrow> fst (view s k) < sx_next_eNB_UE_S1AP_ID s \<and>
        rnti_of s (fst (view s k)) \<in> {None, Some k} \<and>
        (\<forall>k'. fst (view s k') = fst (view s k) \<longrightarrow> k' = k)) \<and>
     (\<forall>i k. rnti_of s i = Some k \<longrightarrow> 0 < i \<and> i < sx_next_eNB_UE_S1AP_ID s)"

text \<open>
  A change that gives out no identity: users of \<open>K\<close> may lose their context and identities of \<open>I\<close> their
  entry, the rest stays.
\<close>

definition quiet :: "u16 set \<Rightarrow> u32 set \<Rightarrow> s1ap \<Rightarrow> s1ap \<Rightarrow> bool" where
  "quiet K I s s' \<longleftrightarrow> sx_next_eNB_UE_S1AP_ID s' = sx_next_eNB_UE_S1AP_ID s \<and> (no_rntis s \<longrightarrow> no_rntis s') \<and>
     (\<forall>k. view s' k = view s k \<or> k \<in> K \<and> view s' k = (0, 0)) \<and>
     (\<forall>i. rnti_of s' i = rnti_of s i \<or> i \<in> I \<and> rnti_of s' i = None)"

lemma quiet_ids_ok:
  assumes "quiet K I s s'" "ids_ok s"
  shows "ids_ok s'"
proof -
  have v: "fst (view s' k) \<noteq> 0 \<Longrightarrow> view s' k = view s k" for k using assms(1) by (auto simp: quiet_def)
  have r: "rnti_of s' i \<in> {None, rnti_of s i}" for i using assms(1) by (auto simp: quiet_def)
  have n: "sx_next_eNB_UE_S1AP_ID s' = sx_next_eNB_UE_S1AP_ID s" "no_rntis s'"
    using assms by (auto simp: quiet_def ids_ok_def)
  have "\<forall>k. fst (view s' k) \<noteq> 0 \<longrightarrow> fst (view s' k) < sx_next_eNB_UE_S1AP_ID s' \<and>
        rnti_of s' (fst (view s' k)) \<in> {None, Some k} \<and> (\<forall>k'. fst (view s' k') = fst (view s' k) \<longrightarrow> k' = k)"
  proof (intro allI impI)
    fix k
    assume z: "fst (view s' k) \<noteq> 0"
    then have vk: "view s' k = view s k" by (rule v)
    have "k' = k" if "fst (view s' k') = fst (view s' k)" for k'
      using assms(2) z vk v[of k'] that by (metis ids_ok_def)
    then show "fst (view s' k) < sx_next_eNB_UE_S1AP_ID s' \<and>
        rnti_of s' (fst (view s' k)) \<in> {None, Some k} \<and> (\<forall>k'. fst (view s' k') = fst (view s' k) \<longrightarrow> k' = k)"
      using assms(2) z vk n(1) r[of "fst (view s k)"] by (auto simp: ids_ok_def)
  qed
  moreover have "\<forall>i k. rnti_of s' i = Some k \<longrightarrow> 0 < i \<and> i < sx_next_eNB_UE_S1AP_ID s'"
    using assms(2) r n(1) by (metis (no_types, lifting) ids_ok_def insertE option.distinct(1) singletonD)
  ultimately show ?thesis using n(2) by (simp add: ids_ok_def)
qed

named_theorems quiet_intro

lemma quiet_refl [quiet_intro]: "quiet K I s s"
  by (simp add: quiet_def)

lemma quiet_trans: "quiet K I s s' \<Longrightarrow> quiet K I s' s'' \<Longrightarrow> quiet K I s s''"
  by (simp add: quiet_def) metis

lemma quiet_same:
  assumes "sx_ue_ctxt_map s' = sx_ue_ctxt_map s" "sx_enbid_to_rnti_map s' = sx_enbid_to_rnti_map s"
    "sx_next_eNB_UE_S1AP_ID s' = sx_next_eNB_UE_S1AP_ID s"
  shows "quiet K I s s'"
  using assms by (simp add: quiet_def view_def no_rntis_def ctxt_def rnti_of_def)

lemma quiet_put [quiet_intro]:
  assumes "xt_rnti c = xt_rnti (ue_ctxt_at k s)" "xt_eNB_UE_S1AP_ID c = xt_eNB_UE_S1AP_ID (ue_ctxt_at k s)"
    "xt_stream_id c = xt_stream_id (ue_ctxt_at k s)"
  shows "quiet K I s (put_ctxt k c s)"
  using assms no_rntis_put no_rntis_at by (auto simp: quiet_def view_def ctxt_at ue_ctxt_zero_def split: option.splits)

lemma quiet_touch [quiet_intro]: "quiet K I s (touch_ctxt k s)"
  by (simp add: touch_ctxt_def quiet_put)

lemma quiet_del [quiet_intro]: "k \<in> K \<Longrightarrow> quiet K I s (s\<lparr>sx_ue_ctxt_map := omap_del k (sx_ue_ctxt_map s)\<rparr>)"
  by (auto simp: quiet_def view_def no_rntis_del)

lemma quiet_erase [quiet_intro]: "i \<in> I \<Longrightarrow> quiet K I s (s\<lparr>sx_enbid_to_rnti_map := omap_del i (sx_enbid_to_rnti_map s)\<rparr>)"
  by (auto simp: quiet_def view_def)

section \<open>The operations\<close>

lemma quiet_sends [quiet_intro]:
  "quiet K I s (fst (snd (send_ulnastransport sent k pdu s)))"
  "quiet K I s (fst (snd (send_uectxtreleaserequest sent k cause s)))"
  "quiet K I s (fst (snd (send_uectxtreleasecomplete sent k m e s)))"
  "quiet K I s (fst (snd (send_initial_ctxt_setup_response X sent k res s)))"
  "quiet K I s (fst (snd (send_initial_ctxt_setup_failure sent k s)))"
  "quiet K I s (fst (snd (send_erab_setup_response X sent k res s)))"
  "quiet K I s (fst (snd (send_initialuemessage X sent k n pdu t s)))"
  by (simp_all add: send_ulnastransport_def send_uectxtreleaserequest_def send_uectxtreleasecomplete_def
      send_initial_ctxt_setup_response_def send_initial_ctxt_setup_failure_def send_erab_setup_response_def
      send_initialuemessage_def Let_def quiet_intro)

lemma quiet_complete [quiet_intro]:
  "quiet K I s (fst (ue_ctxt_setup_complete X sent k res s))" "quiet K I s (fst (ue_erab_setup_complete X sent k res s))"
  "quiet K I s (fst (s1ap_write_pdu sent k pdu s))"
  by (simp_all add: ue_ctxt_setup_complete_def ue_erab_setup_complete_def s1ap_write_pdu_def quiet_intro)

lemma quiet_user_release:
  assumes "k \<in> K"
  shows "quiet K I s (fst (snd (user_release sent k cause s)))"
proof -
  let ?p = "put_ctxt k ((ue_ctxt_at k s)\<lparr>xt_release_requested := True\<rparr>) s"
  have "quiet K I s (fst (snd (send_uectxtreleaserequest sent k cause ?p)))"
    by (rule quiet_trans[OF _ quiet_sends(2)]) (simp add: quiet_put)
  then show ?thesis using assms by (simp add: user_release_def Let_def quiet_intro)
qed

lemma quiet_release_command:
  assumes "case release_target ids s of None \<Rightarrow> True | Some (k, i) \<Rightarrow> k \<in> K \<and> i \<in> I"
  shows "quiet K I s (fst (snd (handle_uectxtreleasecommand sent ids s)))"
proof (cases "release_target ids s")
  case None
  then show ?thesis by (simp add: handle_uectxtreleasecommand_def quiet_refl)
next
  case (Some p)
  obtain k i where p: "p = (k, i)" "k \<in> K" "i \<in> I" using assms Some by (cases p) simp
  let ?s = "s\<lparr>sx_enbid_to_rnti_map := omap_del i (sx_enbid_to_rnti_map s)\<rparr>"
  let ?t = "fst (snd (send_uectxtreleasecomplete sent k (xt_MME_UE_S1AP_ID (ue_ctxt_at k ?s)) (xt_eNB_UE_S1AP_ID (ue_ctxt_at k ?s)) ?s))"
  have q: "quiet K I s ?s" using p by (simp add: quiet_erase)
  have "quiet K I s (?t\<lparr>sx_ue_ctxt_map := omap_del k (sx_ue_ctxt_map ?t)\<rparr>)"
    by (rule quiet_trans[OF q], rule quiet_trans[OF quiet_sends(3) quiet_del[OF p(2)]])
  then show ?thesis using Some p(1) q by (simp add: handle_uectxtreleasecommand_def case_prod_beta Let_def)
qed

lemma quiet_take_mme_id [quiet_intro]: "quiet K I s (take_mme_id k m s)"
  by (simp add: take_mme_id_def Let_def quiet_put)

lemma quiet_initiating:
  assumes "\<And>ids p. msg = Ue_Context_Release_Command ids \<Longrightarrow> release_target ids s = Some p \<Longrightarrow> fst p \<in> K \<and> snd p \<in> I"
  shows "quiet K I s (fst (snd (handle_initiatingmessage X sent rrc_ok msg s)))"
proof (cases msg)
  case (Ue_Context_Release_Command ids)
  have "quiet K I s (fst (snd (handle_uectxtreleasecommand sent ids s)))"
    using assms[OF Ue_Context_Release_Command] by (intro quiet_release_command) (auto split: option.splits)
  then show ?thesis using Ue_Context_Release_Command by (simp add: handle_initiatingmessage_def)
qed (simp_all add: handle_initiatingmessage_def handle_dlnastransport_def handle_initialctxtsetuprequest_def
    handle_paging_def handle_erabsetuprequest_def quiet_intro split: option.splits)

text \<open>The release command a received buffer decodes to.\<close>

definition release_cmd :: "s1ap_lib \<Rightarrow> int \<Rightarrow> u8 list \<Rightarrow> ue_s1ap_ids option" where
  "release_cmd X n msg =
     (case unpack_s1ap_pdu X \<lparr>bb_n_bytes = of_i32 n, bb_msg = msg\<rparr> of
        Some (Initiating_Message (Ue_Context_Release_Command ids)) \<Rightarrow> Some ids
      | _ \<Rightarrow> None)"

lemma quiet_rx_pdu:
  assumes "\<And>ids p. release_cmd X n msg = Some ids \<Longrightarrow> release_target ids s = Some p \<Longrightarrow> fst p \<in> K \<and> snd p \<in> I"
  shows "quiet K I s (fst (snd (handle_s1ap_rx_pdu X sent rrc_ok \<lparr>bb_n_bytes = of_i32 n, bb_msg = msg\<rparr> s)))"
proof (cases "unpack_s1ap_pdu X \<lparr>bb_n_bytes = of_i32 n, bb_msg = msg\<rparr>")
  case (Some m)
  show ?thesis
  proof (cases m)
    case (Initiating_Message i)
    have "quiet K I s (fst (snd (handle_initiatingmessage X sent rrc_ok i s)))"
      using assms Some Initiating_Message by (intro quiet_initiating) (simp add: release_cmd_def)
    then show ?thesis using Some Initiating_Message by (simp add: handle_s1ap_rx_pdu_def)
  next
    case (Successful_Outcome o')
    have "quiet K I s (snd (handle_s1setupresponse r s))" for r
      by (rule quiet_same) (simp_all add: handle_s1setupresponse_def)
    then show ?thesis using Some Successful_Outcome
      by (simp add: handle_s1ap_rx_pdu_def handle_successfuloutcome_def case_prod_beta quiet_refl split: option.split)
  qed (use Some in \<open>simp_all add: handle_s1ap_rx_pdu_def quiet_refl\<close>)
qed (simp add: handle_s1ap_rx_pdu_def quiet_refl)

lemma quiet_rx_round:
  assumes "\<And>ids p. release_cmd X n msg = Some ids \<Longrightarrow> release_target ids s = Some p \<Longrightarrow> fst p \<in> K \<and> snd p \<in> I"
  shows "quiet K I s (fst (s1ap_rx_round X sent rrc_ok n msg s))"
proof -
  let ?z = "(of_i32 n :: u32) = 0"
  obtain ok t cs where t: "(if ?z then setup_s1 X sent (s\<lparr>sx_mme_connected := False\<rparr>) else (True, s, [])) = (ok, t, cs)"
    by (metis surj_pair)
  have m: "sx_ue_ctxt_map t = sx_ue_ctxt_map s" "sx_enbid_to_rnti_map t = sx_enbid_to_rnti_map s" "sx_next_eNB_UE_S1AP_ID t = sx_next_eNB_UE_S1AP_ID s"
    and r: "release_target ids t = release_target ids s" for ids
    using t by (auto simp: setup_s1_def Let_def release_target_def split: if_splits ue_s1ap_ids.splits)
  have q: "quiet K I s t" "quiet K I s (t\<lparr>sx_running := False\<rparr>)" by (rule quiet_same; simp add: m)+
  have "quiet K I s (fst (snd (handle_s1ap_rx_pdu X sent rrc_ok \<lparr>bb_n_bytes = of_i32 n, bb_msg = msg\<rparr> t)))"
    by (rule quiet_trans[OF q(1) quiet_rx_pdu]) (use assms r in simp)
  then show ?thesis using q t by (auto simp: s1ap_rx_round_def case_prod_beta Let_def split: if_splits)
qed

text \<open>Whether an operation takes the user \<open>k\<close> or the identity \<open>i\<close> away or gives the user a new one: it announces
  or releases the user, or it is a release command, by both identities or by the one of the MME alone,
  that in this state is taken to be for the user or erases the identity.\<close>

definition spares :: "s1ap_lib \<Rightarrow> u16 \<Rightarrow> u32 \<Rightarrow> s1ap \<Rightarrow> bool \<times> bool \<times> s1ap_op \<Rightarrow> bool" where
  "spares X k i s x \<longleftrightarrow>
     (case snd (snd x) of
        So_Initial_Ue k' cause pdu tmsi \<Rightarrow> k' \<noteq> k
      | So_User_Release k' cause \<Rightarrow> k' \<noteq> k
      | So_Rx n msg \<Rightarrow>
          (case release_cmd X n msg of
             None \<Rightarrow> True
           | Some ids \<Rightarrow> (case release_target ids s of None \<Rightarrow> True | Some (k', j) \<Rightarrow> k' \<noteq> k \<and> j \<noteq> i))
      | _ \<Rightarrow> True)"

fun all_spare :: "s1ap_lib \<Rightarrow> u16 \<Rightarrow> u32 \<Rightarrow> (bool \<times> bool \<times> s1ap_op) list \<Rightarrow> s1ap \<Rightarrow> bool" where
  "all_spare X k i [] s = True"
| "all_spare X k i (x # xs) s = (spares X k i s x \<and> all_spare X k i xs (fst (s1ap_run_op X x s)))"

lemma op_quiet:
  assumes "\<not> is_initial x"
    and "\<And>n msg ids p. snd (snd x) = So_Rx n msg \<Longrightarrow> release_cmd X n msg = Some ids \<Longrightarrow> release_target ids s = Some p \<Longrightarrow>
      fst p \<in> K \<and> snd p \<in> I"
    and "\<And>k cause. snd (snd x) = So_User_Release k cause \<Longrightarrow> k \<in> K"
  shows "quiet K I s (fst (s1ap_run_op X x s))"
proof -
  obtain sent rrc_ok op where x: "x = (sent, rrc_ok, op)" by (metis surj_pair)
  show ?thesis
  proof (cases op)
    case (So_Rx n msg)
    then show ?thesis using x assms(2) by (simp add: s1ap_run_op_def quiet_rx_round)
  next
    case (So_User_Release k cause)
    then show ?thesis using x assms(3) by (simp add: s1ap_run_op_def quiet_user_release)
  qed (use x assms(1) in \<open>simp_all add: s1ap_run_op_def is_initial_def quiet_intro\<close>)
qed

text \<open>A new user takes the next identity.\<close>

lemma initial_ue_maps:
  fixes X sent k cause pdu tmsi
  assumes "no_rntis s"
  defines "s' \<equiv> fst (initial_ue X sent k cause pdu tmsi s)"
  shows "view s' = (view s)(k := (sx_next_eNB_UE_S1AP_ID s, 1))"
    "rnti_of s' = (rnti_of s)(sx_next_eNB_UE_S1AP_ID s \<mapsto> k)"
    "sx_next_eNB_UE_S1AP_ID s' = sx_next_eNB_UE_S1AP_ID s + 1" "no_rntis s'"
proof -
  let ?i = "sx_next_eNB_UE_S1AP_ID s"
  let ?p = "put_ctxt k ((ue_ctxt_at k s)\<lparr>xt_eNB_UE_S1AP_ID := ?i, xt_stream_id := 1, xt_release_requested := False\<rparr>)
      (s\<lparr>sx_next_eNB_UE_S1AP_ID := ?i + 1\<rparr>)"
  let ?q = "?p\<lparr>sx_enbid_to_rnti_map := omap_set ?i k (sx_enbid_to_rnti_map ?p)\<rparr>"
  have s': "s' = fst (snd (send_initialuemessage X sent k cause pdu tmsi ?q))"
    by (simp add: s'_def initial_ue_def Let_def)
  have q: "quiet {} {} ?q s'" unfolding s' by (rule quiet_sends)
  have v: "view ?q = (view s)(k := (?i, 1))" "rnti_of ?q = (rnti_of s)(?i \<mapsto> k)" "sx_next_eNB_UE_S1AP_ID ?q = ?i + 1"
    by (auto simp: view_def fun_eq_iff)
  have n: "no_rntis ?q" using assms(1) no_rntis_at[OF assms(1), of k] by (simp add: no_rntis_put)
  show "view s' = (view s)(k := (?i, 1))" "rnti_of s' = (rnti_of s)(?i \<mapsto> k)"
    "sx_next_eNB_UE_S1AP_ID s' = ?i + 1" "no_rntis s'"
    using q v n by (auto simp: quiet_def fun_eq_iff)
qed

lemma initial_ue_ids_ok:
  assumes "ids_ok s" "unat (sx_next_eNB_UE_S1AP_ID s) + 1 < 2 ^ 32" "sx_next_eNB_UE_S1AP_ID s \<noteq> 0"
  shows "ids_ok (fst (initial_ue X sent k cause pdu tmsi s))"
proof -
  let ?i = "sx_next_eNB_UE_S1AP_ID s" and ?s = "fst (initial_ue X sent k cause pdu tmsi s)"
  have n: "no_rntis s" using assms(1) by (simp add: ids_ok_def)
  note m = initial_ue_maps[OF n, of X sent k cause pdu tmsi]
  have lt: "i < ?i \<Longrightarrow> i < ?i + 1" "?i < ?i + 1" for i
    using assms(2) by (simp_all add: word_less_nat_alt unat_word_ariths)
  have fresh: "fst (view s k') \<noteq> ?i" "rnti_of s ?i = None" for k'
  proof -
    show "fst (view s k') \<noteq> ?i" using assms(1,3) by (metis ids_ok_def less_irrefl)
    show "rnti_of s ?i = None" using assms(1) by (metis ids_ok_def less_irrefl not_None_eq)
  qed
  have "\<forall>k'. fst (view ?s k') \<noteq> 0 \<longrightarrow> fst (view ?s k') < sx_next_eNB_UE_S1AP_ID ?s \<and>
        rnti_of ?s (fst (view ?s k')) \<in> {None, Some k'} \<and> (\<forall>j. fst (view ?s j) = fst (view ?s k') \<longrightarrow> j = k')"
  proof (intro allI impI)
    fix k'
    assume z: "fst (view ?s k') \<noteq> 0"
    show "fst (view ?s k') < sx_next_eNB_UE_S1AP_ID ?s \<and>
        rnti_of ?s (fst (view ?s k')) \<in> {None, Some k'} \<and> (\<forall>j. fst (view ?s j) = fst (view ?s k') \<longrightarrow> j = k')"
    proof (cases "k' = k")
      case True
      then show ?thesis using m fresh(1) lt(2) by auto
    next
      case False
      then have v: "fst (view s k') \<noteq> 0" "view ?s k' = view s k'" using z m(1) by auto
      have old: "fst (view s k') < ?i" "rnti_of s (fst (view s k')) \<in> {None, Some k'}"
          "\<And>j. fst (view s j) = fst (view s k') \<Longrightarrow> j = k'"
        using assms(1) v(1) by (simp_all add: ids_ok_def)
      show ?thesis using m v old lt(1) fresh(1)[of k'] by (auto split: if_splits)
    qed
  qed
  moreover have "\<forall>i j. rnti_of ?s i = Some j \<longrightarrow> 0 < i \<and> i < sx_next_eNB_UE_S1AP_ID ?s"
  proof (intro allI impI)
    fix i j
    assume r: "rnti_of ?s i = Some j"
    show "0 < i \<and> i < sx_next_eNB_UE_S1AP_ID ?s"
    proof (cases "i = ?i")
      case True
      then show ?thesis using m(3) lt(2) assms(3) by (simp add: word_gt_0)
    next
      case False
      then have "rnti_of s i = Some j" using r m(2) by simp
      then show ?thesis using assms(1) m(3) lt(1) by (auto simp: ids_ok_def)
    qed
  qed
  ultimately show ?thesis using m(4) by (simp add: ids_ok_def)
qed

section \<open>Sequences\<close>

text \<open>Identities left to give out before the counter wraps.\<close>

definition ids_left :: "nat \<Rightarrow> s1ap \<Rightarrow> bool" where
  "ids_left n s \<longleftrightarrow> ids_ok s \<and> 0 < unat (sx_next_eNB_UE_S1AP_ID s) \<and> unat (sx_next_eNB_UE_S1AP_ID s) + n < 2 ^ 32"

lemma op_ids:
  assumes "ids_left (initials (x # xs)) s"
  shows "ids_left (initials xs) (fst (s1ap_run_op X x s))"
proof (cases "is_initial x")
  case True
  then obtain sent rrc_ok k cause pdu tmsi where x: "x = (sent, rrc_ok, So_Initial_Ue k cause pdu tmsi)"
    by (cases x rule: prod_cases3) (auto simp: is_initial_def split: s1ap_op.splits)
  have n: "ids_ok s" "no_rntis s" "unat (sx_next_eNB_UE_S1AP_ID s) + 1 < 2 ^ 32" "sx_next_eNB_UE_S1AP_ID s \<noteq> 0"
    using assms True by (auto simp: ids_left_def initials_def ids_ok_def)
  have "ids_ok (fst (initial_ue X sent k cause pdu tmsi s))" using n(1,3,4) by (rule initial_ue_ids_ok)
  moreover have "unat (sx_next_eNB_UE_S1AP_ID (fst (initial_ue X sent k cause pdu tmsi s))) = unat (sx_next_eNB_UE_S1AP_ID s) + 1"
    using initial_ue_maps(3)[OF n(2)] n(3) by (simp add: unat_word_ariths)
  ultimately show ?thesis using assms x True by (simp add: ids_left_def initials_def s1ap_run_op_def)
next
  case False
  then have q: "quiet UNIV UNIV s (fst (s1ap_run_op X x s))" by (rule op_quiet) simp_all
  then show ?thesis using assms False quiet_ids_ok[OF q] by (auto simp: ids_left_def initials_def quiet_def)
qed

lemma run_ids: "ids_left (initials xs) s \<Longrightarrow> ids_left 0 (fst (s1ap_run_ops X xs s))"
proof (induction xs arbitrary: s)
  case (Cons x xs)
  then show ?case using op_ids[OF Cons.prems, of X] by (simp add: case_prod_beta Let_def)
qed (simp add: initials_def)

lemma run_append: "fst (s1ap_run_ops X (xs @ ys) s) = fst (s1ap_run_ops X ys (fst (s1ap_run_ops X xs s)))"
  by (induction xs arbitrary: s) (simp_all add: case_prod_beta Let_def)

text \<open>A user that is served keeps its identity while it is spared.\<close>

definition served :: "u16 \<Rightarrow> u32 \<Rightarrow> s1ap \<Rightarrow> bool" where
  "served k i s \<longleftrightarrow> view s k = (i, 1) \<and> rnti_of s i = Some k"

lemma quiet_served:
  assumes "quiet K I s s'" "k \<notin> K" "i \<notin> I" "served k i s"
  shows "served k i s'"
proof -
  have "view s' k = view s k" "rnti_of s' i = rnti_of s i" using assms(1-3) by (auto simp: quiet_def)
  then show ?thesis using assms(4) by (simp add: served_def)
qed

lemma op_served:
  assumes "served k i s" "spares X k i s x" "ids_left (initials (x # xs)) s"
  shows "served k i (fst (s1ap_run_op X x s))"
proof (cases "is_initial x")
  case True
  then obtain sent rrc_ok k' cause pdu tmsi where x: "x = (sent, rrc_ok, So_Initial_Ue k' cause pdu tmsi)"
    by (cases x rule: prod_cases3) (auto simp: is_initial_def split: s1ap_op.splits)
  have n: "no_rntis s" "ids_ok s" using assms(3) by (auto simp: ids_left_def ids_ok_def)
  have r: "rnti_of s i = Some k" using assms(1) by (simp add: served_def)
  have i: "i \<noteq> sx_next_eNB_UE_S1AP_ID s" using n(2) r by (metis ids_ok_def less_irrefl)
  have k: "k' \<noteq> k" using assms(2) x by (simp add: spares_def)
  note m = initial_ue_maps[OF n(1), of X sent k' cause pdu tmsi]
  have "view (fst (initial_ue X sent k' cause pdu tmsi s)) k = view s k" using m(1) k by simp
  moreover have "rnti_of (fst (initial_ue X sent k' cause pdu tmsi s)) i = rnti_of s i" using m(2) i by simp
  ultimately show ?thesis using assms(1) x by (simp add: served_def s1ap_run_op_def)
next
  case False
  then have q: "quiet (- {k}) (- {i}) s (fst (s1ap_run_op X x s))"
  proof (rule op_quiet)
    fix n msg ids p
    assume a: "snd (snd x) = So_Rx n msg" "release_cmd X n msg = Some ids" "release_target ids s = Some p"
    then show "fst p \<in> - {k} \<and> snd p \<in> - {i}" using assms(2) by (cases p) (simp add: spares_def)
  next
    fix k' cause
    assume "snd (snd x) = So_User_Release k' cause"
    then show "k' \<in> - {k}" using assms(2) by (simp add: spares_def)
  qed
  then show ?thesis by (rule quiet_served) (use assms(1) in simp_all)
qed

lemma run_served:
  "served k i s \<Longrightarrow> all_spare X k i xs s \<Longrightarrow> ids_left (initials xs) s \<Longrightarrow> served k i (fst (s1ap_run_ops X xs s))"
proof (induction xs arbitrary: s)
  case (Cons x xs)
  have "served k i (fst (s1ap_run_op X x s))" using Cons.prems by (intro op_served) simp_all
  then show ?case using Cons op_ids[OF Cons.prems(3), of X] by (simp add: case_prod_beta Let_def)
qed simp

section \<open>The state after the start\<close>

definition s1ap_start :: "s1ap_lib \<Rightarrow> s1ap_args \<Rightarrow> s1ap \<Rightarrow> s1ap" where
  "s1ap_start X a s = snd (s1ap_init X a s)"

lemma start_ids:
  assumes "sx_ue_ctxt_map s = []" "sx_enbid_to_rnti_map s = []" "n < 2 ^ 32 - 1"
  shows "ids_left n (s1ap_start X a s)"
  using assms
  by (simp add: ids_left_def ids_ok_def s1ap_start_def s1ap_init_def build_tai_cgi_def Let_def no_rntis_def view_def ctxt_def
      rnti_of_def)

section \<open>Properties\<close>


lemma served_dl:
  assumes "served k i s"
  shows "handle_dlnastransport m i nas s =
    (True, put_ctxt k ((ue_ctxt_at k s)\<lparr>xt_MME_UE_S1AP_ID := m\<rparr>) s, [Sx_Rrc_Write_Dl_Info k (buffer nas)])"
  using assms by (simp add: handle_dlnastransport_def served_def rnti_of_def)

lemma served_ul:
  assumes "served k i s" "i \<noteq> 0" "sx_mme_connected s"
  shows "snd (s1ap_write_pdu sent k pdu (put_ctxt k ((ue_ctxt_at k s)\<lparr>xt_MME_UE_S1AP_ID := m\<rparr>) s)) =
    [Sctp_Send 1 (Uplink_Nas_Transport m i (take (unat (bb_n_bytes pdu)) (bb_msg pdu)) (sx_tai s) (sx_eutran_cgi s))]"
proof -
  have "xt_eNB_UE_S1AP_ID (ue_ctxt_at k s) = i" "xt_stream_id (ue_ctxt_at k s) = 1"
    using assms(1,2) by (auto simp: served_def view_def ctxt_at ue_ctxt_zero_def split: option.splits)
  then show ?thesis using assms(3) by (simp add: s1ap_write_pdu_def exists_ctxt send_ulnastransport_def ctxt_at Let_def)
qed

text \<open>C14: The identity of a new user is a round trip: the MME is sent one with the first message of the user,
  and after any sequence of operations that neither announces nor releases this user again and whose
  release commands, whatever identities they name, lead to neither this user nor its identity, a message
  the MME addresses to it is delivered to that user, and the user's next message goes out under it and
  the identity the MME chose. The MME is connected at both ends, and fewer than 2 to the 32 less one users
  are announced in all. The other users may be announced, released by either side, or served.\<close>

theorem nas_identity_roundtrip:
  fixes X a k cause pdu tmsi
  assumes "sx_ue_ctxt_map s = []" "sx_enbid_to_rnti_map s = []" "initials xs + Suc (initials ys) < 2 ^ 32 - 1"
  defines "t \<equiv> fst (s1ap_run_ops X xs (s1ap_start X a s))"
  defines "i \<equiv> sx_next_eNB_UE_S1AP_ID t"
  defines "u \<equiv> fst (s1ap_run_ops X ys (fst (initial_ue X True k cause pdu tmsi t)))"
  assumes "all_spare X k i ys (fst (initial_ue X True k cause pdu tmsi t))" "sx_mme_connected t" "sx_mme_connected u"
  shows "(\<exists>tai cgi st. snd (initial_ue X True k cause pdu tmsi t) =
      [Sctp_Send 1 (Initial_Ue_Message i (take (unat (bb_n_bytes pdu)) (bb_msg pdu)) cause st tai cgi)]) \<and>
    (\<exists>v tai cgi. handle_dlnastransport m i dl u = (True, v, [Sx_Rrc_Write_Dl_Info k (buffer dl)]) \<and>
      snd (s1ap_write_pdu True k ul v) =
        [Sctp_Send 1 (Uplink_Nas_Transport m i (take (unat (bb_n_bytes ul)) (bb_msg ul)) tai cgi)])"
proof -
  let ?x = "(True, True, So_Initial_Ue k cause pdu tmsi)" and ?t = "fst (initial_ue X True k cause pdu tmsi t)"
  have "ids_left (initials (xs @ ?x # ys)) (s1ap_start X a s)"
    by (rule start_ids) (use assms(1-3) in \<open>simp_all add: initials_def is_initial_def\<close>)
  have left: "ids_left (initials (zs @ ws)) s0 \<Longrightarrow> ids_left (initials ws) (fst (s1ap_run_ops X zs s0))" for zs ws s0
  proof (induction zs arbitrary: s0)
    case (Cons z zs)
    then show ?case using op_ids[of z "zs @ ws" s0 X] by (simp add: case_prod_beta Let_def)
  qed simp
  have tl: "ids_left (initials (?x # ys)) t"
    unfolding t_def by (rule left, rule start_ids) (use assms(1-3) in \<open>simp_all add: initials_def is_initial_def\<close>)
  have tl': "ids_left (initials ys) ?t" using op_ids[OF tl, of X] by (simp add: s1ap_run_op_def)
  have n: "no_rntis t" "i \<noteq> 0" using tl by (auto simp: ids_left_def ids_ok_def i_def)
  note m = initial_ue_maps[OF n(1), of X True k cause pdu tmsi, folded i_def]
  have "served k i ?t" using m(1,2) by (simp add: served_def)
  then have sv: "served k i u" unfolding u_def using assms(7) tl' by (rule run_served)
  have "snd (initial_ue X True k cause pdu tmsi t) = [Sctp_Send 1 (Initial_Ue_Message i
      (take (unat (bb_n_bytes pdu)) (bb_msg pdu)) cause (map_option (\<lambda>(m_tmsi, mmec). (s1ap_uint32_to_uint8 X m_tmsi, mmec)) tmsi)
      (sx_tai t) (sx_eutran_cgi t))]"
    using assms(8) by (simp add: initial_ue_def send_initialuemessage_def ctxt_at Let_def i_def)
  then show ?thesis using served_dl[OF sv, of m dl] served_ul[OF sv n(2) assms(9), of True ul m] by blast
qed

text \<open>C33: A release command that names both identities ends the user: its bearers are released, the MME gets
  its answer, the RRC is told, and afterwards neither the user nor the identity is known, so a late
  message for it is refused without effect.\<close>

theorem release_command_ends_user:
  assumes "omap_get (sx_enbid_to_rnti_map s) i = Some k" "omap_get (sx_ue_ctxt_map s) k = Some c" "sx_mme_connected s"
  shows "\<exists>s'. handle_uectxtreleasecommand True (Id_Pair m i) s =
      (True, s', [Sx_Rrc_Release_Erabs k,
         Sctp_Send (xt_stream_id c) (Ue_Context_Release_Complete (xt_MME_UE_S1AP_ID c) (xt_eNB_UE_S1AP_ID c)),
         Sx_Rrc_Release_Complete k]) \<and>
    \<not> user_exists k s' \<and> handle_dlnastransport m' i nas s' = (False, s', []) \<and>
    (\<forall>k'. k' \<noteq> k \<longrightarrow> omap_get (sx_ue_ctxt_map s') k' = omap_get (sx_ue_ctxt_map s) k')"
proof -
  have "ctxt s k = Some c" "rnti_of s i = Some k" using assms(1,2) by (simp_all add: ctxt_def rnti_of_def)
  then show ?thesis using assms
    by (auto simp: handle_uectxtreleasecommand_def release_target_def user_exists_def send_uectxtreleasecomplete_def Let_def
        ue_ctxt_at_def touch_ctxt_def put_ctxt_def handle_dlnastransport_def om.look_put om.look_del)
qed

lemma find_zero: "find_mme_ue_id m cs = Some (k, i) \<Longrightarrow> \<forall>p \<in> set cs. xt_rnti (snd p) = 0 \<Longrightarrow> k = 0"
proof (induction cs)
  case (Cons p cs)
  obtain k' c where p: "p = (k', c)" by (metis surj_pair)
  have "xt_rnti c = 0" using Cons.prems(2) p by simp
  then show ?case using Cons p by (cases "xt_MME_UE_S1AP_ID c = m") simp_all
qed simp

text \<open>A release command that names only the MME's identity never releases the user it means: the member
  that is looked up is never set, so the command is taken to be for RNTI 0. The user keeps its context,
  nothing is sent, and the way from its own identity to the user is lost, so from then on every
  message of the MME for the user is refused.\<close>

theorem release_by_mme_identity_fails:
  fixes X a
  assumes "sx_ue_ctxt_map s = []" "sx_enbid_to_rnti_map s = []" "initials xs < 2 ^ 32 - 1"
  defines "t \<equiv> fst (s1ap_run_ops X xs (s1ap_start X a s))"
  assumes "find_mme_ue_id m (sx_ue_ctxt_map t) = Some (k0, i)" "omap_get (sx_ue_ctxt_map t) 0 = None"
  shows "\<exists>t'. handle_uectxtreleasecommand sent (Id_Mme m) t = (False, t', []) \<and>
    sx_ue_ctxt_map t' = sx_ue_ctxt_map t \<and> handle_dlnastransport m' i nas t' = (False, t', [])"
proof -
  have "ids_left (initials xs) (s1ap_start X a s)" using assms(1-3) by (rule start_ids)
  then have n: "no_rntis t" using run_ids unfolding t_def ids_left_def ids_ok_def by blast
  have "k0 = 0" using find_zero[OF assms(5)] n by (simp add: no_rntis_def)
  then show ?thesis using assms(5,6)
    by (simp add: handle_uectxtreleasecommand_def release_target_def user_exists_def Let_def handle_dlnastransport_def om.look_del)
qed

text \<open>A second request to release a user the MME has not released drops the user but not the way from its
  identity to it: the next downlink message the MME sends for the identity makes a new context for
  that user, without identity and stream, and goes on to the RRC.\<close>

theorem zombie_release_leaves_identity:
  assumes "omap_get (sx_ue_ctxt_map s) k = Some c" "\<not> xt_release_requested c"
    "omap_get (sx_enbid_to_rnti_map s) i = Some k" "sx_mme_connected s"
  shows "\<exists>s1 s2 s3. user_release True k cause s = (True, s1, [Sctp_Send (xt_stream_id c)
        (Ue_Context_Release_Request (xt_MME_UE_S1AP_ID c) (xt_eNB_UE_S1AP_ID c) cause)]) \<and>
    user_release True k cause' s1 = (False, s2, [Sx_Rrc_Release_Complete k]) \<and> \<not> user_exists k s2 \<and>
    handle_dlnastransport m i nas s2 = (True, s3, [Sx_Rrc_Write_Dl_Info k (buffer nas)]) \<and>
    omap_get (sx_ue_ctxt_map s3) k = Some (ue_ctxt_zero\<lparr>xt_MME_UE_S1AP_ID := m\<rparr>)"
proof -
  let ?s1 = "touch_ctxt k (put_ctxt k (c\<lparr>xt_release_requested := True\<rparr>) s)"
  let ?s2 = "?s1\<lparr>sx_ue_ctxt_map := omap_del k (sx_ue_ctxt_map ?s1)\<rparr>"
  let ?s3 = "put_ctxt k (ue_ctxt_zero\<lparr>xt_MME_UE_S1AP_ID := m\<rparr>) ?s2"
  have c: "ctxt s k = Some c" "rnti_of s i = Some k" using assms(1,3) by (simp_all add: ctxt_def rnti_of_def)
  have d: "handle_dlnastransport m i nas s' = (case rnti_of s' i of None \<Rightarrow> (False, s', [])
      | Some rnti \<Rightarrow> (True, put_ctxt rnti ((ue_ctxt_at rnti s')\<lparr>xt_MME_UE_S1AP_ID := m\<rparr>) s', [Sx_Rrc_Write_Dl_Info rnti (buffer nas)]))" for s'
    by (simp add: handle_dlnastransport_def rnti_of_def)
  have t: "ctxt ?s1 k = Some (c\<lparr>xt_release_requested := True\<rparr>)" "rnti_of ?s1 = rnti_of s"
    by (simp_all add: touch_ctxt_def ctxt_at)
  have "user_release True k cause s = (True, ?s1, [Sctp_Send (xt_stream_id c)
        (Ue_Context_Release_Request (xt_MME_UE_S1AP_ID c) (xt_eNB_UE_S1AP_ID c) cause)])"
    using c assms(2,4) by (simp add: user_release_def exists_ctxt ctxt_at send_uectxtreleaserequest_def Let_def)
  moreover have "user_release True k cause' ?s1 = (False, ?s2, [Sx_Rrc_Release_Complete k])"
    using t(1) by (simp add: user_release_def exists_ctxt ctxt_at Let_def)
  moreover have "\<not> user_exists k ?s2" by (simp add: exists_ctxt)
  moreover have "handle_dlnastransport m i nas ?s2 = (True, ?s3, [Sx_Rrc_Write_Dl_Info k (buffer nas)])"
    using t(2) c(2) by (simp add: d ctxt_at)
  moreover have "omap_get (sx_ue_ctxt_map ?s3) k = Some (ue_ctxt_zero\<lparr>xt_MME_UE_S1AP_ID := m\<rparr>)"
    by (simp add: put_ctxt_def om.look_put)
  ultimately show ?thesis by blast
qed

section \<open>Witnesses\<close>

text \<open>A codec that knows the response to the setup (1), a downlink message (2) and two release commands (3, 4).\<close>

definition demo_s1ap_lib :: s1ap_lib where
  "demo_s1ap_lib = \<lparr>mccmnc_to_plmn = (\<lambda>mcc mnc. 0xF110), liblte_unpack = (\<lambda>bs. replicate (8 * length bs) 0),
     MACROENB_ID_BIT_STRING_LEN = 20,
     unpack_s1ap_pdu = (\<lambda>b. case bb_msg b of [] \<Rightarrow> None
       | x # nas \<Rightarrow> if x = 1 then Some (Successful_Outcome (Some []))
                   else if x = 2 then Some (Initiating_Message (Downlink_Nas_Transport 7 1 nas))
                   else if x = 3 then Some (Initiating_Message (Ue_Context_Release_Command (Id_Pair 7 1)))
                   else if x = 4 then Some (Initiating_Message (Ue_Context_Release_Command (Id_Mme 7))) else None),
     bit_pack = (\<lambda>bs n. of_nat n), s1ap_uint32_to_uint8 = (\<lambda>w. [ucast w])\<rparr>"

definition demo_args :: s1ap_args where
  "demo_args = \<lparr>ag_enb_id = 0x19B, ag_cell_id = 1, ag_tac = 7, ag_mcc = 1, ag_mnc = 1, ag_gtp_bind_addr = [127, 0, 0, 1],
     ag_enb_name = ''enb''\<rparr>"

definition demo_s1ap :: s1ap where
  "demo_s1ap = \<lparr>sx_args = demo_args, sx_mme_connected = False, sx_running = False, sx_socket_fd = 0,
     sx_next_eNB_UE_S1AP_ID = 0, sx_next_ue_stream_id = 0, sx_tai = \<lparr>ti_pLMNidentity = [], ti_tAC = []\<rparr>,
     sx_eutran_cgi = \<lparr>cg_pLMNidentity = [], cg_cell_ID = []\<rparr>, sx_s1setupresponse = [], sx_ue_ctxt_map = [],
     sx_enbid_to_rnti_map = []\<rparr>"

definition demo_xs :: "(bool \<times> bool \<times> s1ap_op) list" where
  "demo_xs = [(True, True, So_Rx 1 [1]), (True, True, So_Initial_Ue 70 3 (buffer [5]) None)]"

lemma demo_initials: "initials demo_xs = 1" "sx_ue_ctxt_map demo_s1ap = []" "sx_enbid_to_rnti_map demo_s1ap = []"
  by (simp_all add: initials_def demo_xs_def is_initial_def demo_s1ap_def)

text \<open>After the response to the setup and the first message of user 70.\<close>

lemma demo_run:
  "sx_ue_ctxt_map (fst (s1ap_run_ops demo_s1ap_lib demo_xs (s1ap_start demo_s1ap_lib demo_args demo_s1ap))) =
     [(70, \<lparr>xt_rnti = 0, xt_eNB_UE_S1AP_ID = 1, xt_MME_UE_S1AP_ID = 0, xt_release_requested = False, xt_stream_id = 1\<rparr>)]"
  "sx_enbid_to_rnti_map (fst (s1ap_run_ops demo_s1ap_lib demo_xs (s1ap_start demo_s1ap_lib demo_args demo_s1ap))) = [(1, 70)]"
  "sx_mme_connected (fst (s1ap_run_ops demo_s1ap_lib demo_xs (s1ap_start demo_s1ap_lib demo_args demo_s1ap)))"
  "sx_next_eNB_UE_S1AP_ID (fst (s1ap_run_ops demo_s1ap_lib demo_xs (s1ap_start demo_s1ap_lib demo_args demo_s1ap))) = 2"
  by code_simp+


theorem nas_identity_roundtrip_witness:
  "\<exists>u v tai cgi. handle_dlnastransport 9 2 [8] u = (True, v, [Sx_Rrc_Write_Dl_Info 71 (buffer [8])]) \<and>
     snd (s1ap_write_pdu True 71 (buffer [6]) v) = [Sctp_Send 1 (Uplink_Nas_Transport 9 2 [6] tai cgi)]"
proof -
  let ?t = "fst (s1ap_run_ops demo_s1ap_lib demo_xs (s1ap_start demo_s1ap_lib demo_args demo_s1ap))"
  let ?ys = "[(True, True, So_Rx 2 [2, 4]), (True, True, So_Rx 1 [4]), (True, True, So_Rx 1 [3]),
    (True, True, So_User_Release 70 1)]"
  let ?u = "fst (s1ap_run_ops demo_s1ap_lib ?ys (fst (initial_ue demo_s1ap_lib True 71 3 (buffer [5]) None ?t)))"
  have i: "initials demo_xs + Suc (initials ?ys) < 2 ^ 32 - 1"
    unfolding demo_initials by (simp add: initials_def is_initial_def)
  have "\<exists>v tai cgi. handle_dlnastransport 9 (sx_next_eNB_UE_S1AP_ID ?t) [8] ?u = (True, v, [Sx_Rrc_Write_Dl_Info 71 (buffer [8])]) \<and>
      snd (s1ap_write_pdu True 71 (buffer [6]) v) =
        [Sctp_Send 1 (Uplink_Nas_Transport 9 (sx_next_eNB_UE_S1AP_ID ?t)
           (take (unat (bb_n_bytes (buffer [6]))) (bb_msg (buffer [6]))) tai cgi)]"
  proof (rule nas_identity_roundtrip[OF demo_initials(2,3) i, THEN conjunct2])
    show "sx_mme_connected ?u" by code_simp
    show "all_spare demo_s1ap_lib 71 (sx_next_eNB_UE_S1AP_ID ?t) ?ys
        (fst (initial_ue demo_s1ap_lib True 71 3 (buffer [5]) None ?t))" by code_simp
  qed (simp_all add: demo_run)
  then show ?thesis by (auto simp: demo_run(4) buffer_def)
qed

theorem release_command_ends_user_witness:
  "\<exists>s'. handle_uectxtreleasecommand True (Id_Pair 7 1)
      (fst (s1ap_run_ops demo_s1ap_lib demo_xs (s1ap_start demo_s1ap_lib demo_args demo_s1ap))) =
    (True, s', [Sx_Rrc_Release_Erabs 70, Sctp_Send 1 (Ue_Context_Release_Complete 0 1), Sx_Rrc_Release_Complete 70]) \<and>
    \<not> user_exists 70 s'"
proof -
  define t where "t = fst (s1ap_run_ops demo_s1ap_lib demo_xs (s1ap_start demo_s1ap_lib demo_args demo_s1ap))"
  let ?c = "\<lparr>xt_rnti = 0, xt_eNB_UE_S1AP_ID = 1, xt_MME_UE_S1AP_ID = 0, xt_release_requested = False, xt_stream_id = 1\<rparr>"
  have t: "omap_get (sx_enbid_to_rnti_map t) 1 = Some 70" "omap_get (sx_ue_ctxt_map t) 70 = Some ?c" "sx_mme_connected t"
    unfolding t_def by (simp_all add: demo_run)
  show ?thesis unfolding t_def[symmetric] using release_command_ends_user[OF t, of 7] by fastforce
qed

theorem release_by_mme_identity_fails_witness:
  "\<exists>t'. handle_uectxtreleasecommand True (Id_Mme 0)
      (fst (s1ap_run_ops demo_s1ap_lib demo_xs (s1ap_start demo_s1ap_lib demo_args demo_s1ap))) = (False, t', []) \<and>
    user_exists 70 t' \<and> handle_dlnastransport 7 1 [] t' = (False, t', [])"
proof -
  let ?t = "fst (s1ap_run_ops demo_s1ap_lib demo_xs (s1ap_start demo_s1ap_lib demo_args demo_s1ap))"
  have i: "initials demo_xs < 2 ^ 32 - 1" unfolding demo_initials by simp
  have "\<exists>t'. handle_uectxtreleasecommand True (Id_Mme 0) ?t = (False, t', []) \<and>
    sx_ue_ctxt_map t' = sx_ue_ctxt_map ?t \<and> handle_dlnastransport 7 1 [] t' = (False, t', [])"
    by (rule release_by_mme_identity_fails[OF demo_initials(2,3) i]) (simp_all add: demo_run)
  then show ?thesis by (auto simp: user_exists_def demo_run)
qed

theorem zombie_release_leaves_identity_witness:
  "\<exists>s2 s3. \<not> user_exists 70 s2 \<and> handle_dlnastransport 7 1 [2] s2 = (True, s3, [Sx_Rrc_Write_Dl_Info 70 (buffer [2])]) \<and>
     omap_get (sx_ue_ctxt_map s3) 70 = Some (ue_ctxt_zero\<lparr>xt_MME_UE_S1AP_ID := 7\<rparr>)"
proof -
  define t where "t = fst (s1ap_run_ops demo_s1ap_lib demo_xs (s1ap_start demo_s1ap_lib demo_args demo_s1ap))"
  let ?c = "\<lparr>xt_rnti = 0, xt_eNB_UE_S1AP_ID = 1, xt_MME_UE_S1AP_ID = 0, xt_release_requested = False, xt_stream_id = 1\<rparr>"
  have t: "omap_get (sx_enbid_to_rnti_map t) 1 = Some 70" "omap_get (sx_ue_ctxt_map t) 70 = Some ?c" "sx_mme_connected t"
    unfolding t_def by (simp_all add: demo_run)
  have r: "\<not> xt_release_requested ?c" by simp
  show ?thesis using zombie_release_leaves_identity[OF t(2) r t(1,3), of 0 0 7 "[2]"] by blast
qed

end
