(* ===== verification/Phy_Types.thy ===== *)
theory Phy_Types
  imports Mac_Rounds Rrc_Types
begin

text \<open>
  The data of the physical layer (\<open>phy/phch_common.h\<close>, \<open>phy/phch_worker.h\<close>): what the workers share, the
  state of one worker with its users, and the calls they make. The signal processing is the library's:
  a received subframe is what decoding it returns (\<open>rx_signal\<close>), and what is put into the subframe to
  send is the list of the calls of the encoder in their order. A float the code compares, adds or
  divides is a rational.
\<close>

section \<open>What the code takes from the library\<close>

text \<open>Modulations in the order of the library's enumeration.\<close>

datatype modulation = MOD_BPSK | MOD_QPSK | MOD_16QAM | MOD_64QAM | MOD_LAST

text \<open>The grant the library computes from uplink control information.\<close>

record ul_phy_grant =
  ug_mcs_idx :: u32
  ug_mcs_tbs :: int
  ug_mod :: modulation
  ug_Qm :: u32
  ug_ncs_dmrs :: u32

text \<open>Uplink control information: lengths and values of acknowledgements, quality and rank reports.\<close>

record uci_data =
  uc_scheduling_request :: bool
  uc_ack :: bool
  uc_ack_2 :: bool
  uc_ack_len :: u32
  uc_cqi :: "u8 list"
  uc_cqi_len :: u32
  uc_ri :: u8
  uc_ri_len :: u32
  uc_ri_periodic_report :: bool

definition uci_zero :: uci_data where
  "uci_zero = \<lparr>uc_scheduling_request = False, uc_ack = False, uc_ack_2 = False, uc_ack_len = 0, uc_cqi = [],
     uc_cqi_len = 0, uc_ri = 0, uc_ri_len = 0, uc_ri_periodic_report = False\<rparr>"

text \<open>
  A report of channel quality: wideband, or of the subbands the network configured. Of the union the
  two members the code uses are given side by side.
\<close>

datatype cqi_type = CQI_WIDEBAND | CQI_SUBBAND_HL

record cqi_value =
  cv_type :: cqi_type
  cv_wb_cqi :: u32
  cv_wb_pmi_present :: bool
  cv_wb_pmi :: u32
  cv_wb_rank_is_not_one :: bool
  cv_hl_cqi_cw0 :: u32
  cv_hl_pmi_present :: bool
  cv_hl_pmi :: u32
  cv_hl_rank_is_not_one :: bool
  cv_hl_ri_present :: bool
  cv_hl_N :: u32
  cv_hl_four_antenna_ports :: bool

definition cqi_value_zero :: cqi_value where
  "cqi_value_zero = \<lparr>cv_type = CQI_WIDEBAND, cv_wb_cqi = 0, cv_wb_pmi_present = False, cv_wb_pmi = 0,
     cv_wb_rank_is_not_one = False, cv_hl_cqi_cw0 = 0, cv_hl_pmi_present = False, cv_hl_pmi = 0,
     cv_hl_rank_is_not_one = False, cv_hl_ri_present = False, cv_hl_N = 0, cv_hl_four_antenna_ports = False\<rparr>"

text \<open>The grant the library computes from downlink control information, as far as the code reads it.\<close>

record dl_phy_grant =
  pg_tb_en :: "nat \<Rightarrow> bool"
  pg_nof_tb :: u32
  pg_pinfo :: u32
  pg_mcs_idx :: u32

datatype mimo_type = MIMO_SINGLE_ANTENNA | MIMO_TX_DIVERSITY | MIMO_CDD | MIMO_SPATIAL_MULTIPLEX

record phy_lib =
  TTIMOD_SZ :: nat
  TTI_RX :: "u32 \<Rightarrow> u32"
  TTI_RX_ACK :: "u32 \<Rightarrow> u32"
  SRSLTE_CRNTI_START :: u16
  SRSLTE_CRNTI_END :: u16
  ri_send :: "u32 \<Rightarrow> u32 \<Rightarrow> u32 \<Rightarrow> bool"
  cqi_hl_get_no_subbands :: "u32 \<Rightarrow> u32"
  cqi_size :: "cqi_value \<Rightarrow> u32"
  cqi_value_unpack :: "u8 list \<Rightarrow> cqi_value \<Rightarrow> cqi_value"
  mod_bits_x_symbol :: "modulation \<Rightarrow> u32"
  ra_ul_dci_to_grant :: "ul_dci \<Rightarrow> u32 \<Rightarrow> u32 \<Rightarrow> ul_phy_grant option"
  ra_dl_dci_to_grant :: "dl_dci \<Rightarrow> u32 \<Rightarrow> u16 \<Rightarrow> dl_phy_grant"
  pdsch_config_p_a_num :: "rat list"
  cell_specific_ratio_table :: "rat list list"
  generate_mch_table :: "u32 \<Rightarrow> u8 \<Rightarrow> u8 list"
  generate_mcch_table :: "u32 \<Rightarrow> u8 list"
  mcch_repetition_period_num :: "nat \<Rightarrow> u32"
  radio_frame_allocation_period_num :: "nat \<Rightarrow> u32"
  non_mbsfn_region_length_num :: "nat \<Rightarrow> u32"
  mcch_signalling_mcs_num :: "nat \<Rightarrow> u32"

definition TTIMOD :: "phy_lib \<Rightarrow> u32 \<Rightarrow> u32" where
  "TTIMOD H t = t mod of_nat (TTIMOD_SZ H)"

text \<open>
  The documented arithmetic on TTIs: \<open>TTI_RX\<close> goes back and \<open>TTI_RX_ACK\<close> forward by one and two delays in
  the cycle of 10240, and the slots of the shared tables divide the cycle and are more than a round trip.
\<close>

definition phy_tti_laws :: "srslte \<Rightarrow> phy_lib \<Rightarrow> bool" where
  "phy_tti_laws E H \<longleftrightarrow>
     (\<forall>t. t < 10240 \<longrightarrow> TTI_RX H t = (t + 10240 - of_nat (HARQ_DELAY_MS E)) mod 10240) \<and>
     (\<forall>t. TTI_RX_ACK H t = (t + of_nat (2 * HARQ_DELAY_MS E)) mod 10240) \<and>
     0 < TTIMOD_SZ H \<and> TTIMOD_SZ H dvd 10240 \<and> 2 * HARQ_DELAY_MS E < TTIMOD_SZ H \<and>
     0 < HARQ_DELAY_MS E \<and> 2 * HARQ_DELAY_MS E dvd 10240"

text \<open>\<open>SRSLTE_VEC_CMA\<close>: the mean of \<open>n + 1\<close> values from the mean of \<open>n\<close>.\<close>

definition vec_cma_rat :: "rat \<Rightarrow> rat \<Rightarrow> int \<Rightarrow> rat" where
  "vec_cma_rat x avg n = avg + (x - avg) / of_int (n + 1)"

section \<open>What the workers share\<close>

text \<open>The downlink grants are an array of which the first \<open>dg_nof_grants\<close> count; what is not listed is zero.\<close>

record dl_sched_grants =
  dg_cfi :: u32
  dg_nof_grants :: nat
  dg_sched_grants :: "mac_dl_grant list"

record ul_sched_grants =
  ulg_grants :: "mac_ul_grant list"
  ulg_phich :: "(bool \<times> u16) list"

text \<open>The pending acknowledgements of a user per subframe and block, and what it last sent per uplink process.\<close>

record common_ue =
  cu_is_pending :: "bool list list"
  cu_n_pdcch :: "u16 list"
  cu_ri :: u8
  cu_last_ul_tbs :: "int list"
  cu_last_ul_mod :: "modulation list"

definition common_ue_zero :: "srslte \<Rightarrow> phy_lib \<Rightarrow> common_ue" where
  "common_ue_zero E H = \<lparr>cu_is_pending = replicate (TTIMOD_SZ H) (replicate (SRSLTE_MAX_TB E) False),
     cu_n_pdcch = replicate (TTIMOD_SZ H) 0, cu_ri = 0,
     cu_last_ul_tbs = replicate (2 * HARQ_DELAY_MS E) 0,
     cu_last_ul_mod = replicate (2 * HARQ_DELAY_MS E) MOD_BPSK\<rparr>"

datatype subframe_type = SUBFRAME_TYPE_REGULAR | SUBFRAME_TYPE_MBSFN

record subframe_cfg =
  sfc_sf_type :: subframe_type
  sfc_mbsfn_area_id :: u8
  sfc_non_mbsfn_region_length :: u8
  sfc_mbsfn_mcs :: u8
  sfc_mbsfn_encode :: bool
  sfc_is_mcch :: bool

text \<open>The configuration of multicast subframes: an enumeration is its number, the allocation of subframes a mask.\<close>

datatype num_frames = NUM_FRAMES_ONE | NUM_FRAMES_FOUR

record phy_cfg_mbsfn =
  mb_radio_fr_alloc_period :: nat
  mb_radio_fr_alloc_offset :: u8
  mb_subfr_alloc_num_frames :: num_frames
  mb_subfr_alloc :: u32
  mb_area_id :: u8
  mb_non_mbsfn_region_length :: nat
  mb_mcch_repetition_period :: nat
  mb_mcch_offset :: u8
  mb_sf_alloc_info :: u32
  mb_signalling_mcs :: nat
  mb_pmch_datamcs :: "u8 list"

text \<open>The configuration of the uplink channels.\<close>

record dmrs_pusch_cfg =
  dm_cyclic_shift :: u32
  dm_delta_ss :: u32
  dm_group_hopping_en :: bool
  dm_sequence_hopping_en :: bool

datatype hop_mode = HOP_MODE_INTER_SF | HOP_MODE_INTRA_SF

record pusch_hopping_cfg =
  hp_hop_mode :: hop_mode
  hp_n_sb :: u32
  hp_hopping_offset :: u32

text \<open>\<open>pc_tx_sem\<close> has the values of the semaphores.\<close>

record phch_common =
  pc_cell :: srslte_cell
  pc_pusch_cfg :: dmrs_pusch_cfg
  pc_hopping_cfg :: pusch_hopping_cfg
  pc_pucch_cfg :: pucch_cfg
  pc_pdsch_p_b :: u8
  pc_ul_grants :: "ul_sched_grants list"
  pc_dl_grants :: "dl_sched_grants list"
  pc_common_ue_db :: "(u16, common_ue) omap"
  pc_tx_sem :: "nat list"
  pc_is_first_tx :: bool
  pc_is_first_of_burst :: bool
  pc_nof_workers :: u32
  pc_max_workers :: u32
  pc_mbsfn :: phy_cfg_mbsfn
  pc_sib13_configured :: bool
  pc_mcch_configured :: bool
  pc_mch_table :: "u8 list"
  pc_mcch_table :: "u8 list"

section \<open>A worker\<close>

record phy_metrics =
  pm_dl_mcs :: rat
  pm_dl_n_samples :: int
  pm_ul_mcs :: rat
  pm_ul_n :: rat
  pm_ul_sinr :: rat
  pm_ul_rssi :: rat
  pm_ul_turbo_iters :: rat
  pm_ul_n_samples :: int

definition phy_metrics_zero :: phy_metrics where
  "phy_metrics_zero = \<lparr>pm_dl_mcs = 0, pm_dl_n_samples = 0, pm_ul_mcs = 0, pm_ul_n = 0, pm_ul_sinr = 0, pm_ul_rssi = 0,
     pm_ul_turbo_iters = 0, pm_ul_n_samples = 0\<rparr>"

text \<open>
  Of the dedicated configuration of a user the members the worker reads: \<open>wu_antenna_info_present\<close> and
  \<open>wu_aperiodic_rm31\<close> are read but never written.
\<close>

record worker_ue =
  wu_I_sr :: u32
  wu_pmi_idx :: u32
  wu_ri_idx :: u32
  wu_I_sr_en :: bool
  wu_cqi_en :: bool
  wu_ri_en :: bool
  wu_pucch_cqi_ack :: bool
  wu_has_grant_tti :: int
  wu_antenna_info_present :: bool
  wu_tx_mode :: tx_mode
  wu_aperiodic_rm31 :: bool
  wu_pdsch_present :: bool
  wu_pdsch_cnfg_ded :: nat
  wu_dedicated_ack :: bool
  wu_rnti :: u32
  wu_phich_n_prb_lowest :: u32
  wu_phich_n_dmrs :: u32
  wu_metrics :: phy_metrics

definition worker_ue_new :: worker_ue where
  "worker_ue_new = \<lparr>wu_I_sr = 0, wu_pmi_idx = 0, wu_ri_idx = 0, wu_I_sr_en = False, wu_cqi_en = False,
     wu_ri_en = False, wu_pucch_cqi_ack = False, wu_has_grant_tti = 0, wu_antenna_info_present = False,
     wu_tx_mode = TM1, wu_aperiodic_rm31 = False, wu_pdsch_present = False,
     wu_pdsch_cnfg_ded = 0, wu_dedicated_ack = False, wu_rnti = 0, wu_phich_n_prb_lowest = 0,
     wu_phich_n_dmrs = 0, wu_metrics = phy_metrics_zero\<rparr>"

record phch_worker =
  wk_initiated :: bool
  wk_running :: bool
  wk_tti_rx :: u32
  wk_tti_tx_dl :: u32
  wk_tti_tx_ul :: u32
  wk_sf_rx :: u32
  wk_sf_tx :: u32
  wk_t_rx :: u32
  wk_t_tx_dl :: u32
  wk_t_tx_ul :: u32
  wk_tx_worker_cnt :: u32
  wk_tx_time :: int
  wk_ue_db :: "(u16, worker_ue) omap"
  wk_is_worker_running :: bool

section \<open>Calls\<close>

text \<open>
  \<open>Put_Power\<close> carries what the two factors are computed from: the power of the user relative to the
  reference signals in dB, and the ratio whose root is the other factor.
\<close>

datatype mac_ind =
    Mac_Rl_Failure u16
  | Mac_Rl_Ok u16
  | Mac_Crc_Info u32 u16 u32 bool
  | Mac_Ack_Info u32 u16 nat bool
  | Mac_Snr_Info u32 u16 rat
  | Mac_Cqi_Info u32 u16 u32
  | Mac_Ri_Info u32 u16 u8
  | Mac_Pmi_Info u32 u16 u32
  | Mac_Sr_Detected u32 u16
  | Mac_Get_Dl_Sched u32
  | Mac_Get_Mch_Sched bool
  | Mac_Get_Ul_Sched u32
  | Mac_Tti_Clock
  | Mac_Rach_Detected u32 u32 u32

datatype rnti_call = Enb_Dl_Add_Rnti u16 | Enb_Ul_Add_Rnti u16 | Enb_Dl_Rem_Rnti u16 | Enb_Ul_Rem_Rnti u16
  | Enb_Ul_Cfg_Ue u16 blob u32 u32 u32

datatype enb_out =
    Set_Non_Mbsfn_Region u8
  | Clear_Sf
  | Set_Cfi u32
  | Put_Base u32
  | Put_Mbsfn_Base u32
  | Put_Pdcch_Dl dl_dci dci_format dci_location u16 u32
  | Put_Pdcch_Ul ul_dci dci_location u16 u32
  | Put_Phich bool u32 u32 u32
  | Prepare_Power
  | Put_Power "rat option" "rat option"
  | Put_Pdsch dl_phy_grant "nat \<Rightarrow> softbuffer option" u16 "int \<times> int" u32 "nat \<Rightarrow> data_ptr" mimo_type
  | Apply_Power
  | Put_Pmch u8 u32 u32 data_ptr
  | Gen_Signal
  | Gen_Signal_Mbsfn

datatype phy_call =
    To_Mac mac_ind
  | To_Rntis rnti_call
  | Ul_Fft
  | To_Enb enb_out
  | Worker_End u32 int
  | Radio_Set_Tti u32
  | Radio_Tx u32

text \<open>
  What decoding the received subframe returns. For a data channel: the value of the decoder, the control
  information and quality report it wrote, the lowest resource block, the signal to noise ratio in dB
  and the iterations of the decoder; for a control channel: whether it fails, the control information
  and the correlation.
\<close>

record rx_signal =
  rx_pusch :: "ul_phy_grant \<Rightarrow> softbuffer \<Rightarrow> u16 \<Rightarrow> u32 \<Rightarrow> u32 \<Rightarrow> nat option \<Rightarrow> cqi_value option \<Rightarrow> uci_data \<Rightarrow> u32 \<Rightarrow>
     int \<times> uci_data \<times> cqi_value \<times> u32 \<times> rat \<times> u32"
  rx_pucch :: "u16 \<Rightarrow> u32 \<Rightarrow> u32 \<Rightarrow> uci_data \<Rightarrow> bool \<times> uci_data \<times> rat"

end
