(* ===== verification/Prach_Worker.thy ===== *)
theory Prach_Worker
  imports Phy_Types
begin

text \<open>
  The detection of random access preambles (\<open>phy/prach_worker.cc\<close>): the receiving thread copies the
  subframes of a preamble into a buffer and queues it, the worker's thread searches the buffer and
  tells the MAC. The detector is the library's; a sample is of type \<open>'x\<close>, an offset in seconds a
  rational that is not negative. The samples of a buffer are those that were ever written to it.
\<close>

record 'x sf_buffer =
  sb_samples :: "'x list"
  sb_nof_samples :: u32
  sb_tti :: u32

definition sf_buffer_sz :: u32 where
  "sf_buffer_sz = 128 * 1024"

definition sf_buffer_new :: "'x sf_buffer" where
  "sf_buffer_new = \<lparr>sb_samples = [], sb_nof_samples = 0, sb_tti = 0\<rparr>"

definition sf_buffer_reset :: "'x sf_buffer \<Rightarrow> 'x sf_buffer" where
  "sf_buffer_reset b = b\<lparr>sb_nof_samples := 0, sb_tti := 0\<rparr>"

record prach_cfg =
  pf_config_idx :: u32
  pf_hs_flag :: bool
  pf_root_seq_idx :: u32
  pf_zero_corr_zone :: u32
  pf_freq_offset :: u32

text \<open>
  The library's detector: whether a TTI may carry a preamble, the length of a preamble in milliseconds,
  rounded up, the length of its prefix in samples, and what it finds: an index and an offset each.
\<close>

record 'x prach_lib =
  SF_LEN_PRB :: "u32 \<Rightarrow> u32"
  prach_init_cfg_fails :: "prach_cfg \<Rightarrow> u32 \<Rightarrow> bool"
  prach_tti_opportunity :: "prach_cfg \<Rightarrow> u32 \<Rightarrow> bool"
  prach_nof_sf :: "prach_cfg \<Rightarrow> u32"
  prach_N_cp :: "prach_cfg \<Rightarrow> nat"
  prach_detect_offset :: "prach_cfg \<Rightarrow> 'x list \<Rightarrow> (u32 \<times> rat) list option"

text \<open>
  Buffers are in the pool, current, queued or with the thread; the queue may have the null pointer that
  \<open>stop\<close> puts there. Once a buffer is queued the pointer to it is not used before it is set again, so
  there is no current buffer then.
\<close>

record 'x prach_worker =
  pw_cell :: srslte_cell
  pw_cfg :: prach_cfg
  pw_buffer_pool :: "'x sf_buffer list"
  pw_pending_buffers :: "'x sf_buffer option list"
  pw_current_buffer :: "'x sf_buffer option"
  pw_max_prach_offset_us :: rat
  pw_initiated :: bool
  pw_running :: bool
  pw_nof_sf :: u32
  pw_sf_cnt :: u32

definition prach_worker_new :: "'x prach_worker" where
  "prach_worker_new = \<lparr>pw_cell = cell_zero,
     pw_cfg = \<lparr>pf_config_idx = 0, pf_hs_flag = False, pf_root_seq_idx = 0, pf_zero_corr_zone = 0, pf_freq_offset = 0\<rparr>,
     pw_buffer_pool = replicate 8 sf_buffer_new, pw_pending_buffers = [], pw_current_buffer = None,
     pw_max_prach_offset_us = 0, pw_initiated = False, pw_running = False, pw_nof_sf = 0, pw_sf_cnt = 0\<rparr>"

definition prach_init ::
  "'x prach_lib \<Rightarrow> srslte_cell \<Rightarrow> prach_cfg \<Rightarrow> 'x prach_worker \<Rightarrow> int \<times> 'x prach_worker" where
  "prach_init Q cell cfg p =
     (let p = p\<lparr>pw_cfg := cfg, pw_cell := cell, pw_max_prach_offset_us := 50\<rparr> in
      if prach_init_cfg_fails Q cfg (cl_nof_prb cell) then (-1, p)
      else (0, p\<lparr>pw_nof_sf := prach_nof_sf Q cfg, pw_running := True, pw_initiated := True, pw_sf_cnt := 0\<rparr>))"

definition prach_stop :: "'x prach_worker \<Rightarrow> 'x prach_worker" where
  "prach_stop p = p\<lparr>pw_running := False, pw_pending_buffers := pw_pending_buffers p @ [None]\<rparr>"

definition set_max_prach_offset_us :: "rat \<Rightarrow> 'x prach_worker \<Rightarrow> 'x prach_worker" where
  "set_max_prach_offset_us d p = p\<lparr>pw_max_prach_offset_us := d\<rparr>"

section \<open>Receiving\<close>

definition write_samples :: "nat \<Rightarrow> 'x list \<Rightarrow> 'x list \<Rightarrow> 'x list" where
  "write_samples off chunk xs = take off xs @ chunk @ drop (off + length chunk) xs"

text \<open>\<open>rx\<close> has the samples of the subframe. Without a free buffer a preamble is skipped.\<close>

definition prach_store ::
  "'x prach_lib \<Rightarrow> u32 \<Rightarrow> 'x list \<Rightarrow> 'x sf_buffer \<Rightarrow> 'x prach_worker \<Rightarrow> int \<times> 'x prach_worker" where
  "prach_store Q tti_rx rx b p =
     (let len = SF_LEN_PRB Q (cl_nof_prb (pw_cell p)); cnt = pw_sf_cnt p in
      if sb_nof_samples b + len < sf_buffer_sz then
        let b = b\<lparr>sb_samples := write_samples (unat (cnt * len)) (take (unat len) rx) (sb_samples b),
                  sb_nof_samples := sb_nof_samples b + len\<rparr>;
            b = (if cnt = 0 then b\<lparr>sb_tti := tti_rx\<rparr> else b)
        in (0, if cnt + 1 = pw_nof_sf p
               then p\<lparr>pw_sf_cnt := 0, pw_current_buffer := None, pw_pending_buffers := pw_pending_buffers p @ [Some b]\<rparr>
               else p\<lparr>pw_sf_cnt := cnt + 1, pw_current_buffer := Some b\<rparr>)
      else (-1, p\<lparr>pw_current_buffer := Some b\<rparr>))"

definition prach_new_tti ::
  "'x prach_lib \<Rightarrow> u32 \<Rightarrow> 'x list \<Rightarrow> 'x prach_worker \<Rightarrow> int \<times> 'x prach_worker" where
  "prach_new_tti Q tti_rx rx p =
     (if prach_tti_opportunity Q (pw_cfg p) tti_rx \<or> pw_sf_cnt p \<noteq> 0 then
        if pw_sf_cnt p = 0 then
          case pw_buffer_pool p of
            [] \<Rightarrow> (0, p\<lparr>pw_current_buffer := None\<rparr>)
          | b # pool \<Rightarrow> prach_store Q tti_rx rx b (p\<lparr>pw_buffer_pool := pool\<rparr>)
        else
          case pw_current_buffer p of
            None \<Rightarrow> (-1, p)
          | Some b \<Rightarrow> prach_store Q tti_rx rx b p
      else (0, p))"

section \<open>Detecting\<close>

definition prach_reports :: "rat \<Rightarrow> u32 \<Rightarrow> (u32 \<times> rat) list \<Rightarrow> phy_call list" where
  "prach_reports max_us tti dets =
     map (\<lambda>(idx, offset). To_Mac (Mac_Rach_Detected tti idx (of_i32 \<lfloor>offset * 1000000\<rfloor>)))
       (filter (\<lambda>(idx, offset). offset * 1000000 < max_us) dets)"

definition prach_run_tti :: "'x prach_lib \<Rightarrow> 'x sf_buffer \<Rightarrow> 'x prach_worker \<Rightarrow> int \<times> phy_call list" where
  "prach_run_tti Q b p =
     (if prach_tti_opportunity Q (pw_cfg p) (sb_tti b) then
        let n = unat (pw_nof_sf p * SF_LEN_PRB Q (cl_nof_prb (pw_cell p))); cp = prach_N_cp Q (pw_cfg p)
        in case prach_detect_offset Q (pw_cfg p) (drop cp (take n (sb_samples b))) of
             None \<Rightarrow> (-1, [])
           | Some dets \<Rightarrow> (0, prach_reports (pw_max_prach_offset_us p) (sb_tti b) dets)
      else (0, []))"

text \<open>One round of the thread; it has none while the queue is empty. An error of the detector ends the thread.\<close>

definition prach_thread_step :: "'x prach_lib \<Rightarrow> 'x prach_worker \<Rightarrow> ('x prach_worker \<times> phy_call list) option" where
  "prach_thread_step Q p =
     (case pw_pending_buffers p of
        [] \<Rightarrow> None
      | e # q \<Rightarrow>
          let p = p\<lparr>pw_pending_buffers := q\<rparr> in
          case e of
            None \<Rightarrow> Some (p, [])
          | Some b \<Rightarrow>
              if pw_running p then
                let (ret, cs) = prach_run_tti Q b p
                in Some (p\<lparr>pw_buffer_pool := sf_buffer_reset b # pw_buffer_pool p,
                           pw_running := (ret = 0)\<rparr>, cs)
              else Some (p, []))"

end
