(* ===== verification/Prach_Props.thy ===== *)
theory Prach_Props
  imports Prach_Worker
begin

text \<open>
  A preamble on its way: the subframes from an opportunity on are collected in one buffer, whatever the
  buffer held before, and the detector is asked about their samples.
\<close>

section \<open>Collecting\<close>

definition sf_len :: "'x prach_lib \<Rightarrow> 'x prach_worker \<Rightarrow> nat" where
  "sf_len Q p = unat (SF_LEN_PRB Q (cl_nof_prb (pw_cell p)))"

lemma sf_len_updates [simp]:
  "sf_len Q (p\<lparr>pw_sf_cnt := n\<rparr>) = sf_len Q p" "sf_len Q (p\<lparr>pw_current_buffer := c\<rparr>) = sf_len Q p"
  "sf_len Q (p\<lparr>pw_buffer_pool := bs\<rparr>) = sf_len Q p"
  by (simp_all add: sf_len_def)

definition feed :: "'x prach_lib \<Rightarrow> (u32 \<times> 'x list) list \<Rightarrow> 'x prach_worker \<Rightarrow> 'x prach_worker" where
  "feed Q xs p = fold (\<lambda>(tti, rx) p. snd (prach_new_tti Q tti rx p)) xs p"

text \<open>After \<open>j\<close> subframes the buffer holds their samples.\<close>

definition holds :: "nat \<Rightarrow> nat \<Rightarrow> 'x list \<Rightarrow> 'x sf_buffer \<Rightarrow> bool" where
  "holds len j acc b \<longleftrightarrow> sb_nof_samples b = of_nat (j * len) \<and> take (j * len) (sb_samples b) = acc \<and> length acc = j * len"

lemma unat_small: "n < 131072 \<Longrightarrow> unat (of_nat n :: u32) = n"
  by (simp add: unat_of_nat)

lemma store_at:
  assumes "j < n" "pw_sf_cnt p = of_nat j" "pw_nof_sf p = of_nat n" "0 < sf_len Q p" "n * sf_len Q p < 131072"
    "holds (sf_len Q p) j acc b" "length rx = sf_len Q p"
  obtains b' where "prach_store Q tti rx b p = (0,
      if Suc j = n then p\<lparr>pw_sf_cnt := 0, pw_current_buffer := None, pw_pending_buffers := pw_pending_buffers p @ [Some b']\<rparr>
      else p\<lparr>pw_sf_cnt := of_nat (Suc j), pw_current_buffer := Some b'\<rparr>)"
    "holds (sf_len Q p) (Suc j) (acc @ rx) b'" "sb_tti b' = (if j = 0 then tti else sb_tti b)"
proof -
  let ?L = "sf_len Q p" and ?l = "SF_LEN_PRB Q (cl_nof_prb (pw_cell p))"
  have le: "Suc j * ?L \<le> n * ?L" using assms(1) by (intro mult_le_mono1) simp
  have n: "n < 131072" "j < 131072" using assms(1,4,5) by (cases "sf_len Q p"; simp)+
  have l: "?l = of_nat ?L" by (simp add: sf_len_def)
  have off: "unat (of_nat j * ?l) = j * ?L"
    using le assms(5) unat_small[of "j * ?L"] by (simp add: l)
  have fits: "sb_nof_samples b + ?l < sf_buffer_sz"
  proof -
    have "sb_nof_samples b + ?l = of_nat (Suc j * ?L)" using assms(6) by (simp add: holds_def l)
    moreover have "unat (of_nat (Suc j * ?L) :: u32) = Suc j * ?L" using le assms(5) by (intro unat_small) linarith
    ultimately show ?thesis using le assms(5) by (simp add: word_less_nat_alt sf_buffer_sz_def)
  qed
  let ?b = "b\<lparr>sb_samples := write_samples (j * ?L) rx (sb_samples b), sb_nof_samples := sb_nof_samples b + ?l,
      sb_tti := if j = 0 then tti else sb_tti b\<rparr>"
  have zero: "(of_nat j :: u32) = 0 \<longleftrightarrow> j = 0"
    using unat_eq_0[of "of_nat j :: u32"] unfolding unat_small[OF n(2)] by blast
  have last: "(of_nat j + 1 :: u32) = of_nat n \<longleftrightarrow> Suc j = n"
  proof -
    have u: "unat (of_nat (Suc j) :: u32) = Suc j" using assms(1) n(1) by (intro unat_small) simp
    have "(of_nat (Suc j) :: u32) = of_nat n \<longleftrightarrow> Suc j = n"
      unfolding word_unat_eq_iff u unat_small[OF n(1)] by (rule refl)
    then show ?thesis by (simp add: add.commute)
  qed
  show ?thesis
  proof (rule that[of ?b])
    have u: "unat (of_nat j * ?l) = j * ?L" "take (unat ?l) rx = rx" using off assms(7) by (simp_all add: sf_len_def)
    show "prach_store Q tti rx b p = (0,
      if Suc j = n then p\<lparr>pw_sf_cnt := 0, pw_current_buffer := None, pw_pending_buffers := pw_pending_buffers p @ [Some ?b]\<rparr>
      else p\<lparr>pw_sf_cnt := of_nat (Suc j), pw_current_buffer := Some ?b\<rparr>)"
      unfolding prach_store_def Let_def assms(2,3) if_P[OF fits] zero last u by (cases "j = 0") (simp_all add: add.commute)
    have "length (take (j * ?L) (sb_samples b)) = j * ?L" using assms(6) by (simp add: holds_def)
    then show "holds ?L (Suc j) (acc @ rx) ?b" using assms(6,7) by (simp add: holds_def write_samples_def l)
  qed simp
qed

text \<open>From the second subframe on the buffer is the current one.\<close>

lemma feed_rest:
  assumes "0 < j" "j + length xs = n" "xs \<noteq> []" "pw_sf_cnt p = of_nat j" "pw_nof_sf p = of_nat n" "0 < sf_len Q p"
    "n * sf_len Q p < 131072" "pw_current_buffer p = Some b" "holds (sf_len Q p) j acc b" "\<forall>(t, rx) \<in> set xs. length rx = sf_len Q p"
  shows "\<exists>b'. feed Q xs p = p\<lparr>pw_sf_cnt := 0, pw_current_buffer := None, pw_pending_buffers := pw_pending_buffers p @ [Some b']\<rparr> \<and>
    holds (sf_len Q p) n (acc @ concat (map snd xs)) b' \<and> sb_tti b' = sb_tti b"
  using assms(1-5,8-10) assms(6,7)
proof (induction xs arbitrary: j p b acc)
  case (Cons x xs)
  obtain t rx where x: "x = (t, rx)" by fastforce
  have j: "j < n" "length rx = sf_len Q p" using Cons.prems by (simp_all add: x)
  obtain b1 where s: "prach_store Q t rx b p = (0,
      if Suc j = n then p\<lparr>pw_sf_cnt := 0, pw_current_buffer := None, pw_pending_buffers := pw_pending_buffers p @ [Some b1]\<rparr>
      else p\<lparr>pw_sf_cnt := of_nat (Suc j), pw_current_buffer := Some b1\<rparr>)"
    "holds (sf_len Q p) (Suc j) (acc @ rx) b1" "sb_tti b1 = sb_tti b"
    using store_at[OF j(1) Cons.prems(4,5,9,10,7) j(2), of t] Cons.prems(1) by auto
  have "n < 131072" using Cons.prems(9,10) by (cases "sf_len Q p") simp_all
  then have "pw_sf_cnt p \<noteq> 0" using Cons.prems(1,4) j(1) unat_small[of j] by (metis less_trans unat_0 neq0_conv)
  then have f: "feed Q (x # xs) p = feed Q xs (snd (prach_store Q t rx b p))"
    using Cons.prems(6) by (simp add: x feed_def prach_new_tti_def)
  show ?case
  proof (cases "xs = []")
    case True
    then have "Suc j = n" using Cons.prems(2) by simp
    then show ?thesis using f s True by (intro exI[of _ b1]) (simp add: feed_def x)
  next
    case False
    let ?p = "p\<lparr>pw_sf_cnt := of_nat (Suc j), pw_current_buffer := Some b1\<rparr>"
    have "Suc j \<noteq> n" using Cons.prems(2) False by (cases xs) simp_all
    then have f': "feed Q (x # xs) p = feed Q xs ?p" using f s(1) by simp
    have "\<exists>b'. feed Q xs ?p = ?p\<lparr>pw_sf_cnt := 0, pw_current_buffer := None, pw_pending_buffers := pw_pending_buffers ?p @ [Some b']\<rparr> \<and>
        holds (sf_len Q ?p) n ((acc @ rx) @ concat (map snd xs)) b' \<and> sb_tti b' = sb_tti b1"
      by (rule Cons.IH[of "Suc j"]) (use Cons.prems False s(2) in simp_all)
    then show ?thesis unfolding f' by (simp add: x s(3))
  qed
qed simp

text \<open>Every buffer the worker has is empty when it is in the pool.\<close>

definition pool_reset :: "'x prach_worker \<Rightarrow> bool" where
  "pool_reset p \<longleftrightarrow> (\<forall>b \<in> set (pw_buffer_pool p). sb_nof_samples b = 0)"

lemma feed_all:
  assumes "pw_sf_cnt p = 0" "pw_nof_sf p = of_nat (length xs)" "xs = (t, rx) # ys" "prach_tti_opportunity Q (pw_cfg p) t"
    "pw_buffer_pool p = b # pool" "pool_reset p" "0 < sf_len Q p" "length xs * sf_len Q p < 131072"
    "\<forall>(t, rx) \<in> set xs. length rx = sf_len Q p"
  shows "\<exists>b'. feed Q xs p = p\<lparr>pw_buffer_pool := pool, pw_sf_cnt := 0, pw_current_buffer := None, pw_pending_buffers := pw_pending_buffers p @ [Some b']\<rparr> \<and>
    holds (sf_len Q p) (length xs) (concat (map snd xs)) b' \<and> sb_tti b' = t"
proof -
  let ?p = "p\<lparr>pw_buffer_pool := pool\<rparr>"
  have b: "holds (sf_len Q ?p) 0 [] b" using assms(5,6) by (simp add: holds_def pool_reset_def)
  obtain b1 where s: "prach_store Q t rx b ?p = (0,
      if Suc 0 = length xs then ?p\<lparr>pw_sf_cnt := 0, pw_current_buffer := None, pw_pending_buffers := pw_pending_buffers ?p @ [Some b1]\<rparr>
      else ?p\<lparr>pw_sf_cnt := of_nat (Suc 0), pw_current_buffer := Some b1\<rparr>)"
    "holds (sf_len Q ?p) (Suc 0) ([] @ rx) b1" "sb_tti b1 = t"
    using store_at[of 0 "length xs" ?p Q "[]" b rx t] assms(1-3,7-9) b by auto
  have f: "feed Q xs p = feed Q ys (snd (prach_store Q t rx b ?p))"
    using assms(1,3-5) by (simp add: feed_def prach_new_tti_def)
  show ?thesis
  proof (cases "ys = []")
    case True
    then show ?thesis using f s assms(1,3) by (intro exI[of _ b1]) (simp add: feed_def)
  next
    case False
    let ?r = "?p\<lparr>pw_sf_cnt := of_nat (Suc 0), pw_current_buffer := Some b1\<rparr>"
    have f': "feed Q xs p = feed Q ys ?r" using f s(1) False assms(3) by simp
    have "\<exists>b'. feed Q ys ?r = ?r\<lparr>pw_sf_cnt := 0, pw_current_buffer := None, pw_pending_buffers := pw_pending_buffers ?r @ [Some b']\<rparr> \<and>
        holds (sf_len Q ?r) (length xs) (rx @ concat (map snd ys)) b' \<and> sb_tti b' = sb_tti b1"
      by (rule feed_rest[of "Suc 0"]) (use assms False s(2) in simp_all)
    then show ?thesis unfolding f' using assms(1,3) s(3) by simp
  qed
qed

section \<open>Property\<close>

text \<open>C25: The subframes from an opportunity on, as many as a preamble has, end up in one buffer; the thread then asks the
  detector about their samples without the prefix, reports to the MAC each preamble found within the
  allowed offset for the TTI of the first subframe, and gives the buffer back.\<close>

theorem preamble_collected_and_reported:
  assumes "pw_sf_cnt p = 0" "pw_nof_sf p = of_nat (length xs)" "xs = (t, rx) # ys" "prach_tti_opportunity Q (pw_cfg p) t"
    "pw_buffer_pool p = b # pool" "pool_reset p" "0 < sf_len Q p" "length xs * sf_len Q p < 131072"
    "\<forall>(t, rx) \<in> set xs. length rx = sf_len Q p" "pw_pending_buffers p = []" "pw_running p"
    "prach_detect_offset Q (pw_cfg p) (drop (prach_N_cp Q (pw_cfg p)) (concat (map snd xs))) = Some dets"
  shows "\<exists>p'. prach_thread_step Q (feed Q xs p) =
      Some (p', map (\<lambda>(idx, offset). To_Mac (Mac_Rach_Detected t idx (of_i32 \<lfloor>offset * 1000000\<rfloor>)))
                  (filter (\<lambda>(idx, offset). offset * 1000000 < pw_max_prach_offset_us p) dets)) \<and>
    pw_sf_cnt p' = 0 \<and> pw_pending_buffers p' = [] \<and> pw_running p' \<and> pool_reset p' \<and>
    length (pw_buffer_pool p') = length (pw_buffer_pool p)"
proof -
  obtain b' where f: "feed Q xs p = p\<lparr>pw_buffer_pool := pool, pw_sf_cnt := 0, pw_current_buffer := None,
        pw_pending_buffers := pw_pending_buffers p @ [Some b']\<rparr>"
      and h: "holds (sf_len Q p) (length xs) (concat (map snd xs)) b'" "sb_tti b' = t"
    using feed_all[OF assms(1-9)] by blast
  have "unat (pw_nof_sf p * SF_LEN_PRB Q (cl_nof_prb (pw_cell p))) = length xs * sf_len Q p"
    using unat_small[OF assms(8)] assms(2) by (simp add: sf_len_def)
  then have s: "take (unat (pw_nof_sf p * SF_LEN_PRB Q (cl_nof_prb (pw_cell p)))) (sb_samples b') = concat (map snd xs)"
    using h(1) by (simp add: holds_def)
  show ?thesis
    using assms(4,10,11,12) assms(1,5,6) h(2)
    by (simp add: f prach_thread_step_def prach_run_tti_def prach_reports_def s pool_reset_def sf_buffer_reset_def Let_def)
qed

section \<open>Witness\<close>

text \<open>A preamble of two subframes of three samples; the samples are numbers, and the detector finds what they sum up to.\<close>

definition demo_prach_lib :: "nat prach_lib" where
  "demo_prach_lib = \<lparr>SF_LEN_PRB = (\<lambda>_. 3), prach_init_cfg_fails = (\<lambda>_ _. False), prach_tti_opportunity = (\<lambda>_ t. t mod 10 = 1),
     prach_nof_sf = (\<lambda>_. 2), prach_N_cp = (\<lambda>_. 1),
     prach_detect_offset = (\<lambda>_ xs. Some [(of_nat (sum_list xs), 1 / 100000), (3, 1)])\<rparr>"

definition demo_prach :: "nat prach_worker" where
  "demo_prach = snd (prach_init demo_prach_lib cell_zero
     \<lparr>pf_config_idx = 3, pf_hs_flag = False, pf_root_seq_idx = 128, pf_zero_corr_zone = 11, pf_freq_offset = 4\<rparr> prach_worker_new)"

theorem preamble_collected_and_reported_witness:
  "\<exists>p'. prach_thread_step demo_prach_lib (feed demo_prach_lib [(11, [9, 1, 2]), (12, [3, 4, 5])] demo_prach) =
     Some (p', [To_Mac (Mac_Rach_Detected 11 15 10)]) \<and> pw_sf_cnt p' = 0"
proof -
  have "replicate 8 b = b # replicate 7 b" for b :: "nat sf_buffer" by (simp add: eval_nat_numeral)
  then have p: "pw_sf_cnt demo_prach = 0" "pw_nof_sf demo_prach = of_nat (length [(11 :: u32, [9, 1, 2 :: nat]), (12, [3, 4, 5])])"
    "pw_buffer_pool demo_prach = sf_buffer_new # replicate 7 sf_buffer_new" "pool_reset demo_prach" "sf_len demo_prach_lib demo_prach = 3"
    "pw_pending_buffers demo_prach = []" "pw_running demo_prach" "pw_max_prach_offset_us demo_prach = 50"
    by (simp_all add: demo_prach_def demo_prach_lib_def prach_init_def prach_worker_new_def pool_reset_def sf_buffer_new_def sf_len_def
        Let_def)
  have l: "prach_tti_opportunity demo_prach_lib c 11" "prach_N_cp demo_prach_lib c = 1"
    "prach_detect_offset demo_prach_lib c xs = Some [(of_nat (sum_list xs), 1 / 100000), (3, 1)]" for c xs
    by (simp_all add: demo_prach_lib_def)
  show ?thesis
    using preamble_collected_and_reported[OF p(1,2) refl l(1) p(3,4), of "[(15, 1 / 100000), (3, 1)]"] p(5-8)
    by (auto simp: l)
qed

end
