(* ===== verification/Phch_Common.thy ===== *)
theory Phch_Common
  imports Phy_Types
begin

text \<open>
  What the workers share (\<open>phy/phch_common.cc\<close>): the table of pending acknowledgements and last uplink
  transmissions, the order in which workers transmit, and which subframes carry multicast. The mutex
  and the log are left out: each operation is atomic, but for \<open>worker_end\<close>, which waits for its turn
  and is taken apart into the steps between which other workers run.
\<close>

section \<open>Start and stop\<close>

text \<open>
  The constructor assigns \<open>nof_workers\<close> to itself, so that member and the ones it does not name, the
  multicast configuration and its two flags among them, keep what the memory held.
\<close>

definition ul_sched_grants_zero :: ul_sched_grants where
  "ul_sched_grants_zero = \<lparr>ulg_grants = [], ulg_phich = []\<rparr>"

definition dl_sched_grants_zero :: dl_sched_grants where
  "dl_sched_grants_zero = \<lparr>dg_cfi = 0, dg_nof_grants = 0, dg_sched_grants = []\<rparr>"

definition phch_common_new :: "phy_lib \<Rightarrow> u32 \<Rightarrow> phch_common \<Rightarrow> phch_common" where
  "phch_common_new H max_workers memory = memory\<lparr>
     pc_pusch_cfg := \<lparr>dm_cyclic_shift = 0, dm_delta_ss = 0, dm_group_hopping_en = False, dm_sequence_hopping_en = False\<rparr>,
     pc_hopping_cfg := \<lparr>hp_hop_mode = HOP_MODE_INTER_SF, hp_n_sb = 0, hp_hopping_offset = 0\<rparr>,
     pc_pucch_cfg := \<lparr>pc_delta_pucch_shift = 0, pc_N_cs = 0, pc_n_rb_2 = 0, pc_n1_pucch_an = 0\<rparr>, pc_pdsch_p_b := 0,
     pc_ul_grants := replicate (TTIMOD_SZ H) ul_sched_grants_zero, pc_common_ue_db := [],
     pc_tx_sem := replicate (unat max_workers) 0, pc_is_first_tx := False, pc_is_first_of_burst := False,
     pc_max_workers := max_workers\<rparr>"

definition set_nof_workers :: "u32 \<Rightarrow> phch_common \<Rightarrow> phch_common" where
  "set_nof_workers n pc = pc\<lparr>pc_nof_workers := n\<rparr>"

definition phch_common_reset :: "phy_lib \<Rightarrow> phch_common \<Rightarrow> phch_common" where
  "phch_common_reset H pc = pc\<lparr>pc_ul_grants := replicate (TTIMOD_SZ H) ul_sched_grants_zero,
     pc_dl_grants := replicate (TTIMOD_SZ H) dl_sched_grants_zero\<rparr>"

definition phch_common_init :: "phy_lib \<Rightarrow> srslte_cell \<Rightarrow> phch_common \<Rightarrow> phch_common" where
  "phch_common_init H cell pc =
     phch_common_reset H (pc\<lparr>pc_cell := cell, pc_is_first_of_burst := True, pc_is_first_tx := True\<rparr>)"

definition sem_post :: "nat \<Rightarrow> phch_common \<Rightarrow> phch_common option" where
  "sem_post i pc = do { n \<leftarrow> rd (pc_tx_sem pc) i; s \<leftarrow> wr (pc_tx_sem pc) i (n + 1); Some (pc\<lparr>pc_tx_sem := s\<rparr>) }"

definition phch_common_stop :: "phch_common \<Rightarrow> phch_common option" where
  "phch_common_stop pc = foldM sem_post [0..<unat (pc_max_workers pc)] pc"

section \<open>The end of a worker's round\<close>

text \<open>
  Before it waits, the first worker of all opens the way for itself. A worker whose semaphore is zero
  waits, which is no step: \<open>worker_wait\<close> has no result then. Division by zero workers has none either.
\<close>

definition tx_turn :: "u32 \<Rightarrow> phch_common \<Rightarrow> nat option" where
  "tx_turn tti pc = (if pc_nof_workers pc = 0 then None else Some (unat (tti mod pc_nof_workers pc)))"

definition worker_enter :: "u32 \<Rightarrow> phch_common \<Rightarrow> phch_common option" where
  "worker_enter tti pc =
     (if pc_is_first_tx pc then do { i \<leftarrow> tx_turn tti pc; sem_post i (pc\<lparr>pc_is_first_tx := False\<rparr>) } else Some pc)"

definition worker_wait :: "u32 \<Rightarrow> phch_common \<Rightarrow> phch_common option" where
  "worker_wait tti pc = do {
     i \<leftarrow> tx_turn tti pc;
     n \<leftarrow> rd (pc_tx_sem pc) i;
     if n = 0 then None
     else do { s \<leftarrow> wr (pc_tx_sem pc) i (n - 1); Some (pc\<lparr>pc_tx_sem := s\<rparr>) }
   }"

definition worker_transmit :: "u32 \<Rightarrow> u32 \<Rightarrow> phy_call list" where
  "worker_transmit tti nof_samples = [Radio_Set_Tti tti, Radio_Tx nof_samples]"

definition worker_pass_on :: "u32 \<Rightarrow> phch_common \<Rightarrow> (phch_common \<times> phy_call list) option" where
  "worker_pass_on tti pc = do {
     i \<leftarrow> tx_turn (tti + 1) pc;
     pc \<leftarrow> sem_post i pc;
     Some (pc, [To_Mac Mac_Tti_Clock])
   }"

section \<open>The table of users\<close>

definition put_common_ue :: "u16 \<Rightarrow> common_ue \<Rightarrow> phch_common \<Rightarrow> phch_common" where
  "put_common_ue rnti u pc = pc\<lparr>pc_common_ue_db := omap_set rnti u (pc_common_ue_db pc)\<rparr>"

definition common_ue_of :: "u16 \<Rightarrow> phch_common \<Rightarrow> common_ue option" where
  "common_ue_of rnti pc = omap_get (pc_common_ue_db pc) rnti"

definition put_pending :: "nat \<Rightarrow> nat \<Rightarrow> bool \<Rightarrow> common_ue \<Rightarrow> common_ue option" where
  "put_pending sf_idx tb b u = do {
     p \<leftarrow> wr2 (cu_is_pending u) sf_idx tb b;
     Some (u\<lparr>cu_is_pending := p\<rparr>)
   }"

definition clear_pending :: "srslte \<Rightarrow> nat \<Rightarrow> common_ue \<Rightarrow> common_ue option" where
  "clear_pending E sf_idx u = foldM (\<lambda>tb. put_pending sf_idx tb False) [0..<SRSLTE_MAX_TB E] u"

definition ue_db_clear :: "srslte \<Rightarrow> u32 \<Rightarrow> phch_common \<Rightarrow> phch_common option" where
  "ue_db_clear E sf_idx pc = do {
     db \<leftarrow> foldM (\<lambda>p db. do { u \<leftarrow> clear_pending E (unat sf_idx) (snd p); Some (db @ [(fst p, u)]) })
             (pc_common_ue_db pc) [];
     Some (pc\<lparr>pc_common_ue_db := db\<rparr>)
   }"

text \<open>\<open>common_ue_db[rnti]\<close> adds a zero entry where the map has none.\<close>

definition common_ue_at :: "srslte \<Rightarrow> phy_lib \<Rightarrow> u16 \<Rightarrow> phch_common \<Rightarrow> common_ue" where
  "common_ue_at E H rnti pc = (case common_ue_of rnti pc of None \<Rightarrow> common_ue_zero E H | Some u \<Rightarrow> u)"

definition common_add_rnti :: "srslte \<Rightarrow> phy_lib \<Rightarrow> u16 \<Rightarrow> phch_common \<Rightarrow> phch_common option" where
  "common_add_rnti E H rnti pc = do {
     u \<leftarrow> foldM (\<lambda>sf_idx. clear_pending E sf_idx) [0..<TTIMOD_SZ H] (common_ue_at E H rnti pc);
     Some (put_common_ue rnti u pc)
   }"

definition ue_db_add_rnti :: "srslte \<Rightarrow> phy_lib \<Rightarrow> u16 \<Rightarrow> phch_common \<Rightarrow> phch_common option" where
  "ue_db_add_rnti E H rnti pc = common_add_rnti E H rnti pc"

definition ue_db_rem_rnti :: "u16 \<Rightarrow> phch_common \<Rightarrow> phch_common" where
  "ue_db_rem_rnti rnti pc = pc\<lparr>pc_common_ue_db := omap_del rnti (pc_common_ue_db pc)\<rparr>"

definition ue_db_set_ack_pending :: "u32 \<Rightarrow> u16 \<Rightarrow> nat \<Rightarrow> u32 \<Rightarrow> phch_common \<Rightarrow> phch_common option" where
  "ue_db_set_ack_pending sf_idx rnti tb_idx last_n_pdcch pc =
     (case common_ue_of rnti pc of
        None \<Rightarrow> Some pc
      | Some u \<Rightarrow> do {
          u \<leftarrow> put_pending (unat sf_idx) tb_idx True u;
          n \<leftarrow> wr (cu_n_pdcch u) (unat sf_idx) (ucast last_n_pdcch);
          Some (put_common_ue rnti (u\<lparr>cu_n_pdcch := n\<rparr>) pc)
        })"

text \<open>The third result is what is written through the pointer, if the caller passes one.\<close>

definition ue_db_is_ack_pending ::
  "u32 \<Rightarrow> u16 \<Rightarrow> nat \<Rightarrow> phch_common \<Rightarrow> (bool \<times> phch_common \<times> u32 option) option" where
  "ue_db_is_ack_pending sf_idx rnti tb_idx pc =
     (case common_ue_of rnti pc of
        None \<Rightarrow> Some (False, pc, None)
      | Some u \<Rightarrow> do {
          ret \<leftarrow> rd2 (cu_is_pending u) (unat sf_idx) tb_idx;
          u \<leftarrow> put_pending (unat sf_idx) tb_idx False u;
          n \<leftarrow> rd (cu_n_pdcch u) (unat sf_idx);
          Some (ret, put_common_ue rnti u pc, if ret then Some (ucast n) else None)
        })"

definition ue_db_set_ri :: "u16 \<Rightarrow> u8 \<Rightarrow> phch_common \<Rightarrow> phch_common" where
  "ue_db_set_ri rnti ri pc =
     (case common_ue_of rnti pc of
        None \<Rightarrow> pc
      | Some u \<Rightarrow> put_common_ue rnti (u\<lparr>cu_ri := ri\<rparr>) pc)"

definition ue_db_get_ri :: "u16 \<Rightarrow> phch_common \<Rightarrow> u8" where
  "ue_db_get_ri rnti pc = (case common_ue_of rnti pc of None \<Rightarrow> 0 | Some u \<Rightarrow> cu_ri u)"

text \<open>What a user sent last is kept per process, which a TTI selects.\<close>

definition ul_slot :: "srslte \<Rightarrow> phy_lib \<Rightarrow> u32 \<Rightarrow> nat" where
  "ul_slot E H tti = unat (TTI_RX H tti) mod (2 * HARQ_DELAY_MS E)"

text \<open>\<open>if (!common_ue_db.count(rnti)) add_rnti(rnti)\<close>: the user to write to.\<close>

definition with_common_ue :: "srslte \<Rightarrow> phy_lib \<Rightarrow> u16 \<Rightarrow> phch_common \<Rightarrow> phch_common option" where
  "with_common_ue E H rnti pc =
     (if common_ue_of rnti pc = None then common_add_rnti E H rnti pc else Some pc)"

definition ue_db_set_last_ul_mod ::
  "srslte \<Rightarrow> phy_lib \<Rightarrow> u16 \<Rightarrow> u32 \<Rightarrow> modulation \<Rightarrow> phch_common \<Rightarrow> phch_common option" where
  "ue_db_set_last_ul_mod E H rnti tti mcs pc = do {
     pc \<leftarrow> with_common_ue E H rnti pc;
     u \<leftarrow> common_ue_of rnti pc;
     ms \<leftarrow> wr (cu_last_ul_mod u) (ul_slot E H tti) mcs;
     Some (put_common_ue rnti (u\<lparr>cu_last_ul_mod := ms\<rparr>) pc)
   }"

definition ue_db_get_last_ul_mod :: "srslte \<Rightarrow> phy_lib \<Rightarrow> u16 \<Rightarrow> u32 \<Rightarrow> phch_common \<Rightarrow> modulation option" where
  "ue_db_get_last_ul_mod E H rnti tti pc =
     (case common_ue_of rnti pc of
        None \<Rightarrow> Some MOD_BPSK
      | Some u \<Rightarrow> rd (cu_last_ul_mod u) (ul_slot E H tti))"

definition ue_db_set_last_ul_tbs ::
  "srslte \<Rightarrow> phy_lib \<Rightarrow> u16 \<Rightarrow> u32 \<Rightarrow> int \<Rightarrow> phch_common \<Rightarrow> phch_common option" where
  "ue_db_set_last_ul_tbs E H rnti tti tbs pc = do {
     pc \<leftarrow> with_common_ue E H rnti pc;
     u \<leftarrow> common_ue_of rnti pc;
     ts \<leftarrow> wr (cu_last_ul_tbs u) (ul_slot E H tti) tbs;
     Some (put_common_ue rnti (u\<lparr>cu_last_ul_tbs := ts\<rparr>) pc)
   }"

definition ue_db_get_last_ul_tbs :: "srslte \<Rightarrow> phy_lib \<Rightarrow> u16 \<Rightarrow> u32 \<Rightarrow> phch_common \<Rightarrow> int option" where
  "ue_db_get_last_ul_tbs E H rnti tti pc =
     (case common_ue_of rnti pc of
        None \<Rightarrow> Some (-1)
      | Some u \<Rightarrow> rd (cu_last_ul_tbs u) (ul_slot E H tti))"

section \<open>Multicast subframes\<close>

text \<open>The library fills the first entries of a table of zeros.\<close>

definition fill_table :: "nat \<Rightarrow> u8 list \<Rightarrow> u8 list" where
  "fill_table n xs = take n (xs @ replicate n 0)"

definition build_mch_table :: "phy_lib \<Rightarrow> phch_common \<Rightarrow> phch_common" where
  "build_mch_table H pc =
     (let b = pc_mbsfn pc
      in pc\<lparr>pc_mch_table := fill_table 40
              (generate_mch_table H (mb_subfr_alloc b)
                 (if mb_subfr_alloc_num_frames b = NUM_FRAMES_ONE then 1 else 4))\<rparr>)"

definition build_mcch_table :: "phy_lib \<Rightarrow> phch_common \<Rightarrow> phch_common" where
  "build_mcch_table H pc =
     pc\<lparr>pc_mcch_table := fill_table 10 (generate_mcch_table H (mb_sf_alloc_info (pc_mbsfn pc)))\<rparr>"

definition common_configure_mbsfn :: "phy_lib \<Rightarrow> phy_cfg_mbsfn \<Rightarrow> phch_common \<Rightarrow> phch_common" where
  "common_configure_mbsfn H cfg pc =
     (build_mcch_table H (build_mch_table H (pc\<lparr>pc_mbsfn := cfg\<rparr>)))\<lparr>pc_sib13_configured := True, pc_mcch_configured := True\<rparr>"

text \<open>
  The periods are stored in 8 bits; the remainder by a period of zero has no result. The frame number
  is compared with the 8-bit offset.
\<close>

definition frame_mod :: "u32 \<Rightarrow> u8 \<Rightarrow> u32 option" where
  "frame_mod sfn period = (if period = 0 then None else Some (sfn mod ucast period))"

definition is_mcch_subframe ::
  "phy_lib \<Rightarrow> subframe_cfg \<Rightarrow> u32 \<Rightarrow> phch_common \<Rightarrow> (bool \<times> subframe_cfg) option" where
  "is_mcch_subframe H cfg phy_tti pc =
     (let sfn = phy_tti div 10; sf = phy_tti mod 10; b = pc_mbsfn pc in
      if pc_sib13_configured pc then do {
        m \<leftarrow> frame_mod sfn (ucast (mcch_repetition_period_num H (mb_mcch_repetition_period b)));
        t \<leftarrow> rd (pc_mcch_table pc) (unat sf);
        if m = ucast (mb_mcch_offset b) \<and> 0 < t
        then Some (True, cfg\<lparr>sfc_mbsfn_area_id := mb_area_id b,
               sfc_non_mbsfn_region_length := ucast (non_mbsfn_region_length_num H (mb_non_mbsfn_region_length b)),
               sfc_mbsfn_mcs := ucast (mcch_signalling_mcs_num H (mb_signalling_mcs b)),
               sfc_mbsfn_encode := True, sfc_is_mcch := True\<rparr>)
        else Some (False, cfg)
      } else Some (False, cfg))"

definition mbsfn_area :: "phy_lib \<Rightarrow> phch_common \<Rightarrow> subframe_cfg \<Rightarrow> subframe_cfg" where
  "mbsfn_area H pc cfg =
     (let b = pc_mbsfn pc in
      if pc_sib13_configured pc
      then cfg\<lparr>sfc_mbsfn_area_id := mb_area_id b,
             sfc_non_mbsfn_region_length := ucast (non_mbsfn_region_length_num H (mb_non_mbsfn_region_length b))\<rparr>
      else cfg)"

text \<open>The last of the multicast channels determines the coding scheme.\<close>

definition mbsfn_data_mcs :: "phch_common \<Rightarrow> subframe_cfg \<Rightarrow> subframe_cfg" where
  "mbsfn_data_mcs pc cfg =
     (if pc_sib13_configured pc \<and> pc_mcch_configured pc
      then fold (\<lambda>mcs cfg. cfg\<lparr>sfc_mbsfn_mcs := mcs, sfc_mbsfn_encode := True\<rparr>) (mb_pmch_datamcs (pc_mbsfn pc)) cfg
      else cfg)"

definition subframe_cfg_default :: "subframe_cfg \<Rightarrow> subframe_cfg" where
  "subframe_cfg_default cfg = cfg\<lparr>sfc_mbsfn_area_id := 0, sfc_non_mbsfn_region_length := 1, sfc_mbsfn_mcs := 2,
     sfc_mbsfn_encode := False, sfc_is_mcch := False\<rparr>"

text \<open>With four frames the table is indexed by the frame in the period, not in the allocation.\<close>

definition is_mch_subframe ::
  "phy_lib \<Rightarrow> subframe_cfg \<Rightarrow> u32 \<Rightarrow> phch_common \<Rightarrow> (bool \<times> subframe_cfg) option" where
  "is_mch_subframe H cfg phy_tti pc = do {
     let sfn = phy_tti div 10;
     let sf = phy_tti mod 10;
     let b = pc_mbsfn pc;
     (mcch, cfg) \<leftarrow> is_mcch_subframe H (subframe_cfg_default cfg) phy_tti pc;
     if mcch then Some (True, cfg)
     else do {
       let offset = mb_radio_fr_alloc_offset b;
       m \<leftarrow> frame_mod sfn (ucast (radio_frame_allocation_period_num H (mb_radio_fr_alloc_period b)));
       (case mb_subfr_alloc_num_frames b of
         NUM_FRAMES_ONE \<Rightarrow>
           if m = ucast offset then do {
             t \<leftarrow> rd (pc_mch_table pc) (unat sf);
             if 0 < t then Some (True, mbsfn_data_mcs pc (mbsfn_area H pc cfg)) else Some (False, cfg)
           } else Some (False, cfg)
       | NUM_FRAMES_FOUR \<Rightarrow>
           let idx = unat (ucast m :: u8) in
           if unat offset \<le> idx \<and> idx < unat offset + 4 then do {
             t \<leftarrow> rd (pc_mch_table pc) (idx * 10 + unat sf);
             if 0 < t then Some (True, mbsfn_area H pc cfg) else Some (False, cfg)
           } else Some (False, cfg))
     }
   }"

definition get_sf_config :: "phy_lib \<Rightarrow> subframe_cfg \<Rightarrow> u32 \<Rightarrow> phch_common \<Rightarrow> subframe_cfg option" where
  "get_sf_config H cfg phy_tti pc = do {
     (mch, cfg) \<leftarrow> is_mch_subframe H cfg phy_tti pc;
     Some (cfg\<lparr>sfc_sf_type := if mch then SUBFRAME_TYPE_MBSFN else SUBFRAME_TYPE_REGULAR\<rparr>)
   }"

end
