(* ===== verification/Phch_Worker.thy ===== *)
theory Phch_Worker
  imports Phch_Common
begin

text \<open>
  A worker of the physical layer (\<open>phy/phch_worker.cc\<close>): its table of users and their configuration, and
  the round it makes for one subframe: decode what was received, ask the MAC for the grants to send,
  encode them. The replies of the MAC are arguments of the round. Left out are the text for the log,
  the debug files and the functions that feed the plots.
\<close>

section \<open>Users\<close>

definition put_worker_ue :: "u16 \<Rightarrow> worker_ue \<Rightarrow> phch_worker \<Rightarrow> phch_worker" where
  "put_worker_ue rnti u w = w\<lparr>wk_ue_db := omap_set rnti u (wk_ue_db w)\<rparr>"

definition worker_ue_of :: "u16 \<Rightarrow> phch_worker \<Rightarrow> worker_ue option" where
  "worker_ue_of rnti w = omap_get (wk_ue_db w) rnti"

text \<open>\<open>ue_db[rnti]\<close> adds a new user where the map has none.\<close>

definition worker_ue_at :: "u16 \<Rightarrow> phch_worker \<Rightarrow> worker_ue" where
  "worker_ue_at rnti w = (case worker_ue_of rnti w of None \<Rightarrow> worker_ue_new | Some u \<Rightarrow> u)"

definition phch_worker_reset :: "phch_worker \<Rightarrow> phch_worker" where
  "phch_worker_reset w = w\<lparr>wk_initiated := False, wk_ue_db := []\<rparr>"

text \<open>\<open>dl_ok\<close> and \<open>ul_ok\<close> are the answers of the library to a new RNTI.\<close>

definition worker_add_rnti ::
  "(u16 \<Rightarrow> bool) \<Rightarrow> (u16 \<Rightarrow> bool) \<Rightarrow> u16 \<Rightarrow> phch_worker \<Rightarrow> int \<times> phch_worker \<times> phy_call list" where
  "worker_add_rnti dl_ok ul_ok rnti w =
     (if \<not> dl_ok rnti then (-1, w, [To_Rntis (Enb_Dl_Add_Rnti rnti)])
      else if \<not> ul_ok rnti then (-1, w, [To_Rntis (Enb_Dl_Add_Rnti rnti), To_Rntis (Enb_Ul_Add_Rnti rnti)])
      else (0, put_worker_ue rnti ((worker_ue_at rnti w)\<lparr>wu_rnti := ucast rnti\<rparr>) w,
              [To_Rntis (Enb_Dl_Add_Rnti rnti), To_Rntis (Enb_Ul_Add_Rnti rnti)]))"

definition get_nof_rnti :: "phch_worker \<Rightarrow> u32" where
  "get_nof_rnti w = of_nat (length (wk_ue_db w))"

text \<open>\<open>ok\<close> tells whether buffers, encoder and decoder could be set up; the results of \<open>add_rnti\<close> are not tested.\<close>

definition phch_worker_init ::
  "mac_lib \<Rightarrow> bool \<Rightarrow> (u16 \<Rightarrow> bool) \<Rightarrow> (u16 \<Rightarrow> bool) \<Rightarrow> phch_worker \<Rightarrow> phch_worker \<times> phy_call list" where
  "phch_worker_init L ok dl_ok ul_ok w =
     (if \<not> ok then (w, [])
      else
        let (w, cs) = fold (\<lambda>rnti (w, cs). let (_, w, cs') = worker_add_rnti dl_ok ul_ok rnti w in (w, cs @ cs'))
                        ([SRSLTE_SIRNTI L, SRSLTE_PRNTI L] @ map of_nat [1..<11]) (w, [])
        in (w\<lparr>wk_initiated := True, wk_running := True\<rparr>, cs))"

text \<open>\<open>ends\<close> tells whether a running round ends within the 100 ms that \<open>stop\<close> waits; then memory is freed.\<close>

definition phch_worker_stop :: "bool \<Rightarrow> phch_worker \<Rightarrow> bool \<times> phch_worker" where
  "phch_worker_stop ends w =
     (let w = w\<lparr>wk_running := False, wk_is_worker_running := wk_is_worker_running w \<and> \<not> ends\<rparr>
      in (\<not> wk_is_worker_running w, w))"

definition set_time :: "srslte \<Rightarrow> phy_lib \<Rightarrow> u32 \<Rightarrow> u32 \<Rightarrow> int \<Rightarrow> phch_worker \<Rightarrow> phch_worker" where
  "set_time E H tti cnt time w =
     (let dl = TTI_TX E tti; ul = TTI_RX_ACK H tti
      in w\<lparr>wk_tti_rx := tti, wk_tti_tx_dl := dl, wk_tti_tx_ul := ul, wk_sf_rx := tti mod 10, wk_sf_tx := dl mod 10,
           wk_t_tx_dl := TTIMOD H dl, wk_t_rx := TTIMOD H tti, wk_t_tx_ul := TTIMOD H ul,
           wk_tx_worker_cnt := cnt, wk_tx_time := time\<rparr>)"

definition worker_set_conf_dedicated_ack :: "u16 \<Rightarrow> bool \<Rightarrow> phch_worker \<Rightarrow> phch_worker" where
  "worker_set_conf_dedicated_ack rnti ack w =
     (case worker_ue_of rnti w of
        None \<Rightarrow> w
      | Some u \<Rightarrow> put_worker_ue rnti (u\<lparr>wu_dedicated_ack := ack\<rparr>) w)"

text \<open>What \<open>set_config_dedicated\<close> does to reports and antennas; an absent report reads as zeros.\<close>

definition conf_cqi :: "phy_cfg_ded \<Rightarrow> worker_ue \<Rightarrow> worker_ue" where
  "conf_cqi d u =
     (case Option.bind (pd_cqi_report d) cr_report_periodic of
        Some p \<Rightarrow> u\<lparr>wu_pmi_idx := cp_pmi_cnfg_idx p, wu_cqi_en := True,
                  wu_pucch_cqi_ack := cp_simult_ack_nack_and_cqi p\<rparr>
      | None \<Rightarrow> u\<lparr>wu_pmi_idx := 0, wu_cqi_en := False\<rparr>)"

definition conf_ri :: "phy_cfg_ded \<Rightarrow> worker_ue \<Rightarrow> worker_ue" where
  "conf_ri d u =
     (case Option.bind (Option.bind (pd_cqi_report d) cr_report_periodic) cp_ri_cnfg_idx of
        Some i \<Rightarrow> u\<lparr>wu_ri_idx := i, wu_ri_en := True\<rparr>
      | None \<Rightarrow> u\<lparr>wu_ri_idx := 0, wu_ri_en := False\<rparr>)"

definition conf_antenna :: "phch_common \<Rightarrow> phy_cfg_ded \<Rightarrow> worker_ue \<Rightarrow> worker_ue" where
  "conf_antenna pc d u =
     (if pd_antenna_info_present d then
        if pd_antenna_info_default d then
          u\<lparr>wu_tx_mode := if cl_nof_ports (pc_cell pc) = 1 then TM1 else TM2, wu_ri_idx := 0, wu_ri_en := False\<rparr>
        else
          let m = ai_tx_mode (pd_antenna_info d); u = u\<lparr>wu_tx_mode := m\<rparr>
          in if m \<noteq> TM3 \<and> m \<noteq> TM4 \<and> wu_ri_en u then u\<lparr>wu_ri_idx := 0, wu_ri_en := False\<rparr> else u
      else u)"

definition worker_set_config_dedicated ::
  "phch_common \<Rightarrow> u16 \<Rightarrow> phy_cfg_ded \<Rightarrow> phch_worker \<Rightarrow> phch_worker \<times> phy_call list" where
  "worker_set_config_dedicated pc rnti d w =
     (case worker_ue_of rnti w of
        None \<Rightarrow> (w, [])
      | Some u \<Rightarrow>
          let (u, cs) = (case (pd_pusch d, pd_sched_request d) of
                 (Some pusch, Some sr) \<Rightarrow>
                   (u\<lparr>wu_I_sr := sc_sr_cnfg_idx sr, wu_I_sr_en := True\<rparr>,
                    [To_Rntis (Enb_Ul_Cfg_Ue rnti pusch (pc_n1_pucch_an (pc_pucch_cfg pc))
                       (case Option.bind (pd_cqi_report d) cr_report_periodic of
                          Some p \<Rightarrow> cp_pucch_resource_idx p | None \<Rightarrow> 0)
                       (sc_sr_pucch_resource_idx sr))])
               | _ \<Rightarrow> (u, []));
              u = conf_antenna pc d (conf_ri d (conf_cqi d u));
              u = (case pd_pdsch d of
                     Some p \<Rightarrow> u\<lparr>wu_pdsch_present := True, wu_pdsch_cnfg_ded := p\<rparr>
                   | None \<Rightarrow> u)
          in (put_worker_ue rnti u w, cs))"

text \<open>The pending grants of a removed user lose its RNTI.\<close>

definition forget_ul :: "u16 \<Rightarrow> ul_sched_grants \<Rightarrow> ul_sched_grants" where
  "forget_ul rnti s =
     s\<lparr>ulg_grants := map (\<lambda>g. if mj_rnti g = rnti then g\<lparr>mj_rnti := 0\<rparr> else g) (ulg_grants s)\<rparr>"

definition forget_dl :: "u16 \<Rightarrow> dl_sched_grants \<Rightarrow> dl_sched_grants" where
  "forget_dl rnti s =
     (let n = dg_nof_grants s; gs = dg_sched_grants s
      in s\<lparr>dg_sched_grants := map (\<lambda>g. if mg_rnti g = rnti then g\<lparr>mg_rnti := 0\<rparr> else g) (take n gs) @ drop n gs\<rparr>)"

definition worker_rem_rnti ::
  "u16 \<Rightarrow> phch_worker \<Rightarrow> phch_common \<Rightarrow> phch_worker \<times> phch_common \<times> phy_call list" where
  "worker_rem_rnti rnti w pc =
     (case worker_ue_of rnti w of
        None \<Rightarrow> (w, pc, [])
      | Some u \<Rightarrow>
          (w\<lparr>wk_ue_db := omap_del rnti (wk_ue_db w)\<rparr>,
           pc\<lparr>pc_ul_grants := map (forget_ul rnti) (pc_ul_grants pc),
              pc_dl_grants := map (forget_dl rnti) (pc_dl_grants pc)\<rparr>,
           [To_Rntis (Enb_Dl_Rem_Rnti rnti), To_Rntis (Enb_Ul_Rem_Rnti rnti)]))"

section \<open>Metrics\<close>

definition ue_metrics_read :: "worker_ue \<Rightarrow> phy_metrics \<times> worker_ue" where
  "ue_metrics_read u = (wu_metrics u, u\<lparr>wu_metrics := phy_metrics_zero\<rparr>)"

definition metrics_dl :: "u32 \<Rightarrow> worker_ue \<Rightarrow> worker_ue" where
  "metrics_dl mcs u =
     (let m = wu_metrics u
      in u\<lparr>wu_metrics := m\<lparr>pm_dl_mcs := vec_cma_rat (of_int (uint mcs)) (pm_dl_mcs m) (pm_dl_n_samples m),
             pm_dl_n_samples := pm_dl_n_samples m + 1\<rparr>\<rparr>)"

definition metrics_ul :: "u32 \<Rightarrow> rat \<Rightarrow> rat \<Rightarrow> u32 \<Rightarrow> worker_ue \<Rightarrow> worker_ue" where
  "metrics_ul mcs rssi sinr turbo_iters u =
     (let m = wu_metrics u; n = pm_ul_n_samples m
      in u\<lparr>wu_metrics := m\<lparr>pm_ul_mcs := vec_cma_rat (of_int (uint mcs)) (pm_ul_mcs m) n,
             pm_ul_sinr := vec_cma_rat sinr (pm_ul_sinr m) n, pm_ul_rssi := vec_cma_rat rssi (pm_ul_rssi m) n,
             pm_ul_turbo_iters := vec_cma_rat (of_int (uint turbo_iters)) (pm_ul_turbo_iters m) n,
             pm_ul_n_samples := n + 1\<rparr>\<rparr>)"

definition is_crnti :: "phy_lib \<Rightarrow> u16 \<Rightarrow> bool" where
  "is_crnti H rnti \<longleftrightarrow> SRSLTE_CRNTI_START H \<le> rnti \<and> rnti \<le> SRSLTE_CRNTI_END H"

definition worker_get_metrics :: "phy_lib \<Rightarrow> phch_worker \<Rightarrow> phy_metrics list \<times> phch_worker" where
  "worker_get_metrics H w =
     (map (\<lambda>p. wu_metrics (snd p)) (filter (\<lambda>p. is_crnti H (fst p)) (wk_ue_db w)),
      w\<lparr>wk_ue_db := map (\<lambda>(k, u). (k, if is_crnti H k then snd (ue_metrics_read u) else u)) (wk_ue_db w)\<rparr>)"

end
