(* ===== verification/Phch_Round.thy ===== *)
theory Phch_Round
  imports Phch_Worker
begin

text \<open>
  The round of a worker (\<open>work_imp\<close> of \<open>phy/phch_worker.cc\<close>) and its parts: decoding the data and the control
  channel of the users, and encoding the grants. The state is the worker, what all workers share and the
  calls made so far.
\<close>

section \<open>Decoding\<close>

definition PUSCH_RL_SNR_DB_TH :: rat where
  "PUSCH_RL_SNR_DB_TH = 1"

text \<open>The float next to 0.15.\<close>

definition PUCCH_RL_CORR_TH :: rat where
  "PUCCH_RL_CORR_TH = 5033165 / 33554432"

text \<open>
  The pending acknowledgements of a user, which the table forgets, and the control channel element
  of the last of them: the variable starts as zero.
\<close>

definition take_acks ::
  "srslte \<Rightarrow> u32 \<Rightarrow> u16 \<Rightarrow> phch_common \<Rightarrow> (bool list \<times> phch_common \<times> u32) option" where
  "take_acks E t_rx rnti pc =
     foldM (\<lambda>tb (acks, pc, n). do {
         (p, pc, last) \<leftarrow> ue_db_is_ack_pending t_rx rnti tb pc;
         Some (acks @ [p], pc, case last of None \<Rightarrow> n | Some m \<Rightarrow> m)
       }) [0..<SRSLTE_MAX_TB E] ([], pc, 0)"

definition ack_len :: "bool list \<Rightarrow> u32" where
  "ack_len acks = of_nat (length (filter id acks))"

text \<open>The first pending block has the first acknowledgement, any other the second.\<close>

definition ack_infos :: "u32 \<Rightarrow> u16 \<Rightarrow> bool list \<Rightarrow> uci_data \<Rightarrow> bool \<Rightarrow> phy_call list" where
  "ack_infos tti rnti acks uci valid =
     map (\<lambda>(idx, tb). To_Mac (Mac_Ack_Info tti rnti tb ((if idx = 0 then uc_ack uci else uc_ack_2 uci) \<and> valid)))
       (enumerate 0 (filter (\<lambda>tb. acks ! tb) [0..<length acks]))"

text \<open>
  The reports a data grant asks for: whether one is, the report as it is handed to the decoder, and the
  control information.
\<close>

definition pusch_cqi ::
  "srslte \<Rightarrow> phy_lib \<Rightarrow> phch_common \<Rightarrow> u32 \<Rightarrow> u16 \<Rightarrow> worker_ue \<Rightarrow> bool \<Rightarrow> uci_data \<Rightarrow> bool \<times> cqi_value \<times> uci_data" where
  "pusch_cqi E H pc tti rnti u cqi_request uci =
     (if wu_cqi_en u \<and> wu_ri_en u \<and> ri_send H (wu_pmi_idx u) (wu_ri_idx u) tti then
        (False, cqi_value_zero, uci\<lparr>uc_ri_len := 1, uc_ri_periodic_report := True\<rparr>)
      else if wu_cqi_en u \<and> cqi_send E (wu_pmi_idx u) tti then
        (True,
         if wu_tx_mode u = TM4
         then cqi_value_zero\<lparr>cv_wb_pmi_present := True, cv_wb_rank_is_not_one := 0 < ue_db_get_ri rnti pc\<rparr>
         else cqi_value_zero, uci)
      else if cqi_request then
        (let nof_prb = cl_nof_prb (pc_cell pc)
         in (True, cqi_value_zero\<lparr>cv_type := CQI_SUBBAND_HL,
               cv_hl_ri_present := wu_antenna_info_present u \<and> (wu_tx_mode u = TM3 \<or> wu_tx_mode u = TM4),
               cv_hl_N := if 7 < nof_prb then cqi_hl_get_no_subbands H nof_prb else 0,
               cv_hl_four_antenna_ports := cl_nof_ports (pc_cell pc) = 4,
               cv_hl_pmi_present := wu_aperiodic_rm31 u,
               cv_hl_rank_is_not_one := 0 < ue_db_get_ri rnti pc\<rparr>, uci))
      else (False, cqi_value_zero, uci))"

text \<open>
  A retransmission takes the size and the modulation of what the user sent last; both are stored
  again. The decoder gets at most 16 points.
\<close>

definition phy_pusch_grant ::
  "srslte \<Rightarrow> phy_lib \<Rightarrow> u16 \<Rightarrow> u32 \<Rightarrow> ul_phy_grant \<Rightarrow> phch_common \<Rightarrow> (ul_phy_grant \<times> phch_common) option" where
  "phy_pusch_grant E H rnti tti g pc = do {
     tbs \<leftarrow> (if 28 < ug_mcs_idx g then ue_db_get_last_ul_tbs E H rnti tti pc else Some (ug_mcs_tbs g));
     pc \<leftarrow> ue_db_set_last_ul_tbs E H rnti tti tbs pc;
     (md, qm) \<leftarrow> (if ug_mod g = MOD_LAST
                  then do { md \<leftarrow> ue_db_get_last_ul_mod E H rnti tti pc; Some (md, mod_bits_x_symbol H md) }
                  else Some (ug_mod g, ug_Qm g));
     pc \<leftarrow> ue_db_set_last_ul_mod E H rnti tti md pc;
     Some (g\<lparr>ug_mcs_tbs := tbs, ug_mod := (if md = MOD_64QAM then MOD_16QAM else md),
             ug_Qm := min qm 4\<rparr>, pc)
   }"

text \<open>
  The wideband quality and the precoding of the report. They are variables of the whole loop: what
  the report of one user leaves in them is there for the next.
\<close>

record wideband =
  wb_cqi :: u32
  wb_pmi :: u32
  wb_pmi_present :: bool

definition wideband_of :: "bool \<Rightarrow> worker_ue \<Rightarrow> bool \<Rightarrow> cqi_value \<Rightarrow> wideband \<Rightarrow> wideband" where
  "wideband_of cqi_enabled u cqi_request v b =
     (if cqi_enabled then
        if wu_cqi_en u then
          let b = b\<lparr>wb_cqi := cv_wb_cqi v\<rparr>
          in if cv_wb_pmi_present v then b\<lparr>wb_pmi_present := True, wb_pmi := cv_wb_pmi v\<rparr> else b
        else if cqi_request then
          let b = b\<lparr>wb_cqi := cv_hl_cqi_cw0 v\<rparr>
          in if cv_hl_pmi_present v then b\<lparr>wb_pmi_present := True, wb_pmi := cv_hl_pmi v\<rparr> else b
        else b
      else b)"

definition pusch_reports ::
  "u32 \<Rightarrow> u16 \<Rightarrow> ul_dci \<Rightarrow> bool list \<Rightarrow> int \<Rightarrow> int \<Rightarrow> uci_data \<Rightarrow> rat \<Rightarrow> wideband \<Rightarrow> phy_call list" where
  "pusch_reports tti rnti dci acks res tbs uci snr_db b =
     (let crc_res = (res = 0)
      in (if ud_rv_idx dci = 0
          then [To_Mac (if res \<noteq> 0 \<and> snr_db < PUSCH_RL_SNR_DB_TH then Mac_Rl_Failure rnti else Mac_Rl_Ok rnti)]
          else [])
       @ [To_Mac (Mac_Crc_Info tti rnti (of_i32 (cdiv tbs 8)) crc_res)]
       @ ack_infos tti rnti acks uci (crc_res \<or> PUSCH_RL_SNR_DB_TH < snr_db)
       @ (if PUSCH_RL_SNR_DB_TH \<le> snr_db then [To_Mac (Mac_Snr_Info tti rnti snr_db)] else [])
       @ (if 0 < uc_cqi_len uci \<and> crc_res then [To_Mac (Mac_Cqi_Info tti rnti (wb_cqi b))] else [])
       @ (if 0 < uc_ri_len uci \<and> crc_res then [To_Mac (Mac_Ri_Info tti rnti (uc_ri uci))] else [])
       @ (if wb_pmi_present b \<and> crc_res then [To_Mac (Mac_Pmi_Info tti rnti (wb_pmi b))] else []))"

type_synonym round = "phch_worker \<times> phch_common \<times> phy_call list"

text \<open>
  One data grant; the first result tells whether the library could make a grant of it. The redundancy
  version handed to the decoder is a member that nothing writes.
\<close>

definition decode_grant ::
  "srslte \<Rightarrow> phy_lib \<Rightarrow> rx_signal \<Rightarrow> mac_ul_grant \<Rightarrow> wideband \<times> round \<Rightarrow> (bool \<times> wideband \<times> round) option" where
  "decode_grant E H X g a = do {
     let (b, w, pc, cs) = a;
     let rnti = mj_rnti g;
     if rnti = 0 then Some (True, b, w, pc, cs)
     else do {
       (acks, pc, _) \<leftarrow> take_acks E (wk_t_rx w) rnti pc;
       let tti = wk_tti_rx w;
       let req = ud_cqi_request (mj_grant g);
       let u = worker_ue_at rnti w;
       let (cqi_enabled, v, uci) = pusch_cqi E H pc tti rnti u req (uci_zero\<lparr>uc_ack_len := ack_len acks\<rparr>);
       let u = u\<lparr>wu_has_grant_tti := i32 tti\<rparr>;
       let w = put_worker_ue rnti u w;
       case ra_ul_dci_to_grant H (mj_grant g) (cl_nof_prb (pc_cell pc)) 0 of
         None \<Rightarrow> Some (False, b, w, pc, cs)
       | Some pg \<Rightarrow> do {
           (pg, pc) \<leftarrow> phy_pusch_grant E H rnti tti pg pc;
           let (res, uci, v, n_prb, snr_db, noi) = rx_pusch X pg (mj_softbuffer g) rnti 0 (mj_current_tx_nb g)
                 (mj_data g) (if cqi_enabled then Some v else None) uci (wk_sf_rx w);
           let b = wideband_of cqi_enabled u req v b;
           let u = metrics_ul (ug_mcs_idx pg) 0 snr_db noi
                     (u\<lparr>wu_phich_n_prb_lowest := n_prb, wu_phich_n_dmrs := ug_ncs_dmrs pg\<rparr>);
           let pc = (if 0 < uc_ri_len uci \<and> res = 0 then ue_db_set_ri rnti (uc_ri uci) pc else pc);
           Some (True, b, put_worker_ue rnti u w, pc,
                 cs @ pusch_reports tti rnti (mj_grant g) acks res (ug_mcs_tbs pg) uci snr_db b)
         }
     }
   }"

text \<open>A grant the library refuses ends the loop.\<close>

primrec decode_grants ::
  "srslte \<Rightarrow> phy_lib \<Rightarrow> rx_signal \<Rightarrow> mac_ul_grant list \<Rightarrow> wideband \<times> round \<Rightarrow> (int \<times> round) option" where
  "decode_grants E H X [] a = Some (0, snd a)"
| "decode_grants E H X (g # gs) a = do {
     (go, a) \<leftarrow> decode_grant E H X g a;
     if go then decode_grants E H X gs a else Some (-1, snd a)
   }"

definition decode_pusch ::
  "srslte \<Rightarrow> phy_lib \<Rightarrow> rx_signal \<Rightarrow> mac_ul_grant list \<Rightarrow> round \<Rightarrow> (int \<times> round) option" where
  "decode_pusch E H X grants a =
     decode_grants E H X grants (\<lparr>wb_cqi = 0, wb_pmi = 0, wb_pmi_present = False\<rparr>, a)"

text \<open>What a user has to send on the control channel.\<close>

definition pucch_uci ::
  "srslte \<Rightarrow> phy_lib \<Rightarrow> phch_common \<Rightarrow> u32 \<Rightarrow> u16 \<Rightarrow> worker_ue \<Rightarrow> bool list \<Rightarrow>
   bool \<times> bool \<times> bool \<times> cqi_value \<times> uci_data" where
  "pucch_uci E H pc tti rnti u acks =
     (let sr_due = wu_I_sr_en u \<and> sr_send_tti E (wu_I_sr u) tti;
          uci = uci_zero\<lparr>uc_scheduling_request := sr_due, uc_ack_len := ack_len acks\<rparr>;
          needs_pucch = sr_due \<or> (\<exists>b \<in> set acks. b);
          both = acks ! 0 \<and> acks ! 1
      in if wu_cqi_en u \<and> (wu_pucch_cqi_ack u \<or> \<not> both) then
           if wu_ri_en u \<and> ri_send H (wu_pmi_idx u) (wu_ri_idx u) tti then
             (True, sr_due, False, cqi_value_zero, uci\<lparr>uc_ri_len := 1, uc_ri_periodic_report := True\<rparr>)
           else if cqi_send E (wu_pmi_idx u) tti then
             (let v = (if wu_tx_mode u = TM4
                       then cqi_value_zero\<lparr>cv_wb_pmi_present := True, cv_wb_rank_is_not_one := 0 < ue_db_get_ri rnti pc\<rparr>
                       else cqi_value_zero)
              in (True, sr_due, True, v, uci\<lparr>uc_cqi_len := cqi_size H v\<rparr>))
           else (needs_pucch, sr_due, False, cqi_value_zero, uci)
         else (needs_pucch, sr_due, False, cqi_value_zero, uci))"

definition pucch_reports ::
  "phy_lib \<Rightarrow> u32 \<Rightarrow> u16 \<Rightarrow> bool list \<Rightarrow> bool \<Rightarrow> bool \<Rightarrow> cqi_value \<Rightarrow> uci_data \<Rightarrow> rat \<Rightarrow> phy_call list" where
  "pucch_reports H tti rnti acks sr_due cqi_due v uci corr =
     ack_infos tti rnti acks uci (PUCCH_RL_CORR_TH \<le> corr)
     @ (if uc_scheduling_request uci then [To_Mac (Mac_Sr_Detected tti rnti)] else [])
     @ (if PUCCH_RL_CORR_TH < corr then
          if uc_ri_periodic_report uci then [To_Mac (Mac_Ri_Info tti rnti (uc_ri uci))]
          else if uc_cqi_len uci \<noteq> 0 \<and> cqi_due then
            let v = cqi_value_unpack H (uc_cqi uci) v
            in To_Mac (Mac_Cqi_Info tti rnti (cv_wb_cqi v))
               # (if cv_type v = CQI_WIDEBAND \<and> cv_wb_pmi_present v
                  then [To_Mac (Mac_Pmi_Info tti rnti (cv_wb_pmi v))] else [])
          else []
        else [])
     @ (if sr_due then []
        else [To_Mac (if corr < PUCCH_RL_CORR_TH then Mac_Rl_Failure rnti else Mac_Rl_Ok rnti)])"

definition decode_pucch_user ::
  "srslte \<Rightarrow> phy_lib \<Rightarrow> rx_signal \<Rightarrow> u16 \<Rightarrow> round \<Rightarrow> (bool \<times> round) option" where
  "decode_pucch_user E H X rnti a = do {
     let (w, pc, cs) = a;
     let u = worker_ue_at rnti w;
     let tti = wk_tti_rx w;
     if is_crnti H rnti \<and> wu_has_grant_tti u \<noteq> i32 tti then do {
       (acks, pc, last_n_pdcch) \<leftarrow> take_acks E (wk_t_rx w) rnti pc;
       let (needs_pucch, sr_due, cqi_due, v, uci) = pucch_uci E H pc tti rnti u acks;
       if needs_pucch then
         let (fails, uci, corr) = rx_pucch X rnti last_n_pdcch (wk_sf_rx w) uci
         in if fails then Some (False, w, pc, cs)
            else
              let pc = (if PUCCH_RL_CORR_TH < corr \<and> uc_ri_periodic_report uci
                        then ue_db_set_ri rnti (uc_ri uci) pc else pc)
              in Some (True, w, pc, cs @ pucch_reports H tti rnti acks sr_due cqi_due v uci corr)
       else Some (True, w, pc, cs)
     } else Some (True, w, pc, cs)
   }"

primrec decode_pucch_users ::
  "srslte \<Rightarrow> phy_lib \<Rightarrow> rx_signal \<Rightarrow> u16 list \<Rightarrow> round \<Rightarrow> (int \<times> round) option" where
  "decode_pucch_users E H X [] a = Some (0, a)"
| "decode_pucch_users E H X (k # ks) a = do {
     (go, a) \<leftarrow> decode_pucch_user E H X k a;
     if go then decode_pucch_users E H X ks a else Some (-1, a)
   }"

definition decode_pucch :: "srslte \<Rightarrow> phy_lib \<Rightarrow> rx_signal \<Rightarrow> round \<Rightarrow> (int \<times> round) option" where
  "decode_pucch E H X a = decode_pucch_users E H X (map fst (wk_ue_db (fst a))) a"

section \<open>Encoding\<close>

definition encode_phich :: "(bool \<times> u16) list \<Rightarrow> phch_worker \<Rightarrow> phch_worker \<times> phy_call list" where
  "encode_phich acks w =
     fold (\<lambda>(ack, rnti) (w, cs).
         if rnti = 0 then (w, cs)
         else let u = worker_ue_at rnti w
              in (put_worker_ue rnti u w,
                  cs @ [To_Enb (Put_Phich ack (wu_phich_n_prb_lowest u) (wu_phich_n_dmrs u) (wk_sf_tx w))]))
       acks (w, [])"

text \<open>A call of the encoder that fails, as \<open>ok\<close> tells, ends the loop; the callers do not test the result.\<close>

primrec put_all :: "(enb_out \<Rightarrow> bool) \<Rightarrow> enb_out list \<Rightarrow> int \<times> phy_call list" where
  "put_all ok [] = (0, [])"
| "put_all ok (c # cs) =
     (if ok c then let (r, cs') = put_all ok cs in (r, To_Enb c # cs') else (-1, [To_Enb c]))"

definition encode_pdcch_ul :: "(enb_out \<Rightarrow> bool) \<Rightarrow> mac_ul_grant list \<Rightarrow> phch_worker \<Rightarrow> int \<times> phy_call list" where
  "encode_pdcch_ul ok grants w =
     put_all ok (map (\<lambda>g. Put_Pdcch_Ul (mj_grant g) (mj_location g) (mj_rnti g) (wk_sf_tx w))
       (filter (\<lambda>g. mj_needs_pdcch g \<and> mj_rnti g \<noteq> 0) grants))"

definition encode_pdcch_dl :: "(enb_out \<Rightarrow> bool) \<Rightarrow> mac_dl_grant list \<Rightarrow> phch_worker \<Rightarrow> int \<times> phy_call list" where
  "encode_pdcch_dl ok grants w =
     put_all ok (map (\<lambda>g. Put_Pdcch_Dl (mg_grant g) (mg_dci_format g) (mg_location g) (mg_rnti g) (wk_sf_tx w))
       (filter (\<lambda>g. mg_rnti g \<noteq> 0) grants))"

definition encode_pmch :: "phch_common \<Rightarrow> mac_dl_grant \<Rightarrow> u8 \<Rightarrow> phch_worker \<Rightarrow> phy_call list" where
  "encode_pmch pc g mcs w = [To_Enb (Put_Pmch mcs (cl_nof_prb (pc_cell pc)) (wk_sf_tx w) (mg_data g 0))]"

text \<open>The transmission scheme; format 0 is not for the downlink and leaves the default.\<close>

definition mimo_of :: "phch_common \<Rightarrow> dci_format \<Rightarrow> dl_phy_grant \<Rightarrow> mimo_type" where
  "mimo_of pc f p =
     (let default = (if cl_nof_ports (pc_cell pc) = 1 then MIMO_SINGLE_ANTENNA else MIMO_TX_DIVERSITY)
      in case f of
           FORMAT2A \<Rightarrow> if pg_nof_tb p = 1 then MIMO_TX_DIVERSITY else if pg_nof_tb p = 2 then MIMO_CDD else default
         | FORMAT2 \<Rightarrow>
             if pg_nof_tb p = 1 then if pg_pinfo p = 0 then MIMO_TX_DIVERSITY else MIMO_SPATIAL_MULTIPLEX
             else if pg_nof_tb p = 2 then MIMO_SPATIAL_MULTIPLEX else default
         | _ \<Rightarrow> default)"

definition power_of :: "phy_lib \<Rightarrow> phch_common \<Rightarrow> worker_ue \<Rightarrow> enb_out option" where
  "power_of H pc u = do {
     let p_a = (if wu_pdsch_cnfg_ded u < length (pdsch_config_p_a_num H)
                then Some (pdsch_config_p_a_num H ! wu_pdsch_cnfg_ded u) else None);
     p_b \<leftarrow> (if pc_pdsch_p_b pc < 4
             then do { r \<leftarrow> rd2 (cell_specific_ratio_table H) (if cl_nof_ports (pc_cell pc) = 1 then 0 else 1)
                              (unat (pc_pdsch_p_b pc)); Some (Some r) }
             else Some None);
     Some (Put_Power p_a p_b)
   }"

definition encode_pdsch_grant ::
  "phy_lib \<Rightarrow> (enb_out \<Rightarrow> bool) \<Rightarrow> phch_common \<Rightarrow> mac_dl_grant \<Rightarrow> phch_worker \<times> phy_call list \<Rightarrow>
   (bool \<times> phch_worker \<times> phy_call list) option" where
  "encode_pdsch_grant H ok pc g a = do {
     let (w, cs) = a;
     let rnti = mg_rnti g;
     if rnti = 0 then Some (True, w, cs)
     else do {
       let p = ra_dl_dci_to_grant H (mg_grant g) (cl_nof_prb (pc_cell pc)) rnti;
       let u = worker_ue_at rnti w;
       power \<leftarrow> power_of H pc u;
       let c = Put_Pdsch p (mg_softbuffers g) rnti (uint (dd_rv_idx (mg_grant g)), uint (dd_rv_idx_1 (mg_grant g)))
                 (wk_sf_tx w) (mg_data g) (mimo_of pc (mg_dci_format g) p);
       let cs = cs @ [To_Enb power, To_Enb c];
       if ok c then Some (True, put_worker_ue rnti (metrics_dl (pg_mcs_idx p) u) w, cs)
       else Some (False, put_worker_ue rnti u w, cs)
     }
   }"

primrec encode_pdsch_grants ::
  "phy_lib \<Rightarrow> (enb_out \<Rightarrow> bool) \<Rightarrow> phch_common \<Rightarrow> mac_dl_grant list \<Rightarrow> phch_worker \<times> phy_call list \<Rightarrow>
   (phch_worker \<times> phy_call list) option" where
  "encode_pdsch_grants H ok pc [] a = Some (fst a, snd a @ [To_Enb Apply_Power])"
| "encode_pdsch_grants H ok pc (g # gs) a = do {
     (go, a) \<leftarrow> encode_pdsch_grant H ok pc g a;
     if go then encode_pdsch_grants H ok pc gs a else Some a
   }"

definition encode_pdsch ::
  "phy_lib \<Rightarrow> (enb_out \<Rightarrow> bool) \<Rightarrow> phch_common \<Rightarrow> mac_dl_grant list \<Rightarrow> phch_worker \<Rightarrow>
   (phch_worker \<times> phy_call list) option" where
  "encode_pdsch H ok pc grants w = encode_pdsch_grants H ok pc grants (w, [To_Enb Prepare_Power])"

section \<open>The round\<close>

text \<open>
  The replies of the MAC: the value, and what it writes through the pointer, if anything. The multicast
  reply writes the first grant only, and neither the number of grants nor that of control symbols.
\<close>

record mac_replies =
  rp_dl :: "int \<times> (mac_dl_grant list \<times> u32) option"
  rp_mch :: "int \<times> mac_dl_grant option"
  rp_ul :: "int \<times> (mac_ul_grant list \<times> (bool \<times> u16) list) option"

definition dl_grant_zero :: mac_dl_grant where
  "dl_grant_zero = \<lparr>mg_rnti = 0, mg_dci_format = FORMAT0, mg_grant = dl_dci_zero, mg_location = \<lparr>dl_L = 0, dl_ncce = 0\<rparr>,
     mg_softbuffers = (\<lambda>_. None), mg_data = (\<lambda>_. Null)\<rparr>"

definition dl_grants :: "dl_sched_grants \<Rightarrow> mac_dl_grant list" where
  "dl_grants s = take (dg_nof_grants s) (dg_sched_grants s @ replicate (dg_nof_grants s) dl_grant_zero)"

definition first_grant :: "dl_sched_grants \<Rightarrow> mac_dl_grant" where
  "first_grant s = (case dg_sched_grants s of [] \<Rightarrow> dl_grant_zero | g # _ \<Rightarrow> g)"

definition write_dl_reply :: "(mac_dl_grant list \<times> u32) option \<Rightarrow> dl_sched_grants \<Rightarrow> dl_sched_grants" where
  "write_dl_reply r s =
     (case r of
        None \<Rightarrow> s
      | Some (gs, cfi) \<Rightarrow> \<lparr>dg_cfi = cfi, dg_nof_grants = length gs,
                          dg_sched_grants = gs @ drop (length gs) (dg_sched_grants s)\<rparr>)"

definition write_mch_reply :: "mac_dl_grant option \<Rightarrow> dl_sched_grants \<Rightarrow> dl_sched_grants" where
  "write_mch_reply r s =
     (case r of
        None \<Rightarrow> s
      | Some g \<Rightarrow> s\<lparr>dg_sched_grants := g # drop 1 (dg_sched_grants s)\<rparr>)"

definition write_ul_reply ::
  "(mac_ul_grant list \<times> (bool \<times> u16) list) option \<Rightarrow> ul_sched_grants \<Rightarrow> ul_sched_grants" where
  "write_ul_reply r s = (case r of None \<Rightarrow> s | Some (gs, phich) \<Rightarrow> \<lparr>ulg_grants = gs, ulg_phich = phich\<rparr>)"

text \<open>The blocks sent to users are awaited: for each enabled block of a grant.\<close>

definition await_acks ::
  "srslte \<Rightarrow> phy_lib \<Rightarrow> u32 \<Rightarrow> mac_dl_grant \<Rightarrow> phch_common \<Rightarrow> phch_common option" where
  "await_acks E H slot g pc =
     (if is_crnti H (mg_rnti g)
      then foldM (\<lambda>tb pc. if dd_tb_en (mg_grant g) tb
                          then ue_db_set_ack_pending slot (mg_rnti g) tb (dl_ncce (mg_location g)) pc else Some pc)
             [0..<SRSLTE_MAX_TB E] pc
      else Some pc)"

definition ack_slot :: "srslte \<Rightarrow> phy_lib \<Rightarrow> phch_worker \<Rightarrow> u32" where
  "ack_slot E H w = TTIMOD H (TTI_TX E (wk_t_tx_dl w))"

text \<open>
  What comes before the grants are encoded: the third result tells whether the round goes on. The slot
  of the grants is written even when it does not.
\<close>

definition reset_grant_tti :: "phch_worker \<Rightarrow> phch_worker" where
  "reset_grant_tti w = w\<lparr>wk_ue_db := map (\<lambda>(k, u). (k, u\<lparr>wu_has_grant_tti := -1\<rparr>)) (wk_ue_db w)\<rparr>"

definition receive ::
  "srslte \<Rightarrow> phy_lib \<Rightarrow> rx_signal \<Rightarrow> phch_worker \<Rightarrow> phch_common \<Rightarrow> round option" where
  "receive E H X w pc = do {
     let w = reset_grant_tti w;
     g \<leftarrow> rd (pc_ul_grants pc) (unat (wk_t_rx w));
     (_, a) \<leftarrow> decode_pusch E H X (ulg_grants g) (w, pc, [Ul_Fft]);
     (_, a) \<leftarrow> decode_pucch E H X a;
     Some a
   }"

definition fetch_grants ::
  "subframe_cfg \<Rightarrow> mac_replies \<Rightarrow> phch_worker \<Rightarrow> phch_common \<Rightarrow> (bool \<times> phch_common \<times> phy_call list) option" where
  "fetch_grants c M w pc = do {
     let t = unat (wk_t_tx_dl w);
     let t' = unat (wk_t_tx_ul w);
     d \<leftarrow> rd (pc_dl_grants pc) t;
     let regular = (sfc_sf_type c = SUBFRAME_TYPE_REGULAR);
     let (ok, d, cs) =
       (if regular then (0 \<le> fst (rp_dl M), write_dl_reply (snd (rp_dl M)) d, [To_Mac (Mac_Get_Dl_Sched (wk_tti_tx_dl w))])
        else (fst (rp_mch M) = 0,
              write_mch_reply (snd (rp_mch M)) (d\<lparr>dg_cfi := ucast (sfc_non_mbsfn_region_length c)\<rparr>),
              [To_Enb (Set_Non_Mbsfn_Region (sfc_non_mbsfn_region_length c)),
               To_Mac (Mac_Get_Mch_Sched (sfc_is_mcch c))]));
     ds \<leftarrow> wr (pc_dl_grants pc) t d;
     let pc = pc\<lparr>pc_dl_grants := ds\<rparr>;
     if \<not> ok \<or> dg_cfi d < 1 \<or> 3 < dg_cfi d then Some (False, pc, cs)
     else do {
       u \<leftarrow> rd (pc_ul_grants pc) t';
       us \<leftarrow> wr (pc_ul_grants pc) t' (write_ul_reply (snd (rp_ul M)) u);
       Some (0 \<le> fst (rp_ul M), pc\<lparr>pc_ul_grants := us\<rparr>, cs @ [To_Mac (Mac_Get_Ul_Sched (wk_tti_tx_ul w))])
     }
   }"

definition encode ::
  "phy_lib \<Rightarrow> (enb_out \<Rightarrow> bool) \<Rightarrow> subframe_cfg \<Rightarrow> dl_sched_grants \<Rightarrow> ul_sched_grants \<Rightarrow> phch_common \<Rightarrow> phch_worker \<Rightarrow>
   (phch_worker \<times> phy_call list) option" where
  "encode H ok c d g pc w = do {
     let regular = (sfc_sf_type c = SUBFRAME_TYPE_REGULAR);
     let base = (if regular then [To_Enb (Put_Base (wk_tti_tx_dl w))]
                 else if sfc_mbsfn_encode c then [To_Enb (Put_Mbsfn_Base (wk_tti_tx_dl w))] else []);
     (w, cs) \<leftarrow> (if regular then do {
                  (w', cs) \<leftarrow> encode_pdsch H ok pc (dl_grants d) w;
                  Some (w', snd (encode_pdcch_dl ok (dl_grants d) w) @ cs)
                } else Some (w, encode_pmch pc (first_grant d) (sfc_mbsfn_mcs c) w));
     let (w', phich) = encode_phich (ulg_phich g) w;
     Some (w', [To_Enb Clear_Sf, To_Enb (Set_Cfi (dg_cfi d))] @ base @ cs
               @ snd (encode_pdcch_ul ok (ulg_grants g) w) @ phich)
   }"

text \<open>A round that gives up before it has encoded ends without its turn to transmit.\<close>

definition work_imp ::
  "srslte \<Rightarrow> phy_lib \<Rightarrow> rx_signal \<Rightarrow> (enb_out \<Rightarrow> bool) \<Rightarrow> subframe_cfg \<Rightarrow> mac_replies \<Rightarrow> phch_worker \<Rightarrow> phch_common \<Rightarrow>
   round option" where
  "work_imp E H X ok memory M w pc = do {
     if \<not> wk_running w then Some (w, pc, [])
     else do {
       c \<leftarrow> get_sf_config H memory (wk_tti_tx_dl w) pc;
       (w, pc, cs) \<leftarrow> receive E H X (w\<lparr>wk_is_worker_running := True\<rparr>) pc;
       (go, pc, cs') \<leftarrow> fetch_grants c M w pc;
       if \<not> go then Some (w\<lparr>wk_is_worker_running := False\<rparr>, pc, cs @ cs')
       else do {
         d \<leftarrow> rd (pc_dl_grants pc) (unat (wk_t_tx_dl w));
         g \<leftarrow> rd (pc_ul_grants pc) (unat (wk_t_tx_ul w));
         (w, out) \<leftarrow> encode H ok c d g pc w;
         pc \<leftarrow> ue_db_clear E (ack_slot E H w) pc;
         pc \<leftarrow> foldM (await_acks E H (ack_slot E H w)) (dl_grants d) pc;
         Some (w\<lparr>wk_is_worker_running := False\<rparr>, pc, cs @ cs' @ out
                 @ [To_Enb (if sfc_sf_type c = SUBFRAME_TYPE_REGULAR then Gen_Signal else Gen_Signal_Mbsfn),
                    Worker_End (wk_tx_worker_cnt w) (wk_tx_time w)])
       }
     }
   }"

end
