(* ===== verification/Phy.thy ===== *)
theory Phy
  imports Phch_Round Prach_Worker
begin

text \<open>
  The physical layer as a whole (\<open>phy/phy.cc\<close>) and the thread that receives (\<open>phy/txrx.cc\<close>): the workers,
  what they share, the preamble detector, and the calls of the MAC and the RRC, which go to every
  worker. The radio, the pool of threads and the clock are the library's: the worker the pool picks,
  the samples and the time of a subframe are arguments. Locking pages into memory and the settings of
  the radio's clock are left out.
\<close>

section \<open>State\<close>

definition MAX_WORKERS :: u32 where
  "MAX_WORKERS = 4"

text \<open>The configuration the RRC hands over; the members the code reads.\<close>

record phy_common_cfg =
  pg_cell :: srslte_cell
  pg_prach :: prach_cfg
  pg_pusch :: dmrs_pusch_cfg
  pg_hopping_intra_and_inter :: bool
  pg_n_sb :: u32
  pg_pusch_hopping_offset :: u32
  pg_delta_pucch_shift :: nat
  pg_n_cs_an :: u32
  pg_n_rb_cqi :: u32
  pg_n1_pucch_an :: u32
  pg_pdsch_p_b :: u32

record 'x phy =
  ph_nof_workers :: u32
  ph_workers :: "phch_worker list"
  ph_common :: phch_common
  ph_prach :: "'x prach_worker"
  ph_prach_cfg :: prach_cfg
  ph_mbsfn :: phy_cfg_mbsfn
  ph_tti :: u32
  ph_tx_worker_cnt :: u32
  ph_txrx_running :: bool

section \<open>Start and stop\<close>

definition parse_config :: "rrc_lib \<Rightarrow> phy_common_cfg \<Rightarrow> 'x phy \<Rightarrow> 'x phy" where
  "parse_config B c y = y\<lparr>ph_prach_cfg := pg_prach c,
     ph_common := (ph_common y)\<lparr>
       pc_pusch_cfg := pg_pusch c,
       pc_hopping_cfg := \<lparr>hp_hop_mode = if pg_hopping_intra_and_inter c then HOP_MODE_INTRA_SF else HOP_MODE_INTER_SF,
                          hp_n_sb = pg_n_sb c, hp_hopping_offset = pg_pusch_hopping_offset c\<rparr>,
       pc_pucch_cfg := \<lparr>pc_delta_pucch_shift =
                           delta_pucch_shift_num B (pg_delta_pucch_shift c mod DELTA_PUCCH_SHIFT_N_ITEMS B),
                        pc_N_cs = pg_n_cs_an c, pc_n_rb_2 = pg_n_rb_cqi c, pc_n1_pucch_an = pg_n1_pucch_an c\<rparr>,
       pc_pdsch_p_b := ucast (pg_pdsch_p_b c)\<rparr>\<rparr>"

text \<open>The receiving thread starts before the first TTI so that the first transmission is for TTI 0.\<close>

definition txrx_init :: "'x phy \<Rightarrow> 'x phy" where
  "txrx_init y = y\<lparr>ph_tx_worker_cnt := 0, ph_txrx_running := True, ph_tti := 10235,
     ph_common := set_nof_workers (ph_nof_workers y) (ph_common y)\<rparr>"

definition on_workers ::
  "(phch_worker \<Rightarrow> phch_worker \<times> phy_call list) \<Rightarrow> 'x phy \<Rightarrow> ('x phy \<times> phy_call list) option" where
  "on_workers f y =
     (let n = unat (ph_nof_workers y) in
      if length (ph_workers y) < n then None
      else let rs = map f (take n (ph_workers y))
           in Some (y\<lparr>ph_workers := map fst rs @ drop n (ph_workers y)\<rparr>, concat (map snd rs)))"

definition phy_init ::
  "phy_lib \<Rightarrow> mac_lib \<Rightarrow> rrc_lib \<Rightarrow> 'x prach_lib \<Rightarrow> bool \<Rightarrow> (u16 \<Rightarrow> bool) \<Rightarrow> (u16 \<Rightarrow> bool) \<Rightarrow> u32 \<Rightarrow> rat \<Rightarrow> phy_common_cfg \<Rightarrow>
   'x phy \<Rightarrow> ('x phy \<times> phy_call list) option" where
  "phy_init H L B Q ok dl_ok ul_ok nof_phy_threads max_offset_us cfg y = do {
     let y = parse_config B cfg (y\<lparr>ph_nof_workers := nof_phy_threads,
                                   ph_common := phch_common_init H (pg_cell cfg) (ph_common y)\<rparr>);
     (y, cs) \<leftarrow> on_workers (phch_worker_init L ok dl_ok ul_ok) y;
     let p = set_max_prach_offset_us max_offset_us (snd (prach_init Q (pg_cell cfg) (ph_prach_cfg y) (ph_prach y)));
     Some (txrx_init (y\<lparr>ph_prach := p\<rparr>), cs)
   }"

definition phy_stop :: "bool \<Rightarrow> 'x phy \<Rightarrow> 'x phy option" where
  "phy_stop ends y = do {
     (y, _) \<leftarrow> on_workers (\<lambda>w. (snd (phch_worker_stop ends w), [])) (y\<lparr>ph_txrx_running := False\<rparr>);
     pc \<leftarrow> phch_common_stop (ph_common y);
     Some (y\<lparr>ph_common := pc, ph_prach := prach_stop (ph_prach y)\<rparr>)
   }"

definition tti_to_SFN :: "u32 \<Rightarrow> u32" where
  "tti_to_SFN tti = tti div 10"

definition tti_to_subf :: "u32 \<Rightarrow> u32" where
  "tti_to_subf tti = tti mod 10"

section \<open>Calls of the MAC\<close>

text \<open>The first worker that refuses an RNTI ends the loop.\<close>

primrec workers_add_rnti ::
  "(u16 \<Rightarrow> bool) \<Rightarrow> (u16 \<Rightarrow> bool) \<Rightarrow> u16 \<Rightarrow> phch_worker list \<Rightarrow> int \<times> phch_worker list \<times> phy_call list" where
  "workers_add_rnti dl_ok ul_ok rnti [] = (0, [], [])"
| "workers_add_rnti dl_ok ul_ok rnti (w # ws) =
     (let (r, w, cs) = worker_add_rnti dl_ok ul_ok rnti w in
      if r \<noteq> 0 then (-1, w # ws, cs)
      else let (r, ws, cs') = workers_add_rnti dl_ok ul_ok rnti ws in (r, w # ws, cs @ cs'))"

definition phy_add_rnti ::
  "srslte \<Rightarrow> phy_lib \<Rightarrow> (u16 \<Rightarrow> bool) \<Rightarrow> (u16 \<Rightarrow> bool) \<Rightarrow> u16 \<Rightarrow> 'x phy \<Rightarrow> (int \<times> 'x phy \<times> phy_call list) option" where
  "phy_add_rnti E H dl_ok ul_ok rnti y = do {
     pc \<leftarrow> (if is_crnti H rnti then ue_db_add_rnti E H rnti (ph_common y) else Some (ph_common y));
     let n = unat (ph_nof_workers y);
     if length (ph_workers y) < n then None
     else
       let (r, ws, cs) = workers_add_rnti dl_ok ul_ok rnti (take n (ph_workers y))
       in Some (r, y\<lparr>ph_common := pc, ph_workers := ws @ drop n (ph_workers y)\<rparr>, cs)
   }"

primrec workers_rem_rnti ::
  "u16 \<Rightarrow> phch_worker list \<Rightarrow> phch_common \<Rightarrow> phch_worker list \<times> phch_common \<times> phy_call list" where
  "workers_rem_rnti rnti [] pc = ([], pc, [])"
| "workers_rem_rnti rnti (w # ws) pc =
     (let (w, pc, cs) = worker_rem_rnti rnti w pc; (ws, pc, cs') = workers_rem_rnti rnti ws pc
      in (w # ws, pc, cs @ cs'))"

definition phy_rem_rnti :: "phy_lib \<Rightarrow> u16 \<Rightarrow> 'x phy \<Rightarrow> ('x phy \<times> phy_call list) option" where
  "phy_rem_rnti H rnti y =
     (let pc = (if is_crnti H rnti then ue_db_rem_rnti rnti (ph_common y) else ph_common y);
          n = unat (ph_nof_workers y) in
      if length (ph_workers y) < n then None
      else let (ws, pc, cs) = workers_rem_rnti rnti (take n (ph_workers y)) pc
           in Some (y\<lparr>ph_workers := ws @ drop n (ph_workers y), ph_common := pc\<rparr>, cs))"

text \<open>
  \<open>get_metrics\<close> adds up what the workers report, weighted by samples. It reads as many entries of its
  temporary array as the first worker has RNTIs, system RNTIs included; \<open>memory\<close> has the contents of the
  array before it is written. A mean of no samples is no number.
\<close>

definition weighted :: "(phy_metrics \<Rightarrow> int) \<Rightarrow> (phy_metrics \<Rightarrow> rat) \<Rightarrow> phy_metrics list \<Rightarrow> rat option" where
  "weighted n v ms =
     (let total = sum_list (map n ms) in
      if total = 0 then None
      else Some (sum_list (map (\<lambda>m. of_int (n m) * v m) ms) / of_int total))"

record phy_metrics_sum =
  ps_dl_n_samples :: int
  ps_dl_mcs :: "rat option"
  ps_ul_n_samples :: int
  ps_ul_mcs :: "rat option"
  ps_ul_n :: "rat option"
  ps_ul_rssi :: "rat option"
  ps_ul_sinr :: "rat option"
  ps_ul_turbo_iters :: "rat option"

definition sum_metrics :: "phy_metrics list \<Rightarrow> phy_metrics_sum" where
  "sum_metrics ms = \<lparr>ps_dl_n_samples = sum_list (map pm_dl_n_samples ms),
     ps_dl_mcs = weighted pm_dl_n_samples pm_dl_mcs ms,
     ps_ul_n_samples = sum_list (map pm_ul_n_samples ms), ps_ul_mcs = weighted pm_ul_n_samples pm_ul_mcs ms,
     ps_ul_n = weighted pm_ul_n_samples pm_ul_n ms, ps_ul_rssi = weighted pm_ul_n_samples pm_ul_rssi ms, ps_ul_sinr = weighted pm_ul_n_samples pm_ul_sinr ms,
     ps_ul_turbo_iters = weighted pm_ul_n_samples pm_ul_turbo_iters ms\<rparr>"

primrec read_metrics ::
  "phy_lib \<Rightarrow> phch_worker list \<Rightarrow> phy_metrics list \<Rightarrow> phy_metrics list list \<times> phch_worker list" where
  "read_metrics H [] memory = ([], [])"
| "read_metrics H (w # ws) memory =
     (let (ms, w) = worker_get_metrics H w; tmp = ms @ drop (length ms) memory; (rows, ws) = read_metrics H ws tmp
      in (tmp # rows, w # ws))"

definition phy_get_metrics ::
  "phy_lib \<Rightarrow> phy_metrics list \<Rightarrow> 'x phy \<Rightarrow> (phy_metrics_sum list \<times> 'x phy) option" where
  "phy_get_metrics H memory y = do {
     w0 \<leftarrow> rd (ph_workers y) 0;
     let n = unat (ph_nof_workers y);
     let (rows, ws) = read_metrics H (take n (ph_workers y)) memory;
     ms \<leftarrow> foldM (\<lambda>j ms. if length memory \<le> j then None else Some (ms @ [sum_metrics (map (\<lambda>row. row ! j) rows)]))
            [0..<unat (get_nof_rnti w0)] [];
     Some (ms, y\<lparr>ph_workers := ws @ drop n (ph_workers y)\<rparr>)
   }"

section \<open>Calls of the RRC\<close>

definition phy_set_conf_dedicated_ack :: "u16 \<Rightarrow> bool \<Rightarrow> 'x phy \<Rightarrow> ('x phy \<times> phy_call list) option" where
  "phy_set_conf_dedicated_ack rnti ack y = on_workers (\<lambda>w. (worker_set_conf_dedicated_ack rnti ack w, [])) y"

definition phy_set_config_dedicated :: "u16 \<Rightarrow> phy_cfg_ded \<Rightarrow> 'x phy \<Rightarrow> ('x phy \<times> phy_call list) option" where
  "phy_set_config_dedicated rnti d y = on_workers (worker_set_config_dedicated (ph_common y) rnti d) y"

text \<open>
  The subframe configurations of SIB2, the areas of SIB13 and the channels of the MCCH; the first of
  each is taken, if there is one, and otherwise the members keep their values.
\<close>

record mbsfn_subfr_cnfg =
  ms_radio_fr_alloc_period :: nat
  ms_radio_fr_alloc_offset :: u8
  ms_num_frames :: num_frames
  ms_alloc :: u32

record mbsfn_area_info =
  ma_area_id :: u8
  ma_region_length :: nat
  ma_repetition_period :: nat
  ma_mcch_offset :: u8
  ma_sf_alloc_info :: u32
  ma_signalling_mcs :: nat

definition phy_configure_mbsfn ::
  "phy_lib \<Rightarrow> mbsfn_subfr_cnfg list \<Rightarrow> mbsfn_area_info list \<Rightarrow> u8 list \<Rightarrow> 'x phy \<Rightarrow> 'x phy" where
  "phy_configure_mbsfn H subfr areas datamcs y =
     (let b = ph_mbsfn y;
          b = (case subfr of
                 [] \<Rightarrow> b
               | s # _ \<Rightarrow> b\<lparr>mb_radio_fr_alloc_period := ms_radio_fr_alloc_period s,
                   mb_radio_fr_alloc_offset := ms_radio_fr_alloc_offset s,
                   mb_subfr_alloc_num_frames := ms_num_frames s, mb_subfr_alloc := ms_alloc s\<rparr>);
          b = (case areas of
                 [] \<Rightarrow> b
               | a # _ \<Rightarrow> b\<lparr>mb_area_id := ma_area_id a, mb_non_mbsfn_region_length := ma_region_length a,
                   mb_mcch_repetition_period := ma_repetition_period a, mb_mcch_offset := ma_mcch_offset a,
                   mb_sf_alloc_info := ma_sf_alloc_info a, mb_signalling_mcs := ma_signalling_mcs a\<rparr>);
          b = b\<lparr>mb_pmch_datamcs := datamcs\<rparr>
      in y\<lparr>ph_mbsfn := b, ph_common := common_configure_mbsfn H b (ph_common y)\<rparr>)"

section \<open>Receiving\<close>

text \<open>
  One round of the receiving thread. \<open>pick\<close> is the worker the pool picks for the TTI, none when the pool
  closes; \<open>rx_time\<close> is in microseconds. The round of the worker runs in its own thread.
\<close>

definition txrx_step ::
  "srslte \<Rightarrow> phy_lib \<Rightarrow> 'x prach_lib \<Rightarrow> (u32 \<Rightarrow> nat option) \<Rightarrow> 'x list \<Rightarrow> int \<Rightarrow> 'x phy \<Rightarrow>
   (nat option \<times> 'x phy) option" where
  "txrx_step E H Q pick rx rx_time y = do {
     let tti = (ph_tti y + 1) mod 10240;
     let y = y\<lparr>ph_tti := tti\<rparr>;
     case pick tti of
       None \<Rightarrow> Some (None, y\<lparr>ph_txrx_running := False\<rparr>)
     | Some i \<Rightarrow> do {
         w \<leftarrow> rd (ph_workers y) i;
         let cnt = ph_tx_worker_cnt y;
         ws \<leftarrow> wr (ph_workers y) i (set_time E H tti cnt (rx_time + int (HARQ_DELAY_MS E) * 1000) w);
         if ph_nof_workers y = 0 then None
         else Some (Some i, y\<lparr>ph_workers := ws, ph_tx_worker_cnt := (cnt + 1) mod ph_nof_workers y,
                              ph_prach := snd (prach_new_tti Q tti rx (ph_prach y))\<rparr>)
       }
   }"

end
