(* ===== verification/Phy_Acks.thy ===== *)
theory Phy_Acks
  imports Phch_Round
begin

text \<open>
  The acknowledgements a base station waits for. A round stores which blocks it sent to which user, in
  the slot of the TTI at which the answer is due, and the round of that TTI reports each of them to the
  MAC. The table is seen through \<open>pend\<close>: whether an answer of a user is due in a slot for a block.
\<close>

section \<open>The table\<close>

definition cu_ok :: "srslte \<Rightarrow> phy_lib \<Rightarrow> common_ue \<Rightarrow> bool" where
  "cu_ok E H u \<longleftrightarrow> length (cu_is_pending u) = TTIMOD_SZ H \<and>
     (\<forall>row \<in> set (cu_is_pending u). length row = SRSLTE_MAX_TB E) \<and> length (cu_n_pdcch u) = TTIMOD_SZ H \<and>
     length (cu_last_ul_tbs u) = 2 * HARQ_DELAY_MS E \<and> length (cu_last_ul_mod u) = 2 * HARQ_DELAY_MS E"

definition pc_ok :: "srslte \<Rightarrow> phy_lib \<Rightarrow> phch_common \<Rightarrow> bool" where
  "pc_ok E H pc \<longleftrightarrow> (\<forall>p \<in> set (pc_common_ue_db pc). cu_ok E H (snd p))"

definition due :: "common_ue \<Rightarrow> nat \<Rightarrow> nat \<Rightarrow> bool" where
  "due u s tb \<longleftrightarrow> rd2 (cu_is_pending u) s tb = Some True"

definition pend :: "phch_common \<Rightarrow> u16 \<Rightarrow> nat \<Rightarrow> nat \<Rightarrow> bool" where
  "pend pc k s tb \<longleftrightarrow> (\<exists>u. common_ue_of k pc = Some u \<and> due u s tb)"

definition known :: "phch_common \<Rightarrow> u16 \<Rightarrow> bool" where
  "known pc k \<longleftrightarrow> common_ue_of k pc \<noteq> None"

text \<open>What an operation on the table leaves as it was, and which answers it takes out.\<close>

definition same :: "phch_common \<Rightarrow> phch_common \<Rightarrow> bool" where
  "same pc pc' \<longleftrightarrow> pc'\<lparr>pc_common_ue_db := []\<rparr> = pc\<lparr>pc_common_ue_db := []\<rparr>"

definition takes ::
  "srslte \<Rightarrow> phy_lib \<Rightarrow> (u16 \<Rightarrow> nat \<Rightarrow> nat \<Rightarrow> bool) \<Rightarrow> phch_common \<Rightarrow> phch_common \<Rightarrow> bool" where
  "takes E H P pc pc' \<longleftrightarrow> pc_ok E H pc' \<and> same pc pc' \<and> (\<forall>j. known pc j \<longrightarrow> known pc' j) \<and>
     (\<forall>j s t. pend pc' j s t \<longleftrightarrow> pend pc j s t \<and> \<not> P j s t)"

abbreviation nothing :: "u16 \<Rightarrow> nat \<Rightarrow> nat \<Rightarrow> bool" where
  "nothing \<equiv> \<lambda>_ _ _. False"

lemma same_refl [simp]: "same pc pc"
  by (simp add: same_def)

lemma same_fields:
  assumes "same pc pc'"
  shows "pc_ul_grants pc' = pc_ul_grants pc" "pc_dl_grants pc' = pc_dl_grants pc" "pc_cell pc' = pc_cell pc"
proof -
  have "pc_ul_grants (pc'\<lparr>pc_common_ue_db := []\<rparr>) = pc_ul_grants (pc\<lparr>pc_common_ue_db := []\<rparr>)"
    "pc_dl_grants (pc'\<lparr>pc_common_ue_db := []\<rparr>) = pc_dl_grants (pc\<lparr>pc_common_ue_db := []\<rparr>)"
    "pc_cell (pc'\<lparr>pc_common_ue_db := []\<rparr>) = pc_cell (pc\<lparr>pc_common_ue_db := []\<rparr>)"
    using assms unfolding same_def by simp_all
  then show "pc_ul_grants pc' = pc_ul_grants pc" "pc_dl_grants pc' = pc_dl_grants pc" "pc_cell pc' = pc_cell pc"
    by simp_all
qed

lemma takes_refl: "pc_ok E H pc \<Longrightarrow> takes E H nothing pc pc"
  by (simp add: takes_def)

lemma takes_trans: "takes E H P pc pc1 \<Longrightarrow> takes E H Q pc1 pc2 \<Longrightarrow> takes E H (\<lambda>j s t. P j s t \<or> Q j s t) pc pc2"
  by (auto simp: takes_def same_def)

lemma takes_cong: "takes E H P pc pc' \<Longrightarrow> (\<And>j s t. P j s t \<longleftrightarrow> Q j s t) \<Longrightarrow> takes E H Q pc pc'"
  by (simp add: takes_def)

lemma takes_ok: "takes E H P pc pc' \<Longrightarrow> pc_ok E H pc'"
  by (simp add: takes_def)

lemma common_put [simp]: "common_ue_of k (put_common_ue j u pc) = (if k = j then Some u else common_ue_of k pc)"
  by (simp add: common_ue_of_def put_common_ue_def om.look_put)

lemma same_put [simp]: "same pc (put_common_ue j u pc)"
  by (simp add: same_def put_common_ue_def)

lemma ok_of: "pc_ok E H pc \<Longrightarrow> common_ue_of k pc = Some u \<Longrightarrow> cu_ok E H u"
  unfolding pc_ok_def common_ue_of_def by (metis map_of_SomeD snd_conv)

lemma ok_put: "pc_ok E H pc \<Longrightarrow> cu_ok E H u \<Longrightarrow> pc_ok E H (put_common_ue k u pc)"
  using set_omap_set_sub[of k u "pc_common_ue_db pc"] by (auto simp: pc_ok_def put_common_ue_def)

text \<open>Writing back a user, in general and with the answers unchanged.\<close>

lemma takes_put:
  assumes "pc_ok E H pc" "cu_ok E H u'" "\<And>s t. due u' s t \<longleftrightarrow> pend pc k s t \<and> \<not> Q s t"
  shows "takes E H (\<lambda>j s t. j = k \<and> Q s t) pc (put_common_ue k u' pc)"
  using assms ok_put[OF assms(1,2)] by (auto simp: takes_def known_def pend_def)

lemma takes_put_same:
  assumes "pc_ok E H pc" "common_ue_of k pc = Some u" "cu_is_pending u' = cu_is_pending u" "cu_ok E H u'"
  shows "takes E H nothing pc (put_common_ue k u' pc)"
  using takes_put[of E H pc u' k "\<lambda>_ _. False"] assms by (simp add: pend_def due_def)

lemma put_pending_at:
  assumes "cu_ok E H u" "s < TTIMOD_SZ H" "tb < SRSLTE_MAX_TB E"
  obtains u' where "put_pending s tb b u = Some u'" "cu_ok E H u'" "cu_n_pdcch u' = cu_n_pdcch u"
    "\<And>s' t. due u' s' t \<longleftrightarrow> (if s' = s \<and> t = tb then b else due u s' t)"
proof -
  let ?p = "cu_is_pending u"
  have l: "s < length ?p" "tb < length (?p ! s)" using assms by (simp_all add: cu_ok_def)
  let ?u = "u\<lparr>cu_is_pending := ?p[s := (?p ! s)[tb := b]]\<rparr>"
  have "put_pending s tb b u = Some ?u" using l by (simp add: put_pending_def)
  moreover have "cu_ok E H ?u" using assms(1) l by (auto simp: cu_ok_def dest!: subsetD[OF set_update_subset_insert])
  moreover have "due ?u s' t \<longleftrightarrow> (if s' = s \<and> t = tb then b else due u s' t)" for s' t
    using l by (cases "s' = s") (auto simp: due_def rd2_def rd_def nth_list_update split: if_splits)
  ultimately show ?thesis using that by simp
qed

lemma clear_pending_at:
  assumes "cu_ok E H u" "s < TTIMOD_SZ H"
  obtains u' where "clear_pending E s u = Some u'" "cu_ok E H u'" "\<And>s' t. due u' s' t \<longleftrightarrow> due u s' t \<and> s' \<noteq> s"
proof -
  have "\<exists>u'. foldM (\<lambda>tb. put_pending s tb False) [0..<i] u = Some u' \<and> cu_ok E H u' \<and>
      (\<forall>s' t. due u' s' t \<longleftrightarrow> due u s' t \<and> \<not> (s' = s \<and> t < i))" if "i \<le> SRSLTE_MAX_TB E" for i
    using that
  proof (induction i)
    case (Suc i)
    then obtain u1 where u1: "foldM (\<lambda>tb. put_pending s tb False) [0..<i] u = Some u1" "cu_ok E H u1"
        "\<And>s' t. due u1 s' t \<longleftrightarrow> due u s' t \<and> \<not> (s' = s \<and> t < i)" by auto
    have "i < SRSLTE_MAX_TB E" using Suc.prems by simp
    then obtain u2 where "put_pending s i False u1 = Some u2" "cu_ok E H u2"
        "\<And>s' t. due u2 s' t \<longleftrightarrow> (if s' = s \<and> t = i then False else due u1 s' t)"
      by (rule put_pending_at[OF u1(2) assms(2), of i False]) blast
    then show ?case using u1 by (auto simp: foldM_append less_Suc_eq)
  qed (use assms in simp)
  then obtain u' where u': "clear_pending E s u = Some u'" "cu_ok E H u'"
      "\<And>s' t. due u' s' t \<longleftrightarrow> due u s' t \<and> \<not> (s' = s \<and> t < SRSLTE_MAX_TB E)"
    unfolding clear_pending_def by blast
  have "due u s t \<Longrightarrow> t < SRSLTE_MAX_TB E" for t
    using assms by (auto simp: due_def rd2_def rd_def cu_ok_def split: if_splits)
  then show ?thesis using that[OF u'(1,2)] u'(3) by blast
qed

section \<open>Operations on the table\<close>

text \<open>What \<open>wk_t_rx\<close> and the other slots are: numbers below the size of the table.\<close>

definition tti_slot_ok :: "phy_lib \<Rightarrow> u32 \<Rightarrow> bool" where
  "tti_slot_ok H s \<longleftrightarrow> unat s < TTIMOD_SZ H"

lemma is_ack_pending_at:
  assumes "pc_ok E H pc" "tti_slot_ok H s" "tb < SRSLTE_MAX_TB E"
  obtains pc' n where "ue_db_is_ack_pending s k tb pc = Some (pend pc k (unat s) tb, pc', n)"
    "takes E H (\<lambda>j s' t. j = k \<and> s' = unat s \<and> t = tb) pc pc'"
proof (cases "common_ue_of k pc")
  case None
  then have "takes E H (\<lambda>j s' t. j = k \<and> s' = unat s \<and> t = tb) pc pc" using assms(1) by (auto simp: takes_def pend_def)
  then show ?thesis using that None by (simp add: ue_db_is_ack_pending_def pend_def)
next
  case (Some u)
  have u: "cu_ok E H u" using ok_of[OF assms(1) Some] .
  obtain u' where u': "put_pending (unat s) tb False u = Some u'" "cu_ok E H u'" "cu_n_pdcch u' = cu_n_pdcch u"
      "\<And>s' t. due u' s' t \<longleftrightarrow> (if s' = unat s \<and> t = tb then False else due u s' t)"
    using put_pending_at[OF u assms(2)[unfolded tti_slot_ok_def] assms(3), of False] by blast
  have r: "rd2 (cu_is_pending u) (unat s) tb = Some (pend pc k (unat s) tb)" "rd (cu_n_pdcch u') (unat s) \<noteq> None"
    using u u'(2,3) assms(2,3) Some by (auto simp: cu_ok_def tti_slot_ok_def pend_def due_def rd2_def)
  have "takes E H (\<lambda>j s' t. j = k \<and> s' = unat s \<and> t = tb) pc (put_common_ue k u' pc)"
    using takes_put[OF assms(1) u'(2), of k "\<lambda>s' t. s' = unat s \<and> t = tb"] u'(4) Some by (simp add: pend_def)
  then show ?thesis using that Some r u'(1) by (auto simp: ue_db_is_ack_pending_def)
qed

lemma take_acks_at:
  assumes "pc_ok E H pc" "tti_slot_ok H s"
  obtains pc' n where "take_acks E s k pc = Some (map (pend pc k (unat s)) [0..<SRSLTE_MAX_TB E], pc', n)"
    "takes E H (\<lambda>j s' t. j = k \<and> s' = unat s) pc pc'"
proof -
  let ?f = "\<lambda>tb (acks, pc, n). do { (p, pc, last) \<leftarrow> ue_db_is_ack_pending s k tb pc;
         Some (acks @ [p], pc, case last of None \<Rightarrow> n | Some m \<Rightarrow> m) }"
  have "\<exists>pc' n. foldM ?f [0..<i] ([], pc, 0) = Some (map (pend pc k (unat s)) [0..<i], pc', n) \<and>
      takes E H (\<lambda>j s' t. j = k \<and> s' = unat s \<and> t < i) pc pc'" if "i \<le> SRSLTE_MAX_TB E" for i
    using that
  proof (induction i)
    case (Suc i)
    then obtain pc1 n where p: "foldM ?f [0..<i] ([], pc, 0) = Some (map (pend pc k (unat s)) [0..<i], pc1, n)"
        "takes E H (\<lambda>j s' t. j = k \<and> s' = unat s \<and> t < i) pc pc1" by auto
    have "i < SRSLTE_MAX_TB E" using Suc.prems by simp
    then obtain pc2 m where q: "ue_db_is_ack_pending s k i pc1 = Some (pend pc1 k (unat s) i, pc2, m)"
        "takes E H (\<lambda>j s' t. j = k \<and> s' = unat s \<and> t = i) pc1 pc2"
      using is_ack_pending_at[OF takes_ok[OF p(2)] assms(2)] by blast
    have "pend pc1 k (unat s) i = pend pc k (unat s) i" using p(2) by (simp add: takes_def)
    moreover have "takes E H (\<lambda>j s' t. j = k \<and> s' = unat s \<and> t < Suc i) pc pc2"
      using takes_trans[OF p(2) q(2)] by (simp add: less_Suc_eq conj_disj_distribL)
    ultimately show ?case using p(1) q(1) by (simp add: foldM_append)
  qed (use assms in \<open>simp add: takes_refl\<close>)
  then obtain pc' n where r: "take_acks E s k pc = Some (map (pend pc k (unat s)) [0..<SRSLTE_MAX_TB E], pc', n)"
      "takes E H (\<lambda>j s' t. j = k \<and> s' = unat s \<and> t < SRSLTE_MAX_TB E) pc pc'"
    unfolding take_acks_def by blast
  have "pend pc j s' t \<Longrightarrow> t < SRSLTE_MAX_TB E" for j s' t
    using assms(1) ok_of by (fastforce simp: pend_def due_def rd2_def rd_def cu_ok_def bind_eq_Some_conv split: if_splits)
  then have "takes E H (\<lambda>j s' t. j = k \<and> s' = unat s) pc pc'" using r(2) unfolding takes_def by blast
  then show ?thesis using that r(1) by blast
qed

lemma set_ri_takes: "pc_ok E H pc \<Longrightarrow> takes E H nothing pc (ue_db_set_ri k ri pc)"
  using takes_put_same ok_of by (cases "common_ue_of k pc") (fastforce simp: ue_db_set_ri_def takes_refl cu_ok_def)+

lemma common_zero: "cu_ok E H (common_ue_zero E H)" "\<not> due (common_ue_zero E H) s t"
  by (auto simp: cu_ok_def common_ue_zero_def due_def rd2_def rd_def split: if_splits)

lemma common_add_takes:
  assumes "pc_ok E H pc"
  obtains pc' where "common_add_rnti E H k pc = Some pc'" "takes E H (\<lambda>j s t. j = k) pc pc'" "known pc' k"
proof -
  let ?u = "common_ue_at E H k pc"
  have u: "cu_ok E H ?u" using ok_of[OF assms] common_zero(1) by (simp add: common_ue_at_def split: option.splits)
  have "\<exists>u'. foldM (\<lambda>s. clear_pending E s) [0..<i] ?u = Some u' \<and> cu_ok E H u' \<and> (\<forall>s t. due u' s t \<longrightarrow> i \<le> s)"
    if "i \<le> TTIMOD_SZ H" for i
    using that
  proof (induction i)
    case (Suc i)
    then obtain u1 where u1: "foldM (\<lambda>s. clear_pending E s) [0..<i] ?u = Some u1" "cu_ok E H u1" "\<And>s t. due u1 s t \<Longrightarrow> i \<le> s" by auto
    have "i < TTIMOD_SZ H" using Suc.prems by simp
    then obtain u2 where "clear_pending E i u1 = Some u2" "cu_ok E H u2" "\<And>s t. due u2 s t \<longleftrightarrow> due u1 s t \<and> s \<noteq> i"
      using clear_pending_at[OF u1(2)] by blast
    then show ?case using u1 by (fastforce simp: foldM_append Suc_le_eq le_neq_implies_less)
  qed (use u in simp)
  then obtain u' where u': "foldM (\<lambda>s. clear_pending E s) [0..<TTIMOD_SZ H] ?u = Some u'" "cu_ok E H u'"
      "\<And>s t. due u' s t \<Longrightarrow> TTIMOD_SZ H \<le> s" by blast
  have "\<not> due u' s t" for s t
    using u'(2) u'(3)[of s t] by (auto simp: due_def rd2_def rd_def cu_ok_def split: if_splits)
  then have "takes E H (\<lambda>j s t. j = k \<and> True) pc (put_common_ue k u' pc)" using assms u'(2) by (intro takes_put) simp_all
  then show ?thesis using that u'(1) by (simp add: common_add_rnti_def known_def)
qed

lemma last_ul_reads:
  assumes "pc_ok E H pc" "0 < HARQ_DELAY_MS E"
  shows "\<exists>x. ue_db_get_last_ul_tbs E H k tti pc = Some x" "\<exists>y. ue_db_get_last_ul_mod E H k tti pc = Some y"
proof -
  have "ul_slot E H tti < 2 * HARQ_DELAY_MS E" using assms(2) by (simp add: ul_slot_def)
  then show "\<exists>x. ue_db_get_last_ul_tbs E H k tti pc = Some x" "\<exists>y. ue_db_get_last_ul_mod E H k tti pc = Some y"
    using ok_of[OF assms(1)] by (auto simp: ue_db_get_last_ul_tbs_def ue_db_get_last_ul_mod_def cu_ok_def split: option.splits)
qed

lemma last_ul_takes:
  assumes "pc_ok E H pc" "0 < HARQ_DELAY_MS E"
  obtains pc1 pc2 where "ue_db_set_last_ul_tbs E H k tti tbs pc = Some pc1" "takes E H nothing pc pc1"
    "ue_db_set_last_ul_mod E H k tti md pc = Some pc2" "takes E H nothing pc pc2"
proof -
  have slot: "ul_slot E H tti < 2 * HARQ_DELAY_MS E" using assms(2) by (simp add: ul_slot_def)
  obtain pc0 u where w: "with_common_ue E H k pc = Some pc0" "takes E H nothing pc pc0" "common_ue_of k pc0 = Some u"
  proof (cases "common_ue_of k pc")
    case None
    obtain pc' where a: "common_add_rnti E H k pc = Some pc'" "takes E H (\<lambda>j s t. j = k) pc pc'" "known pc' k"
      using common_add_takes[OF assms(1)] by blast
    have "takes E H nothing pc pc'" using a(2) None by (auto simp: takes_def pend_def)
    then show ?thesis using that a None by (auto simp: with_common_ue_def known_def)
  next
    case (Some u)
    then show ?thesis using that takes_refl[OF assms(1)] by (simp add: with_common_ue_def)
  qed
  have ok: "pc_ok E H pc0" "cu_ok E H u" using takes_ok[OF w(2)] ok_of w(3) by blast+
  let ?u1 = "u\<lparr>cu_last_ul_tbs := (cu_last_ul_tbs u)[ul_slot E H tti := tbs]\<rparr>"
  let ?u2 = "u\<lparr>cu_last_ul_mod := (cu_last_ul_mod u)[ul_slot E H tti := md]\<rparr>"
  have t: "takes E H nothing pc (put_common_ue k ?u1 pc0)" "takes E H nothing pc (put_common_ue k ?u2 pc0)"
    using takes_trans[OF w(2) takes_put_same[OF ok(1) w(3)]] ok(2) by (simp_all add: cu_ok_def)
  show ?thesis using t slot w(1,3) ok(2)
    by (intro that[of "put_common_ue k ?u1 pc0" "put_common_ue k ?u2 pc0"])
      (simp_all add: ue_db_set_last_ul_tbs_def ue_db_set_last_ul_mod_def cu_ok_def)
qed

lemma phy_pusch_grant_takes:
  assumes "pc_ok E H pc" "0 < HARQ_DELAY_MS E"
  obtains g' pc' where "phy_pusch_grant E H k tti g pc = Some (g', pc')" "takes E H nothing pc pc'"
proof -
  obtain tbs where tbs: "(if 28 < ug_mcs_idx g then ue_db_get_last_ul_tbs E H k tti pc else Some (ug_mcs_tbs g)) = Some tbs"
    using last_ul_reads(1)[OF assms, of k tti] by (cases "28 < ug_mcs_idx g") auto
  obtain pc1 where p1: "ue_db_set_last_ul_tbs E H k tti tbs pc = Some pc1" "takes E H nothing pc pc1"
    using last_ul_takes[OF assms, of k tti tbs] by blast
  note ok1 = takes_ok[OF p1(2)]
  obtain md qm where md: "(if ug_mod g = MOD_LAST
        then do { md \<leftarrow> ue_db_get_last_ul_mod E H k tti pc1; Some (md, mod_bits_x_symbol H md) }
        else Some (ug_mod g, ug_Qm g)) = Some (md, qm)"
    using last_ul_reads(2)[OF ok1 assms(2), of k tti] by (cases "ug_mod g = MOD_LAST") auto
  obtain pc2 where p2: "ue_db_set_last_ul_mod E H k tti md pc1 = Some pc2" "takes E H nothing pc1 pc2"
    using last_ul_takes[OF ok1 assms(2), of k tti _ md] by blast
  have "takes E H nothing pc pc2" using takes_trans[OF p1(2) p2(2)] by simp
  then show ?thesis using that tbs p1(1) md p2(1) by (auto simp: phy_pusch_grant_def)
qed

section \<open>Decoding\<close>

text \<open>How often the MAC is told of an answer of a user for a block.\<close>

definition told :: "u16 \<Rightarrow> nat \<Rightarrow> phy_call list \<Rightarrow> nat" where
  "told k tb cs = length (filter (\<lambda>c. case c of To_Mac (Mac_Ack_Info t j b a) \<Rightarrow> j = k \<and> b = tb | _ \<Rightarrow> False) cs)"

lemma told_append [simp]: "told k tb (xs @ ys) = told k tb xs + told k tb ys"
  by (simp add: told_def)

lemma told_Nil [simp]: "told k tb [] = 0"
  by (simp add: told_def)

lemma told_if: "told k tb (if b then xs else ys) = (if b then told k tb xs else told k tb ys)"
  by simp

lemma told_Cons [simp]:
  "told k tb (c # cs) = (case c of To_Mac (Mac_Ack_Info t j b a) \<Rightarrow> if j = k \<and> b = tb then 1 else 0 | _ \<Rightarrow> 0) + told k tb cs"
  by (simp add: told_def split: phy_call.splits mac_ind.splits)

lemma count_distinct: "distinct xs \<Longrightarrow> length (filter (\<lambda>t. t = x) xs) = (if x \<in> set xs then 1 else 0)"
  by (induction xs) auto

lemma told_acks:
  "told k tb (ack_infos tti j acks uci valid) = (if k = j \<and> tb < length acks \<and> acks ! tb then 1 else 0)"
proof -
  let ?xs = "filter (\<lambda>t. acks ! t) [0..<length acks]"
  have "told k tb (map (\<lambda>(idx, t). To_Mac (Mac_Ack_Info tti j t (f idx))) (enumerate n xs)) =
      (if j = k then length (filter (\<lambda>t. t = tb) xs) else 0)" for f n and xs :: "nat list"
    by (induction xs arbitrary: n) (auto simp: told_def)
  moreover have "length (filter (\<lambda>t. t = tb) ?xs) = (if tb < length acks \<and> acks ! tb then 1 else 0)"
  proof -
    have "distinct ?xs" by simp
    then show ?thesis by (subst count_distinct) auto
  qed
  ultimately show ?thesis by (auto simp: ack_infos_def)
qed

lemma told_pusch: "told k tb (pusch_reports tti j dci acks res tbs uci snr b) = told k tb (ack_infos tti j acks uci (res = 0 \<or> PUSCH_RL_SNR_DB_TH < snr))"
  by (simp add: pusch_reports_def Let_def told_if)

lemma told_pucch: "told k tb (pucch_reports H tti j acks sr cqi v uci corr) = told k tb (ack_infos tti j acks uci (PUCCH_RL_CORR_TH \<le> corr))"
  by (simp add: pucch_reports_def Let_def told_if)

text \<open>The library makes a grant of all control information, and the decoder of the control channel does not fail.\<close>

definition decoders_ok :: "phy_lib \<Rightarrow> rx_signal \<Rightarrow> bool" where
  "decoders_ok H X \<longleftrightarrow> (\<forall>d n m. ra_ul_dci_to_grant H d n m \<noteq> None) \<and> (\<forall>k n s u. \<not> fst (rx_pucch X k n s u))"

text \<open>Of a worker everything but the users, and the users alone.\<close>

definition times :: "phch_worker \<Rightarrow> phch_worker" where
  "times w = w\<lparr>wk_ue_db := []\<rparr>"

lemma times_fields:
  assumes "times w' = times w"
  shows "wk_tti_rx w' = wk_tti_rx w" "wk_t_rx w' = wk_t_rx w" "wk_t_tx_dl w' = wk_t_tx_dl w" "wk_t_tx_ul w' = wk_t_tx_ul w"
    "wk_tti_tx_dl w' = wk_tti_tx_dl w"
proof -
  have "f (w'\<lparr>wk_ue_db := []\<rparr>) = f (w\<lparr>wk_ue_db := []\<rparr>)" for f :: "phch_worker \<Rightarrow> u32"
    using assms unfolding times_def by simp
  from this[of wk_tti_rx] this[of wk_t_rx] this[of wk_t_tx_dl] this[of wk_t_tx_ul] this[of wk_tti_tx_dl]
  show "wk_tti_rx w' = wk_tti_rx w" "wk_t_rx w' = wk_t_rx w" "wk_t_tx_dl w' = wk_t_tx_dl w" "wk_t_tx_ul w' = wk_t_tx_ul w"
    "wk_tti_tx_dl w' = wk_tti_tx_dl w" by simp_all
qed

definition users :: "phch_worker \<Rightarrow> u16 set" where
  "users w = fst ` set (wk_ue_db w)"

definition grant_tti :: "phch_worker \<Rightarrow> u16 \<Rightarrow> int" where
  "grant_tti w k = wu_has_grant_tti (worker_ue_at k w)"

lemma worker_put [simp]: "worker_ue_at k (put_worker_ue j u w) = (if k = j then u else worker_ue_at k w)"
  by (simp add: worker_ue_at_def worker_ue_of_def put_worker_ue_def om.look_put)

lemma users_put [simp]: "users (put_worker_ue j u w) = insert j (users w)"
  by (simp add: users_def put_worker_ue_def set_omap_set)

lemma times_put [simp]: "times (put_worker_ue j u w) = times w"
  by (simp add: times_def put_worker_ue_def)

lemma wf_put_worker: "omap_wf (wk_ue_db w) \<Longrightarrow> omap_wf (wk_ue_db (put_worker_ue j u w))"
  by (simp add: put_worker_ue_def om.wf_put)

lemma metrics_ul_grant [simp]: "wu_has_grant_tti (metrics_ul a b c d u) = wu_has_grant_tti u"
  by (simp add: metrics_ul_def Let_def)

text \<open>What one grant does.\<close>

lemma decode_grant_at:
  assumes "pc_ok E H pc" "tti_slot_ok H (wk_t_rx w)" "0 < HARQ_DELAY_MS E" "decoders_ok H X" "mj_rnti g \<noteq> 0"
  obtains b' w' pc' new where "decode_grant E H X g (b, w, pc, cs) = Some (True, b', w', pc', cs @ new)"
    "takes E H (\<lambda>j s t. j = mj_rnti g \<and> s = unat (wk_t_rx w)) pc pc'" "times w' = times w"
    "users w' = insert (mj_rnti g) (users w)"
    "\<And>k. grant_tti w' k = (if k = mj_rnti g then i32 (wk_tti_rx w) else grant_tti w k)"
    "omap_wf (wk_ue_db w) \<Longrightarrow> omap_wf (wk_ue_db w')"
    "\<And>k tb. told k tb new = (if k = mj_rnti g \<and> tb < SRSLTE_MAX_TB E \<and> pend pc k (unat (wk_t_rx w)) tb then 1 else 0)"
proof -
  let ?k = "mj_rnti g" and ?s = "wk_t_rx w" and ?tti = "wk_tti_rx w"
  obtain pc1 n where a: "take_acks E ?s ?k pc = Some (map (pend pc ?k (unat ?s)) [0..<SRSLTE_MAX_TB E], pc1, n)"
      "takes E H (\<lambda>j s t. j = ?k \<and> s = unat ?s) pc pc1"
    using take_acks_at[OF assms(1,2)] by blast
  let ?acks = "map (pend pc ?k (unat ?s)) [0..<SRSLTE_MAX_TB E]"
  let ?req = "ud_cqi_request (mj_grant g)"
  obtain en v uci where q: "pusch_cqi E H pc1 ?tti ?k (worker_ue_at ?k w) ?req (uci_zero\<lparr>uc_ack_len := ack_len ?acks\<rparr>) = (en, v, uci)"
    by (metis surj_pair)
  obtain pg where pg: "ra_ul_dci_to_grant H (mj_grant g) (cl_nof_prb (pc_cell pc1)) 0 = Some pg"
    using assms(4) unfolding decoders_ok_def by (metis option.exhaust)
  obtain pg' pc2 where p2: "phy_pusch_grant E H ?k ?tti pg pc1 = Some (pg', pc2)" "takes E H nothing pc1 pc2"
    using phy_pusch_grant_takes[OF takes_ok[OF a(2)] assms(3)] by blast
  let ?u = "(worker_ue_at ?k w)\<lparr>wu_has_grant_tti := i32 ?tti\<rparr>"
  let ?w = "put_worker_ue ?k ?u w"
  obtain res uci' v' n_prb snr noi where x: "rx_pusch X pg' (mj_softbuffer g) ?k 0 (mj_current_tx_nb g) (mj_data g)
      (if en then Some v else None) uci (wk_sf_rx ?w) = (res, uci', v', n_prb, snr, noi)"
    by (metis surj_pair)
  let ?pc = "if 0 < uc_ri_len uci' \<and> res = 0 then ue_db_set_ri ?k (uc_ri uci') pc2 else pc2"
  have t: "takes E H (\<lambda>j s t. j = ?k \<and> s = unat ?s) pc ?pc"
    using takes_trans[OF a(2) p2(2)] takes_trans[OF takes_trans[OF a(2) p2(2)] set_ri_takes[OF takes_ok[OF p2(2)]]] by simp
  let ?u' = "metrics_ul (ug_mcs_idx pg') 0 snr noi (?u\<lparr>wu_phich_n_prb_lowest := n_prb, wu_phich_n_dmrs := ug_ncs_dmrs pg'\<rparr>)"
  let ?b = "wideband_of en ?u ?req v' b"
  show ?thesis
  proof (rule that[of ?b "put_worker_ue ?k ?u' ?w" ?pc "pusch_reports ?tti ?k (mj_grant g) ?acks res (ug_mcs_tbs pg') uci' snr ?b"])
    show "decode_grant E H X g (b, w, pc, cs) = Some (True, ?b, put_worker_ue ?k ?u' ?w, ?pc,
        cs @ pusch_reports ?tti ?k (mj_grant g) ?acks res (ug_mcs_tbs pg') uci' snr ?b)"
      using assms(5) a(1) q pg p2(1) x by (simp add: decode_grant_def Let_def)
    show "\<And>k tb. told k tb (pusch_reports ?tti ?k (mj_grant g) ?acks res (ug_mcs_tbs pg') uci' snr ?b) =
        (if k = ?k \<and> tb < SRSLTE_MAX_TB E \<and> pend pc k (unat ?s) tb then 1 else 0)"
      by (auto simp: told_pusch told_acks)
  qed (use t in \<open>auto simp: grant_tti_def wf_put_worker\<close>)
qed

text \<open>All grants of a subframe: every user with a grant is asked once.\<close>

definition granted :: "mac_ul_grant list \<Rightarrow> u16 set" where
  "granted gs = {k. k \<noteq> 0 \<and> k \<in> mj_rnti ` set gs}"

lemma decode_grants_at:
  assumes "pc_ok E H pc" "tti_slot_ok H (wk_t_rx w)" "0 < HARQ_DELAY_MS E" "decoders_ok H X"
  shows "\<exists>w' pc' new. decode_grants E H X gs (b, w, pc, cs) = Some (0, w', pc', cs @ new) \<and>
    takes E H (\<lambda>j s t. j \<in> granted gs \<and> s = unat (wk_t_rx w)) pc pc' \<and> times w' = times w \<and>
    users w' = users w \<union> granted gs \<and>
    (\<forall>k. grant_tti w' k = (if k \<in> granted gs then i32 (wk_tti_rx w) else grant_tti w k)) \<and>
    (omap_wf (wk_ue_db w) \<longrightarrow> omap_wf (wk_ue_db w')) \<and>
    (\<forall>k tb. told k tb new = (if k \<in> granted gs \<and> tb < SRSLTE_MAX_TB E \<and> pend pc k (unat (wk_t_rx w)) tb then 1 else 0))"
  using assms
proof (induction gs arbitrary: b w pc cs)
  case Nil
  then show ?case by (simp add: granted_def takes_refl)
next
  case (Cons g gs)
  show ?case
  proof (cases "mj_rnti g = 0")
    case True
    then have "granted (g # gs) = granted gs" by (auto simp: granted_def)
    then show ?thesis using Cons.IH[OF Cons.prems] True by (simp add: decode_grant_def)
  next
    case False
    then have e: "granted (g # gs) = insert (mj_rnti g) (granted gs)" by (auto simp: granted_def)
    obtain b1 w1 pc1 new1 where a: "decode_grant E H X g (b, w, pc, cs) = Some (True, b1, w1, pc1, cs @ new1)"
        "takes E H (\<lambda>j s t. j = mj_rnti g \<and> s = unat (wk_t_rx w)) pc pc1" "times w1 = times w"
        "users w1 = insert (mj_rnti g) (users w)"
        "\<And>k. grant_tti w1 k = (if k = mj_rnti g then i32 (wk_tti_rx w) else grant_tti w k)"
        "omap_wf (wk_ue_db w) \<Longrightarrow> omap_wf (wk_ue_db w1)"
        "\<And>k tb. told k tb new1 = (if k = mj_rnti g \<and> tb < SRSLTE_MAX_TB E \<and> pend pc k (unat (wk_t_rx w)) tb then 1 else 0)"
      using decode_grant_at[OF Cons.prems False, of b cs] by blast
    have t: "wk_t_rx w1 = wk_t_rx w" "wk_tti_rx w1 = wk_tti_rx w" using times_fields[OF a(3)] by simp_all
    obtain w2 pc2 new2 where c: "decode_grants E H X gs (b1, w1, pc1, cs @ new1) = Some (0, w2, pc2, (cs @ new1) @ new2)"
        "takes E H (\<lambda>j s t. j \<in> granted gs \<and> s = unat (wk_t_rx w)) pc1 pc2" "times w2 = times w1"
        "users w2 = users w1 \<union> granted gs"
        "\<forall>k. grant_tti w2 k = (if k \<in> granted gs then i32 (wk_tti_rx w) else grant_tti w1 k)"
        "omap_wf (wk_ue_db w1) \<longrightarrow> omap_wf (wk_ue_db w2)"
        "\<forall>k tb. told k tb new2 = (if k \<in> granted gs \<and> tb < SRSLTE_MAX_TB E \<and> pend pc1 k (unat (wk_t_rx w)) tb then 1 else 0)"
      using Cons.IH[of pc1 w1 b1 "cs @ new1"] takes_ok[OF a(2)] Cons.prems(2-4) by (auto simp: t)
    have "takes E H (\<lambda>j s t. j \<in> granted (g # gs) \<and> s = unat (wk_t_rx w)) pc pc2"
      using takes_trans[OF a(2) c(2)] by (simp add: e conj_disj_distribR)
    moreover have "pend pc1 k s tb \<longleftrightarrow> pend pc k s tb \<and> \<not> (k = mj_rnti g \<and> s = unat (wk_t_rx w))" for k s tb
      using a(2) by (simp add: takes_def)
    ultimately show ?thesis using a c
      by (intro exI[of _ w2] exI[of _ pc2] exI[of _ "new1 @ new2"]) (auto simp: e)
  qed
qed

text \<open>The control channel: users without a grant.\<close>

lemma acks_all: "(\<exists>b \<in> set acks. b) \<or> (\<forall>i < length acks. \<not> acks ! i)"
  by (metis nth_mem)

lemma pucch_needed:
  assumes "pucch_uci E H pc tti k u acks = (p, r)"
  shows "p \<or> (\<forall>i < length acks. \<not> acks ! i)"
  using assms acks_all[of acks] by (auto simp: pucch_uci_def Let_def split: if_splits)

lemma decode_pucch_user_at:
  fixes E H X w pc cs and k :: u16
  assumes "pc_ok E H pc" "tti_slot_ok H (wk_t_rx w)" "decoders_ok H X"
  defines "asked \<equiv> is_crnti H k \<and> grant_tti w k \<noteq> i32 (wk_tti_rx w)"
  shows "\<exists>pc' new. decode_pucch_user E H X k (w, pc, cs) = Some (True, w, pc', cs @ new) \<and>
    takes E H (\<lambda>j s t. asked \<and> j = k \<and> s = unat (wk_t_rx w)) pc pc' \<and>
    (\<forall>j tb. told j tb new = (if asked \<and> j = k \<and> tb < SRSLTE_MAX_TB E \<and> pend pc k (unat (wk_t_rx w)) tb then 1 else 0))"
proof (cases asked)
  case False
  then have n: "\<not> (is_crnti H k \<and> wu_has_grant_tti (worker_ue_at k w) \<noteq> i32 (wk_tti_rx w))"
    unfolding asked_def grant_tti_def .
  have "decode_pucch_user E H X k (w, pc, cs) = Some (True, w, pc, cs @ [])"
    unfolding decode_pucch_user_def Let_def prod.case if_not_P[OF n] by simp
  then show ?thesis using False takes_refl[OF assms(1)] by (intro exI[of _ pc] exI[of _ "[]"]) simp
next
  case True
  let ?s = "unat (wk_t_rx w)" and ?tti = "wk_tti_rx w"
  obtain pc1 n where a: "take_acks E (wk_t_rx w) k pc = Some (map (pend pc k ?s) [0..<SRSLTE_MAX_TB E], pc1, n)"
      "takes E H (\<lambda>j s t. j = k \<and> s = ?s) pc pc1"
    using take_acks_at[OF assms(1,2)] by blast
  let ?acks = "map (pend pc k ?s) [0..<SRSLTE_MAX_TB E]"
  obtain p sr cqi v uci where u: "pucch_uci E H pc1 ?tti k (worker_ue_at k w) ?acks = (p, sr, cqi, v, uci)" by (metis surj_pair)
  have c: "is_crnti H k" "wu_has_grant_tti (worker_ue_at k w) \<noteq> i32 ?tti" using True by (simp_all add: asked_def grant_tti_def)
  show ?thesis
  proof (cases p)
    case False
    have "decode_pucch_user E H X k (w, pc, cs) = Some (True, w, pc1, cs @ [])"
      using a(1) u False c by (simp add: decode_pucch_user_def Let_def)
    moreover have "\<forall>tb < SRSLTE_MAX_TB E. \<not> pend pc k ?s tb" using pucch_needed[OF u] False by simp
    ultimately show ?thesis using a(2) True by (intro exI[of _ pc1] exI[of _ "[]"]) auto
  next
    case p: True
    obtain uci' corr where x: "rx_pucch X k n (wk_sf_rx w) uci = (False, uci', corr)"
      using assms(3) unfolding decoders_ok_def by (metis prod.collapse)
    let ?pc = "if PUCCH_RL_CORR_TH < corr \<and> uc_ri_periodic_report uci' then ue_db_set_ri k (uc_ri uci') pc1 else pc1"
    have "decode_pucch_user E H X k (w, pc, cs) =
        Some (True, w, ?pc, cs @ pucch_reports H ?tti k ?acks sr cqi v uci' corr)"
      using a(1) u p x c by (simp add: decode_pucch_user_def Let_def)
    moreover have "takes E H (\<lambda>j s t. j = k \<and> s = ?s) pc ?pc"
      using a(2) takes_trans[OF a(2) set_ri_takes[OF takes_ok[OF a(2)]]] by simp
    ultimately show ?thesis using True
      by (intro exI[of _ ?pc] exI[of _ "pucch_reports H ?tti k ?acks sr cqi v uci' corr"])
        (auto simp: told_pucch told_acks)
  qed
qed

lemma decode_pucch_users_at:
  assumes "pc_ok E H pc" "tti_slot_ok H (wk_t_rx w)" "decoders_ok H X" "distinct ks"
  defines "asked \<equiv> \<lambda>k. k \<in> set ks \<and> is_crnti H k \<and> grant_tti w k \<noteq> i32 (wk_tti_rx w)"
  shows "\<exists>pc' new. decode_pucch_users E H X ks (w, pc, cs) = Some (0, w, pc', cs @ new) \<and>
    takes E H (\<lambda>j s t. asked j \<and> s = unat (wk_t_rx w)) pc pc' \<and>
    (\<forall>j tb. told j tb new = (if asked j \<and> tb < SRSLTE_MAX_TB E \<and> pend pc j (unat (wk_t_rx w)) tb then 1 else 0))"
  using assms(1,4) unfolding asked_def
proof (induction ks arbitrary: pc cs)
  case Nil
  then show ?case by (auto simp: takes_refl intro: exI[of _ "[]"])
next
  case (Cons k ks)
  let ?s = "unat (wk_t_rx w)"
  let ?a = "is_crnti H k \<and> grant_tti w k \<noteq> i32 (wk_tti_rx w)"
  obtain pc1 new1 where a: "decode_pucch_user E H X k (w, pc, cs) = Some (True, w, pc1, cs @ new1)"
      "takes E H (\<lambda>j s t. ?a \<and> j = k \<and> s = ?s) pc pc1"
      "\<forall>j tb. told j tb new1 = (if ?a \<and> j = k \<and> tb < SRSLTE_MAX_TB E \<and> pend pc k ?s tb then 1 else 0)"
    using decode_pucch_user_at[OF Cons.prems(1) assms(2,3), of k cs] by blast
  have d: "distinct ks" using Cons.prems(2) by simp
  obtain pc2 new2 where c: "decode_pucch_users E H X ks (w, pc1, cs @ new1) = Some (0, w, pc2, (cs @ new1) @ new2)"
      "takes E H (\<lambda>j s t. (j \<in> set ks \<and> is_crnti H j \<and> grant_tti w j \<noteq> i32 (wk_tti_rx w)) \<and> s = ?s) pc1 pc2"
      "\<forall>j tb. told j tb new2 = (if (j \<in> set ks \<and> is_crnti H j \<and> grant_tti w j \<noteq> i32 (wk_tti_rx w)) \<and>
          tb < SRSLTE_MAX_TB E \<and> pend pc1 j ?s tb then 1 else 0)"
    using Cons.IH[OF takes_ok[OF a(2)] d, of "cs @ new1"] by blast
  have p: "pend pc1 j s tb \<longleftrightarrow> pend pc j s tb \<and> \<not> (?a \<and> j = k \<and> s = ?s)" for j s tb using a(2) by (simp add: takes_def)
  have "takes E H (\<lambda>j s t. (j \<in> set (k # ks) \<and> is_crnti H j \<and> grant_tti w j \<noteq> i32 (wk_tti_rx w)) \<and> s = ?s) pc pc2"
    by (rule takes_cong[OF takes_trans[OF a(2) c(2)]]) auto
  moreover have "decode_pucch_users E H X (k # ks) (w, pc, cs) = Some (0, w, pc2, cs @ new1 @ new2)"
    using a(1) c(1) by simp
  moreover have "told j tb (new1 @ new2) = (if (j \<in> set (k # ks) \<and> is_crnti H j \<and> grant_tti w j \<noteq> i32 (wk_tti_rx w)) \<and>
      tb < SRSLTE_MAX_TB E \<and> pend pc j ?s tb then 1 else 0)" for j tb
  proof (cases "j = k")
    case True
    then have "j \<notin> set ks" using Cons.prems(2) by simp
    then show ?thesis using a(3) c(3) True by simp
  next
    case False
    then show ?thesis using a(3) c(3) p by simp
  qed
  ultimately show ?case by blast
qed

end
