(* ===== verification/Phy_Rounds.thy ===== *)
theory Phy_Rounds
  imports Phy_Acks
begin

text \<open>
  Rounds of the workers one after another: what a round does to the table of pending
  acknowledgements, and the way of a block from the grant of the MAC to the report of its answer two
  delays later, in the round of whichever worker serves that TTI.
\<close>

section \<open>Reception\<close>

lemma reset_grant_tti_simps [simp]:
  "users (reset_grant_tti w) = users w" "times (reset_grant_tti w) = times w"
  "wk_t_rx (reset_grant_tti w) = wk_t_rx w" "wk_tti_rx (reset_grant_tti w) = wk_tti_rx w"
  "omap_wf (wk_ue_db (reset_grant_tti w)) = omap_wf (wk_ue_db w)"
proof -
  have "map fst (map (\<lambda>(k, u). (k, u\<lparr>wu_has_grant_tti := -1\<rparr>)) db) = map fst db" for db :: "(u16, worker_ue) omap"
    by (induction db) auto
  then have m: "map fst (wk_ue_db (reset_grant_tti w)) = map fst (wk_ue_db w)" by (simp add: reset_grant_tti_def)
  show "users (reset_grant_tti w) = users w" using arg_cong[OF m, of set] by (simp add: users_def)
  show "omap_wf (wk_ue_db (reset_grant_tti w)) = omap_wf (wk_ue_db w)" by (simp only: omap_wf_def m)
qed (simp_all add: reset_grant_tti_def times_def)

lemma reset_grant_tti_user: "k \<in> users w \<Longrightarrow> grant_tti (reset_grant_tti w) k = -1"
proof -
  assume "k \<in> users w"
  then obtain u where "omap_get (wk_ue_db w) k = Some u"
    unfolding users_def by (metis domI domIff dom_map_of_conv_image_fst option.exhaust)
  moreover have "omap_get (map (\<lambda>(k, u). (k, u\<lparr>wu_has_grant_tti := -1\<rparr>)) db) k = map_option (\<lambda>u. u\<lparr>wu_has_grant_tti := -1\<rparr>) (omap_get db k)"
    for db :: "(u16, worker_ue) omap" by (induction db) auto
  ultimately show ?thesis by (simp add: grant_tti_def worker_ue_at_def worker_ue_of_def reset_grant_tti_def)
qed

text \<open>Who is asked in a subframe: the users with a grant, on the data channel, and the others of the worker.\<close>

definition heard :: "phy_lib \<Rightarrow> phch_worker \<Rightarrow> phch_common \<Rightarrow> u16 \<Rightarrow> bool" where
  "heard H w pc k \<longleftrightarrow> k \<in> granted (ulg_grants (pc_ul_grants pc ! unat (wk_t_rx w))) \<or> k \<in> users w \<and> is_crnti H k"

lemma i32_tti: "t < 10240 \<Longrightarrow> i32 t \<noteq> -1"
proof -
  assume "t < 10240"
  then have "uint t < 10240" using word_less_def[of t 10240] by simp
  then have "uint t < 2 ^ 31" by simp
  from i32_small[OF this] uint_ge_0[of t] show ?thesis by linarith
qed

lemma receive_at:
  assumes "pc_ok E H pc" "tti_slot_ok H (wk_t_rx w)" "0 < HARQ_DELAY_MS E" "decoders_ok H X" "omap_wf (wk_ue_db w)"
    "wk_tti_rx w < 10240" "length (pc_ul_grants pc) = TTIMOD_SZ H"
  obtains w' pc' cs where "receive E H X w pc = Some (w', pc', cs)"
    "takes E H (\<lambda>j s t. heard H w pc j \<and> s = unat (wk_t_rx w)) pc pc'" "times w' = times w"
    "\<And>k tb. told k tb cs = (if heard H w pc k \<and> tb < SRSLTE_MAX_TB E \<and> pend pc k (unat (wk_t_rx w)) tb then 1 else 0)"
proof -
  let ?s = "unat (wk_t_rx w)" and ?w = "reset_grant_tti w"
  let ?gs = "ulg_grants (pc_ul_grants pc ! ?s)"
  have g: "rd (pc_ul_grants pc) ?s = Some (pc_ul_grants pc ! ?s)"
    using assms(2,7) by (simp add: tti_slot_ok_def)
  obtain w1 pc1 new1 where a: "decode_pusch E H X ?gs (?w, pc, [Ul_Fft]) = Some (0, w1, pc1, [Ul_Fft] @ new1)"
      "takes E H (\<lambda>j s t. j \<in> granted ?gs \<and> s = ?s) pc pc1" "times w1 = times ?w" "users w1 = users ?w \<union> granted ?gs"
      "\<forall>k. grant_tti w1 k = (if k \<in> granted ?gs then i32 (wk_tti_rx ?w) else grant_tti ?w k)"
      "omap_wf (wk_ue_db ?w) \<longrightarrow> omap_wf (wk_ue_db w1)"
      "\<forall>k tb. told k tb new1 = (if k \<in> granted ?gs \<and> tb < SRSLTE_MAX_TB E \<and> pend pc k ?s tb then 1 else 0)"
    using decode_grants_at[OF assms(1), of ?w X ?gs "\<lparr>wb_cqi = 0, wb_pmi = 0, wb_pmi_present = False\<rparr>" "[Ul_Fft]"] assms(2-4)
    unfolding decode_pusch_def reset_grant_tti_simps by blast
  have t: "wk_t_rx w1 = wk_t_rx w" "wk_tti_rx w1 = wk_tti_rx w"
    using times_fields[OF a(3)] by simp_all
  have wf: "omap_wf (wk_ue_db w1)" using a(6) assms(5) by simp
  let ?ks = "map fst (wk_ue_db w1)"
  have ks: "distinct ?ks" "set ?ks = users w \<union> granted ?gs" using omap_wf_distinct[OF wf] a(4) by (simp_all add: users_def[of w1, symmetric])
  let ?asked = "\<lambda>k. k \<in> set ?ks \<and> is_crnti H k \<and> grant_tti w1 k \<noteq> i32 (wk_tti_rx w1)"
  have asked: "?asked k \<longleftrightarrow> k \<in> users w \<and> is_crnti H k \<and> k \<notin> granted ?gs" for k
    using a(5) ks(2) reset_grant_tti_user[of k w] i32_tti[OF assms(6)] by (auto simp: t)
  obtain pc2 new2 where b: "decode_pucch E H X (w1, pc1, [Ul_Fft] @ new1) = Some (0, w1, pc2, ([Ul_Fft] @ new1) @ new2)"
      "takes E H (\<lambda>j s t. ?asked j \<and> s = ?s) pc1 pc2"
      "\<forall>j tb. told j tb new2 = (if ?asked j \<and> tb < SRSLTE_MAX_TB E \<and> pend pc1 j ?s tb then 1 else 0)"
    using decode_pucch_users_at[OF takes_ok[OF a(2)] _ assms(4) ks(1), of w1 "[Ul_Fft] @ new1"] assms(2)
    unfolding decode_pucch_def fst_conv t by blast
  have r: "receive E H X w pc = Some (w1, pc2, [Ul_Fft] @ new1 @ new2)"
    using g a(1) b(1) by (simp add: receive_def Let_def)
  have t2: "takes E H (\<lambda>j s t. heard H w pc j \<and> s = ?s) pc pc2"
    by (rule takes_cong[OF takes_trans[OF a(2) b(2)]]) (simp only: asked heard_def, blast)
  have p: "pend pc1 k ?s tb \<longleftrightarrow> pend pc k ?s tb \<and> k \<notin> granted ?gs" for k tb using a(2) by (simp add: takes_def)
  have "told k tb ([Ul_Fft] @ new1 @ new2) = (if heard H w pc k \<and> tb < SRSLTE_MAX_TB E \<and> pend pc k ?s tb then 1 else 0)" for k tb
    using a(7) b(3) p[of k tb] unfolding asked by (simp add: heard_def)
  then show ?thesis using a(3) by (intro that[OF r t2]) simp_all
qed

section \<open>Encoding makes no report\<close>

definition to_enb :: "phy_call list \<Rightarrow> bool" where
  "to_enb cs \<longleftrightarrow> (\<forall>c \<in> set cs. \<exists>e. c = To_Enb e)"

lemma to_enb_simps [simp]: "to_enb []" "to_enb (To_Enb e # cs) = to_enb cs" "to_enb (xs @ ys) = (to_enb xs \<and> to_enb ys)"
  by (auto simp: to_enb_def)

lemma told_enb: "to_enb cs \<Longrightarrow> told k tb cs = 0"
  by (induction cs) (auto simp: to_enb_def)

lemma put_all_enb: "to_enb (snd (put_all ok es))"
  by (induction es) (auto simp: case_prod_beta)

lemma phich_enb: "encode_phich acks w = (w', cs) \<Longrightarrow> to_enb cs"
proof -
  have "to_enb (snd (fold (\<lambda>(ack, rnti) (w, cs).
         if rnti = 0 then (w, cs)
         else let u = worker_ue_at rnti w
              in (put_worker_ue rnti u w,
                  cs @ [To_Enb (Put_Phich ack (wu_phich_n_prb_lowest u) (wu_phich_n_dmrs u) (wk_sf_tx w))])) acks a))"
    if "to_enb (snd a)" for a
    using that by (induction acks arbitrary: a) (auto simp: Let_def split: prod.splits)
  from this[of "(w, [])"] show "encode_phich acks w = (w', cs) \<Longrightarrow> to_enb cs" by (simp add: encode_phich_def)
qed

lemma pdsch_enb:
  assumes "encode_pdsch_grants H ok pc gs a = Some (w', cs)" "to_enb (snd a)"
  shows "to_enb cs"
  using assms
proof (induction gs arbitrary: a)
  case (Cons g gs)
  obtain go a1 where a1: "encode_pdsch_grant H ok pc g a = Some (go, a1)"
      "(if go then encode_pdsch_grants H ok pc gs a1 else Some a1) = Some (w', cs)"
    using Cons.prems(1) by (auto simp: bind_eq_Some_conv)
  have "to_enb (snd a1)"
    using a1(1) Cons.prems(2)
    by (cases a) (auto simp: encode_pdsch_grant_def Let_def bind_eq_Some_conv split: if_splits)
  then show ?case using a1(2) Cons.IH[of a1] by (auto split: if_splits)
qed auto

lemma encode_enb:
  assumes "encode H ok c d g pc w = Some (w', cs)"
  shows "to_enb cs"
proof -
  obtain w1 cs1 where e: "(if sfc_sf_type c = SUBFRAME_TYPE_REGULAR then do {
                  (w', cs) \<leftarrow> encode_pdsch H ok pc (dl_grants d) w;
                  Some (w', snd (encode_pdcch_dl ok (dl_grants d) w) @ cs)
                } else Some (w, encode_pmch pc (first_grant d) (sfc_mbsfn_mcs c) w)) = Some (w1, cs1)"
    using assms by (auto simp: encode_def Let_def bind_eq_Some_conv split: if_splits)
  have "to_enb cs1"
    using e pdsch_enb by (fastforce simp: encode_pdsch_def encode_pdcch_dl_def put_all_enb encode_pmch_def bind_eq_Some_conv split: if_splits)
  moreover obtain w2 ph where p: "encode_phich (ulg_phich g) w1 = (w2, ph)" by (metis surj_pair)
  ultimately show ?thesis using assms e phich_enb[OF p]
    by (auto simp: encode_def Let_def encode_pdcch_ul_def put_all_enb)
qed

section \<open>Slots\<close>

lemma slot_mod:
  assumes "phy_tti_laws E H"
  shows "unat (TTIMOD H t) = unat t mod TTIMOD_SZ H" "tti_slot_ok H (TTIMOD H t)"
proof -
  have "TTIMOD_SZ H \<le> 10240" "0 < TTIMOD_SZ H" using assms by (auto simp: phy_tti_laws_def dest: dvd_imp_le)
  then show "unat (TTIMOD H t) = unat t mod TTIMOD_SZ H" "tti_slot_ok H (TTIMOD H t)"
    by (simp_all add: TTIMOD_def unat_mod_distrib unat_of_nat tti_slot_ok_def)
qed

lemma tti_tx:
  assumes "tti_laws E" "phy_tti_laws E H" "unat t < 20000"
  shows "unat (TTI_TX E t) = (unat t + HARQ_DELAY_MS E) mod 10240"
proof -
  have "HARQ_DELAY_MS E < 5120" using assms(2) by (auto simp: phy_tti_laws_def dest: dvd_imp_le)
  then have "unat (t + of_nat (HARQ_DELAY_MS E)) = unat t + HARQ_DELAY_MS E"
    using assms(3) by (simp add: unat_word_ariths unat_of_nat)
  then show ?thesis using assms(1) by (simp add: tti_laws_def unat_mod_distrib)
qed

definition answer_slot :: "srslte \<Rightarrow> phy_lib \<Rightarrow> u32 \<Rightarrow> nat" where
  "answer_slot E H t = (unat t + 2 * HARQ_DELAY_MS E) mod TTIMOD_SZ H"

text \<open>After \<open>set_time\<close>: the slot read is that of the TTI, the slot written that of the answer.\<close>

lemma set_time_slots:
  fixes E :: srslte and H :: phy_lib and t cnt :: u32 and time :: int and w :: phch_worker
  assumes "tti_laws E" "phy_tti_laws E H" "t < 10240"
  defines "w' \<equiv> set_time E H t cnt time w"
  shows "wk_tti_rx w' = t" "wk_t_rx w' = TTIMOD H t" "unat (ack_slot E H w') = answer_slot E H t"
    "tti_slot_ok H (wk_t_rx w')" "tti_slot_ok H (ack_slot E H w')" "users w' = users w" "wk_ue_db w' = wk_ue_db w"
    "wk_running w' = wk_running w"
proof -
  let ?d = "HARQ_DELAY_MS E" and ?n = "TTIMOD_SZ H"
  show "wk_tti_rx w' = t" "wk_t_rx w' = TTIMOD H t" "users w' = users w" "wk_ue_db w' = wk_ue_db w" "wk_running w' = wk_running w"
    by (simp_all add: w'_def set_time_def Let_def users_def)
  then show "tti_slot_ok H (wk_t_rx w')" using slot_mod(2)[OF assms(2)] by simp
  show "tti_slot_ok H (ack_slot E H w')" using slot_mod(2)[OF assms(2)] by (simp add: ack_slot_def)
  have t: "unat t < 10240" using assms(3) by (simp add: word_less_nat_alt)
  have n: "?n dvd 10240" "0 < ?n" "?n \<le> 10240" using assms(2) by (auto simp: phy_tti_laws_def dest: dvd_imp_le)
  have m: "unat (TTIMOD H x) = y mod ?n" if "unat x = y mod 10240" for x y
    unfolding slot_mod(1)[OF assms(2)] that by (rule mod_mod_cancel[OF n(1)])
  have a: "unat (TTIMOD H (TTI_TX E t)) = (unat t + ?d) mod ?n"
    using t by (intro m tti_tx[OF assms(1,2)]) simp
  have "(unat t + ?d) mod ?n < ?n" using n(2) by (rule mod_less_divisor)
  then have "unat (TTIMOD H (TTI_TX E t)) < 20000" unfolding a using n(3) by linarith
  then have "unat (TTIMOD H (TTI_TX E (TTIMOD H (TTI_TX E t)))) = (unat (TTIMOD H (TTI_TX E t)) + ?d) mod ?n"
    by (intro m tti_tx[OF assms(1,2)])
  then have "unat (TTIMOD H (TTI_TX E (TTIMOD H (TTI_TX E t)))) = ((unat t + ?d) mod ?n + ?d) mod ?n"
    by (simp only: a)
  then show "unat (ack_slot E H w') = answer_slot E H t"
    by (simp add: ack_slot_def w'_def set_time_def Let_def answer_slot_def mod_add_left_eq add.assoc mult_2 del: unat_mod)
qed

section \<open>What a round leaves behind\<close>

definition cleared :: "srslte \<Rightarrow> phy_lib \<Rightarrow> nat \<Rightarrow> common_ue \<Rightarrow> common_ue \<Rightarrow> bool" where
  "cleared E H s u u' \<longleftrightarrow> cu_ok E H u' \<and> (\<forall>s' t. due u' s' t \<longleftrightarrow> due u s' t \<and> s' \<noteq> s)"

lemma look_rel:
  "list_all2 (\<lambda>p q. fst q = fst p \<and> R (snd p) (snd q)) db db' \<Longrightarrow> rel_option R (map_of db k) (map_of db' k)"
  by (induction rule: list_all2_induct) auto

lemma clear_all:
  assumes "\<forall>p \<in> set db. cu_ok E H (snd p)" "s < TTIMOD_SZ H"
  shows "\<exists>db'. foldM (\<lambda>p db. do { u \<leftarrow> clear_pending E s (snd p); Some (db @ [(fst p, u)]) }) db acc = Some (acc @ db') \<and>
    list_all2 (\<lambda>p q. fst q = fst p \<and> cleared E H s (snd p) (snd q)) db db'"
  using assms(1)
proof (induction db arbitrary: acc)
  case (Cons p db)
  have "cu_ok E H (snd p)" using Cons.prems by simp
  then obtain u' where u': "clear_pending E s (snd p) = Some u'" "cleared E H s (snd p) u'"
    using clear_pending_at[OF _ assms(2)] unfolding cleared_def by blast
  obtain db' where d: "foldM (\<lambda>p db. do { u \<leftarrow> clear_pending E s (snd p); Some (db @ [(fst p, u)]) }) db (acc @ [(fst p, u')]) =
        Some ((acc @ [(fst p, u')]) @ db')" "list_all2 (\<lambda>p q. fst q = fst p \<and> cleared E H s (snd p) (snd q)) db db'"
    using Cons.IH[of "acc @ [(fst p, u')]"] Cons.prems by auto
  then show ?case using u' by (intro exI[of _ "(fst p, u') # db'"]) simp
qed simp

lemma clear_takes:
  assumes "pc_ok E H pc" "tti_slot_ok H s"
  obtains pc' where "ue_db_clear E s pc = Some pc'" "takes E H (\<lambda>j s' t. s' = unat s) pc pc'"
proof -
  obtain db' where d: "foldM (\<lambda>p db. do { u \<leftarrow> clear_pending E (unat s) (snd p); Some (db @ [(fst p, u)]) }) (pc_common_ue_db pc) [] =
        Some ([] @ db')"
      and l: "list_all2 (\<lambda>p q. fst q = fst p \<and> cleared E H (unat s) (snd p) (snd q)) (pc_common_ue_db pc) db'"
    using clear_all[of "pc_common_ue_db pc" E H "unat s" "[]"] assms unfolding pc_ok_def tti_slot_ok_def by blast
  have look: "rel_option (cleared E H (unat s)) (common_ue_of k pc) (common_ue_of k (pc\<lparr>pc_common_ue_db := db'\<rparr>))" for k
    using look_rel[OF l] by (simp add: common_ue_of_def)
  have "\<forall>q \<in> set db'. cu_ok E H (snd q)"
    using l by (induction rule: list_all2_induct) (auto simp: cleared_def)
  moreover have "pend (pc\<lparr>pc_common_ue_db := db'\<rparr>) k s' t \<longleftrightarrow> pend pc k s' t \<and> s' \<noteq> unat s" for k s' t
    using look[of k] unfolding pend_def by (cases rule: option.rel_cases) (auto simp: cleared_def)
  moreover have "known pc k \<Longrightarrow> known (pc\<lparr>pc_common_ue_db := db'\<rparr>) k" for k
    using look[of k] unfolding known_def by (cases rule: option.rel_cases) auto
  ultimately have "takes E H (\<lambda>j s' t. s' = unat s) pc (pc\<lparr>pc_common_ue_db := db'\<rparr>)"
    unfolding takes_def pc_ok_def same_def by simp
  then show ?thesis using that d by (simp add: ue_db_clear_def)
qed

text \<open>Waiting for the blocks of the grants.\<close>

definition wants :: "srslte \<Rightarrow> phy_lib \<Rightarrow> mac_dl_grant \<Rightarrow> u16 \<Rightarrow> nat \<Rightarrow> bool" where
  "wants E H g k tb \<longleftrightarrow> mg_rnti g = k \<and> is_crnti H k \<and> tb < SRSLTE_MAX_TB E \<and> dd_tb_en (mg_grant g) tb"

definition adds ::
  "srslte \<Rightarrow> phy_lib \<Rightarrow> nat \<Rightarrow> (u16 \<Rightarrow> nat \<Rightarrow> bool) \<Rightarrow> phch_common \<Rightarrow> phch_common \<Rightarrow> bool" where
  "adds E H s P pc pc' \<longleftrightarrow> pc_ok E H pc' \<and> same pc pc' \<and> (\<forall>j. known pc' j = known pc j) \<and>
     (\<forall>j s' t. pend pc' j s' t \<longleftrightarrow> pend pc j s' t \<or> s' = s \<and> known pc j \<and> P j t)"

lemma adds_trans: "adds E H s P pc pc1 \<Longrightarrow> adds E H s Q pc1 pc2 \<Longrightarrow> adds E H s (\<lambda>j t. P j t \<or> Q j t) pc pc2"
  by (auto simp: adds_def same_def)

lemma adds_cong: "adds E H s P pc pc' \<Longrightarrow> (\<And>j t. P j t \<longleftrightarrow> Q j t) \<Longrightarrow> adds E H s Q pc pc'"
  by (simp add: adds_def)

lemma adds_ok: "adds E H s P pc pc' \<Longrightarrow> pc_ok E H pc'"
  by (simp add: adds_def)

lemma adds_refl: "pc_ok E H pc \<Longrightarrow> adds E H s (\<lambda>_ _. False) pc pc"
  by (simp add: adds_def)

lemma set_pending_adds:
  assumes "pc_ok E H pc" "tti_slot_ok H s" "tb < SRSLTE_MAX_TB E"
  obtains pc' where "ue_db_set_ack_pending s k tb n pc = Some pc'" "adds E H (unat s) (\<lambda>j t. j = k \<and> t = tb) pc pc'"
proof (cases "common_ue_of k pc")
  case None
  have "adds E H (unat s) (\<lambda>j t. j = k \<and> t = tb) pc pc"
    unfolding adds_def known_def using assms(1) None by auto
  moreover have "ue_db_set_ack_pending s k tb n pc = Some pc" using None by (simp add: ue_db_set_ack_pending_def)
  ultimately show ?thesis by (rule that[rotated])
next
  case (Some u)
  have u: "cu_ok E H u" using ok_of[OF assms(1) Some] .
  obtain u' where u': "put_pending (unat s) tb True u = Some u'" "cu_ok E H u'" "cu_n_pdcch u' = cu_n_pdcch u"
      "\<And>s' t. due u' s' t \<longleftrightarrow> (if s' = unat s \<and> t = tb then True else due u s' t)"
    using put_pending_at[OF u assms(2)[unfolded tti_slot_ok_def] assms(3), of True] by blast
  let ?u = "u'\<lparr>cu_n_pdcch := (cu_n_pdcch u')[unat s := ucast n]\<rparr>"
  have ok: "cu_ok E H ?u" using u'(2) by (simp add: cu_ok_def)
  have d: "due ?u s' t = due u' s' t" for s' t by (simp add: due_def)
  have "adds E H (unat s) (\<lambda>j t. j = k \<and> t = tb) pc (put_common_ue k ?u pc)"
    using ok_put[OF assms(1) ok] Some u'(4) by (auto simp: adds_def known_def pend_def d)
  moreover have "ue_db_set_ack_pending s k tb n pc = Some (put_common_ue k ?u pc)"
    using Some u'(1,2) assms(2) by (simp add: ue_db_set_ack_pending_def cu_ok_def tti_slot_ok_def)
  ultimately show ?thesis by (rule that[rotated])
qed

lemma await_adds:
  assumes "pc_ok E H pc" "tti_slot_ok H s"
  obtains pc' where "await_acks E H s g pc = Some pc'" "adds E H (unat s) (wants E H g) pc pc'"
proof (cases "is_crnti H (mg_rnti g)")
  case False
  have "adds E H (unat s) (wants E H g) pc pc"
    by (rule adds_cong[OF adds_refl[OF assms(1)]]) (use False in \<open>auto simp: wants_def\<close>)
  then show ?thesis using that False by (simp add: await_acks_def)
next
  case True
  let ?f = "\<lambda>tb pc. if dd_tb_en (mg_grant g) tb
      then ue_db_set_ack_pending s (mg_rnti g) tb (dl_ncce (mg_location g)) pc else Some pc"
  let ?P = "\<lambda>i j t. j = mg_rnti g \<and> t < i \<and> dd_tb_en (mg_grant g) t"
  have "\<exists>pc'. foldM ?f [0..<i] pc = Some pc' \<and> adds E H (unat s) (?P i) pc pc'" if "i \<le> SRSLTE_MAX_TB E" for i
    using that
  proof (induction i)
    case 0
    show ?case using adds_cong[OF adds_refl[OF assms(1)], of "?P 0"] by simp
  next
    case (Suc i)
    have i: "i < SRSLTE_MAX_TB E" "i \<le> SRSLTE_MAX_TB E" using Suc.prems by simp_all
    obtain pc1 where p: "foldM ?f [0..<i] pc = Some pc1" "adds E H (unat s) (?P i) pc pc1"
      using Suc.IH[OF i(2)] by blast
    obtain pc2 where q: "?f i pc1 = Some pc2" "adds E H (unat s) (\<lambda>j t. j = mg_rnti g \<and> t = i \<and> dd_tb_en (mg_grant g) i) pc1 pc2"
    proof (cases "dd_tb_en (mg_grant g) i")
      case True
      obtain pc2 where "ue_db_set_ack_pending s (mg_rnti g) i (dl_ncce (mg_location g)) pc1 = Some pc2"
          "adds E H (unat s) (\<lambda>j t. j = mg_rnti g \<and> t = i) pc1 pc2"
        using set_pending_adds[OF adds_ok[OF p(2)] assms(2) i(1)] by blast
      then show ?thesis using True by (intro that[of pc2]) simp_all
    next
      case False
      then show ?thesis using adds_refl[OF adds_ok[OF p(2)]] by (intro that[of pc1]) simp_all
    qed
    have "foldM ?f [0..<Suc i] pc = Some pc2" using p(1) q(1) by (simp add: foldM_append)
    moreover have "adds E H (unat s) (?P (Suc i)) pc pc2"
      by (rule adds_cong[OF adds_trans[OF p(2) q(2)]]) (auto simp: less_Suc_eq)
    ultimately show ?case by blast
  qed
  then obtain pc' where r: "foldM ?f [0..<SRSLTE_MAX_TB E] pc = Some pc'" "adds E H (unat s) (?P (SRSLTE_MAX_TB E)) pc pc'"
    by blast
  have "adds E H (unat s) (wants E H g) pc pc'"
    by (rule adds_cong[OF r(2)]) (use True in \<open>auto simp: wants_def\<close>)
  then show ?thesis using that r(1) True by (simp add: await_acks_def)
qed

lemma await_all_adds:
  assumes "pc_ok E H pc" "tti_slot_ok H s"
  obtains pc' where "foldM (await_acks E H s) gs pc = Some pc'" "adds E H (unat s) (\<lambda>j t. \<exists>g \<in> set gs. wants E H g j t) pc pc'"
proof -
  have "\<exists>pc'. foldM (await_acks E H s) gs pc = Some pc' \<and> adds E H (unat s) (\<lambda>j t. \<exists>g \<in> set gs. wants E H g j t) pc pc'"
    using assms(1)
  proof (induction gs arbitrary: pc)
    case (Cons g gs)
    obtain pc1 where p: "await_acks E H s g pc = Some pc1" "adds E H (unat s) (wants E H g) pc pc1"
      using await_adds[OF Cons.prems assms(2)] by blast
    then obtain pc2 where q: "foldM (await_acks E H s) gs pc1 = Some pc2"
        "adds E H (unat s) (\<lambda>j t. \<exists>g \<in> set gs. wants E H g j t) pc1 pc2" using Cons.IH[OF adds_ok[OF p(2)]] by blast
    show ?case using p(1) q(1) by (intro exI[of _ pc2] conjI adds_cong[OF adds_trans[OF p(2) q(2)]]) auto
  qed (simp add: adds_refl)
  then show ?thesis using that by blast
qed

end
