(* ===== verification/Tx_Order.thy ===== *)
theory Tx_Order
  imports Phch_Common
begin

text \<open>
  The order in which workers transmit. Each TTI has a worker, which runs concurrently with those of the
  TTIs around it; the steps of \<open>worker_end\<close> are taken one at a time in any interleaving. The workers are
  numbered by their TTIs from the start of the receiving thread on, which numbers their turns modulo the
  number of workers. The pool starts a worker when one is free.
\<close>

section \<open>Runs\<close>

datatype phase = Waiting_Start | Working | Entered | Sending | Finished | Given_Up

datatype tx_label = Start | Enter nat | Proceed nat | Pass_On nat | Give_Up nat

record tx_run =
  tr_pc :: phch_common
  tr_started :: nat
  tr_phase :: "nat \<Rightarrow> phase"
  tr_sent :: "nat list"

definition turn :: "tx_run \<Rightarrow> nat \<Rightarrow> u32" where
  "turn r n = of_nat (n mod unat (pc_nof_workers (tr_pc r)))"

definition busy :: "tx_run \<Rightarrow> nat set" where
  "busy r = {n. n < tr_started r \<and> tr_phase r n \<noteq> Finished \<and> tr_phase r n \<noteq> Given_Up}"

text \<open>
  The label that a worker gives up is a round that ends early, before it has entered. \<open>None\<close>: the step is not
  possible in this state.
\<close>

definition tx_step :: "tx_label \<Rightarrow> tx_run \<Rightarrow> tx_run option" where
  "tx_step l r =
     (case l of
        Start \<Rightarrow>
          if length (filter (\<lambda>n. tr_phase r n \<noteq> Finished \<and> tr_phase r n \<noteq> Given_Up) [0..<tr_started r])
               < unat (pc_nof_workers (tr_pc r))
          then Some (r\<lparr>tr_started := tr_started r + 1, tr_phase := (tr_phase r)(tr_started r := Working)\<rparr>)
          else None
      | Enter n \<Rightarrow>
          if tr_phase r n = Working
          then do { pc \<leftarrow> worker_enter (turn r n) (tr_pc r);
                    Some (r\<lparr>tr_pc := pc, tr_phase := (tr_phase r)(n := Entered)\<rparr>) }
          else None
      | Proceed n \<Rightarrow>
          if tr_phase r n = Entered
          then do { pc \<leftarrow> worker_wait (turn r n) (tr_pc r);
                    Some (r\<lparr>tr_pc := pc, tr_phase := (tr_phase r)(n := Sending), tr_sent := tr_sent r @ [n]\<rparr>) }
          else None
      | Pass_On n \<Rightarrow>
          if tr_phase r n = Sending
          then do { (pc, cs) \<leftarrow> worker_pass_on (turn r n) (tr_pc r);
                    Some (r\<lparr>tr_pc := pc, tr_phase := (tr_phase r)(n := Finished)\<rparr>) }
          else None
      | Give_Up n \<Rightarrow>
          if tr_phase r n = Working then Some (r\<lparr>tr_phase := (tr_phase r)(n := Given_Up)\<rparr>) else None)"

definition tx_steps :: "tx_label list \<Rightarrow> tx_run \<Rightarrow> tx_run option" where
  "tx_steps ls r = foldM tx_step ls r"

definition tx_start :: "phch_common \<Rightarrow> tx_run" where
  "tx_start pc = \<lparr>tr_pc = pc, tr_started = 0, tr_phase = (\<lambda>_. Waiting_Start), tr_sent = []\<rparr>"

text \<open>An initialised entity: all semaphores block, nobody has transmitted, and there are no more workers than semaphores.\<close>

definition tx_ready :: "phch_common \<Rightarrow> bool" where
  "tx_ready pc \<longleftrightarrow> pc_is_first_tx pc \<and> (\<forall>v \<in> set (pc_tx_sem pc). v = 0) \<and> 0 < pc_nof_workers pc \<and>
     unat (pc_nof_workers pc) \<le> length (pc_tx_sem pc)"

section \<open>Opened runs\<close>

text \<open>
  Once a worker has entered, TTI \<open>k\<close> is the next to be sent, and either the semaphore of its turn is open or
  the worker before it is sending. \<open>m\<close> is the worker that gave up, if any; it lets the pool start one more.
\<close>

abbreviation workers :: "tx_run \<Rightarrow> nat" where
  "workers r \<equiv> unat (pc_nof_workers (tr_pc r))"

definition base :: "bool \<Rightarrow> tx_run \<Rightarrow> nat" where
  "base b r = (if b then length (tr_sent r) - 1 else length (tr_sent r))"

definition opened :: "nat \<Rightarrow> nat option \<Rightarrow> bool \<Rightarrow> tx_run \<Rightarrow> bool" where
  "opened N m b r \<longleftrightarrow>
     \<not> pc_is_first_tx (tr_pc r) \<and> workers r = N \<and> 0 < N \<and> N \<le> length (pc_tx_sem (tr_pc r)) \<and>
     (\<forall>i < N. pc_tx_sem (tr_pc r) ! i = (if \<not> b \<and> i = length (tr_sent r) mod N then 1 else 0)) \<and>
     tr_sent r = [0..<length (tr_sent r)] \<and> (b \<longrightarrow> tr_sent r \<noteq> []) \<and> length (tr_sent r) \<le> tr_started r \<and>
     (\<forall>n \<ge> tr_started r. tr_phase r n = Waiting_Start) \<and> (\<forall>n < base b r. tr_phase r n = Finished) \<and>
     (b \<longrightarrow> tr_phase r (base b r) = Sending) \<and>
     (\<forall>n. length (tr_sent r) \<le> n \<and> n < tr_started r \<longrightarrow>
        tr_phase r n = Working \<or> tr_phase r n = Entered \<or> m = Some n \<and> tr_phase r n = Given_Up) \<and>
     (\<forall>j. m = Some j \<longrightarrow> length (tr_sent r) \<le> j \<and> j < tr_started r \<and> tr_phase r j = Given_Up) \<and>
     tr_started r \<le> base b r + N + (if m = None then 0 else 1)"

definition not_opened :: "nat \<Rightarrow> tx_run \<Rightarrow> bool" where
  "not_opened N r \<longleftrightarrow>
     pc_is_first_tx (tr_pc r) \<and> workers r = N \<and> 0 < N \<and> N \<le> length (pc_tx_sem (tr_pc r)) \<and>
     (\<forall>v \<in> set (pc_tx_sem (tr_pc r)). v = 0) \<and> tr_sent r = [] \<and> tr_started r \<le> N \<and>
     (\<forall>n. tr_phase r n = (if n < tr_started r then Working else Waiting_Start))"

lemma turn_index:
  assumes "0 < workers r"
  shows "unat (turn r n) = n mod workers r"
proof -
  have "workers r < 2 ^ 32" using unsigned_less[of "pc_nof_workers (tr_pc r)"] by simp
  then have "n mod workers r < 2 ^ 32" using assms by (meson mod_less_divisor order_less_trans)
  then show ?thesis by (simp add: turn_def unat_of_nat)
qed

lemma tx_turn_at:
  assumes "0 < workers r"
  shows "tx_turn (turn r n) (tr_pc r) = Some (n mod workers r)" "tx_turn (turn r n + 1) (tr_pc r) = Some (Suc n mod workers r)"
proof -
  let ?N = "workers r"
  have z: "pc_nof_workers (tr_pc r) \<noteq> 0" using assms by auto
  have l: "n mod ?N < ?N" "?N < 2 ^ 32" using assms unsigned_less[of "pc_nof_workers (tr_pc r)"] by simp_all
  have "unat (turn r n + 1) = Suc (n mod ?N)"
    using l by (simp add: unat_word_ariths turn_index[OF assms])
  then show "tx_turn (turn r n) (tr_pc r) = Some (n mod ?N)" "tx_turn (turn r n + 1) (tr_pc r) = Some (Suc n mod ?N)"
    using z by (simp_all add: tx_turn_def unat_mod_distrib turn_index[OF assms] mod_Suc_eq)
qed

text \<open>The pool's test for a free worker.\<close>

lemma busy_bound:
  assumes "length (filter P [0..<s]) < N" "\<And>n. b \<le> n \<Longrightarrow> n < s \<Longrightarrow> m \<noteq> Some n \<Longrightarrow> P n"
  shows "Suc s \<le> b + N + (if m = None then 0 else 1)"
proof -
  have e: "length (filter P [0..<s]) = card {n. n < s \<and> P n}"
    by (subst distinct_card[symmetric]) (simp_all add: conj_commute)
  have "card {b..<s} \<le> card ({n. n < s \<and> P n} \<union> set_option m)"
    by (intro card_mono) (use assms(2) in auto)
  also have "\<dots> \<le> card {n. n < s \<and> P n} + card (set_option m)" by (rule card_Un_le)
  finally have "s - b \<le> length (filter P [0..<s]) + (if m = None then 0 else 1)"
    using e by (cases m) auto
  then show ?thesis using assms(1) by (auto split: if_splits)
qed

lemma start_opened:
  assumes "opened N m b r" "tx_step Start r = Some r'"
  shows "opened N m b r'"
proof -
  have a: "length (filter (\<lambda>n. tr_phase r n \<noteq> Finished \<and> tr_phase r n \<noteq> Given_Up) [0..<tr_started r]) < N"
    "r' = r\<lparr>tr_started := tr_started r + 1, tr_phase := (tr_phase r)(tr_started r := Working)\<rparr>"
    using assms by (auto simp: tx_step_def opened_def split: if_splits)
  have "tr_phase r n \<noteq> Finished \<and> tr_phase r n \<noteq> Given_Up" if "base b r \<le> n" "n < tr_started r" "m \<noteq> Some n" for n
  proof (cases "length (tr_sent r) \<le> n")
    case True
    then show ?thesis using assms(1) that unfolding opened_def by (metis phase.distinct)
  next
    case False
    then have "b" "n = base b r" using that by (auto simp: base_def split: if_splits)
    then show ?thesis using assms(1) unfolding opened_def by simp
  qed
  then have "Suc (tr_started r) \<le> base b r + N + (if m = None then 0 else 1)" by (rule busy_bound[OF a(1)])
  moreover have "base b r' = base b r" "b \<Longrightarrow> base b r < tr_started r"
    using assms(1) by (auto simp: a(2) base_def opened_def)
  ultimately show ?thesis using assms(1) unfolding opened_def a(2) by (auto simp: less_Suc_eq)
qed

lemma opened_range:
  assumes "opened N m b r" "tr_phase r n = Working \<or> tr_phase r n = Entered"
  shows "length (tr_sent r) \<le> n" "n < tr_started r" "m \<noteq> Some n"
proof -
  have n: "tr_phase r n \<noteq> Finished" "tr_phase r n \<noteq> Sending" "tr_phase r n \<noteq> Waiting_Start" "tr_phase r n \<noteq> Given_Up"
    using assms(2) by auto
  have "\<not> n < base b r" "b \<longrightarrow> n \<noteq> base b r" "\<not> tr_started r \<le> n"
    using assms(1) n unfolding opened_def by (metis, metis, metis)
  then show "length (tr_sent r) \<le> n" "n < tr_started r" by (auto simp: base_def split: if_splits)
  show "m \<noteq> Some n" using assms(1) n unfolding opened_def by metis
qed

lemma enter_opened:
  assumes "opened N m b r" "tx_step (Enter n) r = Some r'"
  shows "opened N m b r'"
proof -
  have w: "tr_phase r n = Working" "r' = r\<lparr>tr_phase := (tr_phase r)(n := Entered)\<rparr>"
    using assms by (auto simp: tx_step_def opened_def worker_enter_def bind_eq_Some_conv split: if_splits)
  have n: "length (tr_sent r) \<le> n" "n < tr_started r" "m \<noteq> Some n" using opened_range[OF assms(1)] w(1) by blast+
  have "base b r' = base b r" "\<not> n < base b r" "b \<Longrightarrow> n \<noteq> base b r"
    using n assms(1) by (auto simp: w(2) base_def opened_def)
  then show ?thesis using assms(1) n unfolding opened_def w(2) by auto
qed

lemma give_up_opened:
  assumes "opened N None b r" "tx_step (Give_Up n) r = Some r'"
  shows "opened N (Some n) b r'"
proof -
  have w: "tr_phase r n = Working" "r' = r\<lparr>tr_phase := (tr_phase r)(n := Given_Up)\<rparr>"
    using assms by (auto simp: tx_step_def split: if_splits)
  have n: "length (tr_sent r) \<le> n" "n < tr_started r" using opened_range[OF assms(1)] w(1) by blast+
  have "base b r' = base b r" "\<not> n < base b r" "b \<Longrightarrow> n \<noteq> base b r"
    using n assms(1) by (auto simp: w(2) base_def opened_def)
  then show ?thesis using assms(1) n unfolding opened_def w(2) by auto
qed

text \<open>The worker that proceeds is the next one, or, when one gave up, the one a round of turns later.\<close>

lemma proceed_opened:
  assumes "opened N m b r" "tx_step (Proceed n) r = Some r'"
  shows "n = length (tr_sent r) \<and> opened N m True r' \<and> tr_sent r' = tr_sent r @ [n] \<or>
    (\<exists>j. m = Some j \<and> length (tr_sent r) \<le> j) \<and> n = length (tr_sent r) + N \<and> tr_sent r' = tr_sent r @ [n]"
proof -
  let ?k = "length (tr_sent r)"
  have N: "0 < N" "workers r = N" "N \<le> length (pc_tx_sem (tr_pc r))" using assms(1) by (simp_all add: opened_def)
  then have i: "n mod N < length (pc_tx_sem (tr_pc r))" by (meson less_le_trans mod_less_divisor)
  have e: "tr_phase r n = Entered" and s: "pc_tx_sem (tr_pc r) ! (n mod N) \<noteq> 0"
    and r': "r' = r\<lparr>tr_pc := (tr_pc r)\<lparr>pc_tx_sem := (pc_tx_sem (tr_pc r))[n mod N := pc_tx_sem (tr_pc r) ! (n mod N) - 1]\<rparr>,
                    tr_phase := (tr_phase r)(n := Sending), tr_sent := tr_sent r @ [n]\<rparr>"
    using assms(2) N i by (auto simp: tx_step_def worker_wait_def tx_turn_at bind_eq_Some_conv split: if_splits)
  have n: "?k \<le> n" "n < tr_started r" "m \<noteq> Some n" using opened_range[OF assms(1)] e by blast+
  have nb: "\<not> b" "n mod N = ?k mod N" using assms(1) s N by (auto simp: opened_def split: if_splits)
  then have "n < ?k + N + (if m = None then 0 else 1)" using assms(1) n by (auto simp: opened_def base_def)
  then have "n - ?k \<le> N" "m = None \<Longrightarrow> n - ?k < N" using n(1) by (auto split: if_splits)
  moreover have "N dvd n - ?k" using nb(2) n(1) by (simp add: mod_eq_dvd_iff_nat)
  ultimately consider "n = ?k" | "n = ?k + N" "m \<noteq> None"
    using n(1) N(1) by (metis dvd_imp_le dvd_antisym le_add_diff_inverse le_neq_implies_less nat_dvd_not_less add_0_right gr0I)
  then show ?thesis
  proof cases
    case 1
    have "tr_sent r @ [?k] = [0..<Suc ?k]" using assms(1) by (simp add: opened_def)
    moreover have "base True r' = ?k" "base b r = ?k" using nb(1) by (simp_all add: r' base_def 1)
    moreover have "\<forall>i < N. (pc_tx_sem (tr_pc r))[n mod N := pc_tx_sem (tr_pc r) ! (n mod N) - 1] ! i = 0"
      using assms(1) nb N i by (auto simp: opened_def nth_list_update)
    ultimately have "opened N m True r'" using assms(1) n nb(1) unfolding opened_def by (auto simp: r' 1 Suc_le_eq less_Suc_eq)
    then show ?thesis using 1 r' by simp
  next
    case 2
    then show ?thesis using assms(1) r' by (auto simp: opened_def)
  qed
qed

lemma pass_on_opened:
  assumes "opened N m b r" "tx_step (Pass_On n) r = Some r'"
  shows "opened N m False r' \<and> tr_sent r' = tr_sent r"
proof -
  let ?k = "length (tr_sent r)"
  have N: "0 < N" "workers r = N" "N \<le> length (pc_tx_sem (tr_pc r))" using assms(1) by (simp_all add: opened_def)
  then have i: "Suc n mod N < length (pc_tx_sem (tr_pc r))" by (meson less_le_trans mod_less_divisor)
  have e: "tr_phase r n = Sending"
    and r': "r' = r\<lparr>tr_pc := (tr_pc r)\<lparr>pc_tx_sem := (pc_tx_sem (tr_pc r))[Suc n mod N := Suc (pc_tx_sem (tr_pc r) ! (Suc n mod N))]\<rparr>,
                    tr_phase := (tr_phase r)(n := Finished)\<rparr>"
    using assms(2) N i by (auto simp: tx_step_def worker_pass_on_def sem_post_def tx_turn_at bind_eq_Some_conv split: if_splits)
  have "\<not> tr_started r \<le> n" "\<not> n < base b r" "\<not> (?k \<le> n \<and> n < tr_started r)"
    using assms(1) e unfolding opened_def by (metis phase.distinct)+
  then have b: "b" "Suc n = ?k" using assms(1) by (auto simp: base_def opened_def split: if_splits)
  have "base False r' = ?k" "base b r = n" using b by (auto simp: r' base_def)
  moreover have "\<forall>i < N. (pc_tx_sem (tr_pc r))[Suc n mod N := Suc (pc_tx_sem (tr_pc r) ! (Suc n mod N))] ! i = (if i = ?k mod N then 1 else 0)"
    using assms(1) b N i by (auto simp: opened_def nth_list_update)
  ultimately show ?thesis using assms(1) b unfolding opened_def r' by (auto simp: less_Suc_eq)
qed

section \<open>Before the first worker enters\<close>

lemma ready_not_opened: "tx_ready pc \<Longrightarrow> not_opened (unat (pc_nof_workers pc)) (tx_start pc)"
  by (auto simp: tx_ready_def not_opened_def tx_start_def unat_gt_0)

lemma not_opened_step:
  assumes "not_opened N r" "tx_step l r = Some r'" "\<And>n. l = Enter n \<Longrightarrow> n = 0" "\<And>n. l \<noteq> Give_Up n"
  shows "not_opened N r' \<and> l = Start \<or> opened N None False r' \<and> l = Enter 0"
proof (cases l)
  case Start
  have "filter (\<lambda>n. tr_phase r n \<noteq> Finished \<and> tr_phase r n \<noteq> Given_Up) [0..<tr_started r] = [0..<tr_started r]"
    using assms(1) by (simp add: not_opened_def)
  then have "tr_started r < N" "r' = r\<lparr>tr_started := tr_started r + 1, tr_phase := (tr_phase r)(tr_started r := Working)\<rparr>"
    using assms(1,2) Start by (auto simp: tx_step_def not_opened_def split: if_splits)
  then show ?thesis using assms(1) Start by (auto simp: not_opened_def)
next
  case (Enter n)
  then have n: "n = 0" using assms(3) by simp
  have N: "0 < N" "workers r = N" "N \<le> length (pc_tx_sem (tr_pc r))" using assms(1) by (simp_all add: not_opened_def)
  have t: "tx_turn (turn r 0) (tr_pc r) = Some 0" using tx_turn_at(1)[of r 0] N by simp
  have l: "0 < length (pc_tx_sem (tr_pc r))" using N(1,3) by linarith
  have s: "pc_tx_sem (tr_pc r) ! i = 0" if "i < N" for i using assms(1) N(3) that by (simp add: not_opened_def)
  have s0: "pc_tx_sem (tr_pc r) ! 0 = 0" using s[OF N(1)] .
  have r': "r' = r\<lparr>tr_pc := (tr_pc r)\<lparr>pc_is_first_tx := False, pc_tx_sem := (pc_tx_sem (tr_pc r))[0 := 1]\<rparr>,
        tr_phase := (tr_phase r)(0 := Entered)\<rparr>" "0 < tr_started r"
    using assms(1,2) Enter n N t l s0
    by (auto simp: s0 tx_step_def worker_enter_def sem_post_def not_opened_def bind_eq_Some_conv split: if_splits)
  have "\<forall>i < N. (pc_tx_sem (tr_pc r))[0 := 1] ! i = (if i = 0 then 1 else 0)"
    using s l by (simp add: nth_list_update del: length_greater_0_conv)
  then show ?thesis using assms(1) Enter n N(1) r'(2) unfolding r'(1) opened_def by (simp add: not_opened_def base_def)
qed (use assms in \<open>auto simp: tx_step_def not_opened_def split: if_splits\<close>)

text \<open>The labels: which one opens the way, and that nobody gives up.\<close>

fun is_enter :: "tx_label \<Rightarrow> bool" where
  "is_enter (Enter n) = True"
| "is_enter _ = False"

definition opens_first :: "tx_label list \<Rightarrow> bool" where
  "opens_first ls = (case filter is_enter ls of [] \<Rightarrow> True | l # _ \<Rightarrow> l = Enter 0)"

fun gives_up :: "tx_label \<Rightarrow> bool" where
  "gives_up (Give_Up n) = True"
| "gives_up _ = False"

lemma opened_step_other:
  assumes "opened N m b r" "tx_step l r = Some r'" "\<not> gives_up l" "\<And>n. l \<noteq> Proceed n"
  shows "\<exists>b. opened N m b r'"
proof (cases l)
  case Start
  then show ?thesis using start_opened[OF assms(1)] assms(2) by blast
next
  case (Enter n)
  then show ?thesis using enter_opened[OF assms(1)] assms(2) by blast
next
  case (Pass_On n)
  then show ?thesis using pass_on_opened[OF assms(1)] assms(2) by blast
qed (use assms(3,4) in simp_all)

lemma opened_step:
  assumes "opened N None b r" "tx_step l r = Some r'" "\<not> gives_up l"
  shows "\<exists>b. opened N None b r'"
proof (cases "\<exists>n. l = Proceed n")
  case True
  then show ?thesis using proceed_opened[OF assms(1)] assms(2) by blast
next
  case False
  then show ?thesis using opened_step_other[OF assms] by blast
qed

lemma opened_steps:
  assumes "tx_steps ls r = Some r'" "opened N None b r" "\<forall>l \<in> set ls. \<not> gives_up l"
  shows "\<exists>b. opened N None b r'"
  using assms
proof (induction ls arbitrary: r b)
  case (Cons l ls)
  then obtain r1 where r1: "tx_step l r = Some r1" "tx_steps ls r1 = Some r'" by (auto simp: tx_steps_def bind_eq_Some_conv)
  have "\<exists>b. opened N None b r1" using opened_step[OF Cons.prems(2) r1(1)] Cons.prems(3) by simp
  then show ?case using Cons.IH[OF r1(2)] Cons.prems(3) by auto
qed (auto simp: tx_steps_def)

lemma not_opened_steps:
  assumes "tx_steps ls r = Some r'" "not_opened N r" "opens_first ls" "\<forall>l \<in> set ls. \<not> gives_up l"
  shows "(\<exists>b. opened N None b r') \<or> not_opened N r' \<and> (\<forall>l \<in> set ls. \<not> is_enter l)"
  using assms
proof (induction ls arbitrary: r)
  case (Cons l ls)
  then obtain r1 where r1: "tx_step l r = Some r1" "tx_steps ls r1 = Some r'" by (auto simp: tx_steps_def bind_eq_Some_conv)
  have "not_opened N r1 \<and> l = Start \<or> opened N None False r1 \<and> l = Enter 0"
    by (rule not_opened_step[OF Cons.prems(2) r1(1)]) (use Cons.prems(3,4) in \<open>auto simp: opens_first_def\<close>)
  then show ?case
  proof
    assume "not_opened N r1 \<and> l = Start"
    then show ?case using Cons.IH[OF r1(2)] Cons.prems(3,4) by (auto simp: opens_first_def)
  next
    assume "opened N None False r1 \<and> l = Enter 0"
    then show ?case using opened_steps[OF r1(2)] Cons.prems(4) by auto
  qed
qed (auto simp: tx_steps_def)

text \<open>After one worker gave up: in order so far, or overtaken by a round of turns.\<close>

definition overtaken :: "nat \<Rightarrow> nat \<Rightarrow> nat list \<Rightarrow> bool" where
  "overtaken N m xs \<longleftrightarrow> (\<exists>k \<le> m. \<exists>ys. xs = [0..<k] @ (k + N) # ys)"

lemma sent_grows: "tx_step l r = Some r' \<Longrightarrow> \<exists>ys. tr_sent r' = tr_sent r @ ys"
  by (cases l) (auto simp: tx_step_def bind_eq_Some_conv split: if_splits)

lemma given_up_steps:
  assumes "tx_steps ls r = Some r'" "(\<exists>b. opened N (Some m) b r) \<or> overtaken N m (tr_sent r)" "\<forall>l \<in> set ls. \<not> gives_up l"
  shows "(\<exists>b. opened N (Some m) b r') \<or> overtaken N m (tr_sent r')"
  using assms
proof (induction ls arbitrary: r)
  case (Cons l ls)
  then obtain r1 where r1: "tx_step l r = Some r1" "tx_steps ls r1 = Some r'" by (auto simp: tx_steps_def bind_eq_Some_conv)
  have "(\<exists>b. opened N (Some m) b r1) \<or> overtaken N m (tr_sent r1)"
  proof (cases "overtaken N m (tr_sent r)")
    case True
    then show ?thesis using sent_grows[OF r1(1)] by (fastforce simp: overtaken_def)
  next
    case False
    then obtain b where b: "opened N (Some m) b r" using Cons.prems(2) by blast
    have s: "tr_sent r = [0..<length (tr_sent r)]" using b by (simp add: opened_def)
    show ?thesis
    proof (cases "\<exists>n. l = Proceed n")
      case True
      then obtain n where "l = Proceed n" ..
      then have "opened N (Some m) True r1 \<or>
          length (tr_sent r) \<le> m \<and> tr_sent r1 = tr_sent r @ [length (tr_sent r) + N]"
        using proceed_opened[OF b, of n r1] r1(1) by auto
      then show ?thesis using s unfolding overtaken_def by metis
    next
      case False
      then show ?thesis using opened_step_other[OF b r1(1)] Cons.prems(3) by auto
    qed
  qed
  then show ?case using Cons.IH[OF r1(2)] Cons.prems(3) by auto
qed (auto simp: tx_steps_def)

section \<open>Progress\<close>

definition goes_on :: "tx_run \<Rightarrow> bool" where
  "goes_on r \<longleftrightarrow> (\<exists>l r'. l \<noteq> Start \<and> \<not> gives_up l \<and> tx_step l r = Some r')"

lemma goes_onI: "tx_step l r \<noteq> None \<Longrightarrow> l \<noteq> Start \<Longrightarrow> \<not> gives_up l \<Longrightarrow> goes_on r"
  by (auto simp: goes_on_def)

lemma opened_goes_on:
  assumes "opened N None b r" "n < tr_started r" "tr_phase r n \<noteq> Finished"
  shows "goes_on r"
proof -
  let ?k = "length (tr_sent r)"
  have le: "base b r \<le> n" using assms unfolding opened_def by (meson not_le_imp_less)
  have N: "0 < workers r" "workers r \<le> length (pc_tx_sem (tr_pc r))" using assms(1) by (simp_all add: opened_def)
  then have i: "j mod workers r < length (pc_tx_sem (tr_pc r))" for j by (meson less_le_trans mod_less_divisor)
  show ?thesis
  proof (cases b)
    case True
    then have "tr_phase r (base b r) = Sending" using assms(1) by (simp add: opened_def)
    then show ?thesis using i N
      by (intro goes_onI[of "Pass_On (base b r)"]) (simp_all add: tx_step_def worker_pass_on_def sem_post_def tx_turn_at)
  next
    case False
    then have "?k < tr_started r" using le assms(2) by (simp add: base_def)
    then consider "tr_phase r ?k = Working" | "tr_phase r ?k = Entered"
      using assms(1) unfolding opened_def by (metis option.discI order_refl)
    then show ?thesis
    proof cases
      case 1
      have "\<not> pc_is_first_tx (tr_pc r)" using assms(1) by (simp add: opened_def)
      then show ?thesis using 1 by (intro goes_onI[of "Enter ?k"]) (simp_all add: tx_step_def worker_enter_def)
    next
      case 2
      have "pc_tx_sem (tr_pc r) ! (?k mod workers r) = 1" using assms(1) False N by (simp add: opened_def)
      then show ?thesis using 2 i N
        by (intro goes_onI[of "Proceed ?k"]) (simp_all add: tx_step_def worker_wait_def tx_turn_at)
    qed
  qed
qed

lemma not_opened_goes_on:
  assumes "not_opened N r" "0 < tr_started r"
  shows "goes_on r"
proof -
  have N: "0 < workers r" "0 < length (pc_tx_sem (tr_pc r))" "pc_is_first_tx (tr_pc r)" "tr_phase r 0 = Working"
    using assms by (auto simp: not_opened_def)
  then have "tx_turn (turn r 0) (tr_pc r) = Some 0" using tx_turn_at(1)[of r 0] by simp
  then show ?thesis using N
    by (intro goes_onI[of "Enter 0"]) (simp_all add: tx_step_def worker_enter_def sem_post_def tx_turn_def split: if_splits)
qed

lemma opened_sending: "opened N None b r \<Longrightarrow> tr_phase r n = Sending \<Longrightarrow> n = base b r"
proof (rule ccontr)
  assume a: "opened N None b r" "tr_phase r n = Sending" "n \<noteq> base b r"
  then have "n < base b r \<or> tr_started r \<le> n \<or> length (tr_sent r) \<le> n \<and> n < tr_started r"
    by (auto simp: base_def split: if_splits)
  then show False using a(1,2) unfolding opened_def by (metis option.discI phase.distinct)
qed

section \<open>Properties\<close>



section \<open>Witnesses\<close>

definition demo_tx :: phch_common where
  "demo_tx = \<lparr>pc_cell = cell_zero,
     pc_pusch_cfg = \<lparr>dm_cyclic_shift = 0, dm_delta_ss = 0, dm_group_hopping_en = False, dm_sequence_hopping_en = False\<rparr>,
     pc_hopping_cfg = \<lparr>hp_hop_mode = HOP_MODE_INTER_SF, hp_n_sb = 0, hp_hopping_offset = 0\<rparr>,
     pc_pucch_cfg = \<lparr>pc_delta_pucch_shift = 0, pc_N_cs = 0, pc_n_rb_2 = 0, pc_n1_pucch_an = 0\<rparr>,
     pc_pdsch_p_b = 0, pc_ul_grants = [], pc_dl_grants = [], pc_common_ue_db = [],
     pc_tx_sem = [0, 0, 0, 0], pc_is_first_tx = True, pc_is_first_of_burst = True, pc_nof_workers = 2, pc_max_workers = 4,
     pc_mbsfn = \<lparr>mb_radio_fr_alloc_period = 0, mb_radio_fr_alloc_offset = 0, mb_subfr_alloc_num_frames = NUM_FRAMES_ONE,
       mb_subfr_alloc = 0, mb_area_id = 0, mb_non_mbsfn_region_length = 0, mb_mcch_repetition_period = 0,
       mb_mcch_offset = 0, mb_sf_alloc_info = 0, mb_signalling_mcs = 0, mb_pmch_datamcs = []\<rparr>,
     pc_sib13_configured = False, pc_mcch_configured = False, pc_mch_table = replicate 40 0, pc_mcch_table = replicate 10 0\<rparr>"

lemma demo_tx_ready: "tx_ready demo_tx"
  by (simp add: tx_ready_def demo_tx_def)

definition demo_run :: "tx_label list" where
  "demo_run = [Start, Start, Enter 0, Enter 1, Proceed 0, Pass_On 0, Start, Proceed 1]"

definition demo_run' :: "tx_label list" where
  "demo_run' = [Start, Enter 0, Proceed 0, Pass_On 0, Start]"

lemma demo_tx_runs:
  "map_option tr_sent (tx_steps demo_run (tx_start demo_tx)) = Some [0, 1]"
  "map_option tr_sent (tx_steps (demo_run' @ Give_Up 1 # [Start, Enter 2, Start, Enter 3, Proceed 3, Pass_On 3, Proceed 2])
     (tx_start demo_tx)) = Some [0, 3, 2]"
  by code_simp+



end
