(* ===== verification/Phy_Answers.thy ===== *)
theory Phy_Answers
  imports Phy_Rounds Tx_Order
begin

text \<open>
  The way of a block from the grant of the MAC to the report of its answer: rounds of the TTIs in their
  order, each by some worker, and what they do to the answers awaited.
\<close>

section \<open>One round\<close>

text \<open>The tables of the shared state have a slot for each TTI of the cycle, and those of the library their rows.\<close>

definition slots_ok :: "srslte \<Rightarrow> phy_lib \<Rightarrow> phch_common \<Rightarrow> bool" where
  "slots_ok E H pc \<longleftrightarrow> pc_ok E H pc \<and> length (pc_ul_grants pc) = TTIMOD_SZ H \<and> length (pc_dl_grants pc) = TTIMOD_SZ H"

definition ratios_ok :: "phy_lib \<Rightarrow> bool" where
  "ratios_ok H \<longleftrightarrow> length (cell_specific_ratio_table H) = 2 \<and> (\<forall>row \<in> set (cell_specific_ratio_table H). length row = 4)"

definition config_of :: "phch_common \<Rightarrow> phch_common" where
  "config_of pc = pc\<lparr>pc_common_ue_db := [], pc_ul_grants := [], pc_dl_grants := []\<rparr>"

lemma sf_config_of: "get_sf_config H c t (config_of pc) = get_sf_config H c t pc"
proof -
  have f: "pc_mbsfn (config_of pc) = pc_mbsfn pc" "pc_sib13_configured (config_of pc) = pc_sib13_configured pc"
    "pc_mcch_configured (config_of pc) = pc_mcch_configured pc" "pc_mch_table (config_of pc) = pc_mch_table pc"
    "pc_mcch_table (config_of pc) = pc_mcch_table pc" by (simp_all add: config_of_def)
  show ?thesis
    unfolding get_sf_config_def is_mch_subframe_def is_mcch_subframe_def mbsfn_area_def mbsfn_data_mcs_def Let_def f by (rule refl)
qed

lemma sf_config_cong: "config_of pc' = config_of pc \<Longrightarrow> get_sf_config H c t pc' = get_sf_config H c t pc"
  by (metis sf_config_of)

lemma config_of_same: "same pc pc' \<Longrightarrow> config_of pc' = config_of pc"
proof -
  assume "same pc pc'"
  then have "(pc'\<lparr>pc_common_ue_db := []\<rparr>)\<lparr>pc_ul_grants := [], pc_dl_grants := []\<rparr> =
      (pc\<lparr>pc_common_ue_db := []\<rparr>)\<lparr>pc_ul_grants := [], pc_dl_grants := []\<rparr>" by (simp only: same_def)
  then show ?thesis by (simp add: config_of_def)
qed

lemma slots_same: "slots_ok E H pc \<Longrightarrow> same pc pc' \<Longrightarrow> pc_ok E H pc' \<Longrightarrow> slots_ok E H pc'"
  using same_fields[of pc pc'] by (simp add: slots_ok_def)

text \<open>The grants of the MAC: an accepted reply in a regular subframe is what is encoded and awaited.\<close>

definition accepted :: "subframe_cfg \<Rightarrow> mac_replies \<Rightarrow> mac_dl_grant list \<Rightarrow> bool" where
  "accepted c M gs \<longleftrightarrow> sfc_sf_type c = SUBFRAME_TYPE_REGULAR \<and> 0 \<le> fst (rp_ul M) \<and>
     (\<exists>r cfi. rp_dl M = (r, Some (gs, cfi)) \<and> 0 \<le> r \<and> 1 \<le> cfi \<and> cfi \<le> 3)"

lemma fetch_at:
  assumes "slots_ok E H pc" "tti_slot_ok H (wk_t_tx_dl w)" "tti_slot_ok H (wk_t_tx_ul w)"
  obtains go pc' cs where "fetch_grants c M w pc = Some (go, pc', cs)" "config_of pc' = config_of pc"
    "pc_common_ue_db pc' = pc_common_ue_db pc" "slots_ok E H pc'" "\<And>k tb. told k tb cs = 0"
    "\<And>gs. accepted c M gs \<Longrightarrow> go \<and> dl_grants (pc_dl_grants pc' ! unat (wk_t_tx_dl w)) = gs"
proof -
  let ?t = "unat (wk_t_tx_dl w)" and ?t' = "unat (wk_t_tx_ul w)"
  let ?d = "pc_dl_grants pc ! ?t" and ?r = "sfc_sf_type c = SUBFRAME_TYPE_REGULAR"
  have l: "?t < length (pc_dl_grants pc)" "?t' < length (pc_ul_grants pc)" using assms by (simp_all add: slots_ok_def tti_slot_ok_def)
  obtain ok d cs where r: "(if ?r then (0 \<le> fst (rp_dl M), write_dl_reply (snd (rp_dl M)) ?d, [To_Mac (Mac_Get_Dl_Sched (wk_tti_tx_dl w))])
        else (fst (rp_mch M) = 0,
              write_mch_reply (snd (rp_mch M)) (?d\<lparr>dg_cfi := ucast (sfc_non_mbsfn_region_length c)\<rparr>),
              [To_Enb (Set_Non_Mbsfn_Region (sfc_non_mbsfn_region_length c)),
               To_Mac (Mac_Get_Mch_Sched (sfc_is_mcch c))])) = (ok, d, cs)"
    by (metis surj_pair)
  then have cs: "told k tb cs = 0" for k tb by (auto split: if_splits)
  let ?pc = "pc\<lparr>pc_dl_grants := (pc_dl_grants pc)[?t := d]\<rparr>"
  have acc: "ok \<and> 1 \<le> dg_cfi d \<and> dg_cfi d \<le> 3 \<and> dl_grants d = gs" if "accepted c M gs" for gs
    using r that by (auto simp: accepted_def write_dl_reply_def dl_grants_def)
  show ?thesis
  proof (cases "\<not> ok \<or> dg_cfi d < 1 \<or> 3 < dg_cfi d")
    case True
    show ?thesis
    proof (rule that)
      show "fetch_grants c M w pc = Some (False, ?pc, cs)"
        using l r True by (simp add: fetch_grants_def Let_def)
      show "False \<and> dl_grants (pc_dl_grants ?pc ! ?t) = gs" if "accepted c M gs" for gs
        using acc[OF that] True by auto
    qed (use assms cs in \<open>simp_all add: config_of_def slots_ok_def pc_ok_def\<close>)
  next
    case False
    let ?u = "(pc_ul_grants pc)[?t' := write_ul_reply (snd (rp_ul M)) (pc_ul_grants pc ! ?t')]"
    show ?thesis
    proof (rule that)
      show "fetch_grants c M w pc =
          Some (0 \<le> fst (rp_ul M), ?pc\<lparr>pc_ul_grants := ?u\<rparr>, cs @ [To_Mac (Mac_Get_Ul_Sched (wk_tti_tx_ul w))])"
        using l r False by (simp add: fetch_grants_def Let_def)
      show "0 \<le> fst (rp_ul M) \<and> dl_grants (pc_dl_grants (?pc\<lparr>pc_ul_grants := ?u\<rparr>) ! ?t) = gs" if "accepted c M gs" for gs
        using acc[OF that] that l by (simp add: accepted_def)
    qed (use assms cs in \<open>simp_all add: config_of_def slots_ok_def pc_ok_def\<close>)
  qed
qed

text \<open>Encoding has a result and leaves the times of the worker.\<close>

lemma pdsch_total:
  assumes "ratios_ok H"
  shows "\<exists>w' cs'. encode_pdsch_grants H ok pc gs (w, cs) = Some (w', cs') \<and> times w' = times w"
proof (induction gs arbitrary: w cs)
  case (Cons g gs)
  have "\<exists>p. power_of H pc u = Some p" for u
  proof (cases "pc_pdsch_p_b pc < 4")
    case True
    then have "unat (pc_pdsch_p_b pc) < 4" by (simp add: word_less_nat_alt)
    then have "\<exists>r. rd2 (cell_specific_ratio_table H) i (unat (pc_pdsch_p_b pc)) = Some r" if "i < 2" for i
      using assms that by (simp add: ratios_ok_def rd2_def)
    from this[of 0] this[of 1] show ?thesis using True by (auto simp: power_of_def Let_def)
  qed (simp add: power_of_def Let_def)
  then obtain p where p: "power_of H pc (worker_ue_at (mg_rnti g) w) = Some p" by blast
  have "\<exists>go w1 cs1. encode_pdsch_grant H ok pc g (w, cs) = Some (go, w1, cs1) \<and> times w1 = times w"
    unfolding encode_pdsch_grant_def Let_def prod.case p bind.bind_lunit by (simp split: if_split) blast
  then obtain go w1 cs1 where g: "encode_pdsch_grant H ok pc g (w, cs) = Some (go, w1, cs1)" "times w1 = times w"
    by blast
  then show ?case using Cons.IH[of w1 cs1] by (cases go) auto
qed simp

lemma phich_times: "encode_phich acks w = (w', cs) \<Longrightarrow> times w' = times w"
proof -
  have "times (fst (fold (\<lambda>(ack, rnti) (w, cs).
         if rnti = 0 then (w, cs)
         else let u = worker_ue_at rnti w
              in (put_worker_ue rnti u w,
                  cs @ [To_Enb (Put_Phich ack (wu_phich_n_prb_lowest u) (wu_phich_n_dmrs u) (wk_sf_tx w))])) acks a)) = times (fst a)" for a
    by (induction acks arbitrary: a) (auto simp: Let_def split: prod.splits)
  from this[of "(w, [])"] show "encode_phich acks w = (w', cs) \<Longrightarrow> times w' = times w" by (simp add: encode_phich_def)
qed

lemma encode_at:
  assumes "ratios_ok H"
  obtains w' cs where "encode H ok c d g pc w = Some (w', cs)" "times w' = times w" "\<And>k tb. told k tb cs = 0"
proof -
  obtain w1 cs1 where p: "encode_pdsch H ok pc (dl_grants d) w = Some (w1, cs1)" "times w1 = times w"
    using pdsch_total[OF assms] unfolding encode_pdsch_def by blast
  obtain w2 cs2 where b: "(if sfc_sf_type c = SUBFRAME_TYPE_REGULAR then do {
                  (w', cs) \<leftarrow> encode_pdsch H ok pc (dl_grants d) w;
                  Some (w', snd (encode_pdcch_dl ok (dl_grants d) w) @ cs)
                } else Some (w, encode_pmch pc (first_grant d) (sfc_mbsfn_mcs c) w)) = Some (w2, cs2)" "times w2 = times w"
    using p by (cases "sfc_sf_type c = SUBFRAME_TYPE_REGULAR") simp_all
  obtain w3 ph where h: "encode_phich (ulg_phich g) w2 = (w3, ph)" by (metis surj_pair)
  obtain cs where e: "encode H ok c d g pc w = Some (w3, cs)"
    unfolding encode_def Let_def b(1) by (simp add: h)
  show ?thesis using told_enb[OF encode_enb[OF e]] phich_times[OF h] b(2) by (intro that[OF e]) simp_all
qed

text \<open>
  A round: the answers of its own slot of the users it hears are reported, those of the slot two delays
  later are set by the blocks it sends, and no other slot is touched.
\<close>

lemma work_at:
  fixes E :: srslte and H :: phy_lib and t cnt :: u32 and time :: int and v :: phch_worker
  assumes "tti_laws E" "phy_tti_laws E H" "ratios_ok H" "slots_ok E H pc" "decoders_ok H X" "omap_wf (wk_ue_db v)"
    "t < 10240" "get_sf_config H memory (TTI_TX E t) pc = Some c"
  defines "w \<equiv> set_time E H t cnt time v"
  obtains w' pc' cs where "work_imp E H X ok memory M w pc = Some (w', pc', cs)" "slots_ok E H pc'"
    "config_of pc' = config_of pc"
    "\<And>k s tb. s \<noteq> unat t mod TTIMOD_SZ H \<Longrightarrow> s \<noteq> answer_slot E H t \<Longrightarrow> pend pc' k s tb \<longleftrightarrow> pend pc k s tb"
    "\<And>k tb. wk_running v \<Longrightarrow> k \<in> users v \<Longrightarrow> is_crnti H k \<Longrightarrow>
       told k tb cs = (if tb < SRSLTE_MAX_TB E \<and> pend pc k (unat t mod TTIMOD_SZ H) tb then 1 else 0)"
    "\<And>k tb gs. wk_running v \<Longrightarrow> accepted c M gs \<Longrightarrow> known pc k \<Longrightarrow>
       pend pc' k (answer_slot E H t) tb \<longleftrightarrow> (\<exists>g \<in> set gs. wants E H g k tb)"
proof (cases "wk_running v")
  case False
  have "work_imp E H X ok memory M w pc = Some (w, pc, [])"
    using False by (simp add: work_imp_def w_def set_time_def Let_def)
  then show ?thesis by (rule that) (use False assms(4) in simp_all)
next
  case True
  note st = set_time_slots[OF assms(1,2,7), of cnt time v, folded w_def]
  let ?s = "unat t mod TTIMOD_SZ H" and ?a = "answer_slot E H t" and ?w = "w\<lparr>wk_is_worker_running := True\<rparr>"
  have d: "0 < HARQ_DELAY_MS E" using assms(2) by (simp add: phy_tti_laws_def)
  have rx: "wk_t_rx ?w = wk_t_rx w" "wk_tti_rx ?w = t" "unat (wk_t_rx w) = ?s" "wk_ue_db ?w = wk_ue_db v"
    using st slot_mod(1)[OF assms(2)] by simp_all
  have tx: "tti_slot_ok H (wk_t_tx_dl w)" "tti_slot_ok H (wk_t_tx_ul w)" "wk_tti_tx_dl w = TTI_TX E t"
    using slot_mod(2)[OF assms(2)] by (simp_all add: w_def set_time_def Let_def)
  have p: "pc_ok E H pc" "length (pc_ul_grants pc) = TTIMOD_SZ H" using assms(4) by (simp_all add: slots_ok_def)
  obtain w1 pc1 cs1 where r: "receive E H X ?w pc = Some (w1, pc1, cs1)"
      "takes E H (\<lambda>j s t. heard H ?w pc j \<and> s = ?s) pc pc1" "times w1 = times ?w"
      "\<And>k tb. told k tb cs1 = (if heard H ?w pc k \<and> tb < SRSLTE_MAX_TB E \<and> pend pc k ?s tb then 1 else 0)"
    using receive_at[OF p(1) _ d assms(5), of ?w] p(2) st(4) assms(6,7) unfolding rx by auto
  have s1: "slots_ok E H pc1" "config_of pc1 = config_of pc" "\<And>j. known pc j \<Longrightarrow> known pc1 j"
    using slots_same[OF assms(4)] config_of_same r(2) by (auto simp: takes_def)
  note t1 = times_fields[OF r(3)]
  obtain go pc2 cs2 where f: "fetch_grants c M w1 pc1 = Some (go, pc2, cs2)" "config_of pc2 = config_of pc1"
      "pc_common_ue_db pc2 = pc_common_ue_db pc1" "slots_ok E H pc2" "\<And>k tb. told k tb cs2 = 0"
      "\<And>gs. accepted c M gs \<Longrightarrow> go \<and> dl_grants (pc_dl_grants pc2 ! unat (wk_t_tx_dl w1)) = gs"
    using fetch_at[OF s1(1), of w1 c M] tx t1 by auto
  have p2: "pend pc2 k s tb = pend pc1 k s tb" "known pc2 k = known pc1 k" for k s tb
    using f(3) by (simp_all add: pend_def known_def common_ue_of_def)
  have told2: "told k tb (cs1 @ cs2) = (if tb < SRSLTE_MAX_TB E \<and> pend pc k ?s tb then 1 else 0)"
    if "k \<in> users v" "is_crnti H k" for k tb
    using r(4)[of k tb] f(5) that rx(4) by (simp add: heard_def users_def)
  have other: "pend pc2 k s tb \<longleftrightarrow> pend pc k s tb" if "s \<noteq> ?s" for k s tb
    using r(2) that by (simp add: p2 takes_def)
  have run: "wk_running w" using st(8) True by simp
  show ?thesis
  proof (cases go)
    case False
    have "work_imp E H X ok memory M w pc = Some (w1\<lparr>wk_is_worker_running := False\<rparr>, pc2, cs1 @ cs2)"
      using run assms(8) r(1) f(1) False by (simp add: work_imp_def tx(3))
    then show ?thesis by (rule that) (use f s1 other told2 False in auto)
  next
    case go: True
    let ?d = "pc_dl_grants pc2 ! unat (wk_t_tx_dl w1)" and ?g = "pc_ul_grants pc2 ! unat (wk_t_tx_ul w1)"
    have rd: "rd (pc_dl_grants pc2) (unat (wk_t_tx_dl w1)) = Some ?d" "rd (pc_ul_grants pc2) (unat (wk_t_tx_ul w1)) = Some ?g"
      using f(4) tx t1 by (simp_all add: slots_ok_def tti_slot_ok_def)
    obtain w3 out where e: "encode H ok c ?d ?g pc2 w1 = Some (w3, out)" "times w3 = times w1" "\<And>k tb. told k tb out = 0"
      using encode_at[OF assms(3)] by blast
    have a: "ack_slot E H w3 = ack_slot E H w" "unat (ack_slot E H w) = ?a"
      using times_fields(3)[OF e(2)] t1(3) st(3) by (simp_all add: ack_slot_def)
    obtain pc3 where c3: "ue_db_clear E (ack_slot E H w) pc2 = Some pc3" "takes E H (\<lambda>j s t. s = ?a) pc2 pc3"
      using clear_takes[OF _ st(5)] f(4) unfolding slots_ok_def a by blast
    have s3: "slots_ok E H pc3" "config_of pc3 = config_of pc2" "\<And>j. known pc2 j \<Longrightarrow> known pc3 j"
      using slots_same[OF f(4)] config_of_same c3(2) by (auto simp: takes_def)
    obtain pc4 where c4: "foldM (await_acks E H (ack_slot E H w)) (dl_grants ?d) pc3 = Some pc4"
        "adds E H ?a (\<lambda>j t. \<exists>g \<in> set (dl_grants ?d). wants E H g j t) pc3 pc4"
      using await_all_adds[OF _ st(5)] s3(1) unfolding slots_ok_def a by blast
    have s4: "slots_ok E H pc4" "config_of pc4 = config_of pc3"
      using slots_same[OF s3(1)] config_of_same c4(2) by (auto simp: adds_def)
    let ?sent = "[To_Enb (if sfc_sf_type c = SUBFRAME_TYPE_REGULAR then Gen_Signal else Gen_Signal_Mbsfn),
                 Worker_End (wk_tx_worker_cnt w3) (wk_tx_time w3)]"
    have "work_imp E H X ok memory M w pc = Some (w3\<lparr>wk_is_worker_running := False\<rparr>, pc4, cs1 @ cs2 @ out @ ?sent)"
      using run assms(8) r(1) f(1) go rd e(1) a(1) c3(1) c4(1) by (simp add: work_imp_def tx(3))
    then show ?thesis
    proof (rule that)
      show "slots_ok E H pc4" "config_of pc4 = config_of pc" using s4 s3(2) f(2) s1(2) by simp_all
      show "pend pc4 k s tb \<longleftrightarrow> pend pc k s tb" if "s \<noteq> ?s" "s \<noteq> ?a" for k s tb
        using c4(2) c3(2) other[OF that(1)] that(2) by (simp add: adds_def takes_def)
      show "told k tb (cs1 @ cs2 @ out @ ?sent) = (if tb < SRSLTE_MAX_TB E \<and> pend pc k ?s tb then 1 else 0)"
        if "k \<in> users v" "is_crnti H k" for k tb
        using told2[OF that, of tb] e(3)[of k tb] by simp
      show "pend pc4 k ?a tb \<longleftrightarrow> (\<exists>g \<in> set gs. wants E H g k tb)" if "accepted c M gs" "known pc k" for k tb gs
        using c4(2) c3(2) f(6)[OF that(1)] s3(3) s1(3)[OF that(2)] by (simp add: adds_def takes_def p2)
    qed
  qed
qed

section \<open>Rounds of consecutive TTIs\<close>

text \<open>What a round is given: the TTI, the count and time of its transmission, the worker and what it meets.\<close>

record round_in =
  ri_tti :: u32
  ri_cnt :: u32
  ri_time :: int
  ri_worker :: phch_worker
  ri_rx :: rx_signal
  ri_ok :: "enb_out \<Rightarrow> bool"
  ri_memory :: subframe_cfg
  ri_replies :: mac_replies

definition round_of :: "srslte \<Rightarrow> phy_lib \<Rightarrow> round_in \<Rightarrow> phch_common \<Rightarrow> round option" where
  "round_of E H i pc = work_imp E H (ri_rx i) (ri_ok i) (ri_memory i) (ri_replies i)
     (set_time E H (ri_tti i) (ri_cnt i) (ri_time i) (ri_worker i)) pc"

primrec rounds :: "srslte \<Rightarrow> phy_lib \<Rightarrow> round_in list \<Rightarrow> phch_common \<Rightarrow> (phch_common \<times> phy_call list list) option" where
  "rounds E H [] pc = Some (pc, [])"
| "rounds E H (i # is) pc = do {
     (_, pc, cs) \<leftarrow> round_of E H i pc;
     (pc, css) \<leftarrow> rounds E H is pc;
     Some (pc, cs # css)
   }"

text \<open>The decoders work, the users of the worker are a map, and the subframe to send has a configuration.\<close>

definition fit :: "srslte \<Rightarrow> phy_lib \<Rightarrow> phch_common \<Rightarrow> round_in \<Rightarrow> bool" where
  "fit E H pc i \<longleftrightarrow> decoders_ok H (ri_rx i) \<and> omap_wf (wk_ue_db (ri_worker i)) \<and>
     get_sf_config H (ri_memory i) (TTI_TX E (ri_tti i)) pc \<noteq> None"

text \<open>The rounds are those of the TTIs from \<open>n\<close> on, around the cycle.\<close>

definition in_order :: "nat \<Rightarrow> round_in list \<Rightarrow> bool" where
  "in_order n is \<longleftrightarrow> (\<forall>j < length is. unat (ri_tti (is ! j)) = (n + j) mod 10240)"

lemma in_order_Cons: "in_order n (i # is) \<longleftrightarrow> unat (ri_tti i) = n mod 10240 \<and> in_order (Suc n) is"
proof
  assume o: "in_order n (i # is)"
  have "unat (ri_tti (is ! j)) = (Suc n + j) mod 10240" if "j < length is" for j
    using o[unfolded in_order_def, rule_format, of "Suc j"] that by simp
  then show "unat (ri_tti i) = n mod 10240 \<and> in_order (Suc n) is"
    using o[unfolded in_order_def, rule_format, of 0] by (simp add: in_order_def)
next
  assume o: "unat (ri_tti i) = n mod 10240 \<and> in_order (Suc n) is"
  have "unat (ri_tti ((i # is) ! j)) = (n + j) mod 10240" if "j < length (i # is)" for j
    using o that by (cases j) (simp_all add: in_order_def)
  then show "in_order n (i # is)" by (simp add: in_order_def)
qed

lemma in_order_snoc: "in_order n (is @ [i]) \<longleftrightarrow> in_order n is \<and> unat (ri_tti i) = (n + length is) mod 10240"
proof (induction "is" arbitrary: n)
  case Nil
  show ?case using in_order_Cons[of n i "[]"] by (simp add: in_order_def)
next
  case (Cons x xs)
  show ?case using Cons.IH[of "Suc n"] by (simp add: in_order_Cons)
qed

lemma fit_cong: "config_of pc' = config_of pc \<Longrightarrow> fit E H pc' i = fit E H pc i"
proof -
  assume "config_of pc' = config_of pc"
  from sf_config_cong[OF this] show ?thesis by (simp add: fit_def)
qed

text \<open>A round of a TTI, by its number: which slots it touches.\<close>

lemma round_at:
  assumes "tti_laws E" "phy_tti_laws E H" "ratios_ok H" "slots_ok E H pc" "fit E H pc i" "unat (ri_tti i) = n mod 10240"
  obtains w' pc' cs where "round_of E H i pc = Some (w', pc', cs)" "slots_ok E H pc'" "config_of pc' = config_of pc"
    "\<And>k s tb. s \<noteq> n mod TTIMOD_SZ H \<Longrightarrow> s \<noteq> (n + 2 * HARQ_DELAY_MS E) mod TTIMOD_SZ H \<Longrightarrow> pend pc' k s tb \<longleftrightarrow> pend pc k s tb"
    "\<And>k tb. wk_running (ri_worker i) \<Longrightarrow> k \<in> users (ri_worker i) \<Longrightarrow> is_crnti H k \<Longrightarrow>
       told k tb cs = (if tb < SRSLTE_MAX_TB E \<and> pend pc k (n mod TTIMOD_SZ H) tb then 1 else 0)"
    "\<And>k tb c gs. wk_running (ri_worker i) \<Longrightarrow> get_sf_config H (ri_memory i) (TTI_TX E (ri_tti i)) pc = Some c \<Longrightarrow>
       accepted c (ri_replies i) gs \<Longrightarrow> known pc k \<Longrightarrow>
       pend pc' k ((n + 2 * HARQ_DELAY_MS E) mod TTIMOD_SZ H) tb \<longleftrightarrow> (\<exists>g \<in> set gs. wants E H g k tb)"
proof -
  obtain c where c: "get_sf_config H (ri_memory i) (TTI_TX E (ri_tti i)) pc = Some c" using assms(5) by (auto simp: fit_def)
  have t: "ri_tti i < 10240" using assms(6) by (simp add: word_less_nat_alt)
  have dv: "TTIMOD_SZ H dvd 10240" using assms(2) by (simp add: phy_tti_laws_def)
  have m: "(n mod 10240) mod TTIMOD_SZ H = n mod TTIMOD_SZ H" using dv by (rule mod_mod_cancel)
  have s: "unat (ri_tti i) mod TTIMOD_SZ H = n mod TTIMOD_SZ H"
    "answer_slot E H (ri_tti i) = (n + 2 * HARQ_DELAY_MS E) mod TTIMOD_SZ H"
    unfolding assms(6) answer_slot_def using m by (metis, metis mod_add_left_eq)
  note at = work_at[OF assms(1-4) _ _ t c, where X = "ri_rx i" and v = "ri_worker i" and ok = "ri_ok i" and M = "ri_replies i"
      and cnt = "ri_cnt i" and time = "ri_time i", unfolded s, folded round_of_def]
  show ?thesis
  proof (rule at)
    show "decoders_ok H (ri_rx i)" "omap_wf (wk_ue_db (ri_worker i))" using assms(5) by (simp_all add: fit_def)
  next
    fix w' pc' cs
    assume r: "round_of E H i pc = Some (w', pc', cs)" "slots_ok E H pc'" "config_of pc' = config_of pc"
      "\<And>k s tb. s \<noteq> n mod TTIMOD_SZ H \<Longrightarrow> s \<noteq> (n + 2 * HARQ_DELAY_MS E) mod TTIMOD_SZ H \<Longrightarrow> pend pc' k s tb \<longleftrightarrow> pend pc k s tb"
      "\<And>k tb. wk_running (ri_worker i) \<Longrightarrow> k \<in> users (ri_worker i) \<Longrightarrow> is_crnti H k \<Longrightarrow>
         told k tb cs = (if tb < SRSLTE_MAX_TB E \<and> pend pc k (n mod TTIMOD_SZ H) tb then 1 else 0)"
      "\<And>k tb gs. wk_running (ri_worker i) \<Longrightarrow> accepted c (ri_replies i) gs \<Longrightarrow> known pc k \<Longrightarrow>
         pend pc' k ((n + 2 * HARQ_DELAY_MS E) mod TTIMOD_SZ H) tb \<longleftrightarrow> (\<exists>g \<in> set gs. wants E H g k tb)"
    show ?thesis by (rule that[OF r(1-5)]) (use r(6) c in auto)
  qed
qed

text \<open>Rounds before the answer is due leave its slot alone.\<close>

lemma slots_apart:
  fixes n j d s :: nat
  assumes "0 < j" "j < d" "d < s"
  shows "(n + d) mod s \<noteq> (n + j) mod s" "(n + d) mod s \<noteq> (n + j + d) mod s"
proof -
  have "(n + d) mod s = (n + j) mod s \<longleftrightarrow> s dvd d - j" "(n + j + d) mod s = (n + d) mod s \<longleftrightarrow> s dvd j"
    using mod_eq_dvd_iff_nat[of "n + j" "n + d" s] mod_eq_dvd_iff_nat[of "n + d" "n + j + d" s] assms by simp_all
  then show "(n + d) mod s \<noteq> (n + j) mod s" "(n + d) mod s \<noteq> (n + j + d) mod s"
    using assms nat_dvd_not_less[of "d - j" s] nat_dvd_not_less[of j s] by auto
qed

lemma rounds_between:
  assumes "tti_laws E" "phy_tti_laws E H" "ratios_ok H" "slots_ok E H pc" "\<forall>i \<in> set is. fit E H pc i" "in_order (n + j) is"
    "0 < j" "j + length is \<le> 2 * HARQ_DELAY_MS E"
  shows "\<exists>pc' css. rounds E H is pc = Some (pc', css) \<and> length css = length is \<and> slots_ok E H pc' \<and> config_of pc' = config_of pc \<and>
    (\<forall>k tb. pend pc' k ((n + 2 * HARQ_DELAY_MS E) mod TTIMOD_SZ H) tb \<longleftrightarrow> pend pc k ((n + 2 * HARQ_DELAY_MS E) mod TTIMOD_SZ H) tb)"
  using assms(4-8)
proof (induction "is" arbitrary: pc j)
  case (Cons i "is")
  let ?d = "2 * HARQ_DELAY_MS E"
  have j: "j < ?d" "0 < Suc j" "Suc j + length is \<le> ?d" using Cons.prems(5) by simp_all
  have o: "unat (ri_tti i) = (n + j) mod 10240" "in_order (n + Suc j) is" using Cons.prems(3) by (simp_all add: in_order_Cons)
  have f: "fit E H pc i" "\<forall>i \<in> set is. fit E H pc i" using Cons.prems(2) by simp_all
  have ds: "?d < TTIMOD_SZ H" using assms(2) by (simp add: phy_tti_laws_def)
  obtain w1 pc1 cs where r: "round_of E H i pc = Some (w1, pc1, cs)" "slots_ok E H pc1" "config_of pc1 = config_of pc"
      "\<And>k tb. pend pc1 k ((n + ?d) mod TTIMOD_SZ H) tb \<longleftrightarrow> pend pc k ((n + ?d) mod TTIMOD_SZ H) tb"
    using round_at[OF assms(1-3) Cons.prems(1) f(1) o(1)] slots_apart[OF Cons.prems(4) j(1) ds] by metis
  have "\<forall>i \<in> set is. fit E H pc1 i" using f(2) fit_cong[OF r(3)] by simp
  then show ?case using Cons.IH[OF r(2) _ o(2) j(2,3)] r by fastforce
qed simp


section \<open>Witness\<close>

text \<open>Nine rounds around the end of the cycle of TTIs; in the first the MAC grants user 70 its first block.\<close>

definition demo_phy_lib :: phy_lib where
  "demo_phy_lib = \<lparr>TTIMOD_SZ = 10, TTI_RX = (\<lambda>t. (t + 10236) mod 10240), TTI_RX_ACK = (\<lambda>t. (t + 8) mod 10240),
     SRSLTE_CRNTI_START = 0xB, SRSLTE_CRNTI_END = 0xFFF3, ri_send = (\<lambda>_ _ _. False), cqi_hl_get_no_subbands = (\<lambda>_. 1),
     cqi_size = (\<lambda>_. 4), cqi_value_unpack = (\<lambda>_ v. v), mod_bits_x_symbol = (\<lambda>_. 2),
     ra_ul_dci_to_grant = (\<lambda>_ _ _. Some \<lparr>ug_mcs_idx = 0, ug_mcs_tbs = 16, ug_mod = MOD_QPSK, ug_Qm = 2, ug_ncs_dmrs = 0\<rparr>),
     ra_dl_dci_to_grant = (\<lambda>d _ _. \<lparr>pg_tb_en = dd_tb_en d, pg_nof_tb = 1, pg_pinfo = 0, pg_mcs_idx = dd_mcs_idx d\<rparr>),
     pdsch_config_p_a_num = [0], cell_specific_ratio_table = [[1, 4/5, 3/5, 2/5], [5/4, 1, 3/4, 1/2]],
     generate_mch_table = (\<lambda>_ _. []), generate_mcch_table = (\<lambda>_. []), mcch_repetition_period_num = (\<lambda>_. 32),
     radio_frame_allocation_period_num = (\<lambda>_. 1), non_mbsfn_region_length_num = (\<lambda>_. 1), mcch_signalling_mcs_num = (\<lambda>_. 2)\<rparr>"

definition demo_slots :: phch_common where
  "demo_slots = demo_tx\<lparr>pc_common_ue_db := [(70, common_ue_zero demo_lib demo_phy_lib)],
     pc_ul_grants := replicate 10 ul_sched_grants_zero, pc_dl_grants := replicate 10 dl_sched_grants_zero\<rparr>"

definition demo_grant :: mac_dl_grant where
  "demo_grant = dl_grant_zero\<lparr>mg_rnti := 70, mg_dci_format := FORMAT1, mg_grant := dl_dci_zero\<lparr>dd_tb_en := (\<lambda>tb. tb = 0)\<rparr>\<rparr>"

definition demo_turn :: "nat \<Rightarrow> round_in" where
  "demo_turn j = \<lparr>ri_tti = of_nat ((10235 + j) mod 10240), ri_cnt = of_nat j, ri_time = int j,
     ri_worker = \<lparr>wk_initiated = True, wk_running = True, wk_tti_rx = 0, wk_tti_tx_dl = 0, wk_tti_tx_ul = 0, wk_sf_rx = 0, wk_sf_tx = 0,
       wk_t_rx = 0, wk_t_tx_dl = 0, wk_t_tx_ul = 0, wk_tx_worker_cnt = 0, wk_tx_time = 0, wk_ue_db = [(70, worker_ue_new)],
       wk_is_worker_running = False\<rparr>,
     ri_rx = \<lparr>rx_pusch = (\<lambda>_ _ _ _ _ _ _ u _. (0, u, cqi_value_zero, 0, 0, 0)), rx_pucch = (\<lambda>_ _ _ u. (False, u, 1))\<rparr>,
     ri_ok = (\<lambda>_. True),
     ri_memory = \<lparr>sfc_sf_type = SUBFRAME_TYPE_REGULAR, sfc_mbsfn_area_id = 0, sfc_non_mbsfn_region_length = 0, sfc_mbsfn_mcs = 0,
       sfc_mbsfn_encode = False, sfc_is_mcch = False\<rparr>,
     ri_replies = \<lparr>rp_dl = (1, Some (if j = 0 then [demo_grant] else [], 1)), rp_mch = (0, None), rp_ul = (0, Some ([], []))\<rparr>\<rparr>"

lemma demo_laws: "tti_laws demo_lib" "phy_tti_laws demo_lib demo_phy_lib" "ratios_ok demo_phy_lib"
  by (simp_all add: tti_laws_def phy_tti_laws_def ratios_ok_def demo_lib_def demo_phy_lib_def add.commute)

lemma demo_slots_ok: "slots_ok demo_lib demo_phy_lib demo_slots" "known demo_slots 70"
  by (simp_all add: slots_ok_def pc_ok_def demo_slots_def common_zero known_def common_ue_of_def demo_phy_lib_def)

lemma demo_regular:
  "get_sf_config demo_phy_lib c t demo_slots = Some (subframe_cfg_default c\<lparr>sfc_sf_type := SUBFRAME_TYPE_REGULAR\<rparr>)"
proof -
  have "unat (t mod 10) < 40" for t :: u32 by (rule less_trans[of _ 10]) (simp_all add: unat_mod)
  then show ?thesis
    by (simp add: get_sf_config_def is_mch_subframe_def is_mcch_subframe_def demo_slots_def demo_tx_def demo_phy_lib_def frame_mod_def
        Let_def nth_replicate)
qed

lemma demo_turns:
  "fit demo_lib demo_phy_lib demo_slots (demo_turn j)"
  "in_order 10235 (demo_turn 0 # map demo_turn [1..<8] @ [demo_turn 8])"
  "accepted (subframe_cfg_default c\<lparr>sfc_sf_type := SUBFRAME_TYPE_REGULAR\<rparr>) (ri_replies (demo_turn 0)) [demo_grant]"
  "wk_running (ri_worker (demo_turn j))" "70 \<in> users (ri_worker (demo_turn j))" "is_crnti demo_phy_lib 70"
proof -
  show "fit demo_lib demo_phy_lib demo_slots (demo_turn j)"
  proof -
    have "ra_ul_dci_to_grant demo_phy_lib d n m \<noteq> None" for d n m by (simp add: demo_phy_lib_def)
    then have "decoders_ok demo_phy_lib (ri_rx (demo_turn j))" by (simp add: decoders_ok_def demo_turn_def)
    then show ?thesis by (simp add: fit_def demo_regular demo_turn_def omap_wf_def)
  qed
  have "[0..<9] = 0 # [1..<8] @ [8]" by code_simp
  then have "demo_turn 0 # map demo_turn [1..<8] @ [demo_turn 8] = map demo_turn [0..<9]" by simp
  moreover have "in_order 10235 (map demo_turn [0..<9])" by (simp add: in_order_def demo_turn_def unat_of_nat)
  ultimately show "in_order 10235 (demo_turn 0 # map demo_turn [1..<8] @ [demo_turn 8])" by metis
qed (simp_all add: accepted_def demo_turn_def users_def is_crnti_def demo_phy_lib_def)


end
