(* ===== verification/Spec2Isabelle.thy ===== *)
theory Spec2Isabelle
  imports Harq_Lifecycle Sched_UE_Config Metric_DL Metric_UL Sched_Users Mac_Props Mac_Threads Rrc_Tables S1ap_Props Prach_Props Phy Phy_Answers
begin

text \<open>
  A model of srsENB, the LTE base station of srsLTE, as found under \<^verbatim>\<open>src/srsenb\<close>. A base station
  schedules, every millisecond (TTI), who may send and receive on which part of the spectrum, carries the
  data of its users between the radio and the core network, and manages their connections. The
  development covers the MAC that schedules, the layers above it and the control of the physical layer.

  \<^bold>\<open>Parts and theories\<close>, bottom up; file names are relative to \<^verbatim>\<open>src/srsenb/src\<close>.

  \<^item> \<open>Prelude\<close>: checked array access (\<open>rd\<close>, \<open>wr\<close>), loops in the option monad (\<open>foldM\<close>), C integers
    (\<open>i32\<close>, \<open>of_i32\<close>), \<open>std::map\<close> as an ordered association list (\<open>omap\<close>) and the interface
    \<open>keyed_store\<close> the owners of user maps rely on.
  \<^item> \<open>Srslte_Env\<close>: what the code takes from the srsLTE library (block size tables, candidates of the
    control channel, constants), as the fields of one record.
  \<^item> \<open>Harq\<close>, \<open>Harq_Lifecycle\<close> (\<^verbatim>\<open>mac/scheduler_harq.cc\<close>): the retransmission processes, refined to an
    abstract life cycle of a transport block.
  \<^item> \<open>Sched_Types\<close>, \<open>Sched_Cce\<close>, \<open>Sched_UE\<close>, \<open>Sched_UE_Grants\<close> with the proofs in \<open>Sched_UE_Packing\<close>,
    \<open>Sched_UE_Tbs\<close>, \<open>Sched_UE_Props\<close>, \<open>Sched_UE_Harq\<close>, \<open>Sched_UE_Config\<close> (\<^verbatim>\<open>mac/scheduler_ue.cc\<close>): the
    scheduler's view of a user: buffers, configuration, feedback, choice of coding scheme and
    resource blocks, packing of PDUs into a transport block, and the DCIs that announce it.
  \<^item> \<open>Grant_Pool\<close>, \<open>Metric_DL\<close>, \<open>Metric_UL\<close> (\<^verbatim>\<open>mac/scheduler_metric.cc\<close>): the round-robin metrics that
    divide the spectrum; \<open>Grant_Pool\<close> is the locale of a pool from which disjoint grants are taken,
    interpreted for both directions.
  \<^item> \<open>Sched_State\<close>, \<open>Sched_DCI\<close>, \<open>Sched_DL\<close>, \<open>Sched_UL\<close> with the proofs in \<open>Dci_Pool\<close>,
    \<open>Dci_Disjoint\<close>, \<open>Sched_Rounds\<close>, \<open>Sched_Users\<close>, \<open>Sched_Keys\<close> (\<^verbatim>\<open>mac/scheduler.cc\<close>): the scheduler
    itself, its indications and its downlink and uplink rounds.
  \<^item> \<open>Mac_UE\<close>, \<open>Mac_UE_Props\<close> (\<^verbatim>\<open>mac/ue.cc\<close>): the user context of the MAC: PDUs in and out, soft
    buffers, metrics, logical channel groups.
  \<^item> \<open>Mac\<close>, \<open>Mac_Rounds\<close>, \<open>Mac_Users\<close>, \<open>Mac_Props\<close> (\<^verbatim>\<open>mac/mac.cc\<close>): the MAC entity that owns users and
    scheduler, random access, and the TTI rounds that turn scheduling results into grants of the PHY;
    \<open>Mac_Threads\<close>: the threads of the MAC, the one that drains the queues of PDUs step by step.
  \<^item> \<open>Upper_Types\<close>, \<open>Rlc\<close>, \<open>Pdcp\<close>, \<open>Gtpu\<close>, \<open>Gtpu_Props\<close> (\<^verbatim>\<open>upper/rlc.cc\<close>, \<^verbatim>\<open>upper/pdcp.cc\<close>,
    \<^verbatim>\<open>upper/gtpu.cc\<close>): the user tables of RLC and PDCP and the tunnels to the gateways; \<open>User_Plane\<close>
    composes them with the MAC.
  \<^item> \<open>Rrc_Types\<close>, \<open>Rrc_UE\<close>, \<open>Rrc\<close> with the proofs in \<open>Rrc_Slots\<close>, \<open>Rrc_Wf\<close>, \<open>Rrc_Calls\<close>,
    \<open>Rrc_Inv\<close>, \<open>Rrc_Tables\<close> (\<^verbatim>\<open>upper/rrc.cc\<close>): system information, users and their connections, the
    resources of the uplink control channel, paging, the thread and the activity monitor.
  \<^item> \<open>S1ap\<close>, \<open>S1ap_Props\<close> (\<^verbatim>\<open>upper/s1ap.cc\<close>): the connection to the MME, user contexts and messages.
  \<^item> \<open>Phy_Types\<close>, \<open>Phch_Common\<close>, \<open>Phch_Worker\<close>, \<open>Phch_Round\<close> with the proofs in \<open>Tx_Order\<close>, \<open>Phy_Acks\<close>,
    \<open>Phy_Rounds\<close>, \<open>Phy_Answers\<close> (\<^verbatim>\<open>phy/phch_common.cc\<close>, \<^verbatim>\<open>phy/phch_worker.cc\<close>): the workers of the
    physical layer, the round of a subframe and what the workers share.
  \<^item> \<open>Prach_Worker\<close>, \<open>Prach_Props\<close> (\<^verbatim>\<open>phy/prach_worker.cc\<close>): the collection and detection of preambles.
  \<^item> \<open>Phy\<close> (\<^verbatim>\<open>phy/phy.cc\<close>, \<^verbatim>\<open>phy/txrx.cc\<close>): the physical layer as a whole and the thread that receives.

  \<^bold>\<open>Correspondence.\<close> A class is a record whose fields have a prefix for the class and the name of the
  member; an operation is a definition with the name of the function (prefixed by its class where
  two classes share it) that takes and returns the record. \<open>uint32_t\<close> and \<open>uint16_t\<close> are words that
  wrap as in C, \<open>int\<close> is \<open>int\<close> with its conversions written out, a float that the code only compares,
  adds or rounds is an exact rational. A pointer to a HARQ process is its index. The result \<open>None\<close>
  of an operation stands for undefined behaviour (an index outside an array, a null pointer, a
  division by zero) or a loop that does not end; theorems that an operation returns are stated as such. Calls into
  another layer are a list in the order of the calls; the packers and codecs of the library are
  records of functions, the packers on an abstract state. In the physical layer a received subframe is what decoding it
  returns, and a subframe to send is the list of the encoder calls.

  \<^bold>\<open>What is shown.\<close> HARQ: refinement, bound on the retransmissions, new-data indicator. Users of the
  scheduler: a grant fills its block with exactly the bytes it takes from the buffers, grants
  return, retransmissions repeat their block, feedback finds its transmission. Metrics and scheduler: grants of
  a TTI are disjoint in the spectrum and in the control channel and avoid what is reserved, broadcast is
  counted, unknown users are errors without effect. MAC: the two user maps agree in every
  reachable state, no grant is lost on its way to the PHY, buffers go back once, data is routed in order; the thread that drains the queues
  waits only when they are empty, unless a notification comes at the wrong moment. Layers above: tunnels refine a table, packets
  cross the layers both ways. RRC: from a well-formed state every operation returns and leaves it so,
  control channel resources are distinct and counted, a released user is removed everywhere. S1AP:
  identities are unique and lead back to their user. PHY: workers transmit in the order of the TTIs whatever the
  interleaving, a block that was sent is answered exactly once, a preamble is collected and reported.
  Several theorems pin down behaviour that differs from what comments or names announce.

  \<^bold>\<open>Loops and bounds.\<close> Loops over a range are folds over the list of their indices; searches recurse
  on a counter the code bounds, so no fuel is chosen by hand except for \<open>rar_slot\<close>, whose 64 rounds are
  those of its array. Loops without an evident bound (\<open>stop_loop\<close>) are partial functions with a
  theorem that they return. A step that waits (a semaphore, a condition variable, an empty queue) has no result while
  it waits; interleavings are lists of labelled steps.

  \<^bold>\<open>Not modelled.\<close> Locks (an operation is atomic, but for the two places whose steps are taken apart:
  the end of a worker's round and the thread of PDUs), logging and packet capture; the signal processing
  of the PHY, the radio and the pool of threads, which are the library's; the plots. Start-up, the parsing of
  configuration files with libconfig and the console (\<^verbatim>\<open>enb.cc\<close>, \<^verbatim>\<open>main.cc\<close>, \<^verbatim>\<open>enb_cfg_parser.cc\<close>, \<^verbatim>\<open>parser.cc\<close>,
  \<^verbatim>\<open>metrics_stdout.cc\<close>) are input and output without state of their own. Of two branches chosen by
  \<^verbatim>\<open>ASYNC_DL_SCHED\<close> only the compiled one is modelled. The array of grants of the
  PHY is taken to be long enough. After \<open>mac_stop\<close> the map of users is not used any more. Rounds of workers that
  overlap in time are interleaved only at their end (\<open>Tx_Order\<close>); what they do to the shared tables is taken in the
  order of the TTIs (\<open>Phy_Answers\<close>).
\<close>

end
